(* ===== verification/Prelude.thy ===== *)
theory Prelude
  imports Main "HOL-Library.Word"
begin

text \<open>
  The vocabulary every component of the development shares: bytes and byte strings, the
  widths of Go's integers, the collections of rules the component theories extend, and
  the generic facts on lists, maps and folds that no component owns.

  Conventions.  A Go \<open>string\<close> and a Go \<open>[]byte\<close> that carries text is an Isabelle
  \<open>string\<close> (a list of 8-bit characters, so \<open>length\<close> counts bytes as Go's \<open>len\<close> does);
  a \<open>[]byte\<close> that carries a wire format is a \<open>byte list\<close>.  A Go pointer or interface
  that may be nil is an \<open>option\<close>.  A Go error return is the left injection of a sum; a
  run-time panic is \<open>None\<close> of an \<open>option\<close> or a constructor of its own.
\<close>

type_synonym byte = "8 word"
type_synonym uint16 = "16 word"
type_synonym uint32 = "32 word"
type_synonym uint64 = "64 word"

text \<open>
  \<open>limit_simps\<close> holds the defining equations of the limiters' small operations,
  \<open>inv_intros\<close> the preservation lemmas of the components' invariants and
  \<open>wire_simps\<close> the rules that compute with encoded byte strings.
\<close>

named_theorems limit_simps
named_theorems inv_intros
named_theorems wire_simps

section \<open>Lists\<close>

lemma takeWhile_eq_self_iff: "takeWhile P xs = xs \<longleftrightarrow> (\<forall>x\<in>set xs. P x)"
  by (induction xs) auto

lemma take_length_takeWhile: "take (length (takeWhile P xs)) xs = takeWhile P xs"
  by (induction xs) auto

lemma filter_partition_length:
  "length (filter P xs) + length (filter (\<lambda>x. \<not> P x) xs) = length xs"
  by (rule sum_length_filter_compl)

text \<open>A fold that only appends is a concatenation.\<close>

lemma foldl_append_concat: "foldl (\<lambda>acc x. acc @ f x) acc xs = acc @ concat (map f xs)"
  by (induction xs arbitrary: acc) auto

text \<open>
  The loop \<open>for _, k := range ks { m[key k] = val k }\<close> over a Go map: the last write
  to a key wins.
\<close>

definition map_writes :: "('k \<times> 'v) list \<Rightarrow> ('k \<rightharpoonup> 'v) \<Rightarrow> ('k \<rightharpoonup> 'v)" where
  "map_writes kvs m = foldl (\<lambda>m (k, v). m(k \<mapsto> v)) m kvs"

lemma map_writes_Nil [simp]: "map_writes [] m = m"
  by (simp add: map_writes_def)

lemma map_writes_Cons [simp]: "map_writes ((k, v) # kvs) m = map_writes kvs (m(k \<mapsto> v))"
  by (simp add: map_writes_def)

lemma map_writes_append: "map_writes (xs @ ys) m = map_writes ys (map_writes xs m)"
  by (simp add: map_writes_def)

lemma map_writes_lookup:
  "map_writes kvs m k = (case map_of (rev kvs) k of None \<Rightarrow> m k | Some v \<Rightarrow> Some v)"
proof (induction kvs arbitrary: m)
  case Nil
  then show ?case by simp
next
  case (Cons kv kvs)
  obtain k' v' where kv: "kv = (k', v')" by (cases kv)
  show ?case
    unfolding kv by (simp add: Cons.IH map_add_def split: option.splits)
qed

lemma map_writes_None: "k \<notin> fst ` set kvs \<Longrightarrow> map_writes kvs m k = m k"
proof -
  assume "k \<notin> fst ` set kvs"
  then have "map_of (rev kvs) k = None"
    by (simp add: map_of_eq_None_iff)
  then show ?thesis by (simp add: map_writes_lookup)
qed

lemma map_writes_dom: "dom (map_writes kvs m) = dom m \<union> fst ` set kvs"
proof (induction kvs arbitrary: m)
  case Nil
  then show ?case by simp
next
  case (Cons kv kvs)
  then show ?case by (cases kv) (auto simp del: dom_fun_upd simp: dom_fun_upd)
qed

section \<open>Options\<close>

lemma option_choice_Some:
  "(case a of None \<Rightarrow> b | Some x \<Rightarrow> Some x) = Some y \<longleftrightarrow> a = Some y \<or> (a = None \<and> b = Some y)"
  by (cases a) auto

lemma if_Some_None [simp]:
  "((if P then Some x else None) = Some y) \<longleftrightarrow> P \<and> x = y"
  "((if P then Some x else None) = None) \<longleftrightarrow> \<not> P"
  by simp_all

lemma option_choice_None:
  "(case a of None \<Rightarrow> b | Some x \<Rightarrow> Some x) = None \<longleftrightarrow> a = None \<and> b = None"
  by (cases a) auto

text \<open>The first defined value of a function along a list.\<close>

fun first_some :: "('a \<Rightarrow> 'b option) \<Rightarrow> 'a list \<Rightarrow> 'b option" where
  "first_some f [] = None"
| "first_some f (x # xs) = (case f x of Some v \<Rightarrow> Some v | None \<Rightarrow> first_some f xs)"

lemma first_some_None: "first_some f xs = None \<longleftrightarrow> (\<forall>x\<in>set xs. f x = None)"
  by (induction xs) (auto split: option.splits)

lemma first_some_split:
  "first_some f xs = Some v \<Longrightarrow>
   \<exists>ys x zs. xs = ys @ x # zs \<and> f x = Some v \<and> (\<forall>y\<in>set ys. f y = None)"
proof (induction xs)
  case Nil
  then show ?case by simp
next
  case (Cons a xs)
  show ?case
  proof (cases "f a")
    case None
    with Cons obtain ys x zs
      where "xs = ys @ x # zs" "f x = Some v" "\<forall>y\<in>set ys. f y = None" by auto
    with None have "a # xs = (a # ys) @ x # zs \<and> f x = Some v \<and> (\<forall>y\<in>set (a # ys). f y = None)"
      by simp
    then show ?thesis by blast
  next
    case (Some w)
    with Cons.prems have "a # xs = [] @ a # xs \<and> f a = Some v \<and> (\<forall>y\<in>set []. f y = None)"
      by simp
    then show ?thesis by blast
  qed
qed

lemma first_some_hit:
  "f x = Some v \<Longrightarrow> \<forall>y\<in>set ys. f y = None \<Longrightarrow> first_some f (ys @ x # zs) = Some v"
  by (induction ys) auto

lemma first_some_Some:
  "first_some f xs = Some v \<longleftrightarrow>
   (\<exists>ys x zs. xs = ys @ x # zs \<and> f x = Some v \<and> (\<forall>y\<in>set ys. f y = None))"
  using first_some_split first_some_hit by metis

lemma first_some_append:
  "first_some f (xs @ ys) = (case first_some f xs of Some v \<Rightarrow> Some v | None \<Rightarrow> first_some f ys)"
  by (induction xs) (auto split: option.splits)

section \<open>Machine words\<close>

text \<open>The value of a 64-bit signed integer after an operation that may overflow.\<close>

definition wrap64 :: "int \<Rightarrow> int" where
  "wrap64 x = (x + 2 ^ 63) mod 2 ^ 64 - 2 ^ 63"

lemma wrap64_id: "- (2 ^ 63) \<le> x \<Longrightarrow> x < 2 ^ 63 \<Longrightarrow> wrap64 x = x"
  by (simp add: wrap64_def)

lemma unat_of_nat_16: "n < 65536 \<Longrightarrow> unat (of_nat n :: uint16) = n"
  by (simp add: unat_of_nat)

end
