(* ===== verification/GoStrings.thy ===== *)
theory GoStrings
  imports Prelude
begin

text \<open>
  The functions of Go's packages \<open>strings\<close>, \<open>strconv\<close> and \<open>bufio\<close> the program uses,
  over byte strings.  They are standard library code, modelled from its documented and
  source behaviour: searching for a byte, splitting, trimming white space (with the UTF-8
  encodings of the Unicode white space characters), \<open>strconv.Atoi\<close> with its clamping, and
  the line splitting of a \<open>bufio.Scanner\<close> with its 64 KiB token limit.
\<close>

section \<open>Searching and cutting\<close>

text \<open>\<open>strings.IndexByte\<close>; the result -1 is \<open>None\<close>.\<close>

fun index_byte :: "char \<Rightarrow> string \<Rightarrow> nat option" where
  "index_byte c [] = None"
| "index_byte c (x # xs) = (if x = c then Some 0 else map_option Suc (index_byte c xs))"

definition last_index_byte :: "char \<Rightarrow> string \<Rightarrow> nat option" where
  "last_index_byte c s = map_option (\<lambda>i. length s - 1 - i) (index_byte c (rev s))"

definition contains_byte :: "char \<Rightarrow> string \<Rightarrow> bool" where
  "contains_byte c s \<longleftrightarrow> index_byte c s \<noteq> None"

definition contains_any :: "string \<Rightarrow> string \<Rightarrow> bool" where
  "contains_any s chars \<longleftrightarrow> (\<exists>c\<in>set chars. c \<in> set s)"

definition has_prefix :: "string \<Rightarrow> string \<Rightarrow> bool" where
  "has_prefix s p \<longleftrightarrow> take (length p) s = p"

definition has_suffix :: "string \<Rightarrow> string \<Rightarrow> bool" where
  "has_suffix s p \<longleftrightarrow> length p \<le> length s \<and> drop (length s - length p) s = p"

definition trim_suffix :: "string \<Rightarrow> string \<Rightarrow> string" where
  "trim_suffix s p = (if has_suffix s p then take (length s - length p) s else s)"

lemma index_byte_None: "index_byte c s = None \<longleftrightarrow> c \<notin> set s"
  by (induction s) auto

lemma index_byte_SomeD:
  "index_byte c s = Some i \<Longrightarrow> i < length s \<and> s ! i = c \<and> c \<notin> set (take i s)"
  by (induction s arbitrary: i) (auto split: if_splits)

lemma index_byte_split:
  "index_byte c s = Some i \<longleftrightarrow> (\<exists>t. s = take i s @ c # t \<and> c \<notin> set (take i s) \<and> i < length s)"
proof
  assume h: "index_byte c s = Some i"
  then show "\<exists>t. s = take i s @ c # t \<and> c \<notin> set (take i s) \<and> i < length s"
    using index_byte_SomeD [OF h] by (metis id_take_nth_drop)
next
  assume "\<exists>t. s = take i s @ c # t \<and> c \<notin> set (take i s) \<and> i < length s"
  then show "index_byte c s = Some i"
  proof (induction s arbitrary: i)
    case Nil
    then show ?case by simp
  next
    case (Cons x s)
    then show ?case by (cases i) auto
  qed
qed

lemma index_byte_append:
  "c \<notin> set a \<Longrightarrow> index_byte c (a @ c # b) = Some (length a)"
  by (induction a) auto

lemma index_byte_takeWhile:
  "index_byte c s = Some i \<Longrightarrow> take i s = takeWhile (\<lambda>x. x \<noteq> c) s"
  by (induction s arbitrary: i) (auto split: if_splits)

text \<open>
  The recurring \<open>if n := strings.IndexByte(s, '#'); n >= 0 { s = s[:n] }\<close> keeps what
  precedes the first comment sign.
\<close>

definition cut_comment :: "string \<Rightarrow> string" where
  "cut_comment s = (case index_byte CHR ''#'' s of Some n \<Rightarrow> take n s | None \<Rightarrow> s)"

lemma cut_comment_takeWhile: "cut_comment s = takeWhile (\<lambda>x. x \<noteq> CHR ''#'') s"
proof (cases "index_byte CHR ''#'' s")
  case None
  then have "\<forall>x\<in>set s. x \<noteq> CHR ''#''" by (auto simp: index_byte_None)
  then have t: "takeWhile (\<lambda>x. x \<noteq> CHR ''#'') s = s"
    by (simp only: takeWhile_eq_self_iff)
  show ?thesis unfolding cut_comment_def None t by simp
next
  case (Some n)
  then show ?thesis by (simp add: cut_comment_def index_byte_takeWhile)
qed

lemma cut_comment_no_hash [simp]: "CHR ''#'' \<notin> set (cut_comment s)"
  unfolding cut_comment_takeWhile by (metis (full_types) set_takeWhileD)

lemma cut_comment_id: "CHR ''#'' \<notin> set s \<Longrightarrow> cut_comment s = s"
  by (auto simp: cut_comment_takeWhile takeWhile_eq_self_iff)

section \<open>Splitting\<close>

text \<open>\<open>strings.Split(s, sep)\<close> for a one-byte separator.\<close>

fun split_byte :: "char \<Rightarrow> string \<Rightarrow> string list" where
  "split_byte c [] = [[]]"
| "split_byte c (x # xs) =
     (if x = c then [] # split_byte c xs
      else (case split_byte c xs of [] \<Rightarrow> [[x]] | w # ws \<Rightarrow> (x # w) # ws))"

text \<open>\<open>strings.SplitN(s, sep, 2)\<close>.\<close>

definition split_n2 :: "char \<Rightarrow> string \<Rightarrow> string list" where
  "split_n2 c s = (case index_byte c s of None \<Rightarrow> [s] | Some i \<Rightarrow> [take i s, drop (Suc i) s])"

lemma split_byte_ne [simp]: "split_byte c s \<noteq> []"
  by (induction s) (auto split: list.splits)

lemma split_byte_append:
  "split_byte c (a @ c # b) = split_byte c a @ split_byte c b"
proof (induction a)
  case Nil
  then show ?case by simp
next
  case (Cons x a)
  then show ?case
    by (cases "split_byte c a") (auto split: list.splits)
qed

lemma split_byte_single: "c \<notin> set s \<Longrightarrow> split_byte c s = [s]"
  by (induction s) auto

lemma split_byte_elem: "w \<in> set (split_byte c s) \<Longrightarrow> c \<notin> set w"
  by (induction s arbitrary: w) (auto split: list.splits if_splits)

lemma split_byte_chars: "w \<in> set (split_byte c s) \<Longrightarrow> set w \<subseteq> set s"
proof (induction s arbitrary: w)
  case Nil
  then show ?case by simp
next
  case (Cons x s)
  show ?case
  proof (cases "x = c")
    case True
    with Cons show ?thesis by auto
  next
    case False
    obtain u us where "split_byte c s = u # us"
      by (cases "split_byte c s") auto
    with False Cons show ?thesis by fastforce
  qed
qed

section \<open>White space\<close>

text \<open>
  \<open>strings.TrimSpace\<close> removes the characters \<open>unicode.IsSpace\<close> accepts from both ends: the
  ASCII white space, U+0085, U+00A0, U+1680, U+2000 to U+200A, U+2028, U+2029, U+202F,
  U+205F and U+3000, as they are encoded in UTF-8.
\<close>

definition ascii_space :: "char \<Rightarrow> bool" where
  "ascii_space c \<longleftrightarrow> c \<in> set [CHR 0x09, CHR 0x0A, CHR 0x0B, CHR 0x0C, CHR 0x0D, CHR 0x20]"

definition space2 :: "char \<Rightarrow> char \<Rightarrow> bool" where
  "space2 a b \<longleftrightarrow> a = CHR 0xC2 \<and> (b = CHR 0x85 \<or> b = CHR 0xA0)"

definition space3 :: "char \<Rightarrow> char \<Rightarrow> char \<Rightarrow> bool" where
  "space3 a b c \<longleftrightarrow>
     (a = CHR 0xE1 \<and> b = CHR 0x9A \<and> c = CHR 0x80) \<or>
     (a = CHR 0xE2 \<and> b = CHR 0x80 \<and>
        c \<in> set [CHR 0x80, CHR 0x81, CHR 0x82, CHR 0x83, CHR 0x84, CHR 0x85, CHR 0x86,
                 CHR 0x87, CHR 0x88, CHR 0x89, CHR 0x8A, CHR 0xA8, CHR 0xA9, CHR 0xAF]) \<or>
     (a = CHR 0xE2 \<and> b = CHR 0x81 \<and> c = CHR 0x9F) \<or>
     (a = CHR 0xE3 \<and> b = CHR 0x80 \<and> c = CHR 0x80)"

text \<open>\<open>flip\<close> says that the bytes come in reverse order, from the end of the string.\<close>

fun trim_left :: "bool \<Rightarrow> string \<Rightarrow> string" where
  "trim_left flip [] = []"
| "trim_left flip [a] = (if ascii_space a then [] else [a])"
| "trim_left flip [a, b] =
     (if ascii_space a then trim_left flip [b]
      else if (if flip then space2 b a else space2 a b) then []
      else [a, b])"
| "trim_left flip (a # b # c # s) =
     (if ascii_space a then trim_left flip (b # c # s)
      else if (if flip then space2 b a else space2 a b) then trim_left flip (c # s)
      else if (if flip then space3 c b a else space3 a b c) then trim_left flip s
      else a # b # c # s)"

definition trim_space :: "string \<Rightarrow> string" where
  "trim_space s = rev (trim_left True (rev (trim_left False s)))"

lemma trim_left_blank: "ascii_space a \<Longrightarrow> trim_left f (a # s) = trim_left f s"
  by (cases "(f, a # s)" rule: trim_left.cases) auto

lemma trim_left_set: "set (trim_left f s) \<subseteq> set s"
  by (induction f s rule: trim_left.induct) auto

lemma trim_space_set: "set (trim_space s) \<subseteq> set s"
  unfolding trim_space_def using trim_left_set by (metis set_rev subset_trans)

lemma trim_space_Nil [simp]: "trim_space [] = []"
  by (simp add: trim_space_def)

text \<open>A word of printable ASCII characters is not trimmed.\<close>

definition ascii_word :: "string \<Rightarrow> bool" where
  "ascii_word s \<longleftrightarrow> (\<forall>c\<in>set s. of_char c < (128 :: nat) \<and> \<not> ascii_space c)"

lemma ascii_word_not_space2: "ascii_word s \<Longrightarrow> a \<in> set s \<Longrightarrow> \<not> space2 a b \<and> \<not> space2 b a"
  by (auto simp: ascii_word_def space2_def)

lemma ascii_word_not_space3: "ascii_word s \<Longrightarrow> a \<in> set s \<Longrightarrow> \<not> space3 a b c \<and> \<not> space3 c b a"
  by (auto simp: ascii_word_def space3_def)

lemma trim_left_ascii_word: "ascii_word s \<Longrightarrow> trim_left f s = s"
proof (induction f s rule: trim_left.induct)
  case (3 f a b)
  then show ?case using ascii_word_not_space2 [OF "3.prems", of a b]
    by (auto simp: ascii_word_def)
next
  case (4 f a b c s)
  then show ?case
    using ascii_word_not_space2 [OF "4.prems", of a b] ascii_word_not_space3 [OF "4.prems", of a b c]
    by (auto simp: ascii_word_def)
qed (auto simp: ascii_word_def)

lemma trim_space_ascii_word: "ascii_word s \<Longrightarrow> trim_space s = s"
proof -
  assume a: "ascii_word s"
  then have "ascii_word (rev s)" by (simp add: ascii_word_def)
  with a show ?thesis by (simp add: trim_space_def trim_left_ascii_word)
qed

text \<open>Text between two printable ASCII characters is not trimmed either.\<close>

definition ascii_graph :: "char \<Rightarrow> bool" where
  "ascii_graph c \<longleftrightarrow> of_char c < (128 :: nat) \<and> \<not> ascii_space c"

lemma ascii_graph_not_space:
  "ascii_graph a \<Longrightarrow> \<not> ascii_space a \<and> \<not> space2 a b \<and> \<not> space2 b a \<and> \<not> space3 a b c \<and> \<not> space3 c b a"
  by (auto simp: ascii_graph_def space2_def space3_def)

lemma trim_left_graph: "ascii_graph a \<Longrightarrow> trim_left f (a # s) = a # s"
  using ascii_graph_not_space [of a] by (cases "(f, a # s)" rule: trim_left.cases) auto

lemma trim_space_graph: "ascii_graph a \<Longrightarrow> ascii_graph b \<Longrightarrow> trim_space (a # s @ [b]) = a # s @ [b]"
  by (simp add: trim_space_def trim_left_graph)

lemma ascii_word_graph: "ascii_word w \<Longrightarrow> c \<in> set w \<Longrightarrow> ascii_graph c"
  by (simp add: ascii_word_def ascii_graph_def)

section \<open>Fields\<close>

text \<open>
  The loop the line parsers share: split at blanks, trim every piece, keep the non-empty
  ones.
\<close>

definition split_fields :: "string \<Rightarrow> string list" where
  "split_fields line = filter (\<lambda>w. w \<noteq> []) (map trim_space (split_byte CHR '' '' line))"

definition tabs_to_blanks :: "string \<Rightarrow> string" where
  "tabs_to_blanks s = map (\<lambda>c. if c = CHR 0x09 then CHR '' '' else c) s"

lemma split_fields_nonempty: "w \<in> set (split_fields s) \<Longrightarrow> w \<noteq> []"
  by (auto simp: split_fields_def)

lemma split_fields_chars: "w \<in> set (split_fields s) \<Longrightarrow> set w \<subseteq> set s \<and> CHR '' '' \<notin> set w"
proof -
  assume "w \<in> set (split_fields s)"
  then obtain v where v: "v \<in> set (split_byte CHR '' '' s)" "w = trim_space v"
    by (auto simp: split_fields_def)
  from v(2) have "set w \<subseteq> set v" by (simp add: trim_space_set)
  moreover from v(1) have "set v \<subseteq> set s" "CHR '' '' \<notin> set v"
    by (auto dest: split_byte_chars split_byte_elem)
  ultimately show ?thesis by blast
qed

lemma ascii_word_no_blank: "ascii_word w \<Longrightarrow> CHR '' '' \<notin> set w"
  by (auto simp: ascii_word_def ascii_space_def)

lemma ascii_word_no_tab: "ascii_word w \<Longrightarrow> CHR 0x09 \<notin> set w"
  by (auto simp: ascii_word_def ascii_space_def)

lemma tabs_to_blanks_word: "ascii_word w \<Longrightarrow> tabs_to_blanks w = w"
  using ascii_word_no_tab by (force simp: tabs_to_blanks_def intro: map_idI)

lemma tabs_to_blanks_append: "tabs_to_blanks (a @ b) = tabs_to_blanks a @ tabs_to_blanks b"
  by (simp add: tabs_to_blanks_def)

text \<open>Words with single blanks before them are the fields of the line.\<close>

definition blank_words :: "string list \<Rightarrow> string" where
  "blank_words ws = concat (map (\<lambda>w. CHR '' '' # w) ws)"

lemma split_byte_blank_words:
  "CHR '' '' \<notin> set a \<Longrightarrow> \<forall>w\<in>set ws. CHR '' '' \<notin> set w \<Longrightarrow>
   split_byte CHR '' '' (a @ blank_words ws) = a # ws"
proof (induction ws arbitrary: a)
  case Nil
  then show ?case by (simp add: blank_words_def split_byte_single)
next
  case (Cons w ws)
  from Cons.IH [of w] Cons.prems have "split_byte CHR '' '' (w @ blank_words ws) = w # ws" by simp
  with Cons.prems show ?case
    by (simp add: blank_words_def split_byte_append split_byte_single)
qed

lemma blank_words_chars: "x \<in> set (blank_words ws) \<Longrightarrow> x = CHR '' '' \<or> (\<exists>w\<in>set ws. x \<in> set w)"
  by (auto simp: blank_words_def split: if_splits)

text \<open>
  A line as the tables' documentation writes it: words, then a blank and a comment.  Its
  preparation by the parsers (tabs, white space, comment) leaves the words and the blank.
\<close>

definition commented_line :: "string \<Rightarrow> string list \<Rightarrow> string \<Rightarrow> string" where
  "commented_line a ws c = a @ blank_words ws @ '' #'' @ c"

lemma cut_commented_line:
  assumes w: "\<forall>w\<in>set (a # ws). ascii_word w \<and> w \<noteq> [] \<and> CHR ''#'' \<notin> set w"
    and c: "ascii_word c"
  shows "cut_comment (trim_space (tabs_to_blanks (commented_line a ws c))) = a @ blank_words (ws @ [[]])"
proof -
  have "CHR 0x09 \<notin> set (commented_line a ws c)"
    using w c blank_words_chars [of "CHR 0x09" ws]
    by (auto simp: commented_line_def ascii_word_no_tab)
  then have t: "tabs_to_blanks (commented_line a ws c) = commented_line a ws c"
    by (auto simp: tabs_to_blanks_def intro: map_idI)
  obtain a0 a' where a: "a = a0 # a'" using w by (cases a) auto
  obtain c' c0 where c': "''#'' @ c = c' @ [c0]" by (cases "''#'' @ c" rule: rev_cases) auto
  have "c0 \<in> set (''#'' @ c)" unfolding c' by simp
  then have "ascii_graph c0"
    using c by (auto intro: ascii_word_graph) (simp add: ascii_graph_def ascii_space_def)
  moreover have "ascii_graph a0" using w a by (auto intro: ascii_word_graph)
  moreover have "commented_line a ws c = a0 # (a' @ blank_words ws @ '' '' @ c') @ [c0]"
    using c' by (simp add: commented_line_def a)
  ultimately have "trim_space (commented_line a ws c) = commented_line a ws c"
    by (metis trim_space_graph)
  moreover have "CHR ''#'' \<notin> set (a @ blank_words ws @ '' '')"
    using w blank_words_chars [of "CHR ''#''" ws] by auto
  then have "takeWhile (\<lambda>x. x \<noteq> CHR ''#'') ((a @ blank_words ws @ '' '') @ ''#'' @ c) =
      (a @ blank_words ws @ '' '')"
    by (subst takeWhile_append2) auto
  then have "cut_comment (commented_line a ws c) = a @ blank_words ws @ '' ''"
    by (simp add: cut_comment_takeWhile commented_line_def)
  ultimately show ?thesis by (simp add: t blank_words_def)
qed

lemma split_commented_line:
  assumes "\<forall>w\<in>set (a # ws). ascii_word w \<and> w \<noteq> [] \<and> CHR ''#'' \<notin> set w" and "ascii_word c"
  shows "split_fields (cut_comment (trim_space (tabs_to_blanks (commented_line a ws c)))) = a # ws"
proof -
  have "split_byte CHR '' '' (a @ blank_words (ws @ [[]])) = a # ws @ [[]]"
    using assms by (intro split_byte_blank_words) (auto simp: ascii_word_no_blank)
  moreover have "map trim_space (a # ws) = a # ws"
    using assms by (intro map_idI) (auto simp: trim_space_ascii_word)
  ultimately show ?thesis
    unfolding cut_commented_line [OF assms] using assms(1) by (simp add: split_fields_def filter_id_conv)
qed

section \<open>Numbers\<close>

definition digit_value :: "char \<Rightarrow> int option" where
  "digit_value c =
     (let n = of_char c in if 48 \<le> n \<and> n \<le> 57 then Some (n - 48) else None)"

text \<open>
  The digit loop of \<open>strconv.ParseUint(s, 10, 64)\<close>: a byte that is no digit is a syntax
  error (\<open>None\<close>), and a value that leaves 64 bits stops the loop with the largest value
  before the remaining bytes are read.
\<close>

fun parse_uint :: "int \<Rightarrow> string \<Rightarrow> int option" where
  "parse_uint n [] = Some n"
| "parse_uint n (c # cs) =
     (case digit_value c of
        None \<Rightarrow> None
      | Some d \<Rightarrow> if n * 10 + d > 2 ^ 64 - 1 then Some (2 ^ 64 - 1) else parse_uint (n * 10 + d) cs)"

text \<open>\<open>n, _ = strconv.Atoi(s)\<close>: 0 on a syntax error, the nearest int64 on overflow.\<close>

definition atoi :: "string \<Rightarrow> int" where
  "atoi s =
     (let neg = (s \<noteq> [] \<and> hd s = CHR ''-'');
          ds = (if s \<noteq> [] \<and> (hd s = CHR ''-'' \<or> hd s = CHR ''+'') then tl s else s)
      in if ds = [] then 0
         else case parse_uint 0 ds of
           None \<Rightarrow> 0
         | Some n \<Rightarrow> if neg then (if n > 2 ^ 63 then - (2 ^ 63) else - n)
                     else (if n \<ge> 2 ^ 63 then 2 ^ 63 - 1 else n))"

lemma digit_value_bound: "digit_value c = Some d \<Longrightarrow> 0 \<le> d \<and> d \<le> 9"
  by (auto simp: digit_value_def Let_def split: if_splits)

lemma parse_uint_bound:
  "0 \<le> n \<Longrightarrow> n \<le> 2 ^ 64 - 1 \<Longrightarrow> parse_uint n s = Some m \<Longrightarrow> 0 \<le> m \<and> m \<le> 2 ^ 64 - 1"
proof (induction n s rule: parse_uint.induct)
  case (2 n c cs)
  then show ?case
    by (cases "digit_value c") (auto dest: digit_value_bound split: if_splits)
qed auto

lemma atoi_int64: "- (2 ^ 63) \<le> atoi s \<and> atoi s < 2 ^ 63"
proof -
  have "0 \<le> n" if "parse_uint 0 ds = Some n" for ds n
    using parse_uint_bound [of 0 ds n] that by simp
  then show ?thesis
    by (fastforce simp: atoi_def Let_def split: option.splits)
qed

section \<open>Lines\<close>

text \<open>
  A \<open>bufio.Scanner\<close> over a whole text, with the default split function and buffer limit:
  the lines without their terminators (a carriage return before the line feed is
  dropped), and whether the scanner stopped with \<open>ErrTooLong\<close>, which it does when no line
  feed is among the next 65536 bytes and there are that many.
\<close>

definition drop_cr :: "string \<Rightarrow> string" where
  "drop_cr s = (if s \<noteq> [] \<and> last s = CHR 0x0D then butlast s else s)"

definition max_token_size :: int where
  "max_token_size = 65536"

function scan_lines :: "string \<Rightarrow> string list \<times> bool" where
  "scan_lines s =
     (if s = [] then ([], False)
      else case index_byte CHR 0x0A s of
        None \<Rightarrow> if int (length s) \<ge> max_token_size then ([], True) else ([drop_cr s], False)
      | Some i \<Rightarrow>
          if int i \<ge> max_token_size then ([], True)
          else let (ls, err) = scan_lines (drop (Suc i) s) in (drop_cr (take i s) # ls, err))"
  by pat_completeness auto
termination
  by (relation "measure length") (auto simp: length_greater_0_conv)

declare scan_lines.simps [simp del]

lemma scan_lines_Nil [simp]: "scan_lines [] = ([], False)"
  by (simp add: scan_lines.simps)

lemma scan_lines_cons:
  "CHR 0x0A \<notin> set l \<Longrightarrow> int (length l) < max_token_size \<Longrightarrow>
   scan_lines (l @ CHR 0x0A # r) = (drop_cr l # fst (scan_lines r), snd (scan_lines r))"
  by (subst scan_lines.simps) (simp add: index_byte_append split: prod.splits)

lemma scan_lines_last:
  "CHR 0x0A \<notin> set l \<Longrightarrow> l \<noteq> [] \<Longrightarrow> int (length l) < max_token_size \<Longrightarrow> scan_lines l = ([drop_cr l], False)"
proof -
  assume "CHR 0x0A \<notin> set l" "l \<noteq> []" "int (length l) < max_token_size"
  moreover from this have "index_byte CHR 0x0A l = None" by (simp add: index_byte_None)
  ultimately show ?thesis by (subst scan_lines.simps) simp
qed

text \<open>Lines joined with line feeds scan back to themselves: the loaders rely on it.\<close>

definition join_lines :: "string list \<Rightarrow> string" where
  "join_lines ls = concat (map (\<lambda>l. l @ [CHR 0x0A]) ls)"

definition clean_line :: "string \<Rightarrow> bool" where
  "clean_line l \<longleftrightarrow> CHR 0x0A \<notin> set l \<and> CHR 0x0D \<notin> set l \<and> int (length l) < max_token_size"

lemma drop_cr_id: "CHR 0x0D \<notin> set l \<Longrightarrow> drop_cr l = l"
  unfolding drop_cr_def by (metis last_in_set)

lemma scan_join_lines:
  "\<forall>l\<in>set ls. clean_line l \<Longrightarrow> scan_lines (join_lines ls) = (ls, False)"
proof (induction ls)
  case Nil
  then show ?case by (simp add: join_lines_def)
next
  case (Cons l ls)
  then have "scan_lines (l @ CHR 0x0A # join_lines ls) = (l # ls, False)"
    by (subst scan_lines_cons) (auto simp: clean_line_def drop_cr_id)
  then show ?case by (simp add: join_lines_def)
qed

section \<open>Letters\<close>

text \<open>
  \<open>strings.ToLower\<close>, as far as ASCII letters come of it: the letters A to Z, and the two other
  characters with an ASCII letter as their lower case, the Kelvin sign and the dotted capital I.
\<close>

definition lower_byte :: "char \<Rightarrow> char" where
  "lower_byte c = (if 65 \<le> (of_char c :: nat) \<and> (of_char c :: nat) \<le> 90 then char_of ((of_char c :: nat) + 32) else c)"

fun to_lower :: "string \<Rightarrow> string" where
  "to_lower [] = []"
| "to_lower (a # s) =
     (if a = CHR 0xE2 \<and> take 2 s = [CHR 0x84, CHR 0xAA] then CHR ''k'' # to_lower (drop 2 s)
      else if a = CHR 0xC4 \<and> take 1 s = [CHR 0xB0] then CHR ''i'' # to_lower (drop 1 s)
      else lower_byte a # to_lower s)"

text \<open>
  \<open>strings.EqualFold\<close>, for strings that agree outside the ASCII letters: a letter agrees with its
  other case, and k and s with the Kelvin sign and the long s.
\<close>

fun fold_bytes :: "string \<Rightarrow> string" where
  "fold_bytes [] = []"
| "fold_bytes (a # s) =
     (if a = CHR 0xE2 \<and> take 2 s = [CHR 0x84, CHR 0xAA] then CHR ''k'' # fold_bytes (drop 2 s)
      else if a = CHR 0xC5 \<and> take 1 s = [CHR 0xBF] then CHR ''s'' # fold_bytes (drop 1 s)
      else lower_byte a # fold_bytes s)"

definition equal_fold :: "string \<Rightarrow> string \<Rightarrow> bool" where
  "equal_fold s t \<longleftrightarrow> fold_bytes s = fold_bytes t"

text \<open>The key of a header field is the key \<open>k\<close>, given in small letters, when they agree but for case.\<close>

definition header_key :: "string \<Rightarrow> string \<Rightarrow> bool" where
  "header_key k key \<longleftrightarrow> map lower_byte key = k"

end
