(* ===== verification/GoNet.thy ===== *)
theory GoNet
  imports GoStrings
begin

text \<open>
  The part of Go's package \<open>net\<close> the program computes with: splitting and joining host and
  port, IP addresses in their 4- and 16-byte forms, their parser and printer, and CIDR
  notation.  It is standard library code, modelled branch by branch.
\<close>

section \<open>Host and port\<close>

text \<open>
  \<open>net.SplitHostPort\<close>: \<open>None\<close> is any of its errors, on which host and port come back empty.
\<close>

definition split_host_port :: "string \<Rightarrow> (string \<times> string) option" where
  "split_host_port hp =
     (case last_index_byte CHR '':'' hp of
        None \<Rightarrow> None
      | Some i \<Rightarrow>
          if hd hp = CHR ''[''
          then (case index_byte CHR '']'' hp of
                  None \<Rightarrow> None
                | Some e \<Rightarrow>
                    if Suc e = length hp \<or> Suc e \<noteq> i then None
                    else if contains_byte CHR ''['' (drop 1 hp) \<or> contains_byte CHR '']'' (drop (Suc e) hp)
                    then None
                    else Some (drop 1 (take e hp), drop (Suc i) hp))
          else if contains_byte CHR '':'' (take i hp) \<or> contains_byte CHR ''['' hp
                  \<or> contains_byte CHR '']'' hp
          then None
          else Some (take i hp, drop (Suc i) hp))"

text \<open>\<open>host, _, _ := net.SplitHostPort(addr)\<close>: the host, empty on an error.\<close>

definition host_of :: "string \<Rightarrow> string" where
  "host_of addr = (case split_host_port addr of None \<Rightarrow> [] | Some (h, p) \<Rightarrow> h)"

text \<open>\<open>if host, _, _ := net.SplitHostPort(addr); host != "" { addr = host }\<close>.\<close>

definition strip_port :: "string \<Rightarrow> string" where
  "strip_port addr = (if host_of addr \<noteq> [] then host_of addr else addr)"

definition join_host_port :: "string \<Rightarrow> string \<Rightarrow> string" where
  "join_host_port h p =
     (if contains_byte CHR '':'' h then ''['' @ h @ '']:'' @ p else h @ '':'' @ p)"

text \<open>A host name without the characters \<open>SplitHostPort\<close> treats specially.\<close>

definition plain_host :: "string \<Rightarrow> bool" where
  "plain_host h \<longleftrightarrow> CHR '':'' \<notin> set h \<and> CHR ''['' \<notin> set h \<and> CHR '']'' \<notin> set h"

lemma contains_byte_iff [simp]: "contains_byte c s \<longleftrightarrow> c \<in> set s"
  by (simp add: contains_byte_def index_byte_None)

lemma last_index_byte_append:
  "c \<notin> set b \<Longrightarrow> last_index_byte c (a @ c # b) = Some (length a)"
proof -
  assume "c \<notin> set b"
  then have "index_byte c (rev b @ c # rev a) = Some (length b)"
    using index_byte_append [of c "rev b" "rev a"] by simp
  then show ?thesis by (simp add: last_index_byte_def)
qed

lemma last_index_byte_None: "last_index_byte c s = None \<longleftrightarrow> c \<notin> set s"
  by (simp add: last_index_byte_def index_byte_None)

lemma split_join_host_port:
  assumes "plain_host h" and "plain_host p"
  shows "split_host_port (join_host_port h p) = Some (h, p)"
proof -
  have "last_index_byte CHR '':'' (h @ CHR '':'' # p) = Some (length h)"
    using assms by (intro last_index_byte_append) (simp add: plain_host_def)
  moreover have "hd (h @ CHR '':'' # p) \<noteq> CHR ''[''"
    using assms by (cases h) (auto simp: plain_host_def)
  ultimately show ?thesis
    using assms by (simp add: split_host_port_def join_host_port_def plain_host_def)
qed

lemma split_host_port_plain: "plain_host h \<Longrightarrow> split_host_port h = None"
proof -
  assume "plain_host h"
  then have "last_index_byte CHR '':'' h = None"
    by (simp add: last_index_byte_None plain_host_def)
  then show ?thesis unfolding split_host_port_def by simp
qed

lemma strip_port_plain: "plain_host h \<Longrightarrow> strip_port h = h"
  by (simp add: strip_port_def host_of_def split_host_port_plain)

lemma strip_port_join:
  "plain_host h \<Longrightarrow> plain_host p \<Longrightarrow> h \<noteq> [] \<Longrightarrow> strip_port (join_host_port h p) = h"
  by (simp add: strip_port_def host_of_def split_join_host_port)

section \<open>IP addresses\<close>

text \<open>\<open>net.IP\<close> is a byte slice; nil is the empty one.\<close>

type_synonym ip = "byte list"

definition v4_in_v6_prefix :: "byte list" where
  "v4_in_v6_prefix = [0,0,0,0,0,0,0,0,0,0,255,255]"

definition ip_to4 :: "ip \<Rightarrow> ip" where
  "ip_to4 p =
     (if length p = 4 then p
      else if length p = 16 \<and> take 12 p = v4_in_v6_prefix then drop 12 p
      else [])"

definition ip_to16 :: "ip \<Rightarrow> ip" where
  "ip_to16 p =
     (if length p = 4 then v4_in_v6_prefix @ p
      else if length p = 16 then p
      else [])"

definition ip_equal :: "ip \<Rightarrow> ip \<Rightarrow> bool" where
  "ip_equal p x =
     (if length p = length x then p = x
      else if length p = 4 \<and> length x = 16 then take 12 x = v4_in_v6_prefix \<and> p = drop 12 x
      else if length p = 16 \<and> length x = 4 then take 12 p = v4_in_v6_prefix \<and> drop 12 p = x
      else False)"

lemma ip_equal_to16:
  assumes "length p \<in> {4, 16}" and "length x \<in> {4, 16}"
  shows "ip_equal p x \<longleftrightarrow> ip_to16 p = ip_to16 x"
proof -
  have split: "y = v4_in_v6_prefix @ z \<longleftrightarrow> take 12 y = v4_in_v6_prefix \<and> z = drop 12 y" for y z :: ip
  proof
    assume "take 12 y = v4_in_v6_prefix \<and> z = drop 12 y"
    then show "y = v4_in_v6_prefix @ z" by (metis append_take_drop_id)
  qed (simp add: v4_in_v6_prefix_def)
  have "length p = 4 \<or> length p = 16" and "length x = 4 \<or> length x = 16"
    using assms by auto
  then show ?thesis
    using split [of p x] split [of x p] by (auto simp: ip_equal_def ip_to16_def)
qed

section \<open>Parsing addresses\<close>

text \<open>
  \<open>dtoi\<close> and \<open>xtoi\<close>: number and bytes consumed, \<open>None\<close> when there is no digit or the number
  reaches \<open>0xFFFFFF\<close>.
\<close>

definition hex_value :: "char \<Rightarrow> int option" where
  "hex_value c =
     (let n = of_char c in
      if 48 \<le> n \<and> n \<le> 57 then Some (n - 48)
      else if 97 \<le> n \<and> n \<le> 102 then Some (n - 87)
      else if 65 \<le> n \<and> n \<le> 70 then Some (n - 55)
      else None)"

fun toi_loop :: "(char \<Rightarrow> int option) \<Rightarrow> int \<Rightarrow> int \<Rightarrow> nat \<Rightarrow> string \<Rightarrow> (int \<times> nat) option" where
  "toi_loop val base n i [] = (if i = 0 then None else Some (n, i))"
| "toi_loop val base n i (c # cs) =
     (case val c of
        None \<Rightarrow> if i = 0 then None else Some (n, i)
      | Some d \<Rightarrow> if n * base + d \<ge> 16777215 then None else toi_loop val base (n * base + d) (Suc i) cs)"

definition dtoi :: "string \<Rightarrow> (int \<times> nat) option" where
  "dtoi = toi_loop digit_value 10 0 0"

definition xtoi :: "string \<Rightarrow> (int \<times> nat) option" where
  "xtoi = toi_loop hex_value 16 0 0"

text \<open>\<open>parseIPv4\<close>: four components, the last of which must end the string.\<close>

fun parse_ipv4_loop :: "nat \<Rightarrow> byte list \<Rightarrow> string \<Rightarrow> (byte list \<times> string) option" where
  "parse_ipv4_loop 0 p s = Some (p, s)"
| "parse_ipv4_loop (Suc k) p s =
     (if s = [] then None
      else if p \<noteq> [] \<and> hd s \<noteq> CHR ''.'' then None
      else let s = (if p \<noteq> [] then tl s else s) in
        case dtoi s of
          None \<Rightarrow> None
        | Some (n, c) \<Rightarrow>
            if n > 255 then None
            else if c > 1 \<and> hd s = CHR ''0'' then None
            else parse_ipv4_loop k (p @ [of_int n]) (drop c s))"

definition parse_ipv4 :: "string \<Rightarrow> ip option" where
  "parse_ipv4 s =
     (case parse_ipv4_loop 4 [] s of
        Some (p, []) \<Rightarrow> Some (v4_in_v6_prefix @ p)
      | _ \<Rightarrow> None)"

text \<open>
  The loop of \<open>parseIPv6\<close>: \<open>k\<close> groups can still come, \<open>acc\<close> holds the bytes so far, \<open>e\<close> the
  position of the ellipsis.
\<close>

fun parse_ipv6_loop ::
    "nat \<Rightarrow> byte list \<Rightarrow> nat option \<Rightarrow> string \<Rightarrow> (byte list \<times> nat option \<times> string) option" where
  "parse_ipv6_loop 0 acc e s = Some (acc, e, s)"
| "parse_ipv6_loop (Suc k) acc e s =
     (case xtoi s of
        None \<Rightarrow> None
      | Some (n, c) \<Rightarrow>
          if n > 65535 then None
          else if c < length s \<and> s ! c = CHR ''.'' then
            (if e = None \<and> length acc \<noteq> 12 then None
             else if length acc + 4 > 16 then None
             else case parse_ipv4 s of None \<Rightarrow> None | Some p \<Rightarrow> Some (acc @ drop 12 p, e, []))
          else
            let acc = acc @ [of_int (n div 256), of_int (n mod 256)] in
            (case drop c s of
               [] \<Rightarrow> Some (acc, e, [])
             | x # s' \<Rightarrow>
                 if x \<noteq> CHR '':'' then None
                 else (case s' of
                   [] \<Rightarrow> None
                 | y # s'' \<Rightarrow>
                     if y = CHR '':'' then
                       (if e \<noteq> None then None
                        else if s'' = [] then Some (acc, Some (length acc), [])
                        else parse_ipv6_loop k acc (Some (length acc)) s'')
                     else parse_ipv6_loop k acc e s')))"

definition parse_ipv6 :: "string \<Rightarrow> ip option" where
  "parse_ipv6 s =
     (let lead = has_prefix s ''::''; s = (if lead then drop 2 s else s) in
      if lead \<and> s = [] then Some (replicate 16 0)
      else case parse_ipv6_loop 8 [] (if lead then Some 0 else None) s of
        None \<Rightarrow> None
      | Some (acc, e, rest) \<Rightarrow>
          if rest \<noteq> [] then None
          else if length acc < 16 then
            (case e of
               None \<Rightarrow> None
             | Some k \<Rightarrow> Some (take k acc @ replicate (16 - length acc) 0 @ drop k acc))
          else if e \<noteq> None then None
          else Some acc)"

text \<open>\<open>net.ParseIP\<close>: the first dot or colon decides; nil is \<open>None\<close>.\<close>

definition parse_ip :: "string \<Rightarrow> ip option" where
  "parse_ip s =
     (case dropWhile (\<lambda>c. c \<noteq> CHR ''.'' \<and> c \<noteq> CHR '':'') s of
        [] \<Rightarrow> None
      | c # _ \<Rightarrow> if c = CHR ''.'' then parse_ipv4 s else parse_ipv6 s)"

section \<open>Printing addresses\<close>

fun dec_string :: "nat \<Rightarrow> string" where
  "dec_string n =
     (if n < 10 then [char_of (48 + n)] else dec_string (n div 10) @ [char_of (48 + n mod 10)])"

definition hex_digit :: "int \<Rightarrow> char" where
  "hex_digit d = (if d < 10 then char_of (48 + d) else char_of (87 + d))"

fun hex_string :: "int \<Rightarrow> string" where
  "hex_string n =
     (if n < 16 then [hex_digit n] else hex_string (n div 16) @ [hex_digit (n mod 16)])"

declare dec_string.simps [simp del]
declare hex_string.simps [simp del]

fun join_strings :: "string \<Rightarrow> string list \<Rightarrow> string" where
  "join_strings sep [] = []"
| "join_strings sep [w] = w"
| "join_strings sep (w # v # ws) = w @ sep @ join_strings sep (v # ws)"

fun ip_groups :: "byte list \<Rightarrow> int list" where
  "ip_groups (a # b # bs) = (uint a * 256 + uint b) # ip_groups bs"
| "ip_groups _ = []"

definition zero_run :: "int list \<Rightarrow> nat \<Rightarrow> nat" where
  "zero_run gs i = length (takeWhile (\<lambda>g. g = 0) (drop i gs))"

text \<open>The first longest run of zero groups, as start and length.\<close>

definition longest_run :: "int list \<Rightarrow> nat \<times> nat" where
  "longest_run gs =
     foldl (\<lambda>(s, n) i. if zero_run gs i > n then (i, zero_run gs i) else (s, n)) (0, 0) [0..<8]"

definition ip_string :: "ip \<Rightarrow> string" where
  "ip_string p =
     (if p = [] then ''<nil>''
      else if ip_to4 p \<noteq> [] then join_strings ''.'' (map (\<lambda>b. dec_string (unat b)) (ip_to4 p))
      else if length p \<noteq> 16 then ''?'' @ concat (map (\<lambda>b. [hex_digit (uint b div 16), hex_digit (uint b mod 16)]) p)
      else let gs = ip_groups p; (s, n) = longest_run gs in
        if n < 2 then join_strings '':'' (map hex_string gs)
        else join_strings '':'' (map hex_string (take s gs)) @ ''::'' @
             join_strings '':'' (map hex_string (drop (s + n) gs)))"

section \<open>Networks\<close>

record ipnet =
  net_ip :: ip
  net_mask :: "byte list"

text \<open>\<open>net.CIDRMask(ones, bits)\<close>, for \<open>bits\<close> a multiple of 8.\<close>

fun cidr_mask :: "nat \<Rightarrow> nat \<Rightarrow> byte list" where
  "cidr_mask ones 0 = []"
| "cidr_mask ones (Suc k) =
     (if ones \<ge> 8 then 255 # cidr_mask (ones - 8) k
      else of_nat (256 - 2 ^ (8 - ones)) # cidr_mask 0 k)"

definition mask_ip :: "byte list \<Rightarrow> byte list \<Rightarrow> byte list" where
  "mask_ip m p = map2 (and) p m"

text \<open>\<open>net.ParseCIDR\<close>, its network only; \<open>None\<close> is the parse error (the network is nil).\<close>

definition parse_cidr :: "string \<Rightarrow> ipnet option" where
  "parse_cidr s =
     (case index_byte CHR ''/'' s of
        None \<Rightarrow> None
      | Some i \<Rightarrow>
          let addr = take i s; mask = drop (Suc i) s;
              (iplen, pip) = (case parse_ipv4 addr of
                                Some p \<Rightarrow> (4, Some (drop 12 p))
                              | None \<Rightarrow> (16, parse_ipv6 addr))
          in case (pip, dtoi mask) of
               (Some p, Some (n, c)) \<Rightarrow>
                 if c \<noteq> length mask \<or> n > 8 * int iplen then None
                 else let m = cidr_mask (nat n) iplen in
                   Some \<lparr>net_ip = mask_ip m p, net_mask = m\<rparr>
             | _ \<Rightarrow> None)"

text \<open>\<open>IPNet.Contains\<close>, on a network whose address and mask have the same length.\<close>

definition ipnet_contains :: "ipnet \<Rightarrow> ip \<Rightarrow> bool" where
  "ipnet_contains n x =
     (let nn = (if ip_to4 (net_ip n) \<noteq> [] then ip_to4 (net_ip n) else net_ip n);
          m = (if length (net_mask n) = 16 \<and> length nn = 4 then drop 12 (net_mask n) else net_mask n);
          x = (if ip_to4 x \<noteq> [] then ip_to4 x else x)
      in length m = length nn \<and> length x = length nn \<and> mask_ip m nn = mask_ip m x)"

text \<open>The number of leading one bits of the mask: how specific the network is.\<close>

definition mask_ones :: "ipnet \<Rightarrow> nat" where
  "mask_ones n = length (takeWhile (\<lambda>b. b) (concat (map (\<lambda>b. rev (map (bit b) [0..<8])) (net_mask n))))"

section \<open>What the parsers produce\<close>

lemma parse_ipv4_loop_length:
  "parse_ipv4_loop k p s = Some (q, r) \<Longrightarrow> length q = length p + k"
  by (induction k p s arbitrary: q r rule: parse_ipv4_loop.induct)
    (auto simp: Let_def split: if_splits option.splits prod.splits)

lemma parse_ipv4_length: "parse_ipv4 s = Some p \<Longrightarrow> length p = 16 \<and> length (ip_to4 p) = 4"
  by (auto simp: parse_ipv4_def v4_in_v6_prefix_def ip_to4_def
      dest!: parse_ipv4_loop_length split: option.splits prod.splits list.splits)

definition ellipsis_ok :: "byte list \<Rightarrow> nat option \<Rightarrow> bool" where
  "ellipsis_ok acc e \<longleftrightarrow> (case e of None \<Rightarrow> True | Some i \<Rightarrow> i \<le> length acc)"

lemma ellipsis_ok_simps [simp]:
  "ellipsis_ok acc None" "ellipsis_ok acc (Some i) \<longleftrightarrow> i \<le> length acc"
  by (simp_all add: ellipsis_ok_def)

lemma ellipsis_ok_mono: "ellipsis_ok acc e \<Longrightarrow> ellipsis_ok (acc @ xs) e"
  by (cases e) auto

lemma parse_ipv6_loop_length:
  "parse_ipv6_loop k acc e s = Some (q, e', r) \<Longrightarrow> length acc + 2 * k = 16 \<Longrightarrow>
   ellipsis_ok acc e \<Longrightarrow> length q \<le> 16 \<and> ellipsis_ok q e'"
proof (induction k arbitrary: acc e s)
  case 0
  then show ?case by auto
next
  case (Suc k)
  note loop = Suc.prems(1)
  define step where "step n = acc @ [of_int (n div 256), of_int (n mod 256) :: byte]" for n
  have len: "length (step n) + 2 * k = 16" and ok: "ellipsis_ok (step n) e" for n
    using Suc.prems(2,3) by (simp_all add: step_def ellipsis_ok_mono)
  have le: "length (step n) \<le> 16" for n
    using len [of n] by simp
  have IH: "length q \<le> 16 \<and> ellipsis_ok q e'"
    if "parse_ipv6_loop k (step n) f t = Some (q, e', r)" "f = e \<or> f = Some (length (step n))" for n f t
    using Suc.IH [OF that(1) len] that(2) ok by auto
  show ?case
    using loop [unfolded parse_ipv6_loop.simps Let_def, folded step_def] le ok Suc.prems(2,3)
    by (auto split: option.splits prod.splits if_splits list.splits
        dest!: parse_ipv4_length intro: ellipsis_ok_mono IH dest: IH)
qed

lemma parse_ipv6_length: "parse_ipv6 s = Some p \<Longrightarrow> length p = 16"
  unfolding parse_ipv6_def Let_def
  by (auto split: if_splits option.splits prod.splits dest!: parse_ipv6_loop_length)

lemma parse_ip_length: "parse_ip s = Some p \<Longrightarrow> length p = 16"
  by (auto simp: parse_ip_def dest: parse_ipv6_length parse_ipv4_length split: list.splits if_splits)

lemma parse_ip_not_nil: "parse_ip s = Some p \<Longrightarrow> p \<noteq> []"
  by (auto dest: parse_ip_length)

end
