(* ===== verification/Cidr.thy ===== *)
theory Cidr
  imports GoNet
begin

text \<open>
  The CIDR ranger.  \<open>github.com/yl2chen/cidranger\<close> is a third-party package, so its trie is a
  parameter of the model: a record of the four operations the program calls.  The locale
  \<open>cidr_ranger\<close> states the documented behaviour the program relies on (which networks a
  ranger built by insertions contains, and that \<open>ContainingNetworks\<close> answers in ascending
  prefix order), and the lemmas its clients use.  A list of entries meets it.
\<close>

section \<open>The operations\<close>

record ('r, 'e) ranger_ops =
  rg_new :: 'r
  rg_insert :: "ipnet \<Rightarrow> 'e \<Rightarrow> 'r \<Rightarrow> 'r"
  rg_contains :: "'r \<Rightarrow> ip \<Rightarrow> bool"
  rg_containing :: "'r \<Rightarrow> ip \<Rightarrow> 'e list"

text \<open>A ranger after the insertions \<open>es\<close>, in order.\<close>

definition rg_build :: "('r, 'e) ranger_ops \<Rightarrow> (ipnet \<times> 'e) list \<Rightarrow> 'r" where
  "rg_build R es = foldl (\<lambda>r (n, e). rg_insert R n e r) (rg_new R) es"

lemma rg_build_Nil [simp]: "rg_build R [] = rg_new R"
  by (simp add: rg_build_def)

lemma rg_build_snoc: "rg_insert R n e (rg_build R es) = rg_build R (es @ [(n, e)])"
  by (simp add: rg_build_def)

section \<open>What its clients rely on\<close>

text \<open>
  An insertion for a network already present replaces its entry: the last insertion for a
  network is the live one.
\<close>

definition live_entry :: "(ipnet \<times> 'e) list \<Rightarrow> ipnet \<Rightarrow> 'e \<Rightarrow> bool" where
  "live_entry es n e \<longleftrightarrow> map_of (rev es) n = Some e"

locale cidr_ranger =
  fixes R :: "('r, 'e) ranger_ops"
  assumes contains_iff:
      "rg_contains R (rg_build R es) x \<longleftrightarrow> (\<exists>n e. (n, e) \<in> set es \<and> ipnet_contains n x)"
    and containing_sound:
      "e \<in> set (rg_containing R (rg_build R es) x) \<Longrightarrow>
       \<exists>n. live_entry es n e \<and> ipnet_contains n x"
    and containing_complete:
      "(n, e) \<in> set es \<Longrightarrow> ipnet_contains n x \<Longrightarrow> rg_containing R (rg_build R es) x \<noteq> []"
    and containing_first:
      "rg_containing R (rg_build R es) x = e # rest \<Longrightarrow>
       \<exists>n. live_entry es n e \<and> ipnet_contains n x \<and>
           (\<forall>m f. (m, f) \<in> set es \<longrightarrow> ipnet_contains m x \<longrightarrow> mask_ones n \<le> mask_ones m)"
begin

lemma containing_Nil_iff:
  "rg_containing R (rg_build R es) x = [] \<longleftrightarrow> (\<forall>n e. (n, e) \<in> set es \<longrightarrow> \<not> ipnet_contains n x)"
proof (cases "rg_containing R (rg_build R es) x")
  case Nil
  then show ?thesis using containing_complete by auto
next
  case (Cons e rest)
  then obtain n where "live_entry es n e" "ipnet_contains n x"
    using containing_first by blast
  moreover from this have "(n, e) \<in> set es"
    by (auto simp: live_entry_def dest: map_of_SomeD)
  ultimately show ?thesis using Cons by auto
qed

lemma contains_containing:
  "rg_contains R (rg_build R es) x \<longleftrightarrow> rg_containing R (rg_build R es) x \<noteq> []"
  by (auto simp: contains_iff containing_Nil_iff)

lemma new_empty: "rg_containing R (rg_new R) x = []" "\<not> rg_contains R (rg_new R) x"
  using containing_Nil_iff [of "[]"] contains_iff [of "[]"] by auto

end

section \<open>A ranger as a list of entries\<close>

text \<open>
  Insertion replaces the entry of the same network; \<open>ContainingNetworks\<close> filters and sorts
  by prefix length.
\<close>

definition list_ranger :: "((ipnet \<times> 'e) list, 'e) ranger_ops" where
  "list_ranger =
     \<lparr>rg_new = [],
      rg_insert = (\<lambda>n e r. filter (\<lambda>(m, f). m \<noteq> n) r @ [(n, e)]),
      rg_contains = (\<lambda>r x. list_ex (\<lambda>(n, e). ipnet_contains n x) r),
      rg_containing = (\<lambda>r x. map snd (sort_key (\<lambda>(n, e). mask_ones n)
                               (filter (\<lambda>(n, e). ipnet_contains n x) r)))\<rparr>"

lemma list_ranger_entries:
  "(n, e) \<in> set (rg_build list_ranger es) \<longleftrightarrow> live_entry es n e"
proof (induction es arbitrary: n e rule: rev_induct)
  case Nil
  then show ?case by (simp add: list_ranger_def live_entry_def)
next
  case (snoc ne es)
  obtain m f where ne: "ne = (m, f)" by (cases ne)
  have "rg_build list_ranger (es @ [ne]) = rg_insert list_ranger m f (rg_build list_ranger es)"
    unfolding ne by (simp only: rg_build_snoc)
  then show ?case
    using snoc unfolding ne by (auto simp: list_ranger_def live_entry_def)
qed

lemma list_ranger_nets:
  "(\<exists>n e. (n, e) \<in> set (rg_build list_ranger es) \<and> P n) \<longleftrightarrow> (\<exists>n e. (n, e) \<in> set es \<and> P n)"
proof
  assume "\<exists>n e. (n, e) \<in> set (rg_build list_ranger es) \<and> P n"
  then show "\<exists>n e. (n, e) \<in> set es \<and> P n"
    unfolding list_ranger_entries live_entry_def by (metis map_of_SomeD set_rev)
next
  assume "\<exists>n e. (n, e) \<in> set es \<and> P n"
  then obtain n e where ne: "(n, e) \<in> set es" "P n" by auto
  then have "n \<in> fst ` set (rev es)" by force
  then obtain f where "map_of (rev es) n = Some f"
    by (metis map_of_eq_None_iff not_None_eq)
  with ne(2) show "\<exists>n e. (n, e) \<in> set (rg_build list_ranger es) \<and> P n"
    by (auto simp: list_ranger_entries live_entry_def)
qed

lemma list_ranger_containing:
  "rg_containing list_ranger r x =
   map snd (sort_key (\<lambda>(n, e). mask_ones n) (filter (\<lambda>(n, e). ipnet_contains n x) r))"
  by (simp add: list_ranger_def)

lemma list_ranger_first:
  assumes "rg_containing list_ranger (rg_build list_ranger es) x = e # rest"
  shows "\<exists>n. live_entry es n e \<and> ipnet_contains n x \<and>
             (\<forall>m f. (m, f) \<in> set es \<longrightarrow> ipnet_contains m x \<longrightarrow> mask_ones n \<le> mask_ones m)"
proof -
  let ?r = "rg_build list_ranger es"
  let ?s = "sort_key (\<lambda>(n, e). mask_ones n) (filter (\<lambda>(n, e). ipnet_contains n x) ?r)"
  from assms obtain n t where s: "?s = (n, e) # t"
    unfolding list_ranger_containing by (cases ?s) auto
  then have "(n, e) \<in> set ?s" by simp
  then have ne: "(n, e) \<in> set ?r" "ipnet_contains n x" by auto
  have "sorted (map (\<lambda>(n, e). mask_ones n) ?s)" by (rule sorted_sort_key)
  then have min: "mask_ones n \<le> mask_ones m" if "(m, f) \<in> set ?s" for m f
    using that unfolding s by auto
  have "mask_ones n \<le> mask_ones m" if "(m, f) \<in> set es" "ipnet_contains m x" for m f
  proof -
    have "\<exists>k g. (k, g) \<in> set ?r \<and> k = m"
      using that(1) by (subst list_ranger_nets) auto
    then obtain g where "(m, g) \<in> set ?r" by auto
    with that(2) have "(m, g) \<in> set ?s" by simp
    then show ?thesis by (rule min)
  qed
  with ne show ?thesis by (auto simp: list_ranger_entries)
qed

interpretation list_rg: cidr_ranger "list_ranger :: ((ipnet \<times> 'e) list, 'e) ranger_ops"
proof (unfold_locales, goal_cases)
  case (1 es x)
  have "rg_contains list_ranger r x \<longleftrightarrow> (\<exists>n e. (n, e) \<in> set r \<and> ipnet_contains n x)"
    for r :: "(ipnet \<times> 'e) list"
    by (auto simp: list_ranger_def list_ex_iff)
  then show ?case by (simp only: list_ranger_nets)
next
  case (2 e es x)
  then obtain n where "(n, e) \<in> set (rg_build list_ranger es)" "ipnet_contains n x"
    by (auto simp: list_ranger_containing)
  then show ?case by (auto simp: list_ranger_entries)
next
  case (3 n e es x)
  then have "\<exists>n e. (n, e) \<in> set (rg_build list_ranger es) \<and> ipnet_contains n x"
    by (subst list_ranger_nets) auto
  then have "filter (\<lambda>(n, e). ipnet_contains n x) (rg_build list_ranger es) \<noteq> []"
    by (auto simp: filter_empty_conv)
  then show ?case
    unfolding list_ranger_containing by (metis length_0_conv length_map length_sort)
next
  case (4 es x e rest)
  then show ?case by (rule list_ranger_first)
qed

end
