(* ===== verification/Matcher.thy ===== *)
theory Matcher
  imports Cidr
begin

text \<open>
  The pattern matchers of \<open>internal/matcher/matcher.go\<close>: sets of IP addresses, CIDR
  networks, plain domains with the \<open>.example.com\<close> form, and wildcard patterns.  The walk up
  the parent domains, which the host table and the ingress table repeat, has its interface
  here as the locale \<open>dotted_walk\<close>.

  Glob patterns are compiled by \<open>github.com/gobwas/glob\<close>: a parameter \<open>compile\<close> that gives the
  matching predicate, or \<open>None\<close> for a pattern \<open>glob.MustCompile\<close> panics on.
\<close>

section \<open>The walk up the parent domains\<close>

text \<open>
  The suffixes of a name that start at a dot, longest first, as far as the labels before
  them are not empty: the keys a lookup of the name may hit.
\<close>

function dotted_parents :: "string \<Rightarrow> string list" where
  "dotted_parents s =
     (case index_byte CHR ''.'' s of
        None \<Rightarrow> []
      | Some i \<Rightarrow> if i > 0 then drop i s # dotted_parents (drop (Suc i) s) else [])"
  by pat_completeness auto
termination
  by (relation "measure length") (auto dest!: index_byte_SomeD)

declare dotted_parents.simps [simp del]

definition full_labels :: "string \<Rightarrow> bool" where
  "full_labels pre \<longleftrightarrow> [] \<notin> set (split_byte CHR ''.'' pre)"

lemma full_labels_simps [simp]:
  "\<not> full_labels []" "\<not> full_labels (CHR ''.'' # s)"
  by (simp_all add: full_labels_def)

lemma full_labels_single: "CHR ''.'' \<notin> set a \<Longrightarrow> full_labels a \<longleftrightarrow> a \<noteq> []"
  by (auto simp: full_labels_def split_byte_single)

lemma full_labels_append:
  "full_labels (a @ CHR ''.'' # b) \<longleftrightarrow> full_labels a \<and> full_labels b"
  by (auto simp: full_labels_def split_byte_append)

lemma dotted_parents_simps:
  "CHR ''.'' \<notin> set s \<Longrightarrow> dotted_parents s = []"
  "dotted_parents (CHR ''.'' # s) = []"
  "CHR ''.'' \<notin> set a \<Longrightarrow> a \<noteq> [] \<Longrightarrow>
     dotted_parents (a @ CHR ''.'' # b) = (CHR ''.'' # b) # dotted_parents b"
proof -
  show "CHR ''.'' \<notin> set s \<Longrightarrow> dotted_parents s = []"
    by (subst dotted_parents.simps) (simp add: index_byte_None [THEN iffD2])
  show "dotted_parents (CHR ''.'' # s) = []"
    by (subst dotted_parents.simps) simp
  show "CHR ''.'' \<notin> set a \<Longrightarrow> a \<noteq> [] \<Longrightarrow>
     dotted_parents (a @ CHR ''.'' # b) = (CHR ''.'' # b) # dotted_parents b"
    by (subst dotted_parents.simps) (simp add: index_byte_append)
qed

text \<open>A case distinction on a name: no dot, a leading dot, or a first label and the rest.\<close>

lemma dotted_cases:
  obtains "CHR ''.'' \<notin> set s"
  | t where "s = CHR ''.'' # t"
  | a b where "s = a @ CHR ''.'' # b" "CHR ''.'' \<notin> set a" "a \<noteq> []"
proof (cases "index_byte CHR ''.'' s")
  case None
  then show thesis using that(1) by (simp add: index_byte_None)
next
  case (Some i)
  then obtain t where t: "s = take i s @ CHR ''.'' # t" "CHR ''.'' \<notin> set (take i s)"
    by (auto simp: index_byte_split)
  show thesis
  proof (cases "take i s = []")
    case True
    with t show thesis using that(2) [of t] by simp
  next
    case False
    with t show thesis using that(3) [of "take i s" t] by simp
  qed
qed

lemma dotted_split:
  assumes "CHR ''.'' \<notin> set a" and "a \<noteq> []"
  shows "a @ CHR ''.'' # b = pre @ CHR ''.'' # suf \<and> full_labels pre \<longleftrightarrow>
    (pre = a \<and> suf = b) \<or>
    (\<exists>q. pre = a @ CHR ''.'' # q \<and> b = q @ CHR ''.'' # suf \<and> full_labels q)"
    (is "?l \<longleftrightarrow> ?r")
proof
  assume l: ?l
  then consider us where "a = pre @ us" "us @ CHR ''.'' # b = CHR ''.'' # suf"
    | us where "a @ us = pre" "CHR ''.'' # b = us @ CHR ''.'' # suf"
    by (auto simp: append_eq_append_conv2)
  then show ?r
  proof cases
    case (1 us)
    with assms(1) show ?thesis by (cases us) auto
  next
    case (2 us)
    with l show ?thesis by (cases us) (auto simp: full_labels_append)
  qed
qed (use assms in \<open>auto simp: full_labels_single full_labels_append\<close>)

lemma dotted_parents_iff:
  "t \<in> set (dotted_parents s) \<longleftrightarrow>
   (\<exists>pre suf. t = CHR ''.'' # suf \<and> s = pre @ CHR ''.'' # suf \<and> full_labels pre)"
proof (induction s rule: length_induct)
  case (1 s)
  show ?case
  proof (cases rule: dotted_cases [of s])
    case 1
    then show ?thesis by (auto simp: dotted_parents_simps)
  next
    case (2 u)
    then show ?thesis by (auto simp: dotted_parents_simps Cons_eq_append_conv)
  next
    case (3 a b)
    with "1.IH" have IH: "t \<in> set (dotted_parents b) \<longleftrightarrow>
      (\<exists>pre suf. t = CHR ''.'' # suf \<and> b = pre @ CHR ''.'' # suf \<and> full_labels pre)"
      by simp
    have "(\<exists>pre suf. t = CHR ''.'' # suf \<and> s = pre @ CHR ''.'' # suf \<and> full_labels pre) \<longleftrightarrow>
      (\<exists>pre suf. t = CHR ''.'' # suf \<and> ((pre = a \<and> suf = b) \<or>
        (\<exists>q. pre = a @ CHR ''.'' # q \<and> b = q @ CHR ''.'' # suf \<and> full_labels q)))"
      by (simp only: 3(1) dotted_split [OF 3(2,3)])
    with 3 IH show ?thesis by (auto simp: dotted_parents_simps)
  qed
qed

lemma dotted_parents_longest_first:
  "sorted_wrt (\<lambda>t u. length t > length u) (dotted_parents s)"
proof (induction s rule: length_induct)
  case (1 s)
  show ?case
  proof (cases rule: dotted_cases [of s])
    case (3 a b)
    with "1.IH" have "sorted_wrt (\<lambda>t u. length t > length u) (dotted_parents b)" by simp
    moreover have "length u < Suc (length b)" if "u \<in> set (dotted_parents b)" for u
      using that by (auto simp: dotted_parents_iff)
    ultimately show ?thesis using 3 by (simp add: dotted_parents_simps)
  qed (auto simp: dotted_parents_simps)
qed

text \<open>
  What a table lookup that walks up the parents has to do: look the suffix at the first dot
  up, go on behind the dot when it is missing, and stop at a leading dot or without one.
  The client's gain is that the walk is the first hit among \<open>dotted_parents\<close>.
\<close>

locale dotted_walk =
  fixes find :: "string \<Rightarrow> 'v option"
    and walk :: "string \<Rightarrow> 'v option"
  assumes walk_no_dot: "CHR ''.'' \<notin> set s \<Longrightarrow> walk s = None"
    and walk_leading_dot: "walk (CHR ''.'' # s) = None"
    and walk_label: "CHR ''.'' \<notin> set a \<Longrightarrow> a \<noteq> [] \<Longrightarrow>
      walk (a @ CHR ''.'' # b) =
        (case find (CHR ''.'' # b) of Some v \<Rightarrow> Some v | None \<Rightarrow> walk b)"
begin

lemma walk_first: "walk s = first_some find (dotted_parents s)"
proof (induction s rule: length_induct)
  case (1 s)
  show ?case
  proof (cases rule: dotted_cases [of s])
    case 1
    then show ?thesis by (simp add: walk_no_dot dotted_parents_simps)
  next
    case (2 t)
    then show ?thesis by (simp add: walk_leading_dot dotted_parents_simps)
  next
    case (3 a b)
    with "1.IH" have "walk b = first_some find (dotted_parents b)" by simp
    with 3 show ?thesis
      by (simp add: walk_label dotted_parents_simps split: option.split)
  qed
qed

lemma walk_hit_iff:
  "walk s \<noteq> None \<longleftrightarrow>
   (\<exists>pre suf. s = pre @ CHR ''.'' # suf \<and> full_labels pre \<and> find (CHR ''.'' # suf) \<noteq> None)"
proof -
  have "walk s \<noteq> None \<longleftrightarrow> (\<exists>t. t \<in> set (dotted_parents s) \<and> find t \<noteq> None)"
    by (auto simp: walk_first first_some_None)
  then show ?thesis by (simp only: dotted_parents_iff) metis
qed

lemma walk_SomeD:
  assumes "walk s = Some v"
  shows "\<exists>pre suf. s = pre @ CHR ''.'' # suf \<and> full_labels pre \<and> find (CHR ''.'' # suf) = Some v
    \<and> (\<forall>p t. s = p @ CHR ''.'' # t \<longrightarrow> full_labels p \<longrightarrow> length t > length suf \<longrightarrow>
         find (CHR ''.'' # t) = None)"
proof -
  from assms obtain ys x zs where x: "dotted_parents s = ys @ x # zs" "find x = Some v"
    and ys: "\<forall>y\<in>set ys. find y = None"
    unfolding walk_first first_some_Some by blast
  from x(1) have "x \<in> set (dotted_parents s)" by simp
  then obtain pre suf where suf: "x = CHR ''.'' # suf" "s = pre @ CHR ''.'' # suf" "full_labels pre"
    unfolding dotted_parents_iff by blast
  have "find (CHR ''.'' # t) = None"
    if "s = p @ CHR ''.'' # t" "full_labels p" "length t > length suf" for p t
  proof -
    have "CHR ''.'' # t \<in> set (dotted_parents s)"
      using that(1,2) unfolding dotted_parents_iff by blast
    moreover have "sorted_wrt (\<lambda>t u. length t > length u) (ys @ x # zs)"
      using dotted_parents_longest_first [of s] by (simp only: x(1))
    ultimately have "CHR ''.'' # t \<in> set ys"
      using that(3) unfolding x(1) suf(1) by (fastforce simp: sorted_wrt_append)
    with ys show ?thesis by simp
  qed
  with suf x(2) show ?thesis by blast
qed

end

section \<open>The matchers\<close>

subsection \<open>IP addresses\<close>

text \<open>
  The set holds the canonical text of the addresses; \<open>Match\<close> compares the text it is given.
\<close>

type_synonym ip_matcher = "string set"

definition IPMatcher :: "ip list \<Rightarrow> ip_matcher" where
  "IPMatcher ips = foldl (\<lambda>m x. insert (ip_string x) m) {} ips"

definition ipMatcher_Match :: "ip_matcher \<Rightarrow> string \<Rightarrow> bool" where
  "ipMatcher_Match m x = (if m = {} then False else x \<in> m)"

subsection \<open>CIDR networks\<close>

definition CIDRMatcher :: "('r, unit) ranger_ops \<Rightarrow> ipnet list \<Rightarrow> 'r" where
  "CIDRMatcher R inets = foldl (\<lambda>r n. rg_insert R n () r) (rg_new R) inets"

definition cidrMatcher_Match :: "('r, unit) ranger_ops \<Rightarrow> 'r \<Rightarrow> string \<Rightarrow> bool" where
  "cidrMatcher_Match R ranger x =
     (case parse_ip x of Some netIP \<Rightarrow> rg_contains R ranger netIP | None \<Rightarrow> False)"

subsection \<open>Domains\<close>

type_synonym domain_matcher = "string set"

definition DomainMatcher :: "string list \<Rightarrow> domain_matcher" where
  "DomainMatcher domains = foldl (\<lambda>m d. insert d m) {} domains"

text \<open>The \<open>for\<close> loop of \<open>domainMatcher.Match\<close>.\<close>

function domain_loop :: "domain_matcher \<Rightarrow> string \<Rightarrow> bool" where
  "domain_loop m domain =
     (case index_byte CHR ''.'' domain of
        None \<Rightarrow> False
      | Some index \<Rightarrow>
          if index > 0 then
            (if drop index domain \<in> m then True else domain_loop m (drop (index + 1) domain))
          else False)"
  by pat_completeness auto
termination
  by (relation "measure (\<lambda>(m, d). length d)") (auto dest!: index_byte_SomeD)

declare domain_loop.simps [simp del]

definition domainMatcher_Match :: "domain_matcher \<Rightarrow> string \<Rightarrow> bool" where
  "domainMatcher_Match m domain =
     (if m = {} then False
      else if domain \<in> m then True
      else if CHR ''.'' # domain \<in> m then True
      else domain_loop m domain)"

subsection \<open>Wildcards\<close>

record wildcardMatcherPattern =
  wp_pattern :: string
  wp_glob :: "string \<Rightarrow> bool"

text \<open>\<open>None\<close> is the panic of \<open>glob.MustCompile\<close> on a malformed pattern.\<close>

fun WildcardMatcher ::
    "(string \<Rightarrow> (string \<Rightarrow> bool) option) \<Rightarrow> string list \<Rightarrow> wildcardMatcherPattern list option" where
  "WildcardMatcher compile [] = Some []"
| "WildcardMatcher compile (p # ps) =
     (case compile p of
        None \<Rightarrow> None
      | Some g \<Rightarrow>
          (case WildcardMatcher compile ps of
             None \<Rightarrow> None
           | Some m \<Rightarrow> Some (\<lparr>wp_pattern = p, wp_glob = g\<rparr> # m)))"

fun wildcardMatcher_Match :: "wildcardMatcherPattern list \<Rightarrow> string \<Rightarrow> bool" where
  "wildcardMatcher_Match [] domain = False"
| "wildcardMatcher_Match (p # ps) domain =
     (if wp_glob p domain then True else wildcardMatcher_Match ps domain)"

section \<open>What they match\<close>

lemma IPMatcher_set: "IPMatcher ips = ip_string ` set ips"
proof -
  have "foldl (\<lambda>m x. insert (ip_string x) m) m ips = m \<union> ip_string ` set ips" for m
    by (induction ips arbitrary: m) auto
  then show ?thesis by (simp add: IPMatcher_def)
qed

lemma ipMatcher_Match_iff: "ipMatcher_Match (IPMatcher ips) x \<longleftrightarrow> (\<exists>i\<in>set ips. x = ip_string i)"
  by (auto simp: ipMatcher_Match_def IPMatcher_set)

lemma CIDRMatcher_build: "CIDRMatcher R inets = rg_build R (map (\<lambda>n. (n, ())) inets)"
proof -
  have "foldl (\<lambda>r n. rg_insert R n () r) r inets =
        foldl (\<lambda>r (n, e). rg_insert R n e r) r (map (\<lambda>n. (n, ())) inets)" for r
    by (induction inets arbitrary: r) auto
  then show ?thesis by (simp add: CIDRMatcher_def rg_build_def)
qed

context cidr_ranger
begin

lemma cidr_Match_iff:
  assumes "inets = map fst es" and "r = rg_build R es"
  shows "(case parse_ip x of Some p \<Rightarrow> rg_contains R r p | None \<Rightarrow> False) \<longleftrightarrow>
    (\<exists>p n. parse_ip x = Some p \<and> n \<in> set inets \<and> ipnet_contains n p)"
  using assms by (auto simp: contains_iff split: option.split) force

end

lemma cidrMatcher_Match_iff:
  assumes "cidr_ranger R"
  shows "cidrMatcher_Match R (CIDRMatcher R inets) x \<longleftrightarrow>
    (\<exists>p n. parse_ip x = Some p \<and> n \<in> set inets \<and> ipnet_contains n p)"
  unfolding cidrMatcher_Match_def
  by (rule cidr_ranger.cidr_Match_iff [OF assms _ CIDRMatcher_build]) (simp add: comp_def)

lemma DomainMatcher_set: "DomainMatcher domains = set domains"
proof -
  have "foldl (\<lambda>m d. insert d m) m domains = m \<union> set domains" for m
    by (induction domains arbitrary: m) auto
  then show ?thesis by (simp add: DomainMatcher_def)
qed

definition domain_find :: "domain_matcher \<Rightarrow> string \<Rightarrow> unit option" where
  "domain_find m d = (if d \<in> m then Some () else None)"

definition domain_walk :: "domain_matcher \<Rightarrow> string \<Rightarrow> unit option" where
  "domain_walk m d = (if domain_loop m d then Some () else None)"

interpretation domain: dotted_walk "domain_find m" "domain_walk m" for m
proof (unfold_locales, goal_cases)
  case (1 s)
  then show ?case
    unfolding domain_walk_def by (subst domain_loop.simps) (simp add: index_byte_None [THEN iffD2])
next
  case (2 s)
  then show ?case unfolding domain_walk_def by (subst domain_loop.simps) simp
next
  case (3 a b)
  then show ?case
    unfolding domain_walk_def domain_find_def
    by (subst domain_loop.simps) (simp add: index_byte_append)
qed

lemma domain_loop_iff:
  "domain_loop m d \<longleftrightarrow> (\<exists>pre suf. d = pre @ CHR ''.'' # suf \<and> full_labels pre \<and> CHR ''.'' # suf \<in> m)"
  using domain.walk_hit_iff [of m d] by (auto simp: domain_walk_def domain_find_def)

lemma WildcardMatcher_None_iff:
  "WildcardMatcher compile ps = None \<longleftrightarrow> (\<exists>p\<in>set ps. compile p = None)"
  by (induction ps) (auto split: option.splits)

lemma WildcardMatcher_Some:
  "\<forall>p\<in>set ps. compile p \<noteq> None \<Longrightarrow>
   WildcardMatcher compile ps = Some (map (\<lambda>p. \<lparr>wp_pattern = p, wp_glob = the (compile p)\<rparr>) ps)"
  by (induction ps) auto

lemma wildcardMatcher_Match_iff: "wildcardMatcher_Match m d \<longleftrightarrow> (\<exists>p\<in>set m. wp_glob p d)"
  by (induction m) auto

text \<open>
  A domain matcher built from a list of patterns matches a name exactly when the name is a
  pattern, or the name with a dot in front is one (so that \<open>.example.com\<close> matches
  \<open>example.com\<close>), or the name is a prefix of non-empty labels followed by a pattern that
  starts with a dot (so that it matches every subdomain of \<open>example.com\<close>).
\<close>

theorem domain_matcher_matches:
  "domainMatcher_Match (DomainMatcher domains) d \<longleftrightarrow>
     d \<in> set domains \<or> CHR ''.'' # d \<in> set domains \<or>
     (\<exists>pre suf. d = pre @ CHR ''.'' # suf \<and> full_labels pre \<and> CHR ''.'' # suf \<in> set domains)"
  by (auto simp: domainMatcher_Match_def DomainMatcher_set domain_loop_iff)

end
