(* ===== verification/Loader.thy ===== *)
theory Loader
  imports GoStrings
begin

text \<open>
  The data loaders of \<open>internal/loader\<close>.  A loader answers from a source outside the program
  (a file, an HTTP server, a redis key); the model takes the source's answer as data
  and computes what \<open>Load\<close>, \<open>List\<close> and \<open>Map\<close> return for it.  \<open>None\<close> is a failed read of the
  source.  A hash is an association list in the order the Go map is iterated.
\<close>

section \<open>Sources and loaders\<close>

datatype http_answer =
    HTTPError
  | HTTPResponse int "string option" \<comment> \<open>status code, body (\<open>None\<close>: reading it fails)\<close>

datatype source =
    FileSource "string option"
  | HTTPSource http_answer
  | RedisSetSource "string list option"
  | RedisListSource "string list option"
  | RedisHashSource "(string \<times> string) list option"

text \<open>
  A configured loader, as the sequence of its source's answers: argument \<open>t\<close> is the number of
  the reload that asks.
\<close>

type_synonym loader = "nat \<Rightarrow> source"

section \<open>File loader\<close>

definition fileLoader_Load :: "string option \<Rightarrow> string option" where
  "fileLoader_Load file = (case file of None \<Rightarrow> None | Some data \<Rightarrow> Some data)"

text \<open>\<open>List\<close>: the lines read before an error, and whether there was one.\<close>

definition fileLoader_List :: "string option \<Rightarrow> string list \<times> bool" where
  "fileLoader_List file = (case file of None \<Rightarrow> ([], True) | Some data \<Rightarrow> scan_lines data)"

section \<open>HTTP loader\<close>

definition httpLoader_Load :: "http_answer \<Rightarrow> string option" where
  "httpLoader_Load a =
     (case a of
        HTTPError \<Rightarrow> None
      | HTTPResponse status body \<Rightarrow>
          if status \<noteq> 200 then None else (case body of None \<Rightarrow> None | Some data \<Rightarrow> Some data))"

section \<open>Redis loaders\<close>

definition redisSetLoader_List :: "string list option \<Rightarrow> string list \<times> bool" where
  "redisSetLoader_List r = (case r of None \<Rightarrow> ([], True) | Some v \<Rightarrow> (v, False))"

fun join_nl :: "string list \<Rightarrow> string" where
  "join_nl [] = []"
| "join_nl [v] = v"
| "join_nl (v # w # vs) = v @ CHR 0x0A # join_nl (w # vs)"

definition redisSetLoader_Load :: "string list option \<Rightarrow> string option" where
  "redisSetLoader_Load r =
     (case redisSetLoader_List r of (v, err) \<Rightarrow> if err then None else Some (join_nl v))"

definition redisListLoader_List :: "string list option \<Rightarrow> string list \<times> bool" where
  "redisListLoader_List r = (case r of None \<Rightarrow> ([], True) | Some v \<Rightarrow> (v, False))"

definition redisListLoader_Load :: "string list option \<Rightarrow> string option" where
  "redisListLoader_Load r =
     (case redisListLoader_List r of (v, err) \<Rightarrow> if err then None else Some (join_nl v))"

text \<open>\<open>Map\<close> gives a nil map (\<open>None\<close>) with its error.\<close>

definition redisHashLoader_Map :: "(string \<times> string) list option \<Rightarrow> (string \<times> string) list option \<times> bool" where
  "redisHashLoader_Map r = (case r of None \<Rightarrow> (None, True) | Some m \<Rightarrow> (Some m, False))"

definition redisHashLoader_Load :: "(string \<times> string) list option \<Rightarrow> string option" where
  "redisHashLoader_Load r =
     (case redisHashLoader_Map r of
        (Some m, False) \<Rightarrow> Some (concat (map (\<lambda>(k, v). k @ '' '' @ v @ [CHR 0x0A]) m))
      | _ \<Rightarrow> None)"

definition redisHashLoader_List :: "(string \<times> string) list option \<Rightarrow> string list \<times> bool" where
  "redisHashLoader_List r =
     (case redisHashLoader_Map r of
        (Some m, False) \<Rightarrow> (map (\<lambda>(k, v). k @ '' '' @ v) m, False)
      | _ \<Rightarrow> ([], True))"

section \<open>The interfaces\<close>

text \<open>\<open>Loader.Load\<close>: the text behind the reader, or \<open>None\<close> for a nil reader.\<close>

fun loader_Load :: "source \<Rightarrow> string option" where
  "loader_Load (FileSource f) = fileLoader_Load f"
| "loader_Load (HTTPSource a) = httpLoader_Load a"
| "loader_Load (RedisSetSource r) = redisSetLoader_Load r"
| "loader_Load (RedisListSource r) = redisListLoader_Load r"
| "loader_Load (RedisHashSource r) = redisHashLoader_Load r"

text \<open>\<open>loader.(Lister)\<close> and its answer; \<open>None\<close> when the loader is no \<open>Lister\<close>.\<close>

fun as_Lister :: "source \<Rightarrow> (string list \<times> bool) option" where
  "as_Lister (FileSource f) = Some (fileLoader_List f)"
| "as_Lister (HTTPSource a) = None"
| "as_Lister (RedisSetSource r) = Some (redisSetLoader_List r)"
| "as_Lister (RedisListSource r) = Some (redisListLoader_List r)"
| "as_Lister (RedisHashSource r) = Some (redisHashLoader_List r)"

text \<open>\<open>loader.(Mapper)\<close> and its answer.\<close>

fun as_Mapper :: "source \<Rightarrow> ((string \<times> string) list option \<times> bool) option" where
  "as_Mapper (RedisHashSource r) = Some (redisHashLoader_Map r)"
| "as_Mapper _ = None"

section \<open>Facts\<close>

lemma join_nl_scan:
  assumes "\<forall>l\<in>set ls. clean_line l" and "ls \<noteq> []" and "last ls \<noteq> []"
  shows "scan_lines (join_nl ls) = (ls, False)"
  using assms
proof (induction ls rule: join_nl.induct)
  case (2 v)
  then show ?case by (simp add: scan_lines_last clean_line_def drop_cr_id)
next
  case (3 v w vs)
  then have "scan_lines (join_nl (w # vs)) = (w # vs, False)" by simp
  with 3 show ?case by (simp add: scan_lines_cons clean_line_def drop_cr_id)
qed simp

text \<open>
  For members without line breaks, reading a redis set through \<open>Load\<close> and scanning its lines
  gives what \<open>List\<close> gives.
\<close>

lemma redis_Load_List:
  assumes "\<forall>l\<in>set ls. clean_line l" and "ls \<noteq> []" and "last ls \<noteq> []"
  shows "map_option (\<lambda>t. scan_lines t) (redisSetLoader_Load (Some ls)) = Some (redisSetLoader_List (Some ls))"
  using join_nl_scan [OF assms] by (simp add: redisSetLoader_Load_def redisSetLoader_List_def)

end
