(* ===== verification/Reload.thy ===== *)
theory Reload
  imports Loader
begin

text \<open>
  Periodic reloading.  Bypass, admission, hosts, ingress, authenticator and the limiters each
  run a goroutine \<open>periodReload\<close>: a ticker (never faster than once a second) and a select over
  its channel and the context.  The loop is modelled once, over the sequence of events the
  select receives; the locale \<open>reloadable\<close> states what a table's \<open>reload\<close> promises, and what
  the loop then keeps.
\<close>

section \<open>The ticker loop\<close>

definition second :: int where
  "second = 1000000000"

text \<open>\<open>if period < time.Second { period = time.Second }\<close>, in nanoseconds.\<close>

definition ticker_period :: "int \<Rightarrow> int" where
  "ticker_period period = (if period < second then second else period)"

datatype event = Tick | Done

text \<open>
  \<open>reload t s\<close> is the \<open>t\<close>-th reload on the state \<open>s\<close>; \<open>None\<close> is a panic in it, which ends the
  process.  A reload that returns an error leaves the state as it was.
\<close>

fun period_loop :: "(nat \<Rightarrow> 's \<Rightarrow> 's option) \<Rightarrow> nat \<Rightarrow> event list \<Rightarrow> 's \<Rightarrow> 's option" where
  "period_loop reload t [] s = Some s"
| "period_loop reload t (Tick # es) s =
     (case reload t s of None \<Rightarrow> None | Some s' \<Rightarrow> period_loop reload (Suc t) es s')"
| "period_loop reload t (Done # es) s = Some s"

text \<open>The number of ticks handled before the context is done.\<close>

fun ticks :: "event list \<Rightarrow> nat" where
  "ticks [] = 0"
| "ticks (Tick # es) = Suc (ticks es)"
| "ticks (Done # es) = 0"

section \<open>What a reload promises\<close>

text \<open>
  \<open>opts\<close> is the part of the state fixed at construction, \<open>content\<close> the table a reload replaces,
  and \<open>fresh t o\<close> the table the options and the loaders' \<open>t\<close>-th answers determine.
\<close>

locale reloadable =
  fixes reload :: "nat \<Rightarrow> 's \<Rightarrow> 's option"
    and opts :: "'s \<Rightarrow> 'o"
    and content :: "'s \<Rightarrow> 'c"
    and fresh :: "nat \<Rightarrow> 'o \<Rightarrow> 'c option"
  assumes reload_opts: "reload t s = Some s' \<Longrightarrow> opts s' = opts s"
    and reload_content: "reload t s = Some s' \<Longrightarrow> fresh t (opts s) = Some (content s')"
    and reload_panic: "reload t s = None \<Longrightarrow> fresh t (opts s) = None"
begin

lemma loop_opts: "period_loop reload t es s = Some s' \<Longrightarrow> opts s' = opts s"
proof (induction es arbitrary: t s)
  case (Cons e es)
  then show ?case
    by (cases e) (auto split: option.splits dest: reload_opts)
qed simp

text \<open>
  After the loop the table is the one of the latest handled tick: nothing of earlier answers
  survives, and no tick means no change.
\<close>

lemma loop_content:
  "period_loop reload t es s = Some s' \<Longrightarrow>
   (if ticks es = 0 then s' = s else fresh (t + ticks es - 1) (opts s) = Some (content s'))"
proof (induction es arbitrary: t s)
  case Nil
  then show ?case by simp
next
  case (Cons e es)
  show ?case
  proof (cases e)
    case Tick
    with Cons.prems obtain u where u: "reload t s = Some u" "period_loop reload (Suc t) es u = Some s'"
      by (auto split: option.splits)
    from Cons.IH [OF u(2)] reload_content [OF u(1)] reload_opts [OF u(1)] Tick
    show ?thesis by (auto split: if_splits)
  next
    case Done
    with Cons.prems show ?thesis by simp
  qed
qed

lemma loop_no_panic:
  "(\<And>t. fresh t (opts s) \<noteq> None) \<Longrightarrow> \<exists>s'. period_loop reload t es s = Some s'"
proof (induction es arbitrary: t s)
  case Nil
  then show ?case by simp
next
  case (Cons e es)
  show ?case
  proof (cases e)
    case Tick
    obtain u where u: "reload t s = Some u"
      using Cons.prems reload_panic by (metis option.exhaust)
    with Cons.prems have "\<And>t. fresh t (opts u) \<noteq> None" by (simp add: reload_opts)
    from Cons.IH [OF this] Tick u show ?thesis by simp
  next
    case Done
    then show ?thesis by simp
  qed
qed

end

section \<open>Pattern lists\<close>

text \<open>
  The form of \<open>load\<close> that bypass, admission and the limiters share: what a loader contributes
  when it is read through its \<open>Lister\<close> or its reader.  \<open>parse\<close> is the component's
  \<open>parseLine\<close>; empty results are skipped.
\<close>

definition parse_all :: "(string \<Rightarrow> string) \<Rightarrow> string list \<Rightarrow> string list" where
  "parse_all parse ls = filter (\<lambda>l. l \<noteq> []) (map parse ls)"

text \<open>\<open>parsePatterns(r)\<close> with its scanner error; a nil reader gives nothing.\<close>

definition scan_patterns :: "(string \<Rightarrow> string) \<Rightarrow> string option \<Rightarrow> string list \<times> bool" where
  "scan_patterns parse r =
     (case r of
        None \<Rightarrow> ([], False)
      | Some text \<Rightarrow> (case scan_lines text of (ls, err) \<Rightarrow> (parse_all parse ls, err)))"

lemma parse_all_append: "parse_all p (xs @ ys) = parse_all p xs @ parse_all p ys"
  by (simp add: parse_all_def)

lemma parse_all_nonempty: "x \<in> set (parse_all p ls) \<Longrightarrow> x \<noteq> []"
  by (simp add: parse_all_def)

lemma scan_patterns_clean:
  "\<forall>l\<in>set ls. clean_line l \<Longrightarrow> scan_patterns p (Some (join_lines ls)) = (parse_all p ls, False)"
  by (simp add: scan_patterns_def scan_join_lines)

end
