(* ===== verification/Bypass.thy ===== *)
theory Bypass
  imports Matcher Reload
begin

text \<open>
  The bypass of \<open>bypass/bypass.go\<close>: options, the classification of patterns into the four
  matchers at every reload, and \<open>Contains\<close>, the question the chain, the hops and the handlers
  ask of a target address.  A reload is \<open>None\<close> where compiling a wildcard pattern panics.
\<close>

section \<open>Options and state\<close>

record bypass_options =
  bo_whitelist :: bool
  bo_matchers :: "string list"
  bo_fileLoader :: "loader option"
  bo_redisLoader :: "loader option"
  bo_httpLoader :: "loader option"
  bo_period :: int

definition bypass_no_options :: bypass_options where
  "bypass_no_options =
     \<lparr>bo_whitelist = False, bo_matchers = [], bo_fileLoader = None, bo_redisLoader = None,
      bo_httpLoader = None, bo_period = 0\<rparr>"

text \<open>The functional options are updates of the options record.\<close>

definition bypass_WhitelistOption :: "bool \<Rightarrow> bypass_options \<Rightarrow> bypass_options" where
  "bypass_WhitelistOption w opts = opts\<lparr>bo_whitelist := w\<rparr>"

definition bypass_MatchersOption :: "string list \<Rightarrow> bypass_options \<Rightarrow> bypass_options" where
  "bypass_MatchersOption ms opts = opts\<lparr>bo_matchers := ms\<rparr>"

definition bypass_ReloadPeriodOption :: "int \<Rightarrow> bypass_options \<Rightarrow> bypass_options" where
  "bypass_ReloadPeriodOption p opts = opts\<lparr>bo_period := p\<rparr>"

definition bypass_FileLoaderOption :: "loader option \<Rightarrow> bypass_options \<Rightarrow> bypass_options" where
  "bypass_FileLoaderOption l opts = opts\<lparr>bo_fileLoader := l\<rparr>"

definition bypass_RedisLoaderOption :: "loader option \<Rightarrow> bypass_options \<Rightarrow> bypass_options" where
  "bypass_RedisLoaderOption l opts = opts\<lparr>bo_redisLoader := l\<rparr>"

definition bypass_HTTPLoaderOption :: "loader option \<Rightarrow> bypass_options \<Rightarrow> bypass_options" where
  "bypass_HTTPLoaderOption l opts = opts\<lparr>bo_httpLoader := l\<rparr>"

record 'r bypass =
  bp_ipMatcher :: ip_matcher
  bp_cidrMatcher :: 'r
  bp_domainMatcher :: domain_matcher
  bp_wildcardMatcher :: "wildcardMatcherPattern list"
  bp_options :: bypass_options

section \<open>Loading\<close>

definition bypass_parseLine :: "string \<Rightarrow> string" where
  "bypass_parseLine s = trim_space (cut_comment s)"

definition bypass_parsePatterns :: "string option \<Rightarrow> string list \<times> bool" where
  "bypass_parsePatterns r = scan_patterns bypass_parseLine r"

definition bypass_load :: "nat \<Rightarrow> bypass_options \<Rightarrow> string list" where
  "bypass_load t opts =
     (case bo_fileLoader opts of
        None \<Rightarrow> []
      | Some l \<Rightarrow>
          (case as_Lister (l t) of
             Some (list, er) \<Rightarrow> parse_all bypass_parseLine list
           | None \<Rightarrow> fst (bypass_parsePatterns (loader_Load (l t))))) @
     (case bo_redisLoader opts of
        None \<Rightarrow> []
      | Some l \<Rightarrow>
          (case as_Lister (l t) of
             Some (list, er) \<Rightarrow> list
           | None \<Rightarrow> fst (bypass_parsePatterns (loader_Load (l t))))) @
     (case bo_httpLoader opts of
        None \<Rightarrow> []
      | Some l \<Rightarrow> fst (bypass_parsePatterns (loader_Load (l t))))"

text \<open>The loop of \<open>reload\<close> over the patterns: IPs, networks, wildcards, and the rest domains.\<close>

fun bypass_classify ::
    "string list \<Rightarrow> ip list \<times> ipnet list \<times> string list \<times> string list \<Rightarrow>
     ip list \<times> ipnet list \<times> string list \<times> string list" where
  "bypass_classify [] acc = acc"
| "bypass_classify (p # ps) (ips, inets, domains, wildcards) =
     (case parse_ip p of
        Some ip \<Rightarrow> bypass_classify ps (ips @ [ip], inets, domains, wildcards)
      | None \<Rightarrow>
          (case parse_cidr p of
             Some inet \<Rightarrow> bypass_classify ps (ips, inets @ [inet], domains, wildcards)
           | None \<Rightarrow>
               if contains_any p ''*?'' then bypass_classify ps (ips, inets, domains, wildcards @ [p])
               else bypass_classify ps (ips, inets, domains @ [p], wildcards)))"

definition bypass_reload ::
    "('r, unit) ranger_ops \<Rightarrow> (string \<Rightarrow> (string \<Rightarrow> bool) option) \<Rightarrow> nat \<Rightarrow> 'r bypass \<Rightarrow> 'r bypass option"
where
  "bypass_reload R compile t bp =
     (let v = bypass_load t (bp_options bp);
          patterns = bo_matchers (bp_options bp) @ v;
          (ips, inets, domains, wildcards) = bypass_classify patterns ([], [], [], [])
      in case WildcardMatcher compile wildcards of
           None \<Rightarrow> None
         | Some wm \<Rightarrow>
             Some (bp\<lparr>bp_ipMatcher := IPMatcher ips,
                      bp_cidrMatcher := CIDRMatcher R inets,
                      bp_domainMatcher := DomainMatcher domains,
                      bp_wildcardMatcher := wm\<rparr>))"

definition bypass_periodReload ::
    "('r, unit) ranger_ops \<Rightarrow> (string \<Rightarrow> (string \<Rightarrow> bool) option) \<Rightarrow> nat \<Rightarrow> event list \<Rightarrow>
     'r bypass \<Rightarrow> int \<times> 'r bypass option" where
  "bypass_periodReload R compile t es bp =
     (ticker_period (bo_period (bp_options bp)), period_loop (bypass_reload R compile) t es bp)"

definition bypass_apply :: "(bypass_options \<Rightarrow> bypass_options) list \<Rightarrow> bypass_options" where
  "bypass_apply opts = foldl (\<lambda>acc opt. opt acc) bypass_no_options opts"

text \<open>
  \<open>NewBypass\<close>: apply the options, reload once, and report whether the period loop is started.
\<close>

definition NewBypass ::
    "('r, unit) ranger_ops \<Rightarrow> (string \<Rightarrow> (string \<Rightarrow> bool) option) \<Rightarrow>
     (bypass_options \<Rightarrow> bypass_options) list \<Rightarrow> ('r bypass \<times> bool) option" where
  "NewBypass R compile opts =
     (let options = bypass_apply opts;
          bp = \<lparr>bp_ipMatcher = {}, bp_cidrMatcher = rg_new R, bp_domainMatcher = {},
                bp_wildcardMatcher = [], bp_options = options\<rparr>
      in case bypass_reload R compile 0 bp of
           None \<Rightarrow> None
         | Some bp' \<Rightarrow> Some (bp', bo_period options > 0))"

section \<open>Matching\<close>

definition bypass_matched :: "('r, unit) ranger_ops \<Rightarrow> 'r bypass \<Rightarrow> string \<Rightarrow> bool" where
  "bypass_matched R bp addr =
     (if parse_ip addr \<noteq> None
      then ipMatcher_Match (bp_ipMatcher bp) addr \<or> cidrMatcher_Match R (bp_cidrMatcher bp) addr
      else domainMatcher_Match (bp_domainMatcher bp) addr
           \<or> wildcardMatcher_Match (bp_wildcardMatcher bp) addr)"

text \<open>\<open>Contains\<close> on a possibly nil bypass.\<close>

definition bypass_Contains :: "('r, unit) ranger_ops \<Rightarrow> 'r bypass option \<Rightarrow> string \<Rightarrow> bool" where
  "bypass_Contains R bp addr =
     (case bp of
        None \<Rightarrow> False
      | Some bp \<Rightarrow>
          if addr = [] then False
          else let addr = strip_port addr; matched = bypass_matched R bp addr;
                   whitelist = bo_whitelist (bp_options bp)
               in \<not> whitelist \<and> matched \<or> whitelist \<and> \<not> matched)"

section \<open>What reload installs\<close>

definition is_ip :: "string \<Rightarrow> bool" where
  "is_ip p \<longleftrightarrow> parse_ip p \<noteq> None"

definition is_cidr :: "string \<Rightarrow> bool" where
  "is_cidr p \<longleftrightarrow> \<not> is_ip p \<and> parse_cidr p \<noteq> None"

definition is_wildcard :: "string \<Rightarrow> bool" where
  "is_wildcard p \<longleftrightarrow> \<not> is_ip p \<and> \<not> is_cidr p \<and> contains_any p ''*?''"

definition is_domain :: "string \<Rightarrow> bool" where
  "is_domain p \<longleftrightarrow> \<not> is_ip p \<and> \<not> is_cidr p \<and> \<not> is_wildcard p"

lemma bypass_classify_filters:
  "bypass_classify ps (a, b, c, d) =
     (a @ map (\<lambda>p. the (parse_ip p)) (filter is_ip ps),
      b @ map (\<lambda>p. the (parse_cidr p)) (filter is_cidr ps),
      c @ filter is_domain ps,
      d @ filter is_wildcard ps)"
proof (induction ps arbitrary: a b c d)
  case Nil
  then show ?case by simp
next
  case (Cons p ps)
  then show ?case
    by (auto simp: is_ip_def is_cidr_def is_domain_def is_wildcard_def split: option.splits)
qed

text \<open>The patterns a reload works on.\<close>

definition bypass_patterns :: "nat \<Rightarrow> bypass_options \<Rightarrow> string list" where
  "bypass_patterns t opts = bo_matchers opts @ bypass_load t opts"

text \<open>The table the patterns determine; \<open>None\<close> for the panic.\<close>

definition bypass_fresh ::
    "('r, unit) ranger_ops \<Rightarrow> (string \<Rightarrow> (string \<Rightarrow> bool) option) \<Rightarrow> nat \<Rightarrow> bypass_options \<Rightarrow>
     (ip_matcher \<times> 'r \<times> domain_matcher \<times> wildcardMatcherPattern list) option" where
  "bypass_fresh R compile t opts =
     (let ps = bypass_patterns t opts in
      case WildcardMatcher compile (filter is_wildcard ps) of
        None \<Rightarrow> None
      | Some wm \<Rightarrow>
          Some (IPMatcher (map (\<lambda>p. the (parse_ip p)) (filter is_ip ps)),
                CIDRMatcher R (map (\<lambda>p. the (parse_cidr p)) (filter is_cidr ps)),
                DomainMatcher (filter is_domain ps), wm))"

definition bypass_content :: "'r bypass \<Rightarrow> ip_matcher \<times> 'r \<times> domain_matcher \<times> wildcardMatcherPattern list" where
  "bypass_content bp = (bp_ipMatcher bp, bp_cidrMatcher bp, bp_domainMatcher bp, bp_wildcardMatcher bp)"

lemma bypass_reload_fresh:
  "bypass_reload R compile t bp =
     (case bypass_fresh R compile t (bp_options bp) of
        None \<Rightarrow> None
      | Some (ims, cm, dm, wm) \<Rightarrow>
          Some (bp\<lparr>bp_ipMatcher := ims, bp_cidrMatcher := cm, bp_domainMatcher := dm,
                   bp_wildcardMatcher := wm\<rparr>))"
  by (simp add: bypass_reload_def bypass_fresh_def bypass_patterns_def bypass_classify_filters Let_def
      split: option.split)

interpretation bypass: reloadable "bypass_reload R compile" bp_options bypass_content
    "bypass_fresh R compile" for R compile
  by unfold_locales
    (auto simp: bypass_reload_fresh bypass_content_def split: option.splits prod.splits)

section \<open>What a pattern list matches\<close>

text \<open>
  The specification of \<open>matched\<close>, per pattern: an address that is an IP is matched by the IPs
  whose canonical text it is and by the networks that contain it, any other name by the
  domains and the wildcards.
\<close>

definition domain_pattern_matches :: "string \<Rightarrow> string \<Rightarrow> bool" where
  "domain_pattern_matches p a \<longleftrightarrow>
     a = p \<or> CHR ''.'' # a = p \<or>
     (p \<noteq> [] \<and> hd p = CHR ''.'' \<and> has_suffix a p \<and> full_labels (take (length a - length p) a))"

definition rule_matches :: "(string \<Rightarrow> (string \<Rightarrow> bool) option) \<Rightarrow> string \<Rightarrow> string \<Rightarrow> bool" where
  "rule_matches compile p a \<longleftrightarrow>
     (if is_ip a then
        (is_ip p \<and> a = ip_string (the (parse_ip p))) \<or>
        (is_cidr p \<and> ipnet_contains (the (parse_cidr p)) (the (parse_ip a)))
      else
        (is_domain p \<and> domain_pattern_matches p a) \<or>
        (is_wildcard p \<and> (case compile p of Some g \<Rightarrow> g a | None \<Rightarrow> False)))"

lemma domain_pattern_matches_iff:
  "domain_pattern_matches p a \<longleftrightarrow>
     a = p \<or> CHR ''.'' # a = p \<or>
     (\<exists>pre suf. a = pre @ p \<and> full_labels pre \<and> p = CHR ''.'' # suf)"
proof -
  have "p \<noteq> [] \<and> hd p = CHR ''.'' \<and> has_suffix a p \<and> full_labels (take (length a - length p) a) \<longleftrightarrow>
    (\<exists>pre suf. a = pre @ p \<and> full_labels pre \<and> p = CHR ''.'' # suf)" (is "?l \<longleftrightarrow> ?r")
  proof
    assume ?l
    then have "a = take (length a - length p) a @ p" "p = CHR ''.'' # tl p"
      unfolding has_suffix_def by (metis append_take_drop_id, metis list.collapse)
    with \<open>?l\<close> show ?r by metis
  qed (auto simp: has_suffix_def)
  then show ?thesis by (simp add: domain_pattern_matches_def)
qed

definition bypass_installed ::
    "('r, unit) ranger_ops \<Rightarrow> (string \<Rightarrow> (string \<Rightarrow> bool) option) \<Rightarrow> string list \<Rightarrow> 'r bypass \<Rightarrow> bool" where
  "bypass_installed R compile ps bp \<longleftrightarrow>
     (\<exists>wm. WildcardMatcher compile (filter is_wildcard ps) = Some wm \<and>
       bypass_content bp =
         (IPMatcher (map (\<lambda>p. the (parse_ip p)) (filter is_ip ps)),
          CIDRMatcher R (map (\<lambda>p. the (parse_cidr p)) (filter is_cidr ps)),
          DomainMatcher (filter is_domain ps), wm))"

lemma bypass_fresh_installed:
  "bypass_fresh R compile t (bp_options bp) = Some (bypass_content bp) \<Longrightarrow>
   bypass_installed R compile (bypass_patterns t (bp_options bp)) bp"
  by (auto simp: bypass_fresh_def bypass_installed_def Let_def split: option.splits)

lemma bypass_matched_iff:
  assumes "cidr_ranger R" and "bypass_installed R compile ps bp"
  shows "bypass_matched R bp a \<longleftrightarrow> (\<exists>p\<in>set ps. rule_matches compile p a)"
proof -
  from assms(2) obtain wm where
    wm: "WildcardMatcher compile (filter is_wildcard ps) = Some wm" and
    c: "bp_ipMatcher bp = IPMatcher (map (\<lambda>p. the (parse_ip p)) (filter is_ip ps))"
      "bp_cidrMatcher bp = CIDRMatcher R (map (\<lambda>p. the (parse_cidr p)) (filter is_cidr ps))"
      "bp_domainMatcher bp = DomainMatcher (filter is_domain ps)"
      "bp_wildcardMatcher bp = wm"
    by (auto simp: bypass_installed_def bypass_content_def)
  have comp: "\<forall>p\<in>set (filter is_wildcard ps). compile p \<noteq> None"
    using wm by (metis WildcardMatcher_None_iff option.distinct(1))
  show ?thesis
  proof (cases "is_ip a")
    case True
    then obtain i where i: "parse_ip a = Some i" by (auto simp: is_ip_def)
    have "ipMatcher_Match (bp_ipMatcher bp) a \<longleftrightarrow>
        (\<exists>p\<in>set ps. is_ip p \<and> a = ip_string (the (parse_ip p)))"
      unfolding c ipMatcher_Match_iff by auto
    moreover have "cidrMatcher_Match R (bp_cidrMatcher bp) a \<longleftrightarrow>
        (\<exists>p\<in>set ps. is_cidr p \<and> ipnet_contains (the (parse_cidr p)) i)"
      unfolding c cidrMatcher_Match_iff [OF assms(1)] using i by auto
    ultimately show ?thesis
      using True i by (auto simp: bypass_matched_def rule_matches_def)
  next
    case False
    then have a: "parse_ip a = None" by (simp add: is_ip_def)
    have w: "wildcardMatcher_Match wm a \<longleftrightarrow>
        (\<exists>p\<in>set ps. is_wildcard p \<and> (case compile p of Some g \<Rightarrow> g a | None \<Rightarrow> False))"
      using WildcardMatcher_Some [OF comp] wm comp
      by (force simp: wildcardMatcher_Match_iff)
    have d: "domainMatcher_Match (DomainMatcher (filter is_domain ps)) a \<longleftrightarrow>
        (\<exists>p\<in>set ps. is_domain p \<and> domain_pattern_matches p a)"
      by (auto simp: domainMatcher_Match_def DomainMatcher_set domain_loop_iff
          domain_pattern_matches_iff)
    show ?thesis
      unfolding bypass_matched_def c w d using a False by (auto simp: rule_matches_def)
  qed
qed

lemma bypass_lifecycle:
  assumes new: "NewBypass R compile opts = Some (bp0, started)"
    and run: "snd (bypass_periodReload R compile 1 es bp0) = Some bp"
  shows "bp_options bp = bypass_apply opts"
    and "bypass_installed R compile (bypass_patterns (ticks es) (bypass_apply opts)) bp"
proof -
  from new obtain b where b: "bypass_reload R compile 0 b = Some bp0" "bp_options b = bypass_apply opts"
    by (fastforce simp: NewBypass_def Let_def split: option.splits)
  have opts0: "bp_options bp0 = bypass_apply opts"
    using bypass.reload_opts [OF b(1)] b(2) by simp
  from run have loop: "period_loop (bypass_reload R compile) 1 es bp0 = Some bp"
    by (simp add: bypass_periodReload_def)
  show opts: "bp_options bp = bypass_apply opts"
    using bypass.loop_opts [OF loop] opts0 by simp
  have "bypass_fresh R compile (ticks es) (bp_options bp) = Some (bypass_content bp)"
    using bypass.loop_content [OF loop] bypass.reload_content [OF b(1)] opts opts0 b(2)
    by (auto split: if_splits)
  then show "bypass_installed R compile (bypass_patterns (ticks es) (bypass_apply opts)) bp"
    unfolding opts [symmetric] by (rule bypass_fresh_installed)
qed

lemma bypass_Contains_installed:
  assumes "cidr_ranger R" and "bypass_installed R compile ps bp"
  shows "bypass_Contains R (Some bp) addr \<longleftrightarrow>
    addr \<noteq> [] \<and>
    (bo_whitelist (bp_options bp) \<noteq> (\<exists>p\<in>set ps. rule_matches compile p (strip_port addr)))"
  using bypass_matched_iff [OF assms] by (auto simp: bypass_Contains_def Let_def)

text \<open>
  C1. From construction through any number of ticks, a bypass contains an address exactly when the
  address is not empty and the rules of the latest reload (options and loaders' latest
  answers) match its host part, negated for a whitelist.
\<close>

theorem bypass_contains_latest_rules:
  assumes "cidr_ranger R"
    and "NewBypass R compile opts = Some (bp0, started)"
    and "snd (bypass_periodReload R compile 1 es bp0) = Some bp"
  shows "bypass_Contains R (Some bp) addr \<longleftrightarrow>
    addr \<noteq> [] \<and>
    (bo_whitelist (bypass_apply opts) \<noteq>
      (\<exists>p\<in>set (bypass_patterns (ticks es) (bypass_apply opts)). rule_matches compile p (strip_port addr)))"
  using bypass_Contains_installed [OF assms(1) bypass_lifecycle(2) [OF assms(2,3)]]
    bypass_lifecycle(1) [OF assms(2,3)] by simp

text \<open>
  A blacklist with a domain, whose redis set gains a network at the first tick.
\<close>

definition demo_bypass_opts :: "(bypass_options \<Rightarrow> bypass_options) list" where
  "demo_bypass_opts =
     [bypass_MatchersOption [''.example.com''],
      bypass_RedisLoaderOption (Some (\<lambda>t. RedisSetSource (if t = 0 then None else Some [''10.0.0.0/8'']))),
      bypass_ReloadPeriodOption 5]"

definition demo_bypass_run :: "((ipnet \<times> unit) list bypass \<times> (ipnet \<times> unit) list bypass) option" where
  "demo_bypass_run =
     (case NewBypass list_ranger (\<lambda>_. None) demo_bypass_opts of
        None \<Rightarrow> None
      | Some (bp0, _) \<Rightarrow>
          (case snd (bypass_periodReload list_ranger (\<lambda>_. None) 1 [Tick, Done] bp0) of
             None \<Rightarrow> None
           | Some bp \<Rightarrow> Some (bp0, bp)))"

lemma demo_bypass_runs: "case demo_bypass_run of None \<Rightarrow> False | Some _ \<Rightarrow> True"
  by code_simp

theorem bypass_contains_latest_rules_witness:
  "\<exists>bp0 bp st. NewBypass list_ranger (\<lambda>_. None) demo_bypass_opts = Some (bp0, st) \<and>
     snd (bypass_periodReload list_ranger (\<lambda>_. None) 1 [Tick, Done] bp0) = Some bp \<and>
     bypass_Contains list_ranger (Some bp) ''10.1.2.3:80'' \<and>
     bypass_Contains list_ranger (Some bp) ''www.example.com'' \<and>
     \<not> bypass_Contains list_ranger (Some bp) ''example.org''"
proof -
  obtain bp0 bp st where
    n: "NewBypass list_ranger (\<lambda>_. None) demo_bypass_opts = Some (bp0, st)" and
    r: "snd (bypass_periodReload list_ranger (\<lambda>_. None) 1 [Tick, Done] bp0) = Some bp"
    using demo_bypass_runs by (auto simp: demo_bypass_run_def split: option.splits prod.splits)
  note c = bypass_contains_latest_rules [OF list_rg.cidr_ranger_axioms n r]
  have "bypass_Contains list_ranger (Some bp) ''10.1.2.3:80''"
    unfolding c by code_simp
  moreover have "bypass_Contains list_ranger (Some bp) ''www.example.com''"
    unfolding c by code_simp
  moreover have "\<not> bypass_Contains list_ranger (Some bp) ''example.org''"
    unfolding c by code_simp
  ultimately show ?thesis using n r by blast
qed

text \<open>
  An IP rule whose text is not the canonical form of its address never matches that text: a
  blacklist holding only such rules does not contain the very address it lists.
\<close>

theorem bypass_noncanonical_ip_missed:
  assumes "cidr_ranger R"
    and "NewBypass R compile [bypass_MatchersOption [p]] = Some (bp, started)"
    and "parse_ip p = Some i" and "ip_string i \<noteq> p" and "split_host_port p = None"
  shows "\<not> bypass_Contains R (Some bp) p"
proof -
  have run: "snd (bypass_periodReload R compile 1 [] bp) = Some bp"
    by (simp add: bypass_periodReload_def)
  have ps: "bypass_patterns 0 (bypass_apply [bypass_MatchersOption [p]]) = [p]"
    by (simp add: bypass_patterns_def bypass_load_def bypass_apply_def bypass_MatchersOption_def
        bypass_no_options_def)
  have wl: "\<not> bo_whitelist (bypass_apply [bypass_MatchersOption [p]])"
    by (simp add: bypass_apply_def bypass_MatchersOption_def bypass_no_options_def)
  have sp: "strip_port p = p" using assms(5) by (simp add: strip_port_def host_of_def)
  have "\<not> rule_matches compile p p"
    using assms(3,4) by (auto simp: rule_matches_def is_ip_def is_cidr_def)
  then show ?thesis
    using bypass_Contains_installed [OF assms(1) bypass_lifecycle(2) [OF assms(2) run], of p]
      bypass_lifecycle(1) [OF assms(2) run] wl
    by (simp add: ps sp)
qed

definition demo_ipv6 :: string where
  "demo_ipv6 = ''2001:DB8:0:0:0:0:0:1''"

lemma demo_ipv6_new:
  "case NewBypass list_ranger (\<lambda>_. None) [bypass_MatchersOption [demo_ipv6]] of
     None \<Rightarrow> False | Some _ \<Rightarrow> True"
  by code_simp

theorem bypass_noncanonical_ip_missed_witness:
  "\<exists>bp st. NewBypass list_ranger (\<lambda>_. None) [bypass_MatchersOption [demo_ipv6]] = Some (bp, st) \<and>
     \<not> bypass_Contains list_ranger (Some bp) demo_ipv6"
proof -
  obtain bp st where
    n: "NewBypass list_ranger (\<lambda>_. None) [bypass_MatchersOption [demo_ipv6]] = Some (bp, st)"
    using demo_ipv6_new by (auto split: option.splits prod.splits)
  have "parse_ip demo_ipv6 = Some [32,1,13,184,0,0,0,0,0,0,0,0,0,0,0,1]"
    and "ip_string [32,1,13,184,0,0,0,0,0,0,0,0,0,0,0,1] \<noteq> demo_ipv6"
    and "split_host_port demo_ipv6 = None"
    by code_simp+
  with bypass_noncanonical_ip_missed [OF list_rg.cidr_ranger_axioms n] n show ?thesis by blast
qed

end
