(* ===== verification/Admission.thy ===== *)
theory Admission
  imports Matcher Reload
begin

text \<open>
  The admission control of \<open>admission/admission.go\<close>, which the service asks about every client
  address, and the connection wrappers of \<open>admission/wrapper\<close>, which ask it about every
  accepted connection and received datagram.
\<close>

section \<open>Options and state\<close>

record admission_options =
  ao_whitelist :: bool
  ao_matchers :: "string list"
  ao_fileLoader :: "loader option"
  ao_redisLoader :: "loader option"
  ao_httpLoader :: "loader option"
  ao_period :: int

definition admission_no_options :: admission_options where
  "admission_no_options =
     \<lparr>ao_whitelist = False, ao_matchers = [], ao_fileLoader = None, ao_redisLoader = None,
      ao_httpLoader = None, ao_period = 0\<rparr>"

definition admission_WhitelistOption :: "bool \<Rightarrow> admission_options \<Rightarrow> admission_options" where
  "admission_WhitelistOption w opts = opts\<lparr>ao_whitelist := w\<rparr>"

definition admission_MatchersOption :: "string list \<Rightarrow> admission_options \<Rightarrow> admission_options" where
  "admission_MatchersOption ms opts = opts\<lparr>ao_matchers := ms\<rparr>"

definition admission_ReloadPeriodOption :: "int \<Rightarrow> admission_options \<Rightarrow> admission_options" where
  "admission_ReloadPeriodOption p opts = opts\<lparr>ao_period := p\<rparr>"

definition admission_FileLoaderOption :: "loader option \<Rightarrow> admission_options \<Rightarrow> admission_options" where
  "admission_FileLoaderOption l opts = opts\<lparr>ao_fileLoader := l\<rparr>"

definition admission_RedisLoaderOption :: "loader option \<Rightarrow> admission_options \<Rightarrow> admission_options" where
  "admission_RedisLoaderOption l opts = opts\<lparr>ao_redisLoader := l\<rparr>"

definition admission_HTTPLoaderOption :: "loader option \<Rightarrow> admission_options \<Rightarrow> admission_options" where
  "admission_HTTPLoaderOption l opts = opts\<lparr>ao_httpLoader := l\<rparr>"

record 'r admission =
  ad_ipMatcher :: ip_matcher
  ad_cidrMatcher :: 'r
  ad_options :: admission_options

section \<open>Loading\<close>

definition admission_parseLine :: "string \<Rightarrow> string" where
  "admission_parseLine s = trim_space (cut_comment s)"

definition admission_parsePatterns :: "string option \<Rightarrow> string list \<times> bool" where
  "admission_parsePatterns r = scan_patterns admission_parseLine r"

definition admission_load :: "nat \<Rightarrow> admission_options \<Rightarrow> string list" where
  "admission_load t opts =
     (case ao_fileLoader opts of
        None \<Rightarrow> []
      | Some l \<Rightarrow>
          (case as_Lister (l t) of
             Some (list, er) \<Rightarrow> parse_all admission_parseLine list
           | None \<Rightarrow> fst (admission_parsePatterns (loader_Load (l t))))) @
     (case ao_redisLoader opts of
        None \<Rightarrow> []
      | Some l \<Rightarrow>
          (case as_Lister (l t) of
             Some (list, er) \<Rightarrow> list
           | None \<Rightarrow> fst (admission_parsePatterns (loader_Load (l t))))) @
     (case ao_httpLoader opts of
        None \<Rightarrow> []
      | Some l \<Rightarrow> fst (admission_parsePatterns (loader_Load (l t))))"

fun admission_classify :: "string list \<Rightarrow> ip list \<times> ipnet list \<Rightarrow> ip list \<times> ipnet list" where
  "admission_classify [] acc = acc"
| "admission_classify (p # ps) (ips, inets) =
     (case parse_ip p of
        Some ip \<Rightarrow> admission_classify ps (ips @ [ip], inets)
      | None \<Rightarrow>
          (case parse_cidr p of
             Some inet \<Rightarrow> admission_classify ps (ips, inets @ [inet])
           | None \<Rightarrow> admission_classify ps (ips, inets)))"

definition admission_reload :: "('r, unit) ranger_ops \<Rightarrow> nat \<Rightarrow> 'r admission \<Rightarrow> 'r admission" where
  "admission_reload R t p =
     (let v = admission_load t (ad_options p);
          patterns = ao_matchers (ad_options p) @ v;
          (ips, inets) = admission_classify patterns ([], [])
      in p\<lparr>ad_ipMatcher := IPMatcher ips, ad_cidrMatcher := CIDRMatcher R inets\<rparr>)"

definition admission_periodReload ::
    "('r, unit) ranger_ops \<Rightarrow> nat \<Rightarrow> event list \<Rightarrow> 'r admission \<Rightarrow> int \<times> 'r admission option" where
  "admission_periodReload R t es p =
     (ticker_period (ao_period (ad_options p)), period_loop (\<lambda>t s. Some (admission_reload R t s)) t es p)"

definition admission_apply :: "(admission_options \<Rightarrow> admission_options) list \<Rightarrow> admission_options" where
  "admission_apply opts = foldl (\<lambda>acc opt. opt acc) admission_no_options opts"

definition NewAdmission ::
    "('r, unit) ranger_ops \<Rightarrow> (admission_options \<Rightarrow> admission_options) list \<Rightarrow> 'r admission \<times> bool" where
  "NewAdmission R opts =
     (let options = admission_apply opts;
          p = \<lparr>ad_ipMatcher = {}, ad_cidrMatcher = rg_new R, ad_options = options\<rparr>
      in (admission_reload R 0 p, ao_period options > 0))"

section \<open>Admitting\<close>

definition admission_matched :: "('r, unit) ranger_ops \<Rightarrow> 'r admission \<Rightarrow> string \<Rightarrow> bool" where
  "admission_matched R p addr \<longleftrightarrow>
     ipMatcher_Match (ad_ipMatcher p) addr \<or> cidrMatcher_Match R (ad_cidrMatcher p) addr"

definition admission_Admit :: "('r, unit) ranger_ops \<Rightarrow> 'r admission option \<Rightarrow> string \<Rightarrow> bool" where
  "admission_Admit R p addr =
     (case p of
        None \<Rightarrow> True
      | Some p \<Rightarrow>
          if addr = [] then True
          else let addr = strip_port addr; matched = admission_matched R p addr;
                   whitelist = ao_whitelist (ad_options p)
               in \<not> whitelist \<and> \<not> matched \<or> whitelist \<and> matched)"

section \<open>What reload installs\<close>

lemma admission_classify_filters:
  "admission_classify ps (a, b) =
     (a @ map (\<lambda>p. the (parse_ip p)) (filter (\<lambda>p. parse_ip p \<noteq> None) ps),
      b @ map (\<lambda>p. the (parse_cidr p)) (filter (\<lambda>p. parse_ip p = None \<and> parse_cidr p \<noteq> None) ps))"
  by (induction ps arbitrary: a b) (auto split: option.splits)

definition admission_patterns :: "nat \<Rightarrow> admission_options \<Rightarrow> string list" where
  "admission_patterns t opts = ao_matchers opts @ admission_load t opts"

definition admission_fresh ::
    "('r, unit) ranger_ops \<Rightarrow> nat \<Rightarrow> admission_options \<Rightarrow> (ip_matcher \<times> 'r) option" where
  "admission_fresh R t opts =
     (let ps = admission_patterns t opts in
      Some (IPMatcher (map (\<lambda>p. the (parse_ip p)) (filter (\<lambda>p. parse_ip p \<noteq> None) ps)),
            CIDRMatcher R (map (\<lambda>p. the (parse_cidr p))
              (filter (\<lambda>p. parse_ip p = None \<and> parse_cidr p \<noteq> None) ps))))"

definition admission_content :: "'r admission \<Rightarrow> ip_matcher \<times> 'r" where
  "admission_content p = (ad_ipMatcher p, ad_cidrMatcher p)"

lemma admission_reload_fresh:
  "admission_fresh R t (ad_options p) = Some (admission_content (admission_reload R t p))"
  "ad_options (admission_reload R t p) = ad_options p"
  by (simp_all add: admission_reload_def admission_fresh_def admission_patterns_def
      admission_classify_filters admission_content_def Let_def)

interpretation admission: reloadable "\<lambda>t s. Some (admission_reload R t s)" ad_options
    admission_content "admission_fresh R" for R
  by unfold_locales (auto simp: admission_reload_fresh)

text \<open>A pattern admits or denies an address by its canonical text or as a network.\<close>

definition client_rule_matches :: "string \<Rightarrow> string \<Rightarrow> bool" where
  "client_rule_matches p a \<longleftrightarrow>
     (case parse_ip p of
        Some i \<Rightarrow> a = ip_string i
      | None \<Rightarrow>
          (case (parse_cidr p, parse_ip a) of
             (Some n, Some i) \<Rightarrow> ipnet_contains n i
           | _ \<Rightarrow> False))"

lemma admission_matched_iff:
  assumes "cidr_ranger R"
    and "admission_content p =
      (IPMatcher (map (\<lambda>p. the (parse_ip p)) (filter (\<lambda>p. parse_ip p \<noteq> None) ps)),
       CIDRMatcher R (map (\<lambda>p. the (parse_cidr p))
         (filter (\<lambda>p. parse_ip p = None \<and> parse_cidr p \<noteq> None) ps)))"
  shows "admission_matched R p a \<longleftrightarrow> (\<exists>q\<in>set ps. client_rule_matches q a)"
proof -
  have "ipMatcher_Match (ad_ipMatcher p) a \<longleftrightarrow>
      (\<exists>q\<in>set ps. \<exists>i. parse_ip q = Some i \<and> a = ip_string i)"
    using assms(2) by (force simp: admission_content_def ipMatcher_Match_iff)
  moreover have "cidrMatcher_Match R (ad_cidrMatcher p) a \<longleftrightarrow>
      (\<exists>q\<in>set ps. \<exists>n i. parse_ip q = None \<and> parse_cidr q = Some n \<and> parse_ip a = Some i \<and> ipnet_contains n i)"
    using assms(2) by (force simp: admission_content_def cidrMatcher_Match_iff [OF assms(1)])
  moreover have "client_rule_matches q a \<longleftrightarrow>
      (\<exists>i. parse_ip q = Some i \<and> a = ip_string i) \<or>
      (\<exists>n i. parse_ip q = None \<and> parse_cidr q = Some n \<and> parse_ip a = Some i \<and> ipnet_contains n i)" for q
    by (auto simp: client_rule_matches_def split: option.split)
  ultimately show ?thesis unfolding admission_matched_def by blast
qed

lemma admission_lifecycle:
  assumes run: "snd (admission_periodReload R 1 es (fst (NewAdmission R opts))) = Some p"
  shows "ad_options p = admission_apply opts"
    and "admission_fresh R (ticks es) (admission_apply opts) = Some (admission_content p)"
proof -
  let ?p0 = "fst (NewAdmission R opts)"
  have opts0: "ad_options ?p0 = admission_apply opts"
    and fresh0: "admission_fresh R 0 (admission_apply opts) = Some (admission_content ?p0)"
    using admission_reload_fresh
      [of R 0 "\<lparr>ad_ipMatcher = {}, ad_cidrMatcher = rg_new R, ad_options = admission_apply opts\<rparr>"]
    by (simp_all add: NewAdmission_def Let_def)
  from run have loop: "period_loop (\<lambda>t s. Some (admission_reload R t s)) 1 es ?p0 = Some p"
    by (simp add: admission_periodReload_def)
  show "ad_options p = admission_apply opts"
    using admission.loop_opts [OF loop] opts0 by simp
  show "admission_fresh R (ticks es) (admission_apply opts) = Some (admission_content p)"
    using admission.loop_content [OF loop] opts0 fresh0 by (auto split: if_splits)
qed

text \<open>
  From construction through any number of ticks, an admission admits an empty address, and any
  other exactly when it is on the latest white list, or not on the latest black list.
\<close>

theorem admission_admits_latest_rules:
  assumes "cidr_ranger R"
    and "snd (admission_periodReload R 1 es (fst (NewAdmission R opts))) = Some p"
  shows "admission_Admit R (Some p) addr \<longleftrightarrow>
    addr = [] \<or>
    (ao_whitelist (admission_apply opts) =
      (\<exists>q\<in>set (admission_patterns (ticks es) (admission_apply opts)). client_rule_matches q (strip_port addr)))"
proof -
  have "admission_matched R p (strip_port addr) \<longleftrightarrow>
      (\<exists>q\<in>set (admission_patterns (ticks es) (admission_apply opts)). client_rule_matches q (strip_port addr))"
    using admission_lifecycle(2) [OF assms(2)]
    by (intro admission_matched_iff [OF assms(1)]) (simp add: admission_fresh_def Let_def)
  then show ?thesis
    using admission_lifecycle(1) [OF assms(2)] by (auto simp: admission_Admit_def Let_def)
qed

definition demo_admission_opts :: "(admission_options \<Rightarrow> admission_options) list" where
  "demo_admission_opts =
     [admission_WhitelistOption True, admission_MatchersOption [''192.168.0.0/16''],
      admission_FileLoaderOption (Some (\<lambda>t. FileSource (Some ''127.0.0.1 # local'')))]"

theorem admission_admits_latest_rules_witness:
  "admission_Admit list_ranger (Some (fst (NewAdmission list_ranger demo_admission_opts))) ''127.0.0.1:5'' \<and>
   admission_Admit list_ranger (Some (fst (NewAdmission list_ranger demo_admission_opts))) ''192.168.7.7:5'' \<and>
   \<not> admission_Admit list_ranger (Some (fst (NewAdmission list_ranger demo_admission_opts))) ''10.0.0.1:5''"
proof -
  have r: "snd (admission_periodReload list_ranger 1 [] (fst (NewAdmission list_ranger demo_admission_opts))) =
      Some (fst (NewAdmission list_ranger demo_admission_opts))"
    by (simp add: admission_periodReload_def)
  note c = admission_admits_latest_rules [OF list_rg.cidr_ranger_axioms r]
  show ?thesis unfolding c by code_simp
qed

section \<open>The wrappers\<close>

text \<open>
  The listener wrapper accepts until an admitted client comes and closes the others; the
  model runs over the addresses of the incoming connections: the refused ones, which are
  closed, and the admitted one, if any, with those still waiting.
\<close>

fun admission_listener_Accept ::
    "('r, unit) ranger_ops \<Rightarrow> 'r admission option \<Rightarrow> string list \<Rightarrow> string list \<times> (string \<times> string list) option"
where
  "admission_listener_Accept R p [] = ([], None)"
| "admission_listener_Accept R p (c # cs) =
     (if p \<noteq> None \<and> \<not> admission_Admit R p c
      then (case admission_listener_Accept R p cs of (closed, r) \<Rightarrow> (c # closed, r))
      else ([], Some (c, cs)))"

lemma admission_Admit_None [simp]: "admission_Admit R None a"
  by (simp add: admission_Admit_def)

lemma admission_refused: "p \<noteq> None \<and> \<not> admission_Admit R p c \<longleftrightarrow> \<not> admission_Admit R p c"
  by (cases p) auto

text \<open>
  Accepting closes exactly the refused connections before the first admitted one, and returns
  that one with the later connections untouched.
\<close>

theorem admission_listener_first_admitted:
  "admission_listener_Accept R p cs =
     (takeWhile (\<lambda>c. \<not> admission_Admit R p c) cs,
      case dropWhile (\<lambda>c. \<not> admission_Admit R p c) cs of [] \<Rightarrow> None | c # rest \<Rightarrow> Some (c, rest))"
  by (induction cs) (simp_all only: admission_listener_Accept.simps admission_refused takeWhile.simps
      dropWhile.simps list.case, auto)

text \<open>
  The connection wrappers.  An inner connection is a function of its own state; \<open>Inl\<close> is an
  error.  A stream of a refused client reads as ended.
\<close>

datatype io_error = EOF | ErrUnsupport | ErrOther

definition admission_serverConn_Read ::
    "('r, unit) ranger_ops \<Rightarrow> 'r admission option \<Rightarrow> string \<Rightarrow>
     ('s \<Rightarrow> (io_error + byte list) \<times> 's) \<Rightarrow> 's \<Rightarrow> (io_error + byte list) \<times> 's" where
  "admission_serverConn_Read R p remote read s =
     (if p \<noteq> None \<and> \<not> admission_Admit R p remote then (Inl EOF, s) else read s)"

text \<open>
  The packet loops run over the results of the inner socket: an error, or a datagram with its
  sender.  They give the result returned and the results still to come; \<open>None\<close> when the
  socket has nothing more.
\<close>

type_synonym datagram = "io_error + (byte list \<times> string)"

fun admission_packetConn_ReadFrom ::
    "('r, unit) ranger_ops \<Rightarrow> 'r admission option \<Rightarrow> datagram list \<Rightarrow> (datagram \<times> datagram list) option"
where
  "admission_packetConn_ReadFrom R p [] = None"
| "admission_packetConn_ReadFrom R p (Inl e # ds) = Some (Inl e, ds)"
| "admission_packetConn_ReadFrom R p (Inr (b, addr) # ds) =
     (if p \<noteq> None \<and> \<not> admission_Admit R p addr then admission_packetConn_ReadFrom R p ds
      else Some (Inr (b, addr), ds))"

fun admission_udpConn_ReadFrom ::
    "('r, unit) ranger_ops \<Rightarrow> 'r admission option \<Rightarrow> datagram list \<Rightarrow> (datagram \<times> datagram list) option"
where
  "admission_udpConn_ReadFrom R p [] = None"
| "admission_udpConn_ReadFrom R p (Inl e # ds) = Some (Inl e, ds)"
| "admission_udpConn_ReadFrom R p (Inr (b, addr) # ds) =
     (if p \<noteq> None \<and> \<not> admission_Admit R p addr then admission_udpConn_ReadFrom R p ds
      else Some (Inr (b, addr), ds))"

text \<open>\<open>ReadFromUDP\<close> and \<open>ReadMsgUDP\<close> first ask whether the inner connection has them.\<close>

definition admission_udpConn_ReadFromUDP ::
    "('r, unit) ranger_ops \<Rightarrow> 'r admission option \<Rightarrow> bool \<Rightarrow> datagram list \<Rightarrow> (datagram \<times> datagram list) option"
where
  "admission_udpConn_ReadFromUDP R p readUDP ds =
     (if readUDP then admission_udpConn_ReadFrom R p ds else Some (Inl ErrUnsupport, ds))"

definition admission_udpConn_ReadMsgUDP ::
    "('r, unit) ranger_ops \<Rightarrow> 'r admission option \<Rightarrow> bool \<Rightarrow> datagram list \<Rightarrow> (datagram \<times> datagram list) option"
where
  "admission_udpConn_ReadMsgUDP R p readUDP ds =
     (if readUDP then admission_udpConn_ReadFrom R p ds else Some (Inl ErrUnsupport, ds))"

lemma admission_ReadFrom_udp: "admission_udpConn_ReadFrom R p ds = admission_packetConn_ReadFrom R p ds"
  by (induction R p ds rule: admission_packetConn_ReadFrom.induct) auto

lemma admission_ReadFrom_admits:
  "admission_packetConn_ReadFrom R p ds = Some (Inr (b, addr), rest) \<Longrightarrow> admission_Admit R p addr"
  by (induction R p ds rule: admission_packetConn_ReadFrom.induct)
    (auto simp only: admission_refused admission_packetConn_ReadFrom.simps split: if_splits)

end
