(* ===== verification/Hosts.thy ===== *)
theory Hosts
  imports Matcher Reload
begin

text \<open>
  The host table of \<open>hosts/hosts.go\<close>: lines of an IP address and the names it stands for,
  merged without duplicates at every reload, and looked up by the name, by the name with a
  dot in front, and by its parent domains.
\<close>

section \<open>Options and state\<close>

record host_mapping =
  hm_Hostname :: string
  hm_IP :: ip

record hosts_options =
  ho_mappings :: "host_mapping list"
  ho_fileLoader :: "loader option"
  ho_redisLoader :: "loader option"
  ho_httpLoader :: "loader option"
  ho_period :: int

definition hosts_no_options :: hosts_options where
  "hosts_no_options =
     \<lparr>ho_mappings = [], ho_fileLoader = None, ho_redisLoader = None, ho_httpLoader = None,
      ho_period = 0\<rparr>"

definition hosts_MappingsOption :: "host_mapping list \<Rightarrow> hosts_options \<Rightarrow> hosts_options" where
  "hosts_MappingsOption ms opts = opts\<lparr>ho_mappings := ms\<rparr>"

definition hosts_ReloadPeriodOption :: "int \<Rightarrow> hosts_options \<Rightarrow> hosts_options" where
  "hosts_ReloadPeriodOption p opts = opts\<lparr>ho_period := p\<rparr>"

definition hosts_FileLoaderOption :: "loader option \<Rightarrow> hosts_options \<Rightarrow> hosts_options" where
  "hosts_FileLoaderOption l opts = opts\<lparr>ho_fileLoader := l\<rparr>"

definition hosts_RedisLoaderOption :: "loader option \<Rightarrow> hosts_options \<Rightarrow> hosts_options" where
  "hosts_RedisLoaderOption l opts = opts\<lparr>ho_redisLoader := l\<rparr>"

definition hosts_HTTPLoaderOption :: "loader option \<Rightarrow> hosts_options \<Rightarrow> hosts_options" where
  "hosts_HTTPLoaderOption l opts = opts\<lparr>ho_httpLoader := l\<rparr>"

text \<open>The table has no key with an empty list, so a nil answer is exactly a missing key.\<close>

type_synonym host_table = "string \<rightharpoonup> ip list"

record hostMapper =
  hp_mappings :: host_table
  hp_options :: hosts_options

section \<open>Loading\<close>

definition hosts_parseLine :: "string \<Rightarrow> host_mapping list" where
  "hosts_parseLine s =
     (let line = cut_comment (trim_space (tabs_to_blanks s));
          sp = split_fields line
      in if length sp < 2 then []
         else case parse_ip (hd sp) of
           None \<Rightarrow> []
         | Some ip \<Rightarrow> map (\<lambda>v. \<lparr>hm_Hostname = v, hm_IP = ip\<rparr>) (tl sp))"

definition hosts_parseMapping :: "string option \<Rightarrow> host_mapping list \<times> bool" where
  "hosts_parseMapping r =
     (case r of
        None \<Rightarrow> ([], False)
      | Some text \<Rightarrow> (case scan_lines text of (ls, err) \<Rightarrow> (concat (map hosts_parseLine ls), err)))"

definition hosts_load :: "nat \<Rightarrow> hosts_options \<Rightarrow> host_mapping list" where
  "hosts_load t opts =
     (let ms = (case ho_fileLoader opts of
                  None \<Rightarrow> []
                | Some l \<Rightarrow>
                    (case as_Lister (l t) of
                       Some (list, er) \<Rightarrow> concat (map hosts_parseLine list)
                     | None \<Rightarrow> fst (hosts_parseMapping (loader_Load (l t)))));
          ms = (case ho_redisLoader opts of
                  None \<Rightarrow> ms
                | Some l \<Rightarrow>
                    (case as_Lister (l t) of
                       Some (list, er) \<Rightarrow> ms @ concat (map hosts_parseLine list)
                     | None \<Rightarrow> ms @ fst (hosts_parseMapping (loader_Load (l t)))));
          ms = (case ho_httpLoader opts of
                  None \<Rightarrow> ms
                | Some l \<Rightarrow> ms @ fst (hosts_parseMapping (loader_Load (l t))))
      in ms)"

text \<open>The closure \<open>mapf\<close> of \<open>reload\<close>.\<close>

definition hosts_mapf :: "host_mapping \<Rightarrow> host_table \<Rightarrow> host_table" where
  "hosts_mapf mp mappings =
     (let ips = (case mappings (hm_Hostname mp) of None \<Rightarrow> [] | Some ips \<Rightarrow> ips);
          found = list_ex (\<lambda>i. ip_equal (hm_IP mp) i) ips
      in mappings(hm_Hostname mp \<mapsto> (if found then ips else ips @ [hm_IP mp])))"

definition hosts_reload :: "nat \<Rightarrow> hostMapper \<Rightarrow> hostMapper" where
  "hosts_reload t h =
     (let mappings = fold hosts_mapf (ho_mappings (hp_options h)) Map.empty;
          m = hosts_load t (hp_options h);
          mappings = fold hosts_mapf m mappings
      in h\<lparr>hp_mappings := mappings\<rparr>)"

definition hosts_periodReload :: "nat \<Rightarrow> event list \<Rightarrow> hostMapper \<Rightarrow> int \<times> hostMapper option" where
  "hosts_periodReload t es h =
     (ticker_period (ho_period (hp_options h)), period_loop (\<lambda>t s. Some (hosts_reload t s)) t es h)"

definition hosts_apply :: "(hosts_options \<Rightarrow> hosts_options) list \<Rightarrow> hosts_options" where
  "hosts_apply opts = foldl (\<lambda>acc opt. opt acc) hosts_no_options opts"

definition NewHostMapper :: "(hosts_options \<Rightarrow> hosts_options) list \<Rightarrow> hostMapper \<times> bool" where
  "NewHostMapper opts =
     (let options = hosts_apply opts;
          p = \<lparr>hp_mappings = Map.empty, hp_options = options\<rparr>
      in (hosts_reload 0 p, ho_period options > 0))"

section \<open>Lookup\<close>

definition hosts_lookup :: "hostMapper \<Rightarrow> string \<Rightarrow> ip list option" where
  "hosts_lookup h host = hp_mappings h host"

text \<open>The \<open>for\<close> loop of \<open>Lookup\<close> over the parent domains.\<close>

function hosts_loop :: "(string \<Rightarrow> ip list option) \<Rightarrow> string \<Rightarrow> ip list option" where
  "hosts_loop look s =
     (case index_byte CHR ''.'' s of
        None \<Rightarrow> None
      | Some index \<Rightarrow>
          if index > 0 then
            (case look (drop index s) of
               None \<Rightarrow> hosts_loop look (drop (index + 1) s)
             | Some ips \<Rightarrow> Some ips)
          else None)"
  by pat_completeness auto
termination
  by (relation "measure (\<lambda>(l, s). length s)") (auto dest!: index_byte_SomeD)

declare hosts_loop.simps [simp del]

definition hosts_network_filter :: "string \<Rightarrow> ip list \<Rightarrow> ip list" where
  "hosts_network_filter network ips =
     (if network = ''ip4'' then filter (\<lambda>v. v \<noteq> []) (map ip_to4 ips)
      else if network = ''ip6'' then filter (\<lambda>ip. ip_to4 ip = []) ips
      else ips)"

text \<open>The second result is the named return value \<open>ok\<close>, which no branch assigns.\<close>

definition hosts_Lookup :: "hostMapper \<Rightarrow> string \<Rightarrow> string \<Rightarrow> ip list \<times> bool" where
  "hosts_Lookup h network host =
     (let ok = False;
          ips = hosts_lookup h host;
          ips = (if ips = None then hosts_lookup h (CHR ''.'' # host) else ips);
          ips = (if ips = None then hosts_loop (hosts_lookup h) host else ips)
      in case ips of
           None \<Rightarrow> ([], ok)
         | Some ips \<Rightarrow> (hosts_network_filter network ips, ok))"

section \<open>The table a reload installs\<close>

interpretation hosts: dotted_walk "hosts_lookup h" "hosts_loop (hosts_lookup h)" for h
proof (unfold_locales, goal_cases)
  case (1 s)
  then show ?case by (subst hosts_loop.simps) (simp add: index_byte_None [THEN iffD2])
next
  case (2 s)
  then show ?case by (subst hosts_loop.simps) simp
next
  case (3 a b)
  then show ?case
    by (subst hosts_loop.simps) (simp add: index_byte_append split: option.splits)
qed

text \<open>
  The specification: the addresses given to a name, in the order they are given, each only
  the first time.
\<close>

fun ips_dedup :: "ip list \<Rightarrow> ip list \<Rightarrow> ip list" where
  "ips_dedup seen [] = seen"
| "ips_dedup seen (i # is) =
     ips_dedup (if \<exists>j\<in>set seen. ip_equal i j then seen else seen @ [i]) is"

definition hosts_entry :: "host_mapping list \<Rightarrow> string \<Rightarrow> ip list option" where
  "hosts_entry ms host =
     (case filter (\<lambda>m. hm_Hostname m = host) ms of
        [] \<Rightarrow> None
      | m # rest \<Rightarrow> Some (ips_dedup [] (map hm_IP (m # rest))))"

lemma hosts_mapf_other: "hm_Hostname mp \<noteq> host \<Longrightarrow> hosts_mapf mp t host = t host"
  by (simp add: hosts_mapf_def Let_def)

lemma hosts_mapf_fold:
  "t host = Some seen \<Longrightarrow>
   fold hosts_mapf ms t host =
     Some (ips_dedup seen (map hm_IP (filter (\<lambda>m. hm_Hostname m = host) ms)))"
proof (induction ms arbitrary: t seen)
  case Nil
  then show ?case by simp
next
  case (Cons m ms)
  show ?case
  proof (cases "hm_Hostname m = host")
    case True
    with Cons.prems have "hosts_mapf m t host =
        Some (if \<exists>j\<in>set seen. ip_equal (hm_IP m) j then seen else seen @ [hm_IP m])"
      by (simp add: hosts_mapf_def Let_def list_ex_iff)
    from Cons.IH [where t = "hosts_mapf m t", OF this] True show ?thesis by simp
  next
    case False
    with Cons.prems Cons.IH [where t = "hosts_mapf m t" and seen = seen] show ?thesis by (simp add: hosts_mapf_other)
  qed
qed

lemma hosts_mapf_table: "fold hosts_mapf ms Map.empty host = hosts_entry ms host"
proof -
  have "t host = None \<Longrightarrow> fold hosts_mapf ms t host = hosts_entry ms host" for t
  proof (induction ms arbitrary: t)
    case Nil
    then show ?case by (simp add: hosts_entry_def)
  next
    case (Cons m ms)
    show ?case
    proof (cases "hm_Hostname m = host")
      case True
      with Cons.prems have "hosts_mapf m t host = Some [hm_IP m]" by (simp add: hosts_mapf_def)
      from hosts_mapf_fold [where t = "hosts_mapf m t", OF this] True show ?thesis by (simp add: hosts_entry_def)
    next
      case False
      with Cons.prems Cons.IH [of "hosts_mapf m t"] show ?thesis
        by (simp add: hosts_mapf_other hosts_entry_def)
    qed
  qed
  then show ?thesis by simp
qed

definition hosts_mappings :: "nat \<Rightarrow> hosts_options \<Rightarrow> host_mapping list" where
  "hosts_mappings t opts = ho_mappings opts @ hosts_load t opts"

definition hosts_fresh :: "nat \<Rightarrow> hosts_options \<Rightarrow> host_table option" where
  "hosts_fresh t opts = Some (hosts_entry (hosts_mappings t opts))"

lemma hosts_reload_fresh:
  "hosts_fresh t (hp_options h) = Some (hp_mappings (hosts_reload t h))"
  "hp_options (hosts_reload t h) = hp_options h"
proof -
  have "fold hosts_mapf (ho_mappings opts @ hosts_load t opts) Map.empty =
        hosts_entry (ho_mappings opts @ hosts_load t opts)" for opts
    by (rule ext) (rule hosts_mapf_table)
  then show "hosts_fresh t (hp_options h) = Some (hp_mappings (hosts_reload t h))"
    by (simp add: hosts_fresh_def hosts_reload_def hosts_mappings_def Let_def)
  show "hp_options (hosts_reload t h) = hp_options h"
    by (simp add: hosts_reload_def Let_def)
qed

interpretation hosts: reloadable "\<lambda>t s. Some (hosts_reload t s)" hp_options hp_mappings hosts_fresh
  by unfold_locales (auto simp: hosts_reload_fresh)

lemma hosts_lifecycle:
  assumes "snd (hosts_periodReload 1 es (fst (NewHostMapper opts))) = Some h"
  shows "hp_mappings h = hosts_entry (hosts_mappings (ticks es) (hosts_apply opts))"
proof -
  let ?h0 = "fst (NewHostMapper opts)"
  have opts0: "hp_options ?h0 = hosts_apply opts"
    and fresh0: "hosts_fresh 0 (hosts_apply opts) = Some (hp_mappings ?h0)"
    using hosts_reload_fresh [of 0 "\<lparr>hp_mappings = Map.empty, hp_options = hosts_apply opts\<rparr>"]
    by (simp_all add: NewHostMapper_def Let_def)
  from assms have "period_loop (\<lambda>t s. Some (hosts_reload t s)) 1 es ?h0 = Some h"
    by (simp add: hosts_periodReload_def)
  from hosts.loop_content [OF this] opts0 fresh0
  have "hosts_fresh (ticks es) (hosts_apply opts) = Some (hp_mappings h)"
    by (auto split: if_splits)
  then show ?thesis by (simp add: hosts_fresh_def)
qed

lemma hosts_Lookup_first:
  "hosts_Lookup h network host =
     (case first_some (hp_mappings h) (host # (CHR ''.'' # host) # dotted_parents host) of
        None \<Rightarrow> ([], False)
      | Some ips \<Rightarrow> (hosts_network_filter network ips, False))"
proof -
  have l: "hosts_lookup h = hp_mappings h" by (rule ext) (simp add: hosts_lookup_def)
  show ?thesis
    using hosts.walk_first [of h host]
    by (simp add: hosts_Lookup_def l Let_def split: option.splits)
qed

text \<open>
  From construction through any number of ticks, looking a host up gives the addresses (of the
  asked family, without duplicates, in the order of the rules) of the most specific of the
  keys host, .host and .parent that the latest rules name; the flag is always false.
\<close>

theorem hosts_lookup_latest_rules:
  assumes "snd (hosts_periodReload 1 es (fst (NewHostMapper opts))) = Some h"
  shows "hosts_Lookup h network host =
    (case first_some (hosts_entry (hosts_mappings (ticks es) (hosts_apply opts)))
            (host # (CHR ''.'' # host) # dotted_parents host) of
       None \<Rightarrow> ([], False)
     | Some ips \<Rightarrow> (hosts_network_filter network ips, False))"
  unfolding hosts_Lookup_first hosts_lifecycle [OF assms] ..

definition demo_hosts_opts :: "(hosts_options \<Rightarrow> hosts_options) list" where
  "demo_hosts_opts =
     [hosts_FileLoaderOption (Some (\<lambda>t. FileSource (Some
        ''10.0.0.1 a.example.com .example.com # front'')))]"

theorem hosts_lookup_latest_rules_witness:
  "hosts_Lookup (fst (NewHostMapper demo_hosts_opts)) ''ip4'' ''b.example.com'' = ([[10, 0, 0, 1]], False) \<and>
   hosts_Lookup (fst (NewHostMapper demo_hosts_opts)) ''ip6'' ''a.example.com'' = ([], False)"
proof -
  have r: "snd (hosts_periodReload 1 [] (fst (NewHostMapper demo_hosts_opts))) =
      Some (fst (NewHostMapper demo_hosts_opts))"
    by (simp add: hosts_periodReload_def)
  note c = hosts_lookup_latest_rules [OF r]
  show ?thesis unfolding c by code_simp
qed

text \<open>
  A line of an address and names, followed by a comment, gives one mapping for each name, in
  order, all to the parsed address.
\<close>

theorem hosts_line_mappings:
  assumes "\<forall>w\<in>set (a # n # ns). ascii_word w \<and> w \<noteq> [] \<and> CHR ''#'' \<notin> set w"
    and "ascii_word c" and "parse_ip a = Some i"
  shows "hosts_parseLine (commented_line a (n # ns) c) =
    map (\<lambda>v. \<lparr>hm_Hostname = v, hm_IP = i\<rparr>) (n # ns)"
  using split_commented_line [OF assms(1,2)] assms(3) by (simp add: hosts_parseLine_def Let_def)

theorem hosts_line_mappings_witness:
  "hosts_parseLine (commented_line ''::1'' [''localhost'', ''ip6-localhost''] ''me'') =
    map (\<lambda>v. \<lparr>hm_Hostname = v, hm_IP = [0,0,0,0,0,0,0,0,0,0,0,0,0,0,0,1]\<rparr>) [''localhost'', ''ip6-localhost'']"
proof -
  have "\<forall>w\<in>set (''::1'' # ''localhost'' # [''ip6-localhost'']). ascii_word w \<and> w \<noteq> [] \<and> CHR ''#'' \<notin> set w"
    and "ascii_word ''me''" and "parse_ip ''::1'' = Some [0,0,0,0,0,0,0,0,0,0,0,0,0,0,0,1]"
    by code_simp+
  then show ?thesis by (rule hosts_line_mappings)
qed

end
