(* ===== verification/Ingress.thy ===== *)
theory Ingress
  imports Matcher Reload
begin

text \<open>
  The ingress table of \<open>ingress/ingress.go\<close>, which the relay entry point asks for the tunnel of
  a host name: rules of a host name (possibly with a leading star) and an endpoint, the
  latest rule of a name winning.
\<close>

section \<open>Options and state\<close>

record ingress_rule =
  ir_Hostname :: string
  ir_Endpoint :: string

record ingress_options =
  io_rules :: "ingress_rule list"
  io_fileLoader :: "loader option"
  io_redisLoader :: "loader option"
  io_httpLoader :: "loader option"
  io_period :: int

definition ingress_no_options :: ingress_options where
  "ingress_no_options =
     \<lparr>io_rules = [], io_fileLoader = None, io_redisLoader = None, io_httpLoader = None,
      io_period = 0\<rparr>"

definition ingress_RulesOption :: "ingress_rule list \<Rightarrow> ingress_options \<Rightarrow> ingress_options" where
  "ingress_RulesOption rs opts = opts\<lparr>io_rules := rs\<rparr>"

definition ingress_ReloadPeriodOption :: "int \<Rightarrow> ingress_options \<Rightarrow> ingress_options" where
  "ingress_ReloadPeriodOption p opts = opts\<lparr>io_period := p\<rparr>"

definition ingress_FileLoaderOption :: "loader option \<Rightarrow> ingress_options \<Rightarrow> ingress_options" where
  "ingress_FileLoaderOption l opts = opts\<lparr>io_fileLoader := l\<rparr>"

definition ingress_RedisLoaderOption :: "loader option \<Rightarrow> ingress_options \<Rightarrow> ingress_options" where
  "ingress_RedisLoaderOption l opts = opts\<lparr>io_redisLoader := l\<rparr>"

definition ingress_HTTPLoaderOption :: "loader option \<Rightarrow> ingress_options \<Rightarrow> ingress_options" where
  "ingress_HTTPLoaderOption l opts = opts\<lparr>io_httpLoader := l\<rparr>"

record ingress =
  ing_rules :: "string \<rightharpoonup> ingress_rule"
  ing_options :: ingress_options

section \<open>Loading\<close>

definition ingress_parseLine :: "string \<Rightarrow> ingress_rule" where
  "ingress_parseLine s =
     (let line = cut_comment (trim_space (tabs_to_blanks s));
          sp = split_fields line
      in if length sp < 2 then \<lparr>ir_Hostname = [], ir_Endpoint = []\<rparr>
         else \<lparr>ir_Hostname = sp ! 0, ir_Endpoint = sp ! 1\<rparr>)"

definition ingress_parseRules :: "string option \<Rightarrow> ingress_rule list \<times> bool" where
  "ingress_parseRules r =
     (case r of
        None \<Rightarrow> ([], False)
      | Some text \<Rightarrow>
          (case scan_lines text of
             (ls, err) \<Rightarrow> (filter (\<lambda>r. ir_Hostname r \<noteq> []) (map ingress_parseLine ls), err)))"

definition ingress_load :: "nat \<Rightarrow> ingress_options \<Rightarrow> ingress_rule list" where
  "ingress_load t opts =
     (case io_fileLoader opts of
        None \<Rightarrow> []
      | Some l \<Rightarrow>
          (case as_Lister (l t) of
             Some (list, er) \<Rightarrow> map ingress_parseLine list
           | None \<Rightarrow> fst (ingress_parseRules (loader_Load (l t))))) @
     (case io_redisLoader opts of
        None \<Rightarrow> []
      | Some l \<Rightarrow>
          (case as_Lister (l t) of
             Some (list, er) \<Rightarrow> map ingress_parseLine list
           | None \<Rightarrow> fst (ingress_parseRules (loader_Load (l t))))) @
     (case io_httpLoader opts of
        None \<Rightarrow> []
      | Some l \<Rightarrow> fst (ingress_parseRules (loader_Load (l t))))"

text \<open>The closure \<open>fn\<close> of \<open>reload\<close>.\<close>

definition ingress_fn :: "ingress_rule \<Rightarrow> (string \<rightharpoonup> ingress_rule) \<Rightarrow> (string \<rightharpoonup> ingress_rule)" where
  "ingress_fn rule rules =
     (if ir_Hostname rule = [] \<or> ir_Endpoint rule = [] then rules
      else let host = ir_Hostname rule;
               host = (if hd host = CHR ''*'' then tl host else host)
           in rules(host \<mapsto> rule))"

definition ingress_reload :: "nat \<Rightarrow> ingress \<Rightarrow> ingress" where
  "ingress_reload t ing =
     (let rules = fold ingress_fn (io_rules (ing_options ing)) Map.empty;
          v = ingress_load t (ing_options ing);
          rules = fold ingress_fn v rules
      in ing\<lparr>ing_rules := rules\<rparr>)"

definition ingress_periodReload :: "nat \<Rightarrow> event list \<Rightarrow> ingress \<Rightarrow> int \<times> ingress option" where
  "ingress_periodReload t es ing =
     (ticker_period (io_period (ing_options ing)), period_loop (\<lambda>t s. Some (ingress_reload t s)) t es ing)"

definition ingress_apply :: "(ingress_options \<Rightarrow> ingress_options) list \<Rightarrow> ingress_options" where
  "ingress_apply opts = foldl (\<lambda>acc opt. opt acc) ingress_no_options opts"

text \<open>The rules are a nil map before the first reload, which reads as the empty one.\<close>

definition NewIngress :: "(ingress_options \<Rightarrow> ingress_options) list \<Rightarrow> ingress \<times> bool" where
  "NewIngress opts =
     (let options = ingress_apply opts;
          ing = \<lparr>ing_rules = Map.empty, ing_options = options\<rparr>
      in (ingress_reload 0 ing, io_period options > 0))"

section \<open>Get\<close>

definition ingress_lookup :: "ingress \<Rightarrow> string \<Rightarrow> string" where
  "ingress_lookup ing host = (case ing_rules ing host of None \<Rightarrow> [] | Some r \<Rightarrow> ir_Endpoint r)"

text \<open>The \<open>for\<close> loop of \<open>Get\<close> over the parent domains.\<close>

function ingress_loop :: "(string \<Rightarrow> string) \<Rightarrow> string \<Rightarrow> string" where
  "ingress_loop look s =
     (case index_byte CHR ''.'' s of
        None \<Rightarrow> []
      | Some index \<Rightarrow>
          if index > 0 then
            (let ep = look (drop index s)
             in if ep = [] then ingress_loop look (drop (index + 1) s) else ep)
          else [])"
  by pat_completeness auto
termination
  by (relation "measure (\<lambda>(l, s). length s)") (auto dest!: index_byte_SomeD)

declare ingress_loop.simps [simp del]

definition ingress_Get :: "ingress option \<Rightarrow> string \<Rightarrow> string" where
  "ingress_Get ing host =
     (if host = [] then []
      else case ing of
        None \<Rightarrow> []
      | Some ing \<Rightarrow>
          (let host = strip_port host;
               ep = ingress_lookup ing host;
               ep = (if ep = [] then ingress_lookup ing (CHR ''.'' # host) else ep);
               ep = (if ep = [] then ingress_loop (ingress_lookup ing) host else ep)
           in ep))"

section \<open>The table a reload installs\<close>

definition endpoint_option :: "string \<Rightarrow> string option" where
  "endpoint_option ep = (if ep = [] then None else Some ep)"

interpretation ingress: dotted_walk "\<lambda>k. endpoint_option (ingress_lookup ing k)"
    "\<lambda>s. endpoint_option (ingress_loop (ingress_lookup ing) s)" for ing
proof (unfold_locales, goal_cases)
  case (1 s)
  then show ?case
    by (subst ingress_loop.simps) (simp add: index_byte_None [THEN iffD2] endpoint_option_def)
next
  case (2 s)
  then show ?case by (subst ingress_loop.simps) (simp add: endpoint_option_def)
next
  case (3 a b)
  then show ?case
    by (subst ingress_loop.simps) (simp add: index_byte_append endpoint_option_def Let_def)
qed

text \<open>The specification: the endpoint of the latest complete rule of a key.\<close>

definition ingress_key :: "ingress_rule \<Rightarrow> string" where
  "ingress_key r = (case ir_Hostname r of [] \<Rightarrow> [] | c # h \<Rightarrow> if c = CHR ''*'' then h else c # h)"

definition ingress_sets :: "string \<Rightarrow> ingress_rule \<Rightarrow> bool" where
  "ingress_sets k r \<longleftrightarrow> ir_Hostname r \<noteq> [] \<and> ir_Endpoint r \<noteq> [] \<and> ingress_key r = k"

definition ingress_entry :: "ingress_rule list \<Rightarrow> string \<Rightarrow> string option" where
  "ingress_entry rs k =
     (let ms = filter (ingress_sets k) rs in if ms = [] then None else Some (ir_Endpoint (last ms)))"

lemma ingress_entry_snoc:
  "ingress_entry (rs @ [r]) k = (if ingress_sets k r then Some (ir_Endpoint r) else ingress_entry rs k)"
  by (simp add: ingress_entry_def)

lemma ingress_fn_key:
  "ingress_fn r m =
     (if ir_Hostname r \<noteq> [] \<and> ir_Endpoint r \<noteq> [] then m(ingress_key r \<mapsto> r) else m)"
  by (auto simp: ingress_fn_def ingress_key_def Let_def split: list.split)

lemma ingress_fold_entry:
  "endpoint_option (case fold ingress_fn rs Map.empty k of None \<Rightarrow> [] | Some r \<Rightarrow> ir_Endpoint r) =
   ingress_entry rs k"
proof (induction rs rule: rev_induct)
  case Nil
  then show ?case by (simp add: endpoint_option_def ingress_entry_def)
next
  case (snoc r rs)
  then show ?case
    by (cases "ingress_sets k r")
      (auto simp: ingress_fn_key [of r] ingress_entry_snoc ingress_sets_def endpoint_option_def)
qed

definition ingress_rules :: "nat \<Rightarrow> ingress_options \<Rightarrow> ingress_rule list" where
  "ingress_rules t opts = io_rules opts @ ingress_load t opts"

definition ingress_fresh :: "nat \<Rightarrow> ingress_options \<Rightarrow> (string \<rightharpoonup> ingress_rule) option" where
  "ingress_fresh t opts = Some (fold ingress_fn (ingress_rules t opts) Map.empty)"

lemma ingress_reload_fresh:
  "ingress_fresh t (ing_options ing) = Some (ing_rules (ingress_reload t ing))"
  "ing_options (ingress_reload t ing) = ing_options ing"
  by (simp_all add: ingress_fresh_def ingress_reload_def ingress_rules_def Let_def)

interpretation ingress: reloadable "\<lambda>t s. Some (ingress_reload t s)" ing_options ing_rules ingress_fresh
  by unfold_locales (auto simp: ingress_reload_fresh)

lemma ingress_lifecycle:
  assumes "snd (ingress_periodReload 1 es (fst (NewIngress opts))) = Some ing"
  shows "endpoint_option (ingress_lookup ing k) = ingress_entry (ingress_rules (ticks es) (ingress_apply opts)) k"
proof -
  let ?i0 = "fst (NewIngress opts)"
  have opts0: "ing_options ?i0 = ingress_apply opts"
    and fresh0: "ingress_fresh 0 (ingress_apply opts) = Some (ing_rules ?i0)"
    using ingress_reload_fresh [of 0 "\<lparr>ing_rules = Map.empty, ing_options = ingress_apply opts\<rparr>"]
    by (simp_all add: NewIngress_def Let_def)
  from assms have "period_loop (\<lambda>t s. Some (ingress_reload t s)) 1 es ?i0 = Some ing"
    by (simp add: ingress_periodReload_def)
  from ingress.loop_content [OF this] opts0 fresh0
  have "ingress_fresh (ticks es) (ingress_apply opts) = Some (ing_rules ing)"
    by (auto split: if_splits)
  then show ?thesis
    by (simp add: ingress_fresh_def ingress_lookup_def ingress_fold_entry flip: ingress_fold_entry)
qed

lemma ingress_Get_first:
  "host \<noteq> [] \<Longrightarrow>
   endpoint_option (ingress_Get (Some ing) host) =
     first_some (\<lambda>k. endpoint_option (ingress_lookup ing k))
       (strip_port host # (CHR ''.'' # strip_port host) # dotted_parents (strip_port host))"
  using ingress.walk_first [of ing "strip_port host"]
  by (auto simp: ingress_Get_def Let_def endpoint_option_def split: option.splits if_splits)

text \<open>
  From construction through any number of ticks, the endpoint of a host (its port stripped) is
  the one of the most specific key among host, .host and its parents that the latest rules
  give an endpoint; it is empty exactly when there is none.
\<close>

theorem ingress_get_latest_rules:
  assumes "snd (ingress_periodReload 1 es (fst (NewIngress opts))) = Some ing" and "host \<noteq> []"
  shows "endpoint_option (ingress_Get (Some ing) host) =
    first_some (ingress_entry (ingress_rules (ticks es) (ingress_apply opts)))
      (strip_port host # (CHR ''.'' # strip_port host) # dotted_parents (strip_port host))"
proof -
  have "(\<lambda>k. endpoint_option (ingress_lookup ing k)) =
      ingress_entry (ingress_rules (ticks es) (ingress_apply opts))"
    by (rule ext) (rule ingress_lifecycle [OF assms(1)])
  with ingress_Get_first [OF assms(2), of ing] show ?thesis by simp
qed

definition demo_ingress_opts :: "(ingress_options \<Rightarrow> ingress_options) list" where
  "demo_ingress_opts =
     [ingress_RulesOption [\<lparr>ir_Hostname = ''*.example.com'', ir_Endpoint = ''tunnel-1''\<rparr>],
      ingress_RedisLoaderOption (Some (\<lambda>t. RedisHashSource (Some [(''www.example.com'', ''tunnel-2'')])))]"

theorem ingress_get_latest_rules_witness:
  "endpoint_option (ingress_Get (Some (fst (NewIngress demo_ingress_opts))) ''www.example.com:443'') = Some ''tunnel-2'' \<and>
   endpoint_option (ingress_Get (Some (fst (NewIngress demo_ingress_opts))) ''a.b.example.com'') = Some ''tunnel-1'' \<and>
   endpoint_option (ingress_Get (Some (fst (NewIngress demo_ingress_opts))) ''example.org'') = None"
proof -
  have r: "snd (ingress_periodReload 1 [] (fst (NewIngress demo_ingress_opts))) =
      Some (fst (NewIngress demo_ingress_opts))"
    by (simp add: ingress_periodReload_def)
  note c = ingress_get_latest_rules [OF r]
  have "''www.example.com:443'' \<noteq> []" "''a.b.example.com'' \<noteq> []" "''example.org'' \<noteq> []" by simp_all
  note c = this [THEN c]
  show ?thesis unfolding c by code_simp
qed

end
