(* ===== verification/Auth.thy ===== *)
theory Auth
  imports Reload "HOL-Library.AList"
begin

text \<open>
  The authenticator of \<open>auth/auth.go\<close>: a table of user names and passwords, loaded from the
  configuration and from external sources.  A Go map is an association list with one entry
  for each key, in the order of its iteration; a nil map is \<open>None\<close>, and writing to it is the
  panic that makes a reload \<open>None\<close>.
\<close>

section \<open>Options and state\<close>

type_synonym auths = "(string \<times> string) list"

record auth_options =
  uo_auths :: auths
  uo_fileLoader :: "loader option"
  uo_redisLoader :: "loader option"
  uo_httpLoader :: "loader option"
  uo_period :: int

definition auth_no_options :: auth_options where
  "auth_no_options =
     \<lparr>uo_auths = [], uo_fileLoader = None, uo_redisLoader = None, uo_httpLoader = None, uo_period = 0\<rparr>"

definition auth_AuthsOption :: "auths \<Rightarrow> auth_options \<Rightarrow> auth_options" where
  "auth_AuthsOption a opts = opts\<lparr>uo_auths := a\<rparr>"

definition auth_ReloadPeriodOption :: "int \<Rightarrow> auth_options \<Rightarrow> auth_options" where
  "auth_ReloadPeriodOption p opts = opts\<lparr>uo_period := p\<rparr>"

definition auth_FileLoaderOption :: "loader option \<Rightarrow> auth_options \<Rightarrow> auth_options" where
  "auth_FileLoaderOption l opts = opts\<lparr>uo_fileLoader := l\<rparr>"

definition auth_RedisLoaderOption :: "loader option \<Rightarrow> auth_options \<Rightarrow> auth_options" where
  "auth_RedisLoaderOption l opts = opts\<lparr>uo_redisLoader := l\<rparr>"

definition auth_HTTPLoaderOption :: "loader option \<Rightarrow> auth_options \<Rightarrow> auth_options" where
  "auth_HTTPLoaderOption l opts = opts\<lparr>uo_httpLoader := l\<rparr>"

record authenticator =
  au_kvs :: auths
  au_options :: auth_options

section \<open>Loading\<close>

text \<open>\<open>for k, v := range from { m[k] = v }\<close>.\<close>

definition auth_copy :: "auths \<Rightarrow> auths \<Rightarrow> auths" where
  "auth_copy from m = fold (\<lambda>(k, v). AList.update k v) from m"

text \<open>The body of the scanner loop of \<open>parseAuths\<close>.\<close>

definition auth_parse_step :: "string \<Rightarrow> auths \<Rightarrow> auths" where
  "auth_parse_step text auths =
     (let line = trim_space (tabs_to_blanks text)
      in if index_byte CHR ''#'' line = Some 0 then auths
         else case split_n2 CHR '' '' line of
           [a] \<Rightarrow> (let k = trim_space a in if k \<noteq> [] then AList.update k [] auths else auths)
         | [a, b] \<Rightarrow>
             (let k = trim_space a in if k \<noteq> [] then AList.update k (trim_space b) auths else auths)
         | _ \<Rightarrow> auths)"

definition auth_parseAuths :: "string option \<Rightarrow> auths option \<times> bool" where
  "auth_parseAuths r =
     (case r of
        None \<Rightarrow> (None, False)
      | Some text \<Rightarrow> (case scan_lines text of (ls, err) \<Rightarrow> (Some (fold auth_parse_step ls []), err)))"

text \<open>The writes \<open>m[k] = v\<close> of a loop: \<open>None\<close> when one hits a nil map.\<close>

definition auth_write :: "auths option \<Rightarrow> auths option \<Rightarrow> auths option option" where
  "auth_write from m =
     (case from of
        None \<Rightarrow> Some m
      | Some kvs \<Rightarrow>
          (case m of
             None \<Rightarrow> if kvs = [] then Some None else None
           | Some m \<Rightarrow> Some (Some (auth_copy kvs m))))"

definition auth_load_file :: "source \<Rightarrow> auths option \<Rightarrow> auths option" where
  "auth_load_file src m =
     (case as_Mapper src of
        Some (auths, er) \<Rightarrow> auths
      | None \<Rightarrow>
          (case fst (auth_parseAuths (loader_Load src)) of Some auths \<Rightarrow> Some auths | None \<Rightarrow> m))"

text \<open>
  The branch for the redis loader, which asks the file loader whether it is a \<open>Mapper\<close>, and
  then uses the file loader's map.
\<close>

definition auth_load_redis :: "source option \<Rightarrow> source \<Rightarrow> auths option \<Rightarrow> auths option option" where
  "auth_load_redis file src m =
     (case (case file of None \<Rightarrow> None | Some f \<Rightarrow> as_Mapper f) of
        Some (auths, er) \<Rightarrow> auth_write auths m
      | None \<Rightarrow> auth_write (fst (auth_parseAuths (loader_Load src))) m)"

definition auth_load :: "nat \<Rightarrow> auth_options \<Rightarrow> auths option option" where
  "auth_load t opts =
     (let m = Some [];
          file = map_option (\<lambda>l. l t) (uo_fileLoader opts);
          m = (case file of None \<Rightarrow> m | Some src \<Rightarrow> auth_load_file src m);
          m = (case uo_redisLoader opts of
                 None \<Rightarrow> Some m
               | Some l \<Rightarrow> auth_load_redis file (l t) m)
      in case (uo_httpLoader opts, m) of
           (Some l, Some m) \<Rightarrow> auth_write (fst (auth_parseAuths (loader_Load (l t)))) m
         | _ \<Rightarrow> m)"

definition auth_reload :: "nat \<Rightarrow> authenticator \<Rightarrow> authenticator option" where
  "auth_reload t p =
     (let kvs = auth_copy (uo_auths (au_options p)) []
      in case auth_load t (au_options p) of
           None \<Rightarrow> None
         | Some None \<Rightarrow> Some (p\<lparr>au_kvs := kvs\<rparr>)
         | Some (Some m) \<Rightarrow> Some (p\<lparr>au_kvs := auth_copy m kvs\<rparr>))"

definition auth_periodReload :: "nat \<Rightarrow> event list \<Rightarrow> authenticator \<Rightarrow> int \<times> authenticator option" where
  "auth_periodReload t es p =
     (ticker_period (uo_period (au_options p)), period_loop auth_reload t es p)"

definition auth_apply :: "(auth_options \<Rightarrow> auth_options) list \<Rightarrow> auth_options" where
  "auth_apply opts = foldl (\<lambda>acc opt. opt acc) auth_no_options opts"

definition NewAuthenticator :: "(auth_options \<Rightarrow> auth_options) list \<Rightarrow> (authenticator \<times> bool) option" where
  "NewAuthenticator opts =
     (let options = auth_apply opts;
          p = \<lparr>au_kvs = [], au_options = options\<rparr>
      in case auth_reload 0 p of
           None \<Rightarrow> None
         | Some p' \<Rightarrow> Some (p', uo_period options > 0))"

definition auth_Authenticate :: "authenticator option \<Rightarrow> string \<Rightarrow> string \<Rightarrow> bool" where
  "auth_Authenticate p user password =
     (case p of
        None \<Rightarrow> True
      | Some p \<Rightarrow>
          if au_kvs p = [] then True
          else (case map_of (au_kvs p) user of
                  None \<Rightarrow> False
                | Some v \<Rightarrow> v = [] \<or> password = v))"

section \<open>The table a reload installs\<close>

lemma auth_copy_lookup: "map_of (auth_copy from m) = map_of m ++ map_of (rev from)"
proof (induction "from" arbitrary: m)
  case Nil
  then show ?case by (simp add: auth_copy_def)
next
  case (Cons kv kvs)
  obtain k v where kv: "kv = (k, v)" by (cases kv)
  from Cons show ?case by (simp add: auth_copy_def kv update_conv' map_add_def fun_eq_iff split: option.split)
qed

lemma auth_copy_Nil [simp]: "auth_copy [] m = m"
  by (simp add: auth_copy_def)

lemma map_of_rev_distinct: "distinct (map fst kvs) \<Longrightarrow> map_of (rev kvs) = map_of kvs"
  by (rule map_of_inject_set [THEN iffD2]) (auto simp flip: rev_map)

text \<open>The specification: loaded entries override configured ones.\<close>

definition auth_fresh :: "nat \<Rightarrow> auth_options \<Rightarrow> (string \<rightharpoonup> string) option" where
  "auth_fresh t opts =
     (case auth_load t opts of
        None \<Rightarrow> None
      | Some m \<Rightarrow>
          Some (map_of (rev (uo_auths opts)) ++ (case m of None \<Rightarrow> Map.empty | Some m \<Rightarrow> map_of (rev m))))"

definition auth_content :: "authenticator \<Rightarrow> (string \<rightharpoonup> string)" where
  "auth_content p = map_of (au_kvs p)"

interpretation auth: reloadable auth_reload au_options auth_content auth_fresh
  by unfold_locales
    (auto simp: auth_reload_def auth_fresh_def auth_content_def auth_copy_lookup Let_def
      split: option.splits)

lemma auth_lifecycle:
  assumes new: "NewAuthenticator opts = Some (p0, started)"
    and run: "snd (auth_periodReload 1 es p0) = Some p"
  shows "auth_fresh (ticks es) (auth_apply opts) = Some (auth_content p)"
proof -
  from new obtain b where b: "auth_reload 0 b = Some p0" "au_options b = auth_apply opts"
    by (fastforce simp: NewAuthenticator_def Let_def split: option.splits)
  have opts0: "au_options p0 = auth_apply opts"
    using auth.reload_opts [OF b(1)] b(2) by simp
  from run have "period_loop auth_reload 1 es p0 = Some p"
    by (simp add: auth_periodReload_def)
  from auth.loop_content [OF this] auth.reload_content [OF b(1)] opts0 b(2) show ?thesis
    by (auto split: if_splits)
qed

lemma auth_Authenticate_content:
  "auth_Authenticate (Some p) user password \<longleftrightarrow>
     auth_content p = Map.empty \<or>
     (\<exists>v. auth_content p user = Some v \<and> (v = [] \<or> password = v))"
proof (cases "au_kvs p = []")
  case True
  then show ?thesis by (simp add: auth_Authenticate_def auth_content_def)
next
  case False
  then have "auth_content p \<noteq> Map.empty" by (simp add: auth_content_def map_of_eq_empty_iff)
  with False show ?thesis
    by (auto simp: auth_Authenticate_def auth_content_def split: option.split)
qed

text \<open>
  C3. From construction through any number of ticks, a user is authenticated exactly when the
  latest table (configured entries, overridden by the loaded ones) has an entry for the user
  that is empty or equal to the password, or when the table has no entry at all.
\<close>

theorem auth_latest_table:
  assumes "NewAuthenticator opts = Some (p0, started)"
    and "snd (auth_periodReload 1 es p0) = Some p"
    and "auth_fresh (ticks es) (auth_apply opts) = Some table"
  shows "auth_Authenticate (Some p) user password \<longleftrightarrow>
    table = Map.empty \<or> (\<exists>v. table user = Some v \<and> (v = [] \<or> password = v))"
  using auth_lifecycle [OF assms(1,2)] assms(3) by (simp add: auth_Authenticate_content)

definition demo_auth_opts :: "(auth_options \<Rightarrow> auth_options) list" where
  "demo_auth_opts =
     [auth_AuthsOption [(''alice'', ''old''), (''bob'', ''b'')],
      auth_FileLoaderOption (Some (\<lambda>t. FileSource (if t = 0 then None else Some ''alice new'')))]"

definition demo_auth_run :: "(authenticator \<times> authenticator) option" where
  "demo_auth_run =
     (case NewAuthenticator demo_auth_opts of
        None \<Rightarrow> None
      | Some (p0, _) \<Rightarrow>
          (case snd (auth_periodReload 1 [Tick, Done] p0) of
             None \<Rightarrow> None
           | Some p \<Rightarrow> Some (p0, p)))"

lemma demo_auth_runs: "case demo_auth_run of None \<Rightarrow> False | Some _ \<Rightarrow> True"
  by code_simp

theorem auth_latest_table_witness:
  "\<exists>p0 p st. NewAuthenticator demo_auth_opts = Some (p0, st) \<and>
     snd (auth_periodReload 1 [Tick, Done] p0) = Some p \<and>
     auth_Authenticate (Some p) ''alice'' ''new'' \<and> \<not> auth_Authenticate (Some p) ''alice'' ''old'' \<and>
     auth_Authenticate (Some p) ''bob'' ''b''"
proof -
  obtain p0 p st where
    n: "NewAuthenticator demo_auth_opts = Some (p0, st)" and
    r: "snd (auth_periodReload 1 [Tick, Done] p0) = Some p"
    using demo_auth_runs by (auto simp: demo_auth_run_def split: option.splits prod.splits)
  have "auth_load 1 (auth_apply demo_auth_opts) = Some (Some [(''alice'', ''new'')])"
    and u: "uo_auths (auth_apply demo_auth_opts) = [(''alice'', ''old''), (''bob'', ''b'')]"
    by code_simp+
  then have "auth_fresh (ticks [Tick, Done]) (auth_apply demo_auth_opts) =
      Some [''alice'' \<mapsto> ''new'', ''bob'' \<mapsto> ''b'']"
    by (simp add: auth_fresh_def map_add_def fun_eq_iff)
  from auth_latest_table [OF n r this] n r show ?thesis by simp
qed

section \<open>The text format\<close>

text \<open>What a user name and a password must be to survive a line of an auth file.\<close>

definition line_auth :: "string \<times> string \<Rightarrow> bool" where
  "line_auth kv \<longleftrightarrow>
     (case kv of (u, pw) \<Rightarrow>
        ascii_word u \<and> u \<noteq> [] \<and> hd u \<noteq> CHR ''#'' \<and>
        (pw = [] \<or> ascii_graph (hd pw) \<and> ascii_graph (last pw)) \<and>
        CHR 0x09 \<notin> set pw \<and> clean_line (u @ CHR '' '' # pw))"

definition auth_line :: "string \<times> string \<Rightarrow> string" where
  "auth_line kv = (case kv of (u, pw) \<Rightarrow> u @ CHR '' '' # pw)"

lemma trim_space_ends:
  "ascii_graph (hd s) \<Longrightarrow> ascii_graph (last s) \<Longrightarrow> trim_space s = s"
proof (cases s rule: rev_cases)
  case (snoc ys y)
  assume g: "ascii_graph (hd s)" "ascii_graph (last s)"
  show ?thesis
  proof (cases ys)
    case Nil
    with snoc g show ?thesis by (simp add: trim_space_def ascii_graph_def)
  next
    case (Cons a zs)
    with snoc g show ?thesis by simp (metis append_Cons trim_space_graph)
  qed
qed simp

lemma trim_left_last:
  "xs \<noteq> [] \<Longrightarrow> ascii_graph (last xs) \<Longrightarrow> trim_left f xs \<noteq> [] \<and> last (trim_left f xs) = last xs"
proof (induction f xs rule: trim_left.induct)
  case (3 f a b)
  then show ?case using ascii_graph_not_space [of b a] by (auto simp: ascii_graph_def)
next
  case (4 f a b c s)
  then show ?case
    using ascii_graph_not_space [of c] by (cases "s = []") (auto simp: ascii_graph_def)
qed (auto simp: ascii_graph_def)

lemma trim_space_first:
  assumes "ascii_graph a"
  obtains t where "trim_space (a # s) = a # t"
proof -
  have "trim_left True (rev s @ [a]) \<noteq> [] \<and> last (trim_left True (rev s @ [a])) = a"
    using trim_left_last [of "rev s @ [a]" True] assms by simp
  then have "trim_space (a # s) = a # rev (butlast (trim_left True (rev s @ [a])))"
    using assms by (simp add: trim_space_def trim_left_graph)
      (metis append_butlast_last_id rev.simps(2) rev_rev_ident rev_append rev_singleton_conv append_Cons append_Nil)
  then show thesis by (rule that)
qed

lemma trim_space_word_blank: "ascii_word u \<Longrightarrow> u \<noteq> [] \<Longrightarrow> trim_space (u @ '' '') = u"
proof -
  assume u: "ascii_word u" "u \<noteq> []"
  then obtain a v where a: "u = a # v" by (cases u) auto
  with u have "trim_left False (u @ '' '') = u @ '' ''"
    by (simp add: trim_left_graph ascii_word_graph)
  moreover have "trim_left True (rev u) = rev u"
    using u by (intro trim_left_ascii_word) (simp add: ascii_word_def)
  ultimately show ?thesis
    by (simp add: trim_space_def trim_left_blank ascii_space_def)
qed

lemma auth_parse_step_line:
  assumes "line_auth kv"
  shows "auth_parse_step (auth_line kv) m = AList.update (fst kv) (snd kv) m"
proof -
  obtain u pw where kv: "kv = (u, pw)" by (cases kv)
  with assms have u: "ascii_word u" "u \<noteq> []" "hd u \<noteq> CHR ''#''"
    and pw: "pw = [] \<or> ascii_graph (hd pw) \<and> ascii_graph (last pw)" "CHR 0x09 \<notin> set pw"
    by (auto simp: line_auth_def)
  have "CHR 0x09 \<notin> set (u @ CHR '' '' # pw)" using u pw by (auto simp: ascii_word_no_tab)
  then have t: "tabs_to_blanks (u @ CHR '' '' # pw) = u @ CHR '' '' # pw"
    by (auto simp: tabs_to_blanks_def intro: map_idI)
  have h: "index_byte CHR ''#'' (u @ v) \<noteq> Some 0" for v
    using u by (cases u) (auto split: option.splits)
  have b: "index_byte CHR '' '' u = None" using u by (simp add: index_byte_None ascii_word_no_blank)
  show ?thesis
  proof (cases "pw = []")
    case True
    with u t h [of "[]"] b show ?thesis
      by (simp add: auth_parse_step_def auth_line_def kv trim_space_word_blank split_n2_def
          trim_space_ascii_word)
  next
    case False
    have "ascii_graph (hd (u @ CHR '' '' # pw))" using u by (cases u) (auto intro: ascii_word_graph)
    moreover have "ascii_graph (last (u @ CHR '' '' # pw))" using pw False by simp
    ultimately have "trim_space (u @ CHR '' '' # pw) = u @ CHR '' '' # pw"
      by (rule trim_space_ends)
    moreover have "split_n2 CHR '' '' (u @ CHR '' '' # pw) = [u, pw]"
      using u by (simp add: split_n2_def index_byte_append ascii_word_no_blank)
    ultimately show ?thesis
      using u t h pw False
      by (simp add: auth_parse_step_def auth_line_def kv trim_space_ends trim_space_ascii_word)
  qed
qed

lemma auth_parse_lines:
  assumes "\<forall>kv\<in>set kvs. line_auth kv"
  shows "auth_parseAuths (Some (join_lines (map auth_line kvs))) = (Some (auth_copy kvs []), False)"
proof -
  have "\<forall>l\<in>set (map auth_line kvs). clean_line l"
    using assms by (auto simp: line_auth_def auth_line_def)
  moreover have "fold auth_parse_step (map auth_line kvs) m = auth_copy kvs m" for m
    using assms
    by (induction kvs arbitrary: m) (auto simp: auth_copy_def auth_parse_step_line)
  ultimately show ?thesis by (simp add: auth_parseAuths_def scan_join_lines)
qed

text \<open>
  Parsing a file with one line for each user gives exactly the users' passwords, whatever bytes
  a password has between its first and last character (blanks and hash signs included).
\<close>

theorem auth_file_roundtrip:
  assumes "\<forall>kv\<in>set kvs. line_auth kv" and "distinct (map fst kvs)"
  shows "\<exists>m. auth_parseAuths (Some (join_lines (map auth_line kvs))) = (Some m, False) \<and>
    map_of m = map_of kvs"
  using auth_parse_lines [OF assms(1)] assms(2) by (simp add: auth_copy_lookup map_of_rev_distinct)

definition demo_auths :: auths where
  "demo_auths = [(''alice'', ''pass word #1''), (''bob'', [])]"

theorem auth_file_roundtrip_witness:
  "\<exists>m. auth_parseAuths (Some (join_lines (map auth_line demo_auths))) = (Some m, False) \<and>
    map_of m = map_of demo_auths"
proof (rule auth_file_roundtrip)
  show "\<forall>kv\<in>set demo_auths. line_auth kv" by code_simp
  show "distinct (map fst demo_auths)" by code_simp
qed

text \<open>A redis hash is read through this format, although the loader gives its map directly.\<close>

text \<open>
  With no other source, a redis hash whose only user name starts with a hash sign gives an empty
  table, which lets every user in with any password.
\<close>

theorem auth_redis_hash_open:
  assumes "uo_auths (au_options p) = []" and "uo_fileLoader (au_options p) = None"
    and "uo_httpLoader (au_options p) = None"
    and "uo_redisLoader (au_options p) = Some l"
    and "l t = RedisHashSource (Some [(CHR ''#'' # u, pw)])"
    and "clean_line (CHR ''#'' # u @ CHR '' '' # pw)"
  shows "\<exists>p'. auth_reload t p = Some p' \<and> auth_Authenticate (Some p') user password"
proof -
  have "redisHashLoader_Load (Some [(CHR ''#'' # u, pw)]) =
      Some (join_lines [CHR ''#'' # u @ CHR '' '' # pw])"
    by (simp add: redisHashLoader_Load_def redisHashLoader_Map_def join_lines_def)
  then have "auth_parseAuths (loader_Load (l t)) =
      (Some (auth_parse_step (CHR ''#'' # u @ CHR '' '' # pw) []), False)"
    using assms(5,6) by (simp add: auth_parseAuths_def scan_join_lines)
  moreover have "index_byte CHR ''#'' (trim_space (tabs_to_blanks (CHR ''#'' # u @ CHR '' '' # pw))) = Some 0"
  proof -
    have "ascii_graph CHR ''#''" by code_simp
    then obtain v where "trim_space (CHR ''#'' # tabs_to_blanks (u @ CHR '' '' # pw)) = CHR ''#'' # v"
      by (rule trim_space_first)
    then show ?thesis by (simp add: tabs_to_blanks_def)
  qed
  ultimately show ?thesis
    using assms(1-4)
    by (simp add: auth_reload_def auth_load_def auth_load_redis_def auth_write_def auth_parse_step_def
        auth_Authenticate_def)
qed

definition demo_redis_auth :: authenticator where
  "demo_redis_auth =
     \<lparr>au_kvs = [], au_options = auth_apply [auth_RedisLoaderOption
        (Some (\<lambda>t. RedisHashSource (Some [(''#admin'', ''secret'')])))]\<rparr>"

theorem auth_redis_hash_open_witness:
  "\<exists>p'. auth_reload 0 demo_redis_auth = Some p' \<and> auth_Authenticate (Some p') ''eve'' ''x''"
  by (rule auth_redis_hash_open [of _ "\<lambda>t. RedisHashSource (Some [(''#admin'', ''secret'')])" _ "''admin''" "''secret''"])
    (simp_all add: demo_redis_auth_def auth_apply_def auth_no_options_def auth_RedisLoaderOption_def
      clean_line_def max_token_size_def)

end
