(* ===== verification/ConnLimiter.thy ===== *)
theory ConnLimiter
  imports Cidr Reload "HOL-Library.Multiset"
begin

text \<open>
  The connection limiter of \<open>limiter/conn\<close> and its listener wrapper: counters with a limit,
  groups of counters that grant all or nothing, the choice of the counters for a client
  address, and the accept and close operations of the wrapper.

  Limiters are shared objects, so they live in a store: a list of counters, a limiter being
  its position.  Go's \<open>int\<close> and \<open>int64\<close> have 64 bits.
\<close>

section \<open>Counters\<close>

record llimiter =
  ll_limit :: int
  ll_current :: int

type_synonym ll_store = "llimiter list"

definition conn_NewLimiter :: "int \<Rightarrow> ll_store \<Rightarrow> nat \<times> ll_store" where
  "conn_NewLimiter n h = (length h, h @ [\<lparr>ll_limit = n, ll_current = 0\<rparr>])"

text \<open>\<open>atomic.AddInt64\<close>: the new value, stored and returned.\<close>

definition ll_add :: "nat \<Rightarrow> int \<Rightarrow> ll_store \<Rightarrow> ll_store" where
  "ll_add a n h = h[a := (h ! a)\<lparr>ll_current := wrap64 (ll_current (h ! a) + n)\<rparr>]"

definition llimiter_Allow :: "nat \<Rightarrow> int \<Rightarrow> ll_store \<Rightarrow> bool \<times> ll_store" where
  "llimiter_Allow a n h =
     (let h1 = ll_add a n h
      in if ll_current (h1 ! a) > ll_limit (h1 ! a)
         then (False, if n > 0 then ll_add a (wrap64 (- n)) h1 else h1)
         else (True, h1))"

section \<open>Groups\<close>

definition conn_newLimiterGroup :: "ll_store \<Rightarrow> nat list \<Rightarrow> nat list" where
  "conn_newLimiterGroup h lims = sort_key (\<lambda>a. ll_limit (h ! a)) lims"

text \<open>
  The loop of \<open>limiterGroup.Allow\<close>: whether all granted, the limiters granted before the
  first that did not, and the store.
\<close>

fun conn_group_loop :: "nat list \<Rightarrow> int \<Rightarrow> nat list \<Rightarrow> ll_store \<Rightarrow> bool \<times> nat list \<times> ll_store" where
  "conn_group_loop [] n before h = (True, before, h)"
| "conn_group_loop (a # as) n before h =
     (case llimiter_Allow a n h of
        (True, h') \<Rightarrow> conn_group_loop as n (before @ [a]) h'
      | (False, h') \<Rightarrow> (False, before, h'))"

definition limiterGroup_Allow :: "nat list \<Rightarrow> int \<Rightarrow> ll_store \<Rightarrow> bool \<times> ll_store" where
  "limiterGroup_Allow lims n h =
     (if lims = [] then (False, h)
      else case conn_group_loop lims n [] h of
        (b, before, h1) \<Rightarrow>
          if \<not> b \<and> before \<noteq> [] \<and> n > 0
          then (b, fold (\<lambda>a h. snd (llimiter_Allow a (wrap64 (- n)) h)) before h1)
          else (b, h1))"

definition limiterGroup_Limit :: "nat list \<Rightarrow> ll_store \<Rightarrow> int" where
  "limiterGroup_Limit lims h = (if lims = [] then 0 else ll_limit (h ! hd lims))"

section \<open>Generators\<close>

datatype conn_generator =
    ConnLimitGenerator int
  | ConnLimitSingleGenerator "nat option"

definition NewConnLimitSingleGenerator :: "int \<Rightarrow> ll_store \<Rightarrow> conn_generator \<times> ll_store" where
  "NewConnLimitSingleGenerator n h =
     (if n > 0 then (case conn_NewLimiter n h of (a, h') \<Rightarrow> (ConnLimitSingleGenerator (Some a), h'))
      else (ConnLimitSingleGenerator None, h))"

fun conn_generator_Limiter :: "conn_generator \<Rightarrow> ll_store \<Rightarrow> nat option \<times> ll_store" where
  "conn_generator_Limiter (ConnLimitGenerator n) h =
     (if n \<le> 0 then (None, h) else (case conn_NewLimiter n h of (a, h') \<Rightarrow> (Some a, h')))"
| "conn_generator_Limiter (ConnLimitSingleGenerator a) h = (a, h)"

section \<open>Options, state and loading\<close>

record conn_options =
  co_limits :: "string list"
  co_fileLoader :: "loader option"
  co_redisLoader :: "loader option"
  co_httpLoader :: "loader option"
  co_period :: int

definition conn_no_options :: conn_options where
  "conn_no_options =
     \<lparr>co_limits = [], co_fileLoader = None, co_redisLoader = None, co_httpLoader = None, co_period = 0\<rparr>"

definition conn_LimitsOption :: "string list \<Rightarrow> conn_options \<Rightarrow> conn_options" where
  "conn_LimitsOption ls opts = opts\<lparr>co_limits := ls\<rparr>"

definition conn_ReloadPeriodOption :: "int \<Rightarrow> conn_options \<Rightarrow> conn_options" where
  "conn_ReloadPeriodOption p opts = opts\<lparr>co_period := p\<rparr>"

definition conn_FileLoaderOption :: "loader option \<Rightarrow> conn_options \<Rightarrow> conn_options" where
  "conn_FileLoaderOption l opts = opts\<lparr>co_fileLoader := l\<rparr>"

definition conn_RedisLoaderOption :: "loader option \<Rightarrow> conn_options \<Rightarrow> conn_options" where
  "conn_RedisLoaderOption l opts = opts\<lparr>co_redisLoader := l\<rparr>"

definition conn_HTTPLoaderOption :: "loader option \<Rightarrow> conn_options \<Rightarrow> conn_options" where
  "conn_HTTPLoaderOption l opts = opts\<lparr>co_httpLoader := l\<rparr>"

text \<open>\<open>cl_limits\<close> caches the limiter of a key, a group or nil.\<close>

record 'r connLimiter =
  cl_ipLimits :: "string \<rightharpoonup> conn_generator"
  cl_cidrLimits :: 'r
  cl_limits :: "string \<rightharpoonup> nat list option"
  cl_options :: conn_options

definition conn_parseLine :: "string \<Rightarrow> string" where
  "conn_parseLine s = trim_space (cut_comment s)"

definition conn_parsePatterns :: "string option \<Rightarrow> string list \<times> bool" where
  "conn_parsePatterns r = scan_patterns conn_parseLine r"

definition conn_load :: "nat \<Rightarrow> conn_options \<Rightarrow> string list" where
  "conn_load t opts =
     (case co_fileLoader opts of
        None \<Rightarrow> []
      | Some l \<Rightarrow>
          (case as_Lister (l t) of
             Some (list, er) \<Rightarrow> parse_all conn_parseLine list
           | None \<Rightarrow> fst (conn_parsePatterns (loader_Load (l t))))) @
     (case co_redisLoader opts of
        None \<Rightarrow> []
      | Some l \<Rightarrow>
          (case as_Lister (l t) of
             Some (list, er) \<Rightarrow> list
           | None \<Rightarrow> fst (conn_parsePatterns (loader_Load (l t))))) @
     (case co_httpLoader opts of
        None \<Rightarrow> []
      | Some l \<Rightarrow> fst (conn_parsePatterns (loader_Load (l t))))"

definition conn_parseLimit :: "string \<Rightarrow> string \<times> int" where
  "conn_parseLimit s =
     (let s = trim_space (tabs_to_blanks s);
          ss = filter (\<lambda>v. v \<noteq> []) (split_byte CHR '' '' s)
      in if length ss < 2 then ([], 0) else (ss ! 0, atoi (ss ! 1)))"

section \<open>Reload\<close>

abbreviation GlobalLimitKey :: string where
  "GlobalLimitKey \<equiv> ''$''"

abbreviation IPLimitKey :: string where
  "IPLimitKey \<equiv> ''$$''"

text \<open>The body of the loop of \<open>reload\<close> over the lines.\<close>

definition conn_reload_step ::
    "('r, conn_generator) ranger_ops \<Rightarrow> string \<Rightarrow> (string \<rightharpoonup> conn_generator) \<times> 'r \<times> ll_store \<Rightarrow>
     (string \<rightharpoonup> conn_generator) \<times> 'r \<times> ll_store"
where
  "conn_reload_step R s acc =
     (case acc of (ipLimits, cidrLimits, h) \<Rightarrow>
       case conn_parseLimit s of (key, limit) \<Rightarrow>
         if key = [] \<or> limit \<le> 0 then (ipLimits, cidrLimits, h)
         else if key = GlobalLimitKey then
           (case NewConnLimitSingleGenerator limit h of (g, h') \<Rightarrow> (ipLimits(key \<mapsto> g), cidrLimits, h'))
         else if key = IPLimitKey then (ipLimits(key \<mapsto> ConnLimitGenerator limit), cidrLimits, h)
         else if parse_ip key \<noteq> None then
           (case NewConnLimitSingleGenerator limit h of (g, h') \<Rightarrow> (ipLimits(key \<mapsto> g), cidrLimits, h'))
         else (case parse_cidr key of
                 None \<Rightarrow> (ipLimits, cidrLimits, h)
               | Some ipNet \<Rightarrow> (ipLimits, rg_insert R ipNet (ConnLimitGenerator limit) cidrLimits, h)))"

definition conn_reload ::
    "('r, conn_generator) ranger_ops \<Rightarrow> nat \<Rightarrow> 'r connLimiter \<times> ll_store \<Rightarrow> 'r connLimiter \<times> ll_store"
where
  "conn_reload R t st =
     (case st of (l, h) \<Rightarrow>
       let v = conn_load t (cl_options l);
           lines = co_limits (cl_options l) @ v
       in case fold (conn_reload_step R) lines (Map.empty, rg_new R, h) of
            (ipLimits, cidrLimits, h') \<Rightarrow>
              (l\<lparr>cl_ipLimits := ipLimits, cl_cidrLimits := cidrLimits, cl_limits := Map.empty\<rparr>, h'))"

definition conn_periodReload ::
    "('r, conn_generator) ranger_ops \<Rightarrow> nat \<Rightarrow> event list \<Rightarrow> 'r connLimiter \<times> ll_store \<Rightarrow>
     int \<times> ('r connLimiter \<times> ll_store) option"
where
  "conn_periodReload R t es st =
     (ticker_period (co_period (cl_options (fst st))),
      period_loop (\<lambda>t st. Some (conn_reload R t st)) t es st)"

definition conn_apply :: "(conn_options \<Rightarrow> conn_options) list \<Rightarrow> conn_options" where
  "conn_apply opts = foldl (\<lambda>acc opt. opt acc) conn_no_options opts"

definition NewConnLimiter ::
    "('r, conn_generator) ranger_ops \<Rightarrow> (conn_options \<Rightarrow> conn_options) list \<Rightarrow> ll_store \<Rightarrow>
     ('r connLimiter \<times> ll_store) \<times> bool"
where
  "NewConnLimiter R opts h =
     (let options = conn_apply opts;
          lim = \<lparr>cl_ipLimits = Map.empty, cl_cidrLimits = rg_new R, cl_limits = Map.empty,
                 cl_options = options\<rparr>
      in (conn_reload R 0 (lim, h), co_period options > 0))"

section \<open>The limiter of a key\<close>

text \<open>\<open>if p != nil { if lim := p.Limiter(); lim != nil { lims = append(lims, lim) } }\<close>.\<close>

definition conn_add :: "conn_generator option \<Rightarrow> nat list \<times> ll_store \<Rightarrow> nat list \<times> ll_store" where
  "conn_add p acc =
     (case p of
        None \<Rightarrow> acc
      | Some g \<Rightarrow>
          (case conn_generator_Limiter g (snd acc) of
             (Some a, h') \<Rightarrow> (fst acc @ [a], h')
           | (None, h') \<Rightarrow> (fst acc, h')))"

text \<open>The limiter of the address itself: by its text, by its network, or the one for each address.\<close>

definition conn_own_lims ::
    "('r, conn_generator) ranger_ops \<Rightarrow> string \<Rightarrow> 'r connLimiter \<Rightarrow> ll_store \<Rightarrow> nat list \<times> ll_store"
where
  "conn_own_lims R key l h =
     (let acc = (case parse_ip key of
                   None \<Rightarrow> ([], h)
                 | Some ip \<Rightarrow>
                     let acc = conn_add (cl_ipLimits l key) ([], h)
                     in if fst acc \<noteq> [] then acc
                        else case rg_containing R (cl_cidrLimits l) ip of
                          [] \<Rightarrow> acc
                        | g # _ \<Rightarrow> conn_add (Some g) acc)
      in if fst acc = [] then conn_add (cl_ipLimits l IPLimitKey) acc else acc)"

definition connLimiter_Limiter ::
    "('r, conn_generator) ranger_ops \<Rightarrow> string \<Rightarrow> 'r connLimiter \<times> ll_store \<Rightarrow>
     nat list option \<times> ('r connLimiter \<times> ll_store)"
where
  "connLimiter_Limiter R key st =
     (case st of (l, h) \<Rightarrow>
       case cl_limits l key of
         Some lim \<Rightarrow> (lim, (l, h))
       | None \<Rightarrow>
           let (lims, h') = conn_add (cl_ipLimits l GlobalLimitKey) (conn_own_lims R key l h);
               lim = (if lims \<noteq> [] then Some (conn_newLimiterGroup h' lims) else None)
           in (lim, (l\<lparr>cl_limits := (cl_limits l)(key \<mapsto> lim)\<rparr>, h')))"

section \<open>The wrapper\<close>

text \<open>
  The connection \<open>Accept\<close> returns: unlimited, counted in its group, or refused (closed, and
  returned without a wrapper).
\<close>

datatype conn_kind = Plain | Counted "nat list" | Refused

definition conn_listener_Accept ::
    "('r, conn_generator) ranger_ops \<Rightarrow> string \<Rightarrow> 'r connLimiter \<times> ll_store \<Rightarrow>
     conn_kind \<times> ('r connLimiter \<times> ll_store)"
where
  "conn_listener_Accept R addr st =
     (let host = host_of addr
      in case connLimiter_Limiter R host st of
           (None, st') \<Rightarrow> (Plain, st')
         | (Some lim, (l, h)) \<Rightarrow>
             (case limiterGroup_Allow lim 1 h of
                (True, h') \<Rightarrow> (Counted lim, (l, h'))
              | (False, h') \<Rightarrow> (Refused, (l, h'))))"

definition conn_serverConn_Close :: "nat list \<Rightarrow> ll_store \<Rightarrow> ll_store" where
  "conn_serverConn_Close lim h = snd (limiterGroup_Allow lim (-1) h)"

section \<open>Counters as numbers\<close>

text \<open>The store with \<open>n\<close> added to the counters of a set.\<close>

definition ll_bump :: "nat set \<Rightarrow> int \<Rightarrow> ll_store \<Rightarrow> ll_store" where
  "ll_bump S n h =
     map (\<lambda>(i, l). if i \<in> S then l\<lparr>ll_current := ll_current l + n\<rparr> else l) (enumerate 0 h)"

lemma ll_bump_length [simp]: "length (ll_bump S n h) = length h"
  by (simp add: ll_bump_def)

lemma ll_bump_nth:
  "a < length h \<Longrightarrow>
   ll_bump S n h ! a = (if a \<in> S then (h ! a)\<lparr>ll_current := ll_current (h ! a) + n\<rparr> else h ! a)"
  by (simp add: ll_bump_def nth_enumerate_eq)

lemma ll_bump_limit [limit_simps]: "a < length h \<Longrightarrow> ll_limit (ll_bump S n h ! a) = ll_limit (h ! a)"
  by (simp add: ll_bump_nth)

lemma ll_bump_current [limit_simps]:
  "a < length h \<Longrightarrow>
   ll_current (ll_bump S n h ! a) = ll_current (h ! a) + (if a \<in> S then n else 0)"
  by (simp add: ll_bump_nth)

lemma ll_bump_empty [limit_simps]: "ll_bump {} n h = h"
  by (rule nth_equalityI) (simp_all add: ll_bump_nth)

lemma ll_bump_disjoint: "S \<inter> T = {} \<Longrightarrow> ll_bump S n (ll_bump T n h) = ll_bump (S \<union> T) n h"
  by (rule nth_equalityI) (auto simp: ll_bump_nth)

lemma ll_bump_undo [limit_simps]: "ll_bump S (- n) (ll_bump S n h) = h"
  by (rule nth_equalityI) (auto simp: ll_bump_nth)

lemma ll_bump_partial_undo:
  "S \<inter> T = {} \<Longrightarrow> ll_bump S (- n) (ll_bump (S \<union> T) n h) = ll_bump T n h"
  by (rule nth_equalityI) (auto simp: ll_bump_nth)

text \<open>
  Counters that are far from overflow: no program holds \<open>2\<^sup>6\<^sup>2\<close> connections.
\<close>

definition ll_small :: "nat list \<Rightarrow> ll_store \<Rightarrow> bool" where
  "ll_small g h \<longleftrightarrow> (\<forall>a\<in>set g. 0 \<le> ll_current (h ! a) \<and> ll_current (h ! a) < 2 ^ 62)"

lemma ll_small_nth:
  "ll_small g h \<Longrightarrow> a \<in> set g \<Longrightarrow> 0 \<le> ll_current (h ! a) \<and> ll_current (h ! a) < 2 ^ 62"
  by (simp add: ll_small_def)

lemma ll_add_bump:
  "a < length h \<Longrightarrow> - (2 ^ 62) \<le> ll_current (h ! a) \<Longrightarrow> ll_current (h ! a) \<le> 2 ^ 62 \<Longrightarrow>
   n \<in> {-1, 1} \<Longrightarrow> ll_add a n h = ll_bump {a} n h"
  by (rule nth_equalityI) (auto simp: ll_add_def ll_bump_nth nth_list_update wrap64_id)

lemma llimiter_Allow_acquire:
  assumes "a < length h" and "0 \<le> ll_current (h ! a)" and "ll_current (h ! a) < 2 ^ 62"
  shows "llimiter_Allow a 1 h =
    (if ll_current (h ! a) < ll_limit (h ! a) then (True, ll_bump {a} 1 h) else (False, h))"
proof -
  have "ll_add a 1 h = ll_bump {a} 1 h" using assms by (intro ll_add_bump) auto
  moreover have "ll_add a (- 1) (ll_bump {a} 1 h) = ll_bump {a} (- 1) (ll_bump {a} 1 h)"
    using assms by (intro ll_add_bump) (auto simp: limit_simps)
  ultimately show ?thesis
    using assms by (simp add: llimiter_Allow_def limit_simps wrap64_def)
qed

lemma llimiter_Allow_release:
  assumes "a < length h" and "0 \<le> ll_current (h ! a)" and "ll_current (h ! a) \<le> 2 ^ 62"
    and "ll_current (h ! a) \<le> ll_limit (h ! a) + 1"
  shows "llimiter_Allow a (-1) h = (True, ll_bump {a} (-1) h)"
proof -
  have "ll_add a (-1) h = ll_bump {a} (-1) h" using assms by (intro ll_add_bump) auto
  then show ?thesis using assms by (simp add: llimiter_Allow_def limit_simps)
qed

section \<open>Groups grant all or nothing\<close>

definition ll_free :: "ll_store \<Rightarrow> nat \<Rightarrow> bool" where
  "ll_free h a \<longleftrightarrow> ll_current (h ! a) < ll_limit (h ! a)"

lemma conn_group_loop_acquire:
  "distinct as \<Longrightarrow> set as \<inter> S = {} \<Longrightarrow> set as \<subseteq> {..<length h} \<Longrightarrow> ll_small as h \<Longrightarrow>
   conn_group_loop as 1 before (ll_bump S 1 h) =
     (\<forall>a\<in>set as. ll_free h a,
      before @ takeWhile (ll_free h) as,
      ll_bump (S \<union> set (takeWhile (ll_free h) as)) 1 h)"
proof (induction "as" arbitrary: before S)
  case Nil
  then show ?case by simp
next
  case (Cons a as)
  then have a: "a < length h" "a \<notin> S" "0 \<le> ll_current (h ! a)" "ll_current (h ! a) < 2 ^ 62"
    using ll_small_nth [of "a # as" h a] by auto
  then have allow: "llimiter_Allow a 1 (ll_bump S 1 h) =
      (if ll_free h a then (True, ll_bump (insert a S) 1 h) else (False, ll_bump S 1 h))"
    by (subst llimiter_Allow_acquire) (auto simp: limit_simps ll_free_def ll_bump_disjoint)
  show ?case
  proof (cases "ll_free h a")
    case True
    have "set as \<inter> insert a S = {}" "ll_small as h" using Cons.prems by (auto simp: ll_small_def)
    with Cons.IH [of "insert a S" "before @ [a]"] Cons.prems True show ?thesis
      by (simp add: allow)
  next
    case False
    with Cons.prems show ?thesis by (simp add: allow)
  qed
qed

lemma fold_release:
  "distinct as \<Longrightarrow> set as \<subseteq> {..<length h} \<Longrightarrow>
   \<forall>a\<in>set as. 0 \<le> ll_current (h ! a) \<and> ll_current (h ! a) \<le> 2 ^ 62 \<and>
     ll_current (h ! a) \<le> ll_limit (h ! a) + 1 \<Longrightarrow>
   fold (\<lambda>a h. snd (llimiter_Allow a (-1) h)) as h = ll_bump (set as) (-1) h"
proof (induction "as" arbitrary: h)
  case Nil
  then show ?case by (simp add: limit_simps)
next
  case (Cons a as)
  then have "llimiter_Allow a (-1) h = (True, ll_bump {a} (-1) h)"
    by (intro llimiter_Allow_release) auto
  moreover have "fold (\<lambda>a h. snd (llimiter_Allow a (-1) h)) as (ll_bump {a} (-1) h) =
      ll_bump (set as) (-1) (ll_bump {a} (-1) h)"
  proof (rule Cons.IH)
    show "\<forall>b\<in>set as. 0 \<le> ll_current (ll_bump {a} (-1) h ! b) \<and>
        ll_current (ll_bump {a} (-1) h ! b) \<le> 2 ^ 62 \<and>
        ll_current (ll_bump {a} (-1) h ! b) \<le> ll_limit (ll_bump {a} (-1) h ! b) + 1"
    proof
      fix b
      assume "b \<in> set as"
      with Cons.prems have "b < length h" "b \<noteq> a" by auto
      with Cons.prems \<open>b \<in> set as\<close> show "0 \<le> ll_current (ll_bump {a} (-1) h ! b) \<and>
        ll_current (ll_bump {a} (-1) h ! b) \<le> 2 ^ 62 \<and>
        ll_current (ll_bump {a} (-1) h ! b) \<le> ll_limit (ll_bump {a} (-1) h ! b) + 1"
        by (simp add: limit_simps)
    qed
  qed (use Cons.prems in auto)
  ultimately show ?case using Cons.prems by (simp add: ll_bump_disjoint)
qed

lemma takeWhile_all: "(\<forall>x\<in>set xs. P x) \<Longrightarrow> takeWhile P xs = xs"
  by (simp add: takeWhile_eq_self_iff)

lemma limiterGroup_Allow_all:
  assumes "g \<noteq> []" and "distinct g" and "set g \<subseteq> {..<length h}" and "ll_small g h"
  shows "limiterGroup_Allow g 1 h =
    (if \<forall>a\<in>set g. ll_current (h ! a) < ll_limit (h ! a) then (True, ll_bump (set g) 1 h) else (False, h))"
proof (cases "\<forall>a\<in>set g. ll_free h a")
  case True
  then have tw: "takeWhile (ll_free h) g = g" by (rule takeWhile_all)
  have "conn_group_loop g 1 [] h = (True, g, ll_bump (set g) 1 h)"
    using conn_group_loop_acquire [of g "{}" h "[]"] assms True by (simp add: limit_simps tw)
  with assms True show ?thesis by (simp add: limiterGroup_Allow_def ll_free_def)
next
  case False
  let ?p = "takeWhile (ll_free h) g"
  have loop: "conn_group_loop g 1 [] h = (False, ?p, ll_bump (set ?p) 1 h)"
    using conn_group_loop_acquire [of g "{}" h "[]"] assms False by (simp add: limit_simps)
  have p: "distinct ?p" "set ?p \<subseteq> {..<length h}"
    using assms by (auto dest: set_takeWhileD)
  have "fold (\<lambda>a h. snd (llimiter_Allow a (- 1) h)) ?p (ll_bump (set ?p) 1 h) =
      ll_bump (set ?p) (- 1) (ll_bump (set ?p) 1 h)"
  proof (rule fold_release [OF p(1)])
    show "\<forall>a\<in>set ?p. 0 \<le> ll_current (ll_bump (set ?p) 1 h ! a) \<and>
        ll_current (ll_bump (set ?p) 1 h ! a) \<le> 2 ^ 62 \<and>
        ll_current (ll_bump (set ?p) 1 h ! a) \<le> ll_limit (ll_bump (set ?p) 1 h ! a) + 1"
    proof
      fix a
      assume a: "a \<in> set ?p"
      then have "ll_free h a" "a < length h" using p(2) by (auto dest: set_takeWhileD)
      moreover have "a \<in> set g" using a by (auto dest: set_takeWhileD)
      ultimately show
        "0 \<le> ll_current (ll_bump (set ?p) 1 h ! a) \<and>
         ll_current (ll_bump (set ?p) 1 h ! a) \<le> 2 ^ 62 \<and>
         ll_current (ll_bump (set ?p) 1 h ! a) \<le> ll_limit (ll_bump (set ?p) 1 h ! a) + 1"
        using ll_small_nth [OF assms(4), of a] by (simp add: limit_simps ll_free_def)
    qed
  qed (use p in simp)
  then show ?thesis
    using assms False loop by (auto simp: limiterGroup_Allow_def ll_free_def limit_simps wrap64_def)
qed

text \<open>
  A group of different limiters grants one connection exactly when every limiter of it is below
  its limit; it then counts the connection in each, and otherwise leaves all as they were.
\<close>

theorem limiterGroup_Allow_atomic:
  assumes "g \<noteq> []" and "distinct g" and "set g \<subseteq> {..<length h}" and "ll_small g h"
  shows "limiterGroup_Allow g 1 h =
    (if \<forall>a\<in>set g. ll_current (h ! a) < ll_limit (h ! a) then (True, ll_bump (set g) 1 h) else (False, h))"
  using assms by (rule limiterGroup_Allow_all)

definition demo_store :: ll_store where
  "demo_store = [\<lparr>ll_limit = 2, ll_current = 1\<rparr>, \<lparr>ll_limit = 5, ll_current = 5\<rparr>]"

theorem limiterGroup_Allow_atomic_witness:
  "limiterGroup_Allow [0, 1] 1 demo_store = (False, demo_store)"
  using limiterGroup_Allow_atomic [of "[0, 1]" demo_store] by (simp add: demo_store_def ll_small_def)

text \<open>Giving back is exact when no limiter of the group is above its limit.\<close>

lemma conn_group_loop_release:
  "distinct as \<Longrightarrow> set as \<inter> S = {} \<Longrightarrow> set as \<subseteq> {..<length h} \<Longrightarrow>
   \<forall>a\<in>set as. 0 \<le> ll_current (h ! a) \<and> ll_current (h ! a) \<le> 2 ^ 62 \<and>
     ll_current (h ! a) \<le> ll_limit (h ! a) + 1 \<Longrightarrow>
   conn_group_loop as (-1) before (ll_bump S (-1) h) = (True, before @ as, ll_bump (S \<union> set as) (-1) h)"
proof (induction "as" arbitrary: before S)
  case Nil
  then show ?case by simp
next
  case (Cons a as)
  then have "llimiter_Allow a (-1) (ll_bump S (-1) h) = (True, ll_bump (insert a S) (-1) h)"
    by (subst llimiter_Allow_release) (auto simp: limit_simps ll_bump_disjoint)
  moreover have "set as \<inter> insert a S = {}" using Cons.prems by auto
  ultimately show ?case using Cons.IH [of "insert a S" "before @ [a]"] Cons.prems by simp
qed

lemma limiterGroup_release:
  assumes "g \<noteq> []" and "distinct g" and "set g \<subseteq> {..<length h}"
    and "\<forall>a\<in>set g. 0 \<le> ll_current (h ! a) \<and> ll_current (h ! a) \<le> 2 ^ 62 \<and>
      ll_current (h ! a) \<le> ll_limit (h ! a) + 1"
  shows "limiterGroup_Allow g (-1) h = (True, ll_bump (set g) (-1) h)"
  using conn_group_loop_release [of g "{}" h "[]"] assms
  by (simp add: limiterGroup_Allow_def limit_simps)

section \<open>The rules a reload installs\<close>

text \<open>The store only grows, by counters at zero with a positive limit.\<close>

definition ll_extends :: "ll_store \<Rightarrow> ll_store \<Rightarrow> bool" where
  "ll_extends h h' \<longleftrightarrow> (\<exists>xs. h' = h @ xs \<and> (\<forall>x\<in>set xs. ll_current x = 0 \<and> 0 < ll_limit x))"

lemma ll_extends_refl [inv_intros]: "ll_extends h h"
  by (simp add: ll_extends_def)

lemma ll_extends_trans: "ll_extends h1 h2 \<Longrightarrow> ll_extends h2 h3 \<Longrightarrow> ll_extends h1 h3"
  unfolding ll_extends_def by (metis UnE append.assoc set_append)

lemma ll_extends_new [inv_intros]: "0 < n \<Longrightarrow> ll_extends h (h @ [\<lparr>ll_limit = n, ll_current = 0\<rparr>])"
  by (simp add: ll_extends_def)

lemma ll_extends_nth: "ll_extends h h' \<Longrightarrow> a < length h \<Longrightarrow> h' ! a = h ! a"
  by (auto simp: ll_extends_def nth_append)

lemma ll_extends_length: "ll_extends h h' \<Longrightarrow> length h \<le> length h'"
  by (auto simp: ll_extends_def)

text \<open>The complete rules of a list of lines, and what they say of a key.\<close>

definition conn_line_rules :: "string list \<Rightarrow> (string \<times> int) list" where
  "conn_line_rules ls = filter (\<lambda>(k, n). k \<noteq> [] \<and> 0 < n) (map conn_parseLimit ls)"

definition conn_rule :: "(string \<times> int) list \<Rightarrow> string \<Rightarrow> int option" where
  "conn_rule rs k = map_of (rev rs) k"

definition conn_net_rules :: "(string \<times> int) list \<Rightarrow> (ipnet \<times> conn_generator) list" where
  "conn_net_rules rs =
     concat (map (\<lambda>(k, n).
       if k = GlobalLimitKey \<or> k = IPLimitKey \<or> parse_ip k \<noteq> None then []
       else (case parse_cidr k of None \<Rightarrow> [] | Some net \<Rightarrow> [(net, ConnLimitGenerator n)])) rs)"

lemma conn_rule_snoc: "conn_rule (rs @ [(k, n)]) j = (if j = k then Some n else conn_rule rs j)"
  by (simp add: conn_rule_def)

text \<open>A key whose rule is one shared counter.\<close>

definition shared_key :: "string \<Rightarrow> bool" where
  "shared_key k \<longleftrightarrow> k = GlobalLimitKey \<or> (k \<noteq> IPLimitKey \<and> parse_ip k \<noteq> None)"

definition conn_built ::
    "('r, conn_generator) ranger_ops \<Rightarrow> (string \<times> int) list \<Rightarrow>
     (string \<rightharpoonup> conn_generator) \<Rightarrow> 'r \<Rightarrow> ll_store \<Rightarrow> bool"
where
  "conn_built R rs ipL cidr h \<longleftrightarrow>
     (\<forall>k. shared_key k \<longrightarrow>
        (case conn_rule rs k of
           None \<Rightarrow> ipL k = None
         | Some n \<Rightarrow> \<exists>a<length h. ipL k = Some (ConnLimitSingleGenerator (Some a)) \<and> ll_limit (h ! a) = n)) \<and>
     (\<forall>j k a. ipL j = Some (ConnLimitSingleGenerator (Some a)) \<longrightarrow>
        ipL k = Some (ConnLimitSingleGenerator (Some a)) \<longrightarrow> j = k) \<and>
     (\<forall>k a. ipL k = Some (ConnLimitSingleGenerator (Some a)) \<longrightarrow> shared_key k) \<and>
     ipL IPLimitKey = map_option ConnLimitGenerator (conn_rule rs IPLimitKey) \<and>
     cidr = rg_build R (conn_net_rules rs) \<and>
     (\<forall>r\<in>set rs. 0 < snd r)"

lemma conn_built_empty: "conn_built R [] Map.empty (rg_new R) h"
  by (simp add: conn_built_def conn_rule_def conn_net_rules_def)

lemma conn_built_grows:
  "conn_built R rs ipL cidr h \<Longrightarrow> length h \<le> length h' \<Longrightarrow>
   (\<And>a. a < length h \<Longrightarrow> ll_limit (h' ! a) = ll_limit (h ! a)) \<Longrightarrow> conn_built R rs ipL cidr h'"
  unfolding conn_built_def by (fastforce split: option.splits)

lemma conn_built_range:
  assumes "conn_built R rs ipL cidr h" and "ipL k = Some (ConnLimitSingleGenerator (Some a))"
  shows "a < length h"
proof -
  have "shared_key k" using assms by (auto simp: conn_built_def)
  with assms show ?thesis unfolding conn_built_def by (fastforce split: option.splits)
qed

lemma conn_built_shared:
  assumes b: "conn_built R rs ipL cidr h" and k: "shared_key k" and n: "0 < n"
  shows "conn_built R (rs @ [(k, n)]) (ipL(k \<mapsto> ConnLimitSingleGenerator (Some (length h)))) cidr
    (h @ [\<lparr>ll_limit = n, ll_current = 0\<rparr>])"
proof -
  let ?h = "h @ [\<lparr>ll_limit = n, ll_current = 0\<rparr>]"
  have b': "conn_built R rs ipL cidr ?h"
    by (rule conn_built_grows [OF b]) (auto simp: nth_append)
  have fresh: "ipL j \<noteq> Some (ConnLimitSingleGenerator (Some (length h)))" for j
    using conn_built_range [OF b, of j "length h"] by blast
  have ip: "k \<noteq> IPLimitKey" using k by (auto simp: shared_key_def)
  have net: "conn_net_rules (rs @ [(k, n)]) = conn_net_rules rs"
    using k by (auto simp: conn_net_rules_def shared_key_def)
  show ?thesis
    using b' fresh ip k n unfolding conn_built_def net conn_rule_snoc
    by (auto split: option.splits) blast
qed

lemma conn_built_perip:
  assumes "conn_built R rs ipL cidr h" and "0 < n"
  shows "conn_built R (rs @ [(IPLimitKey, n)]) (ipL(IPLimitKey \<mapsto> ConnLimitGenerator n)) cidr h"
proof -
  have "conn_net_rules (rs @ [(IPLimitKey, n)]) = conn_net_rules rs" by (simp add: conn_net_rules_def)
  moreover have "\<not> shared_key IPLimitKey" by (simp add: shared_key_def)
  ultimately show ?thesis
    using assms unfolding conn_built_def conn_rule_snoc by (auto split: option.splits)
qed

lemma conn_built_other:
  assumes "conn_built R rs ipL cidr h" and "0 < n" and "\<not> shared_key k" and "k \<noteq> IPLimitKey"
  shows "conn_built R (rs @ [(k, n)]) ipL
    (case parse_cidr k of None \<Rightarrow> cidr | Some net \<Rightarrow> rg_insert R net (ConnLimitGenerator n) cidr) h"
  using assms unfolding conn_built_def conn_rule_snoc
  by (auto simp: conn_net_rules_def shared_key_def rg_build_snoc split: option.splits)

lemma conn_reload_step_built:
  assumes "conn_built R rs ipL cidr h" and "conn_reload_step R s (ipL, cidr, h) = (ipL', cidr', h')"
  shows "conn_built R (rs @ conn_line_rules [s]) ipL' cidr' h' \<and> ll_extends h h'"
proof -
  obtain k n where p: "conn_parseLimit s = (k, n)" by fastforce
  note d = conn_reload_step_def p conn_line_rules_def NewConnLimitSingleGenerator_def conn_NewLimiter_def
  consider "k = [] \<or> n \<le> 0" | "k \<noteq> []" "0 < n" "shared_key k" | "0 < n" "k = IPLimitKey"
    | "k \<noteq> []" "0 < n" "\<not> shared_key k" "k \<noteq> IPLimitKey" by fastforce
  then show ?thesis
  proof cases
    case 1
    with assms show ?thesis by (auto simp: d inv_intros)
  next
    case 2
    with assms(2) have "ipL' = ipL(k \<mapsto> ConnLimitSingleGenerator (Some (length h)))" "cidr' = cidr"
      "h' = h @ [\<lparr>ll_limit = n, ll_current = 0\<rparr>]"
      by (auto simp: d shared_key_def split: if_splits)
    with 2 show ?thesis
      using conn_built_shared [OF assms(1) 2(3,2)] by (simp add: d inv_intros)
  next
    case 3
    with assms(2) have "ipL' = ipL(k \<mapsto> ConnLimitGenerator n)" "cidr' = cidr" "h' = h"
      by (auto simp: d)
    with 3 show ?thesis
      using conn_built_perip [OF assms(1) 3(1)] by (simp add: d inv_intros)
  next
    case 4
    with assms(2) have "ipL' = ipL" "h' = h"
      "cidr' = (case parse_cidr k of None \<Rightarrow> cidr | Some net \<Rightarrow> rg_insert R net (ConnLimitGenerator n) cidr)"
      by (auto simp: d shared_key_def split: option.splits)
    with 4 show ?thesis
      using conn_built_other [OF assms(1) 4(2-4)] by (simp add: d inv_intros)
  qed
qed

lemma conn_reload_lines_built:
  "conn_built R rs ipL cidr h \<Longrightarrow>
   fold (conn_reload_step R) ls (ipL, cidr, h) = (ipL', cidr', h') \<Longrightarrow>
   conn_built R (rs @ conn_line_rules ls) ipL' cidr' h' \<and> ll_extends h h'"
proof (induction ls arbitrary: rs ipL cidr h)
  case Nil
  then show ?case by (simp add: conn_line_rules_def inv_intros)
next
  case (Cons s ls)
  obtain i c g where st: "conn_reload_step R s (ipL, cidr, h) = (i, c, g)" by (metis prod_cases3)
  from conn_reload_step_built [OF Cons.prems(1) st]
  have b: "conn_built R (rs @ conn_line_rules [s]) i c g" and e: "ll_extends h g" by auto
  have "conn_line_rules (s # ls) = conn_line_rules [s] @ conn_line_rules ls"
    by (simp add: conn_line_rules_def)
  with Cons.IH [OF b] Cons.prems(2) st e show ?case by (auto intro: ll_extends_trans)
qed

definition conn_rules :: "nat \<Rightarrow> conn_options \<Rightarrow> (string \<times> int) list" where
  "conn_rules t opts = conn_line_rules (co_limits opts @ conn_load t opts)"

lemma conn_reload_built:
  assumes "conn_reload R t (l, h) = (l', h')"
  shows "conn_built R (conn_rules t (cl_options l)) (cl_ipLimits l') (cl_cidrLimits l') h'"
    and "cl_options l' = cl_options l" and "cl_limits l' = Map.empty" and "ll_extends h h'"
proof -
  let ?ls = "co_limits (cl_options l) @ conn_load t (cl_options l)"
  obtain i c g where st: "fold (conn_reload_step R) ?ls (Map.empty, rg_new R, h) = (i, c, g)"
    by (metis prod_cases3)
  from conn_reload_lines_built [OF conn_built_empty st] assms st
  show "conn_built R (conn_rules t (cl_options l)) (cl_ipLimits l') (cl_cidrLimits l') h'"
    and "cl_options l' = cl_options l" and "cl_limits l' = Map.empty" and "ll_extends h h'"
    by (auto simp: conn_reload_def conn_rules_def Let_def)
qed

section \<open>The limits of a key\<close>

definition option_list :: "'a option \<Rightarrow> 'a list" where
  "option_list x = (case x of None \<Rightarrow> [] | Some a \<Rightarrow> [a])"

text \<open>
  The specification: an address has the limit of its own rule, else that of the widest network
  with a rule, else the one for every address; any key has the global limit besides.
\<close>

definition conn_own_limits :: "('r, conn_generator) ranger_ops \<Rightarrow> (string \<times> int) list \<Rightarrow> string \<Rightarrow> int list" where
  "conn_own_limits R rs key =
     (let each = option_list (conn_rule rs IPLimitKey)
      in case parse_ip key of
           None \<Rightarrow> each
         | Some ip \<Rightarrow>
             (case conn_rule rs key of
                Some n \<Rightarrow> [n]
              | None \<Rightarrow>
                  (case rg_containing R (rg_build R (conn_net_rules rs)) ip of
                     ConnLimitGenerator n # _ \<Rightarrow> [n]
                   | _ \<Rightarrow> each)))"

definition conn_key_limits :: "('r, conn_generator) ranger_ops \<Rightarrow> (string \<times> int) list \<Rightarrow> string \<Rightarrow> int list" where
  "conn_key_limits R rs key =
     sort (conn_own_limits R rs key @ option_list (conn_rule rs GlobalLimitKey))"

definition group_ok :: "ll_store \<Rightarrow> nat list \<Rightarrow> bool" where
  "group_ok h g \<longleftrightarrow> g \<noteq> [] \<and> distinct g \<and> set g \<subseteq> {..<length h}"

lemma special_keys: "parse_ip ''$'' = None" "parse_ip ''$$'' = None"
  by code_simp+

lemma conn_rule_pos: "conn_built R rs ipL cidr h \<Longrightarrow> conn_rule rs k = Some n \<Longrightarrow> 0 < n"
  unfolding conn_built_def conn_rule_def by (fastforce dest: map_of_SomeD)

lemma conn_add_new:
  "0 < n \<Longrightarrow> conn_add (Some (ConnLimitGenerator n)) (lims, h) =
     (lims @ [length h], h @ [\<lparr>ll_limit = n, ll_current = 0\<rparr>])"
  by (simp add: conn_add_def conn_NewLimiter_def)

lemma conn_add_shared:
  "conn_add (Some (ConnLimitSingleGenerator (Some a))) (lims, h) = (lims @ [a], h)"
  by (simp add: conn_add_def)

lemma conn_add_nil [simp]: "conn_add None acc = acc"
  by (simp add: conn_add_def)

lemma conn_built_IPLimitKey:
  "conn_built R rs ipL cidr h \<Longrightarrow> ipL IPLimitKey = map_option ConnLimitGenerator (conn_rule rs IPLimitKey)"
  by (simp only: conn_built_def)

lemma conn_built_each:
  assumes b: "conn_built R rs ipL cidr h"
  shows "conn_add (ipL IPLimitKey) ([], h) =
     (case conn_rule rs IPLimitKey of
        None \<Rightarrow> ([], h)
      | Some n \<Rightarrow> ([length h], h @ [\<lparr>ll_limit = n, ll_current = 0\<rparr>]))"
proof (cases "conn_rule rs IPLimitKey")
  case None
  then show ?thesis by (simp add: conn_built_IPLimitKey [OF b])
next
  case (Some n)
  with conn_rule_pos [OF b Some] show ?thesis by (simp add: conn_built_IPLimitKey [OF b] conn_add_new)
qed

lemma conn_net_rules_elem:
  "(net, g) \<in> set (conn_net_rules rs) \<Longrightarrow> \<exists>k n. (k, n) \<in> set rs \<and> g = ConnLimitGenerator n"
  by (induction rs) (auto simp: conn_net_rules_def split: if_splits option.splits)

lemma conn_built_key:
  "conn_built R rs ipL cidr h \<Longrightarrow> shared_key k \<Longrightarrow>
   (case conn_rule rs k of
      None \<Rightarrow> ipL k = None
    | Some n \<Rightarrow> \<exists>a<length h. ipL k = Some (ConnLimitSingleGenerator (Some a)) \<and> ll_limit (h ! a) = n)"
  unfolding conn_built_def by (elim conjE allE) (rule mp)

lemma conn_net_gen:
  assumes "cidr_ranger R" and "conn_built R rs ipL cidr h" and "rg_containing R cidr ip = g # gs"
  shows "\<exists>n. g = ConnLimitGenerator n \<and> 0 < n"
proof -
  have cidr: "cidr = rg_build R (conn_net_rules rs)" and pos: "\<forall>r\<in>set rs. 0 < snd r"
    using assms(2) by (simp_all add: conn_built_def)
  obtain net where "live_entry (conn_net_rules rs) net g"
    using cidr_ranger.containing_sound [OF assms(1), of g "conn_net_rules rs" ip] assms(3) cidr by auto
  then have "(net, g) \<in> set (conn_net_rules rs)"
    by (auto simp: live_entry_def dest: map_of_SomeD)
  then obtain k n where "(k, n) \<in> set rs" "g = ConnLimitGenerator n"
    using conn_net_rules_elem by blast
  with pos show ?thesis by force
qed

text \<open>What the first half of the lookup gives: at most one counter, fresh or the key's own.\<close>

lemma conn_own_lims_built:
  assumes R: "cidr_ranger R" and b: "conn_built R rs (cl_ipLimits l) (cl_cidrLimits l) h"
    and own: "conn_own_lims R key l h = (lims, h1)"
  shows "ll_extends h h1 \<and> map (\<lambda>a. ll_limit (h1 ! a)) lims = conn_own_limits R rs key \<and>
    (lims = [] \<or> lims = [length h] \<and> length h < length h1 \<or>
     (\<exists>a<length h. lims = [a] \<and> key \<noteq> GlobalLimitKey \<and>
        cl_ipLimits l key = Some (ConnLimitSingleGenerator (Some a))))"
proof -
  note each = conn_built_each [OF b]
  have pos: "conn_rule rs IPLimitKey = Some n \<Longrightarrow> 0 < n" for n using conn_rule_pos [OF b] .
  have cidr: "cl_cidrLimits l = rg_build R (conn_net_rules rs)" using b by (simp add: conn_built_def)
  show ?thesis
  proof (cases "parse_ip key")
    case None
    with own each pos show ?thesis
      by (auto simp: conn_own_lims_def conn_own_limits_def option_list_def inv_intros split: option.splits)
  next
    case (Some ip)
    then have key: "shared_key key" "key \<noteq> GlobalLimitKey" by (auto simp: shared_key_def special_keys)
    show ?thesis
    proof (cases "conn_rule rs key")
      case (Some n)
      obtain a where "a < length h" "ll_limit (h ! a) = n"
        "cl_ipLimits l key = Some (ConnLimitSingleGenerator (Some a))"
        using conn_built_key [OF b key(1)] Some by auto
      with own key Some \<open>parse_ip key = Some ip\<close> show ?thesis
        by (auto simp: conn_own_lims_def conn_own_limits_def conn_add_shared inv_intros)
    next
      case None
      have nil: "cl_ipLimits l key = None" using conn_built_key [OF b key(1)] None by simp
      show ?thesis
      proof (cases "rg_containing R (cl_cidrLimits l) ip")
        case Nil
        with own each pos nil None \<open>parse_ip key = Some ip\<close> cidr show ?thesis
          by (auto simp: conn_own_lims_def conn_own_limits_def option_list_def inv_intros split: option.splits)
      next
        case (Cons g gs)
        obtain n where g: "g = ConnLimitGenerator n" "0 < n" using conn_net_gen [OF R b Cons] by blast
        with own nil None Cons \<open>parse_ip key = Some ip\<close> cidr show ?thesis
          by (auto simp: conn_own_lims_def conn_own_limits_def conn_add_new inv_intros)
      qed
    qed
  qed
qed

text \<open>A state of the limiter: installed rules, and cached groups of different counters.\<close>

definition conn_lim_ok ::
    "('r, conn_generator) ranger_ops \<Rightarrow> (string \<times> int) list \<Rightarrow> ll_store \<Rightarrow> string \<Rightarrow> nat list option \<Rightarrow> bool"
where
  "conn_lim_ok R rs h key lim \<longleftrightarrow>
     (case lim of
        None \<Rightarrow> conn_key_limits R rs key = []
      | Some g \<Rightarrow> group_ok h g \<and> map (\<lambda>a. ll_limit (h ! a)) g = conn_key_limits R rs key)"

lemma conn_lim_ok_extends:
  "conn_lim_ok R rs h key lim \<Longrightarrow> ll_extends h h' \<Longrightarrow> conn_lim_ok R rs h' key lim"
proof (cases lim)
  case (Some g)
  assume a: "conn_lim_ok R rs h key lim" "ll_extends h h'"
  with Some have g: "group_ok h g" by (simp add: conn_lim_ok_def)
  then have "map (\<lambda>a. ll_limit (h' ! a)) g = map (\<lambda>a. ll_limit (h ! a)) g"
    using ll_extends_nth [OF a(2)] by (auto simp: group_ok_def)
  with a(1) g Some ll_extends_length [OF a(2)] show ?thesis
    by (auto simp: conn_lim_ok_def group_ok_def)
qed (simp add: conn_lim_ok_def)

definition conn_state_ok ::
    "('r, conn_generator) ranger_ops \<Rightarrow> (string \<times> int) list \<Rightarrow> 'r connLimiter \<Rightarrow> ll_store \<Rightarrow> bool"
where
  "conn_state_ok R rs l h \<longleftrightarrow>
     conn_built R rs (cl_ipLimits l) (cl_cidrLimits l) h \<and>
     (\<forall>k lim. cl_limits l k = Some lim \<longrightarrow> conn_lim_ok R rs h k lim)"

lemma sort_key_map: "map f (sort_key f xs) = sort (map f xs)"
  by (rule properties_for_sort [symmetric]) simp_all

lemma connLimiter_Limiter_fresh:
  assumes R: "cidr_ranger R" and b: "conn_built R rs (cl_ipLimits l) (cl_cidrLimits l) h"
    and own: "conn_own_lims R key l h = (lims1, h1)"
    and add: "conn_add (cl_ipLimits l GlobalLimitKey) (lims1, h1) = (lims, h')"
  shows "ll_extends h h' \<and> distinct lims \<and> set lims \<subseteq> {..<length h'} \<and>
    map (\<lambda>a. ll_limit (h' ! a)) lims = conn_own_limits R rs key @ option_list (conn_rule rs GlobalLimitKey) \<and>
    (\<forall>a\<in>set lims. length h \<le> a \<or> (\<exists>k. cl_ipLimits l k = Some (ConnLimitSingleGenerator (Some a))))"
proof -
  from conn_own_lims_built [OF R b own] have
    e: "ll_extends h h1" and m: "map (\<lambda>a. ll_limit (h1 ! a)) lims1 = conn_own_limits R rs key" and
    s: "lims1 = [] \<or> lims1 = [length h] \<and> length h < length h1 \<or>
      (\<exists>a<length h. lims1 = [a] \<and> key \<noteq> GlobalLimitKey \<and>
        cl_ipLimits l key = Some (ConnLimitSingleGenerator (Some a)))" by auto
  have len: "length h \<le> length h1" using ll_extends_length [OF e] .
  have sg: "shared_key GlobalLimitKey" by (simp add: shared_key_def)
  show ?thesis
  proof (cases "conn_rule rs GlobalLimitKey")
    case None
    with conn_built_key [OF b sg] have "cl_ipLimits l GlobalLimitKey = None" by simp
    with add e m s len None show ?thesis by (auto simp: option_list_def)
  next
    case (Some n)
    with conn_built_key [OF b sg] obtain a where
      a: "cl_ipLimits l GlobalLimitKey = Some (ConnLimitSingleGenerator (Some a))"
        "a < length h" "ll_limit (h ! a) = n" by auto
    then have lims: "lims = lims1 @ [a]" "h' = h1" using add by (simp_all add: conn_add_shared)
    have "a \<notin> set lims1"
    proof
      assume "a \<in> set lims1"
      with s a(2) have "key \<noteq> GlobalLimitKey"
        "cl_ipLimits l key = Some (ConnLimitSingleGenerator (Some a))" by auto
      with a(1) b show False unfolding conn_built_def by blast
    qed
    moreover have "h1 ! a = h ! a" using ll_extends_nth [OF e a(2)] .
    ultimately show ?thesis
      using lims e m s len a Some by (auto simp: option_list_def)
  qed
qed

lemma connLimiter_Limiter_ok:
  assumes R: "cidr_ranger R" and ok: "conn_state_ok R rs l h"
    and lim: "connLimiter_Limiter R key (l, h) = (lim, (l', h'))"
  shows "ll_extends h h' \<and> conn_state_ok R rs l' h' \<and> cl_options l' = cl_options l \<and>
    conn_lim_ok R rs h' key lim"
proof (cases "cl_limits l key")
  case (Some c)
  with lim have "c = lim" "l' = l" "h' = h" by (simp_all add: connLimiter_Limiter_def)
  with ok Some show ?thesis by (simp add: conn_state_ok_def inv_intros)
next
  case None
  obtain lims1 h1 where own: "conn_own_lims R key l h = (lims1, h1)" by fastforce
  obtain lims h2 where add: "conn_add (cl_ipLimits l GlobalLimitKey) (lims1, h1) = (lims, h2)" by fastforce
  from lim None own add have h2: "h2 = h'"
    and l': "l' = l\<lparr>cl_limits := (cl_limits l)(key \<mapsto> lim)\<rparr>"
    and g: "lim = (if lims \<noteq> [] then Some (conn_newLimiterGroup h' lims) else None)"
    by (auto simp: connLimiter_Limiter_def Let_def)
  have b: "conn_built R rs (cl_ipLimits l) (cl_cidrLimits l) h" using ok by (simp add: conn_state_ok_def)
  from connLimiter_Limiter_fresh [OF R b own add] have
    e: "ll_extends h h'" and d: "distinct lims" "set lims \<subseteq> {..<length h'}" and
    m: "map (\<lambda>a. ll_limit (h' ! a)) lims = conn_own_limits R rs key @ option_list (conn_rule rs GlobalLimitKey)"
    by (simp_all add: h2)
  have key: "conn_lim_ok R rs h' key lim"
  proof (cases "lims = []")
    case True
    with m g show ?thesis by (simp add: conn_lim_ok_def conn_key_limits_def)
  next
    case False
    then have "sort_key (\<lambda>a. ll_limit (h' ! a)) lims \<noteq> []" by (metis length_0_conv length_sort)
    with False d g show ?thesis
      by (simp add: conn_lim_ok_def conn_newLimiterGroup_def sort_key_map m conn_key_limits_def group_ok_def)
  qed
  have "conn_built R rs (cl_ipLimits l) (cl_cidrLimits l) h'"
    using conn_built_grows [OF b] ll_extends_length [OF e] ll_extends_nth [OF e] by simp
  moreover have "conn_lim_ok R rs h' k c" if "cl_limits l k = Some c" for k c
    using that ok by (intro conn_lim_ok_extends [OF _ e]) (simp add: conn_state_ok_def)
  ultimately have "conn_state_ok R rs l' h'"
    using key by (auto simp: conn_state_ok_def l')
  with e key show ?thesis by (simp add: l')
qed

lemma conn_reload_state_ok:
  assumes "conn_reload R t (l, h) = (l', h')"
  shows "conn_state_ok R (conn_rules t (cl_options l)) l' h'"
  using conn_reload_built [OF assms] by (simp add: conn_state_ok_def)

section \<open>Open connections\<close>

text \<open>
  The limiter in use, one operation after another: \<open>conn_run R opts t st opens\<close> says that \<open>st\<close> is
  reached from the construction with \<open>opts\<close> by accepts, closes of open connections and
  reloads, the latest reload being number \<open>t\<close>, and that \<open>opens\<close> are the groups of the counted
  connections still open.  The bound on \<open>opens\<close> is the one on the process's resources.
\<close>

inductive conn_run ::
    "('r, conn_generator) ranger_ops \<Rightarrow> (conn_options \<Rightarrow> conn_options) list \<Rightarrow> nat \<Rightarrow>
     'r connLimiter \<times> ll_store \<Rightarrow> nat list list \<Rightarrow> bool"
  for R opts where
  run_new: "NewConnLimiter R opts [] = (st, started) \<Longrightarrow> conn_run R opts 0 st []"
| run_reload: "conn_run R opts t st opens \<Longrightarrow> conn_run R opts t' (conn_reload R t' st) opens"
| run_counted: "conn_run R opts t st opens \<Longrightarrow> int (length opens) < 2 ^ 61 \<Longrightarrow>
    conn_listener_Accept R addr st = (Counted g, st') \<Longrightarrow> conn_run R opts t st' (g # opens)"
| run_uncounted: "conn_run R opts t st opens \<Longrightarrow> int (length opens) < 2 ^ 61 \<Longrightarrow>
    conn_listener_Accept R addr st = (k, st') \<Longrightarrow> k = Plain \<or> k = Refused \<Longrightarrow>
    conn_run R opts t st' opens"
| run_close: "conn_run R opts t (l, h) opens \<Longrightarrow> int (length opens) < 2 ^ 61 \<Longrightarrow> g \<in> set opens \<Longrightarrow>
    conn_run R opts t (l, conn_serverConn_Close g h) (remove1 g opens)"

definition open_count :: "nat list list \<Rightarrow> nat \<Rightarrow> nat" where
  "open_count opens a = length (filter (\<lambda>g. a \<in> set g) opens)"

lemma open_count_simps [limit_simps]:
  "open_count [] a = 0"
  "open_count (g # opens) a = (if a \<in> set g then 1 else 0) + open_count opens a"
  by (simp_all add: open_count_def)

lemma open_count_le: "open_count opens a \<le> length opens"
  by (simp add: open_count_def)

lemma open_count_remove1:
  "g \<in> set opens \<Longrightarrow> int (open_count (remove1 g opens) a) = int (open_count opens a) - (if a \<in> set g then 1 else 0)"
  by (induction opens) (auto simp: limit_simps)

definition conn_counts_ok :: "ll_store \<Rightarrow> nat list list \<Rightarrow> bool" where
  "conn_counts_ok h opens \<longleftrightarrow>
     (\<forall>g\<in>set opens. group_ok h g) \<and>
     (\<forall>a<length h. ll_current (h ! a) = int (open_count opens a) \<and>
        int (open_count opens a) \<le> ll_limit (h ! a))"

lemma conn_counts_extends:
  assumes "conn_counts_ok h opens" and "ll_extends h h'"
  shows "conn_counts_ok h' opens"
proof -
  from assms(2) obtain xs where xs: "h' = h @ xs" "\<forall>x\<in>set xs. ll_current x = 0 \<and> 0 < ll_limit x"
    by (auto simp: ll_extends_def)
  have g: "\<forall>g\<in>set opens. group_ok h' g"
    using assms(1) xs(1) by (fastforce simp: conn_counts_ok_def group_ok_def)
  have "ll_current (h' ! a) = int (open_count opens a) \<and> int (open_count opens a) \<le> ll_limit (h' ! a)"
    if "a < length h'" for a
  proof (cases "a < length h")
    case True
    with assms(1) xs show ?thesis by (simp add: conn_counts_ok_def nth_append)
  next
    case False
    then have "open_count opens a = 0"
      using assms(1) by (fastforce simp: conn_counts_ok_def group_ok_def open_count_def filter_empty_conv)
    moreover have "h' ! a \<in> set xs" using False that xs(1) by (simp add: nth_append)
    ultimately show ?thesis using xs(2) by auto
  qed
  with g show ?thesis by (simp add: conn_counts_ok_def)
qed

lemma conn_counts_small:
  assumes "conn_counts_ok h opens" and "int (length opens) < 2 ^ 61" and "group_ok h g"
  shows "ll_small g h"
  unfolding ll_small_def
proof
  fix a
  assume "a \<in> set g"
  with assms(3) have "a < length h" by (auto simp: group_ok_def)
  with assms(1,2) open_count_le [of opens a]
  show "0 \<le> ll_current (h ! a) \<and> ll_current (h ! a) < 2 ^ 62" by (auto simp: conn_counts_ok_def)
qed

lemma conn_counts_open:
  assumes "conn_counts_ok h opens" and "group_ok h g"
    and "\<forall>a\<in>set g. ll_current (h ! a) < ll_limit (h ! a)"
  shows "conn_counts_ok (ll_bump (set g) 1 h) (g # opens)"
  using assms by (auto simp: conn_counts_ok_def limit_simps group_ok_def)

lemma conn_Close_bump:
  assumes "conn_counts_ok h opens" and "g \<in> set opens" and "int (length opens) < 2 ^ 61"
  shows "conn_serverConn_Close g h = ll_bump (set g) (-1) h"
proof -
  have g: "group_ok h g" using assms by (auto simp: conn_counts_ok_def)
  have "limiterGroup_Allow g (-1) h = (True, ll_bump (set g) (-1) h)"
  proof (rule limiterGroup_release)
    show "\<forall>a\<in>set g. 0 \<le> ll_current (h ! a) \<and> ll_current (h ! a) \<le> 2 ^ 62 \<and>
        ll_current (h ! a) \<le> ll_limit (h ! a) + 1"
    proof
      fix a
      assume "a \<in> set g"
      with g have "a < length h" by (auto simp: group_ok_def)
      with assms ll_small_nth [OF conn_counts_small [OF assms(1,3) g] \<open>a \<in> set g\<close>]
      show "0 \<le> ll_current (h ! a) \<and> ll_current (h ! a) \<le> 2 ^ 62 \<and>
        ll_current (h ! a) \<le> ll_limit (h ! a) + 1"
        by (fastforce simp: conn_counts_ok_def)
    qed
  qed (use g in \<open>auto simp: group_ok_def\<close>)
  then show ?thesis by (simp add: conn_serverConn_Close_def)
qed

lemma conn_counts_close:
  assumes "conn_counts_ok h opens" and "g \<in> set opens" and "int (length opens) < 2 ^ 61"
  shows "conn_counts_ok (conn_serverConn_Close g h) (remove1 g opens)"
proof -
  note c = conn_Close_bump [OF assms]
  have "\<forall>g'\<in>set (remove1 g opens). group_ok (ll_bump (set g) (-1) h) g'"
    using assms(1) set_remove1_subset [of g opens] by (auto simp: conn_counts_ok_def group_ok_def)
  moreover have "ll_current (ll_bump (set g) (-1) h ! a) = int (open_count (remove1 g opens) a) \<and>
      int (open_count (remove1 g opens) a) \<le> ll_limit (ll_bump (set g) (-1) h ! a)"
    if "a < length h" for a
    using that assms(1) open_count_remove1 [OF assms(2), of a] by (auto simp: limit_simps conn_counts_ok_def)
  ultimately show ?thesis by (simp add: c conn_counts_ok_def)
qed

lemma conn_state_ok_bump:
  assumes "conn_state_ok R rs l h"
  shows "conn_state_ok R rs l (ll_bump S n h)"
proof -
  have b: "conn_built R rs (cl_ipLimits l) (cl_cidrLimits l) h"
    using assms by (simp add: conn_state_ok_def)
  have "conn_built R rs (cl_ipLimits l) (cl_cidrLimits l) (ll_bump S n h)"
    by (rule conn_built_grows [OF b]) (simp_all add: limit_simps)
  moreover have "conn_lim_ok R rs (ll_bump S n h) k lim" if "conn_lim_ok R rs h k lim" for k lim
  proof (cases lim)
    case (Some g)
    with that have g: "group_ok h g" by (simp add: conn_lim_ok_def)
    then have "map (\<lambda>a. ll_limit (ll_bump S n h ! a)) g = map (\<lambda>a. ll_limit (h ! a)) g"
      by (auto simp: group_ok_def limit_simps)
    with that g Some show ?thesis by (simp add: conn_lim_ok_def group_ok_def)
  qed (use that in \<open>simp add: conn_lim_ok_def\<close>)
  ultimately show ?thesis using assms by (simp add: conn_state_ok_def)
qed

lemma conn_Accept_ok:
  assumes R: "cidr_ranger R" and ok: "conn_state_ok R rs l h" and counts: "conn_counts_ok h opens"
    and small: "int (length opens) < 2 ^ 61"
    and acc: "conn_listener_Accept R addr (l, h) = (k, (l', h'))"
  shows "conn_state_ok R rs l' h' \<and> cl_options l' = cl_options l \<and>
    (case k of
       Plain \<Rightarrow> conn_key_limits R rs (host_of addr) = [] \<and> conn_counts_ok h' opens
     | Counted g \<Rightarrow> map (\<lambda>a. ll_limit (h' ! a)) g = conn_key_limits R rs (host_of addr) \<and>
         conn_counts_ok h' (g # opens)
     | Refused \<Rightarrow> conn_counts_ok h' opens \<and>
         (\<exists>g. map (\<lambda>a. ll_limit (h' ! a)) g = conn_key_limits R rs (host_of addr) \<and>
            (\<exists>a\<in>set g. int (open_count opens a) = ll_limit (h' ! a))))"
proof -
  obtain lim l1 h1 where lim: "connLimiter_Limiter R (host_of addr) (l, h) = (lim, (l1, h1))"
    by (metis prod_cases3)
  from connLimiter_Limiter_ok [OF R ok lim] have
    e: "ll_extends h h1" and ok1: "conn_state_ok R rs l1 h1" and o1: "cl_options l1 = cl_options l" and
    key: "conn_lim_ok R rs h1 (host_of addr) lim" by auto
  have counts1: "conn_counts_ok h1 opens" using conn_counts_extends [OF counts e] .
  show ?thesis
  proof (cases lim)
    case None
    with acc lim have "k = Plain" "l' = l1" "h' = h1" by (simp_all add: conn_listener_Accept_def)
    with ok1 o1 counts1 key None show ?thesis by (simp add: conn_lim_ok_def)
  next
    case (Some g)
    with key have g: "group_ok h1 g" and m: "map (\<lambda>a. ll_limit (h1 ! a)) g = conn_key_limits R rs (host_of addr)"
      by (simp_all add: conn_lim_ok_def)
    then have allow: "limiterGroup_Allow g 1 h1 =
        (if \<forall>a\<in>set g. ll_current (h1 ! a) < ll_limit (h1 ! a) then (True, ll_bump (set g) 1 h1) else (False, h1))"
      using conn_counts_small [OF counts1 small g]
      by (intro limiterGroup_Allow_all) (auto simp: group_ok_def)
    show ?thesis
    proof (cases "\<forall>a\<in>set g. ll_current (h1 ! a) < ll_limit (h1 ! a)")
      case True
      with acc lim Some allow have "k = Counted g" "l' = l1" "h' = ll_bump (set g) 1 h1"
        by (auto simp: conn_listener_Accept_def)
      moreover have "map (\<lambda>a. ll_limit (ll_bump (set g) 1 h1 ! a)) g = map (\<lambda>a. ll_limit (h1 ! a)) g"
        using g by (auto simp: group_ok_def limit_simps)
      moreover have "conn_state_ok R rs l1 (ll_bump (set g) 1 h1)"
        by (rule conn_state_ok_bump [OF ok1])
      ultimately show ?thesis
        using o1 m conn_counts_open [OF counts1 g True] by simp
    next
      case False
      then obtain a where a: "a \<in> set g" "ll_limit (h1 ! a) \<le> ll_current (h1 ! a)" by fastforce
      from allow False have "limiterGroup_Allow g 1 h1 = (False, h1)" by argo
      with acc lim Some have "k = Refused" "l' = l1" "h' = h1"
        by (auto simp: conn_listener_Accept_def)
      moreover have "int (open_count opens a) = ll_limit (h1 ! a)"
      proof -
        have "a < length h1" using a(1) g by (auto simp: group_ok_def)
        with counts1 have "ll_current (h1 ! a) = int (open_count opens a)"
          "int (open_count opens a) \<le> ll_limit (h1 ! a)" by (simp_all add: conn_counts_ok_def)
        with a(2) show ?thesis by linarith
      qed
      ultimately show ?thesis
        using ok1 o1 counts1 m a(1) by (simp add: bexI [of _ a] exI [of _ g])
    qed
  qed
qed

lemma conn_run_invariant:
  assumes R: "cidr_ranger R"
  shows "conn_run R opts t st opens \<Longrightarrow>
    conn_state_ok R (conn_rules t (conn_apply opts)) (fst st) (snd st) \<and>
    cl_options (fst st) = conn_apply opts \<and> conn_counts_ok (snd st) opens"
proof (induction rule: conn_run.induct)
  case (run_new st started)
  obtain l h where st: "st = (l, h)" by fastforce
  let ?l = "\<lparr>cl_ipLimits = Map.empty, cl_cidrLimits = rg_new R, cl_limits = Map.empty, cl_options = conn_apply opts\<rparr>"
  have r: "conn_reload R 0 (?l, []) = (l, h)"
    using run_new by (simp add: NewConnLimiter_def Let_def st)
  have "conn_counts_ok [] []" by (simp add: conn_counts_ok_def)
  with conn_reload_built(4) [OF r] have "conn_counts_ok h []" by (rule conn_counts_extends [rotated])
  with conn_reload_state_ok [OF r] conn_reload_built(2) [OF r] show ?case by (simp add: st)
next
  case (run_reload t st opens t')
  obtain l h l' h' where st: "st = (l, h)" and r: "conn_reload R t' (l, h) = (l', h')" by fastforce
  from run_reload.IH have "conn_counts_ok h opens" by (simp add: st)
  with conn_reload_built(4) [OF r] have "conn_counts_ok h' opens" by (rule conn_counts_extends [rotated])
  with conn_reload_state_ok [OF r] conn_reload_built(2) [OF r] run_reload.IH show ?case by (simp add: st r)
next
  case (run_counted t st opens addr g st')
  obtain l h l' h' where st: "st = (l, h)" "st' = (l', h')" by fastforce
  from conn_Accept_ok [OF R _ _ run_counted.hyps(2), of _ l h addr "Counted g" l' h'] run_counted.hyps(3) run_counted.IH
  show ?case by (auto simp: st)
next
  case (run_uncounted t st opens addr k st')
  obtain l h l' h' where st: "st = (l, h)" "st' = (l', h')" by fastforce
  from conn_Accept_ok [OF R _ _ run_uncounted.hyps(2), of _ l h addr k l' h'] run_uncounted.hyps(3,4) run_uncounted.IH
  show ?case by (auto simp: st)
next
  case (run_close t l h opens g)
  have "conn_state_ok R (conn_rules t (conn_apply opts)) l (conn_serverConn_Close g h)"
    using run_close conn_Close_bump [of h opens g] by (simp add: conn_state_ok_bump)
  with run_close conn_counts_close [of h opens g] show ?case by simp
qed

text \<open>
  C2. However connections are accepted and closed and the rules reloaded, every counter shows the
  number of its open connections, and that number never exceeds the counter's limit.
\<close>

theorem conn_never_over_limit:
  assumes "cidr_ranger R" and "conn_run R opts t st opens" and "a < length (snd st)"
  shows "ll_current (snd st ! a) = int (open_count opens a) \<and>
    int (open_count opens a) \<le> ll_limit (snd st ! a)"
  using conn_run_invariant [OF assms(1,2)] assms(3) by (simp add: conn_counts_ok_def)

text \<open>
  In every such state a connection is accepted without a limit exactly for a client no rule
  applies to; a counted one is counted against exactly the limits the latest rules give the
  client; and a refusal means that one of these limits is exhausted.
\<close>

theorem conn_accept_follows_rules:
  assumes "cidr_ranger R" and "conn_run R opts t st opens" and "int (length opens) < 2 ^ 61"
    and "conn_listener_Accept R addr st = (k, (l', h'))"
  shows "let limits = conn_key_limits R (conn_rules t (conn_apply opts)) (host_of addr) in
    case k of
      Plain \<Rightarrow> limits = []
    | Counted g \<Rightarrow> map (\<lambda>a. ll_limit (h' ! a)) g = limits \<and> limits \<noteq> []
    | Refused \<Rightarrow> \<exists>g. map (\<lambda>a. ll_limit (h' ! a)) g = limits \<and>
        (\<exists>a\<in>set g. int (open_count opens a) = ll_limit (h' ! a))"
proof -
  obtain l h where st: "st = (l, h)" by fastforce
  have inv: "conn_state_ok R (conn_rules t (conn_apply opts)) l h" "conn_counts_ok h opens"
    using conn_run_invariant [OF assms(1,2)] by (simp_all add: st)
  from conn_Accept_ok [OF assms(1) inv assms(3) assms(4) [unfolded st]] show ?thesis
    by (cases k) (auto simp: Let_def conn_counts_ok_def group_ok_def)
qed

text \<open>A global limit of two and one of one for a network, with a client of the network.\<close>

definition demo_conn_opts :: "(conn_options \<Rightarrow> conn_options) list" where
  "demo_conn_opts = [conn_LimitsOption [''$ 2'', ''10.0.0.0/8 1'']]"

definition demo_conn_new where
  "demo_conn_new = fst (NewConnLimiter list_ranger demo_conn_opts [])"

definition demo_conn_first where
  "demo_conn_first = conn_listener_Accept list_ranger ''10.0.0.1:5'' demo_conn_new"

definition demo_conn_second where
  "demo_conn_second = conn_listener_Accept list_ranger ''10.0.0.1:6'' (snd demo_conn_first)"

lemma demo_conn_run: "conn_run list_ranger demo_conn_opts 0 (snd demo_conn_first) [[1, 0]]"
proof (rule run_counted)
  show "conn_run list_ranger demo_conn_opts 0 demo_conn_new []"
    by (rule run_new [of list_ranger demo_conn_opts _ "snd (NewConnLimiter list_ranger demo_conn_opts [])"])
      (simp add: demo_conn_new_def)
  have "fst demo_conn_first = Counted [1, 0]" by code_simp
  then show "conn_listener_Accept list_ranger ''10.0.0.1:5'' demo_conn_new = (Counted [1, 0], snd demo_conn_first)"
    unfolding demo_conn_first_def by (metis prod.collapse)
qed simp

theorem conn_never_over_limit_witness:
  "ll_current (snd (snd demo_conn_first) ! 1) = 1 \<and> 1 \<le> ll_limit (snd (snd demo_conn_first) ! 1)"
proof -
  have "1 < length (snd (snd demo_conn_first))" by code_simp
  from conn_never_over_limit [OF list_rg.cidr_ranger_axioms demo_conn_run this] show ?thesis
    by (simp add: open_count_def)
qed

theorem conn_accept_follows_rules_witness:
  "\<exists>g. map (\<lambda>a. ll_limit (snd (snd demo_conn_second) ! a)) g = [1, 2] \<and>
     (\<exists>a\<in>set g. int (open_count [[1, 0]] a) = ll_limit (snd (snd demo_conn_second) ! a))"
proof -
  have k: "fst demo_conn_second = Refused" by code_simp
  then have acc: "conn_listener_Accept list_ranger ''10.0.0.1:6'' (snd demo_conn_first) =
      (Refused, (fst (snd demo_conn_second), snd (snd demo_conn_second)))"
    unfolding demo_conn_second_def by (metis prod.collapse)
  have "conn_key_limits list_ranger (conn_rules 0 (conn_apply demo_conn_opts)) (host_of ''10.0.0.1:6'') = [1, 2]"
    by code_simp
  with conn_accept_follows_rules [OF list_rg.cidr_ranger_axioms demo_conn_run _ acc] show ?thesis
    by (simp add: Let_def)
qed

section \<open>Limits across reloads, and connections closed twice\<close>

text \<open>A reload allocates fresh counters for every rule.\<close>

lemma conn_reload_fresh_singles:
  assumes "conn_reload R t (l, h) = (l', h')"
    and "cl_ipLimits l' k = Some (ConnLimitSingleGenerator (Some a))"
  shows "length h \<le> a"
proof -
  have "\<forall>k a. ipL k = Some (ConnLimitSingleGenerator (Some a)) \<longrightarrow> n \<le> a \<Longrightarrow> n \<le> length h0 \<Longrightarrow>
      fold (conn_reload_step R) ls (ipL, cidr, h0) = (ipL', cidr', h1) \<Longrightarrow>
      ipL' k = Some (ConnLimitSingleGenerator (Some a)) \<Longrightarrow> n \<le> a" for ls ipL cidr h0 ipL' cidr' h1 k a n
  proof (induction ls arbitrary: ipL cidr h0)
    case (Cons s ls)
    obtain i c g where st: "conn_reload_step R s (ipL, cidr, h0) = (i, c, g)" by (metis prod_cases3)
    then have "\<forall>k a. i k = Some (ConnLimitSingleGenerator (Some a)) \<longrightarrow> n \<le> a" "n \<le> length g"
      using Cons.prems(1,2)
      by (auto simp: conn_reload_step_def NewConnLimitSingleGenerator_def conn_NewLimiter_def
          split: prod.splits if_splits option.splits)
    with Cons.IH Cons.prems(3,4) st show ?case by simp
  qed auto
  note step = this
  let ?ls = "co_limits (cl_options l) @ conn_load t (cl_options l)"
  obtain i c g where st: "fold (conn_reload_step R) ?ls (Map.empty, rg_new R, h) = (i, c, g)"
    by (metis prod_cases3)
  with assms have "i k = Some (ConnLimitSingleGenerator (Some a))"
    by (auto simp: conn_reload_def Let_def)
  with step [OF _ _ st, of "length h" k a] show ?thesis by simp
qed

text \<open>
  Right after a reload every connection is accepted, however many are open and whatever the
  limits say: the counters of the open connections are forgotten.
\<close>

theorem conn_reload_forgets:
  assumes R: "cidr_ranger R" and acc: "conn_listener_Accept R addr (conn_reload R t (l, h)) = (k, st')"
  shows "k \<noteq> Refused"
proof -
  obtain l1 h1 where r: "conn_reload R t (l, h) = (l1, h1)" by fastforce
  obtain lims1 h2 where own: "conn_own_lims R (host_of addr) l1 h1 = (lims1, h2)" by fastforce
  obtain lims h3 where add: "conn_add (cl_ipLimits l1 GlobalLimitKey) (lims1, h2) = (lims, h3)" by fastforce
  from connLimiter_Limiter_fresh [OF R conn_reload_built(1) [OF r] own add] have
    e: "ll_extends h1 h3" and d: "distinct lims" "set lims \<subseteq> {..<length h3}" and
    f: "\<forall>a\<in>set lims. length h1 \<le> a \<or> (\<exists>k. cl_ipLimits l1 k = Some (ConnLimitSingleGenerator (Some a)))"
    by auto
  have e3: "ll_extends h h3" using ll_extends_trans [OF conn_reload_built(4) [OF r] e] .
  have new: "length h \<le> a" if "a \<in> set lims" for a
    using f that conn_reload_fresh_singles [OF r] ll_extends_length [OF conn_reload_built(4) [OF r]] by fastforce
  have zero: "ll_current (h3 ! a) = 0 \<and> 0 < ll_limit (h3 ! a)" if "a \<in> set lims" for a
  proof -
    have a: "length h \<le> a" "a < length h3" using new [OF that] d(2) that by auto
    from e3 obtain xs where xs: "h3 = h @ xs" "\<forall>x\<in>set xs. ll_current x = 0 \<and> 0 < ll_limit x"
      by (auto simp: ll_extends_def)
    with a have "h3 ! a \<in> set xs" by (simp add: nth_append)
    with xs(2) show ?thesis by simp
  qed
  let ?g = "conn_newLimiterGroup h3 lims"
  have g: "set ?g = set lims" "distinct ?g" "?g = [] \<longleftrightarrow> lims = []"
    using d by (auto simp: conn_newLimiterGroup_def simp flip: set_empty)
  have lim: "connLimiter_Limiter R (host_of addr) (l1, h1) =
      ((if lims \<noteq> [] then Some ?g else None),
       (l1\<lparr>cl_limits := (cl_limits l1)(host_of addr \<mapsto> (if lims \<noteq> [] then Some ?g else None))\<rparr>, h3))"
    using conn_reload_built(3) [OF r] own add by (simp add: connLimiter_Limiter_def Let_def)
  show ?thesis
  proof (cases "lims = []")
    case True
    with acc lim r show ?thesis by (auto simp: conn_listener_Accept_def)
  next
    case False
    have "limiterGroup_Allow ?g 1 h3 =
        (if \<forall>a\<in>set ?g. ll_current (h3 ! a) < ll_limit (h3 ! a) then (True, ll_bump (set ?g) 1 h3) else (False, h3))"
      using False g d(2) zero by (intro limiterGroup_Allow_all) (auto simp: ll_small_def)
    then have "fst (limiterGroup_Allow ?g 1 h3)" using g zero by simp
    with acc lim r False show ?thesis
      by (auto simp: conn_listener_Accept_def split: prod.splits bool.splits)
  qed
qed

theorem conn_reload_forgets_witness:
  "fst demo_conn_second = Refused \<and>
   fst (conn_listener_Accept list_ranger ''10.0.0.1:7'' (conn_reload list_ranger 1 (snd demo_conn_second))) \<noteq> Refused"
proof
  show "fst demo_conn_second = Refused" by code_simp
  show "fst (conn_listener_Accept list_ranger ''10.0.0.1:7'' (conn_reload list_ranger 1 (snd demo_conn_second))) \<noteq> Refused"
    by (rule conn_reload_forgets [OF list_rg.cidr_ranger_axioms, of "''10.0.0.1:7''" 1
          "fst (snd demo_conn_second)" "snd (snd demo_conn_second)"]) (simp add: prod_eq_iff)
qed

lemma conn_Close_bump_small:
  assumes "group_ok h g" and "ll_small g h" and "\<forall>a\<in>set g. ll_current (h ! a) \<le> ll_limit (h ! a)"
  shows "conn_serverConn_Close g h = ll_bump (set g) (-1) h"
  using assms limiterGroup_release [of g h]
  by (fastforce simp: conn_serverConn_Close_def group_ok_def ll_small_def)

text \<open>
  Closing one counted connection twice frees two places: from exhausted counters, two further
  connections are granted.
\<close>

theorem conn_double_close_frees_two:
  assumes g: "group_ok h g" and full: "\<forall>a\<in>set g. ll_current (h ! a) = ll_limit (h ! a)"
    and two: "\<forall>a\<in>set g. 2 \<le> ll_limit (h ! a) \<and> ll_limit (h ! a) < 2 ^ 61"
  shows "let h2 = conn_serverConn_Close g (conn_serverConn_Close g h);
             (b3, h3) = limiterGroup_Allow g 1 h2;
             (b4, h4) = limiterGroup_Allow g 1 h3
         in \<not> fst (limiterGroup_Allow g 1 h) \<and> b3 \<and> b4 \<and> h4 = h"
proof -
  have r: "a < length h" if "a \<in> set g" for a using g that by (auto simp: group_ok_def)
  have ok: "group_ok (ll_bump (set g) n h) g" for n using g by (simp add: group_ok_def)
  have sm: "ll_small g (ll_bump (set g) n h)" if "n \<in> {-2, -1, 0}" for n
    using that r full two by (auto simp: ll_small_def limit_simps)
  have le: "\<forall>a\<in>set g. ll_current (ll_bump (set g) n h ! a) \<le> ll_limit (ll_bump (set g) n h ! a)"
    if "n \<le> 0" for n
    using that r full by (auto simp: limit_simps)
  have h0: "ll_bump (set g) 0 h = h" by (rule nth_equalityI) (simp_all add: ll_bump_nth)
  have add: "ll_bump S m (ll_bump S n h) = ll_bump S (n + m) h" for S m n
    by (rule nth_equalityI) (auto simp: ll_bump_nth)
  have c1: "conn_serverConn_Close g h = ll_bump (set g) (-1) h"
    using conn_Close_bump_small [OF g] sm [of 0] le [of 0] by (simp add: h0)
  have c2: "conn_serverConn_Close g (ll_bump (set g) (-1) h) = ll_bump (set g) (-2) h"
    using conn_Close_bump_small [OF ok, of "-1"] sm [of "-1"] le [of "-1"] by (simp add: add)
  note allow = limiterGroup_Allow_all [of g "ll_bump (set g) n h" for n]
  have a2: "limiterGroup_Allow g 1 (ll_bump (set g) (-2) h) = (True, ll_bump (set g) (-1) h)"
    using allow [of "-2"] ok [of "-2"] sm [of "-2"] full r by (auto simp: group_ok_def limit_simps add)
  have a1: "limiterGroup_Allow g 1 (ll_bump (set g) (-1) h) = (True, h)"
    using allow [of "-1"] ok [of "-1"] sm [of "-1"] full r by (auto simp: group_ok_def limit_simps add h0)
  have "\<not> fst (limiterGroup_Allow g 1 h)"
  proof -
    have "set g \<noteq> {}" using g by (simp add: group_ok_def)
    then have "\<not> (\<forall>a\<in>set g. ll_current (h ! a) < ll_limit (h ! a))" using full by auto
    then show ?thesis
      using limiterGroup_Allow_all [of g h] g sm [of 0] by (simp add: group_ok_def h0)
  qed
  then show ?thesis by (simp add: c1 c2 a2 a1)
qed

theorem conn_double_close_frees_two_witness:
  "fst (limiterGroup_Allow [0] 1 (conn_serverConn_Close [0] (conn_serverConn_Close [0] [\<lparr>ll_limit = 2, ll_current = 2\<rparr>])))"
  using conn_double_close_frees_two [of "[\<lparr>ll_limit = 2, ll_current = 2\<rparr>]" "[0]"]
  by (simp add: group_ok_def Let_def split: prod.splits)

end
