(* ===== verification/ConnRace.thy ===== *)
theory ConnRace
  imports ConnLimiter
begin

text \<open>
  The connection limiter under concurrency.  Goroutines accept and close connections at the
  same time; what is atomic is one \<open>atomic.AddInt64\<close>.  A goroutine is a program counter
  inside \<open>limiterGroup.Allow\<close> and \<open>llimiter.Allow\<close> (called with 1 by the wrapper's \<open>Accept\<close> and
  with -1 by its \<open>Close\<close>), a schedule is the list of the goroutines that make the next step,
  and the counters are unbounded integers (they stay below the number of goroutines).
\<close>

section \<open>Steps\<close>

datatype race_pc =
    RIdle
  | RTry "nat list" "nat list" \<comment> \<open>granted so far, still to ask\<close>
  | RUndo nat "nat list"       \<comment> \<open>added beyond the limit, to be undone; granted before\<close>
  | RRoll "nat list"           \<comment> \<open>granted ones to give back\<close>
  | RHold
  | RRelease "nat list"

text \<open>
  One step of a goroutine whose connections have the group \<open>g\<close>: it accepts when idle and
  closes when holding.  \<open>Close\<close> runs the same loop with -1: a limiter that is still above its
  limit after the subtraction answers false and ends the loop.
\<close>

fun race_step :: "(nat \<Rightarrow> int) \<Rightarrow> nat list \<Rightarrow> race_pc \<Rightarrow> (nat \<Rightarrow> int) \<Rightarrow> race_pc \<times> (nat \<Rightarrow> int)" where
  "race_step lim g RIdle cur = (RTry [] g, cur)"
| "race_step lim g (RTry granted []) cur = (RHold, cur)"
| "race_step lim g (RTry granted (x # todo)) cur =
     (let v = cur x + 1
      in (if v > lim x then RUndo x granted else RTry (granted @ [x]) todo, cur(x := v)))"
| "race_step lim g (RUndo x granted) cur = (RRoll granted, cur(x := cur x - 1))"
| "race_step lim g (RRoll []) cur = (RIdle, cur)"
| "race_step lim g (RRoll (x # todo)) cur = (RRoll todo, cur(x := cur x - 1))"
| "race_step lim g RHold cur = (RRelease g, cur)"
| "race_step lim g (RRelease []) cur = (RIdle, cur)"
| "race_step lim g (RRelease (x # todo)) cur =
     (let v = cur x - 1
      in (if v > lim x then RIdle else RRelease todo, cur(x := v)))"

record race_state =
  rs_pc :: "nat \<Rightarrow> race_pc"
  rs_cur :: "nat \<Rightarrow> int"

definition race_init :: race_state where
  "race_init = \<lparr>rs_pc = (\<lambda>_. RIdle), rs_cur = (\<lambda>_. 0)\<rparr>"

definition race_sched_step :: "(nat \<Rightarrow> int) \<Rightarrow> (nat \<Rightarrow> nat list) \<Rightarrow> nat \<Rightarrow> race_state \<Rightarrow> race_state" where
  "race_sched_step lim grp t s =
     (case race_step lim (grp t) (rs_pc s t) (rs_cur s) of
        (pc, cur) \<Rightarrow> \<lparr>rs_pc = (rs_pc s)(t := pc), rs_cur = cur\<rparr>)"

definition race_run :: "(nat \<Rightarrow> int) \<Rightarrow> (nat \<Rightarrow> nat list) \<Rightarrow> nat list \<Rightarrow> race_state" where
  "race_run lim grp sched = fold (race_sched_step lim grp) sched race_init"

section \<open>Who is counted where\<close>

text \<open>The grants a goroutine has of a limiter, and the addition it still has to undo.\<close>

fun race_granted :: "nat list \<Rightarrow> race_pc \<Rightarrow> nat \<Rightarrow> bool" where
  "race_granted g RIdle x = False"
| "race_granted g (RTry granted todo) x = (x \<in> set granted)"
| "race_granted g (RUndo y granted) x = (x \<in> set granted)"
| "race_granted g (RRoll todo) x = (x \<in> set todo)"
| "race_granted g RHold x = (x \<in> set g)"
| "race_granted g (RRelease todo) x = (x \<in> set todo)"

fun race_pending :: "race_pc \<Rightarrow> nat \<Rightarrow> bool" where
  "race_pending (RUndo y granted) x = (x = y)"
| "race_pending _ x = False"

fun race_pc_ok :: "nat list \<Rightarrow> race_pc \<Rightarrow> bool" where
  "race_pc_ok g (RTry granted todo) = (g = granted @ todo)"
| "race_pc_ok g (RUndo x granted) = distinct (granted @ [x])"
| "race_pc_ok g (RRoll todo) = distinct todo"
| "race_pc_ok g (RRelease todo) = distinct todo"
| "race_pc_ok g _ = True"

definition race_weight :: "nat list \<Rightarrow> race_pc \<Rightarrow> nat \<Rightarrow> int" where
  "race_weight g pc x = of_bool (race_granted g pc x) + of_bool (race_pending pc x)"

text \<open>
  What a single step does to the counter and to the weight of the goroutine: the counter never
  falls by more than the weight, and a new grant leaves it within the limit.
\<close>

lemma race_step_pc_ok:
  "distinct g \<Longrightarrow> race_pc_ok g pc \<Longrightarrow> race_step lim g pc cur = (pc', cur') \<Longrightarrow> race_pc_ok g pc'"
  by (cases "(lim, g, pc, cur)" rule: race_step.cases) (auto simp: Let_def split: if_splits)

lemma race_step_weight:
  "distinct g \<Longrightarrow> race_pc_ok g pc \<Longrightarrow> race_step lim g pc cur = (pc', cur') \<Longrightarrow>
   race_weight g pc' x - race_weight g pc x \<le> cur' x - cur x"
  by (cases "(lim, g, pc, cur)" rule: race_step.cases)
    (auto simp: race_weight_def Let_def split: if_splits)

lemma race_step_grant:
  "distinct g \<Longrightarrow> race_pc_ok g pc \<Longrightarrow> race_step lim g pc cur = (pc', cur') \<Longrightarrow>
   race_granted g pc' x \<Longrightarrow> \<not> race_granted g pc x \<Longrightarrow> cur' x \<le> lim x"
  by (cases "(lim, g, pc, cur)" rule: race_step.cases) (auto simp: Let_def split: if_splits)

section \<open>The invariant\<close>

definition race_inv :: "nat set \<Rightarrow> (nat \<Rightarrow> int) \<Rightarrow> (nat \<Rightarrow> nat list) \<Rightarrow> race_state \<Rightarrow> bool" where
  "race_inv T lim grp s \<longleftrightarrow>
     (\<forall>t. race_pc_ok (grp t) (rs_pc s t)) \<and>
     (\<forall>x. (\<Sum>t\<in>T. race_weight (grp t) (rs_pc s t) x) \<le> rs_cur s x) \<and>
     (\<forall>x. (\<Sum>t\<in>T. of_bool (race_granted (grp t) (rs_pc s t) x)) \<le> lim x)"

lemma sum_fun_upd:
  fixes f :: "nat \<Rightarrow> 'b \<Rightarrow> int"
  assumes "finite T" and "t \<in> T"
  shows "(\<Sum>s\<in>T. f s ((p(t := v)) s)) = (\<Sum>s\<in>T. f s (p s)) - f t (p t) + f t v"
proof -
  have "(\<Sum>s\<in>T. f s ((p(t := v)) s)) = f t v + (\<Sum>s\<in>T - {t}. f s ((p(t := v)) s))"
    using assms by (simp add: sum.remove [of T t])
  also have "(\<Sum>s\<in>T - {t}. f s ((p(t := v)) s)) = (\<Sum>s\<in>T - {t}. f s (p s))"
    by (rule sum.cong) auto
  also have "\<dots> = (\<Sum>s\<in>T. f s (p s)) - f t (p t)"
    using assms by (simp add: sum.remove [of T t])
  finally show ?thesis by simp
qed

lemma race_inv_step:
  assumes fin: "finite T" and t: "t \<in> T" and d: "\<forall>t. distinct (grp t)" and inv: "race_inv T lim grp s"
  shows "race_inv T lim grp (race_sched_step lim grp t s)"
proof -
  obtain pc cur where st: "race_step lim (grp t) (rs_pc s t) (rs_cur s) = (pc, cur)" by fastforce
  have ok: "race_pc_ok (grp t) (rs_pc s t)" using inv by (simp add: race_inv_def)
  have dt: "distinct (grp t)" using d by simp
  let ?p = "(rs_pc s)(t := pc)"
  have w: "(\<Sum>u\<in>T. race_weight (grp u) (?p u) x) \<le> cur x" for x
  proof -
    have "(\<Sum>u\<in>T. race_weight (grp u) (?p u) x) =
        (\<Sum>u\<in>T. race_weight (grp u) (rs_pc s u) x) - race_weight (grp t) (rs_pc s t) x + race_weight (grp t) pc x"
      by (rule sum_fun_upd [OF fin t])
    moreover have "(\<Sum>u\<in>T. race_weight (grp u) (rs_pc s u) x) \<le> rs_cur s x"
      using inv by (simp add: race_inv_def)
    ultimately show ?thesis using race_step_weight [OF dt ok st, of x] by linarith
  qed
  have "(\<Sum>u\<in>T. of_bool (race_granted (grp u) (?p u) x)) \<le> lim x" for x
  proof (cases "race_granted (grp t) pc x \<and> \<not> race_granted (grp t) (rs_pc s t) x")
    case True
    have "(\<Sum>u\<in>T. of_bool (race_granted (grp u) (?p u) x)) \<le> (\<Sum>u\<in>T. race_weight (grp u) (?p u) x)"
      by (rule sum_mono) (simp add: race_weight_def)
    with w [of x] race_step_grant [OF dt ok st, of x] True show ?thesis by linarith
  next
    case False
    have "(\<Sum>u\<in>T. of_bool (race_granted (grp u) (?p u) x) :: int) =
        (\<Sum>u\<in>T. of_bool (race_granted (grp u) (rs_pc s u) x)) -
          of_bool (race_granted (grp t) (rs_pc s t) x) + of_bool (race_granted (grp t) pc x)"
      by (rule sum_fun_upd [OF fin t, where f = "\<lambda>u pc. of_bool (race_granted (grp u) pc x)"])
    moreover have "(\<Sum>u\<in>T. of_bool (race_granted (grp u) (rs_pc s u) x)) \<le> lim x"
      using inv by (simp add: race_inv_def)
    ultimately show ?thesis using False by (auto split: if_splits)
  qed
  with w inv race_step_pc_ok [OF dt ok st] show ?thesis
    by (simp add: race_sched_step_def race_inv_def st)
qed

lemma race_inv_run:
  assumes "finite T" and "\<forall>t. distinct (grp t)" and "\<forall>x. 0 \<le> lim x" and "set sched \<subseteq> T"
  shows "race_inv T lim grp (race_run lim grp sched)"
  using assms(4)
proof (induction sched rule: rev_induct)
  case Nil
  then show ?case using assms(3) by (simp add: race_run_def race_init_def race_inv_def race_weight_def)
next
  case (snoc t sched)
  then have "race_inv T lim grp (race_run lim grp sched)" "t \<in> T" by auto
  from race_inv_step [OF assms(1) this(2) assms(2) this(1)] show ?case by (simp add: race_run_def)
qed

text \<open>
  C11. Under every schedule of accepting and closing goroutines, the connections held at the same
  time on a limiter are never more than its limit.
\<close>

theorem race_never_over_limit:
  assumes "\<forall>t. distinct (grp t)" and "\<forall>x. 0 \<le> lim x"
  shows "int (card {t \<in> set sched. rs_pc (race_run lim grp sched) t = RHold \<and> x \<in> set (grp t)}) \<le> lim x"
proof -
  let ?s = "race_run lim grp sched"
  have "int (card {t \<in> set sched. rs_pc ?s t = RHold \<and> x \<in> set (grp t)}) =
      (\<Sum>t\<in>set sched. of_bool (rs_pc ?s t = RHold \<and> x \<in> set (grp t)))"
    by (simp add: sum.If_cases of_bool_def Int_def)
  also have "\<dots> \<le> (\<Sum>t\<in>set sched. of_bool (race_granted (grp t) (rs_pc ?s t) x))"
    by (rule sum_mono) auto
  also have "\<dots> \<le> lim x"
    using race_inv_run [OF _ assms, of "set sched" sched] by (simp add: race_inv_def)
  finally show ?thesis .
qed

text \<open>
  Three goroutines of one client, whose address has the limit 1 besides a global limit of 2:
  the first connects, the other two are about to be refused when the first closes.
\<close>

definition demo_lim :: "nat \<Rightarrow> int" where
  "demo_lim x = (if x = 0 then 1 else 2)"

definition demo_grp :: "nat \<Rightarrow> nat list" where
  "demo_grp t = [0, 1]"

definition demo_sched :: "nat list" where
  "demo_sched = [0, 0, 0, 0, 1, 1, 2, 2, 0, 0, 1, 1, 2, 2]"

theorem race_never_over_limit_witness:
  "int (card {t \<in> set demo_sched. rs_pc (race_run demo_lim demo_grp demo_sched) t = RHold \<and> 0 \<in> set (demo_grp t)}) \<le> 1"
  using race_never_over_limit [of demo_grp demo_lim demo_sched 0] by (simp add: demo_grp_def demo_lim_def)

lemma race_run_other: "t \<notin> set sched \<Longrightarrow> rs_pc (race_run lim grp sched) t = RIdle"
proof -
  have "t \<notin> set sched \<Longrightarrow> rs_pc (fold (race_sched_step lim grp) sched s) t = rs_pc s t" for s
    by (induction sched arbitrary: s) (auto simp: race_sched_step_def split: prod.splits)
  then show "t \<notin> set sched \<Longrightarrow> rs_pc (race_run lim grp sched) t = RIdle"
    by (simp add: race_run_def race_init_def)
qed

text \<open>
  A close can leak a place: after this schedule every goroutine is idle, so no connection is
  open, and the global counter still shows one.
\<close>

theorem race_close_leaks:
  "(\<forall>t. rs_pc (race_run demo_lim demo_grp demo_sched) t = RIdle) \<and>
   map (rs_cur (race_run demo_lim demo_grp demo_sched)) [0, 1] = [0, 1]"
proof (intro conjI allI)
  show "rs_pc (race_run demo_lim demo_grp demo_sched) t = RIdle" for t
  proof (cases "t < 3")
    case True
    then have "t \<in> {0, 1, 2}" by auto
    moreover have "map (rs_pc (race_run demo_lim demo_grp demo_sched)) [0, 1, 2] = [RIdle, RIdle, RIdle]"
      by code_simp
    ultimately show ?thesis by auto
  next
    case False
    then have "t \<notin> set demo_sched" by (auto simp: demo_sched_def)
    then show ?thesis by (rule race_run_other)
  qed
  show "map (rs_cur (race_run demo_lim demo_grp demo_sched)) [0, 1] = [0, 1]" by code_simp
qed

section \<open>A goroutine alone\<close>

text \<open>
  Without interference the steps of an accepting goroutine compute what \<open>limiterGroup_Allow\<close>
  computes in one go: the step model refines the sequential one.
\<close>

definition race_alone :: "(nat \<Rightarrow> int) \<Rightarrow> nat list \<Rightarrow> nat \<Rightarrow> race_pc \<times> (nat \<Rightarrow> int) \<Rightarrow> race_pc \<times> (nat \<Rightarrow> int)" where
  "race_alone lim g n = (\<lambda>(pc, cur). race_step lim g pc cur) ^^ n"

definition cur_add :: "nat set \<Rightarrow> int \<Rightarrow> (nat \<Rightarrow> int) \<Rightarrow> nat \<Rightarrow> int" where
  "cur_add S n cur = (\<lambda>a. if a \<in> S then cur a + n else cur a)"

lemma race_alone_step:
  "race_step lim g pc cur = s \<Longrightarrow> \<exists>n. race_alone lim g n s = s' \<Longrightarrow> \<exists>n. race_alone lim g n (pc, cur) = s'"
proof (elim exE)
  fix n
  assume "race_step lim g pc cur = s" "race_alone lim g n s = s'"
  then have "race_alone lim g (Suc n) (pc, cur) = s'"
    by (simp add: race_alone_def funpow_swap1)
  then show ?thesis by blast
qed

lemma race_alone_stop: "\<exists>n. race_alone lim g n s = s"
  by (rule exI [of _ 0]) (simp add: race_alone_def)

lemma race_alone_roll:
  "distinct todo \<Longrightarrow> \<exists>n. race_alone lim g n (RRoll todo, cur) = (RIdle, cur_add (set todo) (-1) cur)"
proof (induction todo arbitrary: cur)
  case Nil
  have "race_step lim g (RRoll []) cur = (RIdle, cur_add {} (-1) cur)" by (simp add: cur_add_def)
  with race_alone_step [OF this race_alone_stop] show ?case by simp
next
  case (Cons x todo)
  have "cur_add (set todo) (-1) (cur(x := cur x - 1)) = cur_add (set (x # todo)) (-1) cur"
    using Cons.prems by (auto simp: cur_add_def)
  then have "\<exists>n. race_alone lim g n (RRoll todo, cur(x := cur x - 1)) = (RIdle, cur_add (set (x # todo)) (-1) cur)"
    using Cons.IH [of "cur(x := cur x - 1)"] Cons.prems by (simp only: distinct.simps) 
  then show ?case by (rule race_alone_step [rotated]) simp
qed

lemma race_alone_try:
  "distinct (granted @ todo) \<Longrightarrow>
   \<exists>n. race_alone lim g n (RTry granted todo, cur) =
     (if \<forall>x\<in>set todo. cur x < lim x then (RHold, cur_add (set todo) 1 cur)
      else (RIdle, cur_add (set granted) (-1) cur))"
proof (induction todo arbitrary: granted cur)
  case Nil
  have "race_step lim g (RTry granted []) cur = (RHold, cur_add {} 1 cur)" by (simp add: cur_add_def)
  with race_alone_step [OF this race_alone_stop] show ?case by simp
next
  case (Cons x todo)
  let ?c = "cur(x := cur x + 1)"
  show ?case
  proof (cases "cur x < lim x")
    case True
    have eq: "(\<forall>y\<in>set todo. ?c y < lim y) \<longleftrightarrow> (\<forall>y\<in>set (x # todo). cur y < lim y)"
      "cur_add (set todo) 1 ?c = cur_add (set (x # todo)) 1 cur"
      "cur_add (set (granted @ [x])) (-1) ?c = cur_add (set granted) (-1) cur"
      using Cons.prems True by (auto simp: cur_add_def)
    have "race_step lim g (RTry granted (x # todo)) cur = (RTry (granted @ [x]) todo, ?c)"
      using True by simp
    then show ?thesis
      using Cons.IH [of "granted @ [x]" ?c, unfolded eq] Cons.prems by (intro race_alone_step) auto
  next
    case False
    have "race_step lim g (RTry granted (x # todo)) cur = (RUndo x granted, ?c)"
      "race_step lim g (RUndo x granted) ?c = (RRoll granted, cur)"
      using False by simp_all
    moreover have "\<exists>n. race_alone lim g n (RRoll granted, cur) = (RIdle, cur_add (set granted) (-1) cur)"
      using Cons.prems by (intro race_alone_roll) simp
    ultimately have "\<exists>n. race_alone lim g n (RTry granted (x # todo), cur) =
        (RIdle, cur_add (set granted) (-1) cur)"
      using race_alone_step by metis
    then show ?thesis using False by auto
  qed
qed

definition store_cur :: "ll_store \<Rightarrow> nat \<Rightarrow> int" where
  "store_cur h = (\<lambda>a. if a < length h then ll_current (h ! a) else 0)"

text \<open>
  Running alone, a goroutine that asks a group of counters for a connection ends holding it
  exactly when \<open>limiterGroup_Allow\<close> grants it, with the counters that operation leaves.
\<close>

theorem race_alone_allow:
  assumes "g \<noteq> []" and "distinct g" and "set g \<subseteq> {..<length h}" and "ll_small g h"
  shows "\<exists>n. race_alone (\<lambda>a. ll_limit (h ! a)) g n (RTry [] g, store_cur h) =
    (if fst (limiterGroup_Allow g 1 h) then RHold else RIdle, store_cur (snd (limiterGroup_Allow g 1 h)))"
proof -
  let ?free = "\<forall>a\<in>set g. ll_current (h ! a) < ll_limit (h ! a)"
  have free: "(\<forall>a\<in>set g. store_cur h a < ll_limit (h ! a)) \<longleftrightarrow> ?free"
    using assms(3) by (auto simp: store_cur_def)
  have add: "cur_add (set g) 1 (store_cur h) = store_cur (ll_bump (set g) 1 h)"
    using assms(3) by (intro ext) (auto simp: cur_add_def store_cur_def limit_simps)
  have none: "cur_add (set []) (-1) (store_cur h) = store_cur h" by (simp add: cur_add_def)
  note run = race_alone_try [of "[]" g "\<lambda>a. ll_limit (h ! a)" g "store_cur h", unfolded free add none]
  note allow = limiterGroup_Allow_all [OF assms]
  show ?thesis
  proof (cases ?free)
    case True
    with allow have "limiterGroup_Allow g 1 h = (True, ll_bump (set g) 1 h)" by argo
    with run assms(2) True show ?thesis by simp
  next
    case False
    with allow have "limiterGroup_Allow g 1 h = (False, h)" by argo
    with run assms(2) False show ?thesis by auto
  qed
qed

theorem race_alone_allow_witness:
  "\<exists>n. race_alone (\<lambda>a. ll_limit (demo_store ! a)) [0, 1] n (RTry [] [0, 1], store_cur demo_store) =
    (RIdle, store_cur demo_store)"
proof -
  have a: "fst (limiterGroup_Allow [0, 1] 1 demo_store) = False"
    "snd (limiterGroup_Allow [0, 1] 1 demo_store) = demo_store" by code_simp+
  have "[0, 1] \<noteq> ([] :: nat list)" "distinct [0, 1 :: nat]" "set [0, 1] \<subseteq> {..<length demo_store}"
    "ll_small [0, 1] demo_store" by (simp_all add: demo_store_def ll_small_def)
  from race_alone_allow [OF this] show ?thesis unfolding a by simp
qed

end
