(* ===== verification/ThirdParty.thy ===== *)
theory ThirdParty
  imports Prelude
begin

text \<open>
  The interfaces of two third-party packages the traffic limiter is built on, as parameters of
  the model: the expiring cache \<open>github.com/patrickmn/go-cache\<close> and the token bucket
  \<open>golang.org/x/time/rate\<close>.  Each is a record of the operations the program calls, with a
  locale of the documented behaviour it relies on and a simple instance that meets it.
  Times are nanoseconds.
\<close>

section \<open>The expiring cache\<close>

text \<open>
  \<open>cache_get now k\<close>, \<open>cache_set now k v lifetime\<close> (no lifetime: \<open>NoExpiration\<close>), \<open>cache_items now\<close>
  the unexpired items.
\<close>

record ('c, 'v) cache_ops =
  cache_new :: 'c
  cache_get :: "int \<Rightarrow> string \<Rightarrow> 'c \<Rightarrow> 'v option"
  cache_set :: "int \<Rightarrow> string \<Rightarrow> 'v \<Rightarrow> int option \<Rightarrow> 'c \<Rightarrow> 'c"
  cache_delete :: "string \<Rightarrow> 'c \<Rightarrow> 'c"
  cache_flush :: "'c \<Rightarrow> 'c"
  cache_items :: "int \<Rightarrow> 'c \<Rightarrow> (string \<times> 'v) list"

locale expiring_cache =
  fixes C :: "('c, 'v) cache_ops"
  assumes get_new: "cache_get C now k (cache_new C) = None"
    and get_set: "cache_get C now k (cache_set C t j v d c) =
      (if k = j then (if (case d of None \<Rightarrow> True | Some d \<Rightarrow> now \<le> t + d) then Some v else None)
       else cache_get C now k c)"
    and get_delete: "cache_get C now k (cache_delete C j c) = (if k = j then None else cache_get C now k c)"
    and get_flush: "cache_get C now k (cache_flush C c) = None"
    and items_get: "(k, v) \<in> set (cache_items C now c) \<longleftrightarrow> cache_get C now k c = Some v"
begin

lemma get_set_forever: "cache_get C now k (cache_set C t k v None c) = Some v"
  by (simp add: get_set)

lemma get_set_now: "0 \<le> d \<Longrightarrow> cache_get C t k (cache_set C t k v (Some d) c) = Some v"
  by (simp add: get_set)

lemma get_set_other: "k \<noteq> j \<Longrightarrow> cache_get C now k (cache_set C t j v d c) = cache_get C now k c"
  by (simp add: get_set)

lemma items_flush: "cache_items C now (cache_flush C c) = []"
proof -
  have "\<not> (\<exists>kv. kv \<in> set (cache_items C now (cache_flush C c)))"
    using items_get get_flush by (metis option.distinct(1) surj_pair)
  then show ?thesis by (metis list.set_intros(1) neq_Nil_conv)
qed

end

text \<open>A list of keys, values and deadlines.\<close>

definition list_cache :: "((string \<times> 'v \<times> int option) list, 'v) cache_ops" where
  "list_cache =
     \<lparr>cache_new = [],
      cache_get = (\<lambda>now k c. case map_of c k of
          None \<Rightarrow> None
        | Some (v, None) \<Rightarrow> Some v
        | Some (v, Some e) \<Rightarrow> if now \<le> e then Some v else None),
      cache_set = (\<lambda>t k v d c. (k, v, map_option (\<lambda>d. t + d) d) # filter (\<lambda>x. fst x \<noteq> k) c),
      cache_delete = (\<lambda>k c. filter (\<lambda>x. fst x \<noteq> k) c),
      cache_flush = (\<lambda>c. []),
      cache_items = (\<lambda>now c. map (\<lambda>k. (k, fst (the (map_of c k))))
        (filter (\<lambda>k. case map_of c k of
            None \<Rightarrow> False | Some (v, None) \<Rightarrow> True | Some (v, Some e) \<Rightarrow> now \<le> e) (remdups (map fst c))))\<rparr>"

lemma map_of_filter_key: "map_of (filter (\<lambda>x. fst x \<noteq> j) c) k = (if k = j then None else map_of c k)"
  by (induction c) auto

interpretation list_cache: expiring_cache "list_cache :: ((string \<times> 'v \<times> int option) list, 'v) cache_ops"
proof (unfold_locales, goal_cases)
  case (1 now k)
  then show ?case by (simp add: list_cache_def)
next
  case (2 now k t j v d c)
  then show ?case
    by (cases d) (auto simp: list_cache_def map_of_filter_key)
next
  case (3 now k j c)
  then show ?case by (simp add: list_cache_def map_of_filter_key)
next
  case (4 now k c)
  then show ?case by (simp add: list_cache_def)
next
  case (5 k v now c)
  have "k \<in> set (map fst c) \<longleftrightarrow> map_of c k \<noteq> None" by (simp add: map_of_eq_None_iff)
  then show ?case
    by (auto simp: list_cache_def image_iff split: option.splits prod.splits)
qed

section \<open>The token bucket\<close>

text \<open>
  The observers and updates of a bucket.  \<open>rate_wait\<close> is \<open>WaitN\<close>, which blocks and takes
  tokens.  A rate is a number of bytes a second; Go keeps it as a float, which is exact
  below \<open>2\<^sup>5\<^sup>3\<close>.
\<close>

record 'l rate_ops =
  rate_new :: "int \<Rightarrow> int \<Rightarrow> 'l"
  rate_limit :: "'l \<Rightarrow> int"
  rate_burst :: "'l \<Rightarrow> int"
  rate_set_limit :: "int \<Rightarrow> 'l \<Rightarrow> 'l"
  rate_set_burst :: "int \<Rightarrow> 'l \<Rightarrow> 'l"
  rate_wait :: "int \<Rightarrow> 'l \<Rightarrow> 'l"

locale token_bucket =
  fixes B :: "'l rate_ops"
  assumes limit_new: "rate_limit B (rate_new B r b) = r"
    and burst_new: "rate_burst B (rate_new B r b) = b"
    and limit_set_limit: "rate_limit B (rate_set_limit B r l) = r"
    and burst_set_limit: "rate_burst B (rate_set_limit B r l) = rate_burst B l"
    and limit_set_burst: "rate_limit B (rate_set_burst B b l) = rate_limit B l"
    and burst_set_burst: "rate_burst B (rate_set_burst B b l) = b"
    and limit_wait: "rate_limit B (rate_wait B n l) = rate_limit B l"
    and burst_wait: "rate_burst B (rate_wait B n l) = rate_burst B l"
begin

lemmas bucket_simps = limit_new burst_new limit_set_limit burst_set_limit limit_set_burst
  burst_set_burst limit_wait burst_wait

end

definition pair_bucket :: "(int \<times> int) rate_ops" where
  "pair_bucket =
     \<lparr>rate_new = (\<lambda>r b. (r, b)), rate_limit = fst, rate_burst = snd,
      rate_set_limit = (\<lambda>r l. (r, snd l)), rate_set_burst = (\<lambda>b l. (fst l, b)),
      rate_wait = (\<lambda>n l. l)\<rparr>"

interpretation pair_bucket: token_bucket pair_bucket
  by unfold_locales (simp_all add: pair_bucket_def)

end
