(* ===== verification/Traffic.thy ===== *)
theory Traffic
  imports Cidr Reload ThirdParty "HOL-Library.AList"
begin

text \<open>
  The traffic limiter of \<open>limiter/traffic\<close>: byte-rate limiters for the whole service, for each
  connection and for each client address or network, in each direction.  Limiters are shared
  objects in a store (a list of token buckets); caches, buckets, the network trie and the
  size parser \<open>units.ParseBase2Bytes\<close> are third-party parameters \<open>C\<close>, \<open>B\<close>, \<open>R\<close> and \<open>P\<close> (which
  gives 0 for a malformed size).
\<close>

section \<open>Limiters\<close>

definition traffic_NewLimiter :: "'l rate_ops \<Rightarrow> int \<Rightarrow> 'l list \<Rightarrow> nat \<times> 'l list" where
  "traffic_NewLimiter B r h = (length h, h @ [rate_new B r r])"

definition traffic_Wait :: "'l rate_ops \<Rightarrow> nat \<Rightarrow> int \<Rightarrow> 'l list \<Rightarrow> int \<times> 'l list" where
  "traffic_Wait B a n h =
     (let n = (if rate_burst B (h ! a) < n then rate_burst B (h ! a) else n)
      in (n, h[a := rate_wait B n (h ! a)]))"

definition traffic_Limit :: "'l rate_ops \<Rightarrow> nat \<Rightarrow> 'l list \<Rightarrow> int" where
  "traffic_Limit B a h = rate_limit B (h ! a)"

definition traffic_Set :: "'l rate_ops \<Rightarrow> nat \<Rightarrow> int \<Rightarrow> 'l list \<Rightarrow> 'l list" where
  "traffic_Set B a n h = h[a := rate_set_burst B n (rate_set_limit B n (h ! a))]"

definition traffic_newLimiterGroup :: "'l rate_ops \<Rightarrow> 'l list \<Rightarrow> nat list \<Rightarrow> nat list" where
  "traffic_newLimiterGroup B h lims = sort_key (\<lambda>a. traffic_Limit B a h) lims"

fun traffic_group_Wait :: "'l rate_ops \<Rightarrow> nat list \<Rightarrow> int \<Rightarrow> 'l list \<Rightarrow> int \<times> 'l list" where
  "traffic_group_Wait B [] n h = (n, h)"
| "traffic_group_Wait B (a # as) n h =
     (case traffic_Wait B a n h of
        (v, h') \<Rightarrow> traffic_group_Wait B as (if v < n then v else n) h')"

definition traffic_group_Limit :: "'l rate_ops \<Rightarrow> nat list \<Rightarrow> 'l list \<Rightarrow> int" where
  "traffic_group_Limit B lims h = (if lims = [] then 0 else traffic_Limit B (hd lims) h)"

text \<open>A generator makes limiters of a direction's rate, or none.\<close>

record limitGenerator =
  lg_in :: int
  lg_out :: int

definition traffic_generate :: "'l rate_ops \<Rightarrow> int \<Rightarrow> 'l list \<Rightarrow> nat option \<times> 'l list" where
  "traffic_generate B r h =
     (if r \<le> 0 then (None, h) else (case traffic_NewLimiter B r h of (a, h') \<Rightarrow> (Some a, h')))"

definition limitGenerator_In :: "'l rate_ops \<Rightarrow> limitGenerator \<Rightarrow> 'l list \<Rightarrow> nat option \<times> 'l list" where
  "limitGenerator_In B p h = traffic_generate B (lg_in p) h"

definition limitGenerator_Out :: "'l rate_ops \<Rightarrow> limitGenerator \<Rightarrow> 'l list \<Rightarrow> nat option \<times> 'l list" where
  "limitGenerator_Out B p h = traffic_generate B (lg_out p) h"

section \<open>Options, state and loading\<close>

record traffic_options =
  to_limits :: "string list"
  to_fileLoader :: "loader option"
  to_redisLoader :: "loader option"
  to_httpLoader :: "loader option"
  to_period :: int

definition traffic_no_options :: traffic_options where
  "traffic_no_options =
     \<lparr>to_limits = [], to_fileLoader = None, to_redisLoader = None, to_httpLoader = None, to_period = 0\<rparr>"

definition traffic_LimitsOption :: "string list \<Rightarrow> traffic_options \<Rightarrow> traffic_options" where
  "traffic_LimitsOption ls opts = opts\<lparr>to_limits := ls\<rparr>"

definition traffic_ReloadPeriodOption :: "int \<Rightarrow> traffic_options \<Rightarrow> traffic_options" where
  "traffic_ReloadPeriodOption p opts = opts\<lparr>to_period := p\<rparr>"

definition traffic_FileLoaderOption :: "loader option \<Rightarrow> traffic_options \<Rightarrow> traffic_options" where
  "traffic_FileLoaderOption l opts = opts\<lparr>to_fileLoader := l\<rparr>"

definition traffic_RedisLoaderOption :: "loader option \<Rightarrow> traffic_options \<Rightarrow> traffic_options" where
  "traffic_RedisLoaderOption l opts = opts\<lparr>to_redisLoader := l\<rparr>"

definition traffic_HTTPLoaderOption :: "loader option \<Rightarrow> traffic_options \<Rightarrow> traffic_options" where
  "traffic_HTTPLoaderOption l opts = opts\<lparr>to_httpLoader := l\<rparr>"

record ('c, 'r) trafficLimiter =
  tf_generators :: "string \<rightharpoonup> limitGenerator"
  tf_cidrGenerators :: 'r
  tf_connInLimits :: 'c
  tf_connOutLimits :: 'c
  tf_inLimits :: 'c
  tf_outLimits :: 'c
  tf_options :: traffic_options

type_synonym limit_values = "(string \<times> (int \<times> int)) list"

definition traffic_parseLine :: "string \<Rightarrow> string" where
  "traffic_parseLine s = trim_space (cut_comment s)"

definition traffic_parsePatterns :: "string option \<Rightarrow> string list \<times> bool" where
  "traffic_parsePatterns r = scan_patterns traffic_parseLine r"

definition traffic_parseLimit :: "(string \<Rightarrow> int) \<Rightarrow> string \<Rightarrow> string \<times> int \<times> int" where
  "traffic_parseLimit P s =
     (let s = trim_space (tabs_to_blanks s)
      in if s = [] then ([], 0, 0)
         else let ss = filter (\<lambda>v. v \<noteq> []) (split_byte CHR '' '' s)
           in if length ss < 2 then ([], 0, 0)
              else (ss ! 0,
                    (if P (ss ! 1) > 0 then P (ss ! 1) else 0),
                    (if length ss > 2 \<and> P (ss ! 2) > 0 then P (ss ! 2) else 0)))"

text \<open>\<open>values[key] = limitValue{in: in, out: out}\<close> for every line with a key.\<close>

definition traffic_put :: "(string \<Rightarrow> int) \<Rightarrow> string list \<Rightarrow> limit_values \<Rightarrow> limit_values" where
  "traffic_put P ls vs =
     fold (\<lambda>s vs. case traffic_parseLimit P s of
        (key, i, out) \<Rightarrow> if key = [] then vs else AList.update key (i, out) vs) ls vs"

definition traffic_load :: "(string \<Rightarrow> int) \<Rightarrow> nat \<Rightarrow> traffic_options \<Rightarrow> limit_values" where
  "traffic_load P t opts =
     (let vs = traffic_put P (to_limits opts) [];
          vs = (case to_fileLoader opts of
                  None \<Rightarrow> vs
                | Some l \<Rightarrow>
                    (case as_Lister (l t) of
                       Some (list, er) \<Rightarrow> traffic_put P (map traffic_parseLine list) vs
                     | None \<Rightarrow> traffic_put P (map traffic_parseLine
                         (fst (traffic_parsePatterns (loader_Load (l t))))) vs));
          vs = (case to_redisLoader opts of
                  None \<Rightarrow> vs
                | Some l \<Rightarrow>
                    (case as_Lister (l t) of
                       Some (list, er) \<Rightarrow> traffic_put P (map traffic_parseLine list) vs
                     | None \<Rightarrow> traffic_put P (map traffic_parseLine
                         (fst (traffic_parsePatterns (loader_Load (l t))))) vs));
          vs = (case to_httpLoader opts of
                  None \<Rightarrow> vs
                | Some l \<Rightarrow> traffic_put P (map traffic_parseLine
                    (fst (traffic_parsePatterns (loader_Load (l t))))) vs)
      in vs)"

section \<open>The limiter of a client\<close>

abbreviation TrafficGlobalKey :: string where
  "TrafficGlobalKey \<equiv> ''$''"

abbreviation ConnLimitKey :: string where
  "ConnLimitKey \<equiv> ''$$''"

definition default_expiration :: int where
  "default_expiration = 15 * second"

text \<open>
  The network of an address: the trie answers with an error, so with nothing, for an address
  that does not parse.
\<close>

definition traffic_network ::
    "('r, limitGenerator) ranger_ops \<Rightarrow> 'r \<Rightarrow> string \<Rightarrow> limitGenerator option"
where
  "traffic_network R ranger host =
     (case parse_ip host of
        None \<Rightarrow> None
      | Some ip \<Rightarrow> (case rg_containing R ranger ip of [] \<Rightarrow> None | g # _ \<Rightarrow> Some g))"

text \<open>
  The body \<open>In\<close> and \<open>Out\<close> share, over the connection cache, the address cache and the rate of
  its direction: the service's limiter, the connection's (made on demand and kept alive for
  15 seconds), and the address's or its network's.
\<close>

definition traffic_lookup ::
    "('c, nat) cache_ops \<Rightarrow> 'l rate_ops \<Rightarrow> ('r, limitGenerator) ranger_ops \<Rightarrow>
     (limitGenerator \<Rightarrow> 'l list \<Rightarrow> nat option \<times> 'l list) \<Rightarrow> int \<Rightarrow> string \<Rightarrow>
     (string \<rightharpoonup> limitGenerator) \<Rightarrow> 'r \<Rightarrow> 'c \<times> 'c \<times> 'l list \<Rightarrow> nat list option \<times> 'c \<times> 'c \<times> 'l list"
where
  "traffic_lookup C B R gen now key generators ranger st =
     (case st of (connC, ipC, h) \<Rightarrow>
       let lims = (case cache_get C now TrafficGlobalKey ipC of Some a \<Rightarrow> [a] | None \<Rightarrow> []);
           (lims, connC, h) =
             (case cache_get C now key connC of
                Some a \<Rightarrow> (lims @ [a], cache_set C now key a (Some default_expiration) connC, h)
              | None \<Rightarrow>
                  (case generators ConnLimitKey of
                     None \<Rightarrow> (lims, connC, h)
                   | Some g \<Rightarrow>
                       (case gen g h of
                          (Some a, h') \<Rightarrow>
                            (lims @ [a], cache_set C now key a (Some default_expiration) connC, h')
                        | (None, h') \<Rightarrow> (lims, connC, h'))));
           host = host_of key;
           (lims, ipC, h) =
             (case cache_get C now host ipC of
                Some a \<Rightarrow> (lims @ [a], ipC, h)
              | None \<Rightarrow>
                  (case traffic_network R ranger host of
                     None \<Rightarrow> (lims, ipC, h)
                   | Some g \<Rightarrow>
                       (case gen g h of
                          (Some a, h') \<Rightarrow> (lims @ [a], cache_set C now host a None ipC, h')
                        | (None, h') \<Rightarrow> (lims, ipC, h'))))
       in (if lims = [] then None else Some (traffic_newLimiterGroup B h lims), connC, ipC, h))"

definition trafficLimiter_In ::
    "('c, nat) cache_ops \<Rightarrow> 'l rate_ops \<Rightarrow> ('r, limitGenerator) ranger_ops \<Rightarrow> int \<Rightarrow> string \<Rightarrow>
     ('c, 'r) trafficLimiter \<times> 'l list \<Rightarrow> nat list option \<times> ('c, 'r) trafficLimiter \<times> 'l list"
where
  "trafficLimiter_In C B R now key st =
     (case st of (l, h) \<Rightarrow>
       case traffic_lookup C B R (limitGenerator_In B) now key (tf_generators l) (tf_cidrGenerators l)
              (tf_connInLimits l, tf_inLimits l, h) of
         (lim, connC, ipC, h') \<Rightarrow> (lim, l\<lparr>tf_connInLimits := connC, tf_inLimits := ipC\<rparr>, h'))"

definition trafficLimiter_Out ::
    "('c, nat) cache_ops \<Rightarrow> 'l rate_ops \<Rightarrow> ('r, limitGenerator) ranger_ops \<Rightarrow> int \<Rightarrow> string \<Rightarrow>
     ('c, 'r) trafficLimiter \<times> 'l list \<Rightarrow> nat list option \<times> ('c, 'r) trafficLimiter \<times> 'l list"
where
  "trafficLimiter_Out C B R now key st =
     (case st of (l, h) \<Rightarrow>
       case traffic_lookup C B R (limitGenerator_Out B) now key (tf_generators l) (tf_cidrGenerators l)
              (tf_connOutLimits l, tf_outLimits l, h) of
         (lim, connC, ipC, h') \<Rightarrow> (lim, l\<lparr>tf_connOutLimits := connC, tf_outLimits := ipC\<rparr>, h'))"

section \<open>Reload\<close>

text \<open>
  The stages of \<open>reload\<close> for one direction.  First, a never expiring limiter of a key (the
  service's, or an address's) is set, made or deleted.
\<close>

definition traffic_install ::
    "('c, nat) cache_ops \<Rightarrow> 'l rate_ops \<Rightarrow> int \<Rightarrow> string \<Rightarrow> int \<Rightarrow> 'c \<times> 'l list \<Rightarrow> 'c \<times> 'l list"
where
  "traffic_install C B now key value st =
     (case st of (c, h) \<Rightarrow>
       case cache_get C now key c of
         Some a \<Rightarrow> if value \<le> 0 then (cache_delete C key c, h) else (c, traffic_Set B a value h)
       | None \<Rightarrow>
           if value > 0
           then (case traffic_NewLimiter B value h of (a, h') \<Rightarrow> (cache_set C now key a None c, h'))
           else (c, h))"

text \<open>
  Then the connection limiters: \<open>old\<close> is the rate of the generator before this reload, \<open>new\<close>
  the one just stored.  A changed rate makes the loop set every cached limiter to \<open>old\<close>.
\<close>

definition traffic_conn_stage ::
    "('c, nat) cache_ops \<Rightarrow> 'l rate_ops \<Rightarrow> int \<Rightarrow> int \<Rightarrow> int \<Rightarrow> 'c \<times> 'l list \<Rightarrow> 'c \<times> 'l list"
where
  "traffic_conn_stage C B now old new st =
     (case st of (c, h) \<Rightarrow>
       if new \<le> 0 then (cache_flush C c, h)
       else if old \<noteq> new then (c, fold (\<lambda>(k, a) h. traffic_Set B a old h) (cache_items C now c) h)
       else (c, h))"

text \<open>The loop over the address and network rules, with the snapshots of both caches.\<close>

record ('c, 'r, 'l) traffic_rules_state =
  tr_ranger :: 'r
  tr_in :: 'c
  tr_out :: 'c
  tr_inSnap :: "(string \<times> nat) list"
  tr_outSnap :: "(string \<times> nat) list"
  tr_store :: "'l list"

definition traffic_rule_step ::
    "('c, nat) cache_ops \<Rightarrow> 'l rate_ops \<Rightarrow> ('r, limitGenerator) ranger_ops \<Rightarrow> int \<Rightarrow>
     string \<times> int \<times> int \<Rightarrow> ('c, 'r, 'l) traffic_rules_state \<Rightarrow> ('c, 'r, 'l) traffic_rules_state"
where
  "traffic_rule_step C B R now kv s =
     (case kv of (key, i, out) \<Rightarrow>
       case parse_cidr key of
         Some net \<Rightarrow>
           s\<lparr>tr_ranger := rg_insert R net \<lparr>lg_in = i, lg_out = out\<rparr> (tr_ranger s)\<rparr>
       | None \<Rightarrow>
           let (inC, h) = traffic_install C B now key i (tr_in s, tr_store s);
               inSnap = (if cache_get C now key (tr_in s) \<noteq> None
                         then AList.delete key (tr_inSnap s) else tr_inSnap s);
               (outC, h) = traffic_install C B now key out (tr_out s, h);
               outSnap = (if cache_get C now key (tr_out s) \<noteq> None
                          then AList.delete key (tr_outSnap s) else tr_outSnap s)
           in s\<lparr>tr_in := inC, tr_out := outC, tr_inSnap := inSnap, tr_outSnap := outSnap, tr_store := h\<rparr>)"

text \<open>The last loop: a remaining limiter follows its network, or is removed.\<close>

definition traffic_clean_step ::
    "('c, nat) cache_ops \<Rightarrow> 'l rate_ops \<Rightarrow> ('r, limitGenerator) ranger_ops \<Rightarrow> (limitGenerator \<Rightarrow> int) \<Rightarrow>
     'r \<Rightarrow> string \<times> nat \<Rightarrow> 'c \<times> 'l list \<Rightarrow> 'c \<times> 'l list"
where
  "traffic_clean_step C B R rate ranger kv st =
     (case kv of (k, a) \<Rightarrow> case st of (c, h) \<Rightarrow>
       case traffic_network R ranger k of
         None \<Rightarrow> (cache_delete C k c, h)
       | Some le \<Rightarrow>
           if rate le \<le> 0 then (cache_delete C k c, h)
           else if traffic_Limit B a h \<noteq> rate le then (c, traffic_Set B a (rate le) h)
           else (c, h))"

definition traffic_value :: "limit_values \<Rightarrow> string \<Rightarrow> int \<times> int" where
  "traffic_value vs k = (case map_of vs k of None \<Rightarrow> (0, 0) | Some v \<Rightarrow> v)"

definition traffic_reload ::
    "('c, nat) cache_ops \<Rightarrow> 'l rate_ops \<Rightarrow> ('r, limitGenerator) ranger_ops \<Rightarrow> (string \<Rightarrow> int) \<Rightarrow>
     int \<Rightarrow> nat \<Rightarrow> ('c, 'r) trafficLimiter \<times> 'l list \<Rightarrow> ('c, 'r) trafficLimiter \<times> 'l list"
where
  "traffic_reload C B R P now t st =
     (case st of (l, h) \<Rightarrow>
       let values = traffic_load P t (tf_options l);
           value = traffic_value values TrafficGlobalKey;
           (inC, h) = traffic_install C B now TrafficGlobalKey (fst value) (tf_inLimits l, h);
           (outC, h) = traffic_install C B now TrafficGlobalKey (snd value) (tf_outLimits l, h);
           values = AList.delete TrafficGlobalKey values;
           value = traffic_value values ConnLimitKey;
           old = (case tf_generators l ConnLimitKey of None \<Rightarrow> (0, 0) | Some g \<Rightarrow> (lg_in g, lg_out g));
           generators = (tf_generators l)(ConnLimitKey \<mapsto> \<lparr>lg_in = fst value, lg_out = snd value\<rparr>);
           (connIn, h) = traffic_conn_stage C B now (fst old) (fst value) (tf_connInLimits l, h);
           (connOut, h) = traffic_conn_stage C B now (snd old) (snd value) (tf_connOutLimits l, h);
           values = AList.delete ConnLimitKey values;
           s = fold (traffic_rule_step C B R now) values
                 \<lparr>tr_ranger = rg_new R, tr_in = inC, tr_out = outC,
                  tr_inSnap = AList.delete TrafficGlobalKey (cache_items C now inC),
                  tr_outSnap = AList.delete TrafficGlobalKey (cache_items C now outC), tr_store = h\<rparr>;
           (inC, h) = fold (traffic_clean_step C B R lg_in (tr_ranger s)) (tr_inSnap s) (tr_in s, tr_store s);
           (outC, h) = fold (traffic_clean_step C B R lg_out (tr_ranger s)) (tr_outSnap s) (tr_out s, h)
       in (l\<lparr>tf_generators := generators, tf_cidrGenerators := tr_ranger s, tf_connInLimits := connIn,
             tf_connOutLimits := connOut, tf_inLimits := inC, tf_outLimits := outC\<rparr>, h))"

definition traffic_apply :: "(traffic_options \<Rightarrow> traffic_options) list \<Rightarrow> traffic_options" where
  "traffic_apply opts = foldl (\<lambda>acc opt. opt acc) traffic_no_options opts"

definition NewTrafficLimiter ::
    "('c, nat) cache_ops \<Rightarrow> 'l rate_ops \<Rightarrow> ('r, limitGenerator) ranger_ops \<Rightarrow> (string \<Rightarrow> int) \<Rightarrow>
     int \<Rightarrow> (traffic_options \<Rightarrow> traffic_options) list \<Rightarrow> 'l list \<Rightarrow>
     (('c, 'r) trafficLimiter \<times> 'l list) \<times> bool"
where
  "NewTrafficLimiter C B R P now opts h =
     (let options = traffic_apply opts;
          lim = \<lparr>tf_generators = Map.empty, tf_cidrGenerators = rg_new R,
                 tf_connInLimits = cache_new C, tf_connOutLimits = cache_new C,
                 tf_inLimits = cache_new C, tf_outLimits = cache_new C, tf_options = options\<rparr>
      in (traffic_reload C B R P now 0 (lim, h), to_period options > 0))"

text \<open>The period loop: every tick reloads at its time.\<close>

definition traffic_periodReload ::
    "('c, nat) cache_ops \<Rightarrow> 'l rate_ops \<Rightarrow> ('r, limitGenerator) ranger_ops \<Rightarrow> (string \<Rightarrow> int) \<Rightarrow>
     (nat \<Rightarrow> int) \<Rightarrow> nat \<Rightarrow> event list \<Rightarrow> ('c, 'r) trafficLimiter \<times> 'l list \<Rightarrow>
     int \<times> (('c, 'r) trafficLimiter \<times> 'l list) option"
where
  "traffic_periodReload C B R P clock t es st =
     (ticker_period (to_period (tf_options (fst st))),
      period_loop (\<lambda>t st. Some (traffic_reload C B R P (clock t) t st)) t es st)"

section \<open>Waiting\<close>

context token_bucket
begin

lemma wait_keeps: "rate_burst B (snd (traffic_Wait B a n h) ! b) = rate_burst B (h ! b)"
  by (cases "a < length h"; cases "a = b") (auto simp: traffic_Wait_def Let_def burst_wait list_update_beyond)

lemma wait_min: "fst (traffic_Wait B a n h) = min n (rate_burst B (h ! a))"
  by (simp add: traffic_Wait_def Let_def)

lemma group_wait_min:
  "fst (traffic_group_Wait B g n h) = Min (insert n ((\<lambda>a. rate_burst B (h ! a)) ` set g))"
proof (induction g arbitrary: n h)
  case Nil
  then show ?case by simp
next
  case (Cons a g)
  obtain v h1 where w: "traffic_Wait B a n h = (v, h1)" by fastforce
  then have v: "v = min n (rate_burst B (h ! a))" using wait_min [of a n h] by simp
  have h1: "rate_burst B (h1 ! b) = rate_burst B (h ! b)" for b using wait_keeps [of a n h b] w by simp
  have m: "(if v < n then v else n) = min n (rate_burst B (h ! a))" by (simp add: v)
  show ?case
    by (cases "g = []") (simp_all add: w m Cons.IH h1 min.assoc min.left_commute)
qed

lemma group_wait_keeps: "rate_burst B (snd (traffic_group_Wait B g n h) ! b) = rate_burst B (h ! b)"
proof (induction g arbitrary: n h)
  case (Cons a g)
  obtain v h1 where w: "traffic_Wait B a n h = (v, h1)" by fastforce
  then have "rate_burst B (h1 ! b) = rate_burst B (h ! b)" using wait_keeps [of a n h b] by simp
  with Cons.IH show ?case by (simp add: w)
qed simp

lemma group_wait_bounds:
  assumes "\<forall>a\<in>set g. m \<le> rate_burst B (h ! a)" and "m \<le> n"
  shows "m \<le> fst (traffic_group_Wait B g n h)" and "fst (traffic_group_Wait B g n h) \<le> n"
  using assms by (auto simp: group_wait_min)

lemma set_limit:
  "b < length h \<Longrightarrow> traffic_Limit B b (traffic_Set B a n h) = (if b = a then n else traffic_Limit B b h)"
  by (auto simp: traffic_Limit_def traffic_Set_def nth_list_update bucket_simps)

lemma set_all_limit:
  "b < length h \<Longrightarrow>
   traffic_Limit B b (fold (\<lambda>(k, a) h. traffic_Set B a n h) items h) =
     (if b \<in> snd ` set items then n else traffic_Limit B b h)"
proof (induction items arbitrary: h)
  case (Cons kv items)
  obtain k a where kv: "kv = (k, a)" by (cases kv)
  have len: "b < length (traffic_Set B a n h)" using Cons.prems by (simp add: traffic_Set_def)
  from Cons.IH [OF len] Cons.prems show ?case by (auto simp: kv set_limit)
qed simp

end

text \<open>
  A group of traffic limiters lets through the least of the bytes asked for and the members'
  burst sizes.
\<close>

theorem traffic_group_Wait_min:
  assumes "token_bucket B"
  shows "fst (traffic_group_Wait B g n h) = Min (insert n ((\<lambda>a. rate_burst B (h ! a)) ` set g))"
  using assms by (rule token_bucket.group_wait_min)

theorem traffic_group_Wait_min_witness:
  "fst (traffic_group_Wait pair_bucket [0, 1] 100 [(50, 50), (70, 70)]) = 50"
  using traffic_group_Wait_min [OF pair_bucket.token_bucket_axioms, of "[0, 1]" 100 "[(50, 50), (70, 70)]"]
  by (simp add: pair_bucket_def)

section \<open>Connection limiters\<close>

text \<open>
  A connection keeps its limiter: after a lookup that found or made one, lookups of the same
  connection in the next 15 seconds find the same.
\<close>

theorem traffic_conn_limiter_kept:
  assumes C: "expiring_cache C"
    and look: "traffic_lookup C B R gen now key gens ranger (connC, ipC, h) = (lim, connC', ipC', h')"
    and got: "cache_get C now key connC' = Some a"
    and soon: "now \<le> now'" "now' \<le> now + 15 * 1000000000"
  shows "cache_get C now' key connC' = Some a"
proof -
  note get_set = expiring_cache.get_set [OF C]
  have e: "default_expiration = 15000000000" by (simp add: default_expiration_def second_def)
  have "cache_get C now key connC' = Some b \<Longrightarrow> cache_get C now' key connC' = Some b" for b
  proof -
    assume b: "cache_get C now key connC' = Some b"
    consider c where "connC' = cache_set C now key b (Some default_expiration) c" | "connC' = connC"
      "cache_get C now key connC = None"
      using look b get_set
      by (auto simp: traffic_lookup_def Let_def e split: option.splits prod.splits)
    then show ?thesis
      using b soon by cases (simp_all add: get_set e)
  qed
  from this [OF got] show ?thesis .
qed

definition demo_gens :: "string \<rightharpoonup> limitGenerator" where
  "demo_gens = [ConnLimitKey \<mapsto> \<lparr>lg_in = 100, lg_out = 0\<rparr>]"

theorem traffic_conn_limiter_kept_witness:
  "\<exists>connC'. fst (snd (traffic_lookup list_cache pair_bucket list_ranger (limitGenerator_In pair_bucket) 0
       ''1.2.3.4:5'' demo_gens [] ([], [], []))) = connC' \<and>
     cache_get list_cache 15000000000 ''1.2.3.4:5'' connC' = Some 0"
proof -
  obtain lim connC' ipC' h' where
    l: "traffic_lookup list_cache pair_bucket list_ranger (limitGenerator_In pair_bucket) 0
       ''1.2.3.4:5'' demo_gens [] ([], [], []) = (lim, connC', ipC', h')" by (metis prod_cases4)
  have "cache_get list_cache 0 ''1.2.3.4:5'' (fst (snd (traffic_lookup list_cache pair_bucket list_ranger
       (limitGenerator_In pair_bucket) 0 ''1.2.3.4:5'' demo_gens [] ([], [], [])))) = Some 0"
    by code_simp
  then have "cache_get list_cache 0 ''1.2.3.4:5'' connC' = Some 0" by (simp add: l)
  from traffic_conn_limiter_kept [OF list_cache.expiring_cache_axioms l this, of 15000000000]
  show ?thesis by (simp add: l)
qed

text \<open>
  A reload that changes the rate of connections does not reach the connections that have a
  limiter: each keeps the rate of the rules before the reload.
\<close>

theorem traffic_reload_conn_stale:
  assumes C: "expiring_cache C" and B: "token_bucket B"
    and rules: "traffic_load P t (tf_options l) = [(ConnLimitKey, (new, out))]"
    and gen: "tf_generators l ConnLimitKey = Some \<lparr>lg_in = old, lg_out = out\<rparr>"
    and rates: "0 < new" "new \<noteq> old" "0 < out"
    and none: "cache_items C now (tf_inLimits l) = []" "cache_items C now (tf_outLimits l) = []"
    and conn: "cache_get C now k (tf_connInLimits l) = Some a" "a < length h"
    and reload: "traffic_reload C B R P now t (l, h) = (l', h')"
  shows "cache_get C now k (tf_connInLimits l') = Some a \<and> traffic_Limit B a h' = old \<and>
    tf_generators l' ConnLimitKey = Some \<lparr>lg_in = new, lg_out = out\<rparr>"
proof -
  have nil: "cache_get C now TrafficGlobalKey (tf_inLimits l) = None"
    "cache_get C now TrafficGlobalKey (tf_outLimits l) = None"
    using expiring_cache.items_get [OF C, of TrafficGlobalKey _ now] none
    by (metis empty_iff empty_set not_None_eq)+
  have stage: "traffic_conn_stage C B now old new (tf_connInLimits l, h) =
      (tf_connInLimits l, fold (\<lambda>(k, a) h. traffic_Set B a old h) (cache_items C now (tf_connInLimits l)) h)"
    "traffic_conn_stage C B now out out (c, g) = (c, g)" for c g
    using rates by (simp_all add: traffic_conn_stage_def)
  have l': "tf_generators l' = (tf_generators l)(ConnLimitKey \<mapsto> \<lparr>lg_in = new, lg_out = out\<rparr>)"
      "tf_connInLimits l' = tf_connInLimits l"
    and h': "h' = fold (\<lambda>(k, a) h. traffic_Set B a old h) (cache_items C now (tf_connInLimits l)) h"
    using reload by (auto simp: traffic_reload_def rules gen traffic_value_def traffic_install_def nil
        none stage Let_def)
  have "(k, a) \<in> set (cache_items C now (tf_connInLimits l))"
    using conn(1) expiring_cache.items_get [OF C] by simp
  then have "a \<in> snd ` set (cache_items C now (tf_connInLimits l))" by force
  then have "traffic_Limit B a h' = old"
    unfolding h' by (simp add: token_bucket.set_all_limit [OF B conn(2)])
  with conn(1) l' show ?thesis by simp
qed

text \<open>A connection limited to 100 bytes a second, and rules that now say 500.\<close>

definition demo_traffic :: "((string \<times> nat \<times> int option) list, (ipnet \<times> limitGenerator) list) trafficLimiter" where
  "demo_traffic =
     \<lparr>tf_generators = [ConnLimitKey \<mapsto> \<lparr>lg_in = 100, lg_out = 100\<rparr>], tf_cidrGenerators = [],
      tf_connInLimits = [(''1.2.3.4:5'', 0, None)], tf_connOutLimits = [], tf_inLimits = [],
      tf_outLimits = [], tf_options = traffic_apply [traffic_LimitsOption [''$$ 500 100'']]\<rparr>"

theorem traffic_reload_conn_stale_witness:
  "traffic_Limit pair_bucket 0
     (snd (traffic_reload list_cache pair_bucket list_ranger atoi 0 1 (demo_traffic, [(100, 100)]))) = 100"
proof -
  have a: "traffic_load atoi 1 (tf_options demo_traffic) = [(ConnLimitKey, (500, 100))]"
    "cache_items list_cache 0 (tf_inLimits demo_traffic) = []"
    "cache_items list_cache 0 (tf_outLimits demo_traffic) = []"
    "cache_get list_cache 0 ''1.2.3.4:5'' (tf_connInLimits demo_traffic) = Some 0"
    by code_simp+
  have g: "tf_generators demo_traffic ConnLimitKey = Some \<lparr>lg_in = 100, lg_out = 100\<rparr>"
    by (simp add: demo_traffic_def)
  obtain l' h' where r: "traffic_reload list_cache pair_bucket list_ranger atoi 0 1
      (demo_traffic, [(100, 100)]) = (l', h')" by fastforce
  from traffic_reload_conn_stale [OF list_cache.expiring_cache_axioms pair_bucket.token_bucket_axioms
      a(1) g _ _ _ a(2,3,4) _ r] show ?thesis by (simp add: r del: One_nat_def)
qed

end
