(* ===== verification/TrafficConn.thy ===== *)
theory TrafficConn
  imports Traffic Admission
begin

text \<open>
  The connection wrappers of \<open>limiter/traffic/wrapper/conn.go\<close>: stream reads that deliver no
  more than the limiter grants and keep the rest in a buffer, stream writes in granted
  pieces, and packet operations that discard what the limiter does not grant whole.

  A limiter is a group of buckets in the store \<open>h\<close>; \<open>None\<close> is a nil limiter.  The limiter
  lookups of the wrapped \<open>TrafficLimiter\<close> are a function on its state \<open>'w\<close>.
\<close>

section \<open>Stream connections\<close>

text \<open>The cache of a stream: the limiter and the time it was looked up, kept for a second.\<close>

definition traffic_getLimiter ::
    "(int \<Rightarrow> 'w \<Rightarrow> nat list option \<times> 'w) \<Rightarrow> int \<Rightarrow> (nat list option \<times> int) \<times> 'w \<Rightarrow>
     nat list option \<times> (nat list option \<times> int) \<times> 'w"
where
  "traffic_getLimiter look now st =
     (case st of ((lim, exp), w) \<Rightarrow>
       if now - exp > second then (case look now w of (lim', w') \<Rightarrow> (lim', (lim', now), w'))
       else (lim, (lim, exp), w))"

text \<open>
  The inner stream as the chunks it will deliver: a read gets at most \<open>cap\<close> bytes of the
  first, and the end of the stream when there is none.
\<close>

fun chunk_read :: "nat \<Rightarrow> byte list list \<Rightarrow> (byte list \<times> bool) \<times> byte list list" where
  "chunk_read cap [] = (([], True), [])"
| "chunk_read cap (c # cs) =
     (if length c \<le> cap then ((c, False), cs) else ((take cap c, False), drop cap c # cs))"

text \<open>
  \<open>Read\<close> with a destination of \<open>cap\<close> bytes: the bytes delivered and whether there was an error,
  then the buffer, the inner stream and the store.
\<close>

definition traffic_conn_Read ::
    "'l rate_ops \<Rightarrow> (nat \<Rightarrow> 's \<Rightarrow> (byte list \<times> bool) \<times> 's) \<Rightarrow> nat list option \<Rightarrow> nat \<Rightarrow>
     byte list \<times> 's \<times> 'l list \<Rightarrow> (byte list \<times> bool) \<times> byte list \<times> 's \<times> 'l list"
where
  "traffic_conn_Read B rd lim cap st =
     (case st of (rbuf, s, h) \<Rightarrow>
       case lim of
         None \<Rightarrow> (case rd cap s of (r, s') \<Rightarrow> (r, rbuf, s', h))
       | Some g \<Rightarrow>
           if length rbuf > 0
           then (let burst = (if length rbuf < cap then length rbuf else cap)
                 in case traffic_group_Wait B g (int burst) h of
                      (n, h') \<Rightarrow> ((take (nat n) rbuf, False), drop (nat n) rbuf, s, h'))
           else (case rd cap s of
                   ((b, True), s') \<Rightarrow> ((b, True), rbuf, s', h)
                 | ((b, False), s') \<Rightarrow>
                     (case traffic_group_Wait B g (int (length b)) h of
                        (n, h') \<Rightarrow>
                          if n < int (length b)
                          then ((take (nat n) b, False), rbuf @ drop (nat n) b, s', h')
                          else ((take (nat n) b, False), rbuf, s', h'))))"

text \<open>
  \<open>Write\<close>: the loop that writes granted pieces until nothing is left, with fuel, since it does
  not end when the limiter grants nothing.  The inner writer gives the number of bytes it
  took and whether it failed.
\<close>

fun traffic_conn_Write_loop ::
    "'l rate_ops \<Rightarrow> (byte list \<Rightarrow> 's \<Rightarrow> (nat \<times> bool) \<times> 's) \<Rightarrow> nat list \<Rightarrow> nat \<Rightarrow> byte list \<Rightarrow> nat \<Rightarrow>
     's \<times> 'l list \<Rightarrow> ((nat \<times> bool) \<times> 's \<times> 'l list) option"
where
  "traffic_conn_Write_loop B wr g 0 b n st = (if b = [] then Some ((n, False), st) else None)"
| "traffic_conn_Write_loop B wr g (Suc fuel) b n st =
     (if b = [] then Some ((n, False), st)
      else case st of (s, h) \<Rightarrow>
        case traffic_group_Wait B g (int (length b)) h of
          (v, h') \<Rightarrow>
            (case wr (take (nat v) b) s of
               ((nn, True), s') \<Rightarrow> Some ((n + nn, True), (s', h'))
             | ((nn, False), s') \<Rightarrow>
                 traffic_conn_Write_loop B wr g fuel (drop nn b) (n + nn) (s', h')))"

definition traffic_conn_Write ::
    "'l rate_ops \<Rightarrow> (byte list \<Rightarrow> 's \<Rightarrow> (nat \<times> bool) \<times> 's) \<Rightarrow> nat list option \<Rightarrow> nat \<Rightarrow> byte list \<Rightarrow>
     's \<times> 'l list \<Rightarrow> ((nat \<times> bool) \<times> 's \<times> 'l list) option"
where
  "traffic_conn_Write B wr lim fuel b st =
     (case lim of
        None \<Rightarrow> (case st of (s, h) \<Rightarrow> (case wr b s of (r, s') \<Rightarrow> Some (r, (s', h))))
      | Some g \<Rightarrow> traffic_conn_Write_loop B wr g fuel b 0 st)"

section \<open>Packet connections\<close>

text \<open>The cache of limiters by address, for a second each.\<close>

definition traffic_packet_getLimiter ::
    "('c, nat list option) cache_ops \<Rightarrow> (string \<Rightarrow> 'w \<Rightarrow> nat list option \<times> 'w) \<Rightarrow> int \<Rightarrow> string \<Rightarrow>
     'c \<times> 'w \<Rightarrow> nat list option \<times> 'c \<times> 'w"
where
  "traffic_packet_getLimiter C look now addr st =
     (case st of (c, w) \<Rightarrow>
       case cache_get C now addr c of
         Some lim \<Rightarrow> (lim, c, w)
       | None \<Rightarrow> (case look addr w of (lim, w') \<Rightarrow> (lim, cache_set C now addr lim (Some second) c, w')))"

text \<open>
  The read loop over the results of the inner socket; \<open>now\<close> stands for the time of the call.
  The result is the one returned, with those still to come; \<open>None\<close> when there is no more.
\<close>

fun traffic_packet_ReadFrom ::
    "('c, nat list option) cache_ops \<Rightarrow> 'l rate_ops \<Rightarrow> (string \<Rightarrow> 'w \<Rightarrow> nat list option \<times> 'w) \<Rightarrow> int \<Rightarrow>
     datagram list \<Rightarrow> ('c \<times> 'w) \<times> 'l list \<Rightarrow> (datagram \<times> datagram list \<times> ('c \<times> 'w) \<times> 'l list) option"
where
  "traffic_packet_ReadFrom C B look now [] st = None"
| "traffic_packet_ReadFrom C B look now (Inl e # ds) st = Some (Inl e, ds, st)"
| "traffic_packet_ReadFrom C B look now (Inr (b, addr) # ds) st =
     (case st of (cw, h) \<Rightarrow>
       case traffic_packet_getLimiter C look now addr cw of
         (None, cw') \<Rightarrow> Some (Inr (b, addr), ds, cw', h)
       | (Some g, cw') \<Rightarrow>
           (case traffic_group_Wait B g (int (length b)) h of
              (v, h') \<Rightarrow>
                if v < int (length b) then traffic_packet_ReadFrom C B look now ds (cw', h')
                else Some (Inr (b, addr), ds, cw', h')))"

text \<open>
  \<open>WriteTo\<close>: the number of bytes reported and the datagrams handed to the inner socket.
\<close>

definition traffic_packet_WriteTo ::
    "('c, nat list option) cache_ops \<Rightarrow> 'l rate_ops \<Rightarrow> (string \<Rightarrow> 'w \<Rightarrow> nat list option \<times> 'w) \<Rightarrow> int \<Rightarrow>
     byte list \<Rightarrow> string \<Rightarrow> ('c \<times> 'w) \<times> 'l list \<Rightarrow> nat \<times> (byte list \<times> string) list \<times> ('c \<times> 'w) \<times> 'l list"
where
  "traffic_packet_WriteTo C B look now p addr st =
     (case st of (cw, h) \<Rightarrow>
       case traffic_packet_getLimiter C look now addr cw of
         (None, cw') \<Rightarrow> (length p, [(p, addr)], cw', h)
       | (Some g, cw') \<Rightarrow>
           (case traffic_group_Wait B g (int (length p)) h of
              (v, h') \<Rightarrow>
                if v < int (length p) then (length p, [], cw', h')
                else (length p, [(p, addr)], cw', h')))"

text \<open>The same operations of \<open>udpConn\<close>, which ask the inner connection for the UDP variants.\<close>

definition traffic_udp_ReadFromUDP ::
    "('c, nat list option) cache_ops \<Rightarrow> 'l rate_ops \<Rightarrow> (string \<Rightarrow> 'w \<Rightarrow> nat list option \<times> 'w) \<Rightarrow> int \<Rightarrow>
     bool \<Rightarrow> datagram list \<Rightarrow> ('c \<times> 'w) \<times> 'l list \<Rightarrow> (datagram \<times> datagram list \<times> ('c \<times> 'w) \<times> 'l list) option"
where
  "traffic_udp_ReadFromUDP C B look now readUDP ds st =
     (if readUDP then traffic_packet_ReadFrom C B look now ds st else Some (Inl ErrUnsupport, ds, st))"

definition traffic_udp_WriteToUDP ::
    "('c, nat list option) cache_ops \<Rightarrow> 'l rate_ops \<Rightarrow> (string \<Rightarrow> 'w \<Rightarrow> nat list option \<times> 'w) \<Rightarrow> int \<Rightarrow>
     bool \<Rightarrow> byte list \<Rightarrow> string \<Rightarrow> ('c \<times> 'w) \<times> 'l list \<Rightarrow>
     (io_error + nat) \<times> (byte list \<times> string) list \<times> ('c \<times> 'w) \<times> 'l list"
where
  "traffic_udp_WriteToUDP C B look now writeUDP p addr st =
     (case traffic_packet_WriteTo C B look now p addr st of
        (n, out, st') \<Rightarrow>
          if out = [] then (Inr n, [], st')
          else if writeUDP then (Inr n, out, st') else (Inl ErrUnsupport, [], st'))"

section \<open>No byte is lost\<close>

text \<open>Reads one after another, each with its limiter and destination; they stop at an error.\<close>

fun traffic_reads ::
    "'l rate_ops \<Rightarrow> (nat list option \<times> nat) list \<Rightarrow> byte list \<times> byte list list \<times> 'l list \<Rightarrow>
     byte list \<times> byte list \<times> byte list list \<times> 'l list"
where
  "traffic_reads B [] st = ([], st)"
| "traffic_reads B ((lim, cap) # calls) st =
     (case traffic_conn_Read B chunk_read lim cap st of
        ((b, True), st') \<Rightarrow> (b, st')
      | ((b, False), st') \<Rightarrow> (case traffic_reads B calls st' of (bs, st'') \<Rightarrow> (b @ bs, st'')))"

lemma chunk_read_bytes: "chunk_read cap cs = ((b, e), cs') \<Longrightarrow> b @ concat cs' = concat cs"
  by (cases "(cap, cs)" rule: chunk_read.cases) (auto split: if_splits)

lemma traffic_conn_Read_bytes:
  assumes "traffic_conn_Read B chunk_read (Some g) cap (rbuf, cs, h) = ((b, e), rbuf', cs', h')"
  shows "b @ rbuf' @ concat cs' = rbuf @ concat cs"
proof (cases "rbuf = []")
  case False
  with assms show ?thesis
    by (auto simp: traffic_conn_Read_def Let_def split: prod.splits)
next
  case True
  obtain c e' cs1 where rd: "chunk_read cap cs = ((c, e'), cs1)" by (metis prod.collapse)
  from chunk_read_bytes [OF rd] assms True rd show ?thesis
    by (cases e') (auto simp: traffic_conn_Read_def simp flip: append_assoc split: prod.splits if_splits)
qed

text \<open>
  C4. While a stream has a limiter, whatever the limiters grant, the bytes delivered, the bytes
  buffered and the bytes still to come are the stream's bytes, in order.
\<close>

theorem traffic_reads_lossless:
  assumes "\<forall>c\<in>set calls. fst c \<noteq> None"
    and "traffic_reads B calls (rbuf, cs, h) = (b, rbuf', cs', h')"
  shows "b @ rbuf' @ concat cs' = rbuf @ concat cs"
  using assms
proof (induction calls arbitrary: rbuf cs h b)
  case Nil
  then show ?case by simp
next
  case (Cons call calls)
  then obtain g cap where call: "call = (Some g, cap)" by (cases call) auto
  obtain b1 e r1 cs1 h1 where rd: "traffic_conn_Read B chunk_read (Some g) cap (rbuf, cs, h) = ((b1, e), r1, cs1, h1)"
    by (metis prod.collapse)
  note step = traffic_conn_Read_bytes [OF rd]
  show ?case
  proof (cases e)
    case True
    with Cons.prems rd step show ?thesis by (simp add: call)
  next
    case False
    then obtain bs where "traffic_reads B calls (r1, cs1, h1) = (bs, rbuf', cs', h')" "b = b1 @ bs"
      using Cons.prems rd by (auto simp: call split: prod.splits)
    with Cons.IH [of r1 cs1 h1 bs] Cons.prems step show ?thesis by auto
  qed
qed

theorem traffic_reads_lossless_witness:
  "\<exists>b rbuf' cs' h'. traffic_reads pair_bucket [(Some [0], 10), (Some [0], 10)] ([], [[1, 2, 3, 4, 5], [6]], [(2, 2)]) =
     (b, rbuf', cs', h') \<and> b = [1, 2, 3, 4] \<and> b @ rbuf' @ concat cs' = [1, 2, 3, 4, 5, 6]"
proof -
  obtain b r cs h where
    r: "traffic_reads pair_bucket [(Some [0], 10), (Some [0], 10)] ([], [[1, 2, 3, 4, 5], [6]], [(2, 2)]) =
      (b, r, cs, h)" by (metis prod.collapse)
  have "fst (traffic_reads pair_bucket [(Some [0], 10), (Some [0], 10)] ([], [[1, 2, 3, 4, 5], [6]], [(2, 2)])) =
      [1, 2, 3, 4]" by code_simp
  with r traffic_reads_lossless [OF _ r] show ?thesis by simp
qed

text \<open>
  When a stream loses its limiter while bytes wait in its buffer, reads pass the buffer by: they
  deliver the later bytes of the stream, and the buffer stays as it is.
\<close>

theorem traffic_read_skips_buffer:
  assumes "traffic_conn_Read B chunk_read None cap (rbuf, cs, h) = ((b, e), rbuf', cs', h')"
  shows "rbuf' = rbuf \<and> b @ concat cs' = concat cs"
  using assms chunk_read_bytes by (auto simp: traffic_conn_Read_def split: prod.splits)

theorem traffic_read_skips_buffer_witness:
  "\<exists>b rbuf' cs' h'. traffic_conn_Read pair_bucket chunk_read None 10 ([3, 4, 5], [[6]], [(2, 2)]) =
     ((b, False), rbuf', cs', h') \<and> rbuf' = [3, 4, 5] \<and> b = [6]"
proof -
  have r: "traffic_conn_Read pair_bucket chunk_read None 10 ([3, 4, 5], [[6]], [(2, 2)]) =
      (([6], False), [3, 4, 5], [], [(2, 2)])" by (simp add: traffic_conn_Read_def)
  from traffic_read_skips_buffer [OF r] r show ?thesis by blast
qed

section \<open>Writes end\<close>

text \<open>An inner writer that takes all it is given, as the contract of \<open>io.Writer\<close> asks for.\<close>

definition log_write :: "byte list \<Rightarrow> byte list \<Rightarrow> (nat \<times> bool) \<times> byte list" where
  "log_write b s = ((length b, False), s @ b)"

lemma traffic_conn_Write_loop_all:
  assumes B: "token_bucket B"
  shows "\<forall>a\<in>set g. 1 \<le> rate_burst B (h ! a) \<Longrightarrow> length b \<le> fuel \<Longrightarrow>
    \<exists>h'. traffic_conn_Write_loop B log_write g fuel b n (s, h) = Some ((n + length b, False), (s @ b, h'))"
proof (induction fuel arbitrary: b n s h)
  case 0
  then show ?case by simp
next
  case (Suc fuel)
  show ?case
  proof (cases "b = []")
    case True
    then show ?thesis by simp
  next
    case False
    obtain v h1 where w: "traffic_group_Wait B g (int (length b)) h = (v, h1)" by fastforce
    have v: "1 \<le> v" "v \<le> int (length b)"
      using token_bucket.group_wait_bounds [OF B Suc.prems(1), of "int (length b)"] False w
      by (cases b; simp)+
    have "\<forall>a\<in>set g. 1 \<le> rate_burst B (h1 ! a)"
      using token_bucket.group_wait_keeps [OF B, of g "int (length b)" h] w Suc.prems(1) by simp
    moreover have "length (drop (nat v) b) \<le> fuel" using v Suc.prems(2) by simp
    ultimately obtain h' where
      "traffic_conn_Write_loop B log_write g fuel (drop (nat v) b) (n + nat v) (s @ take (nat v) b, h1) =
        Some ((n + nat v + length (drop (nat v) b), False), ((s @ take (nat v) b) @ drop (nat v) b, h'))"
      using Suc.IH [of h1 "drop (nat v) b" "n + nat v" "s @ take (nat v) b"] by blast
    moreover have "log_write (take (nat v) b) s = ((nat v, False), s @ take (nat v) b)"
      using v by (simp add: log_write_def)
    ultimately show ?thesis using False v w by simp
  qed
qed

text \<open>
  If every bucket of the group lets something through, a limited write ends, reports the whole
  length and has handed exactly the bytes to the inner connection; as many rounds as there
  are bytes are enough.
\<close>

theorem traffic_conn_Write_all:
  assumes "token_bucket B" and "\<forall>a\<in>set g. 1 \<le> rate_burst B (h ! a)" and "length b \<le> fuel"
  shows "\<exists>h'. traffic_conn_Write B log_write (Some g) fuel b (s, h) = Some ((length b, False), (s @ b, h'))"
  using traffic_conn_Write_loop_all [OF assms, of 0 s] by (simp add: traffic_conn_Write_def)

theorem traffic_conn_Write_all_witness:
  "\<exists>h'. traffic_conn_Write pair_bucket log_write (Some [0]) 5 [1, 2, 3, 4, 5] ([9], [(2, 2)]) =
     Some ((length [1, 2, 3, 4, 5 :: byte], False), ([9, 1, 2, 3, 4, 5], h'))"
  using traffic_conn_Write_all [OF pair_bucket.token_bucket_axioms, of "[0]" "[(2, 2)]" "[1, 2, 3, 4, 5]" 5 "[9]"]
  by (simp add: pair_bucket_def del: One_nat_def)

lemma traffic_conn_Write_loop_stuck:
  assumes B: "token_bucket B"
  shows "a \<in> set g \<Longrightarrow> rate_burst B (h ! a) = 0 \<Longrightarrow> \<forall>a\<in>set g. 0 \<le> rate_burst B (h ! a) \<Longrightarrow> b \<noteq> [] \<Longrightarrow>
    traffic_conn_Write_loop B log_write g fuel b n (s, h) = None"
proof (induction fuel arbitrary: n s h)
  case 0
  then show ?case by simp
next
  case (Suc fuel)
  obtain v h1 where w: "traffic_group_Wait B g (int (length b)) h = (v, h1)" by fastforce
  have "0 \<le> v"
    using token_bucket.group_wait_bounds [OF B Suc.prems(3), of "int (length b)"] w by simp
  moreover have "v \<le> 0"
    using token_bucket.group_wait_min [OF B, of g "int (length b)" h] w Suc.prems(1,2)
    by (auto intro: Min_le simp flip: Suc.prems(2))
  ultimately have v: "v = 0" by simp
  have "rate_burst B (h1 ! c) = rate_burst B (h ! c)" for c
    using token_bucket.group_wait_keeps [OF B, of g "int (length b)" h] w by simp
  with Suc show ?case by (simp add: w v log_write_def)
qed

text \<open>
  If a bucket of the group has no burst at all, a limited write of any bytes never ends.
\<close>

theorem traffic_conn_Write_stuck:
  assumes "token_bucket B" and "a \<in> set g" and "rate_burst B (h ! a) = 0"
    and "\<forall>a\<in>set g. 0 \<le> rate_burst B (h ! a)" and "b \<noteq> []"
  shows "\<nexists>fuel r. traffic_conn_Write B log_write (Some g) fuel b (s, h) = Some r"
  using traffic_conn_Write_loop_stuck [OF assms] by (simp add: traffic_conn_Write_def)

theorem traffic_conn_Write_stuck_witness:
  "\<nexists>fuel r. traffic_conn_Write pair_bucket log_write (Some [0]) fuel [1] ([], [(0, 0)]) = Some r"
  by (rule traffic_conn_Write_stuck [OF pair_bucket.token_bucket_axioms, of 0]) (simp_all add: pair_bucket_def)

section \<open>Packets\<close>

text \<open>
  A limited packet write is whole or nothing: the datagram is handed on unless a bucket's burst is
  smaller than it, and is dropped otherwise; either way its full length is reported.
\<close>

theorem traffic_packet_WriteTo_all_or_nothing:
  assumes "token_bucket B"
    and "traffic_packet_getLimiter C look now addr cw = (lim, cw')"
    and "traffic_packet_WriteTo C B look now p addr (cw, h) = (n, out, cw'', h')"
  shows "n = length p \<and>
    out = (case lim of
             None \<Rightarrow> [(p, addr)]
           | Some g \<Rightarrow> if \<exists>a\<in>set g. rate_burst B (h ! a) < int (length p) then [] else [(p, addr)])"
proof (cases lim)
  case None
  with assms(2,3) show ?thesis by (auto simp: traffic_packet_WriteTo_def)
next
  case (Some g)
  have "fst (traffic_group_Wait B g (int (length p)) h) < int (length p) \<longleftrightarrow>
      (\<exists>a\<in>set g. rate_burst B (h ! a) < int (length p))"
    by (simp add: token_bucket.group_wait_min [OF assms(1)] Min_less_iff)
  with Some assms(2,3) show ?thesis
    by (auto simp: traffic_packet_WriteTo_def split: prod.splits if_splits)
qed

theorem traffic_packet_WriteTo_witness:
  "fst (traffic_packet_WriteTo list_cache pair_bucket (\<lambda>addr w. (Some [0], w)) 0 [1, 2, 3] ''1.2.3.4:5''
     (([], ()), [(2, 2)])) = length [1, 2, 3 :: byte] \<and>
   fst (snd (traffic_packet_WriteTo list_cache pair_bucket (\<lambda>addr w. (Some [0], w)) 0 [1, 2, 3] ''1.2.3.4:5''
     (([], ()), [(2, 2)]))) = []"
proof -
  obtain lim cw' where l: "traffic_packet_getLimiter list_cache (\<lambda>addr w. (Some [0], w)) 0 ''1.2.3.4:5'' ([], ()) =
      (lim, cw')" by (rule prod.exhaust)
  have lim: "lim = Some [0]"
    using l by (auto simp: traffic_packet_getLimiter_def list_cache_def)
  obtain n out cw'' h' where w: "traffic_packet_WriteTo list_cache pair_bucket (\<lambda>addr w. (Some [0], w)) 0 [1, 2, 3]
      ''1.2.3.4:5'' (([], ()), [(2, 2)]) = (n, out, cw'', h')" by (metis prod_cases4)
  from traffic_packet_WriteTo_all_or_nothing [OF pair_bucket.token_bucket_axioms l w] show ?thesis
    unfolding w by (simp add: lim pair_bucket_def)
qed

end
