(* ===== verification/Selector.thy ===== *)
theory Selector
  imports Prelude "HOL-Library.Multiset"
begin

text \<open>
  The selectors of \<open>selector\<close>: filters that drop dead and backup objects, strategies that pick
  one of the rest, and the default selector that composes them.  The objects are generic;
  what the code asks of them through \<open>Metadatable\<close> and \<open>Markable\<close> is the record \<open>sel_view\<close>, and
  the random source and the checksum are parameters.  Times are nanoseconds.
\<close>

section \<open>Filters\<close>

text \<open>
  The labels of an object's metadata (\<open>None\<close> where \<open>IsExists\<close> is false) and its fail marker: the
  count and the time of the latest failure.
\<close>

record 'a sel_view =
  sv_maxFails :: "'a \<Rightarrow> int option"
  sv_failTimeout :: "'a \<Rightarrow> int option"
  sv_backup :: "'a \<Rightarrow> bool"
  sv_weight :: "'a \<Rightarrow> int"
  sv_marker :: "'a \<Rightarrow> (int \<times> int) option"

definition default_fail_timeout :: int where
  "default_fail_timeout = 10 * 1000000000"

text \<open>The body of the loop of \<open>failFilter.Filter\<close>: whether the object is kept.\<close>

definition fail_alive :: "'a sel_view \<Rightarrow> int \<Rightarrow> int \<Rightarrow> int \<Rightarrow> 'a \<Rightarrow> bool" where
  "fail_alive V maxFails failTimeout now v =
     (let maxFails = (case sv_maxFails V v of Some m \<Rightarrow> m | None \<Rightarrow> maxFails);
          failTimeout = (case sv_failTimeout V v of Some t \<Rightarrow> t | None \<Rightarrow> failTimeout);
          maxFails = (if maxFails \<le> 0 then 1 else maxFails);
          failTimeout = (if failTimeout \<le> 0 then default_fail_timeout else failTimeout)
      in case sv_marker V v of
           None \<Rightarrow> True
         | Some (n, time) \<Rightarrow> n < maxFails \<or> now - time \<ge> failTimeout)"

definition failFilter_Filter :: "'a sel_view \<Rightarrow> int \<Rightarrow> int \<Rightarrow> int \<Rightarrow> 'a list \<Rightarrow> 'a list" where
  "failFilter_Filter V maxFails failTimeout now vs =
     (if length vs \<le> 1 then vs else filter (fail_alive V maxFails failTimeout now) vs)"

definition backupFilter_Filter :: "'a sel_view \<Rightarrow> 'a list \<Rightarrow> 'a list" where
  "backupFilter_Filter V vs =
     (if length vs \<le> 1 then vs
      else let l = filter (\<lambda>v. \<not> sv_backup V v) vs; backups = filter (sv_backup V) vs
           in if length l = 0 then backups else l)"

section \<open>Strategies\<close>

text \<open>\<open>None\<close> is the zero value, which the callers read as no object.\<close>

definition roundRobin_Apply :: "uint64 \<Rightarrow> 'a list \<Rightarrow> 'a option \<times> uint64" where
  "roundRobin_Apply counter vs =
     (if length vs = 0 then (None, counter)
      else let counter' = counter + 1; n = counter' - 1
           in (Some (vs ! (unat n mod length vs)), counter'))"

definition fifo_Apply :: "'a list \<Rightarrow> 'a option" where
  "fifo_Apply vs = (if length vs = 0 then None else Some (vs ! 0))"

text \<open>\<open>source\<close> is the hash source of the context; \<open>rnd g n\<close> is \<open>rand.Intn(n)\<close>.\<close>

definition hash_Apply ::
    "(string \<Rightarrow> uint32) \<Rightarrow> ('g \<Rightarrow> int \<Rightarrow> int \<times> 'g) \<Rightarrow> string option \<Rightarrow> 'g \<Rightarrow> 'a list \<Rightarrow> 'a option \<times> 'g"
where
  "hash_Apply crc rnd source g vs =
     (if length vs = 0 then (None, g)
      else case source of
        Some s \<Rightarrow> (let value = (ucast (crc s) :: uint64)
                   in (Some (vs ! (unat value mod length vs)), g))
      | None \<Rightarrow> (case rnd g (int (length vs)) of (r, g') \<Rightarrow> (Some (vs ! nat r), g')))"

record 'a randomWeighted =
  rw_items :: "('a \<times> int) list"
  rw_sum :: int

definition rw_Reset :: "'a randomWeighted \<Rightarrow> 'a randomWeighted" where
  "rw_Reset rw = rw\<lparr>rw_items := [], rw_sum := 0\<rparr>"

definition rw_Add :: "'a \<Rightarrow> int \<Rightarrow> 'a randomWeighted \<Rightarrow> 'a randomWeighted" where
  "rw_Add item weight rw =
     rw\<lparr>rw_items := rw_items rw @ [(item, weight)], rw_sum := wrap64 (rw_sum rw + weight)\<rparr>"

text \<open>The loop of \<open>Next\<close>.\<close>

fun rw_pick :: "int \<Rightarrow> ('a \<times> int) list \<Rightarrow> 'a option" where
  "rw_pick weight [] = None"
| "rw_pick weight ((item, w) # items) =
     (let weight = weight - w in if weight \<le> 0 then Some item else rw_pick weight items)"

definition rw_Next :: "('g \<Rightarrow> int \<Rightarrow> int \<times> 'g) \<Rightarrow> 'g \<Rightarrow> 'a randomWeighted \<Rightarrow> 'a option \<times> 'g" where
  "rw_Next rnd g rw =
     (if rw_items rw = [] then (None, g)
      else if rw_sum rw \<le> 0 then (None, g)
      else case rnd g (rw_sum rw) of
        (r, g') \<Rightarrow>
          (case rw_pick (r + 1) (rw_items rw) of
             Some item \<Rightarrow> (Some item, g')
           | None \<Rightarrow> (Some (fst (last (rw_items rw))), g')))"

definition sel_weight :: "'a sel_view \<Rightarrow> 'a \<Rightarrow> int" where
  "sel_weight V v = (if sv_weight V v \<le> 0 then 1 else sv_weight V v)"

definition random_Apply ::
    "'a sel_view \<Rightarrow> ('g \<Rightarrow> int \<Rightarrow> int \<times> 'g) \<Rightarrow> 'g \<times> 'a randomWeighted \<Rightarrow> 'a list \<Rightarrow>
     'a option \<times> 'g \<times> 'a randomWeighted"
where
  "random_Apply V rnd st vs =
     (case st of (g, rw) \<Rightarrow>
       if length vs = 0 then (None, (g, rw))
       else let rw = rw_Reset rw;
                rw = fold (\<lambda>v rw. rw_Add v (sel_weight V v) rw) vs rw
            in case rw_Next rnd g rw of (v, g') \<Rightarrow> (v, (g', rw)))"

section \<open>The default selector\<close>

definition defaultSelector_Select ::
    "('a list \<Rightarrow> 'a list) list \<Rightarrow> ('s \<Rightarrow> 'a list \<Rightarrow> 'a option \<times> 's) \<Rightarrow> 's \<Rightarrow> 'a list \<Rightarrow> 'a option \<times> 's"
where
  "defaultSelector_Select filters apply_strategy s vs =
     (let vs = fold (\<lambda>f vs. f vs) filters vs
      in if length vs = 0 then (None, s) else apply_strategy s vs)"

text \<open>
  What a strategy promises its selector: it picks one of the objects, and some object when there
  is one.  The selector then picks a survivor of the filters, or nothing when none is left.
\<close>

locale selector_strategy =
  fixes apply_strategy :: "'s \<Rightarrow> 'a list \<Rightarrow> 'a option \<times> 's"
  assumes apply_member: "apply_strategy s vs = (Some v, s') \<Longrightarrow> v \<in> set vs"
    and apply_some: "vs \<noteq> [] \<Longrightarrow> fst (apply_strategy s vs) \<noteq> None"
begin

lemma select_member:
  assumes "defaultSelector_Select filters apply_strategy s vs = (Some v, s')"
  shows "v \<in> set (fold (\<lambda>f vs. f vs) filters vs)"
  using assms by (auto simp: defaultSelector_Select_def Let_def split: if_splits dest: apply_member)

lemma select_none_iff:
  "fst (defaultSelector_Select filters apply_strategy s vs) = None \<longleftrightarrow> fold (\<lambda>f vs. f vs) filters vs = []"
  using apply_some by (auto simp: defaultSelector_Select_def Let_def)

end

interpretation fifo: selector_strategy "\<lambda>(s :: unit) vs. (fifo_Apply vs, s)"
  by unfold_locales (auto simp: fifo_Apply_def split: if_splits)

interpretation roundrobin: selector_strategy roundRobin_Apply
  by unfold_locales (auto simp: roundRobin_Apply_def Let_def split: if_splits)

text \<open>The random source: \<open>Intn\<close> answers below its argument.\<close>

locale random_source =
  fixes rnd :: "'g \<Rightarrow> int \<Rightarrow> int \<times> 'g"
  assumes rnd_range: "0 < n \<Longrightarrow> 0 \<le> fst (rnd g n) \<and> fst (rnd g n) < n"

sublocale random_source \<subseteq> hash: selector_strategy "hash_Apply crc rnd source" for crc source
proof (unfold_locales, goal_cases)
  case (1 s vs v s')
  then show ?case
    using rnd_range [of "int (length vs)" s]
    by (auto simp: hash_Apply_def Let_def split: if_splits option.splits prod.splits)
next
  case (2 vs s)
  then show ?case by (auto simp: hash_Apply_def Let_def split: option.splits prod.splits)
qed

text \<open>A congruential generator is a source.\<close>

definition lcg :: "int \<Rightarrow> int \<Rightarrow> int \<times> int" where
  "lcg g n = (let g' = (g * 1103515245 + 12345) mod 2147483648 in (g' mod n, g'))"

interpretation lcg: random_source lcg
  by unfold_locales (simp add: lcg_def Let_def)

section \<open>Filters keep candidates\<close>

lemma failFilter_subset: "set (failFilter_Filter V m t now vs) \<subseteq> set vs"
  by (auto simp: failFilter_Filter_def)

lemma backupFilter_subset: "set (backupFilter_Filter V vs) \<subseteq> set vs"
  by (auto simp: backupFilter_Filter_def Let_def)

lemma backupFilter_nonempty: "vs \<noteq> [] \<Longrightarrow> backupFilter_Filter V vs \<noteq> []"
  by (auto simp: backupFilter_Filter_def Let_def filter_empty_conv)

text \<open>
  The selector of a configured hop (dead objects filtered first, then backups) picks nothing
  exactly when there is no object, or there are at least two and all of them are dead; it
  picks a dead object only when it is the only one, and a backup only when every
  surviving object is one.
\<close>

theorem select_alive_first:
  assumes "selector_strategy apply_strategy"
    and "defaultSelector_Select [failFilter_Filter V m t now, backupFilter_Filter V] apply_strategy s vs = (r, s')"
  shows "case r of
      None \<Rightarrow> vs = [] \<or> length vs \<ge> 2 \<and> (\<forall>v\<in>set vs. \<not> fail_alive V m t now v)
    | Some v \<Rightarrow> v \<in> set vs \<and> (length vs = 1 \<or> fail_alive V m t now v) \<and>
        (length vs = 1 \<or> \<not> sv_backup V v \<or> (\<forall>u\<in>set vs. fail_alive V m t now u \<longrightarrow> sv_backup V u))"
proof (cases r)
  case None
  with assms have "fold (\<lambda>f vs. f vs) [failFilter_Filter V m t now, backupFilter_Filter V] vs = []"
    using selector_strategy.select_none_iff [OF assms(1)] by (metis fst_conv)
  then have "failFilter_Filter V m t now vs = []" using backupFilter_nonempty by fastforce
  with None show ?thesis by (auto simp: failFilter_Filter_def filter_empty_conv split: if_splits)
next
  case (Some v)
  let ?f = "failFilter_Filter V m t now vs"
  from selector_strategy.select_member [OF assms(1)] assms(2) Some
  have v: "v \<in> set (backupFilter_Filter V ?f)" by fastforce
  then have f: "v \<in> set ?f" using backupFilter_subset by fastforce
  then have a: "v \<in> set vs" "length vs = 1 \<or> fail_alive V m t now v"
    by (auto simp: failFilter_Filter_def le_Suc_eq split: if_splits)
  have "length vs = 1 \<or> \<not> sv_backup V v \<or> (\<forall>u\<in>set vs. fail_alive V m t now u \<longrightarrow> sv_backup V u)"
  proof (cases "length vs \<le> 1")
    case True
    with a(1) show ?thesis by (cases vs) auto
  next
    case False
    then have ff: "?f = filter (fail_alive V m t now) vs" by (simp add: failFilter_Filter_def)
    show ?thesis
    proof (cases "length ?f \<le> 1")
      case True
      with f have "?f = [v]" by (cases ?f) auto
      then have "set (filter (fail_alive V m t now) vs) = {v}" by (simp add: ff)
      then have "\<forall>u\<in>set vs. fail_alive V m t now u \<longrightarrow> u = v" by auto
      then show ?thesis by auto
    next
      case False
      with v have "\<not> sv_backup V v \<or> filter (\<lambda>v. \<not> sv_backup V v) ?f = []"
        by (auto simp: backupFilter_Filter_def Let_def split: if_splits)
      then show ?thesis unfolding ff by (auto simp: filter_empty_conv)
    qed
  qed
  with Some a show ?thesis by simp
qed

text \<open>Three objects: one dead, one backup, one with neither mark.\<close>

definition demo_view :: "nat sel_view" where
  "demo_view =
     \<lparr>sv_maxFails = (\<lambda>_. None), sv_failTimeout = (\<lambda>_. None), sv_backup = (\<lambda>v. v = 1),
      sv_weight = (\<lambda>v. if v = 2 then 3 else 0),
      sv_marker = (\<lambda>v. if v = 0 then Some (1, 100) else Some (0, 0))\<rparr>"

theorem select_alive_first_witness:
  "fst (defaultSelector_Select [failFilter_Filter demo_view 1 0 200, backupFilter_Filter demo_view]
     roundRobin_Apply 7 [0, 1, 2]) = Some 2"
proof -
  obtain r s' where sel: "defaultSelector_Select [failFilter_Filter demo_view 1 0 200,
      backupFilter_Filter demo_view] roundRobin_Apply 7 [0, 1, 2] = (r, s')" by fastforce
  have a: "fail_alive demo_view 1 0 200 1" "fail_alive demo_view 1 0 200 2"
    "\<not> fail_alive demo_view 1 0 200 0" by code_simp+
  from select_alive_first [OF roundrobin.selector_strategy_axioms sel] a have "r = Some 2"
    by (auto simp: demo_view_def split: option.splits)
  with sel show ?thesis by simp
qed

section \<open>Fairness of the strategies\<close>

text \<open>Successive calls of the round robin strategy on the same objects.\<close>

fun roundRobin_run :: "uint64 \<Rightarrow> 'a list \<Rightarrow> nat \<Rightarrow> 'a option list" where
  "roundRobin_run c vs 0 = []"
| "roundRobin_run c vs (Suc n) =
     (case roundRobin_Apply c vs of (v, c') \<Rightarrow> v # roundRobin_run c' vs n)"

lemma roundRobin_run_nth:
  "vs \<noteq> [] \<Longrightarrow> unat c + n \<le> 2 ^ 64 \<Longrightarrow>
   roundRobin_run c vs n = map (\<lambda>i. Some (vs ! ((unat c + i) mod length vs))) [0..<n]"
proof (induction n arbitrary: c)
  case (Suc n)
  then have step: "roundRobin_Apply c vs = (Some (vs ! (unat c mod length vs)), c + 1)"
    by (simp add: roundRobin_Apply_def)
  show ?case
  proof (cases n)
    case 0
    with step show ?thesis by simp
  next
    case (Suc m)
    with Suc.prems have c: "unat (c + 1) = unat c + 1"
      by (simp add: unatSuc unat_plus_if')
    with Suc.prems Suc.IH [of "c + 1"] have "roundRobin_run (c + 1) vs n =
        map (\<lambda>i. Some (vs ! ((unat c + Suc i) mod length vs))) [0..<n]" by simp
    moreover have "[0..<Suc n] = 0 # map Suc [0..<n]" by (simp add: map_Suc_upt upt_conv_Cons)
    ultimately show ?thesis using step by (simp del: upt_Suc)
  qed
qed simp

lemma shift_mod_inj: "inj_on (\<lambda>i. (k + i) mod m) {0..<m :: nat}"
proof (rule linorder_inj_onI)
  fix i j :: nat
  assume "i < j" "i \<in> {0..<m}" "j \<in> {0..<m}"
  show "(k + i) mod m \<noteq> (k + j) mod m"
  proof
    assume "(k + i) mod m = (k + j) mod m"
    then have "(k + j) mod m = (k + i) mod m" by simp
    then have "m dvd (k + j) - (k + i)"
      by (rule mod_eq_dvd_iff_nat [THEN iffD1, rotated]) (use \<open>i < j\<close> in simp)
    then have "m dvd j - i" by simp
    with \<open>i < j\<close> \<open>j \<in> {0..<m}\<close> show False by (auto dest: dvd_imp_le)
  qed
qed auto

lemma mset_shift_mod:
  assumes "0 < m"
  shows "mset (map (\<lambda>i. (k + i) mod m) [0..<m]) = mset [0..<m]"
proof -
  note inj = shift_mod_inj [of k m]
  have "(\<lambda>i. (k + i) mod m) ` {0..<m} \<subseteq> {0..<m}" using assms by auto
  with inj have "(\<lambda>i. (k + i) mod m) ` {0..<m} = {0..<m}"
    by (intro endo_inj_surj) auto
  with inj show ?thesis
    by (metis (no_types, lifting) atLeastLessThan_upt distinct_map distinct_upt image_set
        set_eq_iff_mset_eq_distinct)
qed

text \<open>
  As many successive picks of the round robin strategy as there are objects pick every object
  exactly once, as long as the 64-bit counter does not wrap during them.
\<close>

theorem roundRobin_fair:
  assumes "vs \<noteq> []" and "unat c + length vs \<le> 2 ^ 64"
  shows "mset (roundRobin_run c vs (length vs)) = mset (map Some vs)"
proof -
  have "roundRobin_run c vs (length vs) =
      map (\<lambda>j. Some (vs ! j)) (map (\<lambda>i. (unat c + i) mod length vs) [0..<length vs])"
    using roundRobin_run_nth [OF assms] by simp
  also have "mset \<dots> = image_mset (\<lambda>j. Some (vs ! j)) (mset [0..<length vs])"
    using mset_shift_mod [of "length vs" "unat c"] assms(1) by (metis length_greater_0_conv mset_map)
  also have "\<dots> = mset (map Some vs)"
    by (metis (no_types, lifting) map_nth mset_map map_map comp_apply map_eq_conv)
  finally show ?thesis .
qed

theorem roundRobin_fair_witness:
  "mset (roundRobin_run 7 ''abc'' 3) = mset (map Some ''abc'')"
proof -
  have "mset (roundRobin_run 7 ''abc'' (length ''abc'')) = mset (map Some ''abc'')"
    by (rule roundRobin_fair) simp_all
  moreover have "length ''abc'' = 3" by simp
  ultimately show ?thesis by metis
qed

text \<open>The weighted draw.\<close>

lemma rw_pick_card:
  assumes "\<forall>w\<in>snd ` set items. 0 < w"
  shows "int (card {r. 0 \<le> r \<and> r < sum_list (map snd items) \<and> rw_pick (r + 1) items = Some x}) =
    sum_list (map snd (filter (\<lambda>iw. fst iw = x) items))"
  using assms
proof (induction items)
  case Nil
  then show ?case by simp
next
  case (Cons iw items)
  obtain i w where iw: "iw = (i, w)" by (cases iw)
  let ?S = "sum_list (map snd items)"
  let ?R = "{r. 0 \<le> r \<and> r < ?S \<and> rw_pick (r + 1) items = Some x}"
  have w: "0 < w" and S: "0 \<le> ?S"
    using Cons.prems by (simp add: iw) (rule sum_list_nonneg, use Cons.prems in force)
  have fin: "finite ?R" by (rule finite_subset [of _ "{0..<?S}"]) auto
  have shift: "{r. w \<le> r \<and> r < w + ?S \<and> rw_pick (r - w + 1) items = Some x} = (\<lambda>r. r + w) ` ?R"
  proof (intro equalityI subsetI)
    fix r
    assume "r \<in> {r. w \<le> r \<and> r < w + ?S \<and> rw_pick (r - w + 1) items = Some x}"
    then have "r - w \<in> ?R" by simp
    then show "r \<in> (\<lambda>r. r + w) ` ?R" by (rule rev_image_eqI) simp
  qed auto
  have pick: "rw_pick (r + 1) (iw # items) = (if r < w then Some i else rw_pick (r - w + 1) items)" for r
    by (auto simp: iw Let_def algebra_simps)
  have "{r. 0 \<le> r \<and> r < sum_list (map snd (iw # items)) \<and> rw_pick (r + 1) (iw # items) = Some x} =
      (if i = x then {0..<w} else {}) \<union> {r. w \<le> r \<and> r < w + ?S \<and> rw_pick (r - w + 1) items = Some x}"
    unfolding pick using w S by (auto simp: iw split: if_splits)
  also have "\<dots> = (if i = x then {0..<w} else {}) \<union> (\<lambda>r. r + w) ` ?R" by (simp only: shift)
  finally have eq: "{r. 0 \<le> r \<and> r < sum_list (map snd (iw # items)) \<and> rw_pick (r + 1) (iw # items) = Some x} =
      (if i = x then {0..<w} else {}) \<union> (\<lambda>r. r + w) ` ?R" .
  have "int (card ((\<lambda>r. r + w) ` ?R)) = int (card ?R)" by (simp add: card_image inj_on_def)
  moreover have "card ((if i = x then {0..<w} else {}) \<union> (\<lambda>r. r + w) ` ?R) =
      card (if i = x then {0..<w} else {}) + card ((\<lambda>r. r + w) ` ?R)"
    using fin by (intro card_Un_disjoint) auto
  moreover have "int (card ?R) = sum_list (map snd (filter (\<lambda>iw. fst iw = x) items))"
    using Cons.IH Cons.prems by simp
  ultimately show ?case unfolding eq using w by (simp add: iw)
qed

lemma rw_Add_fold:
  "fold (\<lambda>v rw. rw_Add v (f v) rw) vs rw =
     rw\<lparr>rw_items := rw_items rw @ map (\<lambda>v. (v, f v)) vs,
        rw_sum := foldl (\<lambda>s v. wrap64 (s + f v)) (rw_sum rw) vs\<rparr>"
  by (induction vs arbitrary: rw) (simp_all add: rw_Add_def)

lemma wrap_sum:
  assumes "\<forall>v\<in>set vs. 0 < f v" and "0 \<le> s" and "s + sum_list (map f vs) < 2 ^ 63"
  shows "foldl (\<lambda>s v. wrap64 (s + f v)) s vs = s + sum_list (map f vs)"
  using assms
proof (induction vs arbitrary: s)
  case (Cons v vs)
  have "0 \<le> sum_list (map f vs)" using Cons.prems(1) by (intro sum_list_nonneg) auto
  with Cons.prems have "wrap64 (s + f v) = s + f v" by (intro wrap64_id) auto
  with Cons.IH [of "s + f v"] Cons.prems show ?case by (simp add: add.assoc)
qed simp

text \<open>
  Of the possible draws of the random strategy, as many pick an object as its weight says (1
  for a missing or non-positive weight): the choice is exactly proportional to the weights.
\<close>

theorem random_proportional:
  assumes "distinct vs" and "x \<in> set vs" and "sum_list (map (sel_weight V) vs) < 2 ^ 63"
  shows "int (card {r. 0 \<le> r \<and> r < sum_list (map (sel_weight V) vs) \<and>
      fst (random_Apply V (\<lambda>g n. (g, g)) (r, rw) vs) = Some x}) = sel_weight V x"
proof -
  let ?S = "sum_list (map (sel_weight V) vs)" and ?items = "map (\<lambda>v. (v, sel_weight V v)) vs"
  have pos: "0 < sel_weight V v" for v by (simp add: sel_weight_def)
  have items: "sum_list (map snd ?items) = ?S" by (simp add: comp_def)
  have vs: "vs \<noteq> []" using assms(2) by auto
  have S: "0 < ?S"
  proof -
    obtain u us where "vs = u # us" using vs by (cases vs) auto
    moreover have "0 \<le> sum_list (map (sel_weight V) us)"
      by (intro sum_list_nonneg) (use pos in \<open>auto intro: less_imp_le\<close>)
    ultimately show ?thesis using pos [of u] by simp
  qed
  have pick: "fst (random_Apply V (\<lambda>g n. (g, g)) (r, rw) vs) = Some x \<longleftrightarrow> rw_pick (r + 1) ?items = Some x"
    if r: "0 \<le> r" "r < ?S" for r
  proof -
    have some: "rw_pick k items \<noteq> None" if "k \<le> sum_list (map snd items)" "0 < k" for k and items :: "('a \<times> int) list"
      using that by (induction k items rule: rw_pick.induct) (auto simp: Let_def)
    have "rw_pick (r + 1) ?items \<noteq> None" using r unfolding items [symmetric] by (intro some) linarith+
    moreover have "foldl (\<lambda>s v. wrap64 (s + sel_weight V v)) 0 vs = ?S"
      using wrap_sum [of vs "sel_weight V" 0] pos assms(3) by simp
    ultimately show ?thesis
      using vs S by (auto simp: random_Apply_def rw_Add_fold rw_Reset_def rw_Next_def Let_def split: option.split)
  qed
  have "{r. 0 \<le> r \<and> r < ?S \<and> fst (random_Apply V (\<lambda>g n. (g, g)) (r, rw) vs) = Some x} =
      {r. 0 \<le> r \<and> r < sum_list (map snd ?items) \<and> rw_pick (r + 1) ?items = Some x}"
    using pick items by auto
  moreover have "filter (\<lambda>iw. fst iw = x) ?items = [(x, sel_weight V x)]"
    using assms(1,2) by (induction vs) (auto simp: filter_empty_conv)
  ultimately show ?thesis
    using rw_pick_card [of ?items x] pos by simp
qed

theorem random_proportional_witness:
  "int (card {r. 0 \<le> r \<and> r < sum_list (map (sel_weight demo_view) [0, 1, 2]) \<and>
      fst (random_Apply demo_view (\<lambda>g n. (g, g)) (r, \<lparr>rw_items = [], rw_sum = 0\<rparr>) [0, 1, 2]) = Some 2}) = 3"
proof -
  have "sel_weight demo_view 2 = 3" by code_simp
  then show ?thesis
    using random_proportional [of "[0, 1, 2]" 2 demo_view "\<lparr>rw_items = [], rw_sum = 0\<rparr>"]
    by (simp add: sel_weight_def demo_view_def)
qed

end
