(* ===== verification/Chain.thy ===== *)
theory Chain
  imports GoNet Selector
begin

text \<open>
  The forwarding chain of \<open>chain\<close>: a hop selects a node (\<open>hop.go\<close>), a chain asks its hops for
  the nodes of a route, nesting the route so far into the transport of a multiplexed node
  (\<open>chain.go\<close>), and a route connects through its nodes, keeping the fail markers
  (\<open>route.go\<close>).  A bypass is its \<open>Contains\<close> predicate; the node type and the transports are
  those of \<open>github.com/go-gost/core/chain\<close>: the model has the node's fields the code reads,
  and the transport operations as parameters.
\<close>

section \<open>Nodes, routes and hops\<close>

record node_info =
  ni_Name :: string
  ni_Addr :: string
  ni_Host :: string
  ni_Protocol :: string
  ni_Bypass :: "(string \<Rightarrow> bool) option"
  ni_Multiplex :: bool
  ni_Marker :: bool \<comment> \<open>the node has a fail marker\<close>

text \<open>A node with the route of its transport, and a route with the name of its chain.\<close>

datatype chain_node = ChainNode (nd_info: node_info) (nd_route: "chain_route option")
  and chain_route = ChainRoute (rt_nodes: "chain_node list") (rt_chain: "string option")

record select_options =
  so_Addr :: string
  so_Host :: string
  so_Protocol :: string

text \<open>A hop; \<open>None\<close> is a nil node.  A selector works on the state \<open>'s\<close>.\<close>

record 's chain_hop =
  hop_nodes :: "chain_node option list"
  hop_bypass :: "(string \<Rightarrow> bool) option"
  hop_selector :: "('s \<Rightarrow> chain_node list \<Rightarrow> chain_node option \<times> 's) option"

section \<open>Selecting a node\<close>

definition bypassed :: "(string \<Rightarrow> bool) option \<Rightarrow> string \<Rightarrow> bool" where
  "bypassed bp addr = (case bp of None \<Rightarrow> False | Some contains \<Rightarrow> contains addr)"

definition vhost_matches :: "string \<Rightarrow> string \<Rightarrow> bool" where
  "vhost_matches vhost host \<longleftrightarrow>
     vhost = host \<or> (vhost ! 0 = CHR ''.'' \<and> has_suffix host (drop 1 vhost))"

text \<open>The filter by host, with the nodes without a host in reserve, or by protocol.\<close>

definition hop_filters :: "select_options \<Rightarrow> chain_node option list \<Rightarrow> chain_node option list" where
  "hop_filters options nodes =
     (if so_Host options \<noteq> [] then
        (let host = strip_port (so_Host options);
             filters = filter (\<lambda>n. case n of None \<Rightarrow> False
               | Some n \<Rightarrow> ni_Host (nd_info n) \<noteq> [] \<and> vhost_matches (ni_Host (nd_info n)) host) nodes;
             others = filter (\<lambda>n. case n of None \<Rightarrow> False | Some n \<Rightarrow> ni_Host (nd_info n) = []) nodes
         in if length filters = 0 then others else filters)
      else if so_Protocol options \<noteq> [] then
        filter (\<lambda>n. case n of None \<Rightarrow> False
          | Some n \<Rightarrow> ni_Protocol (nd_info n) = so_Protocol options) nodes
      else nodes)"

definition chainHop_Select ::
    "'s chain_hop option \<Rightarrow> select_options \<Rightarrow> 's \<Rightarrow> chain_node option \<times> 's"
where
  "chainHop_Select p options s =
     (case p of
        None \<Rightarrow> (None, s)
      | Some p \<Rightarrow>
          if length (hop_nodes p) = 0 then (None, s)
          else if bypassed (hop_bypass p) (so_Addr options) then (None, s)
          else let filters = hop_filters options (hop_nodes p);
                   nodes = concat (map (\<lambda>n. case n of None \<Rightarrow> []
                     | Some n \<Rightarrow> if bypassed (ni_Bypass (nd_info n)) (so_Addr options) then [] else [n]) filters)
               in if length nodes = 0 then (None, s)
                  else (case hop_selector p of
                          Some sel \<Rightarrow> sel s nodes
                        | None \<Rightarrow> (Some (nodes ! 0), s)))"

section \<open>Routes of a chain\<close>

definition route_addNode :: "chain_node \<Rightarrow> chain_route \<Rightarrow> chain_route" where
  "route_addNode node r = ChainRoute (rt_nodes r @ [node]) (rt_chain r)"

text \<open>The loop of \<open>Chain.Route\<close> over the hops.\<close>

fun chain_route_loop ::
    "string \<Rightarrow> 's chain_hop list \<Rightarrow> chain_route \<Rightarrow> 's \<Rightarrow> chain_route \<times> 's"
where
  "chain_route_loop address [] rt s = (rt, s)"
| "chain_route_loop address (hop # hops) rt s =
     (case chainHop_Select (Some hop) \<lparr>so_Addr = address, so_Host = [], so_Protocol = []\<rparr> s of
        (None, s') \<Rightarrow> (rt, s')
      | (Some node, s') \<Rightarrow>
          (if ni_Multiplex (nd_info node)
           then chain_route_loop address hops
                  (route_addNode (ChainNode (nd_info node) (Some rt)) (ChainRoute [] None)) s'
           else chain_route_loop address hops (route_addNode node rt) s'))"

definition Chain_Route ::
    "string \<Rightarrow> 's chain_hop list \<Rightarrow> string \<Rightarrow> 's \<Rightarrow> chain_route option \<times> 's"
where
  "Chain_Route name hops address s =
     (if length hops = 0 then (None, s)
      else case chain_route_loop address hops (ChainRoute [] (Some name)) s of (rt, s') \<Rightarrow> (Some rt, s'))"

text \<open>A group of chains, each given by its name and hops, with its selector.\<close>

definition chainGroup_Route ::
    "(string \<times> 's chain_hop list) list \<Rightarrow>
     ('s \<Rightarrow> (string \<times> 's chain_hop list) list \<Rightarrow> (string \<times> 's chain_hop list) option \<times> 's) \<Rightarrow>
     string \<Rightarrow> 's \<Rightarrow> chain_route option \<times> 's"
where
  "chainGroup_Route members sel address s =
     (if length members = 0 then (None, s)
      else case sel s members of
        (None, s') \<Rightarrow> (None, s')
      | (Some (name, hops), s') \<Rightarrow> Chain_Route name hops address s')"

section \<open>Connecting through a route\<close>

text \<open>
  The transport operations, on the state \<open>'w\<close> of the network: \<open>None\<close> is an error.  What the
  code does besides is recorded as actions: marks and resets of the nodes and of the chain,
  and the connections it closes.
\<close>

record ('w, 'k) net_ops =
  op_resolve :: "node_info \<Rightarrow> 'w \<Rightarrow> string option \<times> 'w"
  op_dial :: "chain_node \<Rightarrow> string \<Rightarrow> 'w \<Rightarrow> 'k option \<times> 'w"
  op_handshake :: "chain_node \<Rightarrow> 'k \<Rightarrow> 'w \<Rightarrow> 'k option \<times> 'w"
  op_connect :: "chain_node \<Rightarrow> 'k \<Rightarrow> string \<Rightarrow> string \<Rightarrow> 'w \<Rightarrow> 'k option \<times> 'w"

datatype 'k action = NodeMark string | NodeReset string | ChainMark string | ChainReset string | CloseConn 'k

definition node_mark :: "chain_node \<Rightarrow> 'k action list" where
  "node_mark n = (if ni_Marker (nd_info n) then [NodeMark (ni_Name (nd_info n))] else [])"

definition node_reset :: "chain_node \<Rightarrow> 'k action list" where
  "node_reset n = (if ni_Marker (nd_info n) then [NodeReset (ni_Name (nd_info n))] else [])"

text \<open>The loop of \<open>connect\<close> over the nodes after the first.\<close>

fun route_connect_loop ::
    "('w, 'k) net_ops \<Rightarrow> chain_node \<Rightarrow> 'k \<Rightarrow> chain_node list \<Rightarrow> 'w \<Rightarrow> 'k option \<times> 'k action list \<times> 'w"
where
  "route_connect_loop N preNode cn [] w = (Some cn, [], w)"
| "route_connect_loop N preNode cn (node # nodes) w =
     (case op_resolve N (nd_info node) w of
        (None, w1) \<Rightarrow> (None, CloseConn cn # node_mark node, w1)
      | (Some addr, w1) \<Rightarrow>
          (case op_connect N preNode cn ''tcp'' addr w1 of
             (None, w2) \<Rightarrow> (None, CloseConn cn # node_mark node, w2)
           | (Some cc, w2) \<Rightarrow>
               (case op_handshake N node cc w2 of
                  (None, w3) \<Rightarrow> (None, CloseConn cn # node_mark node, w3)
                | (Some cc', w3) \<Rightarrow>
                    (case route_connect_loop N node cc' nodes w3 of
                       (r, acts, w4) \<Rightarrow> (r, node_reset node @ acts, w4)))))"

text \<open>The body of \<open>connect\<close>, and the deferred bookkeeping of the chain's marker.\<close>

definition route_connect_nodes ::
    "('w, 'k) net_ops \<Rightarrow> chain_node list \<Rightarrow> 'w \<Rightarrow> 'k option \<times> 'k action list \<times> 'w"
where
  "route_connect_nodes N nodes w =
     (let node = nodes ! 0
      in case op_resolve N (nd_info node) w of
           (None, w1) \<Rightarrow> (None, node_mark node, w1)
         | (Some addr, w1) \<Rightarrow>
             (case op_dial N node addr w1 of
                (None, w2) \<Rightarrow> (None, node_mark node, w2)
              | (Some cc, w2) \<Rightarrow>
                  (case op_handshake N node cc w2 of
                     (None, w3) \<Rightarrow> (None, CloseConn cc # node_mark node, w3)
                   | (Some cn, w3) \<Rightarrow>
                       (case route_connect_loop N node cn (drop 1 nodes) w3 of
                          (r, acts, w4) \<Rightarrow> (r, node_reset node @ acts, w4)))))"

definition route_connect ::
    "('w, 'k) net_ops \<Rightarrow> chain_route \<Rightarrow> 'w \<Rightarrow> 'k option \<times> 'k action list \<times> 'w"
where
  "route_connect N r w =
     (case route_connect_nodes N (rt_nodes r) w of
        (conn, acts, w') \<Rightarrow>
          (conn,
           acts @ (case rt_chain r of
                     None \<Rightarrow> []
                   | Some name \<Rightarrow> if conn = None then [ChainMark name] else [ChainReset name]),
           w'))"

text \<open>
  \<open>Dial\<close>: directly when the route has no node (\<open>direct\<close> is \<open>chain.DefaultRoute.Dial\<close>), and
  through the last node otherwise.
\<close>

definition route_Dial ::
    "('w, 'k) net_ops \<Rightarrow> (string \<Rightarrow> string \<Rightarrow> 'w \<Rightarrow> 'k option \<times> 'w) \<Rightarrow> chain_route \<Rightarrow> string \<Rightarrow> string \<Rightarrow>
     'w \<Rightarrow> 'k option \<times> 'k action list \<times> 'w"
where
  "route_Dial N direct r network address w =
     (if length (rt_nodes r) = 0
      then (case direct network address w of (c, w') \<Rightarrow> (c, [], w'))
      else case route_connect N r w of
        (None, acts, w1) \<Rightarrow> (None, acts, w1)
      | (Some conn, acts, w1) \<Rightarrow>
          (case op_connect N (last (rt_nodes r)) conn network address w1 of
             (None, w2) \<Rightarrow> (None, acts @ [CloseConn conn], w2)
           | (Some cc, w2) \<Rightarrow> (Some cc, acts, w2)))"

definition route_Bind ::
    "('w, 'k) net_ops \<Rightarrow> (string \<Rightarrow> string \<Rightarrow> 'w \<Rightarrow> 'l option \<times> 'w) \<Rightarrow>
     (chain_node \<Rightarrow> 'k \<Rightarrow> string \<Rightarrow> string \<Rightarrow> 'w \<Rightarrow> 'l option \<times> 'w) \<Rightarrow> chain_route \<Rightarrow> string \<Rightarrow> string \<Rightarrow>
     'w \<Rightarrow> 'l option \<times> 'k action list \<times> 'w"
where
  "route_Bind N direct bind r network address w =
     (if length (rt_nodes r) = 0
      then (case direct network address w of (l, w') \<Rightarrow> (l, [], w'))
      else case route_connect N r w of
        (None, acts, w1) \<Rightarrow> (None, acts, w1)
      | (Some conn, acts, w1) \<Rightarrow>
          (case bind (last (rt_nodes r)) conn network address w1 of
             (None, w2) \<Rightarrow> (None, acts @ [CloseConn conn], w2)
           | (Some ln, w2) \<Rightarrow> (Some ln, acts, w2)))"

section \<open>What a hop selects\<close>

lemma hop_filters_subset: "set (hop_filters options nodes) \<subseteq> set nodes"
  by (auto simp: hop_filters_def Let_def)

text \<open>
  A node a hop selects is one of its nodes, is bypassed neither by the hop nor by itself, and
  fits the request: with a host, its virtual host matches or no node's does and it has none;
  without a host, it has the protocol asked for.
\<close>

theorem hop_select_fits:
  assumes sel: "\<forall>f. hop_selector p = Some f \<longrightarrow> selector_strategy f"
    and some: "chainHop_Select (Some p) options s = (Some n, s')"
  shows "Some n \<in> set (hop_nodes p) \<and>
    \<not> bypassed (hop_bypass p) (so_Addr options) \<and> \<not> bypassed (ni_Bypass (nd_info n)) (so_Addr options) \<and>
    (if so_Host options \<noteq> [] then
       (let host = strip_port (so_Host options) in
        (ni_Host (nd_info n) \<noteq> [] \<and> vhost_matches (ni_Host (nd_info n)) host) \<or>
        (ni_Host (nd_info n) = [] \<and>
          (\<forall>m. Some m \<in> set (hop_nodes p) \<longrightarrow> ni_Host (nd_info m) = [] \<or>
             \<not> vhost_matches (ni_Host (nd_info m)) host)))
     else so_Protocol options = [] \<or> ni_Protocol (nd_info n) = so_Protocol options)"
proof -
  let ?nodes = "concat (map (\<lambda>n. case n of None \<Rightarrow> []
     | Some n \<Rightarrow> if bypassed (ni_Bypass (nd_info n)) (so_Addr options) then [] else [n])
     (hop_filters options (hop_nodes p)))"
  have nb: "\<not> bypassed (hop_bypass p) (so_Addr options)"
    using some by (auto simp: chainHop_Select_def split: if_splits)
  have "n \<in> set ?nodes"
  proof (cases "hop_selector p")
    case None
    with some show ?thesis
      by (auto simp: chainHop_Select_def Let_def simp del: set_concat split: if_splits intro!: nth_mem)
  next
    case (Some f)
    with some have "f s ?nodes = (Some n, s')"
      by (auto simp: chainHop_Select_def Let_def split: if_splits)
    with sel Some show ?thesis using selector_strategy.apply_member by metis
  qed
  then have f: "Some n \<in> set (hop_filters options (hop_nodes p))"
    and b: "\<not> bypassed (ni_Bypass (nd_info n)) (so_Addr options)"
    by (auto split: option.splits if_splits)
  from f have "Some n \<in> set (hop_nodes p)" using hop_filters_subset by blast
  moreover have "if so_Host options \<noteq> [] then
       (let host = strip_port (so_Host options) in
        (ni_Host (nd_info n) \<noteq> [] \<and> vhost_matches (ni_Host (nd_info n)) host) \<or>
        (ni_Host (nd_info n) = [] \<and>
          (\<forall>m. Some m \<in> set (hop_nodes p) \<longrightarrow> ni_Host (nd_info m) = [] \<or>
             \<not> vhost_matches (ni_Host (nd_info m)) host)))
     else so_Protocol options = [] \<or> ni_Protocol (nd_info n) = so_Protocol options"
    using f by (auto simp: hop_filters_def Let_def filter_empty_conv split: if_splits)
  ultimately show ?thesis using nb b by blast
qed

definition demo_node :: "string \<Rightarrow> string \<Rightarrow> bool \<Rightarrow> chain_node" where
  "demo_node name host mux =
     ChainNode \<lparr>ni_Name = name, ni_Addr = name, ni_Host = host, ni_Protocol = [], ni_Bypass = None,
       ni_Multiplex = mux, ni_Marker = True\<rparr> None"

definition demo_hop :: "uint64 chain_hop" where
  "demo_hop =
     \<lparr>hop_nodes = [Some (demo_node ''a'' [] False), None, Some (demo_node ''b'' ''.example.com'' False)],
      hop_bypass = None, hop_selector = Some roundRobin_Apply\<rparr>"

definition demo_request :: select_options where
  "demo_request = \<lparr>so_Addr = [], so_Host = ''www.example.com:80'', so_Protocol = []\<rparr>"

theorem hop_select_fits_witness:
  "\<exists>n s'. chainHop_Select (Some demo_hop) demo_request 0 = (Some n, s') \<and> ni_Name (nd_info n) = ''b'' \<and>
     vhost_matches (ni_Host (nd_info n)) ''www.example.com''"
proof -
  obtain r s' where sel: "chainHop_Select (Some demo_hop) demo_request 0 = (r, s')" by fastforce
  have "map_option (\<lambda>n. (ni_Name (nd_info n), ni_Host (nd_info n)))
      (fst (chainHop_Select (Some demo_hop) demo_request 0)) = Some (''b'', ''.example.com'')"
    by code_simp
  with sel obtain n where n: "r = Some n" "ni_Name (nd_info n) = ''b''" "ni_Host (nd_info n) = ''.example.com''"
    by auto
  have str: "\<forall>f. hop_selector demo_hop = Some f \<longrightarrow> selector_strategy f"
    using roundrobin.selector_strategy_axioms by (simp add: demo_hop_def)
  have "strip_port (so_Host demo_request) = ''www.example.com''" "so_Host demo_request \<noteq> []" by code_simp+
  with hop_select_fits [OF str sel [unfolded n(1)]] sel n show ?thesis by (simp add: Let_def)
qed

section \<open>The path of a route\<close>

text \<open>
  The nodes a connection passes, in order: a node is reached through the route nested in its
  transport.
\<close>

fun node_path :: "chain_node \<Rightarrow> node_info list" and route_path :: "chain_route \<Rightarrow> node_info list" where
  "node_path (ChainNode i r) = (case r of None \<Rightarrow> [] | Some r \<Rightarrow> route_path r) @ [i]"
| "route_path (ChainRoute nodes c) = concat (map node_path nodes)"

text \<open>The nodes the hops select for an address, up to the first hop that selects none.\<close>

fun hops_selected :: "string \<Rightarrow> 's chain_hop list \<Rightarrow> 's \<Rightarrow> chain_node list" where
  "hops_selected address [] s = []"
| "hops_selected address (hop # hops) s =
     (case chainHop_Select (Some hop) \<lparr>so_Addr = address, so_Host = [], so_Protocol = []\<rparr> s of
        (None, s') \<Rightarrow> []
      | (Some node, s') \<Rightarrow> node # hops_selected address hops s')"

definition selected_path :: "chain_node \<Rightarrow> node_info list" where
  "selected_path n = (if ni_Multiplex (nd_info n) then [nd_info n] else node_path n)"

lemma chain_route_loop_path:
  "chain_route_loop address hops rt s = (rt', s') \<Longrightarrow>
   route_path rt' = route_path rt @ concat (map selected_path (hops_selected address hops s)) \<and>
   rt_chain rt' = (if \<exists>n\<in>set (hops_selected address hops s). ni_Multiplex (nd_info n) then None else rt_chain rt)"
proof (induction hops arbitrary: rt s)
  case Nil
  then show ?case by simp
next
  case (Cons hop hops)
  obtain r s1 where sel: "chainHop_Select (Some hop) \<lparr>so_Addr = address, so_Host = [], so_Protocol = []\<rparr> s = (r, s1)"
    by fastforce
  show ?case
  proof (cases r)
    case None
    with Cons.prems sel show ?thesis by simp
  next
    case (Some node)
    have path: "route_path (route_addNode n r) = route_path r @ node_path n" "rt_chain (route_addNode n r) = rt_chain r"
      for n r by (cases r; simp add: route_addNode_def)+
    show ?thesis
      using Cons.IH Cons.prems sel Some
      by (cases "ni_Multiplex (nd_info node)") (auto simp: path selected_path_def)
  qed
qed

text \<open>
  C5. The route of a chain passes exactly the nodes its hops select, in the order of the hops and up
  to the first hop that selects none; it belongs to the chain, so that its failures mark
  the chain, only if no selected node is multiplexed.
\<close>

theorem chain_route_follows_hops:
  assumes "Chain_Route name hops address s = (Some rt, s')"
  shows "route_path rt = concat (map selected_path (hops_selected address hops s)) \<and>
    rt_chain rt = (if \<exists>n\<in>set (hops_selected address hops s). ni_Multiplex (nd_info n) then None else Some name)"
proof -
  have "chain_route_loop address hops (ChainRoute [] (Some name)) s = (rt, s')"
    using assms by (auto simp: Chain_Route_def split: if_splits prod.splits)
  from chain_route_loop_path [OF this] show ?thesis by simp
qed

definition demo_mux_hop :: "uint64 chain_hop" where
  "demo_mux_hop = \<lparr>hop_nodes = [Some (demo_node ''m'' [] True)], hop_bypass = None, hop_selector = None\<rparr>"

theorem chain_route_follows_hops_witness:
  "\<exists>rt s'. Chain_Route ''c'' [demo_hop, demo_mux_hop] ''t:80'' 0 = (Some rt, s') \<and>
     map ni_Name (route_path rt) = [''a'', ''m''] \<and> rt_chain rt = None"
proof -
  obtain r s' where route: "Chain_Route ''c'' [demo_hop, demo_mux_hop] ''t:80'' 0 = (r, s')" by fastforce
  have "(case fst (Chain_Route ''c'' [demo_hop, demo_mux_hop] ''t:80'' 0) of None \<Rightarrow> False | Some _ \<Rightarrow> True)"
    by code_simp
  with route obtain rt where rt: "r = Some rt" by (auto split: option.splits)
  have "map ni_Name (concat (map selected_path (hops_selected ''t:80'' [demo_hop, demo_mux_hop] 0))) = [''a'', ''m'']"
    "list_ex (\<lambda>n. ni_Multiplex (nd_info n)) (hops_selected ''t:80'' [demo_hop, demo_mux_hop] 0)"
    by code_simp+
  with chain_route_follows_hops [OF route [unfolded rt]] route rt show ?thesis
    by (simp add: list_ex_iff)
qed

section \<open>Marks of a connection attempt\<close>

text \<open>
  A successful attempt resets every node; a failed one resets the nodes before the one that
  failed, closes at most one connection and marks that node.
\<close>

definition connect_marks :: "chain_node list \<Rightarrow> 'k option \<Rightarrow> 'k action list \<Rightarrow> bool" where
  "connect_marks nodes r acts \<longleftrightarrow>
     (case r of
        Some c \<Rightarrow> acts = concat (map node_reset nodes)
      | None \<Rightarrow> \<exists>before n after closed. nodes = before @ n # after \<and> length closed \<le> 1 \<and>
          acts = concat (map node_reset before) @ map CloseConn closed @ node_mark n)"

lemma connect_marks_here:
  assumes "length closed \<le> 1"
  shows "connect_marks (n # nodes) None (map CloseConn closed @ node_mark n)"
  unfolding connect_marks_def using assms
  by (simp only: option.case, intro exI [of _ "[]"] exI [of _ n] exI [of _ nodes] exI [of _ closed]) simp

lemma connect_marks_next:
  assumes "connect_marks nodes r acts"
  shows "connect_marks (n # nodes) r (node_reset n @ acts)"
proof (cases r)
  case None
  with assms obtain before m after closed where
    "nodes = before @ m # after" "length closed \<le> 1"
    "acts = concat (map node_reset before) @ map CloseConn closed @ node_mark m"
    by (auto simp: connect_marks_def)
  then have "n # nodes = (n # before) @ m # after"
    "node_reset n @ acts = concat (map node_reset (n # before)) @ map CloseConn closed @ node_mark m"
    by simp_all
  with \<open>length closed \<le> 1\<close> None show ?thesis
    unfolding connect_marks_def by (simp only: option.case) blast
qed (use assms in \<open>simp add: connect_marks_def\<close>)

lemma route_connect_loop_marks:
  "route_connect_loop N preNode cn nodes w = (r, acts, w') \<Longrightarrow> connect_marks nodes r acts"
proof (induction nodes arbitrary: preNode cn w acts)
  case Nil
  then show ?case by (auto simp: connect_marks_def)
next
  case (Cons node nodes)
  have fails: "connect_marks (node # nodes) None (CloseConn cn # node_mark node)"
    using connect_marks_here [of "[cn]"] by simp
  obtain a w1 where resolve: "op_resolve N (nd_info node) w = (a, w1)" by fastforce
  show ?case
  proof (cases a)
    case None
    with Cons.prems resolve fails show ?thesis by auto
  next
    case a: (Some addr)
    obtain b w2 where conn: "op_connect N preNode cn ''tcp'' addr w1 = (b, w2)" by fastforce
    show ?thesis
    proof (cases b)
      case None
      with Cons.prems resolve a conn fails show ?thesis by auto
    next
      case b: (Some cc)
      obtain c w3 where hs: "op_handshake N node cc w2 = (c, w3)" by fastforce
      show ?thesis
      proof (cases c)
        case None
        with Cons.prems resolve a conn b hs fails show ?thesis by auto
      next
        case c: (Some cc')
        obtain r' acts' w4 where rec: "route_connect_loop N node cc' nodes w3 = (r', acts', w4)"
          by (metis prod_cases3)
        with Cons.prems resolve a conn b hs c have eq: "r' = r" "w4 = w'" "acts = node_reset node @ acts'" by auto
        from rec have "connect_marks nodes r acts'" unfolding eq by (rule Cons.IH)
        from connect_marks_next [OF this] show ?thesis by (simp add: eq)
      qed
    qed
  qed
qed

lemma route_connect_nodes_marks:
  assumes "nodes \<noteq> []" and "route_connect_nodes N nodes w = (r, acts, w')"
  shows "connect_marks nodes r acts"
proof -
  obtain node rest where nodes: "nodes = node # rest" using assms(1) by (cases nodes) auto
  have fails: "connect_marks nodes None (node_mark node)" "connect_marks nodes None (CloseConn k # node_mark node)" for k
    using connect_marks_here [of "[]"] connect_marks_here [of "[k]"] by (simp_all add: nodes)
  obtain a w1 where resolve: "op_resolve N (nd_info node) w = (a, w1)" by fastforce
  show ?thesis
  proof (cases a)
    case None
    with assms(2) resolve fails show ?thesis by (auto simp: route_connect_nodes_def nodes)
  next
    case a: (Some addr)
    obtain b w2 where dial: "op_dial N node addr w1 = (b, w2)" by fastforce
    show ?thesis
    proof (cases b)
      case None
      with assms(2) resolve a dial fails show ?thesis by (auto simp: route_connect_nodes_def nodes)
    next
      case b: (Some cc)
      obtain c w3 where hs: "op_handshake N node cc w2 = (c, w3)" by fastforce
      show ?thesis
      proof (cases c)
        case None
        with assms(2) resolve a dial b hs fails show ?thesis by (auto simp: route_connect_nodes_def nodes)
      next
        case c: (Some cn)
        obtain r' acts' w4 where rec: "route_connect_loop N node cn rest w3 = (r', acts', w4)"
          by (metis prod_cases3)
        with assms(2) resolve a dial b hs c have eq: "r' = r" "acts = node_reset node @ acts'"
          by (auto simp: route_connect_nodes_def nodes)
        from connect_marks_next [OF route_connect_loop_marks [OF rec]] show ?thesis by (simp add: nodes eq)
      qed
    qed
  qed
qed

text \<open>
  A connection attempt through a route keeps the fail marks right: a success resets every
  node's marker and the chain's; a failure resets those of the nodes passed, closes at most
  the one connection it holds, and marks exactly the failing node and the chain.
\<close>

theorem route_connect_keeps_marks:
  assumes "rt_nodes r \<noteq> []" and "route_connect N r w = (conn, acts, w')"
  shows "\<exists>node_acts. connect_marks (rt_nodes r) conn node_acts \<and>
    acts = node_acts @ (case rt_chain r of
      None \<Rightarrow> [] | Some name \<Rightarrow> if conn = None then [ChainMark name] else [ChainReset name])"
proof -
  obtain conn' acts' w1 where c: "route_connect_nodes N (rt_nodes r) w = (conn', acts', w1)"
    by (metis prod_cases3)
  with assms(2) have "conn' = conn" by (auto simp: route_connect_def)
  with route_connect_nodes_marks [OF assms(1) c] c assms(2) show ?thesis
    by (auto simp: route_connect_def)
qed

text \<open>A route of two nodes whose second handshake fails.\<close>

definition demo_net :: "(unit, nat) net_ops" where
  "demo_net =
     \<lparr>op_resolve = (\<lambda>i w. (Some (ni_Addr i), w)), op_dial = (\<lambda>n a w. (Some 1, w)),
      op_handshake = (\<lambda>n k w. (if ni_Name (nd_info n) = ''b'' then None else Some (k + 1), w)),
      op_connect = (\<lambda>n k net a w. (Some (k + 10), w))\<rparr>"

theorem route_connect_keeps_marks_witness:
  "\<exists>acts. route_connect demo_net (ChainRoute [demo_node ''a'' [] False, demo_node ''b'' [] False] (Some ''c'')) () =
     (None, acts, ()) \<and> last acts = ChainMark ''c''"
proof -
  let ?r = "ChainRoute [demo_node ''a'' [] False, demo_node ''b'' [] False] (Some ''c'')"
  have c: "route_connect demo_net ?r () =
      (None, [NodeReset ''a'', CloseConn 2, NodeMark ''b'', ChainMark ''c''], ())"
    by (simp add: route_connect_def route_connect_nodes_def demo_net_def demo_node_def node_reset_def
        node_mark_def)
  from route_connect_keeps_marks [OF _ c] c show ?thesis by auto
qed

text \<open>
  When every node of a chain's first hop is dead, the route is empty and the target is dialled
  directly, without the chain.
\<close>

theorem all_dead_dials_directly:
  assumes strat: "selector_strategy strat"
    and hop: "hop_bypass hop = None"
      "hop_selector hop = Some (defaultSelector_Select [failFilter_Filter V m t now, backupFilter_Filter V] strat)"
      "hop_nodes hop = map Some nodes" "2 \<le> length nodes"
    and dead: "\<forall>n\<in>set nodes. ni_Bypass (nd_info n) = None \<and> \<not> fail_alive V m t now n"
    and route: "Chain_Route name (hop # hops) address s = (Some rt, s')"
    and dial: "direct network address w = (c, w')"
  shows "route_Dial N direct rt network address w = (c, [], w')"
proof -
  have cat: "concat (map (\<lambda>n. case n of None \<Rightarrow> [] | Some n \<Rightarrow>
      if bypassed (ni_Bypass (nd_info n)) address then [] else [n]) (map Some ns)) = ns"
    if "\<forall>n\<in>set ns. ni_Bypass (nd_info n) = None" for ns
    using that by (induction ns) (auto simp: bypassed_def)
  have ff: "failFilter_Filter V m t now nodes = []"
    using hop(4) dead by (auto simp: failFilter_Filter_def filter_empty_conv)
  have "fold (\<lambda>f vs. f vs) [failFilter_Filter V m t now, backupFilter_Filter V] nodes = []"
    by (simp add: ff backupFilter_Filter_def)
  then have "fst (defaultSelector_Select [failFilter_Filter V m t now, backupFilter_Filter V] strat s nodes) = None"
    using selector_strategy.select_none_iff [OF strat] by blast
  moreover have "chainHop_Select (Some hop) \<lparr>so_Addr = address, so_Host = [], so_Protocol = []\<rparr> s =
      defaultSelector_Select [failFilter_Filter V m t now, backupFilter_Filter V] strat s nodes"
    using hop cat [of nodes] dead
    by (auto simp: chainHop_Select_def hop_filters_def bypassed_def Let_def)
  ultimately have "rt = ChainRoute [] (Some name)"
    using route by (auto simp: Chain_Route_def split: prod.splits option.splits)
  with dial show ?thesis by (simp add: route_Dial_def)
qed

text \<open>Two nodes, both marked a hundred seconds ago; the direct dial gives the connection 9.\<close>

definition dead_view :: "chain_node sel_view" where
  "dead_view =
     \<lparr>sv_maxFails = (\<lambda>_. None), sv_failTimeout = (\<lambda>_. None), sv_backup = (\<lambda>_. False),
      sv_weight = (\<lambda>_. 0), sv_marker = (\<lambda>_. Some (1, 100))\<rparr>"

definition dead_hop :: "uint64 chain_hop" where
  "dead_hop =
     \<lparr>hop_nodes = map Some [demo_node ''a'' [] False, demo_node ''b'' [] False], hop_bypass = None,
      hop_selector = Some (defaultSelector_Select
        [failFilter_Filter dead_view 1 1000 200, backupFilter_Filter dead_view] roundRobin_Apply)\<rparr>"

theorem all_dead_dials_directly_witness:
  "\<exists>rt s'. Chain_Route ''c'' [dead_hop] ''t:80'' 0 = (Some rt, s') \<and>
     route_Dial demo_net (\<lambda>net a w. (Some 9, w)) rt ''tcp'' ''t:80'' () = (Some 9, [], ())"
proof -
  obtain rt s' where route: "Chain_Route ''c'' [dead_hop] ''t:80'' 0 = (Some rt, s')"
    by (force simp: Chain_Route_def split: prod.splits)
  have dead: "\<forall>n\<in>set [demo_node ''a'' [] False, demo_node ''b'' [] False].
      ni_Bypass (nd_info n) = None \<and> \<not> fail_alive dead_view 1 1000 200 n"
    by (simp add: demo_node_def fail_alive_def dead_view_def)
  from all_dead_dials_directly [OF roundrobin.selector_strategy_axioms _ _ _ _ dead route,
      where direct = "\<lambda>net a w. (Some 9, w)" and N = demo_net] route
  show ?thesis by (auto simp: dead_hop_def)
qed

end
