(* ===== verification/Bytes.thy ===== *)
theory Bytes
  imports Prelude
begin

text \<open>
  Byte strings as lists of octets, with the big-endian integers of \<open>encoding/binary\<close>: writing
  one over the front of a buffer or at an offset, and reading it back.
\<close>

definition be16 :: "uint16 \<Rightarrow> byte list" where
  "be16 v = [ucast (drop_bit 8 v), ucast v]"

definition be32 :: "uint32 \<Rightarrow> byte list" where
  "be32 v = [ucast (drop_bit 24 v), ucast (drop_bit 16 v), ucast (drop_bit 8 v), ucast v]"

definition get16 :: "byte list \<Rightarrow> uint16" where
  "get16 b = or (push_bit 8 (ucast (b ! 0))) (ucast (b ! 1))"

definition get32 :: "byte list \<Rightarrow> uint32" where
  "get32 b =
     or (push_bit 24 (ucast (b ! 0)))
       (or (push_bit 16 (ucast (b ! 1))) (or (push_bit 8 (ucast (b ! 2))) (ucast (b ! 3))))"

text \<open>\<open>copy(b[at:], src)\<close>, and the writes of \<open>PutUint16\<close> and \<open>PutUint32\<close>.\<close>

definition copy_at :: "nat \<Rightarrow> 'a list \<Rightarrow> 'a list \<Rightarrow> 'a list" where
  "copy_at i src b = take (length b) (take i b @ src) @ drop (i + length src) b"

lemma length_be [simp]: "length (be16 v) = 2" "length (be32 w) = 4"
  by (simp_all add: be16_def be32_def)

lemma length_copy_at [simp]: "i \<le> length b \<Longrightarrow> length (copy_at i src b) = length b"
  by (simp add: copy_at_def)

lemma copy_at_fits:
  "i + length src \<le> length b \<Longrightarrow> copy_at i src b = take i b @ src @ drop (i + length src) b"
  by (simp add: copy_at_def)

lemma copy_at_next:
  "length a = i \<Longrightarrow> length src \<le> length b \<Longrightarrow>
   copy_at i src (a @ b) = a @ src @ drop (length src) b"
  by (simp add: copy_at_def)

lemma get16_be16 [simp]: "get16 (be16 v @ b) = v"
  by (simp add: get16_def be16_def) (rule bit_word_eqI, auto simp: bit_simps)

lemma get32_be32 [simp]: "get32 (be32 v @ b) = v"
proof -
  have "bit (get32 (be32 v @ b)) n = bit v n" if "n < 32" for n
  proof -
    from that consider "n < 8" | "8 \<le> n" "n < 16" | "16 \<le> n" "n < 24" | "24 \<le> n" by linarith
    then show ?thesis using that by cases (auto simp: get32_def be32_def bit_simps)
  qed
  then show ?thesis by (intro bit_word_eqI) simp
qed

section \<open>Streams\<close>

text \<open>
  \<open>wr d s\<close> is a write to the inner connection: the number of bytes it took, and whether it
  failed.
\<close>

type_synonym 's writer = "byte list \<Rightarrow> 's \<Rightarrow> (nat \<times> bool) \<times> 's"

text \<open>An inner connection that takes everything, as the bytes it took.\<close>

definition log_wr :: "byte list writer" where
  "log_wr d s = ((length d, False), s @ d)"

text \<open>
  \<open>io.ReadFull\<close> of \<open>n\<close> bytes from a stream that ends after \<open>s\<close>: what it read, and whether that
  is less.
\<close>

definition read_full :: "nat \<Rightarrow> byte list \<Rightarrow> (byte list \<times> bool) \<times> byte list" where
  "read_full n s = ((take n s, length s < n), drop n s)"

lemma read_full_append [simp]: "read_full (length a) (a @ s) = ((a, False), s)"
  by (simp add: read_full_def)

lemma read_full_be16 [simp]: "read_full 2 (be16 v @ s) = ((be16 v, False), s)"
  using read_full_append [of "be16 v" s] by (simp del: read_full_append)

lemma get16_be16_alone [simp]: "get16 (be16 v) = v"
  using get16_be16 [of v "[]"] by simp

end
