(* ===== verification/Icmp.thy ===== *)
theory Icmp
  imports Bytes
begin

text \<open>
  The ICMP tunnel of \<open>internal/util/icmp/conn.go\<close>: datagrams in the data of echo messages.  A
  client's socket is told apart by its echo identifier, which the server's socket shows as the
  port of the client.  The message format of ICMP is that of \<open>golang.org/x/net/icmp\<close>, a
  parameter with the locale \<open>icmp_codec\<close>; the inner socket is the list of what its reads return.
\<close>

section \<open>Messages\<close>

record icmp_message =
  im_flags :: uint16
  im_data :: "byte list"

datatype icmp_error = ErrShortBuffer | ErrInvalidPacket | ErrParse | ErrMarshal | ErrInvalidID | ErrSocket

definition magicNumber :: uint32 where
  "magicNumber = 0x474F5354"

definition messageHeaderLen :: nat where
  "messageHeaderLen = 10"

definition FlagAck :: uint16 where
  "FlagAck = 1"

definition icmp_bufferSize :: nat where
  "icmp_bufferSize = 4096"

definition icmp_Encode :: "icmp_message \<Rightarrow> byte list \<Rightarrow> (icmp_error + nat) \<times> byte list" where
  "icmp_Encode m b =
     (if length b < messageHeaderLen + length (im_data m) then (Inl ErrShortBuffer, b)
      else let b = copy_at 0 (be32 magicNumber) b;
               b = copy_at 4 (be16 (im_flags m)) b;
               b = copy_at 6 (be16 0) b;
               b = copy_at 8 (be16 (of_nat (length (im_data m)))) b;
               b = copy_at messageHeaderLen (im_data m) b
           in (Inr (messageHeaderLen + length (im_data m)), b))"

text \<open>
  \<open>None\<close> is a panic: the end of the slice of the data is computed in 16 bits, and wraps around
  below its start for a length from 65526 on.
\<close>

definition icmp_Decode :: "byte list \<Rightarrow> icmp_message \<Rightarrow> ((icmp_error + nat) \<times> icmp_message) option" where
  "icmp_Decode b m =
     (if length b < messageHeaderLen then Some (Inl ErrShortBuffer, m)
      else if get32 (take 4 b) \<noteq> magicNumber then Some (Inl ErrInvalidPacket, m)
      else let m = m\<lparr>im_flags := get16 (drop 4 b)\<rparr>;
               len = get16 (drop 8 b)
           in if length (drop messageHeaderLen b) < unat len then Some (Inl ErrShortBuffer, m)
              else let to = unat (of_nat messageHeaderLen + len)
                   in if to < messageHeaderLen then None
                      else Some (Inr (messageHeaderLen + unat len),
                                 m\<lparr>im_data := take (to - messageHeaderLen) (drop messageHeaderLen b)\<rparr>))"

section \<open>Packets and addresses\<close>

datatype icmp_addr = IPAddr string | UDPAddr string int | OtherAddr string

datatype icmp_type = TypeEcho | TypeEchoReply | TypeOther int

text \<open>\<open>Echo id seq data\<close>.\<close>

datatype icmp_body = Echo int int "byte list" | OtherBody

record icmp_pkg =
  ic_parse :: "byte list \<Rightarrow> (icmp_type \<times> icmp_body) option"
  ic_marshal :: "icmp_type \<Rightarrow> icmp_body \<Rightarrow> byte list option"

text \<open>What a read of the inner socket returns, and what one of the tunnel does.\<close>

type_synonym packet = "icmp_error + (byte list \<times> icmp_addr)"

datatype icmp_read = Blocked | Panic | Failed icmp_error | Delivered "byte list" icmp_addr

section \<open>The client\<close>

definition no_message :: icmp_message where
  "no_message = \<lparr>im_flags = 0, im_data = []\<rparr>"

fun icmp_client_ReadFrom :: "icmp_pkg \<Rightarrow> int \<Rightarrow> nat \<Rightarrow> packet list \<Rightarrow> icmp_read \<times> packet list" where
  "icmp_client_ReadFrom P cid cap [] = (Blocked, [])"
| "icmp_client_ReadFrom P cid cap (Inl e # es) = (Failed e, es)"
| "icmp_client_ReadFrom P cid cap (Inr (p, addr) # es) =
     (case ic_parse P (take icmp_bufferSize p) of
        None \<Rightarrow> (Failed ErrParse, es)
      | Some (t, OtherBody) \<Rightarrow> icmp_client_ReadFrom P cid cap es
      | Some (t, Echo i seq d) \<Rightarrow>
          if t \<noteq> TypeEchoReply then icmp_client_ReadFrom P cid cap es
          else if i \<noteq> cid then icmp_client_ReadFrom P cid cap es
          else case icmp_Decode d no_message of
            None \<Rightarrow> (Panic, es)
          | Some (Inl e, msg) \<Rightarrow> icmp_client_ReadFrom P cid cap es
          | Some (Inr n, msg) \<Rightarrow>
              if and (im_flags msg) FlagAck = 0 then icmp_client_ReadFrom P cid cap es
              else (Delivered (take cap (im_data msg))
                      (case addr of IPAddr ip \<Rightarrow> UDPAddr ip cid | _ \<Rightarrow> addr), es))"

text \<open>
  A write: the number of bytes and the error it returns, the packet it hands to the inner
  socket, and the sequence counter.  \<open>buf\<close> is the pooled buffer, \<open>send\<close> the inner write.
\<close>

definition icmp_client_WriteTo ::
    "icmp_pkg \<Rightarrow> (byte list \<times> icmp_addr \<Rightarrow> icmp_error option) \<Rightarrow> byte list \<Rightarrow> int \<Rightarrow> byte list \<Rightarrow> icmp_addr \<Rightarrow>
     uint32 \<Rightarrow> (nat \<times> icmp_error option) \<times> (byte list \<times> icmp_addr) option \<times> uint32"
where
  "icmp_client_WriteTo P send buf cid b addr seq =
     (let addr = (case addr of UDPAddr ip port \<Rightarrow> IPAddr ip | _ \<Rightarrow> addr)
      in case icmp_Encode \<lparr>im_flags = 0, im_data = b\<rparr> buf of
           (Inl e, _) \<Rightarrow> ((0, Some e), None, seq)
         | (Inr nn, buf) \<Rightarrow>
             (let seq = seq + 1
              in case ic_marshal P TypeEcho (Echo cid (uint seq) (take nn buf)) of
                   None \<Rightarrow> ((0, Some ErrMarshal), None, seq)
                 | Some wb \<Rightarrow> ((length b, send (wb, addr)), Some (wb, addr), seq)))"

section \<open>The server\<close>

text \<open>
  The last sequence number of each client, an array of 65535 numbers: an index past it is a
  panic.
\<close>

type_synonym icmp_seqs = "nat \<Rightarrow> uint32"

fun icmp_server_ReadFrom ::
    "icmp_pkg \<Rightarrow> nat \<Rightarrow> packet list \<Rightarrow> icmp_seqs \<Rightarrow> icmp_read \<times> packet list \<times> icmp_seqs"
where
  "icmp_server_ReadFrom P cap [] seqs = (Blocked, [], seqs)"
| "icmp_server_ReadFrom P cap (Inl e # es) seqs = (Failed e, es, seqs)"
| "icmp_server_ReadFrom P cap (Inr (p, addr) # es) seqs =
     (case ic_parse P (take icmp_bufferSize p) of
        None \<Rightarrow> (Failed ErrParse, es, seqs)
      | Some (t, OtherBody) \<Rightarrow> icmp_server_ReadFrom P cap es seqs
      | Some (t, Echo i seq d) \<Rightarrow>
          if t \<noteq> TypeEcho \<or> i \<le> 0 then icmp_server_ReadFrom P cap es seqs
          else let k = unat (of_int (i - 1) :: uint16)
               in if k \<ge> 65535 then (Panic, es, seqs)
                  else let seqs = seqs(k := of_int seq)
                       in case icmp_Decode d no_message of
                            None \<Rightarrow> (Panic, es, seqs)
                          | Some (Inl e, msg) \<Rightarrow> icmp_server_ReadFrom P cap es seqs
                          | Some (Inr n, msg) \<Rightarrow>
                              if and (im_flags msg) FlagAck > 0 then icmp_server_ReadFrom P cap es seqs
                              else (Delivered (take cap (im_data msg))
                                      (case addr of IPAddr ip \<Rightarrow> UDPAddr ip i | _ \<Rightarrow> addr), es, seqs))"

definition icmp_server_WriteTo ::
    "icmp_pkg \<Rightarrow> (byte list \<times> icmp_addr \<Rightarrow> icmp_error option) \<Rightarrow> byte list \<Rightarrow> byte list \<Rightarrow> icmp_addr \<Rightarrow>
     icmp_seqs \<Rightarrow> (nat \<times> icmp_error option) \<times> (byte list \<times> icmp_addr) option"
where
  "icmp_server_WriteTo P send buf b addr seqs =
     (let (addr, i) = (case addr of UDPAddr ip port \<Rightarrow> (IPAddr ip, port) | _ \<Rightarrow> (addr, 0))
      in if i \<le> 0 \<or> i > 65535 then ((0, Some ErrInvalidID), None)
         else case icmp_Encode \<lparr>im_flags = FlagAck, im_data = b\<rparr> buf of
           (Inl e, _) \<Rightarrow> ((0, Some e), None)
         | (Inr nn, buf) \<Rightarrow>
             (case ic_marshal P TypeEchoReply (Echo i (uint (seqs (nat (i - 1)))) (take nn buf)) of
                None \<Rightarrow> ((0, Some ErrMarshal), None)
              | Some wb \<Rightarrow> ((length b, send (wb, addr)), Some (wb, addr))))"

section \<open>The message format of the package\<close>

text \<open>
  An echo message is a header of eight bytes, with identifier and sequence number in 16 bits, and
  its data; a message cut short after the header is one with less data.
\<close>

locale icmp_codec =
  fixes P :: icmp_pkg
  assumes parse_marshal: "t = TypeEcho \<or> t = TypeEchoReply \<Longrightarrow> 8 \<le> n \<Longrightarrow>
    \<exists>w. ic_marshal P t (Echo i s d) = Some w \<and>
        ic_parse P (take n w) = Some (t, Echo (i mod 65536) (s mod 65536) (take (n - 8) d))"
begin

lemma marshal_read:
  assumes "t = TypeEcho \<or> t = TypeEchoReply" and "ic_marshal P t (Echo i s d) = Some w"
  shows "ic_parse P (take icmp_bufferSize w) = Some (t, Echo (i mod 65536) (s mod 65536) (take 4088 d))"
  using parse_marshal [OF assms(1), of icmp_bufferSize i s d] assms(2) by (simp add: icmp_bufferSize_def)

end

definition echo_pkg :: icmp_pkg where
  "echo_pkg =
     \<lparr>ic_parse = (\<lambda>b.
        if length b < 8 then None
        else let body = Echo (uint (get16 (drop 4 b))) (uint (get16 (drop 6 b))) (drop 8 b)
             in if b ! 0 = 8 then Some (TypeEcho, body)
                else if b ! 0 = 0 then Some (TypeEchoReply, body)
                else Some (TypeOther (uint (b ! 0)), OtherBody)),
      ic_marshal = (\<lambda>t body. case body of OtherBody \<Rightarrow> None
        | Echo i s d \<Rightarrow>
            (case t of TypeEcho \<Rightarrow> Some ([8, 0, 0, 0] @ be16 (of_int i) @ be16 (of_int s) @ d)
             | TypeEchoReply \<Rightarrow> Some ([0, 0, 0, 0] @ be16 (of_int i) @ be16 (of_int s) @ d)
             | TypeOther _ \<Rightarrow> None))\<rparr>"

interpretation echo_pkg: icmp_codec echo_pkg
proof
  fix t :: icmp_type and n :: nat and i s d
  assume t: "t = TypeEcho \<or> t = TypeEchoReply" and n: "8 \<le> n"
  have cut: "take n ([x, 0, 0, 0] @ be16 a @ be16 b @ d) = [x, 0, 0, 0] @ be16 a @ be16 b @ take (n - 8) d"
    for x :: byte and a b
    using n by (simp add: take_Cons' be16_def eval_nat_numeral)
  have fields: "drop 4 ([x, 0, 0, 0] @ be16 a @ be16 b @ e) = be16 a @ be16 b @ e"
    "drop 6 ([x, 0, 0, 0] @ be16 a @ be16 b @ e) = be16 b @ e"
    "drop 8 ([x, 0, 0, 0] @ be16 a @ be16 b @ e) = e"
    "\<not> length ([x, 0, 0, 0] @ be16 a @ be16 b @ e) < 8"
    "([x, 0, 0, 0] @ be16 a @ be16 b @ e) ! 0 = x" for x :: byte and a b e
    by (simp_all add: be16_def)
  have marshal: "ic_marshal echo_pkg TypeEcho (Echo i s d) = Some ([8, 0, 0, 0] @ be16 (of_int i) @ be16 (of_int s) @ d)"
    "ic_marshal echo_pkg TypeEchoReply (Echo i s d) = Some ([0, 0, 0, 0] @ be16 (of_int i) @ be16 (of_int s) @ d)"
    for i s d by (simp_all add: echo_pkg_def)
  have parse: "ic_parse echo_pkg ([8, 0, 0, 0] @ be16 a @ be16 b @ e) = Some (TypeEcho, Echo (uint a) (uint b) e)"
    "ic_parse echo_pkg ([0, 0, 0, 0] @ be16 a @ be16 b @ e) = Some (TypeEchoReply, Echo (uint a) (uint b) e)" for a b e
    unfolding echo_pkg_def icmp_pkg.simps Let_def fields by simp_all
  have u: "uint (of_int i :: uint16) = i mod 65536" for i by (simp add: uint_word_of_int)
  show "\<exists>w. ic_marshal echo_pkg t (Echo i s d) = Some w \<and>
      ic_parse echo_pkg (take n w) = Some (t, Echo (i mod 65536) (s mod 65536) (take (n - 8) d))"
    using t by (elim disjE) (auto simp only: marshal parse cut u)
qed

section \<open>Encoding and decoding\<close>

definition icmp_frame :: "uint16 \<Rightarrow> byte list \<Rightarrow> byte list" where
  "icmp_frame f d = be32 magicNumber @ be16 f @ be16 0 @ be16 (of_nat (length d)) @ d"

lemma length_icmp_frame [simp]: "length (icmp_frame f d) = 10 + length d"
  by (simp add: icmp_frame_def)

lemma icmp_Encode_frame:
  assumes "10 + length d \<le> length buf"
  shows "icmp_Encode \<lparr>im_flags = f, im_data = d\<rparr> buf = (Inr (10 + length d), icmp_frame f d @ drop (10 + length d) buf)"
proof -
  have "copy_at 0 (be32 magicNumber) buf = be32 magicNumber @ drop 4 buf"
    using copy_at_next [of "[]" 0 "be32 magicNumber" buf] assms by simp
  moreover have "copy_at 4 (be16 f) (be32 magicNumber @ drop 4 buf) = (be32 magicNumber @ be16 f) @ drop 6 buf"
    using copy_at_next [of "be32 magicNumber" 4 "be16 f" "drop 4 buf"] assms by simp
  moreover have "copy_at 6 (be16 0) ((be32 magicNumber @ be16 f) @ drop 6 buf) =
      (be32 magicNumber @ be16 f @ be16 0) @ drop 8 buf"
    using copy_at_next [of "be32 magicNumber @ be16 f" 6 "be16 0" "drop 6 buf"] assms by simp
  moreover have "copy_at 8 (be16 l) ((be32 magicNumber @ be16 f @ be16 0) @ drop 8 buf) =
      (be32 magicNumber @ be16 f @ be16 0 @ be16 l) @ drop 10 buf" for l
    using copy_at_next [of "be32 magicNumber @ be16 f @ be16 0" 8 "be16 l" "drop 8 buf"] assms by simp
  moreover have "copy_at 10 d ((be32 magicNumber @ be16 f @ be16 0 @ be16 l) @ drop 10 buf) =
      (be32 magicNumber @ be16 f @ be16 0 @ be16 l @ d) @ drop (10 + length d) buf" for l
    using copy_at_next [of "be32 magicNumber @ be16 f @ be16 0 @ be16 l" 10 d "drop 10 buf"] assms
    by (simp add: add.commute)
  ultimately show ?thesis
    using assms by (simp only: icmp_Encode_def icmp_message.simps messageHeaderLen_def Let_def icmp_frame_def) simp
qed

text \<open>A frame cut after \<open>k\<close> bytes decodes only when all of its data is there.\<close>

lemma icmp_frame_parts:
  assumes "10 \<le> k"
  shows "get32 (take 4 (icmp_frame f d)) = magicNumber"
    "get16 (drop 4 (take k (icmp_frame f d))) = f"
    "get16 (drop 8 (take k (icmp_frame f d))) = of_nat (length d)"
    "drop 10 (take k (icmp_frame f d)) = take (k - 10) d"
proof -
  have cut: "take k (icmp_frame f d) =
      be32 magicNumber @ be16 f @ be16 0 @ be16 (of_nat (length d)) @ take (k - 10) d"
    using assms by (simp add: icmp_frame_def)
  show "get32 (take 4 (icmp_frame f d)) = magicNumber"
    using get32_be32 [of magicNumber "[]"] by (simp add: icmp_frame_def)
  show "get16 (drop 4 (take k (icmp_frame f d))) = f" "get16 (drop 8 (take k (icmp_frame f d))) = of_nat (length d)"
    "drop 10 (take k (icmp_frame f d)) = take (k - 10) d"
    by (simp_all add: cut)
qed

lemma icmp_Decode_frame:
  assumes "10 \<le> k" and "length d < 65526"
  shows "icmp_Decode (take k (icmp_frame f d)) m =
    Some (if 10 + length d \<le> k then (Inr (10 + length d), \<lparr>im_flags = f, im_data = d\<rparr>)
          else (Inl ErrShortBuffer, m\<lparr>im_flags := f\<rparr>))"
proof -
  have l: "unat (of_nat (length d) :: uint16) = length d" using assms(2) by (intro unat_of_nat_16) simp
  have to: "unat (10 + of_nat (length d) :: uint16) = 10 + length d"
    using unat_of_nat_16 [of "10 + length d"] assms(2) by simp
  show ?thesis
    using assms
    by (auto simp: icmp_Decode_def messageHeaderLen_def icmp_frame_parts Let_def l to min_def)
qed

lemma icmp_Decode_total:
  assumes "length b < 65536"
  shows "icmp_Decode b m \<noteq> None"
proof -
  have "10 + length l \<ge> 0" for l :: "byte list" by simp
  have "\<not> unat (10 + w) < 10" if "unat w \<le> length b - 10" "10 \<le> length b" for w :: uint16
  proof -
    have "unat (10 + w) = 10 + unat w"
      using that assms unat_of_nat_16 [of "10 + unat w"] by simp
    then show ?thesis by simp
  qed
  then show ?thesis by (auto simp: icmp_Decode_def messageHeaderLen_def Let_def)
qed

section \<open>The tunnel delivers\<close>

text \<open>What the other side parses and decodes of a message that was written.\<close>

lemma icmp_codec_frame:
  assumes codec: "icmp_codec P" and t: "t = TypeEcho \<or> t = TypeEchoReply"
    and i: "0 < i" "i < 65536" and d: "length d \<le> 4086"
  obtains w where "ic_marshal P t (Echo i s (icmp_frame f d)) = Some w"
    "ic_parse P (take icmp_bufferSize w) = Some (t, Echo i (s mod 65536) (take 4088 (icmp_frame f d)))"
    "icmp_Decode (take 4088 (icmp_frame f d)) no_message =
      Some (if length d \<le> 4078 then (Inr (10 + length d), \<lparr>im_flags = f, im_data = d\<rparr>)
            else (Inl ErrShortBuffer, no_message\<lparr>im_flags := f\<rparr>))"
proof -
  obtain w where w: "ic_marshal P t (Echo i s (icmp_frame f d)) = Some w"
    using icmp_codec.parse_marshal [OF codec t] by blast
  from icmp_codec.marshal_read [OF codec t w] i have
    "ic_parse P (take icmp_bufferSize w) = Some (t, Echo i (s mod 65536) (take 4088 (icmp_frame f d)))"
    by simp
  with w that d show ?thesis by (simp add: icmp_Decode_frame)
qed

lemma icmp_client_WriteTo_frame:
  assumes "length b \<le> 4086" and "length buf = icmp_bufferSize"
    and "ic_marshal P TypeEcho (Echo cid (uint (seq + 1)) (icmp_frame 0 b)) = Some w"
  shows "icmp_client_WriteTo P send buf cid b (UDPAddr ip port) seq =
    ((length b, send (w, IPAddr ip)), Some (w, IPAddr ip), seq + 1)"
  using assms by (simp add: icmp_client_WriteTo_def icmp_Encode_frame icmp_bufferSize_def Let_def)

lemma icmp_server_WriteTo_frame:
  assumes "length b \<le> 4086" and "length buf = icmp_bufferSize" and "0 < cid" "cid < 65536"
    and "ic_marshal P TypeEchoReply (Echo cid (uint (seqs (nat (cid - 1)))) (icmp_frame FlagAck b)) = Some w"
  shows "icmp_server_WriteTo P send buf b (UDPAddr ip cid) seqs =
    ((length b, send (w, IPAddr ip)), Some (w, IPAddr ip))"
  using assms by (simp add: icmp_server_WriteTo_def icmp_Encode_frame icmp_bufferSize_def Let_def)

lemma seqs_index:
  assumes "0 < i" and "i < 65536"
  shows "unat (of_int (i - 1) :: uint16) = nat (i - 1)" and "nat (i - 1) < 65535"
proof -
  have "unat (of_int (i - 1) :: uint16) = unat (of_nat (nat (i - 1)) :: uint16)" using assms by simp
  also have "\<dots> = nat (i - 1)" by (rule unat_of_nat_16) (use assms in linarith)
  finally show "unat (of_int (i - 1) :: uint16) = nat (i - 1)" .
qed (use assms in linarith)

text \<open>
  A datagram of at most 4078 bytes a client writes into the ICMP tunnel is what the server
  reads from the packet, cut to its buffer: it comes from the client's address with the
  client's identifier as port, and the server remembers the sequence number to answer with.
\<close>

theorem icmp_request_delivered:
  assumes codec: "icmp_codec P" and i: "0 < cid" "cid < 65536"
    and b: "length b \<le> 4078" "length buf = icmp_bufferSize"
  shows "\<exists>w. icmp_client_WriteTo P send buf cid b (UDPAddr ip port) seq =
      ((length b, send (w, IPAddr ip)), Some (w, IPAddr ip), seq + 1) \<and>
    icmp_server_ReadFrom P cap (Inr (w, IPAddr cip) # es) seqs =
      (Delivered (take cap b) (UDPAddr cip cid), es,
       seqs(nat (cid - 1) := of_int (uint (seq + 1) mod 65536)))"
proof -
  obtain w where w: "ic_marshal P TypeEcho (Echo cid (uint (seq + 1)) (icmp_frame 0 b)) = Some w"
    "ic_parse P (take icmp_bufferSize w) = Some (TypeEcho, Echo cid (uint (seq + 1) mod 65536) (take 4088 (icmp_frame 0 b)))"
    "icmp_Decode (take 4088 (icmp_frame 0 b)) no_message = Some (Inr (10 + length b), \<lparr>im_flags = 0, im_data = b\<rparr>)"
    using icmp_codec_frame [OF codec _ i, of TypeEcho b] b(1) by auto
  have "icmp_client_WriteTo P send buf cid b (UDPAddr ip port) seq =
      ((length b, send (w, IPAddr ip)), Some (w, IPAddr ip), seq + 1)"
    using icmp_client_WriteTo_frame [OF _ b(2) w(1)] b(1) by simp
  moreover have "icmp_server_ReadFrom P cap (Inr (w, IPAddr cip) # es) seqs =
      (Delivered (take cap b) (UDPAddr cip cid), es, seqs(nat (cid - 1) := of_int (uint (seq + 1) mod 65536)))"
    using i seqs_index [OF i] by (simp add: w(2,3) Let_def)
  ultimately show ?thesis by blast
qed

theorem icmp_request_delivered_witness:
  "\<exists>w. icmp_client_WriteTo echo_pkg (\<lambda>_. None) (replicate icmp_bufferSize 7) 300 [1, 2, 3] (UDPAddr ''10.0.0.1'' 53) 0 =
      ((3, None), Some (w, IPAddr ''10.0.0.1''), 1) \<and>
    icmp_server_ReadFrom echo_pkg 2 [Inr (w, IPAddr ''10.0.0.2'')] (\<lambda>_. 0) =
      (Delivered [1, 2] (UDPAddr ''10.0.0.2'' 300), [], (\<lambda>_. 0)(299 := 1))"
  using icmp_request_delivered [OF echo_pkg.icmp_codec_axioms, of 300 "[1, 2, 3]" "replicate icmp_bufferSize 7"
      "\<lambda>_. None" "''10.0.0.1''" 53 0 2 "''10.0.0.2''" "[]" "\<lambda>_. 0"]
  by (simp del: icmp_server_ReadFrom.simps add: numeral_3_eq_3)

lemma FlagAck_nonzero: "FlagAck \<noteq> 0"
  by (simp add: FlagAck_def)

text \<open>
  A reply of the server to the address of a client is read by the client of that identifier and
  by no other, and no server takes it for a request.
\<close>

theorem icmp_reply_delivered:
  assumes codec: "icmp_codec P" and i: "0 < cid" "cid < 65536"
    and b: "length b \<le> 4078" "length buf = icmp_bufferSize"
  shows "\<exists>w. icmp_server_WriteTo P send buf b (UDPAddr cip cid) seqs =
      ((length b, send (w, IPAddr cip)), Some (w, IPAddr cip)) \<and>
    icmp_client_ReadFrom P j cap (Inr (w, IPAddr sip) # es) =
      (if j = cid then (Delivered (take cap b) (UDPAddr sip cid), es)
       else icmp_client_ReadFrom P j cap es) \<and>
    icmp_server_ReadFrom P cap (Inr (w, a) # es) seqs' = icmp_server_ReadFrom P cap es seqs'"
proof -
  obtain w where w: "ic_marshal P TypeEchoReply (Echo cid (uint (seqs (nat (cid - 1)))) (icmp_frame FlagAck b)) = Some w"
    "ic_parse P (take icmp_bufferSize w) =
      Some (TypeEchoReply, Echo cid (uint (seqs (nat (cid - 1))) mod 65536) (take 4088 (icmp_frame FlagAck b)))"
    "icmp_Decode (take 4088 (icmp_frame FlagAck b)) no_message = Some (Inr (10 + length b), \<lparr>im_flags = FlagAck, im_data = b\<rparr>)"
    using icmp_codec_frame [OF codec _ i, of TypeEchoReply b] b(1) by auto
  have "icmp_server_WriteTo P send buf b (UDPAddr cip cid) seqs =
      ((length b, send (w, IPAddr cip)), Some (w, IPAddr cip))"
    by (rule icmp_server_WriteTo_frame) (use w(1) b i in simp_all)
  moreover have "icmp_client_ReadFrom P j cap (Inr (w, IPAddr sip) # es) =
      (if j = cid then (Delivered (take cap b) (UDPAddr sip cid), es) else icmp_client_ReadFrom P j cap es)"
    using FlagAck_nonzero by (simp add: w(2,3))
  moreover have "icmp_server_ReadFrom P cap (Inr (w, a) # es) seqs' = icmp_server_ReadFrom P cap es seqs'"
    by (simp add: w(2))
  ultimately show ?thesis by blast
qed

theorem icmp_reply_delivered_witness:
  "\<exists>w. icmp_server_WriteTo echo_pkg (\<lambda>_. None) (replicate icmp_bufferSize 0) [9] (UDPAddr ''10.0.0.2'' 300) (\<lambda>_. 5) =
      ((1, None), Some (w, IPAddr ''10.0.0.2'')) \<and>
    icmp_client_ReadFrom echo_pkg 301 10 [Inr (w, IPAddr ''10.0.0.1'')] = (Blocked, [])"
  using icmp_reply_delivered [OF echo_pkg.icmp_codec_axioms, of 300 "[9]" "replicate icmp_bufferSize 0"
      "\<lambda>_. None" "''10.0.0.2''" "\<lambda>_. 5" 301 10 "''10.0.0.1''" "[]"]
  by (auto simp del: icmp_client_ReadFrom.simps(3) icmp_server_ReadFrom.simps(3))

text \<open>
  A datagram of 4079 to 4086 bytes is accepted for sending, and its packet is longer than the
  buffer it is read into: the server drops it, although the write reported success.
\<close>

theorem icmp_oversize_lost:
  assumes codec: "icmp_codec P" and i: "0 < cid" "cid < 65536"
    and b: "4079 \<le> length b" "length b \<le> 4086" "length buf = icmp_bufferSize"
  shows "\<exists>w. icmp_client_WriteTo P send buf cid b (UDPAddr ip port) seq =
      ((length b, send (w, IPAddr ip)), Some (w, IPAddr ip), seq + 1) \<and>
    icmp_server_ReadFrom P cap (Inr (w, IPAddr cip) # es) seqs =
      icmp_server_ReadFrom P cap es (seqs(nat (cid - 1) := of_int (uint (seq + 1) mod 65536)))"
proof -
  obtain w where w: "ic_marshal P TypeEcho (Echo cid (uint (seq + 1)) (icmp_frame 0 b)) = Some w"
    "ic_parse P (take icmp_bufferSize w) = Some (TypeEcho, Echo cid (uint (seq + 1) mod 65536) (take 4088 (icmp_frame 0 b)))"
    "icmp_Decode (take 4088 (icmp_frame 0 b)) no_message = Some (Inl ErrShortBuffer, no_message\<lparr>im_flags := 0\<rparr>)"
    using icmp_codec_frame [OF codec _ i b(2), of TypeEcho] b(1) by auto
  have "icmp_client_WriteTo P send buf cid b (UDPAddr ip port) seq =
      ((length b, send (w, IPAddr ip)), Some (w, IPAddr ip), seq + 1)"
    using icmp_client_WriteTo_frame [OF b(2,3) w(1)] .
  moreover have "icmp_server_ReadFrom P cap (Inr (w, IPAddr cip) # es) seqs =
      icmp_server_ReadFrom P cap es (seqs(nat (cid - 1) := of_int (uint (seq + 1) mod 65536)))"
    using i seqs_index [OF i] by (simp add: w(2,3) Let_def)
  ultimately show ?thesis by blast
qed

theorem icmp_oversize_lost_witness:
  "\<exists>w. icmp_client_WriteTo echo_pkg (\<lambda>_. None) (replicate icmp_bufferSize 0) 300 (replicate 4080 1) (UDPAddr ''10.0.0.1'' 53) 0 =
      ((4080, None), Some (w, IPAddr ''10.0.0.1''), 1) \<and>
    fst (icmp_server_ReadFrom echo_pkg 5000 [Inr (w, IPAddr ''10.0.0.2'')] (\<lambda>_. 0)) = Blocked"
  using icmp_oversize_lost [OF echo_pkg.icmp_codec_axioms, of 300 "replicate 4080 1" "replicate icmp_bufferSize 0"
      "\<lambda>_. None" "''10.0.0.1''" 53 0 5000 "''10.0.0.2''" "[]" "\<lambda>_. 0"]
  by (auto simp del: icmp_server_ReadFrom.simps(3))

end
