(* ===== verification/ObfsTls.thy ===== *)
theory ObfsTls
  imports Bytes
begin

text \<open>
  The TLS camouflage of \<open>dialer/obfs/tls/conn.go\<close> and \<open>listener/obfs/tls/conn.go\<close>: after a
  faked handshake the data travels in TLS records.  The client strips the record headers in
  place, with a parser that keeps its state between reads (\<open>obfsTLSParser\<close>); the server reads
  whole records.  The messages of the handshake and the record format are those of
  \<open>github.com/go-gost/tls-dissector\<close>, a parameter.
\<close>

section \<open>The parser\<close>

datatype tls_state = StateType | StateVersion0 | StateVersion1 | StateLength0 | StateLength1 | StateData

datatype tls_error = ErrBadType | ErrBadMajorVersion | ErrBadMinorVersion | ErrMaxDataLen

record obfs_parser =
  op_step :: nat
  op_state :: tls_state
  op_length :: uint16

definition maxTLSDataLen :: nat where
  "maxTLSDataLen = 16384"

definition tlsRecordTypes :: "byte list" where
  "tlsRecordTypes = [0x16, 0x14, 0x16, 0x17]"

definition tlsVersionMinors :: "byte list" where
  "tlsVersionMinors = [1, 3, 3, 3]"

text \<open>
  What \<open>Parse\<close> does: it returns a number of bytes with the rewritten buffer, or an error; it
  panics at an index out of range; or it is still running when the fuel is spent.
\<close>

datatype parse_out = Parsed nat "byte list" obfs_parser | ParseErr tls_error obfs_parser | ParsePanic | ParseFuel

text \<open>The parser after the second length byte, and whether it fails with \<open>ErrMaxDataLen\<close>.\<close>

definition obfs_length1 :: "byte \<Rightarrow> obfs_parser \<Rightarrow> bool \<times> obfs_parser" where
  "obfs_length1 ch r =
     (let len = or (op_length r) (ucast ch);
          len = (if op_step r = 0 then 91 else if op_step r = 1 then 1 else len);
          r = r\<lparr>op_length := len\<rparr>
      in if op_step r \<noteq> 0 \<and> op_step r \<noteq> 1 \<and> len > of_nat maxTLSDataLen then (True, r)
         else (False, if len > 0 then r\<lparr>op_state := StateData\<rparr>
                      else r\<lparr>op_state := StateType, op_step := op_step r + 1\<rparr>))"

text \<open>The parser with \<open>n\<close> bytes of a record to come, and after taking \<open>left\<close> bytes.\<close>

definition obfs_left :: "uint16 \<Rightarrow> obfs_parser \<Rightarrow> obfs_parser" where
  "obfs_left n r =
     (let r = r\<lparr>op_length := n\<rparr>
      in if op_length r = 0
         then (if op_step r < 3 then r\<lparr>op_step := op_step r + 1\<rparr> else r)\<lparr>op_state := StateType\<rparr>
         else r)"

definition obfs_took :: "uint16 \<Rightarrow> obfs_parser \<Rightarrow> obfs_parser" where
  "obfs_took left r = obfs_left (op_length r - left) r"

text \<open>The loop of \<open>Parse\<close>, with the variables \<open>i\<close>, \<open>last\<close> and \<open>length\<close> of the code.\<close>

fun obfs_parse_loop :: "nat \<Rightarrow> obfs_parser \<Rightarrow> byte list \<Rightarrow> nat \<Rightarrow> nat \<Rightarrow> nat \<Rightarrow> parse_out" where
  "obfs_parse_loop fuel r b i lst len =
     (if \<not> i < len
      then Parsed (if lst = 0 then 0 else if lst < len then len - lst else len) b r
      else case fuel of
        0 \<Rightarrow> ParseFuel
      | Suc fuel \<Rightarrow>
          (case op_state r of
             StateType \<Rightarrow>
               if op_step r \<ge> length tlsRecordTypes then ParsePanic
               else if tlsRecordTypes ! op_step r \<noteq> b ! i then ParseErr ErrBadType r
               else obfs_parse_loop fuel (r\<lparr>op_state := StateVersion0\<rparr>) b (i + 1) lst len
           | StateVersion0 \<Rightarrow>
               if b ! i \<noteq> 3 then ParseErr ErrBadMajorVersion r
               else obfs_parse_loop fuel (r\<lparr>op_state := StateVersion1\<rparr>) b (i + 1) lst len
           | StateVersion1 \<Rightarrow>
               if op_step r \<ge> length tlsVersionMinors then ParsePanic
               else if b ! i \<noteq> tlsVersionMinors ! op_step r then ParseErr ErrBadMinorVersion r
               else obfs_parse_loop fuel (r\<lparr>op_state := StateLength0\<rparr>) b (i + 1) lst len
           | StateLength0 \<Rightarrow>
               obfs_parse_loop fuel
                 (r\<lparr>op_length := push_bit 8 (ucast (b ! i)), op_state := StateLength1\<rparr>) b (i + 1) lst len
           | StateLength1 \<Rightarrow>
               (case obfs_length1 (b ! i) r of
                  (True, r) \<Rightarrow> ParseErr ErrMaxDataLen r
                | (False, r) \<Rightarrow> obfs_parse_loop fuel r b (i + 1) lst len)
           | StateData \<Rightarrow>
               let left = (of_nat (len - i) :: uint16);
                   left = (if left > op_length r then op_length r else left)
               in if op_step r \<ge> 2
                  then obfs_parse_loop fuel (obfs_took left r)
                         (copy_at lst (take (len - i) (drop i b)) b)
                         (lst + unat left) (lst + unat left) (len - (i - lst))
                  else obfs_parse_loop fuel (obfs_took left r) b (i + unat left) lst len))"

declare obfs_parse_loop.simps [simp del]

definition obfs_Parse :: "nat \<Rightarrow> obfs_parser \<Rightarrow> byte list \<Rightarrow> parse_out" where
  "obfs_Parse fuel r b = obfs_parse_loop fuel r b 0 0 (length b)"

section \<open>What the parser computes\<close>

text \<open>
  The record layer a byte at a time: the payload so far, and the header bytes after the last byte
  of payload.
\<close>

datatype feed_out = Fed obfs_parser "byte list" "byte list" | FeedErr tls_error obfs_parser | FeedPanic

fun obfs_feed :: "obfs_parser \<Rightarrow> byte list \<Rightarrow> byte list \<Rightarrow> byte list \<Rightarrow> feed_out" where
  "obfs_feed r pay hdr [] = Fed r pay hdr"
| "obfs_feed r pay hdr (ch # bs) =
     (case op_state r of
        StateType \<Rightarrow>
          if op_step r \<ge> 4 then FeedPanic
          else if tlsRecordTypes ! op_step r \<noteq> ch then FeedErr ErrBadType r
          else obfs_feed (r\<lparr>op_state := StateVersion0\<rparr>) pay (hdr @ [ch]) bs
      | StateVersion0 \<Rightarrow>
          if ch \<noteq> 3 then FeedErr ErrBadMajorVersion r
          else obfs_feed (r\<lparr>op_state := StateVersion1\<rparr>) pay (hdr @ [ch]) bs
      | StateVersion1 \<Rightarrow>
          if op_step r \<ge> 4 then FeedPanic
          else if ch \<noteq> tlsVersionMinors ! op_step r then FeedErr ErrBadMinorVersion r
          else obfs_feed (r\<lparr>op_state := StateLength0\<rparr>) pay (hdr @ [ch]) bs
      | StateLength0 \<Rightarrow>
          obfs_feed (r\<lparr>op_length := push_bit 8 (ucast ch), op_state := StateLength1\<rparr>) pay (hdr @ [ch]) bs
      | StateLength1 \<Rightarrow>
          (case obfs_length1 ch r of
             (True, r) \<Rightarrow> FeedErr ErrMaxDataLen r
           | (False, r) \<Rightarrow> obfs_feed r pay (hdr @ [ch]) bs)
      | StateData \<Rightarrow>
          if op_step r \<ge> 2 then obfs_feed (obfs_took 1 r) (pay @ [ch]) [] bs
          else obfs_feed (obfs_took 1 r) pay (hdr @ [ch]) bs)"

text \<open>A parser inside a record has bytes of it to come.\<close>

definition obfs_ok :: "obfs_parser \<Rightarrow> bool" where
  "obfs_ok r \<longleftrightarrow> (op_state r = StateData \<longrightarrow> op_length r > 0)"

lemma obfs_left_length [simp]: "obfs_left n (r\<lparr>op_length := m\<rparr>) = obfs_left n r"
  by (simp add: obfs_left_def)

lemma obfs_left_positive: "n \<noteq> 0 \<Longrightarrow> obfs_left n r = r\<lparr>op_length := n\<rparr>"
  by (simp add: obfs_left_def)

lemma obfs_took_more:
  assumes "op_length r > 1"
  shows "obfs_took 1 r = r\<lparr>op_length := op_length r - 1\<rparr>"
    and "obfs_took (of_nat k) (obfs_took 1 r) = obfs_took (of_nat (Suc k)) r"
proof -
  have "op_length r - 1 \<noteq> 0" using assms by auto
  then show one: "obfs_took 1 r = r\<lparr>op_length := op_length r - 1\<rparr>"
    unfolding obfs_took_def by (rule obfs_left_positive)
  have eq: "op_length r - 1 - of_nat k = op_length r - of_nat (Suc k)" by simp
  have sel: "op_length (r\<lparr>op_length := n\<rparr>) = n" for n by simp
  show "obfs_took (of_nat k) (obfs_took 1 r) = obfs_took (of_nat (Suc k)) r"
    unfolding one unfolding obfs_took_def obfs_left_length sel eq by (rule refl)
qed

lemma obfs_feed_data:
  assumes "xs \<noteq> []" and "length xs \<le> unat (op_length r)" and "op_state r = StateData"
  shows "obfs_feed r pay hdr (xs @ ys) =
    obfs_feed (obfs_took (of_nat (length xs)) r) (if op_step r \<ge> 2 then pay @ xs else pay)
      (if op_step r \<ge> 2 then [] else hdr @ xs) ys"
  using assms
proof (induction xs arbitrary: r pay hdr)
  case Nil
  then show ?case by simp
next
  case (Cons x xs)
  show ?case
  proof (cases "xs = []")
    case True
    with Cons.prems show ?thesis by simp
  next
    case False
    with Cons.prems have "1 < unat (op_length r)" by (cases xs) auto
    then have one: "op_length r > 1" by (simp add: word_less_nat_alt)
    have r1: "op_state (obfs_took 1 r) = StateData" "op_step (obfs_took 1 r) = op_step r"
      "op_length (obfs_took 1 r) = op_length r - 1"
      using Cons.prems(3) by (simp_all add: obfs_took_more(1) [OF one])
    have "unat (op_length r - 1) = unat (op_length r) - 1"
      using one by (simp add: unat_sub word_le_nat_alt word_less_nat_alt)
    then have IH: "obfs_feed (obfs_took 1 r) p h (xs @ ys) =
        obfs_feed (obfs_took (of_nat (Suc (length xs))) r) (if op_step r \<ge> 2 then p @ xs else p)
          (if op_step r \<ge> 2 then [] else h @ xs) ys" for p h
      using Cons.IH [of "obfs_took 1 r" p h] Cons.prems(2) False r1 obfs_took_more(2) [OF one, of "length xs"]
      by (simp del: of_nat_Suc)
    show ?thesis using Cons.prems(3) by (simp add: IH del: of_nat_Suc)
  qed
qed

lemma obfs_ok_took: "obfs_ok (obfs_took left r)"
  by (auto simp: obfs_ok_def obfs_took_def obfs_left_def Let_def word_gt_0)

lemma obfs_ok_length1: "obfs_length1 ch r = (e, r') \<Longrightarrow> obfs_ok r'  \<or> op_state r' = op_state r"
  by (auto simp: obfs_ok_def obfs_length1_def Let_def split: if_splits)

text \<open>The bytes \<open>Parse\<close> returns for a payload and the header bytes after it.\<close>

definition parse_bytes :: "byte list \<Rightarrow> byte list \<Rightarrow> byte list" where
  "parse_bytes pay hdr =
     (if pay = [] then [] else if hdr = [] then pay else take (length hdr) (pay @ hdr))"

definition parse_matches :: "feed_out \<Rightarrow> parse_out \<Rightarrow> bool" where
  "parse_matches f out =
     (case f of
        Fed r pay hdr \<Rightarrow> (\<exists>n b. out = Parsed n b r \<and> take n b = parse_bytes pay hdr \<and> n = length (parse_bytes pay hdr))
      | FeedErr e r \<Rightarrow> out = ParseErr e r
      | FeedPanic \<Rightarrow> out = ParsePanic)"

lemma parse_matches_errors [simp]:
  "parse_matches (FeedErr e r) (ParseErr e r)" "parse_matches FeedPanic ParsePanic"
  by (simp_all add: parse_matches_def)

lemma obfs_parse_done:
  assumes "b1 = pay @ hdr" and "take (length b1) b = b1"
  shows "parse_matches (Fed r pay hdr) (obfs_parse_loop fuel r b (length b1) (length pay) (length b1))"
proof -
  have "take k b = take k (pay @ hdr)" if "k \<le> length (pay @ hdr)" for k
    using assms that by (metis min.absorb1 take_take)
  from this [of "length hdr"] this [of "length pay"] show ?thesis
    using assms(1) by (auto simp: parse_matches_def parse_bytes_def obfs_parse_loop.simps)
qed

lemma obfs_parse_feed:
  assumes "obfs_ok r" and "length rest \<le> fuel" and "length pay + length hdr + length rest < 65536"
    and "take (length pay + length hdr + length rest) b = pay @ hdr @ rest"
  shows "parse_matches (obfs_feed r pay hdr rest)
    (obfs_parse_loop fuel r b (length pay + length hdr) (length pay) (length pay + length hdr + length rest))"
  using assms
proof (induction fuel arbitrary: r pay hdr rest b)
  case 0
  then show ?case using obfs_parse_done [of "pay @ hdr" pay hdr b r 0] by simp
next
  case (Suc fuel)
  show ?case
  proof (cases rest)
    case Nil
    with Suc.prems show ?thesis using obfs_parse_done [of "pay @ hdr" pay hdr b r "Suc fuel"] by simp
  next
    case (Cons ch bs)
    let ?i = "length pay + length hdr"
    have at: "b ! ?i = ch"
    proof -
      have "take (?i + length rest) b ! ?i = ch"
        unfolding Suc.prems(4) using Cons by (simp add: nth_append)
      then show ?thesis using Cons by simp
    qed
    have hdr: "parse_matches (obfs_feed r' pay (hdr @ [ch]) bs)
        (obfs_parse_loop fuel r' b (?i + 1) (length pay) (?i + length rest))" if "obfs_ok r'" for r'
      using Suc.IH [OF that, of bs pay "hdr @ [ch]" b] Suc.prems(2-4) Cons by (simp add: add.assoc)
    show ?thesis
    proof (cases "op_state r = StateData")
      case False
      have lt: "?i < ?i + length rest" using Cons by simp
      consider (type) "op_state r = StateType" | (v0) "op_state r = StateVersion0"
        | (v1) "op_state r = StateVersion1" | (l0) "op_state r = StateLength0" | (l1) "op_state r = StateLength1"
        using False by (cases "op_state r") auto
      then show ?thesis
      proof cases
        case type
        with hdr [of "r\<lparr>op_state := StateVersion0\<rparr>"] lt show ?thesis
          by (subst obfs_parse_loop.simps)
            (auto simp: Cons at tlsRecordTypes_def obfs_ok_def)
      next
        case v0
        with hdr [of "r\<lparr>op_state := StateVersion1\<rparr>"] lt show ?thesis
          by (subst obfs_parse_loop.simps) (auto simp: Cons at obfs_ok_def)
      next
        case v1
        with hdr [of "r\<lparr>op_state := StateLength0\<rparr>"] lt show ?thesis
          by (subst obfs_parse_loop.simps)
            (auto simp: Cons at tlsVersionMinors_def obfs_ok_def)
      next
        case l0
        with hdr [of "r\<lparr>op_length := push_bit 8 (ucast ch), op_state := StateLength1\<rparr>"] lt show ?thesis
          by (subst obfs_parse_loop.simps) (auto simp: Cons at obfs_ok_def)
      next
        case l1
        obtain e r' where lr: "obfs_length1 ch r = (e, r')" by fastforce
        with l1 have "obfs_ok r'" by (auto simp: obfs_ok_def obfs_length1_def Let_def split: if_splits)
        with hdr [of r'] lt l1 lr show ?thesis
          by (cases e; subst obfs_parse_loop.simps) (auto simp: Cons at)
      qed
    next
      case data: True
      define left where "left = (if (of_nat (length rest) :: uint16) > op_length r then op_length r else (of_nat (length rest) :: uint16))"
      define k where "k = unat left"
      have n: "unat (of_nat (length rest) :: uint16) = length rest"
        using Suc.prems(3) by (intro unat_of_nat_16) simp
      have pos: "0 < unat (op_length r)" using Suc.prems(1) data by (simp add: obfs_ok_def word_less_nat_alt)
      have k: "0 < k" "k \<le> length rest" "k \<le> unat (op_length r)"
        using n pos Cons by (auto simp: k_def left_def word_less_nat_alt)
      have ne: "rest \<noteq> []" using Cons by simp
      have left: "left = of_nat k" by (simp add: k_def)
      have feed: "obfs_feed r pay hdr rest = obfs_feed (obfs_took left r)
          (if op_step r \<ge> 2 then pay @ take k rest else pay)
          (if op_step r \<ge> 2 then [] else hdr @ take k rest) (drop k rest)"
        using obfs_feed_data [of "take k rest" r pay hdr "drop k rest"] k data Cons
        unfolding left by (simp add: min_def)
      have loop: "obfs_parse_loop (Suc fuel) r b ?i (length pay) (?i + length rest) =
          (if op_step r \<ge> 2
           then obfs_parse_loop fuel (obfs_took left r) (copy_at (length pay) (take (length rest) (drop ?i b)) b)
                  (length pay + k) (length pay + k) (length pay + length rest)
           else obfs_parse_loop fuel (obfs_took left r) b (?i + k) (length pay) (?i + length rest))"
        using data ne by (subst obfs_parse_loop.simps) (simp add: k_def left_def Let_def)
      have sum: "min (length rest) k = k" "k + (length rest - k) = length rest" using k by simp_all
      show ?thesis
      proof (cases "op_step r \<ge> 2")
        case True
        have "take (length rest) (drop ?i b) = rest"
          using arg_cong [OF Suc.prems(4), of "drop ?i"] by (simp add: drop_take)
        moreover have "take (length pay) b = pay"
          using arg_cong [OF Suc.prems(4), of "take (length pay)"] by (simp add: min_def)
        moreover have "?i + length rest \<le> length b"
          using arg_cong [OF Suc.prems(4), of length] by simp
        ultimately have b: "take (length pay + length rest) (copy_at (length pay) rest b) = pay @ rest"
          and copy: "take (length rest) (drop ?i b) = rest"
          by (simp_all add: copy_at_fits)
        show ?thesis
          unfolding feed loop copy
          using True k b Suc.prems(2,3) Suc.IH [OF obfs_ok_took, of "drop k rest" "pay @ take k rest" "[]"
            "copy_at (length pay) rest b" left r]
          by (simp add: sum add.assoc)
      next
        case False
        show ?thesis
          unfolding feed loop
          using False k Suc.prems(2-4) Suc.IH [OF obfs_ok_took, of "drop k rest" pay "hdr @ take k rest" b left r]
          by (simp add: sum add.assoc)
      qed
    qed
  qed
qed

section \<open>The connections\<close>

text \<open>
  What the code calls of the dissector: a record as it is written, the client's hello with its
  ticket and host, its session and extensions once decoded (an extension may fail to encode),
  and the server's hello for a session.
\<close>

record tls_pkg =
  tp_record :: "byte \<Rightarrow> uint16 \<Rightarrow> byte list \<Rightarrow> byte list"
  tp_clientHello :: "byte list \<Rightarrow> string \<Rightarrow> byte list option"
  tp_decode :: "byte list \<Rightarrow> (byte list \<times> (uint16 \<times> byte list option) list) option"
  tp_serverHello :: "byte list \<Rightarrow> byte list option"

definition ExtSessionTicket :: uint16 where
  "ExtSessionTicket = 35"

text \<open>
  The loop of \<open>Write\<close>, the same in client and server: whether it failed, and the buffer of the
  handshake's answer.  The answer leaves with the first record, and the loop ends there.
\<close>

function obfs_write_loop :: "tls_pkg \<Rightarrow> 's writer \<Rightarrow> byte list \<Rightarrow> byte list \<Rightarrow> 's \<Rightarrow> bool \<times> byte list \<times> 's" where
  "obfs_write_loop P wr wbuf b s =
     (if b = [] then (False, wbuf, s)
      else let data = (if length b > maxTLSDataLen then take maxTLSDataLen b else b);
               rest = (if length b > maxTLSDataLen then drop maxTLSDataLen b else [])
           in if wbuf \<noteq> []
              then (let out = wbuf @ tp_record P 0x16 0x0303 data
                    in case wr out s of
                         ((n, e), s') \<Rightarrow> (e \<or> n \<noteq> length out, drop n out, s'))
              else (case wr (tp_record P 0x17 0x0303 data) s of
                      ((n, True), s') \<Rightarrow> (True, wbuf, s')
                    | ((n, False), s') \<Rightarrow> obfs_write_loop P wr wbuf rest s'))"
  by pat_completeness auto
termination
  by (relation "measure (\<lambda>(P, wr, wbuf, b, s). length b)") (auto simp: maxTLSDataLen_def)

declare obfs_write_loop.simps [simp del]

lemma obfs_write_loop_Nil [simp]: "obfs_write_loop P wr wbuf [] s = (False, wbuf, s)"
  by (simp add: obfs_write_loop.simps)

text \<open>The client: \<open>Write\<close> hands its first data to the handshake.  The buffer stays empty.\<close>

definition obfs_client_handshake :: "tls_pkg \<Rightarrow> string \<Rightarrow> 's writer \<Rightarrow> byte list \<Rightarrow> 's \<Rightarrow> bool \<times> 's" where
  "obfs_client_handshake P host wr payload s =
     (case tp_clientHello P payload host of
        None \<Rightarrow> (True, s)
      | Some b \<Rightarrow> (case wr (tp_record P 0x16 0x0301 b) s of ((n, e), s') \<Rightarrow> (e, s')))"

definition obfs_client_Handshake ::
    "tls_pkg \<Rightarrow> string \<Rightarrow> 's writer \<Rightarrow> byte list \<Rightarrow> bool \<times> 's \<Rightarrow> bool \<times> (bool \<times> 's)"
where
  "obfs_client_Handshake P host wr payload st =
     (case st of (handshaked, s) \<Rightarrow>
       if handshaked then (False, (handshaked, s))
       else case obfs_client_handshake P host wr payload s of
         (True, s') \<Rightarrow> (True, (False, s'))
       | (False, s') \<Rightarrow> (False, (True, s')))"

definition obfs_client_Write ::
    "tls_pkg \<Rightarrow> string \<Rightarrow> 's writer \<Rightarrow> byte list \<Rightarrow> bool \<times> 's \<Rightarrow> (nat \<times> bool) \<times> (bool \<times> 's)"
where
  "obfs_client_Write P host wr b st =
     (if \<not> fst st
      then (case obfs_client_Handshake P host wr b st of (e, st') \<Rightarrow> ((length b, e), st'))
      else (case obfs_write_loop P wr [] b (snd st) of (e, _, s') \<Rightarrow> ((length b, e), (fst st, s'))))"

text \<open>\<open>Read\<close> of the client, given what the inner read returned (bytes and an error).\<close>

datatype obfs_read = ReadOk "byte list" obfs_parser | ReadInnerErr "byte list" obfs_parser
  | ReadParseErr tls_error obfs_parser | ReadPanic | ReadLoops

definition obfs_client_Read :: "obfs_parser \<Rightarrow> byte list \<times> bool \<Rightarrow> obfs_read" where
  "obfs_client_Read r inner =
     (case inner of
        (b, True) \<Rightarrow> ReadInnerErr b r
      | (b, False) \<Rightarrow>
          if length b > 0
          then (case obfs_Parse (length b) r b of
                  Parsed n b r' \<Rightarrow> ReadOk (take n b) r'
                | ParseErr e r' \<Rightarrow> ReadParseErr e r'
                | ParsePanic \<Rightarrow> ReadPanic
                | ParseFuel \<Rightarrow> ReadLoops)
          else ReadOk [] r)"

text \<open>
  The server.  \<open>rd\<close> reads a record: its type and content, or an error.  The answer of its
  handshake waits in \<open>wbuf\<close> for the first write.
\<close>

record obfs_server =
  os_rbuf :: "byte list"
  os_wbuf :: "byte list"
  os_handshaked :: bool

definition obfs_ticket :: "(uint16 \<times> byte list option) list \<Rightarrow> byte list option option" where
  "obfs_ticket exts = (case filter (\<lambda>(t, _). t = ExtSessionTicket) exts of [] \<Rightarrow> None | (_, b) # _ \<Rightarrow> Some b)"

definition obfs_server_handshake ::
    "tls_pkg \<Rightarrow> ('s \<Rightarrow> (byte \<times> byte list) option \<times> 's) \<Rightarrow> obfs_server \<times> 's \<Rightarrow> bool \<times> (obfs_server \<times> 's)"
where
  "obfs_server_handshake P rd st =
     (case st of (c, s) \<Rightarrow>
       case rd s of
         (None, s') \<Rightarrow> (True, (c, s'))
       | (Some (t, opaque), s') \<Rightarrow>
           if t \<noteq> 0x16 then (True, (c, s'))
           else case tp_decode P opaque of
             None \<Rightarrow> (True, (c, s'))
           | Some (session, exts) \<Rightarrow>
               (case obfs_ticket exts of
                  Some None \<Rightarrow> (True, (c, s'))
                | ticket \<Rightarrow>
                    let c = c\<lparr>os_rbuf := os_rbuf c @ (case ticket of Some (Some b) \<Rightarrow> b | _ \<Rightarrow> [])\<rparr>
                    in case tp_serverHello P session of
                         None \<Rightarrow> (True, (c, s'))
                       | Some b \<Rightarrow>
                           (False,
                            (c\<lparr>os_wbuf := os_wbuf c @ tp_record P 0x16 0x0301 b @ tp_record P 0x14 0x0303 [1]\<rparr>, s'))))"

definition obfs_server_Handshake ::
    "tls_pkg \<Rightarrow> ('s \<Rightarrow> (byte \<times> byte list) option \<times> 's) \<Rightarrow> obfs_server \<times> 's \<Rightarrow> bool \<times> (obfs_server \<times> 's)"
where
  "obfs_server_Handshake P rd st =
     (if os_handshaked (fst st) then (False, st)
      else case obfs_server_handshake P rd st of
        (True, st') \<Rightarrow> (True, st')
      | (False, (c, s)) \<Rightarrow> (False, (c\<lparr>os_handshaked := True\<rparr>, s)))"

definition obfs_server_Read ::
    "tls_pkg \<Rightarrow> ('s \<Rightarrow> (byte \<times> byte list) option \<times> 's) \<Rightarrow> nat \<Rightarrow> obfs_server \<times> 's \<Rightarrow>
     (byte list \<times> bool) \<times> (obfs_server \<times> 's)"
where
  "obfs_server_Read P rd cap st =
     (case obfs_server_Handshake P rd st of
        (True, st') \<Rightarrow> (([], True), st')
      | (False, (c, s)) \<Rightarrow>
          if length (os_rbuf c) > 0
          then ((take cap (os_rbuf c), False), (c\<lparr>os_rbuf := drop cap (os_rbuf c)\<rparr>, s))
          else (case rd s of
                  (None, s') \<Rightarrow> (([], True), (c, s'))
                | (Some (_, opaque), s') \<Rightarrow>
                    ((take cap opaque, False), (c\<lparr>os_rbuf := os_rbuf c @ drop cap opaque\<rparr>, s'))))"

definition obfs_server_Write ::
    "tls_pkg \<Rightarrow> ('s \<Rightarrow> (byte \<times> byte list) option \<times> 's) \<Rightarrow> 's writer \<Rightarrow> byte list \<Rightarrow> obfs_server \<times> 's \<Rightarrow>
     (nat \<times> bool) \<times> (obfs_server \<times> 's)"
where
  "obfs_server_Write P rd wr b st =
     (case obfs_server_Handshake P rd st of
        (True, st') \<Rightarrow> ((0, True), st')
      | (False, (c, s)) \<Rightarrow>
          (case obfs_write_loop P wr (os_wbuf c) b s of
             (e, wbuf, s') \<Rightarrow> ((length b, e), (c\<lparr>os_wbuf := wbuf\<rparr>, s'))))"

section \<open>The stream of the server\<close>

lemma obfs_feed_append:
  "obfs_feed r pay hdr (xs @ ys) =
   (case obfs_feed r pay hdr xs of Fed r p h \<Rightarrow> obfs_feed r p h ys | e \<Rightarrow> e)"
  by (induction xs arbitrary: r pay hdr) (auto split: tls_state.split prod.split bool.split)

lemma obfs_feed_shift:
  "obfs_feed r pay hdr bs =
   (case obfs_feed r [] [] bs of
      Fed r p h \<Rightarrow> Fed r (pay @ p) (if p = [] then hdr @ h else h) | e \<Rightarrow> e)"
proof (induction bs arbitrary: r pay hdr)
  case Nil
  then show ?case by simp
next
  case (Cons x bs)
  have hd: "obfs_feed r' pay (hdr @ [x]) bs =
      (case obfs_feed r' [] [x] bs of Fed r p h \<Rightarrow> Fed r (pay @ p) (if p = [] then hdr @ h else h) | e \<Rightarrow> e)" for r' x
    using Cons.IH [of r' pay "hdr @ [x]"] Cons.IH [of r' "[]" "[x]"] by (cases "obfs_feed r' [] [] bs") simp_all
  have py: "obfs_feed r' (pay @ [x]) [] bs =
      (case obfs_feed r' [x] [] bs of Fed r p h \<Rightarrow> Fed r (pay @ p) (if p = [] then hdr @ h else h) | e \<Rightarrow> e)" for r' x
    using Cons.IH [of r' "pay @ [x]" "[]"] Cons.IH [of r' "[x]" "[]"] by (cases "obfs_feed r' [] [] bs") simp_all
  show ?case
    by (cases "op_state r") (auto simp: hd py split: prod.split bool.split)
qed

text \<open>The parser between records, at its \<open>k\<close>th kind of record.\<close>

definition obfs_at :: "nat \<Rightarrow> obfs_parser" where
  "obfs_at k = \<lparr>op_step = k, op_state = StateType, op_length = 0\<rparr>"

definition tls_bytes :: "byte \<Rightarrow> uint16 \<Rightarrow> byte list \<Rightarrow> byte list" where
  "tls_bytes t v d = t # be16 v @ be16 (of_nat (length d)) @ d"

lemma obfs_feed_record:
  assumes k: "k < 4" and d: "d \<noteq> []" "length d \<le> maxTLSDataLen"
    and fixed: "k = 0 \<longrightarrow> length d = 91" "k = 1 \<longrightarrow> length d = 1"
    and v: "be16 v = [3, tlsVersionMinors ! k]"
  shows "obfs_feed (obfs_at k) pay hdr (tls_bytes (tlsRecordTypes ! k) v d) =
    Fed (obfs_at (if k < 3 then k + 1 else k)) (if k \<ge> 2 then pay @ d else pay)
      (if k \<ge> 2 then [] else hdr @ tls_bytes (tlsRecordTypes ! k) v d)"
proof -
  have len: "unat (of_nat (length d) :: uint16) = length d"
    using d(2) by (intro unat_of_nat_16) (simp add: maxTLSDataLen_def)
  define n where "n = (of_nat (length d) :: uint16)"
  have pos: "n > 0" "\<not> n > of_nat maxTLSDataLen"
    using d len by (simp_all add: n_def word_less_nat_alt maxTLSDataLen_def)
  have nk: "k = 0 \<longrightarrow> n = 91" "k = 1 \<longrightarrow> n = 1" using fixed by (auto simp: n_def)
  obtain hi lo where bytes: "be16 n = [hi, lo]" by (simp add: be16_def)
  then have hl: "or (push_bit 8 (ucast hi)) (ucast lo) = n"
    using get16_be16 [of n "[]"] by (simp add: get16_def)
  let ?r = "\<lparr>op_step = k, op_state = StateData, op_length = n\<rparr>"
  have l1: "obfs_length1 lo \<lparr>op_step = k, op_state = StateLength1, op_length = push_bit 8 (ucast hi)\<rparr> = (False, ?r)"
    using pos nk by (simp add: obfs_length1_def Let_def hl)
  have head: "obfs_feed (obfs_at k) pay hdr (tls_bytes (tlsRecordTypes ! k) v d) =
      obfs_feed ?r pay (hdr @ tlsRecordTypes ! k # be16 v @ be16 n) d"
    using k unfolding tls_bytes_def v n_def [symmetric] bytes by (simp add: obfs_at_def l1)
  have took: "obfs_took n ?r = obfs_at (if k < 3 then k + 1 else k)"
    by (simp add: obfs_took_def obfs_left_def obfs_at_def Let_def)
  show ?thesis
    unfolding head using obfs_feed_data [of d ?r pay "hdr @ tlsRecordTypes ! k # be16 v @ be16 n" "[]"] d(1) len
    by (simp add: took tls_bytes_def flip: n_def)
qed

definition tls_records :: "tls_pkg \<Rightarrow> bool" where
  "tls_records P \<longleftrightarrow> (\<forall>t v d. length d \<le> maxTLSDataLen \<longrightarrow> tp_record P t v d = tls_bytes t v d)"

lemma obfs_record_kinds:
  "be16 0x0301 = [3, tlsVersionMinors ! 0]" "be16 0x0303 = [3, tlsVersionMinors ! 1]"
  "be16 0x0303 = [3, tlsVersionMinors ! 2]" "be16 0x0303 = [3, tlsVersionMinors ! 3]"
  "tlsRecordTypes ! 0 = 0x16" "tlsRecordTypes ! 1 = 0x14" "tlsRecordTypes ! 2 = 0x16" "tlsRecordTypes ! 3 = 0x17"
  by code_simp+

lemma obfs_feed_appdata:
  "d \<noteq> [] \<Longrightarrow> length d \<le> maxTLSDataLen \<Longrightarrow>
   obfs_feed (obfs_at 3) [] [] (tls_bytes 0x17 0x0303 d) = Fed (obfs_at 3) d []"
  using obfs_feed_record [of 3 d, OF _ _ _ _ _ obfs_record_kinds(4), of "[]" "[]"]
  by (simp add: obfs_record_kinds(8))

lemma obfs_write_loop_stream:
  assumes "tls_records P"
  shows "\<exists>out. obfs_write_loop P log_wr [] b s = (False, [], s @ out) \<and>
    obfs_feed (obfs_at 3) [] [] out = Fed (obfs_at 3) b []"
proof (induction b arbitrary: s rule: length_induct)
  case (1 b)
  show ?case
  proof (cases "b = []")
    case True
    then show ?thesis by (intro exI [of _ "[]"]) (simp add: obfs_write_loop.simps)
  next
    case False
    let ?data = "take maxTLSDataLen b" and ?rest = "drop maxTLSDataLen b"
    have "length ?rest < length b" using False by (simp add: maxTLSDataLen_def)
    with 1 obtain out where out:
      "obfs_write_loop P log_wr [] ?rest (s @ tls_bytes 0x17 0x0303 ?data) =
        (False, [], (s @ tls_bytes 0x17 0x0303 ?data) @ out)"
      "obfs_feed (obfs_at 3) [] [] out = Fed (obfs_at 3) ?rest []"
      by blast
    have "tp_record P 0x17 0x0303 ?data = tls_bytes 0x17 0x0303 ?data"
      using assms by (simp add: tls_records_def)
    then have "obfs_write_loop P log_wr [] b s = (False, [], s @ tls_bytes 0x17 0x0303 ?data @ out)"
      using False out(1) by (subst obfs_write_loop.simps) (auto simp: Let_def log_wr_def)
    moreover have "obfs_feed (obfs_at 3) [] [] (tls_bytes 0x17 0x0303 ?data @ out) = Fed (obfs_at 3) b []"
      using obfs_feed_appdata [of ?data] obfs_feed_shift [of "obfs_at 3" ?data "[]" out] out(2) False
      by (simp add: obfs_feed_append maxTLSDataLen_def)
    ultimately show ?thesis by blast
  qed
qed

lemma obfs_first_write:
  assumes "wbuf \<noteq> []" and "b \<noteq> []"
  shows "obfs_write_loop P log_wr wbuf b s =
    (False, [], s @ wbuf @ tp_record P 0x16 0x0303 (take maxTLSDataLen b))"
  using assms by (subst obfs_write_loop.simps) (simp add: Let_def log_wr_def)

text \<open>Successive writes of the server, and successive reads of the client.\<close>

definition obfs_server_Writes ::
    "tls_pkg \<Rightarrow> (byte list \<Rightarrow> (byte \<times> byte list) option \<times> byte list) \<Rightarrow> byte list list \<Rightarrow>
     obfs_server \<times> byte list \<Rightarrow> obfs_server \<times> byte list"
where
  "obfs_server_Writes P rd bs st = fold (\<lambda>b st. snd (obfs_server_Write P rd log_wr b st)) bs st"

fun obfs_reads :: "obfs_parser \<Rightarrow> byte list list \<Rightarrow> byte list option" where
  "obfs_reads r [] = Some []"
| "obfs_reads r (c # cs) =
     (case obfs_client_Read r (c, False) of
        ReadOk b r' \<Rightarrow> map_option (\<lambda>bs. b @ bs) (obfs_reads r' cs)
      | _ \<Rightarrow> None)"

text \<open>No read of the inner connection ends with header bytes after payload bytes.\<close>

fun obfs_cut_ok :: "obfs_parser \<Rightarrow> byte list list \<Rightarrow> bool" where
  "obfs_cut_ok r [] = True"
| "obfs_cut_ok r (c # cs) =
     (case obfs_feed r [] [] c of
        Fed r' pay hdr \<Rightarrow> length c < 65536 \<and> (pay = [] \<or> hdr = []) \<and> obfs_cut_ok r' cs
      | _ \<Rightarrow> length c < 65536)"

section \<open>Properties\<close>

text \<open>
  The client's in-place parser computes the record layer: for a read of less than 65536 bytes it
  ends with the state, the error or the panic the byte-wise automaton reaches, and returns the
  payload, unless header bytes follow the payload, where it returns only as many bytes of the
  payload as there are such header bytes.
\<close>

theorem obfs_Parse_record_layer:
  assumes "obfs_ok r" and "length b < 65536"
  shows "case obfs_feed r [] [] b of
      FeedErr e r' \<Rightarrow> obfs_Parse (length b) r b = ParseErr e r'
    | FeedPanic \<Rightarrow> obfs_Parse (length b) r b = ParsePanic
    | Fed r' pay hdr \<Rightarrow>
        (\<exists>n b'. obfs_Parse (length b) r b = Parsed n b' r' \<and>
           take n b' = (if pay = [] then [] else if hdr = [] then pay else take (length hdr) (pay @ hdr)))"
  using obfs_parse_feed [OF assms(1), of b "length b" "[]" "[]" b] assms(2)
  by (auto simp: obfs_Parse_def parse_matches_def parse_bytes_def split: feed_out.splits)

text \<open>A record of 3 bytes with the first two bytes of the next header in one read: a byte is lost.\<close>

definition demo_record :: "byte list" where
  "demo_record = [0x17, 3, 3, 0, 3, 1, 2, 3, 0x17, 3]"

theorem obfs_Parse_record_layer_witness:
  "\<exists>n b' r'. obfs_Parse 10 (obfs_at 3) demo_record = Parsed n b' r' \<and> take n b' = [1, 2] \<and>
     op_state r' = StateVersion1"
proof -
  have f: "(case obfs_feed (obfs_at 3) [] [] demo_record of
      Fed r pay hdr \<Rightarrow> op_state r = StateVersion1 \<and> pay = [1, 2, 3] \<and> hdr = [0x17, 3] | _ \<Rightarrow> False)"
    by code_simp
  have "obfs_ok (obfs_at 3)" "length demo_record = 10" by code_simp+
  with obfs_Parse_record_layer [of "obfs_at 3" demo_record] f show ?thesis
    by (auto split: feed_out.splits)
qed

lemma obfs_feed_ok: "obfs_ok r \<Longrightarrow> obfs_feed r pay hdr bs = Fed r' p h \<Longrightarrow> obfs_ok r'"
proof (induction bs arbitrary: r pay hdr)
  case Nil
  then show ?case by simp
next
  case (Cons x bs)
  have l1: "obfs_ok r1" if "obfs_length1 x r = (False, r1)" "op_state r = StateLength1" for r1
    using obfs_ok_length1 [OF that(1)] that by (auto simp: obfs_ok_def obfs_length1_def Let_def split: if_splits)
  have IH: "obfs_feed r1 a b bs = Fed r' p h \<Longrightarrow> obfs_ok r1 \<Longrightarrow> obfs_ok r'" for r1 a b
    by (rule Cons.IH)
  have plain: "obfs_ok (r\<lparr>op_state := t\<rparr>)" "obfs_ok (r\<lparr>op_length := n, op_state := t\<rparr>)" if "t \<noteq> StateData" for t n
    using that by (simp_all add: obfs_ok_def)
  show ?case
    using Cons.prems(2)
    by (cases "op_state r")
      (auto split: if_splits prod.splits bool.splits elim!: IH simp: obfs_ok_took plain l1)
qed

lemma obfs_reads_feed:
  assumes "obfs_ok r" and "obfs_feed r [] [] (concat chunks) = Fed r2 p h" and "obfs_cut_ok r chunks"
  shows "obfs_reads r chunks = Some p"
  using assms
proof (induction chunks arbitrary: r p h)
  case Nil
  then show ?case by simp
next
  case (Cons c cs)
  obtain r' pay hdr where f: "obfs_feed r [] [] c = Fed r' pay hdr"
    using Cons.prems(2) by (auto simp: obfs_feed_append split: feed_out.splits)
  with Cons.prems(3) have cut: "length c < 65536" "pay = [] \<or> hdr = []" "obfs_cut_ok r' cs" by auto
  obtain n b' where parse: "obfs_parse_loop (length c) r c 0 0 (length c) = Parsed n b' r'"
    "take n b' = pay"
    using obfs_parse_feed [OF Cons.prems(1), of c "length c" "[]" "[]" c] cut f
    by (auto simp: parse_matches_def parse_bytes_def split: if_splits)
  from f have ok: "obfs_ok r'" using obfs_feed_ok [OF Cons.prems(1)] by simp
  from Cons.prems(2) f have "obfs_feed r' pay hdr (concat cs) = Fed r2 p h" by (simp add: obfs_feed_append)
  then obtain p' h' where rest: "obfs_feed r' [] [] (concat cs) = Fed r2 p' h'" "p = pay @ p'"
    using obfs_feed_shift [of r' pay hdr "concat cs"] by (auto split: feed_out.splits)
  from Cons.IH [OF ok rest(1) cut(3)] have "obfs_reads r' cs = Some p'" .
  with parse f rest(2) show ?case
    by (auto simp: obfs_client_Read_def obfs_Parse_def)
qed

lemma obfs_server_Write_established:
  assumes "os_handshaked c"
  shows "obfs_server_Write P rd log_wr b (c, s) =
    (case obfs_write_loop P log_wr (os_wbuf c) b s of
       (e, wbuf, s') \<Rightarrow> ((length b, e), (c\<lparr>os_wbuf := wbuf\<rparr>, s')))"
  using assms by (simp add: obfs_server_Write_def obfs_server_Handshake_def)

lemma obfs_server_Writes_stream:
  assumes "tls_records P" and "os_handshaked c" and "os_wbuf c = []"
  shows "\<exists>out. obfs_server_Writes P rd bs (c, s) = (c, s @ out) \<and>
    obfs_feed (obfs_at 3) [] [] out = Fed (obfs_at 3) (concat bs) []"
  using assms(2,3)
proof (induction bs arbitrary: s)
  case Nil
  then show ?case by (intro exI [of _ "[]"]) (simp add: obfs_server_Writes_def)
next
  case (Cons b bs)
  obtain o1 where o1: "obfs_write_loop P log_wr [] b s = (False, [], s @ o1)"
    "obfs_feed (obfs_at 3) [] [] o1 = Fed (obfs_at 3) b []"
    using obfs_write_loop_stream [OF assms(1)] by blast
  have c: "c\<lparr>os_wbuf := []\<rparr> = c" using Cons.prems(2) by simp
  obtain o2 where o2: "obfs_server_Writes P rd bs (c, s @ o1) = (c, (s @ o1) @ o2)"
    "obfs_feed (obfs_at 3) [] [] o2 = Fed (obfs_at 3) (concat bs) []"
    using Cons.IH [OF Cons.prems] by blast
  have "obfs_server_Writes P rd (b # bs) (c, s) = obfs_server_Writes P rd bs (c\<lparr>os_wbuf := []\<rparr>, s @ o1)"
    using o1(1) Cons.prems by (simp add: obfs_server_Writes_def obfs_server_Write_established)
  then have "obfs_server_Writes P rd (b # bs) (c, s) = (c, s @ o1 @ o2)" unfolding c using o2(1) by simp
  moreover have "obfs_feed (obfs_at 3) [] [] (o1 @ o2) = Fed (obfs_at 3) (concat (b # bs)) []"
    using o1(2) o2(2) obfs_feed_shift [of "obfs_at 3" b "[]" o2] by (simp add: obfs_feed_append)
  ultimately show ?case by blast
qed

lemma obfs_feed_answer:
  assumes "length hello = 91"
  shows "obfs_feed (obfs_at 0) [] [] (tls_bytes 0x16 0x0301 hello @ tls_bytes 0x14 0x0303 [1]) =
    Fed (obfs_at 2) [] (tls_bytes 0x16 0x0301 hello @ tls_bytes 0x14 0x0303 [1])"
proof -
  have ne: "hello \<noteq> []" using assms by auto
  have feed0: "obfs_feed (obfs_at 0) [] [] (tls_bytes 0x16 0x0301 hello) =
      Fed (obfs_at (Suc 0)) [] (tls_bytes 0x16 0x0301 hello)"
    using obfs_feed_record [of 0 hello, OF _ _ _ _ _ obfs_record_kinds(1), of "[]" "[]"] assms ne
    by (auto simp: obfs_record_kinds(5) maxTLSDataLen_def)
  have feed1: "obfs_feed (obfs_at (Suc 0)) [] h (tls_bytes 0x14 0x0303 [1]) =
      Fed (obfs_at 2) [] (h @ tls_bytes 0x14 0x0303 [1])" for h
    using obfs_feed_record [of 1 "[1]", OF _ _ _ _ _ obfs_record_kinds(2), of "[]" h]
    by (simp add: obfs_record_kinds(6) [simplified] numeral_2_eq_2 maxTLSDataLen_def)
  show ?thesis by (simp add: obfs_feed_append feed0 feed1)
qed

text \<open>
  C8. What the server writes after its handshake is what a new client reads: the answer to the
  handshake is skipped and the records are joined, however the network cuts the stream, as
  long as no read ends inside a header that follows payload in the same read, and provided
  that the first write is not longer than a record.
\<close>

theorem obfs_stream_roundtrip:
  assumes P: "tls_records P"
    and c: "os_handshaked c" "os_wbuf c = tp_record P 0x16 0x0301 hello @ tp_record P 0x14 0x0303 [1]" "length hello = 91"
    and b: "b \<noteq> []" "length b \<le> maxTLSDataLen"
    and sent: "obfs_server_Writes P rd (b # bs) (c, []) = (c', concat chunks)"
    and cut: "obfs_cut_ok (obfs_at 0) chunks"
  shows "obfs_reads (obfs_at 0) chunks = Some (concat (b # bs))"
proof -
  let ?first = "tls_bytes 0x16 0x0301 hello @ tls_bytes 0x14 0x0303 [1] @ tls_bytes 0x16 0x0303 b"
  have recs: "os_wbuf c = tls_bytes 0x16 0x0301 hello @ tls_bytes 0x14 0x0303 [1]"
    "tp_record P 0x16 0x0303 b = tls_bytes 0x16 0x0303 b"
    using P c(2,3) b(2) by (simp_all add: tls_records_def maxTLSDataLen_def)
  then have "os_wbuf c \<noteq> []" by (simp add: tls_bytes_def)
  from obfs_first_write [OF this b(1), of P "[]"] b(2) recs
  have "obfs_write_loop P log_wr (os_wbuf c) b [] = (False, [], ?first)" by simp
  then have "obfs_server_Writes P rd (b # bs) (c, []) =
      obfs_server_Writes P rd bs (c\<lparr>os_wbuf := []\<rparr>, ?first)"
    using c(1) by (simp add: obfs_server_Writes_def obfs_server_Write_established)
  moreover obtain out where out:
    "obfs_server_Writes P rd bs (c\<lparr>os_wbuf := []\<rparr>, ?first) = (c\<lparr>os_wbuf := []\<rparr>, ?first @ out)"
    "obfs_feed (obfs_at 3) [] [] out = Fed (obfs_at 3) (concat bs) []"
    using obfs_server_Writes_stream [OF P, of "c\<lparr>os_wbuf := []\<rparr>" rd bs ?first] c(1) by auto
  ultimately have stream: "concat chunks = ?first @ out" using sent by simp
  have feed2: "obfs_feed (obfs_at 2) [] h (tls_bytes 0x16 0x0303 b) = Fed (obfs_at 3) b []" for h
    using obfs_feed_record [of 2 b, OF _ _ _ _ _ obfs_record_kinds(3), of "[]" h] b
    by (simp add: obfs_record_kinds(7))
  have "obfs_feed (obfs_at 0) [] [] (concat chunks) = Fed (obfs_at 3) (concat (b # bs)) []"
    using out(2) obfs_feed_shift [of "obfs_at 3" b "[]" out]
    obfs_feed_answer [OF c(3)]
    by (simp add: stream obfs_feed_append feed2 flip: append_assoc)
  moreover have "obfs_ok (obfs_at 0)" by (simp add: obfs_ok_def obfs_at_def)
  ultimately show ?thesis using obfs_reads_feed cut by blast
qed

text \<open>Two writes, of 3 and 2 bytes, read in pieces that cut the handshake and the first data.\<close>

definition tls_demo :: tls_pkg where
  "tls_demo =
     \<lparr>tp_record = tls_bytes, tp_clientHello = (\<lambda>b h. Some b), tp_decode = (\<lambda>b. Some (b, [])),
      tp_serverHello = (\<lambda>s. Some (replicate 91 0))\<rparr>"

definition demo_server :: obfs_server where
  "demo_server =
     \<lparr>os_rbuf = [], os_wbuf = tls_bytes 0x16 0x0301 (replicate 91 0) @ tls_bytes 0x14 0x0303 [1],
      os_handshaked = True\<rparr>"

definition demo_chunks :: "byte list list" where
  "demo_chunks =
     [os_wbuf demo_server, tls_bytes 0x16 0x0303 [1, 2, 3], [0x17, 3, 3, 0, 2, 4], [5]]"

theorem obfs_stream_roundtrip_witness:
  "obfs_reads (obfs_at 0) demo_chunks = Some [1, 2, 3, 4, 5]"
proof -
  have bytes: "tls_bytes 0x17 0x0303 [4, 5] = [0x17, 3, 3, 0, 2, 4, 5]" by code_simp
  have wbuf: "os_wbuf demo_server \<noteq> []" by (simp add: demo_server_def tls_bytes_def)
  have "obfs_write_loop tls_demo log_wr [] [4, 5] s = (False, [], s @ [0x17, 3, 3, 0, 2, 4, 5])" for s
    by (subst obfs_write_loop.simps) (simp add: maxTLSDataLen_def tls_demo_def bytes log_wr_def obfs_write_loop_Nil)
  moreover have "obfs_write_loop tls_demo log_wr (os_wbuf demo_server) [1, 2, 3] [] =
      (False, [], os_wbuf demo_server @ tls_bytes 0x16 0x0303 [1, 2, 3])"
    using obfs_first_write [OF wbuf, of "[1, 2, 3]" tls_demo "[]"] by (simp add: tls_demo_def maxTLSDataLen_def)
  moreover have "os_handshaked demo_server" by (simp add: demo_server_def)
  ultimately have sent: "obfs_server_Writes tls_demo (\<lambda>s. (None, s)) [[1, 2, 3], [4, 5]] (demo_server, []) =
      (demo_server\<lparr>os_wbuf := []\<rparr>, concat demo_chunks)"
    by (simp add: obfs_server_Writes_def obfs_server_Write_established demo_chunks_def)
  have "obfs_feed (obfs_at 2) [] [] (tls_bytes 0x16 0x0303 [1, 2, 3]) = Fed (obfs_at 3) [1, 2, 3] []"
    "obfs_feed (obfs_at 3) [] [] [0x17, 3, 3, 0, 2, 4] =
      Fed \<lparr>op_step = 3, op_state = StateData, op_length = 1\<rparr> [4] []"
    "obfs_feed \<lparr>op_step = 3, op_state = StateData, op_length = 1\<rparr> [] [] [5] = Fed (obfs_at 3) [5] []"
    by code_simp+
  then have cut: "obfs_cut_ok (obfs_at 0) demo_chunks"
    using obfs_feed_answer [of "replicate 91 0"]
    by (simp add: demo_chunks_def demo_server_def tls_bytes_def [of _ "0x0301"] tls_bytes_def [of _ _ "[1]"] del: obfs_feed.simps)
      (simp add: tls_bytes_def)
  have "tls_records tls_demo" by (simp add: tls_records_def tls_demo_def)
  from obfs_stream_roundtrip [OF this _ _ _ _ _ sent cut, where hello = "replicate 91 0"] show ?thesis
    by (simp add: demo_server_def tls_demo_def maxTLSDataLen_def)
qed

text \<open>
  The first write after the handshake, when it is longer than a record, sends only its first
  16384 bytes and reports all of them as written.
\<close>

theorem obfs_first_write_truncated:
  assumes "os_handshaked c" and "os_wbuf c \<noteq> []" and "maxTLSDataLen < length b"
  shows "obfs_server_Write P rd log_wr b (c, s) =
    ((length b, False),
     (c\<lparr>os_wbuf := []\<rparr>, s @ os_wbuf c @ tp_record P 0x16 0x0303 (take maxTLSDataLen b)))"
proof -
  from assms(3) have "b \<noteq> []" by auto
  from obfs_first_write [OF assms(2) this] show ?thesis
    by (simp add: obfs_server_Write_established [OF assms(1)])
qed

theorem obfs_first_write_truncated_witness:
  "fst (obfs_server_Write tls_demo (\<lambda>s. (None, s)) log_wr (replicate 20000 7) (demo_server, [])) = (20000, False) \<and>
   length (snd (snd (obfs_server_Write tls_demo (\<lambda>s. (None, s)) log_wr (replicate 20000 7) (demo_server, [])))) = 16491"
  using obfs_first_write_truncated [of demo_server "replicate 20000 7" tls_demo "\<lambda>s. (None, s)" "[]"]
  by (simp add: demo_server_def tls_demo_def maxTLSDataLen_def tls_bytes_def)

end
