(* ===== verification/HostCode.thy ===== *)
theory HostCode
  imports Bytes GoStrings
begin

text \<open>
  Hidden host names: the code of a name with its checksum in base 64 (\<open>connector/sni/conn.go\<close>,
  \<open>handler/sni/handler.go\<close>, \<open>handler/http/handler.go\<close>), the decoders of base 64 and the checksum of
  Go's library that it uses, and the rewriting of an HTTP request by the client.
\<close>

section \<open>Text and bytes\<close>

definition string_bytes :: "string \<Rightarrow> byte list" where
  "string_bytes s = map (\<lambda>c. of_nat (of_char c)) s"

definition byte_string :: "byte list \<Rightarrow> string" where
  "byte_string bs = map (\<lambda>b. char_of (unat b)) bs"

lemma byte_string_bytes [simp]: "byte_string (string_bytes s) = s"
proof -
  have "char_of (unat (of_nat (of_char c) :: byte)) = c" for c :: char by (simp add: unat_of_nat)
  then show ?thesis by (simp add: byte_string_def string_bytes_def comp_def)
qed

section \<open>Base 64\<close>

text \<open>The alphabets of \<open>StdEncoding\<close> and \<open>URLEncoding\<close>.\<close>

definition b64_common :: string where
  "b64_common = ''ABCDEFGHIJKLMNOPQRSTUVWXYZabcdefghijklmnopqrstuvwxyz0123456789''"

definition b64_std :: string where "b64_std = b64_common @ ''+/''"
definition b64_url :: string where "b64_url = b64_common @ ''-_''"

definition b64_value :: "string \<Rightarrow> char \<Rightarrow> nat option" where
  "b64_value A c = map_of (zip A [0..<64]) c"

text \<open>Encoding without padding: four characters for three bytes, two or three for the rest.\<close>

definition b64_quad :: "string \<Rightarrow> nat \<Rightarrow> string" where
  "b64_quad A v = [A ! (v div 2 ^ 18), A ! (v div 2 ^ 12 mod 64), A ! (v div 2 ^ 6 mod 64), A ! (v mod 64)]"

definition b64_group :: "byte \<Rightarrow> byte \<Rightarrow> byte \<Rightarrow> nat" where
  "b64_group a b c = unat a * 2 ^ 16 + unat b * 2 ^ 8 + unat c"

fun b64_encode_raw :: "string \<Rightarrow> byte list \<Rightarrow> string" where
  "b64_encode_raw A (a # b # c # bs) = b64_quad A (b64_group a b c) @ b64_encode_raw A bs"
| "b64_encode_raw A [a, b] = take 3 (b64_quad A (b64_group a b 0))"
| "b64_encode_raw A [a] = take 2 (b64_quad A (b64_group a 0 0))"
| "b64_encode_raw A [] = []"

text \<open>The same with padding.\<close>

fun b64_encode :: "string \<Rightarrow> byte list \<Rightarrow> string" where
  "b64_encode A (a # b # c # bs) = b64_quad A (b64_group a b c) @ b64_encode A bs"
| "b64_encode A [a, b] = take 3 (b64_quad A (b64_group a b 0)) @ ''=''"
| "b64_encode A [a] = take 2 (b64_quad A (b64_group a 0 0)) @ ''==''"
| "b64_encode A [] = []"

text \<open>
  Decoding, after the line breaks, which are skipped everywhere.  Bits left over are ignored.
  \<open>pad\<close> says whether the encoding has padding, which must then be complete and last.
\<close>

definition b64_bytes :: "nat list \<Rightarrow> byte list" where
  "b64_bytes ds =
     (let v = ds ! 0 * 2 ^ 18 + ds ! 1 * 2 ^ 12 + ds ! 2 * 2 ^ 6 + ds ! 3
      in [of_nat (v div 2 ^ 16), of_nat (v div 2 ^ 8), of_nat v])"

fun b64_values :: "string \<Rightarrow> string \<Rightarrow> nat list option" where
  "b64_values A [] = Some []"
| "b64_values A (c # cs) =
     (case b64_value A c of None \<Rightarrow> None | Some d \<Rightarrow> map_option ((#) d) (b64_values A cs))"

fun b64_decode_clean :: "bool \<Rightarrow> string \<Rightarrow> string \<Rightarrow> byte list option" where
  "b64_decode_clean pad A (c0 # c1 # c2 # c3 # cs) =
     (if pad \<and> c3 = CHR ''='' then
        (if cs \<noteq> [] then None
         else if c2 = CHR ''=''
         then map_option (\<lambda>ds. take 1 (b64_bytes (ds @ [0, 0]))) (b64_values A [c0, c1])
         else map_option (\<lambda>ds. take 2 (b64_bytes (ds @ [0]))) (b64_values A [c0, c1, c2]))
      else case b64_values A [c0, c1, c2, c3] of
        None \<Rightarrow> None
      | Some ds \<Rightarrow> map_option (\<lambda>bs. b64_bytes ds @ bs) (b64_decode_clean pad A cs))"
| "b64_decode_clean pad A [] = Some []"
| "b64_decode_clean pad A [c0, c1] =
     (if pad then None else map_option (\<lambda>ds. take 1 (b64_bytes (ds @ [0, 0]))) (b64_values A [c0, c1]))"
| "b64_decode_clean pad A [c0, c1, c2] =
     (if pad then None else map_option (\<lambda>ds. take 2 (b64_bytes (ds @ [0]))) (b64_values A [c0, c1, c2]))"
| "b64_decode_clean pad A [c0] = None"

definition b64_decode :: "bool \<Rightarrow> string \<Rightarrow> string \<Rightarrow> byte list option" where
  "b64_decode pad A s = b64_decode_clean pad A (filter (\<lambda>c. c \<noteq> CHR 0x0A \<and> c \<noteq> CHR 0x0D) s)"

section \<open>The checksum\<close>

text \<open>\<open>crc32.ChecksumIEEE\<close>: the polynomial of IEEE, reflected.\<close>

definition crc_bit :: "uint32 \<Rightarrow> uint32" where
  "crc_bit c = (if bit c 0 then xor (drop_bit 1 c) 0xEDB88320 else drop_bit 1 c)"

definition crc_byte :: "byte \<Rightarrow> uint32 \<Rightarrow> uint32" where
  "crc_byte b c = (crc_bit ^^ 8) (xor c (ucast b))"

definition crc32 :: "byte list \<Rightarrow> uint32" where
  "crc32 bs = not (fold crc_byte bs (not 0))"

section \<open>The code of a name\<close>

definition encodeServerName :: "string \<Rightarrow> string" where
  "encodeServerName name =
     (let bs = string_bytes name
      in b64_encode_raw b64_url (be32 (crc32 bs) @ string_bytes (b64_encode_raw b64_url bs)))"

definition decodeServerName :: "string \<Rightarrow> string option" where
  "decodeServerName s =
     (case b64_decode False b64_url s of
        None \<Rightarrow> None
      | Some b \<Rightarrow>
          if length b < 4 then None
          else case b64_decode False b64_url (byte_string (drop 4 b)) of
            None \<Rightarrow> None
          | Some v \<Rightarrow> if crc32 v \<noteq> get32 (take 4 b) then None else Some (byte_string v))"

section \<open>Hiding the host of a request\<close>

text \<open>\<open>ReadString\<close> up to the newline: the line with it, and the rest; \<open>None\<close> at the end.\<close>

definition read_line :: "string \<Rightarrow> (string \<times> string) option" where
  "read_line s =
     (case index_byte CHR 0x0A s of None \<Rightarrow> None | Some i \<Rightarrow> Some (take (Suc i) s, drop (Suc i) s))"

lemma read_line_shorter: "read_line s = Some (l, r) \<Longrightarrow> length r < length s"
  by (auto simp: read_line_def split: option.splits dest: index_byte_SomeD)

definition crlf :: string where "crlf = [CHR 0x0D, CHR 0x0A]"

definition trim_prefix :: "string \<Rightarrow> string \<Rightarrow> string" where
  "trim_prefix s p = (if has_prefix s p then drop (length p) s else s)"

function obfuscate_http :: "string \<Rightarrow> string \<Rightarrow> string" where
  "obfuscate_http host p =
     (case read_line p of
        None \<Rightarrow> p
      | Some (s, rest) \<Rightarrow>
          if s = crlf then s @ rest
          else if has_prefix s ''Host''
          then (let s = trim_space (trim_suffix (trim_prefix s ''Host:'') crlf)
                in ''Host: '' @ host @ crlf @ ''Gost-Target: '' @ encodeServerName s @ crlf @ rest)
          else s @ obfuscate_http host rest)"
  by pat_completeness auto
termination
  by (relation "measure (\<lambda>(host, p). length p)") (auto dest: read_line_shorter)

declare obfuscate_http.simps [simp del]

text \<open>
  \<open>obfuscate\<close> and \<open>Write\<close> of the client's connection: \<open>hello\<close> is the rewriting of a client hello
  by the third-party package, \<open>handshake\<close> the type of such a record.  \<open>None\<close> is the panic of the
  first write of nothing.  The second component is whether the host was hidden.
\<close>

datatype obfuscated = Failed | Obfuscated string bool

definition sni_obfuscate :: "byte \<Rightarrow> (string \<Rightarrow> string \<Rightarrow> string option) \<Rightarrow> string \<Rightarrow> bool \<Rightarrow> string \<Rightarrow> obfuscated option" where
  "sni_obfuscate handshake hello host done p =
     (if host = [] then Some (Obfuscated p done)
      else if done then Some (Obfuscated p done)
      else if p = [] then None
      else if hd p = char_of (unat handshake)
      then Some (case hello host p of None \<Rightarrow> Failed | Some b \<Rightarrow> Obfuscated b True)
      else Some (Obfuscated (obfuscate_http host p) True))"

definition sni_client_Write ::
    "byte \<Rightarrow> (string \<Rightarrow> string \<Rightarrow> string option) \<Rightarrow> string \<Rightarrow> 's writer \<Rightarrow> string \<Rightarrow> bool \<times> 's \<Rightarrow>
     ((nat \<times> bool) \<times> bool \<times> 's) option"
where
  "sni_client_Write handshake hello host wr p st =
     (case sni_obfuscate handshake hello host (fst st) p of
        None \<Rightarrow> None
      | Some Failed \<Rightarrow> Some ((0, True), st)
      | Some (Obfuscated b done) \<Rightarrow>
          (case wr (string_bytes b) (snd st) of
             ((_, True), s) \<Rightarrow> Some ((0, True), done, s)
           | ((_, False), s) \<Rightarrow> Some ((length p, False), done, s)))"

section \<open>What is encoded is decoded\<close>

lemma b64_split:
  fixes v :: nat
  assumes "v < 2 ^ 24"
  shows "v div 2 ^ 18 < 64"
    and "v div 2 ^ 18 * 2 ^ 18 + v div 2 ^ 12 mod 64 * 2 ^ 12 + v div 2 ^ 6 mod 64 * 2 ^ 6 + v mod 64 = v"
proof -
  show "v div 2 ^ 18 < 64" using assms by (simp add: less_mult_imp_div_less)
  have d: "v div 2 ^ 18 = v div 2 ^ 12 div 64" "v div 2 ^ 12 = v div 2 ^ 6 div 64" "v div 2 ^ 6 = v div 64"
    by (simp_all flip: div_mult2_eq)
  have m: "x = x div 64 * 64 + x mod 64" for x :: nat by simp
  show "v div 2 ^ 18 * 2 ^ 18 + v div 2 ^ 12 mod 64 * 2 ^ 12 + v div 2 ^ 6 mod 64 * 2 ^ 6 + v mod 64 = v"
  proof -
    have "v div 64 div 64 div 64 * 262144 + v div 64 div 64 mod 64 * 4096 + v div 64 mod 64 * 64 + v mod 64 = v"
      using m [of v] m [of "v div 64"] m [of "v div 64 div 64"] by linarith
    then show ?thesis unfolding d by simp
  qed
qed

lemma byte_bound: "unat (b :: byte) < 256"
  by (rule order_less_le_trans [OF unsigned_less]) simp

lemma b64_bytes_group:
  "b64_bytes [b64_group a b c div 2 ^ 18, b64_group a b c div 2 ^ 12 mod 64, b64_group a b c div 2 ^ 6 mod 64, b64_group a b c mod 64] = [a, b, c]"
proof -
  have lt: "unat a < 256" "unat b < 256" "unat c < 256" by (rule byte_bound)+
  then have "b64_group a b c < 2 ^ 24" by (simp add: b64_group_def)
  note b64_split(2) [OF this]
  moreover have "b64_group a b c div 2 ^ 16 = unat a" "b64_group a b c div 2 ^ 8 = unat a * 256 + unat b"
    using lt by (simp_all add: b64_group_def)
  moreover have "of_nat (unat a * 256 + unat b) = b" "of_nat (b64_group a b c) = c"
  proof -
    have z: "(256 :: byte) = 0" "(65536 :: byte) = 0" by simp_all
    show "of_nat (unat a * 256 + unat b) = b" "of_nat (b64_group a b c) = c"
      by (simp_all add: b64_group_def z)
  qed
  ultimately show ?thesis by (simp add: b64_bytes_def Let_def)
qed

lemma b64_group_bound: "b64_group a b c < 2 ^ 24"
  using byte_bound [of a] byte_bound [of b] byte_bound [of c] by (simp add: b64_group_def)

lemma b64_short_groups:
  "b64_group a b 0 mod 64 = 0" "b64_group a 0 0 mod 64 = 0" "b64_group a 0 0 div 2 ^ 6 mod 64 = 0"
  by (simp_all add: b64_group_def)

lemma triples_induct [case_names triple two one none]:
  fixes P :: "byte list \<Rightarrow> bool"
  assumes "\<And>a b c bs. P bs \<Longrightarrow> P (a # b # c # bs)" "\<And>a b. P [a, b]" "\<And>a. P [a]" "P []"
  shows "P bs"
  using b64_encode_raw.induct [of "\<lambda>_. P" undefined bs] assms by blast

text \<open>What the codes rely on of an alphabet.\<close>

locale base64_alphabet =
  fixes A :: string
  assumes A_distinct: "distinct A" and A_length: "length A = 64"
    and A_chars: "CHR 0x0A \<notin> set A" "CHR 0x0D \<notin> set A" "CHR ''='' \<notin> set A"
begin

lemma value_nth: "d < 64 \<Longrightarrow> b64_value A (A ! d) = Some d"
  using map_of_zip_nth [of A "[0..<64]" d] by (simp add: b64_value_def A_distinct A_length)

lemma nth_not_pad: "d < 64 \<Longrightarrow> A ! d \<noteq> CHR ''=''"
  using A_chars(3) A_length by (metis nth_mem)

lemma quad_values:
  assumes "v < 2 ^ 24"
  shows "b64_values A (b64_quad A v) = Some [v div 2 ^ 18, v div 2 ^ 12 mod 64, v div 2 ^ 6 mod 64, v mod 64]"
  using b64_split(1) [OF assms] by (simp add: b64_quad_def value_nth)

lemma decode_encode_clean: "b64_decode_clean False A (b64_encode_raw A bs) = Some bs"
proof (induction bs rule: triples_induct)
  case (triple a b c bs)
  then show ?case
    using quad_values [OF b64_group_bound, of a b c] b64_bytes_group [of a b c]
    by (simp add: b64_quad_def)
next
  case (two a b)
  then show ?case
    using quad_values [OF b64_group_bound, of a b 0] b64_bytes_group [of a b 0] b64_short_groups(1) [of a b]
    by (auto simp: b64_quad_def split: option.splits)
next
  case (one a)
  then show ?case
    using quad_values [OF b64_group_bound, of a 0 0] b64_bytes_group [of a 0 0] b64_short_groups(2,3) [of a]
    by (auto simp: b64_quad_def split: option.splits)
qed simp

lemma quad_chars:
  assumes "v < 2 ^ 24"
  shows "set (b64_quad A v) \<subseteq> set A"
  using b64_split(1) [OF assms] by (auto simp: b64_quad_def A_length intro!: nth_mem)

lemma encode_chars: "set (b64_encode_raw A bs) \<subseteq> set A"
proof (induction bs rule: triples_induct)
  case (triple a b c bs)
  then show ?case using quad_chars [OF b64_group_bound, of a b c] by simp
next
  case (two a b)
  then show ?case using quad_chars [OF b64_group_bound, of a b 0] set_take_subset [of 3 "b64_quad A (b64_group a b 0)"] by auto
next
  case (one a)
  then show ?case using quad_chars [OF b64_group_bound, of a 0 0] set_take_subset [of 2 "b64_quad A (b64_group a 0 0)"] by auto
qed simp

lemma decode_encode: "b64_decode False A (b64_encode_raw A bs) = Some bs"
proof -
  have "filter (\<lambda>c. c \<noteq> CHR 0x0A \<and> c \<noteq> CHR 0x0D) (b64_encode_raw A bs) = b64_encode_raw A bs"
    using encode_chars [of bs] A_chars by (intro filter_True) blast
  then show ?thesis by (simp add: b64_decode_def decode_encode_clean)
qed

lemma padded_decode_clean: "b64_decode_clean True A (b64_encode A bs) = Some bs"
proof (induction bs rule: triples_induct)
  case (triple a b c bs)
  have "A ! (b64_group a b c mod 64) \<noteq> CHR ''=''" by (rule nth_not_pad) simp
  with triple show ?case
    using quad_values [OF b64_group_bound, of a b c] b64_bytes_group [of a b c]
    by (simp add: b64_quad_def)
next
  case (two a b)
  have "A ! (b64_group a b 0 div 2 ^ 6 mod 64) \<noteq> CHR ''=''" by (rule nth_not_pad) simp
  then show ?case
    using quad_values [OF b64_group_bound, of a b 0] b64_bytes_group [of a b 0] b64_short_groups(1) [of a b]
    by (auto simp: b64_quad_def split: option.splits)
next
  case (one a)
  show ?case
    using quad_values [OF b64_group_bound, of a 0 0] b64_bytes_group [of a 0 0] b64_short_groups(2,3) [of a]
    by (auto simp: b64_quad_def split: option.splits)
qed simp

lemma padded_chars: "set (b64_encode A bs) \<subseteq> set A \<union> {CHR ''=''}"
proof (induction bs rule: triples_induct)
  case (triple a b c bs)
  then show ?case using quad_chars [OF b64_group_bound, of a b c] by auto
next
  case (two a b)
  then show ?case using quad_chars [OF b64_group_bound, of a b 0] set_take_subset [of 3 "b64_quad A (b64_group a b 0)"] by auto
next
  case (one a)
  then show ?case using quad_chars [OF b64_group_bound, of a 0 0] set_take_subset [of 2 "b64_quad A (b64_group a 0 0)"] by auto
qed simp

lemma padded_decode: "b64_decode True A (b64_encode A bs) = Some bs"
proof -
  have "filter (\<lambda>c. c \<noteq> CHR 0x0A \<and> c \<noteq> CHR 0x0D) (b64_encode A bs) = b64_encode A bs"
    using padded_chars [of bs] A_chars by (intro filter_True) auto
  then show ?thesis by (simp add: b64_decode_def padded_decode_clean)
qed

lemma padded_clean: "CHR 0x0A \<notin> set (b64_encode A bs)" "CHR 0x0D \<notin> set (b64_encode A bs)"
  using padded_chars [of bs] A_chars by auto

end

lemma b64_encode_length: "length (b64_encode A bs) = 4 * ((length bs + 2) div 3)"
proof (induction bs rule: triples_induct)
  case (triple a b c bs)
  have "(length bs + 5) div 3 = Suc ((length bs + 2) div 3)" by presburger
  with triple show ?case by (simp add: b64_quad_def add.commute)
qed (simp_all add: b64_quad_def)

interpretation url: base64_alphabet b64_url
  by unfold_locales (simp_all add: b64_url_def b64_common_def)

interpretation std: base64_alphabet b64_std
  by unfold_locales (simp_all add: b64_std_def b64_common_def)

text \<open>
  A hidden name is found again: the code the client makes of a host name decodes, at the server, to
  that name.
\<close>

theorem server_name_roundtrip: "decodeServerName (encodeServerName name) = Some name"
  using get32_be32 [of _ "[]"] by (simp add: encodeServerName_def decodeServerName_def Let_def url.decode_encode)

text \<open>The lines of a header before its Host.\<close>

definition other_line :: "string \<Rightarrow> bool" where
  "other_line l \<longleftrightarrow> (\<exists>t. l = t @ [CHR 0x0A] \<and> CHR 0x0A \<notin> set t) \<and> l \<noteq> crlf \<and> \<not> has_prefix l ''Host''"

lemma read_line_append: "CHR 0x0A \<notin> set t \<Longrightarrow> read_line (t @ CHR 0x0A # r) = Some (t @ [CHR 0x0A], r)"
  by (simp add: read_line_def index_byte_append)

lemma obfuscate_http_step:
  assumes "read_line p = Some (s, rest)" and "s \<noteq> crlf"
  shows "obfuscate_http host p =
    (if has_prefix s ''Host''
     then ''Host: '' @ host @ crlf @ ''Gost-Target: '' @
       encodeServerName (trim_space (trim_suffix (trim_prefix s ''Host:'') crlf)) @ crlf @ rest
     else s @ obfuscate_http host rest)"
  using assms by (simp add: obfuscate_http.simps [of host p] Let_def)

text \<open>
  A request whose host was hidden tells it to the server: the client replaces the host of a request
  by the fake one and adds a header field, changing nothing else, and the field decodes to the
  host of the request.
\<close>

theorem obfuscated_request_tells_host:
  assumes "list_all other_line ls" and "ascii_word h"
  shows "\<exists>code. obfuscate_http fake (concat ls @ ''Host: '' @ h @ crlf @ rest) =
      concat ls @ ''Host: '' @ fake @ crlf @ ''Gost-Target: '' @ code @ crlf @ rest \<and> decodeServerName code = Some h"
  using assms(1)
proof (induction ls)
  case Nil
  have "CHR 0x0A \<notin> set h" using assms(2) by (auto simp: ascii_word_def ascii_space_def)
  then have line: "read_line (''Host: '' @ h @ crlf @ rest) = Some (''Host: '' @ h @ crlf, rest)"
    using read_line_append [of "''Host: '' @ h @ [CHR 0x0D]" rest] by (simp add: crlf_def)
  have host: "trim_space (trim_suffix (trim_prefix (''Host: '' @ h @ crlf) ''Host:'') crlf) = h"
    using assms(2) trim_space_ascii_word [of h]
    by (simp add: trim_prefix_def has_prefix_def trim_suffix_def has_suffix_def trim_space_def trim_left_blank ascii_space_def)
  have n: "''Host: '' @ h @ crlf \<noteq> crlf" "has_prefix (''Host: '' @ h @ crlf) ''Host''"
    by (simp_all add: crlf_def has_prefix_def)
  have "obfuscate_http fake (''Host: '' @ h @ crlf @ rest) =
      ''Host: '' @ fake @ crlf @ ''Gost-Target: '' @ encodeServerName h @ crlf @ rest"
    by (simp only: obfuscate_http_step [OF line n(1)] n(2) host if_True)
  then show ?case using server_name_roundtrip [of h] by auto
next
  case (Cons l ls)
  then obtain t where t: "l = t @ [CHR 0x0A]" "CHR 0x0A \<notin> set t" and l: "l \<noteq> crlf" "\<not> has_prefix l ''Host''"
    by (auto simp: other_line_def)
  from Cons obtain code where IH: "obfuscate_http fake (concat ls @ ''Host: '' @ h @ crlf @ rest) =
      concat ls @ ''Host: '' @ fake @ crlf @ ''Gost-Target: '' @ code @ crlf @ rest" "decodeServerName code = Some h" by auto
  have "read_line (concat (l # ls) @ ''Host: '' @ h @ crlf @ rest) = Some (l, concat ls @ ''Host: '' @ h @ crlf @ rest)"
    using read_line_append [OF t(2)] by (simp add: t(1))
  note step = obfuscate_http_step [OF this l(1)]
  have "obfuscate_http fake (concat (l # ls) @ ''Host: '' @ h @ crlf @ rest) =
      l @ obfuscate_http fake (concat ls @ ''Host: '' @ h @ crlf @ rest)"
    by (simp only: step l(2) if_False)
  with IH show ?case by auto
qed

theorem obfuscated_request_tells_host_witness:
  "\<exists>code. obfuscate_http ''b.com'' (''GET / HTTP/1.1'' @ crlf @ ''Host: '' @ ''a.org'' @ crlf @ crlf) =
     ''GET / HTTP/1.1'' @ crlf @ ''Host: '' @ ''b.com'' @ crlf @ ''Gost-Target: '' @ code @ crlf @ crlf \<and> decodeServerName code = Some ''a.org''"
proof -
  have "other_line (''GET / HTTP/1.1'' @ crlf)"
    unfolding other_line_def crlf_def has_prefix_def by (intro conjI exI [of _ "''GET / HTTP/1.1'' @ [CHR 0x0D]"]) simp_all
  then have "list_all other_line [''GET / HTTP/1.1'' @ crlf]" by simp
  moreover have "ascii_word ''a.org''" by (simp add: ascii_word_def ascii_space_def)
  ultimately show ?thesis
    using obfuscated_request_tells_host [of "[''GET / HTTP/1.1'' @ crlf]" "''a.org''" "''b.com''" crlf] by simp
qed

end
