(* ===== verification/Pht.thy ===== *)
theory Pht
  imports HostCode GoNet
begin

text \<open>
  The plain HTTP tunnel (\<open>internal/util/pht\<close>): a connection whose writes are requests to a push path and
  whose reads come from requests to a pull path, one line of base 64 for each piece.  The server
  keeps a pipe for each token; a handler of \<open>net/http\<close> runs for each request.  HTTP itself,
  and the reader at the other end of a pipe, are outside of the model.
\<close>

section \<open>Options\<close>

record pht_options =
  po_authorizePath :: string
  po_pushPath :: string
  po_pullPath :: string
  po_backlog :: int
  po_tlsEnabled :: bool
  po_readBufferSize :: int
  po_readTimeout :: int

definition pht_no_options :: pht_options where
  "pht_no_options = \<lparr>po_authorizePath = [], po_pushPath = [], po_pullPath = [], po_backlog = 0, po_tlsEnabled = False,
     po_readBufferSize = 0, po_readTimeout = 0\<rparr>"

definition PathServerOption :: "string \<Rightarrow> string \<Rightarrow> string \<Rightarrow> pht_options \<Rightarrow> pht_options" where
  "PathServerOption authorizePath pushPath pullPath opts =
     opts\<lparr>po_authorizePath := authorizePath, po_pullPath := pullPath, po_pushPath := pushPath\<rparr>"

definition BacklogServerOption :: "int \<Rightarrow> pht_options \<Rightarrow> pht_options" where
  "BacklogServerOption backlog opts = opts\<lparr>po_backlog := backlog\<rparr>"

definition EnableTLSServerOption :: "bool \<Rightarrow> pht_options \<Rightarrow> pht_options" where
  "EnableTLSServerOption enable opts = opts\<lparr>po_tlsEnabled := enable\<rparr>"

definition ReadBufferSizeServerOption :: "int \<Rightarrow> pht_options \<Rightarrow> pht_options" where
  "ReadBufferSizeServerOption n opts = opts\<lparr>po_readBufferSize := n\<rparr>"

definition ReadTimeoutServerOption :: "int \<Rightarrow> pht_options \<Rightarrow> pht_options" where
  "ReadTimeoutServerOption timeout opts = opts\<lparr>po_readTimeout := timeout\<rparr>"

section \<open>The server\<close>

text \<open>
  A pipe of \<open>net.Pipe\<close>: what the reader of the accepted end has taken, and which ends are closed.
  A write returns when the reader has taken everything, or fails after some bytes.
\<close>

record pht_pipe =
  pp_got :: "byte list"
  pp_closed :: bool
  pp_far_closed :: bool

definition pipe_Write :: "nat option \<Rightarrow> byte list \<Rightarrow> pht_pipe \<Rightarrow> bool \<times> pht_pipe" where
  "pipe_Write fails b p =
     (if pp_closed p \<or> pp_far_closed p then (False, p)
      else case fails of
        None \<Rightarrow> (True, p\<lparr>pp_got := pp_got p @ b\<rparr>)
      | Some n \<Rightarrow> (False, p\<lparr>pp_got := pp_got p @ take n b\<rparr>))"

text \<open>Pipes are known by their number; the queue holds those not accepted yet.\<close>

record pht_server =
  ps_options :: pht_options
  ps_queue :: "nat list"
  ps_conns :: "string \<Rightarrow> nat option"
  ps_closed :: bool
  ps_pipes :: "pht_pipe list"

text \<open>\<open>NewServer\<close> and \<open>NewHTTP3Server\<close> differ in the HTTP server they make only.\<close>

definition pht_defaults :: "pht_options \<Rightarrow> pht_options" where
  "pht_defaults opts =
     (let opts = if po_backlog opts \<le> 0 then opts\<lparr>po_backlog := 128\<rparr> else opts;
          opts = if po_readBufferSize opts \<le> 0 then opts\<lparr>po_readBufferSize := 32 * 1024\<rparr> else opts
      in if po_readTimeout opts \<le> 0 then opts\<lparr>po_readTimeout := 10 * 10 ^ 9\<rparr> else opts)"

definition pht_NewServer :: "(pht_options \<Rightarrow> pht_options) list \<Rightarrow> pht_server" where
  "pht_NewServer opts =
     \<lparr>ps_options = pht_defaults (fold (\<lambda>opt o'. opt o') opts pht_no_options), ps_queue = [], ps_conns = (\<lambda>_. None),
      ps_closed = False, ps_pipes = []\<rparr>"

datatype pht_server_err = ErrServerClosed | HttpServerClose

text \<open>
  \<open>None\<close>: it waits.  When there is a connection and the server is closed, either may be taken:
  \<open>pick\<close>.
\<close>

definition pht_Accept :: "bool \<Rightarrow> pht_server \<Rightarrow> ((pht_server_err + nat) \<times> pht_server) option" where
  "pht_Accept pick s =
     (case ps_queue s of
        [] \<Rightarrow> if ps_closed s then Some (Inl ErrServerClosed, s) else None
      | c # q \<Rightarrow>
          if ps_closed s \<and> \<not> pick then Some (Inl ErrServerClosed, s)
          else Some (Inr c, s\<lparr>ps_queue := q\<rparr>))"

text \<open>\<open>fails\<close>: whether closing the HTTP server does.\<close>

definition pht_server_Close :: "bool \<Rightarrow> pht_server \<Rightarrow> pht_server_err option \<times> pht_server" where
  "pht_server_Close fails s =
     (if ps_closed s then (Some ErrServerClosed, s)
      else (if fails then Some HttpServerClose else None, s\<lparr>ps_closed := True\<rparr>))"

definition pht_token_prefix :: string where "pht_token_prefix = ''token=''"

text \<open>\<open>cid\<close> is the new identifier.  The answer is a status and a body.\<close>

definition handleAuthorize :: "string \<Rightarrow> pht_server \<Rightarrow> (nat \<times> string) \<times> pht_server" where
  "handleAuthorize cid s =
     (let i = length (ps_pipes s); pipe = \<lparr>pp_got = [], pp_closed = False, pp_far_closed = False\<rparr>
      in if int (length (ps_queue s)) < po_backlog (ps_options s)
         then ((200, pht_token_prefix @ cid),
               s\<lparr>ps_queue := ps_queue s @ [i], ps_conns := (ps_conns s)(cid := Some i), ps_pipes := ps_pipes s @ [pipe]\<rparr>)
         else ((429, []), s\<lparr>ps_pipes := ps_pipes s @ [pipe\<lparr>pp_far_closed := True\<rparr>]\<rparr>))"

text \<open>\<open>s.conns.Delete(cid)\<close> and \<open>conn.Close()\<close>.\<close>

definition pht_drop :: "string \<Rightarrow> nat \<Rightarrow> pht_server \<Rightarrow> pht_server" where
  "pht_drop cid i s =
     s\<lparr>ps_conns := (ps_conns s)(cid := None), ps_pipes := (ps_pipes s)[i := (ps_pipes s ! i)\<lparr>pp_closed := True\<rparr>]\<rparr>"

text \<open>
  A request: its method, the form's token (\<open>None\<close> when the form cannot be parsed), its body, and
  whether the body ends as it should.  \<open>fails\<close> is how the write into the pipe goes.
\<close>

definition handlePush :: "string \<Rightarrow> string option \<Rightarrow> string \<times> bool \<Rightarrow> nat option \<Rightarrow> pht_server \<Rightarrow> nat \<times> pht_server" where
  "handlePush meth form body fails s =
     (if meth \<noteq> ''POST'' then (400, s)
      else case form of
        None \<Rightarrow> (400, s)
      | Some cid \<Rightarrow>
          (case ps_conns s cid of
             None \<Rightarrow> (403, s)
           | Some i \<Rightarrow>
               (case read_line (fst body) of
                  None \<Rightarrow> (if snd body then 200 else 206, pht_drop cid i s)
                | Some (line, rest) \<Rightarrow>
                    let data = butlast line
                    in if data = [] then (200, s)
                       else case b64_decode True b64_std data of
                         None \<Rightarrow> (400, pht_drop cid i s)
                       | Some b \<Rightarrow>
                           (case pipe_Write fails b (ps_pipes s ! i) of
                              (ok, p) \<Rightarrow>
                                let s = s\<lparr>ps_pipes := (ps_pipes s)[i := p]\<rparr>
                                in if ok then (200, s) else (410, pht_drop cid i s)))))"

text \<open>
  What a read of the pipe gives: bytes, and how it fails.  The flag tells whether the response can
  be written.
\<close>

datatype pipe_err = PipeDeadline | PipeEOF | PipeClosed | PipeOther

datatype pull_end = PullWaits | PullReturns | PullDrops

definition pht_line :: "byte list \<Rightarrow> string" where
  "pht_line b = b64_encode b64_std b @ [CHR 0x0A]"

fun pht_pull_loop :: "(byte list \<times> bool \<times> pipe_err option) list \<Rightarrow> string \<times> pull_end" where
  "pht_pull_loop [] = ([], PullWaits)"
| "pht_pull_loop ((b, flushed, err) # reads) =
     (if b \<noteq> [] \<and> \<not> flushed then ([], PullReturns)
      else let out = if b \<noteq> [] then pht_line b else []
           in case err of
             None \<Rightarrow> (case pht_pull_loop reads of (out', e) \<Rightarrow> (out @ out', e))
           | Some PipeDeadline \<Rightarrow> (out @ [CHR 0x0A], PullReturns)
           | Some PipeEOF \<Rightarrow> (out, PullReturns)
           | Some _ \<Rightarrow> (out, PullDrops))"

definition handlePull ::
    "string \<Rightarrow> string option \<Rightarrow> (byte list \<times> bool \<times> pipe_err option) list \<Rightarrow> pht_server \<Rightarrow> (nat \<times> string) \<times> pht_server"
where
  "handlePull meth form reads s =
     (if meth \<noteq> ''GET'' then ((400, []), s)
      else case form of
        None \<Rightarrow> ((400, []), s)
      | Some cid \<Rightarrow>
          (case ps_conns s cid of
             None \<Rightarrow> ((403, []), s)
           | Some i \<Rightarrow>
               (case pht_pull_loop reads of
                  (out, PullDrops) \<Rightarrow> ((200, out), pht_drop cid i s)
                | (out, _) \<Rightarrow> ((200, out), s))))"

section \<open>The client\<close>

datatype pht_err = PhtClosedPipe | PhtNetClosed | PhtRequest | PhtStatus nat | PhtDecode | PhtTooLong | PhtBody | PhtUnauthorized | PhtAddr

text \<open>The response to the request for a token: its body, \<open>None\<close> without one.  The status is not asked for.\<close>

definition pht_authorize :: "string option \<Rightarrow> pht_err + string" where
  "pht_authorize resp =
     (case resp of
        None \<Rightarrow> Inl PhtRequest
      | Some data \<Rightarrow>
          let token = (if has_prefix data pht_token_prefix then trim_prefix data pht_token_prefix else [])
          in if token = [] then Inl PhtUnauthorized else Inr token)"

record pht_client =
  pl_Host :: string
  pl_AuthorizePath :: string
  pl_PushPath :: string
  pl_PullPath :: string
  pl_TLSEnabled :: bool

text \<open>A connection: the URLs, the rest of the last piece, the pieces read, of which the channel holds 128.\<close>

record pht_conn =
  pc_pushURL :: string
  pc_pullURL :: string
  pc_buf :: "byte list"
  pc_rxc :: "byte list list"
  pc_closed :: bool

definition pht_scheme :: "pht_client \<Rightarrow> string" where
  "pht_scheme c = (if pl_TLSEnabled c then ''https'' else ''http'')"

text \<open>
  \<open>port\<close> is the port of the address when it resolves, \<open>get\<close> the response to a GET of a URL.
\<close>

definition pht_Dial :: "pht_client \<Rightarrow> (string \<Rightarrow> nat option) \<Rightarrow> (string \<Rightarrow> string option) \<Rightarrow> string \<Rightarrow> pht_err + pht_conn" where
  "pht_Dial c port get addr =
     (case port addr of
        None \<Rightarrow> Inl PhtAddr
      | Some p \<Rightarrow>
          let addr = (if pl_Host c \<noteq> [] then join_host_port (pl_Host c) (dec_string p) else addr)
          in case pht_authorize (get (pht_scheme c @ ''://'' @ addr @ pl_AuthorizePath c)) of
               Inl e \<Rightarrow> Inl e
             | Inr token \<Rightarrow>
                 Inr \<lparr>pc_pushURL = pht_scheme c @ ''://'' @ addr @ pl_PushPath c @ ''?token='' @ token,
                      pc_pullURL = pht_scheme c @ ''://'' @ addr @ pl_PullPath c @ ''?token='' @ token,
                      pc_buf = [], pc_rxc = [], pc_closed = False\<rparr>)"

text \<open>
  \<open>None\<close>: it waits.  \<open>n\<close> is the room for the bytes; \<open>pick\<close> decides between a piece and the close
  when there are both.
\<close>

definition pht_Read :: "bool \<Rightarrow> nat \<Rightarrow> pht_conn \<Rightarrow> ((pht_err + byte list) \<times> pht_conn) option" where
  "pht_Read pick n c =
     (if pc_buf c \<noteq> [] then Some (Inr (take n (pc_buf c)), c\<lparr>pc_buf := drop n (pc_buf c)\<rparr>)
      else case pc_rxc c of
        [] \<Rightarrow> if pc_closed c then Some (Inl PhtClosedPipe, c) else None
      | b # q \<Rightarrow>
          if pc_closed c \<and> \<not> pick then Some (Inl PhtClosedPipe, c)
          else Some (Inr (take n b), c\<lparr>pc_buf := drop n b, pc_rxc := q\<rparr>))"

text \<open>\<open>post\<close> is the status of the response to a body.  With the result come the bodies that were sent.\<close>

definition pht_write :: "(string \<Rightarrow> nat option) \<Rightarrow> byte list \<Rightarrow> pht_conn \<Rightarrow> (pht_err + nat) \<times> string list" where
  "pht_write post b c =
     (if pc_closed c then (Inl PhtClosedPipe, [])
      else let body = (if b \<noteq> [] then pht_line b else [])
           in case post body of
                None \<Rightarrow> (Inl PhtRequest, [body])
              | Some status \<Rightarrow> (if status \<noteq> 200 then Inl (PhtStatus status) else Inr (length b), [body]))"

definition pht_Write :: "(string \<Rightarrow> nat option) \<Rightarrow> byte list \<Rightarrow> pht_conn \<Rightarrow> (pht_err + nat) \<times> string list" where
  "pht_Write post b c = (if b = [] then (Inr 0, []) else pht_write post b c)"

definition pht_Close :: "(string \<Rightarrow> nat option) \<Rightarrow> pht_conn \<Rightarrow> (pht_err option \<times> string list) \<times> pht_conn" where
  "pht_Close post c =
     (if pc_closed c then ((None, []), c)
      else let c = c\<lparr>pc_closed := True\<rparr>
           in case pht_write post [] c of
                (Inl e, sent) \<Rightarrow> ((Some e, sent), c)
              | (Inr n, sent) \<Rightarrow> ((None, sent), c))"

text \<open>
  The lines of a response.  \<open>closes got\<close> says whether, with the pieces \<open>got\<close> handed on, the close of the
  connection is what the loop sees next.
\<close>

fun pht_lines :: "(byte list list \<Rightarrow> bool) \<Rightarrow> byte list list \<Rightarrow> string list \<Rightarrow> byte list list \<times> pht_err option" where
  "pht_lines closes got [] = (got, None)"
| "pht_lines closes got (l # ls) =
     (if l = [] then pht_lines closes got ls
      else case b64_decode True b64_std l of
        None \<Rightarrow> (got, Some PhtDecode)
      | Some b \<Rightarrow> if closes got then (got, Some PhtNetClosed) else pht_lines closes (got @ [b]) ls)"

text \<open>A response: its status, its body and whether the body ends as it should.  The flag is \<open>done\<close>.\<close>

definition pht_round ::
    "(byte list list \<Rightarrow> bool) \<Rightarrow> byte list list \<Rightarrow> (nat \<times> string \<times> bool) option \<Rightarrow> (byte list list \<times> pht_err option) \<times> bool"
where
  "pht_round closes got resp =
     (case resp of
        None \<Rightarrow> ((got, Some PhtRequest), True)
      | Some (status, body, ends) \<Rightarrow>
          if status \<noteq> 200 then ((got, Some (PhtStatus status)), True)
          else case scan_lines body of
            (ls, too_long) \<Rightarrow>
              (case pht_lines closes got ls of
                 (got, Some e) \<Rightarrow> ((got, Some e), ls = [])
               | (got, None) \<Rightarrow>
                   ((got, if too_long then Some PhtTooLong else if \<not> ends then Some PhtBody else None), ls = [])))"

datatype loop_end = LoopRuns | LoopReturns | LoopCloses

fun pht_readLoop :: "(byte list list \<Rightarrow> bool) \<Rightarrow> byte list list \<Rightarrow> (nat \<times> string \<times> bool) option list \<Rightarrow> byte list list \<times> loop_end" where
  "pht_readLoop closes got [] = (got, LoopRuns)"
| "pht_readLoop closes got (resp # resps) =
     (if closes got then (got, LoopReturns)
      else case pht_round closes got resp of
        ((got, Some e), _) \<Rightarrow> (got, LoopCloses)
      | ((got, None), True) \<Rightarrow> (got, LoopReturns)
      | ((got, None), False) \<Rightarrow> pht_readLoop closes got resps)"

section \<open>What is written arrives\<close>

text \<open>A write of the client, over a network that loses nothing.\<close>

definition pht_send :: "string \<Rightarrow> nat option \<Rightarrow> byte list \<Rightarrow> pht_conn \<Rightarrow> pht_server \<Rightarrow> (pht_err + nat) \<times> pht_server" where
  "pht_send token fails b c s =
     (case pht_Write (\<lambda>body. Some (fst (handlePush ''POST'' (Some token) (body, True) fails s))) b c of
        (r, sent) \<Rightarrow> (r, fold (\<lambda>body s. snd (handlePush ''POST'' (Some token) (body, True) fails s)) sent s))"

fun pht_sends :: "string \<Rightarrow> byte list list \<Rightarrow> pht_conn \<Rightarrow> pht_server \<Rightarrow> (pht_err + nat) list \<times> pht_server" where
  "pht_sends token [] c s = ([], s)"
| "pht_sends token (b # bs) c s =
     (case pht_send token None b c s of (r, s) \<Rightarrow> (case pht_sends token bs c s of (rs, s) \<Rightarrow> (r # rs, s)))"

definition pht_open :: "pht_server \<Rightarrow> string \<Rightarrow> nat \<Rightarrow> bool" where
  "pht_open s token i \<longleftrightarrow> ps_conns s token = Some i \<and> i < length (ps_pipes s) \<and> \<not> pp_closed (ps_pipes s ! i) \<and>
     \<not> pp_far_closed (ps_pipes s ! i)"

lemma pht_line_nonempty: "b \<noteq> [] \<Longrightarrow> b64_encode b64_std b \<noteq> []"
  using std.padded_decode [of b] by (auto simp: b64_decode_def)

lemma read_pht_line: "read_line (pht_line b) = Some (pht_line b, [])"
  by (simp add: pht_line_def read_line_append std.padded_clean)

lemma handlePush_line:
  assumes "pht_open s token i" "b \<noteq> []"
  shows "handlePush ''POST'' (Some token) (pht_line b, True) None s =
    (200, s\<lparr>ps_pipes := (ps_pipes s)[i := (ps_pipes s ! i)\<lparr>pp_got := pp_got (ps_pipes s ! i) @ b\<rparr>]\<rparr>)"
  using assms pht_line_nonempty
  by (simp add: handlePush_def pht_open_def read_pht_line) (simp add: pht_line_def std.padded_decode pipe_Write_def)

lemma pht_send_step:
  assumes "pht_open s token i" "\<not> pc_closed c"
  shows "fst (pht_send token None b c s) = Inr (length b) \<and> pht_open (snd (pht_send token None b c s)) token i \<and>
    pp_got (ps_pipes (snd (pht_send token None b c s)) ! i) = pp_got (ps_pipes s ! i) @ b \<and>
    (\<forall>j. j \<noteq> i \<longrightarrow> ps_pipes (snd (pht_send token None b c s)) ! j = ps_pipes s ! j)"
proof (cases "b = []")
  case True
  with assms(1) show ?thesis by (simp add: pht_send_def pht_Write_def)
next
  case False
  note line = handlePush_line [OF assms(1) False]
  from assms(1) have "i < length (ps_pipes s)" by (simp add: pht_open_def)
  with False assms show ?thesis
    by (simp add: pht_send_def pht_Write_def pht_write_def line) (simp add: pht_open_def)
qed

text \<open>
  Whatever a client writes to an open tunnel is what the accepted connection reads, in order, whatever
  the sizes of the writes; every write reports its length; and no other tunnel of the server is
  touched.
\<close>

theorem pht_writes_arrive:
  assumes "pht_open s token i" "\<not> pc_closed c"
  shows "fst (pht_sends token bs c s) = map (\<lambda>b. Inr (length b)) bs \<and>
    pp_got (ps_pipes (snd (pht_sends token bs c s)) ! i) = pp_got (ps_pipes s ! i) @ concat bs \<and>
    (\<forall>j. j \<noteq> i \<longrightarrow> ps_pipes (snd (pht_sends token bs c s)) ! j = ps_pipes s ! j)"
  using assms(1)
proof (induction bs arbitrary: s)
  case (Cons b bs)
  obtain r s' where send: "pht_send token None b c s = (r, s')" by force
  from pht_send_step [OF Cons.prems assms(2), of b] have step: "r = Inr (length b)" "pht_open s' token i"
    "pp_got (ps_pipes s' ! i) = pp_got (ps_pipes s ! i) @ b" "\<forall>j. j \<noteq> i \<longrightarrow> ps_pipes s' ! j = ps_pipes s ! j"
    by (simp_all add: send)
  obtain rs s2 where sends: "pht_sends token bs c s' = (rs, s2)" by force
  from Cons.IH [OF step(2)] step(1,3,4) show ?case by (simp add: send sends)
qed simp

definition demo_pht_server :: pht_server where
  "demo_pht_server = snd (handleAuthorize ''c1'' (pht_NewServer []))"

definition demo_pht_conn :: pht_conn where
  "demo_pht_conn = \<lparr>pc_pushURL = ''http://h:80/push?token=c1'', pc_pullURL = ''http://h:80/pull?token=c1'', pc_buf = [],
     pc_rxc = [], pc_closed = False\<rparr>"

lemma demo_pht_open: "pht_open demo_pht_server ''c1'' 0"
  by (simp add: demo_pht_server_def handleAuthorize_def pht_NewServer_def pht_defaults_def pht_no_options_def pht_open_def Let_def)

theorem pht_writes_arrive_witness:
  "pp_got (ps_pipes (snd (pht_sends ''c1'' [[1, 2], [3]] demo_pht_conn demo_pht_server)) ! 0) = [1, 2, 3]"
proof -
  have "pp_got (ps_pipes demo_pht_server ! 0) = []"
    by (simp add: demo_pht_server_def handleAuthorize_def pht_NewServer_def pht_defaults_def pht_no_options_def Let_def)
  with pht_writes_arrive [OF demo_pht_open, of demo_pht_conn "[[1, 2], [3]]"] show ?thesis
    by (simp add: demo_pht_conn_def)
qed

section \<open>What the server writes arrives\<close>

text \<open>A pull that gets some pieces and then runs into the deadline.\<close>

definition pull_pieces :: "byte list list \<Rightarrow> (byte list \<times> bool \<times> pipe_err option) list" where
  "pull_pieces bs = map (\<lambda>b. (b, True, None)) bs @ [([], True, Some PipeDeadline)]"

lemma pht_pull_loop_pieces:
  "\<forall>b\<in>set bs. b \<noteq> [] \<Longrightarrow> pht_pull_loop (pull_pieces bs) = (concat (map pht_line bs) @ [CHR 0x0A], PullReturns)"
  by (induction bs) (simp_all add: pull_pieces_def)

definition pht_piece :: "byte list \<Rightarrow> bool" where
  "pht_piece b \<longleftrightarrow> b \<noteq> [] \<and> length b \<le> 49149"

lemma pht_line_limit: "int (length (b64_encode b64_std b)) < max_token_size \<longleftrightarrow> length b \<le> 49149"
  by (simp add: b64_encode_length max_token_size_def) presburger

lemma pht_piece_clean: "pht_piece b \<Longrightarrow> clean_line (b64_encode b64_std b)"
  by (simp add: clean_line_def pht_line_limit std.padded_clean pht_piece_def)

lemma pht_lines_pieces:
  "\<forall>b\<in>set bs. b \<noteq> [] \<Longrightarrow> pht_lines (\<lambda>_. False) got (map (b64_encode b64_std) bs @ [[]]) = (got @ bs, None)"
  by (induction bs arbitrary: got) (simp_all add: std.padded_decode pht_line_nonempty)

lemma pht_round_pieces:
  assumes "\<forall>b\<in>set bs. pht_piece b"
  shows "pht_round (\<lambda>_. False) got (Some (200, concat (map pht_line bs) @ [CHR 0x0A], True)) = ((got @ bs, None), False)"
proof -
  have "concat (map pht_line bs) @ [CHR 0x0A] = join_lines (map (b64_encode b64_std) bs @ [[]])"
    by (simp add: join_lines_def pht_line_def [abs_def] comp_def)
  moreover have "scan_lines \<dots> = (map (b64_encode b64_std) bs @ [[]], False)"
  proof (rule scan_join_lines, rule ballI)
    fix l assume "l \<in> set (map (b64_encode b64_std) bs @ [[]])"
    then consider b where "b \<in> set bs" "l = b64_encode b64_std b" | "l = []" by auto
    then show "clean_line l" using assms pht_piece_clean by cases (auto simp: clean_line_def max_token_size_def)
  qed
  ultimately show ?thesis using assms pht_lines_pieces [of bs got] by (simp add: pht_round_def pht_piece_def)
qed

text \<open>What a sequence of reads gives, until one waits or fails.\<close>

fun pht_Reads :: "nat list \<Rightarrow> pht_conn \<Rightarrow> byte list" where
  "pht_Reads [] c = []"
| "pht_Reads (n # ns) c =
     (case pht_Read True n c of Some (Inr b, c) \<Rightarrow> b @ pht_Reads ns c | _ \<Rightarrow> [])"

lemma pht_Reads_prefix: "\<exists>rest. pc_buf c @ concat (pc_rxc c) = pht_Reads ns c @ rest"
proof (induction ns arbitrary: c)
  case (Cons n ns)
  have step: "pc_buf c @ concat (pc_rxc c) = b @ pc_buf c' @ concat (pc_rxc c')"
    if "pht_Read True n c = Some (Inr b, c')" for b c'
    using that by (auto simp: pht_Read_def split: if_splits list.splits)
  show ?case
  proof (cases "pht_Read True n c")
    case (Some a)
    obtain r c' where a: "a = (r, c')" by force
    show ?thesis
    proof (cases r)
      case (Inr b)
      obtain rest where "pc_buf c' @ concat (pc_rxc c') = pht_Reads ns c' @ rest" using Cons.IH by blast
      with step [of b c'] Some a Inr show ?thesis by simp
    qed (simp add: Some a)
  qed simp
qed simp

text \<open>
  C19.  Whatever the accepted connection writes is what the client reads, in order: through any number
  of pulls, each with any pieces of up to 49149 bytes and ended by its deadline, and with reads of
  any sizes.
\<close>

theorem pht_pulls_arrive:
  assumes "\<forall>bs\<in>set bss. \<forall>b\<in>set bs. pht_piece b" and "ps_conns s token = Some i"
  shows "pht_readLoop (\<lambda>_. False) got (map (\<lambda>bs. case fst (handlePull ''GET'' (Some token) (pull_pieces bs) s) of
      (status, out) \<Rightarrow> Some (status, out, True)) bss) = (got @ concat bss, LoopRuns) \<and>
    (\<exists>rest. concat (concat bss) = pht_Reads ns (c\<lparr>pc_buf := [], pc_rxc := concat bss\<rparr>) @ rest)"
proof
  have pull: "fst (handlePull ''GET'' (Some token) (pull_pieces bs) s) = (200, concat (map pht_line bs) @ [CHR 0x0A])"
    if "\<forall>b\<in>set bs. pht_piece b" for bs
    using that assms(2) by (simp add: handlePull_def pht_pull_loop_pieces pht_piece_def)
  show "pht_readLoop (\<lambda>_. False) got (map (\<lambda>bs. case fst (handlePull ''GET'' (Some token) (pull_pieces bs) s) of
      (status, out) \<Rightarrow> Some (status, out, True)) bss) = (got @ concat bss, LoopRuns)"
    using assms(1) by (induction bss arbitrary: got) (simp_all add: pull pht_round_pieces)
  show "\<exists>rest. concat (concat bss) = pht_Reads ns (c\<lparr>pc_buf := [], pc_rxc := concat bss\<rparr>) @ rest"
    using pht_Reads_prefix [of "c\<lparr>pc_buf := [], pc_rxc := concat bss\<rparr>" ns] by simp
qed

theorem pht_pulls_arrive_witness:
  "pht_readLoop (\<lambda>_. False) [] (map (\<lambda>bs. case fst (handlePull ''GET'' (Some ''c1'') (pull_pieces bs) demo_pht_server) of
      (status, out) \<Rightarrow> Some (status, out, True)) [[[1, 2], [3]], [], [[4]]]) = ([[1, 2], [3], [4]], LoopRuns)"
  using pht_pulls_arrive [of "[[[1, 2], [3]], [], [[4]]]" demo_pht_server "''c1''" 0 "[]" "[]"] demo_pht_open
  by (simp add: pht_piece_def pht_open_def)

text \<open>
  A piece of up to 49149 bytes is handed on; a longer one makes a line that the client's scanner
  refuses, and ends the connection.
\<close>

theorem pht_piece_limit:
  assumes "b \<noteq> []"
  shows "pht_readLoop (\<lambda>_. False) [] [Some (200, pht_line b, True)] =
    (if length b \<le> 49149 then ([b], LoopRuns) else ([], LoopCloses))"
proof -
  have i: "index_byte CHR 0x0A (pht_line b) = Some (length (b64_encode b64_std b))"
    by (simp add: pht_line_def index_byte_append std.padded_clean)
  show ?thesis
  proof (cases "length b \<le> 49149")
    case True
    then have "scan_lines (pht_line b) = ([b64_encode b64_std b], False)"
      unfolding pht_line_def using pht_line_limit [of b] by (simp add: scan_lines_cons std.padded_clean drop_cr_id)
    with True assms show ?thesis by (simp add: pht_round_def pht_line_nonempty std.padded_decode)
  next
    case False
    then have "scan_lines (pht_line b) = ([], True)"
      using pht_line_limit [of b] by (subst scan_lines.simps) (simp add: i, simp add: pht_line_def)
    with False show ?thesis by (simp add: pht_round_def)
  qed
qed

theorem pht_piece_limit_witness:
  "pht_readLoop (\<lambda>_. False) [] [Some (200, pht_line [7], True)] = ([[7]], LoopRuns)"
  using pht_piece_limit [of "[7]"] by simp

section \<open>Ends that nobody hears of\<close>

text \<open>
  The end of a tunnel does not reach the other side.  A client's close sends nothing, so the
  server keeps the session and its pipe open; and when the server's side is closed, a pull without a
  byte ends the client's loop without closing the connection, whose reads then wait for ever.
\<close>

theorem pht_ends_unheard:
  "snd (fst (pht_Close post c)) = [] \<and>
   pht_readLoop (\<lambda>_. False) [] (Some (200, fst (pht_pull_loop [([], True, Some PipeEOF)]), True) # resps) = ([], LoopReturns) \<and>
   pht_Read pick n (c\<lparr>pc_buf := [], pc_rxc := [], pc_closed := False\<rparr>) = None"
  by (simp add: pht_Close_def pht_write_def pht_round_def pht_Read_def)

end
