(* ===== verification/Handler.thy ===== *)
theory Handler
  imports GoNet "HOL-Library.State_Monad"
begin

text \<open>
  What the protocol handlers (\<open>handler/\<close>) share: a monad of operations on the world, with a
  trace of what was done and how it came out, the operations themselves, and rules to reason
  about every trace a handler can leave.

  The world has a state \<open>'w\<close> of the handler and a trace.  What the network or another component
  answers is an oracle, a function of the history so far, so that nothing is assumed of it: a
  second dial need not end as the first did.
\<close>

section \<open>Operations with a trace\<close>

type_synonym ('w, 'e) history = "'w \<times> 'e list"
type_synonym ('w, 'e, 'a) io = "(('w, 'e) history, 'a) state"

abbreviation return :: "'a \<Rightarrow> ('w, 'e, 'a) io" where
  "return \<equiv> State_Monad.return"

definition emit :: "'e \<Rightarrow> ('w, 'e, unit) io" where
  "emit e = State (\<lambda>(w, es). ((), w, es @ [e]))"

text \<open>Ask the oracle \<open>f\<close>, and leave its answer in the trace.\<close>

definition ask :: "(('w, 'e) history \<Rightarrow> 'a) \<Rightarrow> ('a \<Rightarrow> 'e) \<Rightarrow> ('w, 'e, 'a) io" where
  "ask f ev = State (\<lambda>(w, es). let a = f (w, es) in (a, w, es @ [ev a]))"

text \<open>An operation on the state of the handler, which leaves nothing in the trace.\<close>

definition act :: "('w \<Rightarrow> 'a \<times> 'w) \<Rightarrow> ('w, 'e, 'a) io" where
  "act f = State (\<lambda>(w, es). case f w of (a, w') \<Rightarrow> (a, w', es))"

text \<open>\<open>defer d\<close>: \<open>d\<close> is done when the rest has returned; \<open>on_error\<close> only when it returned an error.\<close>

definition deferring :: "('w, 'e, unit) io \<Rightarrow> ('w, 'e, 'a) io \<Rightarrow> ('w, 'e, 'a) io" where
  "deferring d m = do { r \<leftarrow> m; d; return r }"

definition on_error :: "('w, 'e, unit) io \<Rightarrow> ('w, 'e, 'x option) io \<Rightarrow> ('w, 'e, 'x option) io" where
  "on_error d m = do { r \<leftarrow> m; (if r \<noteq> None then d else return ()); return r }"

text \<open>The trace a handler leaves, from a state.\<close>

definition io_trace :: "('w, 'e, 'a) io \<Rightarrow> 'w \<Rightarrow> 'e list" where
  "io_trace m w = snd (snd (run_state m (w, [])))"

definition io_result :: "('w, 'e, 'a) io \<Rightarrow> 'w \<Rightarrow> 'a" where
  "io_result m w = fst (run_state m (w, []))"

section \<open>Every trace of a handler\<close>

text \<open>\<open>wp m Q h\<close>: from the history \<open>h\<close>, \<open>m\<close> ends with a result and a history that \<open>Q\<close> admits.\<close>

definition wp :: "('w, 'e, 'a) io \<Rightarrow> ('a \<Rightarrow> ('w, 'e) history \<Rightarrow> bool) \<Rightarrow> ('w, 'e) history \<Rightarrow> bool" where
  "wp m Q h = (case run_state m h of (a, h') \<Rightarrow> Q a h')"

named_theorems wp_simps

lemma wp_return [wp_simps]: "wp (return a) Q = Q a"
  by (simp add: wp_def fun_eq_iff)

lemma wp_bind [wp_simps]: "wp (State_Monad.bind m f) Q = wp m (\<lambda>a. wp (f a) Q)"
  by (simp add: wp_def fun_eq_iff split_beta)

lemma wp_emit [wp_simps]: "wp (emit e) Q (w, es) = Q () (w, es @ [e])"
  by (simp add: wp_def emit_def)

lemma wp_ask [wp_simps]: "wp (ask f ev) Q (w, es) = Q (f (w, es)) (w, es @ [ev (f (w, es))])"
  by (simp add: wp_def ask_def Let_def)

lemma wp_act [wp_simps]: "wp (act g) Q (w, es) = Q (fst (g w)) (snd (g w), es)"
  by (simp add: wp_def act_def split_beta)

lemma wp_if [wp_simps]: "wp (if b then m else n) Q h = (if b then wp m Q h else wp n Q h)"
  by simp

lemma wp_deferring [wp_simps]: "wp (deferring d m) Q = wp m (\<lambda>r. wp d (\<lambda>_. Q r))"
  by (simp add: deferring_def wp_return wp_bind)

lemma wp_on_error [wp_simps]:
  "wp (on_error d m) Q = wp m (\<lambda>r h. if r \<noteq> None then wp d (\<lambda>_. Q r) h else Q r h)"
  by (auto simp: on_error_def wp_return wp_bind wp_def fun_eq_iff split_beta)

lemma wp_mono: "wp m Q h \<Longrightarrow> (\<And>a h'. Q a h' \<Longrightarrow> R a h') \<Longrightarrow> wp m R h"
  by (auto simp: wp_def split: prod.splits)

lemma io_trace_wp: "wp m (\<lambda>r h. P r (snd h)) (w, []) \<Longrightarrow> P (io_result m w) (io_trace m w)"
  by (simp add: wp_def io_trace_def io_result_def split_beta)

text \<open>\<open>traces m R\<close>: whatever the history, \<open>m\<close> appends events that \<open>R\<close> admits with its result.\<close>

definition traces :: "('w, 'e, 'a) io \<Rightarrow> ('a \<Rightarrow> 'e list \<Rightarrow> bool) \<Rightarrow> bool" where
  "traces m R \<longleftrightarrow> (\<forall>w es. wp m (\<lambda>a h. \<exists>new. snd h = es @ new \<and> R a new) (w, es))"

lemma tracesI:
  "(\<And>w es. wp m (\<lambda>a h. \<exists>new. snd h = es @ new \<and> R a new) (w, es)) \<Longrightarrow> traces m R"
  by (simp add: traces_def)

lemma traces_mono: "traces m R \<Longrightarrow> (\<And>a new. R a new \<Longrightarrow> S a new) \<Longrightarrow> traces m S"
  unfolding traces_def by (blast intro: wp_mono)

lemma traces_use:
  assumes "traces m R" and "\<And>a w' new. R a new \<Longrightarrow> Q a (w', es @ new)"
  shows "wp m Q (w, es)"
proof -
  from assms(1) have "wp m (\<lambda>a h. \<exists>new. snd h = es @ new \<and> R a new) (w, es)" by (simp add: traces_def)
  then show ?thesis by (rule wp_mono) (metis assms(2) prod.collapse)
qed

lemma traces_io: "traces m R \<Longrightarrow> R (io_result m w) (io_trace m w)"
  by (rule io_trace_wp, rule traces_use) auto

text \<open>The structural rules.\<close>

lemma traces_return [intro]: "R a [] \<Longrightarrow> traces (return a) R"
  by (simp add: traces_def wp_simps)

lemma traces_emit [intro]: "R () [e] \<Longrightarrow> traces (emit e) R"
  by (simp add: traces_def wp_simps)

text \<open>The second part runs only on the results of the first.\<close>

lemma traces_bind_on:
  assumes "traces m R" and "\<And>a new. R a new \<Longrightarrow> traces (f a) (S a)"
    and "\<And>a new b new'. R a new \<Longrightarrow> S a b new' \<Longrightarrow> T b (new @ new')"
  shows "traces (State_Monad.bind m f) T"
proof (rule tracesI)
  fix w es
  show "wp (State_Monad.bind m f) (\<lambda>a h. \<exists>new. snd h = es @ new \<and> T a new) (w, es)"
    unfolding wp_bind
  proof (rule traces_use [OF assms(1)])
    fix a w' new
    assume R: "R a new"
    show "wp (f a) (\<lambda>a h. \<exists>new. snd h = es @ new \<and> T a new) (w', es @ new)"
      by (rule traces_use [OF assms(2) [OF R]]) (use assms(3) [OF R] in auto)
  qed
qed

lemma traces_bind:
  assumes "traces m R" and "\<And>a. traces (f a) (S a)"
    and "\<And>a new b new'. R a new \<Longrightarrow> S a b new' \<Longrightarrow> T b (new @ new')"
  shows "traces (State_Monad.bind m f) T"
  using assms by (rule traces_bind_on)

section \<open>Events\<close>

text \<open>
  What a handler does, with how it came out: the rate limiter asked for a host, the read deadline
  set or lifted, a request \<open>'q\<close> read, a message \<open>'m\<close> to the client or to the target, a dial with the
  hash source of the context, the marks of the target, the relaying of bytes (as datagrams or
  not, with the messages that leave with the first bytes to the client), and what only one
  handler does.
\<close>

datatype ('q, 'm, 'x) event =
    Allow string bool
  | Deadline bool
  | ReadRequest "'q option"
  | Reply 'm bool
  | Dial "string option" string string bool
  | SendUp 'm bool
  | MarkTarget | ResetTarget
  | Transport bool "'m list"
  | CloseUp | CloseClient
  | Special 'x

text \<open>
  \<open>checkRateLimit\<close>, the same in every handler: \<open>limiter\<close> says for which hosts there is one.
\<close>

definition checkRateLimit ::
    "(string \<Rightarrow> bool) option \<Rightarrow> (('w, ('q, 'm, 'x) event) history \<Rightarrow> bool) \<Rightarrow> string \<Rightarrow>
     ('w, ('q, 'm, 'x) event, bool) io"
where
  "checkRateLimit limiter allow addr =
     (case limiter of
        None \<Rightarrow> return True
      | Some has \<Rightarrow>
          let host = host_of addr in
          if has host then ask allow (Allow host) else return True)"

definition rate_allowed :: "(string \<Rightarrow> bool) option \<Rightarrow> string \<Rightarrow> bool \<Rightarrow> ('q, 'm, 'x) event list" where
  "rate_allowed limiter addr ok =
     (case limiter of Some has \<Rightarrow> if has (host_of addr) then [Allow (host_of addr) ok] else [] | None \<Rightarrow> [])"

lemma wp_checkRateLimit [wp_simps]:
  "wp (checkRateLimit limiter allow addr) Q (w, es) =
   (let ok = (case limiter of Some has \<Rightarrow> has (host_of addr) \<longrightarrow> allow (w, es) | None \<Rightarrow> True)
    in Q ok (w, es @ rate_allowed limiter addr ok))"
  by (auto simp: checkRateLimit_def rate_allowed_def wp_simps Let_def split: option.splits)

text \<open>The networks of streams and of datagrams.\<close>

definition tcp_network :: "string \<Rightarrow> bool" where
  "tcp_network network \<longleftrightarrow> network \<in> {''tcp'', ''tcp4'', ''tcp6''}"

definition udp_network :: "string \<Rightarrow> bool" where
  "udp_network network \<longleftrightarrow> network \<in> {''udp'', ''udp4'', ''udp6''}"

lemma tcp_not_udp: "tcp_network network \<Longrightarrow> \<not> udp_network network"
  by (auto simp: tcp_network_def udp_network_def)

section \<open>What is permitted when\<close>

text \<open>Every event of a trace is permitted after the events before it.\<close>

fun guarded :: "('e list \<Rightarrow> 'e \<Rightarrow> bool) \<Rightarrow> 'e list \<Rightarrow> 'e list \<Rightarrow> bool" where
  "guarded P pre [] = True"
| "guarded P pre (e # es) = (P pre e \<and> guarded P (pre @ [e]) es)"

lemma guarded_append [simp]: "guarded P pre (as @ bs) = (guarded P pre as \<and> guarded P (pre @ as) bs)"
  by (induction as arbitrary: pre) auto

lemma guarded_all: "(\<And>pre e. e \<in> set es \<Longrightarrow> P pre e) \<Longrightarrow> guarded P pre es"
  by (induction es arbitrary: pre) auto

lemma guarded_stable:
  assumes "\<And>pre x e. K x \<Longrightarrow> P pre e \<Longrightarrow> P (pre @ [x]) e" and "\<forall>e\<in>set es. K e \<and> P pre e"
  shows "guarded P pre es"
  using assms(2) by (induction es arbitrary: pre) (auto intro: assms(1))

lemma guarded_before:
  assumes "guarded P [] es" "e \<in> set es"
  obtains pre rest where "es = pre @ e # rest" "P pre e"
proof -
  obtain pre rest where "es = pre @ e # rest" using assms(2) by (meson split_list)
  with assms(1) that show thesis by auto
qed

lemma guarded_mono: "guarded P pre es \<Longrightarrow> (\<And>pre e. P pre e \<Longrightarrow> Q pre e) \<Longrightarrow> guarded Q pre es"
  by (induction es arbitrary: pre) auto

section \<open>The discipline of the target's connection\<close>

text \<open>
  At most one connection to a target at a time, used only while it is open, and closed before the
  handler returns.  \<open>opens\<close> says which of the handler's own events open one.
\<close>

fun target_typed :: "('x \<Rightarrow> bool) \<Rightarrow> bool \<Rightarrow> ('q, 'm, 'x) event list \<Rightarrow> bool" where
  "target_typed opens up [] = (\<not> up)"
| "target_typed opens up (Dial hash network addr ok # es) = (\<not> up \<and> target_typed opens ok es)"
| "target_typed opens up (SendUp m ok # es) = (up \<and> target_typed opens up es)"
| "target_typed opens up (Transport udp ms # es) = (up \<and> target_typed opens up es)"
| "target_typed opens up (CloseUp # es) = (up \<and> target_typed opens False es)"
| "target_typed opens up (Special x # es) =
     (if opens x then \<not> up \<and> target_typed opens True es else target_typed opens up es)"
| "target_typed opens up (_ # es) = target_typed opens up es"

definition dials :: "('q, 'm, 'x) event list \<Rightarrow> (string \<times> string) list" where
  "dials es = concat (map (\<lambda>e. case e of Dial h n a ok \<Rightarrow> [(n, a)] | _ \<Rightarrow> []) es)"

definition relays :: "('q, 'm, 'x) event list \<Rightarrow> bool" where
  "relays es = (\<exists>e\<in>set es. case e of Transport udp ms \<Rightarrow> True | _ \<Rightarrow> False)"

definition replies :: "('q, 'm, 'x) event list \<Rightarrow> 'm list" where
  "replies es =
     concat (map (\<lambda>e. case e of Reply m ok \<Rightarrow> [m] | Transport udp ms \<Rightarrow> ms | _ \<Rightarrow> []) es)"

lemma trace_projections [simp]:
  "dials [] = []" "dials (e # es) = (case e of Dial h n a ok \<Rightarrow> [(n, a)] | _ \<Rightarrow> []) @ dials es"
  "replies [] = []"
  "replies (e # es) = (case e of Reply m ok \<Rightarrow> [m] | Transport udp ms \<Rightarrow> ms | _ \<Rightarrow> []) @ replies es"
  "relays [] = False"
  "relays (e # es) = ((case e of Transport udp ms \<Rightarrow> True | _ \<Rightarrow> False) \<or> relays es)"
  by (simp_all add: dials_def replies_def relays_def)

lemma trace_projections_append [simp]:
  "dials (a @ b) = dials a @ dials b" "replies (a @ b) = replies a @ replies b"
  "relays (a @ b) = (relays a \<or> relays b)"
  by (auto simp: dials_def replies_def relays_def)

lemma rate_allowed_projections [simp]:
  "dials (rate_allowed l a ok) = []" "replies (rate_allowed l a ok) = []" "relays (rate_allowed l a ok) = False"
  "target_typed opens up (rate_allowed l a ok @ es) = target_typed opens up es"
  by (auto simp: rate_allowed_def split: option.splits)

end
