(* ===== verification/HttpHandler.thy ===== *)
theory HttpHandler
  imports Handler HostCode "HOL-Library.AList"
begin

text \<open>
  The HTTP proxy (\<open>handler/http/handler.go\<close>, \<open>udp.go\<close>, \<open>metadata.go\<close>): the real host of a request,
  bypass, authentication with its resistance to probes, and the connection or the forwarding of
  the request.  The header fields a handler adds to its responses are one map, which the
  responses share with the handler: it is the state of the model.
\<close>

section \<open>Headers\<close>

text \<open>A header, by canonical keys.\<close>

type_synonym http_header = "(string \<times> string list) list"

definition hdr_get :: "string \<Rightarrow> http_header \<Rightarrow> string" where
  "hdr_get k h = (case map_of h k of Some (v # _) \<Rightarrow> v | _ \<Rightarrow> [])"

definition hdr_set :: "string \<Rightarrow> string \<Rightarrow> http_header \<Rightarrow> http_header" where
  "hdr_set k v h = AList.update k [v] h"

definition hdr_add :: "string \<Rightarrow> string \<Rightarrow> http_header \<Rightarrow> http_header" where
  "hdr_add k v h = AList.update k ((case map_of h k of None \<Rightarrow> [] | Some vs \<Rightarrow> vs) @ [v]) h"

definition hdr_del :: "string \<Rightarrow> http_header \<Rightarrow> http_header" where
  "hdr_del k h = AList.delete k h"

section \<open>Requests, options and events\<close>

record http_request =
  hq_method :: string
  hq_abs :: bool
  hq_scheme :: string
  hq_hostname :: string
  hq_host :: string
  hq_header :: http_header

text \<open>A response: its status, its header, and where its body comes from, when it has one.\<close>

datatype http_resp = HttpResponse int http_header "string option"

record probe_resistance =
  pr_Type :: string
  pr_Value :: string
  pr_Knock :: string

record http_handler =
  hh_limiter :: "(string \<Rightarrow> bool) option"
  hh_auther :: "(string \<Rightarrow> string \<Rightarrow> bool) option"
  hh_bypass :: "(string \<Rightarrow> bool) option"
  hh_probe :: "probe_resistance option"
  hh_enableUDP :: bool
  hh_hash :: string
  hh_realm :: string

text \<open>
  What only this handler does: fetch a page or dial a host for an intruder, open a file, send a
  request to a connection, and relay datagrams.
\<close>

datatype http_special =
    FetchPage string bool
  | DialDecoy string bool
  | OpenFile string bool
  | SendDecoy http_request
  | RelayDecoy
  | SendHTTP http_request bool
  | RelayUDP

type_synonym http_event = "(http_request, http_resp, http_special) event"

text \<open>
  The state is the header of the metadata, \<open>None\<close> when it is nil.  \<open>hw_isDNSName\<close> is that of
  \<open>govalidator\<close>; the page fetched has a status, a header and a body, the file a size perhaps, and
  \<open>hw_packet\<close> says whether what was dialled is a socket for datagrams.
\<close>

type_synonym http_state = "http_header option"

record http_world =
  hw_isDNSName :: "string \<Rightarrow> bool"
  hw_allow :: "(http_state, http_event) history \<Rightarrow> bool"
  hw_request :: "(http_state, http_event) history \<Rightarrow> http_request option"
  hw_write :: "(http_state, http_event) history \<Rightarrow> bool"
  hw_dial :: "(http_state, http_event) history \<Rightarrow> bool"
  hw_packet :: "(http_state, http_event) history \<Rightarrow> bool"
  hw_page :: "(http_state, http_event) history \<Rightarrow> (int \<times> http_header) option"
  hw_decoy :: "(http_state, http_event) history \<Rightarrow> bool"
  hw_file :: "(http_state, http_event) history \<Rightarrow> bool"

type_synonym 'a http_io = "(http_state, http_event, 'a) io"

datatype http_err = ErrRead | ErrDial | ErrWrite | ErrConnType

section \<open>The header of a response\<close>

text \<open>
  A response has the handler's own header, or one of its own.  A change of the first is one of
  the handler's.
\<close>

datatype resp_header = SharedHeader | OwnHeader http_header

definition resp_header_new :: "resp_header http_io" where
  "resp_header_new = act (\<lambda>w. (if w = None then OwnHeader [] else SharedHeader, w))"

definition resp_header_change :: "(http_header \<Rightarrow> http_header) \<Rightarrow> resp_header \<Rightarrow> resp_header http_io" where
  "resp_header_change f h =
     (case h of
        OwnHeader hs \<Rightarrow> return (OwnHeader (f hs))
      | SharedHeader \<Rightarrow> act (\<lambda>w. (SharedHeader, map_option f w)))"

definition resp_write :: "http_world \<Rightarrow> int \<Rightarrow> resp_header \<Rightarrow> string option \<Rightarrow> bool http_io" where
  "resp_write E status h body = do {
     hs \<leftarrow> act (\<lambda>w. (case h of OwnHeader hs \<Rightarrow> hs | SharedHeader \<Rightarrow> the w, w));
     ask (hw_write E) (Reply (HttpResponse status hs body))
   }"

section \<open>Authentication\<close>

definition http_basicProxyAuth :: "string \<Rightarrow> string \<times> string \<times> bool" where
  "http_basicProxyAuth proxyAuth =
     (if proxyAuth = [] then ([], [], False)
      else if \<not> has_prefix proxyAuth ''Basic '' then ([], [], False)
      else case b64_decode True b64_std (trim_prefix proxyAuth ''Basic '') of
        None \<Rightarrow> ([], [], False)
      | Some c \<Rightarrow>
          (let cs = byte_string c
           in case index_byte CHR '':'' cs of
                None \<Rightarrow> ([], [], False)
              | Some s \<Rightarrow> (take s cs, drop (Suc s) cs, True)))"

definition http_credentials :: "http_request \<Rightarrow> string \<times> string" where
  "http_credentials req =
     (case http_basicProxyAuth (hdr_get ''Proxy-Authorization'' (hq_header req)) of (u, p, _) \<Rightarrow> (u, p))"

text \<open>
  What an intruder is shown: the status, header and body of the response, or \<open>None\<close> when the
  connection was relayed to the decoy.
\<close>

definition http_probe ::
    "http_world \<Rightarrow> probe_resistance \<Rightarrow> http_request \<Rightarrow> resp_header \<Rightarrow> (int \<times> resp_header \<times> string option) option http_io"
where
  "http_probe E pr req h =
     (if pr_Type pr = ''code'' then return (Some (atoi (pr_Value pr), h, None))
      else if pr_Type pr = ''web'' then
        (let url = (if has_prefix (pr_Value pr) ''http'' then pr_Value pr else ''http://'' @ pr_Value pr) in do {
           r \<leftarrow> ask (hw_page E) (\<lambda>r. Special (FetchPage url (r \<noteq> None)));
           return (case r of None \<Rightarrow> Some (503, h, None) | Some (status, hs) \<Rightarrow> Some (status, OwnHeader hs, Some url))
         })
      else if pr_Type pr = ''host'' then do {
        ok \<leftarrow> ask (hw_decoy E) (\<lambda>ok. Special (DialDecoy (pr_Value pr) ok));
        if \<not> ok then return (Some (503, h, None))
        else do { emit (Special (SendDecoy req)); emit (Special RelayDecoy); return None }
      }
      else if pr_Type pr = ''file'' then do {
        ok \<leftarrow> ask (hw_file E) (\<lambda>ok. Special (OpenFile (pr_Value pr) ok));
        if \<not> ok then return (Some (503, h, None))
        else do { h \<leftarrow> resp_header_change (hdr_set ''Content-Type'' ''text/html'') h; return (Some (200, h, Some (pr_Value pr))) }
      }
      else return (Some (503, h, None)))"

definition http_defaultRealm :: string where "http_defaultRealm = ''gost''"

text \<open>The challenge: a status of 0 becomes 407.\<close>

definition http_challenge :: "http_handler \<Rightarrow> http_request \<Rightarrow> resp_header \<Rightarrow> resp_header http_io" where
  "http_challenge H req h = do {
     let realm = (if hh_realm H \<noteq> [] then hh_realm H else http_defaultRealm);
     h \<leftarrow> resp_header_change (hdr_add ''Proxy-Authenticate'' (''Basic realm='' @ [CHR 0x22] @ realm @ [CHR 0x22])) h;
     (if to_lower (hdr_get ''Proxy-Connection'' (hq_header req)) = ''keep-alive''
      then resp_header_change (\<lambda>hs. hdr_set ''Proxy-Connection'' ''close'' (hdr_set ''Connection'' ''close'' hs)) h
      else return h)
   }"

definition http_answer ::
    "http_world \<Rightarrow> http_handler \<Rightarrow> http_request \<Rightarrow> (int \<times> resp_header \<times> string option) option \<Rightarrow> bool http_io"
where
  "http_answer E H req shown =
     (case shown of
        None \<Rightarrow> return False
      | Some (status, h, body) \<Rightarrow> do {
          h \<leftarrow> (if status = 0 then http_challenge H req h
                else if status = 200 then resp_header_change (hdr_set ''Connection'' ''keep-alive'') h
                else return h);
          resp_write E (if status = 0 then 407 else status) h body;
          return False
        })"

definition http_authenticate ::
    "http_world \<Rightarrow> http_handler \<Rightarrow> http_request \<Rightarrow> resp_header \<Rightarrow> bool http_io"
where
  "http_authenticate E H req h =
     (let (u, p) = http_credentials req
      in if (case hh_auther H of None \<Rightarrow> True | Some auth \<Rightarrow> auth u p) then return True
         else do {
           shown \<leftarrow> (case hh_probe H of
             None \<Rightarrow> return (Some (0, h, None))
           | Some pr \<Rightarrow>
               if pr_Knock pr = [] \<or> \<not> equal_fold (hq_hostname req) (pr_Knock pr)
               then http_probe E pr req h else return (Some (0, h, None)));
           http_answer E H req shown
         })"

section \<open>A request\<close>

text \<open>The hidden host, when the field holds one, replaces the host; the field goes.\<close>

definition http_unhide :: "string \<Rightarrow> http_request \<Rightarrow> http_request" where
  "http_unhide key req =
     (let v = hdr_get key (hq_header req);
          req = (if v \<noteq> [] then (case decodeServerName v of Some h \<Rightarrow> req\<lparr>hq_host := h\<rparr> | None \<Rightarrow> req) else req)
      in req\<lparr>hq_header := hdr_del key (hq_header req)\<rparr>)"

definition http_addr :: "http_request \<Rightarrow> string" where
  "http_addr req =
     (let port = (case split_host_port (hq_host req) of None \<Rightarrow> [] | Some (h, p) \<Rightarrow> p)
      in if port = [] then join_host_port (hq_host req) ''80'' else hq_host req)"

definition http_handleUDP :: "http_world \<Rightarrow> http_handler \<Rightarrow> http_err option http_io" where
  "http_handleUDP E H = do {
     h \<leftarrow> resp_header_new;
     if \<not> hh_enableUDP H then do { ok \<leftarrow> resp_write E 403 h None; return (if ok then None else Some ErrWrite) }
     else do {
       ok \<leftarrow> resp_write E 200 h None;
       if \<not> ok then return (Some ErrWrite)
       else do {
         ok \<leftarrow> ask (hw_dial E) (Dial None ''udp'' []);
         if \<not> ok then return (Some ErrDial)
         else deferring (emit CloseUp) (do {
           pc \<leftarrow> act (\<lambda>w. (hw_packet E (w, []), w));
           if \<not> pc then return (Some ErrConnType) else do { emit (Special RelayUDP); return None }
         })
       }
     }
   }"

text \<open>The request as the handler sees it, before it is served.\<close>

definition http_seen :: "http_world \<Rightarrow> http_request \<Rightarrow> http_request" where
  "http_seen E req =
     http_unhide ''X-Gost-Target'' (http_unhide ''Gost-Target''
       (if \<not> hq_abs req \<and> hw_isDNSName E (hq_host req) then req\<lparr>hq_scheme := ''http''\<rparr> else req))"

text \<open>The connection, once the request is let through.\<close>

definition http_serve ::
    "http_world \<Rightarrow> http_handler \<Rightarrow> http_request \<Rightarrow> string \<Rightarrow> resp_header \<Rightarrow> http_err option http_io"
where
  "http_serve E H req addr h =
     (let req = req\<lparr>hq_header := hdr_del ''Proxy-Authorization'' (hq_header req)\<rparr> in do {
        ok \<leftarrow> ask (hw_dial E) (Dial (if hh_hash H = ''host'' then Some addr else None) ''tcp'' addr);
        if \<not> ok then do { resp_write E 503 h None; return (Some ErrDial) }
        else deferring (emit CloseUp) (do {
          ok \<leftarrow> (if hq_method req = ''CONNECT'' then resp_write E 200 h None
            else (let req = req\<lparr>hq_header := hdr_del ''Proxy-Connection'' (hq_header req)\<rparr>
                  in ask (hw_write E) (\<lambda>ok. Special (SendHTTP req ok))));
          if \<not> ok then return (Some ErrWrite)
          else do { emit (Transport False []); return None }
        })
      })"

definition http_handleRequest :: "http_world \<Rightarrow> http_handler \<Rightarrow> http_request \<Rightarrow> http_err option http_io" where
  "http_handleRequest E H req =
     (let req = http_seen E req;
          network = (if hdr_get ''X-Gost-Protocol'' (hq_header req) = ''udp'' then ''udp'' else ''tcp'');
          addr = http_addr req
      in do {
        h \<leftarrow> resp_header_new;
        if (case hh_bypass H of None \<Rightarrow> False | Some contains \<Rightarrow> contains addr)
        then do { ok \<leftarrow> resp_write E 403 h None; return (if ok then None else Some ErrWrite) }
        else do {
          ok \<leftarrow> http_authenticate E H req h;
          if \<not> ok then return None
          else if network = ''udp'' then http_handleUDP E H
          else if hq_method req = ''PRI'' \<or> (hq_method req \<noteq> ''CONNECT'' \<and> hq_scheme req \<noteq> ''http'')
          then do { ok \<leftarrow> resp_write E 400 h None; return (if ok then None else Some ErrWrite) }
          else http_serve E H req addr h
        }
      })"

definition http_Handle :: "http_world \<Rightarrow> http_handler \<Rightarrow> string \<Rightarrow> http_err option http_io" where
  "http_Handle E H remote = deferring (emit CloseClient) (do {
     ok \<leftarrow> checkRateLimit (hh_limiter H) (hw_allow E) remote;
     if \<not> ok then return None
     else do {
       req \<leftarrow> ask (hw_request E) ReadRequest;
       case req of None \<Rightarrow> return (Some ErrRead) | Some req \<Rightarrow> http_handleRequest E H req
     }
   })"

section \<open>The metadata\<close>

text \<open>\<open>probeResistance\<close> of \<open>parseMetadata\<close>: a type and a value around the first colon.\<close>

definition http_parse_probe :: "string \<Rightarrow> string \<Rightarrow> string \<Rightarrow> probe_resistance option" where
  "http_parse_probe probeResistance probe_resist knock =
     (let pr = (if probeResistance = [] then probe_resist else probeResistance)
      in if pr = [] then None
         else case split_n2 CHR '':'' pr of
           [t, v] \<Rightarrow> Some \<lparr>pr_Type = t, pr_Value = v, pr_Knock = knock\<rparr>
         | _ \<Rightarrow> None)"

section \<open>What is served\<close>

definition http_authorized :: "http_handler \<Rightarrow> http_request \<Rightarrow> bool" where
  "http_authorized H req \<longleftrightarrow>
     (case hh_auther H of None \<Rightarrow> True | Some auth \<Rightarrow> auth (fst (http_credentials req)) (snd (http_credentials req)))"

definition http_bypassed :: "http_handler \<Rightarrow> string \<Rightarrow> bool" where
  "http_bypassed H addr = (case hh_bypass H of None \<Rightarrow> False | Some contains \<Rightarrow> contains addr)"

text \<open>
  The events a request permits: the dial of its address, or of nothing for datagrams, when that is
  not bypassed and its user is authorized, and the request itself on that connection, with its
  real host and without the fields that are for the proxy.
\<close>

definition http_permits :: "http_handler \<Rightarrow> http_request \<Rightarrow> http_event \<Rightarrow> bool" where
  "http_permits H req e =
     (let served = (http_authorized H req \<and> \<not> http_bypassed H (http_addr req))
      in case e of
        Dial h n a ok \<Rightarrow> served \<and> (n = ''tcp'' \<and> a = http_addr req \<or> n = ''udp'' \<and> a = [] \<and> hh_enableUDP H)
      | Transport udp ms \<Rightarrow> served
      | Special RelayUDP \<Rightarrow> served
      | Special (SendHTTP r ok) \<Rightarrow> served \<and> hq_host r = hq_host req \<and>
          (\<forall>k\<in>{''Proxy-Authorization'', ''Proxy-Connection'', ''Gost-Target'', ''X-Gost-Target''}. map_of (hq_header r) k = None)
      | Allow host ok \<Rightarrow> False
      | ReadRequest q \<Rightarrow> False
      | CloseClient \<Rightarrow> False
      | _ \<Rightarrow> True)"



lemma http_permits_simps [simp]:
  "http_permits H req (Reply m ok)" "http_permits H req CloseUp"
  "http_permits H req (Special (FetchPage u ok))" "http_permits H req (Special (DialDecoy u ok))"
  "http_permits H req (Special (OpenFile u ok))" "http_permits H req (Special (SendDecoy r))" "http_permits H req (Special RelayDecoy)"
  by (simp_all add: http_permits_def)

text \<open>A part of a session for the request \<open>req\<close>.\<close>

definition http_part :: "http_handler \<Rightarrow> http_request \<Rightarrow> http_event list \<Rightarrow> bool" where
  "http_part H req new \<longleftrightarrow> list_all (http_permits H req) new \<and>
     (\<forall>rest. target_typed (\<lambda>_. False) False (new @ rest) = target_typed (\<lambda>_. False) False rest) \<and> length (replies new) \<le> 2"

lemma http_part_Nil [simp]: "http_part H req []"
  by (simp add: http_part_def)

lemma wp_resp_write [wp_simps]:
  "wp (resp_write E status h body) Q (w, es) =
   Q (hw_write E (w, es)) (w, es @ [Reply (HttpResponse status (case h of OwnHeader hs \<Rightarrow> hs | SharedHeader \<Rightarrow> the w) body) (hw_write E (w, es))])"
  by (simp add: resp_write_def wp_simps)

lemma wp_resp_header_change [wp_simps]:
  "wp (resp_header_change f h) Q (w, es) =
   (case h of OwnHeader hs \<Rightarrow> Q (OwnHeader (f hs)) (w, es) | SharedHeader \<Rightarrow> Q SharedHeader (map_option f w, es))"
  by (cases h) (simp_all add: resp_header_change_def wp_simps)

lemma wp_resp_header_new [wp_simps]:
  "wp resp_header_new Q (w, es) = Q (if w = None then OwnHeader [] else SharedHeader) (w, es)"
  by (simp add: resp_header_new_def wp_simps)













section \<open>Properties\<close>



lemma target_typed_CloseClient [simp]: "target_typed opens up (es @ [CloseClient]) = target_typed opens up es"
  by (induction opens up es rule: target_typed.induct) auto


text \<open>The handler's header after a session.\<close>

definition http_after :: "http_world \<Rightarrow> http_handler \<Rightarrow> string \<Rightarrow> http_state \<Rightarrow> http_state" where
  "http_after E H remote w = fst (snd (run_state (http_Handle E H remote) (w, [])))"

lemma http_after_wp: "wp (http_Handle E H remote) (\<lambda>_ h. fst h = w') (w, []) \<Longrightarrow> http_after E H remote w = w'"
  by (simp add: wp_def http_after_def split_beta)

definition http_basic_realm :: "http_handler \<Rightarrow> string" where
  "http_basic_realm H = ''Basic realm='' @ [CHR 0x22] @ (if hh_realm H \<noteq> [] then hh_realm H else http_defaultRealm) @ [CHR 0x22]"

lemma http_failed_session:
  assumes "hh_limiter H = None" "\<And>h. hw_request E h = Some req"
    and "\<not> http_authorized H (http_seen E req)" "\<not> http_bypassed H (http_addr (http_seen E req))" "hh_probe H = None"
  shows "\<exists>hs'. http_after E H remote (Some hs) = Some hs' \<and>
     (\<forall>k. k \<noteq> ''Connection'' \<longrightarrow> k \<noteq> ''Proxy-Connection'' \<longrightarrow>
        map_of hs' k = map_of (hdr_add ''Proxy-Authenticate'' (http_basic_realm H) hs) k)"
proof -
  let ?r = "http_seen E req"
  let ?hs = "hdr_add ''Proxy-Authenticate'' (http_basic_realm H) hs"
  let ?hs' = "if to_lower (hdr_get ''Proxy-Connection'' (hq_header ?r)) = ''keep-alive''
    then hdr_set ''Proxy-Connection'' ''close'' (hdr_set ''Connection'' ''close'' ?hs) else ?hs"
  have "http_authenticate E H ?r h = http_answer E H ?r (Some (0, h, None))" for h
    using assms(3,5) by (simp add: http_authenticate_def http_authorized_def split_beta)
  then have "wp (http_Handle E H remote) (\<lambda>_ h. fst h = Some ?hs') (Some hs, [])"
    using assms(4)
    by (simp add: http_Handle_def checkRateLimit_def assms(1,2) wp_simps http_handleRequest_def Let_def http_bypassed_def
        http_answer_def http_challenge_def http_basic_realm_def)
  then have "http_after E H remote (Some hs) = Some ?hs'" by (rule http_after_wp)
  then show ?thesis by (auto simp: hdr_set_def update_conv')
qed

text \<open>
  Where the handler has response header fields of its own, an authentication that fails
  changes them: the challenge is added to the handler's header, not to a copy, so after \<open>n\<close>
  failed sessions every later response, an authorized client's too, carries \<open>n\<close> challenges.
\<close>

theorem http_failed_auth_grows_header:
  assumes "hh_limiter H = None" "hh_probe H = None" "map_of hs ''Proxy-Authenticate'' = None"
    and "\<forall>req\<in>set reqs. \<not> http_authorized H (http_seen (E req) req) \<and> \<not> http_bypassed H (http_addr (http_seen (E req) req)) \<and>
           (\<forall>h. hw_request (E req) h = Some req)"
  shows "case fold (\<lambda>req. http_after (E req) H remote) reqs (Some hs) of
      None \<Rightarrow> False
    | Some hs' \<Rightarrow> map_of hs' ''Proxy-Authenticate'' =
        (if reqs = [] then None else Some (replicate (length reqs) (http_basic_realm H)))"
  using assms(4)
proof (induction reqs rule: rev_induct)
  case (snoc req reqs)
  then obtain hs1 where hs1: "fold (\<lambda>req. http_after (E req) H remote) reqs (Some hs) = Some hs1"
      "map_of hs1 ''Proxy-Authenticate'' = (if reqs = [] then None else Some (replicate (length reqs) (http_basic_realm H)))"
    by (auto split: option.splits)
  obtain hs2 where hs2: "http_after (E req) H remote (Some hs1) = Some hs2"
      "map_of hs2 ''Proxy-Authenticate'' = map_of (hdr_add ''Proxy-Authenticate'' (http_basic_realm H) hs1) ''Proxy-Authenticate''"
  proof -
    have read: "hw_request (E req) h = Some req" for h using snoc.prems by (cases h) simp
    have "\<not> http_authorized H (http_seen (E req) req)" "\<not> http_bypassed H (http_addr (http_seen (E req) req))"
      using snoc.prems by simp_all
    from http_failed_session [OF assms(1) read this assms(2), of remote hs1]
    show thesis by (elim exE conjE) (rule that, assumption, simp)
  qed
  show ?case
    by (simp add: hs1(1) hs2 hdr_add_def update_conv' hs1(2) replicate_append_same)
qed (simp add: assms(3))

text \<open>A handler with a header of its own, and two requests without credentials.\<close>

definition demo_http_handler :: http_handler where
  "demo_http_handler = \<lparr>hh_limiter = None, hh_auther = Some (\<lambda>u p. u = ''user'' \<and> p = ''pass''), hh_bypass = None,
     hh_probe = None, hh_enableUDP = False, hh_hash = [], hh_realm = []\<rparr>"

definition demo_http_request :: http_request where
  "demo_http_request = \<lparr>hq_method = ''CONNECT'', hq_abs = False, hq_scheme = [], hq_hostname = ''a.example'',
     hq_host = ''a.example:443'', hq_header = []\<rparr>"

definition demo_http_world :: "http_request \<Rightarrow> http_world" where
  "demo_http_world req = \<lparr>hw_isDNSName = (\<lambda>_. False), hw_allow = (\<lambda>_. True), hw_request = (\<lambda>_. Some req),
     hw_write = (\<lambda>_. True), hw_dial = (\<lambda>_. True), hw_packet = (\<lambda>_. False), hw_page = (\<lambda>_. None),
     hw_decoy = (\<lambda>_. False), hw_file = (\<lambda>_. False)\<rparr>"

lemma http_failed_auth_grows_header_witness:
  "case fold (\<lambda>req. http_after (demo_http_world req) demo_http_handler ''192.0.2.1:4000'')
       [demo_http_request, demo_http_request] (Some [(''X-Via'', [''gost''])]) of
     None \<Rightarrow> False
   | Some hs' \<Rightarrow> map_of hs' ''Proxy-Authenticate'' = Some [http_basic_realm demo_http_handler, http_basic_realm demo_http_handler]"
proof -
  have "hdr_get k (hdr_del k' []) = []" for k k' by (simp add: hdr_get_def hdr_del_def)
  then have "http_seen (demo_http_world demo_http_request) demo_http_request = demo_http_request"
    by (simp add: http_seen_def http_unhide_def demo_http_request_def demo_http_world_def hdr_get_def hdr_del_def)
  moreover have "\<not> http_authorized demo_http_handler demo_http_request" "\<not> http_bypassed demo_http_handler a" for a
    by (simp_all add: http_authorized_def http_credentials_def http_basicProxyAuth_def hdr_get_def demo_http_request_def
        demo_http_handler_def http_bypassed_def)
  moreover have "hw_request (demo_http_world req) h = Some req" for req h
    by (simp add: demo_http_world_def)
  ultimately show ?thesis
    using http_failed_auth_grows_header [of demo_http_handler "[(''X-Via'', [''gost''])]" "[demo_http_request, demo_http_request]"
        demo_http_world "''192.0.2.1:4000''"]
    by (simp add: demo_http_handler_def del: fold_simps fold.simps cong: option.case_cong)
qed

end
