(* ===== verification/Http2Handler.thy ===== *)
theory Http2Handler
  imports HttpHandler
begin

text \<open>
  The HTTP/2 proxy (\<open>handler/http2/handler.go\<close>), whose requests come one by one from the server of its
  listener, and the HTTP/3 reverse proxy (\<open>handler/http3/handler.go\<close>).  The state is the header of the
  response writer, which is the request's own.  The address, the hidden host and the
  credentials of a request are those of \<open>HttpHandler\<close>: the code has copies.
\<close>

section \<open>What the HTTP/2 handler does\<close>

text \<open>
  A page for an intruder, the decoy with what is sent to it and read from it, a file, taking over
  the client's connection, and closing these.  A \<open>Reply\<close> is the status and header of the
  writer, with the source of the body.
\<close>

datatype http2_special =
    Page string bool
  | Decoy string bool
  | ToDecoy http_request bool
  | FromDecoy bool
  | CloseDecoy
  | OpenPage string bool
  | Hijack bool
  | CloseHijacked

type_synonym http2_event = "(http_request, http_resp, http2_special) event"
type_synonym http2_history = "(http_header, http2_event) history"
type_synonym 'a http2_io = "(http_header, http2_event, 'a) io"

record http2_handler =
  h2_limiter :: "(string \<Rightarrow> bool) option"
  h2_auther :: "(string \<Rightarrow> string \<Rightarrow> bool) option"
  h2_bypass :: "(string \<Rightarrow> bool) option"
  h2_probe :: "probe_resistance option"
  h2_header :: http_header
  h2_hash :: string
  h2_realm :: string

text \<open>
  \<open>h2w_request\<close> is the request of the connection, \<open>None\<close> when it is of another kind.  \<open>h2w_hijacker\<close> tells
  whether the writer lets its connection be taken over and the request is of HTTP/1.
\<close>

record http2_world =
  h2w_allow :: "http2_history \<Rightarrow> bool"
  h2w_request :: "http2_history \<Rightarrow> http_request option"
  h2w_dial :: "http2_history \<Rightarrow> bool"
  h2w_hijacker :: bool
  h2w_hijack :: "http2_history \<Rightarrow> bool"
  h2w_page :: "http2_history \<Rightarrow> (int \<times> http_header) option"
  h2w_decoy :: "http2_history \<Rightarrow> bool"
  h2w_write :: "http2_history \<Rightarrow> bool"
  h2w_response :: "http2_history \<Rightarrow> (int \<times> http_header) option"
  h2w_file :: "http2_history \<Rightarrow> bool"

datatype http2_err = H2WrongConn | H2Dial | H2Hijack

section \<open>Responses\<close>

text \<open>\<open>w.WriteHeader(status)\<close>, and a body.\<close>

definition http2_head :: "int \<Rightarrow> string option \<Rightarrow> unit http2_io" where
  "http2_head status body = do {
     hs \<leftarrow> act (\<lambda>w. (w, w));
     emit (Reply (HttpResponse status hs body) True)
   }"

definition header_add_all :: "http_header \<Rightarrow> http_header \<Rightarrow> http_header" where
  "header_add_all hs w = fold (\<lambda>(k, vs) w. fold (\<lambda>v w. hdr_add k v w) vs w) hs w"

definition http2_writeResponse :: "int \<Rightarrow> http_header \<Rightarrow> string option \<Rightarrow> unit http2_io" where
  "http2_writeResponse status hs body = do {
     act (\<lambda>w. ((), header_add_all hs w));
     http2_head status body
   }"

definition http2_forwardRequest :: "http2_world \<Rightarrow> http_request \<Rightarrow> string \<Rightarrow> unit http2_io" where
  "http2_forwardRequest E req decoy = do {
     ok \<leftarrow> ask (h2w_write E) (\<lambda>ok. Special (ToDecoy req ok));
     if \<not> ok then return ()
     else do {
       resp \<leftarrow> ask (h2w_response E) (\<lambda>r. Special (FromDecoy (r \<noteq> None)));
       case resp of None \<Rightarrow> return () | Some (status, hs) \<Rightarrow> http2_writeResponse status hs (Some decoy)
     }
   }"

section \<open>Authentication\<close>

text \<open>The response for an intruder: status, header, body; \<open>None\<close> when the decoy has answered.\<close>

definition http2_probe ::
    "http2_world \<Rightarrow> probe_resistance \<Rightarrow> http_request \<Rightarrow> (int \<times> http_header \<times> string option) option http2_io"
where
  "http2_probe E pr req =
     (if pr_Type pr = ''code'' then return (Some (atoi (pr_Value pr), [], None))
      else if pr_Type pr = ''web'' then
        (let url = (if has_prefix (pr_Value pr) ''http'' then pr_Value pr else ''http://'' @ pr_Value pr) in do {
           r \<leftarrow> ask (h2w_page E) (\<lambda>r. Special (Page url (r \<noteq> None)));
           return (case r of None \<Rightarrow> Some (503, [], None) | Some (status, hs) \<Rightarrow> Some (status, hs, Some url))
         })
      else if pr_Type pr = ''host'' then do {
        ok \<leftarrow> ask (h2w_decoy E) (\<lambda>ok. Special (Decoy (pr_Value pr) ok));
        if \<not> ok then return (Some (503, [], None))
        else deferring (emit (Special CloseDecoy)) (do { http2_forwardRequest E req (pr_Value pr); return None })
      }
      else if pr_Type pr = ''file'' then do {
        ok \<leftarrow> ask (h2w_file E) (\<lambda>ok. Special (OpenPage (pr_Value pr) ok));
        return (if ok then Some (200, hdr_set ''Content-Type'' ''text/html'' [], Some (pr_Value pr)) else Some (503, [], None))
      }
      else return (Some (503, [], None)))"

definition http2_challenge :: "http2_handler \<Rightarrow> http_request \<Rightarrow> http_header \<Rightarrow> http_header" where
  "http2_challenge H req hs =
     (let realm = (if h2_realm H \<noteq> [] then h2_realm H else http_defaultRealm);
          hs = hdr_add ''Proxy-Authenticate'' (''Basic realm='' @ [CHR 0x22] @ realm @ [CHR 0x22]) hs
      in if to_lower (hdr_get ''Proxy-Connection'' (hq_header req)) = ''keep-alive''
         then hdr_set ''Proxy-Connection'' ''close'' (hdr_set ''Connection'' ''close'' hs)
         else hs)"

text \<open>The header of the response gives way to a new one, except in a challenge.\<close>

definition http2_answer ::
    "http2_handler \<Rightarrow> http_request \<Rightarrow> (int \<times> http_header \<times> string option) option \<Rightarrow> bool http2_io"
where
  "http2_answer H req shown =
     (case shown of
        None \<Rightarrow> return False
      | Some (status, hs, body) \<Rightarrow> do {
          (if status = 0 then http2_writeResponse 407 (http2_challenge H req hs) body
           else http2_writeResponse status (if status = 200 then hdr_set ''Connection'' ''keep-alive'' [] else []) body);
          return False
        })"

definition http2_authenticate :: "http2_world \<Rightarrow> http2_handler \<Rightarrow> http_request \<Rightarrow> bool http2_io" where
  "http2_authenticate E H req =
     (let (u, p) = http_credentials req
      in if (case h2_auther H of None \<Rightarrow> True | Some auth \<Rightarrow> auth u p) then return True
         else do {
           shown \<leftarrow> (case h2_probe H of
             None \<Rightarrow> return (Some (0, [], None))
           | Some pr \<Rightarrow>
               if pr_Knock pr = [] \<or> \<not> equal_fold (hq_hostname req) (pr_Knock pr)
               then http2_probe E pr req else return (Some (0, [], None)));
           http2_answer H req shown
         })"

section \<open>A request\<close>

definition http2_seen :: "http_request \<Rightarrow> http_request" where
  "http2_seen req = http_unhide ''X-Gost-Target'' (http_unhide ''Gost-Target'' req)"

text \<open>The handler's fields, each with its first value.\<close>

definition header_set_all :: "http_header \<Rightarrow> http_header \<Rightarrow> http_header" where
  "header_set_all hs w = fold (\<lambda>(k, vs) w. hdr_set k (hdr_get k hs) w) hs w"

text \<open>With the connection to the target.\<close>

definition http2_connected :: "http2_world \<Rightarrow> http_request \<Rightarrow> http2_err option http2_io" where
  "http2_connected E req =
     (if hq_method req = ''CONNECT'' then do {
        http2_head 200 None;
        if h2w_hijacker E then do {
          ok \<leftarrow> ask (h2w_hijack E) (\<lambda>ok. Special (Hijack ok));
          if \<not> ok then do { http2_head 500 None; return (Some H2Hijack) }
          else deferring (emit (Special CloseHijacked)) (do { emit (Transport False []); return None })
        }
        else do { emit (Transport False []); return None }
      }
      else return None)"

definition http2_roundTrip :: "http2_world \<Rightarrow> http2_handler \<Rightarrow> http_request \<Rightarrow> http2_err option http2_io" where
  "http2_roundTrip E H req =
     (let req = http2_seen req; addr = http_addr req in do {
        act (\<lambda>w. ((), header_set_all (h2_header H) w));
        if (case h2_bypass H of None \<Rightarrow> False | Some contains \<Rightarrow> contains addr)
        then do { http2_head 403 None; return None }
        else do {
          ok \<leftarrow> http2_authenticate E H req;
          if \<not> ok then return None
          else do {
            ok \<leftarrow> ask (h2w_dial E) (Dial (if h2_hash H = ''host'' then Some addr else None) ''tcp'' addr);
            if \<not> ok then do { http2_head 503 None; return (Some H2Dial) }
            else deferring (emit CloseUp) (http2_connected E req)
          }
        }
      })"

definition http2_Handle :: "http2_world \<Rightarrow> http2_handler \<Rightarrow> string \<Rightarrow> http2_err option http2_io" where
  "http2_Handle E H remote = deferring (emit CloseClient) (do {
     ok \<leftarrow> checkRateLimit (h2_limiter H) (h2w_allow E) remote;
     if \<not> ok then return None
     else do {
       req \<leftarrow> ask (h2w_request E) ReadRequest;
       case req of None \<Rightarrow> return (Some H2WrongConn) | Some req \<Rightarrow> http2_roundTrip E H req
     }
   })"

section \<open>What an HTTP/2 request permits\<close>

definition http2_authorized :: "http2_handler \<Rightarrow> http_request \<Rightarrow> bool" where
  "http2_authorized H req \<longleftrightarrow>
     (case h2_auther H of None \<Rightarrow> True | Some auth \<Rightarrow> auth (fst (http_credentials req)) (snd (http_credentials req)))"

definition http2_may :: "http2_handler \<Rightarrow> string \<Rightarrow> http2_event list \<Rightarrow> http2_event \<Rightarrow> bool" where
  "http2_may H remote es e = (case e of
     Dial h n a ok \<Rightarrow> Allow (host_of remote) False \<notin> set es \<and> n = ''tcp'' \<and>
       (case h2_bypass H of None \<Rightarrow> True | Some contains \<Rightarrow> \<not> contains a) \<and>
       (\<exists>req. ReadRequest (Some req) \<in> set es \<and> http2_authorized H (http2_seen req) \<and> a = http_addr (http2_seen req))
   | Transport udp ms \<Rightarrow> \<not> udp \<and> (\<exists>req h a. ReadRequest (Some req) \<in> set es \<and> hq_method req = ''CONNECT'' \<and> Dial h ''tcp'' a True \<in> set es)
   | _ \<Rightarrow> True)"

lemma http2_may_simps [simp]:
  "http2_may H remote es (Allow h ok)" "http2_may H remote es (ReadRequest r)" "http2_may H remote es (Reply m ok)"
  "http2_may H remote es CloseUp" "http2_may H remote es CloseClient" "http2_may H remote es (Special x)"
  by (simp_all add: http2_may_def)

lemma hq_method_unhide [simp]: "hq_method (http_unhide k req) = hq_method req"
  by (simp add: http_unhide_def Let_def split: option.split)

lemma hq_method_seen [simp]: "hq_method (http2_seen req) = hq_method req"
  by (simp add: http2_seen_def)








definition demo_http2 :: http2_handler where
  "demo_http2 = \<lparr>h2_limiter = None, h2_auther = Some (\<lambda>u p. u = ''user'' \<and> p = ''pass''), h2_bypass = None, h2_probe = None,
     h2_header = [], h2_hash = [], h2_realm = []\<rparr>"

definition demo_http2_world :: "http_request \<Rightarrow> http2_world" where
  "demo_http2_world req = \<lparr>h2w_allow = (\<lambda>_. True), h2w_request = (\<lambda>_. Some req), h2w_dial = (\<lambda>_. True), h2w_hijacker = False,
     h2w_hijack = (\<lambda>_. True), h2w_page = (\<lambda>_. None), h2w_decoy = (\<lambda>_. False), h2w_write = (\<lambda>_. True),
     h2w_response = (\<lambda>_. None), h2w_file = (\<lambda>_. False)\<rparr>"

text \<open>A request without credentials is challenged, and one with another method than CONNECT gets nothing.\<close>

lemma http2_challenged:
  "io_trace (http2_Handle (demo_http2_world demo_http_request) demo_http2 ''192.0.2.1:4000'') [] =
     [ReadRequest (Some demo_http_request),
      Reply (HttpResponse 407 [(''Proxy-Authenticate'', [''Basic realm='' @ [CHR 0x22] @ ''gost'' @ [CHR 0x22]])] None) True,
      CloseClient]"
  by code_simp

lemma http2_plain_request_dropped: "hq_method req \<noteq> ''CONNECT'' \<Longrightarrow> http2_connected E req = return None"
  by (simp add: http2_connected_def)

section \<open>The HTTP/3 reverse proxy\<close>

text \<open>
  A node of the hop: its address, and whether it has a marker.  What only this handler does: select a
  node for an address, hand the request, with the host of its URL, to the reverse proxy of
  \<open>net/http/httputil\<close>, which asks for connections when it wants one, and mark a node.
\<close>

record http3_node =
  h3n_addr :: string
  h3n_marker :: bool

datatype http3_special = SelectNode string "http3_node option" | Proxied string | MarkNode

type_synonym http3_event = "(http_request, http_resp, http3_special) event"
type_synonym http3_history = "(http_header, http3_event) history"
type_synonym 'a http3_io = "(http_header, http3_event, 'a) io"

record http3_handler =
  h3_limiter :: "(string \<Rightarrow> bool) option"
  h3_bypass :: "(string \<Rightarrow> bool) option"
  h3_header :: http_header
  h3_hash :: string
  h3_hop :: bool

text \<open>\<open>h3w_dials\<close>: the networks of the connections the reverse proxy asks for, one after the other.\<close>

record http3_world =
  h3w_allow :: "http3_history \<Rightarrow> bool"
  h3w_request :: "http3_history \<Rightarrow> http_request option"
  h3w_select :: "http3_history \<Rightarrow> http3_node option"
  h3w_dials :: "http3_history \<Rightarrow> string list"
  h3w_dial :: "http3_history \<Rightarrow> bool"

datatype http3_err = H3WrongConn | H3NoTarget

text \<open>The \<open>DialContext\<close> of the transport.\<close>

definition http3_DialContext :: "http3_world \<Rightarrow> http3_handler \<Rightarrow> string \<Rightarrow> http3_node \<Rightarrow> string \<Rightarrow> unit http3_io" where
  "http3_DialContext E H addr target network = do {
     ok \<leftarrow> ask (h3w_dial E) (Dial (if h3_hash H = ''host'' then Some addr else None) network (h3n_addr target));
     if \<not> ok \<and> h3n_marker target then emit (Special MarkNode) else return ()
   }"

primrec http3_dials :: "http3_world \<Rightarrow> http3_handler \<Rightarrow> string \<Rightarrow> http3_node \<Rightarrow> string list \<Rightarrow> unit http3_io" where
  "http3_dials E H addr target [] = return ()"
| "http3_dials E H addr target (network # ns) =
     do { http3_DialContext E H addr target network; http3_dials E H addr target ns }"

definition http3_head :: "int \<Rightarrow> unit http3_io" where
  "http3_head status = do { hs \<leftarrow> act (\<lambda>w. (w, w)); emit (Reply (HttpResponse status hs None) True) }"

definition http3_roundTrip :: "http3_world \<Rightarrow> http3_handler \<Rightarrow> http_request \<Rightarrow> http3_err option http3_io" where
  "http3_roundTrip E H req =
     (let addr = http_addr req in do {
        act (\<lambda>w. ((), header_set_all (h3_header H) w));
        if (case h3_bypass H of None \<Rightarrow> False | Some contains \<Rightarrow> contains addr)
        then do { http3_head 403; return None }
        else do {
          target \<leftarrow> (if h3_hop H then ask (h3w_select E) (\<lambda>n. Special (SelectNode addr n)) else return None);
          case target of
            None \<Rightarrow> return (Some H3NoTarget)
          | Some target \<Rightarrow> do {
              emit (Special (Proxied (hq_host req)));
              networks \<leftarrow> act (\<lambda>w. (h3w_dials E (w, []), w));
              http3_dials E H addr target networks;
              return None
            }
        }
      })"

definition http3_Handle :: "http3_world \<Rightarrow> http3_handler \<Rightarrow> string \<Rightarrow> http3_err option http3_io" where
  "http3_Handle E H remote = deferring (emit CloseClient) (do {
     ok \<leftarrow> checkRateLimit (h3_limiter H) (h3w_allow E) remote;
     if \<not> ok then return None
     else do {
       req \<leftarrow> ask (h3w_request E) ReadRequest;
       case req of None \<Rightarrow> return (Some H3WrongConn) | Some req \<Rightarrow> http3_roundTrip E H req
     }
   })"

definition http3_may :: "http3_handler \<Rightarrow> string \<Rightarrow> http3_event list \<Rightarrow> http3_event \<Rightarrow> bool" where
  "http3_may H remote es e = (case e of
     Dial h n a ok \<Rightarrow> Allow (host_of remote) False \<notin> set es \<and>
       (\<exists>req node. ReadRequest (Some req) \<in> set es \<and> a = h3n_addr node \<and>
         Special (SelectNode (http_addr req) (Some node)) \<in> set es \<and>
         (case h3_bypass H of None \<Rightarrow> True | Some contains \<Rightarrow> \<not> contains (http_addr req)))
   | Special MarkNode \<Rightarrow> es \<noteq> [] \<and> (\<exists>h n a. last es = Dial h n a False)
   | _ \<Rightarrow> True)"

lemma http3_may_simps [simp]:
  "http3_may H remote es (Allow host ok)" "http3_may H remote es (ReadRequest r)" "http3_may H remote es (Reply m ok)"
  "http3_may H remote es CloseClient" "http3_may H remote es (Special (SelectNode a node))" "http3_may H remote es (Special (Proxied a))"
  "http3_may H remote (es @ [Dial h n a False]) (Special MarkNode)"
  by (simp_all add: http3_may_def)

lemma http3_dials_guarded:
  assumes "guarded (http3_may H remote) [] es" "Allow (host_of remote) False \<notin> set es" "ReadRequest (Some req) \<in> set es"
    and "Special (SelectNode (http_addr req) (Some node)) \<in> set es"
    and "case h3_bypass H of None \<Rightarrow> True | Some contains \<Rightarrow> \<not> contains (http_addr req)"
  shows "wp (http3_dials E H addr node ns) (\<lambda>_ h. guarded (http3_may H remote) [] (snd h)) (w, es)"
  using assms(1-4)
proof (induction ns arbitrary: es)
  case (Cons n ns)
  have dial: "http3_may H remote es (Dial h n (h3n_addr node) ok)" for h ok
    unfolding http3_may_def using Cons.prems assms(5) by auto
  have more: "wp (http3_dials E H addr node ns) (\<lambda>_ h. guarded (http3_may H remote) [] (snd h)) (w, es @ new)"
    if "guarded (http3_may H remote) es new" "Allow (host_of remote) False \<notin> set new" for new
    by (rule Cons.IH) (use Cons.prems that in auto)
  from more [of "[Dial h n (h3n_addr node) ok]" for h ok]
    more [of "[Dial h n (h3n_addr node) False, Special MarkNode]" for h] dial
  show ?case by (simp add: http3_DialContext_def wp_simps)
qed (simp add: wp_simps)

text \<open>
  The HTTP/3 proxy dials only the address of a node its hop has selected for the host of a request
  that is not bypassed, past the rate limiter; and a node is marked just after a dial to it has failed.
\<close>

theorem http3_serves_only_selected:
  "guarded (http3_may H remote) [] (io_trace (http3_Handle E H remote) w)"
proof -
  let ?P = "http3_may H remote"
  have close: "wp (State_Monad.bind m (\<lambda>_. return r)) (\<lambda>r. wp (emit CloseClient) (\<lambda>_ h. guarded ?P [] (snd h))) h"
    if "wp m (\<lambda>_ h. guarded ?P [] (snd h)) h" for m :: "unit http3_io" and r :: "http3_err option" and h
    unfolding wp_bind using that by (rule wp_mono) (auto simp: wp_simps)
  have serve: "wp (http3_roundTrip E H req) (\<lambda>r. wp (emit CloseClient) (\<lambda>_ h. guarded ?P [] (snd h))) (w, es)"
    if es: "guarded ?P [] es" "ReadRequest (Some req) \<in> set es" "Allow (host_of remote) False \<notin> set es" for w es req
  proof -
    have dialled: "wp (State_Monad.bind (http3_dials E H (http_addr req) node ns) (\<lambda>_. return (None :: http3_err option)))
        (\<lambda>r. wp (emit CloseClient) (\<lambda>_ h. guarded ?P [] (snd h)))
        (w', es @ [Special (SelectNode (http_addr req) (Some node)), Special (Proxied (hq_host req))])"
      if "case h3_bypass H of None \<Rightarrow> True | Some contains \<Rightarrow> \<not> contains (http_addr req)" for node ns w'
    proof (rule close)
      show "wp (http3_dials E H (http_addr req) node ns) (\<lambda>_ h. guarded ?P [] (snd h))
          (w', es @ [Special (SelectNode (http_addr req) (Some node)), Special (Proxied (hq_host req))])"
        by (rule http3_dials_guarded [where req = req]) (use es that in auto)
    qed
    show ?thesis
      using es dialled
      by (auto simp: http3_roundTrip_def http3_head_def Let_def wp_return wp_emit wp_ask wp_act wp_if wp_bind split: option.splits)
  qed
  have "wp (http3_Handle E H remote) (\<lambda>_ h. guarded ?P [] (snd h)) (w, [])"
    by (auto simp: http3_Handle_def wp_simps Let_def rate_allowed_def intro!: serve split: option.split)
  then show ?thesis by (rule io_trace_wp)
qed

end
