(* ===== verification/Resolver.thy ===== *)
theory Resolver
  imports Handler
begin

text \<open>
  Name resolution: the cache (\<open>internal/util/resolver\<close>), the exchangers of messages
  (\<open>resolver/exchanger/exchanger.go\<close>) and the resolver (\<open>resolver/resolver.go\<close>).  The format of DNS messages is that of
  \<open>github.com/miekg/dns\<close>: packing, unpacking and the names of classes and types are parameters.
  The state is the cache; the clock and the servers are oracles.
\<close>

section \<open>Messages\<close>

record dns_question =
  dq_name :: string
  dq_class :: uint16
  dq_type :: uint16

datatype rr_data = RR_A ip | RR_AAAA ip | RR_Other

record dns_rr =
  rr_ttl :: uint32
  rr_data :: rr_data

datatype dns_extra = ClientSubnet nat nat ip | OtherExtra string

record dns_msg =
  dm_id :: uint16
  dm_flags :: uint16
  dm_question :: "dns_question list"
  dm_answer :: "dns_rr list"
  dm_extra :: "dns_extra list"

text \<open>
  The package: \<open>Unpack\<close> gives what it has read and whether that was all right, \<open>NewRR\<close> reads a record
  of a zone file, \<open>dp_query\<close> is a new message with \<open>SetQuestion\<close>.
\<close>

record dns_pkg =
  dp_unpack :: "byte list \<Rightarrow> dns_msg \<times> bool"
  dp_pack :: "dns_msg \<Rightarrow> byte list option"
  dp_SetReply :: "dns_msg \<Rightarrow> dns_msg"
  dp_NewRR :: "string \<Rightarrow> dns_rr option"
  dp_class :: "uint16 \<Rightarrow> string"
  dp_type :: "uint16 \<Rightarrow> string"
  dp_Fqdn :: "string \<Rightarrow> string"
  dp_query :: "string \<Rightarrow> uint16 \<Rightarrow> dns_msg"

definition dns_TypeA :: uint16 where "dns_TypeA = 1"
definition dns_TypeAAAA :: uint16 where "dns_TypeAAAA = 28"
definition dns_ClassINET :: uint16 where "dns_ClassINET = 1"

text \<open>The nil address is the empty one.\<close>

definition AddSubnetOpt :: "dns_msg \<Rightarrow> ip \<Rightarrow> dns_msg" where
  "AddSubnetOpt m ip =
     (if ip = [] then m
      else m\<lparr>dm_extra := dm_extra m @
        [if ip_to4 ip \<noteq> [] then ClientSubnet 1 24 (ip_to4 ip) else ClientSubnet 2 128 (ip_to16 ip)]\<rparr>)"

section \<open>The cache\<close>

definition NewCacheKey :: "dns_pkg \<Rightarrow> dns_question \<Rightarrow> string" where
  "NewCacheKey P q = dq_name q @ dp_class P (dq_class q) @ ''.'' @ dp_type P (dq_type q)"

record cache_item =
  ci_msg :: dns_msg
  ci_ts :: int
  ci_ttl :: int

type_synonym dns_cache = "string \<Rightarrow> cache_item option"

text \<open>Times are nanoseconds.\<close>

definition dns_second :: int where "dns_second = 10 ^ 9"

definition cache_Load :: "string \<Rightarrow> int \<Rightarrow> dns_cache \<Rightarrow> dns_msg option \<times> dns_cache" where
  "cache_Load key now c =
     (case c key of
        None \<Rightarrow> (None, c)
      | Some item \<Rightarrow>
          if now - ci_ts item > ci_ttl item then (None, c(key := None)) else (Some (ci_msg item), c))"

text \<open>The time to live of an item: given, or the least of the answers, or 30 seconds.\<close>

definition cache_ttl :: "int \<Rightarrow> dns_rr list \<Rightarrow> int" where
  "cache_ttl ttl answers =
     (let ttl = (if ttl = 0
                 then fold (\<lambda>a ttl. let v = uint (rr_ttl a) * dns_second in if ttl = 0 \<or> ttl > v then v else ttl) answers 0
                 else ttl)
      in if ttl = 0 then 30 * dns_second else ttl)"

definition cache_Store :: "string \<Rightarrow> dns_msg \<Rightarrow> int \<Rightarrow> int \<Rightarrow> dns_cache \<Rightarrow> dns_cache" where
  "cache_Store key mr ttl now c =
     (if key = [] \<or> ttl < 0 then c
      else c(key := Some \<lparr>ci_msg = mr, ci_ts = now, ci_ttl = cache_ttl ttl (dm_answer mr)\<rparr>))"

section \<open>Exchangers\<close>

text \<open>\<open>ex_tls\<close>: whether the connection is encrypted.\<close>

record exchanger =
  ex_network :: string
  ex_addr :: string
  ex_rawAddr :: string
  ex_tls :: bool
  ex_timeout :: int

fun contains_str :: "string \<Rightarrow> string \<Rightarrow> bool" where
  "contains_str s p = (has_prefix s p \<or> (case s of [] \<Rightarrow> False | _ # t \<Rightarrow> contains_str t p))"

definition exchanger_port :: "string \<Rightarrow> string" where
  "exchanger_port addr =
     (if (case split_host_port addr of None \<Rightarrow> [] | Some (h, p) \<Rightarrow> p) = [] then join_host_port addr ''53'' else addr)"

text \<open>\<open>parse\<close> is \<open>url.Parse\<close>: the scheme and the host.  \<open>config\<close>: whether there is a TLS configuration.\<close>

definition NewExchanger :: "(string \<Rightarrow> (string \<times> string) option) \<Rightarrow> bool \<Rightarrow> int \<Rightarrow> string \<Rightarrow> exchanger option" where
  "NewExchanger parse config timeout addr =
     (let addr = (if contains_str addr ''://'' then addr else ''udp://'' @ addr)
      in case parse addr of
           None \<Rightarrow> None
         | Some (scheme, host) \<Rightarrow>
             let ex = \<lparr>ex_network = scheme, ex_addr = exchanger_port host, ex_rawAddr = addr, ex_tls = config,
                       ex_timeout = (if timeout \<le> 0 then 5 * dns_second else timeout)\<rparr>
             in Some (if scheme = ''tcp'' then ex
                  else if scheme = ''dot'' \<or> scheme = ''tls'' then ex\<lparr>ex_tls := True, ex_network := ''tcp''\<rparr>
                  else if scheme = ''https'' then ex\<lparr>ex_addr := addr, ex_tls := True\<rparr>
                  else ex\<lparr>ex_network := ''udp''\<rparr>))"

text \<open>What an exchange does, and the oracles for it: a response to a post, a dial, a write, and the message that is read, packed again.\<close>

datatype ex_event =
    ExPost string "byte list" "(int \<times> byte list option) option"
  | ExDial string string bool
  | ExTLS
  | ExWrite "byte list" bool
  | ExRead "byte list option"
  | ExClose

record ex_world =
  xw_post :: "(unit, ex_event) history \<Rightarrow> (int \<times> byte list option) option"
  xw_dial :: "(unit, ex_event) history \<Rightarrow> bool"
  xw_write :: "(unit, ex_event) history \<Rightarrow> bool"
  xw_read :: "(unit, ex_event) history \<Rightarrow> byte list option"

definition ex_dohExchange :: "ex_world \<Rightarrow> exchanger \<Rightarrow> byte list \<Rightarrow> (unit, ex_event, byte list option) io" where
  "ex_dohExchange E ex msg = do {
     resp \<leftarrow> ask (xw_post E) (ExPost (ex_addr ex) msg);
     return (case resp of None \<Rightarrow> None | Some (status, body) \<Rightarrow> if status \<noteq> 200 then None else body)
   }"

definition ex_exchange :: "ex_world \<Rightarrow> exchanger \<Rightarrow> byte list \<Rightarrow> (unit, ex_event, byte list option) io" where
  "ex_exchange E ex msg = do {
     ok \<leftarrow> ask (xw_dial E) (ExDial (ex_network ex) (ex_addr ex));
     if \<not> ok then return None
     else deferring (emit ExClose) (do {
       (if ex_tls ex then emit ExTLS else return ());
       ok \<leftarrow> ask (xw_write E) (ExWrite msg);
       if \<not> ok then return None else ask (xw_read E) ExRead
     })
   }"

definition ex_Exchange :: "ex_world \<Rightarrow> exchanger \<Rightarrow> byte list \<Rightarrow> (unit, ex_event, byte list option) io" where
  "ex_Exchange E ex msg = (if ex_network ex = ''https'' then ex_dohExchange E ex msg else ex_exchange E ex msg)"

section \<open>The resolver\<close>

record name_server =
  ns_Addr :: string
  ns_TTL :: int
  ns_Timeout :: int
  ns_ClientIP :: ip
  ns_Prefer :: string

record resolver =
  rs_servers :: "(name_server \<times> exchanger) list"
  rs_domain :: string

text \<open>\<open>mk\<close> is \<open>NewExchanger\<close> with the router of the server and its timeout.\<close>

definition NewResolver :: "(int \<Rightarrow> string \<Rightarrow> exchanger option) \<Rightarrow> name_server list \<Rightarrow> string \<Rightarrow> resolver" where
  "NewResolver mk nameservers domain =
     \<lparr>rs_servers = concat (map (\<lambda>server.
        let addr = trim_space (ns_Addr server)
        in if addr = [] then []
           else case mk (ns_Timeout server) addr of None \<Rightarrow> [] | Some ex \<Rightarrow> [(server, ex)]) nameservers),
      rs_domain = domain\<rparr>"

datatype res_event = ResClock int | ResExchange exchanger "byte list" "byte list option"

type_synonym res_history = "(dns_cache, res_event) history"
type_synonym 'a res_io = "(dns_cache, res_event, 'a) io"

record res_world =
  rw_now :: "res_history \<Rightarrow> int"
  rw_exchange :: "res_history \<Rightarrow> exchanger \<Rightarrow> byte list \<Rightarrow> byte list option"

definition res_exchange :: "dns_pkg \<Rightarrow> res_world \<Rightarrow> exchanger \<Rightarrow> dns_msg \<Rightarrow> dns_msg option res_io" where
  "res_exchange P E ex mq =
     (case dp_pack P mq of
        None \<Rightarrow> return None
      | Some query \<Rightarrow> do {
          reply \<leftarrow> ask (\<lambda>h. rw_exchange E h ex query) (ResExchange ex query);
          return (case reply of None \<Rightarrow> None
            | Some reply \<Rightarrow> (case dp_unpack P reply of (mr, ok) \<Rightarrow> if ok then Some mr else None))
        })"

definition dns_addresses :: "dns_rr list \<Rightarrow> ip list" where
  "dns_addresses answers = concat (map (\<lambda>a. case rr_data a of RR_A ip \<Rightarrow> [ip] | RR_AAAA ip \<Rightarrow> [ip] | RR_Other \<Rightarrow> []) answers)"

text \<open>The result is the addresses, and whether there is an error.\<close>

definition res_resolveIPs :: "dns_pkg \<Rightarrow> res_world \<Rightarrow> name_server \<times> exchanger \<Rightarrow> dns_msg \<Rightarrow> (ip list \<times> bool) res_io" where
  "res_resolveIPs P E server mq = do {
     let key = NewCacheKey P (hd (dm_question mq));
     now \<leftarrow> ask (rw_now E) ResClock;
     cached \<leftarrow> act (cache_Load key now);
     mr \<leftarrow> (case cached of
       Some mr \<Rightarrow> return (Some mr)
     | None \<Rightarrow> do {
         mr \<leftarrow> res_exchange P E (snd server) (AddSubnetOpt mq (ns_ClientIP (fst server)));
         (case mr of
            None \<Rightarrow> return None
          | Some m \<Rightarrow> do {
              now \<leftarrow> ask (rw_now E) ResClock;
              act (\<lambda>c. ((), cache_Store key m (ns_TTL (fst server)) now c));
              return (Some m)
            })
       });
     return (case mr of None \<Rightarrow> ([], True) | Some mr \<Rightarrow> (dns_addresses (dm_answer mr), False))
   }"

definition res_resolve4 :: "dns_pkg \<Rightarrow> res_world \<Rightarrow> name_server \<times> exchanger \<Rightarrow> string \<Rightarrow> (ip list \<times> bool) res_io" where
  "res_resolve4 P E server host = res_resolveIPs P E server (dp_query P (dp_Fqdn P host) dns_TypeA)"

definition res_resolve6 :: "dns_pkg \<Rightarrow> res_world \<Rightarrow> name_server \<times> exchanger \<Rightarrow> string \<Rightarrow> (ip list \<times> bool) res_io" where
  "res_resolve6 P E server host = res_resolveIPs P E server (dp_query P (dp_Fqdn P host) dns_TypeAAAA)"

definition res_resolve :: "dns_pkg \<Rightarrow> res_world \<Rightarrow> name_server \<times> exchanger \<Rightarrow> string \<Rightarrow> (ip list \<times> bool) res_io" where
  "res_resolve P E server host =
     (if ns_Prefer (fst server) = ''ipv6''
      then do { r \<leftarrow> res_resolve6 P E server host; if fst r \<noteq> [] then return r else res_resolve4 P E server host }
      else do { r \<leftarrow> res_resolve4 P E server host; if fst r \<noteq> [] then return r else res_resolve6 P E server host })"

text \<open>\<open>r\<close> is what the server before gave.\<close>

fun res_loop ::
    "dns_pkg \<Rightarrow> res_world \<Rightarrow> string \<Rightarrow> (name_server \<times> exchanger) list \<Rightarrow> ip list \<times> bool \<Rightarrow> (ip list \<times> bool) res_io"
where
  "res_loop P E host [] r = return r"
| "res_loop P E host (server # servers) r = do {
     r \<leftarrow> res_resolve P E server host;
     if snd r then res_loop P E host servers r
     else if fst r \<noteq> [] then return r
     else res_loop P E host servers r
   }"

definition res_host :: "resolver \<Rightarrow> string \<Rightarrow> string" where
  "res_host R host =
     (if rs_domain R \<noteq> [] \<and> \<not> contains_byte CHR ''.'' host then host @ ''.'' @ rs_domain R else host)"

definition res_Resolve :: "dns_pkg \<Rightarrow> res_world \<Rightarrow> resolver \<Rightarrow> string \<Rightarrow> (ip list \<times> bool) res_io" where
  "res_Resolve P E R host =
     (case parse_ip host of
        Some ip \<Rightarrow> return ([ip], False)
      | None \<Rightarrow> res_loop P E (res_host R host) (rs_servers R) ([], False))"

section \<open>The cache keeps what it is given, for its time\<close>

lemma min_ttl:
  assumes "\<forall>a\<in>set as. 0 < rr_ttl a" "0 \<le> m"
  shows "fold (\<lambda>a ttl. let v = uint (rr_ttl a) * dns_second in if ttl = 0 \<or> ttl > v then v else ttl) as m =
    (if as = [] then m else Min (set (map (\<lambda>a. uint (rr_ttl a) * dns_second) as) \<union> (if m = 0 then {} else {m})))"
  using assms
proof (induction as arbitrary: m)
  case (Cons a as)
  let ?v = "uint (rr_ttl a) * dns_second"
  let ?S = "set (map (\<lambda>a. uint (rr_ttl a) * dns_second) as)"
  have "uint (rr_ttl a) \<noteq> 0" using Cons.prems(1) by (simp add: unsigned_eq_0_iff word_gt_0)
  with uint_ge_0 [of "rr_ttl a"] have "0 < uint (rr_ttl a)" by linarith
  then have v: "0 < ?v" by (simp add: dns_second_def)
  have ih: "fold (\<lambda>a ttl. let v = uint (rr_ttl a) * dns_second in if ttl = 0 \<or> ttl > v then v else ttl) as n =
    (if as = [] then n else Min (?S \<union> {n}))" if "0 < n" for n
    using Cons.IH [of n] Cons.prems(1) that by simp
  show ?case
  proof (cases "m = 0 \<or> ?v < m")
    case True
    then have "(if m = 0 then {} else {m}) \<subseteq> {m}" "m = 0 \<or> min ?v m = ?v" by auto
    with True show ?thesis using ih [OF v] v by (auto simp: Let_def Min_insert2 insert_commute Min_insert intro: arg_cong [where f = Min])
  next
    case False
    then show ?thesis using ih [of m] Cons.prems(2) by (auto simp: Let_def Min_insert)
  qed
qed simp

lemma min_ttl_nonneg:
  "0 \<le> m \<Longrightarrow> 0 \<le> fold (\<lambda>a ttl. let v = uint (rr_ttl a) * dns_second in if ttl = 0 \<or> ttl > v then v else ttl) as m"
  by (induction as arbitrary: m) (simp_all add: Let_def dns_second_def)

lemma cache_ttl_pos: "0 \<le> ttl \<Longrightarrow> 0 < cache_ttl ttl as"
  using min_ttl_nonneg [of 0 as] by (auto simp: cache_ttl_def Let_def dns_second_def)

text \<open>
  What is stored under a key is loaded again, and only there, until its time to live is over; this
  time is positive, and it is the one given or, when none is, that of the answer that lives
  shortest, if there are answers and all live.
\<close>

theorem cache_load_store:
  assumes "key \<noteq> []" and "0 \<le> ttl"
  shows "fst (cache_Load k now (cache_Store key m ttl ts c)) =
      (if k = key then if now - ts \<le> cache_ttl ttl (dm_answer m) then Some m else None else fst (cache_Load k now c)) \<and>
    0 < cache_ttl ttl as \<and> (0 < ttl \<longrightarrow> cache_ttl ttl as = ttl) \<and>
    ((\<forall>a\<in>set as. 0 < rr_ttl a) \<and> as \<noteq> [] \<longrightarrow> cache_ttl 0 as = Min ((\<lambda>a. uint (rr_ttl a) * dns_second) ` set as))"
proof (intro conjI impI)
  show "fst (cache_Load k now (cache_Store key m ttl ts c)) =
      (if k = key then if now - ts \<le> cache_ttl ttl (dm_answer m) then Some m else None else fst (cache_Load k now c))"
    using assms by (simp add: cache_Load_def cache_Store_def split: option.split)
  show "0 < cache_ttl ttl as" by (rule cache_ttl_pos) (rule assms(2))
  show "cache_ttl ttl as = ttl" if "0 < ttl" using that by (simp add: cache_ttl_def)
  show "cache_ttl 0 as = Min ((\<lambda>a. uint (rr_ttl a) * dns_second) ` set as)" if "(\<forall>a\<in>set as. 0 < rr_ttl a) \<and> as \<noteq> []"
  proof -
    note that = conjunct1 [OF that] conjunct2 [OF that]
    have "cache_ttl 0 as = (let t = Min ((\<lambda>a. uint (rr_ttl a) * dns_second) ` set as) in if t = 0 then 30 * dns_second else t)"
      using min_ttl [OF that(1), of 0] that(2) by (simp add: cache_ttl_def)
    moreover have "Min ((\<lambda>a. uint (rr_ttl a) * dns_second) ` set as) \<in> (\<lambda>a. uint (rr_ttl a) * dns_second) ` set as"
      using that(2) by (intro Min_in) simp_all
    then have "Min ((\<lambda>a. uint (rr_ttl a) * dns_second) ` set as) \<noteq> 0"
      using that(1) by (auto simp: dns_second_def unsigned_eq_0_iff)
    ultimately show ?thesis by (simp add: Let_def)
  qed
qed
definition demo_rr :: "uint32 \<Rightarrow> dns_rr" where
  "demo_rr ttl = \<lparr>rr_ttl = ttl, rr_data = RR_A [10, 0, 0, 1]\<rparr>"

definition demo_dns_msg :: "dns_rr list \<Rightarrow> dns_msg" where
  "demo_dns_msg answers = \<lparr>dm_id = 7, dm_flags = 0, dm_question = [], dm_answer = answers, dm_extra = []\<rparr>"

theorem cache_load_store_witness:
  "fst (cache_Load ''a'' 60000000000 (cache_Store ''a'' (demo_dns_msg [demo_rr 60, demo_rr 300]) 0 0 (\<lambda>_. None))) =
     Some (demo_dns_msg [demo_rr 60, demo_rr 300])"
proof -
  have "cache_ttl 0 [demo_rr 60, demo_rr 300] = 60000000000"
    by (simp add: cache_ttl_def demo_rr_def dns_second_def)
  with cache_load_store [of "''a''" 0 "''a''" 60000000000 "demo_dns_msg [demo_rr 60, demo_rr 300]" 0 "\<lambda>_. None" "[]"]
  show ?thesis by (simp add: demo_dns_msg_def)
qed

text \<open>An answer that must not be kept is kept as long as the next one, or for 30 seconds.\<close>

lemma cache_ttl_zero_lost:
  "cache_ttl 0 [demo_rr 0, demo_rr 300] = 300 * dns_second" "cache_ttl 0 [demo_rr 0] = 30 * dns_second"
  by (simp_all add: cache_ttl_def demo_rr_def dns_second_def)

section \<open>Where addresses come from\<close>

definition res_query :: "dns_pkg \<Rightarrow> string \<Rightarrow> uint16 \<Rightarrow> dns_msg" where
  "res_query P host t = dp_query P (dp_Fqdn P host) t"

definition res_key :: "dns_pkg \<Rightarrow> string \<Rightarrow> uint16 \<Rightarrow> string" where
  "res_key P host t = NewCacheKey P (hd (dm_question (res_query P host t)))"

definition res_types :: "uint16 set" where "res_types = {dns_TypeA, dns_TypeAAAA}"

text \<open>A message that answers for a host: cached from before, or read in reply to a query for it.\<close>

definition res_known :: "dns_pkg \<Rightarrow> dns_cache \<Rightarrow> string \<Rightarrow> res_event list \<Rightarrow> dns_msg \<Rightarrow> bool" where
  "res_known P c0 host es m \<longleftrightarrow> (\<exists>t\<in>res_types.
     (\<exists>item. c0 (res_key P host t) = Some item \<and> ci_msg item = m) \<or>
     (\<exists>ex ip query reply. ResExchange ex query (Some reply) \<in> set es \<and>
        dp_pack P (AddSubnetOpt (res_query P host t) ip) = Some query \<and> dp_unpack P reply = (m, True)))"

definition res_inv :: "dns_pkg \<Rightarrow> dns_cache \<Rightarrow> string \<Rightarrow> dns_cache \<Rightarrow> res_event list \<Rightarrow> bool" where
  "res_inv P c0 host c es \<longleftrightarrow>
     (\<forall>t\<in>res_types. \<forall>item. c (res_key P host t) = Some item \<longrightarrow> res_known P c0 host es (ci_msg item))"

definition res_ips_known :: "dns_pkg \<Rightarrow> dns_cache \<Rightarrow> string \<Rightarrow> res_event list \<Rightarrow> ip list \<Rightarrow> bool" where
  "res_ips_known P c0 host es ips \<longleftrightarrow>
     (\<forall>ip\<in>set ips. \<exists>m. res_known P c0 host es m \<and> ip \<in> set (dns_addresses (dm_answer m)))"

lemma res_known_mono: "res_known P c0 host es m \<Longrightarrow> set es \<subseteq> set es' \<Longrightarrow> res_known P c0 host es' m"
  unfolding res_known_def by blast

lemma res_inv_mono: "res_inv P c0 host c es \<Longrightarrow> set es \<subseteq> set es' \<Longrightarrow> res_inv P c0 host c es'"
  unfolding res_inv_def by (blast intro: res_known_mono)

lemma res_inv_load:
  "res_inv P c0 host c es \<Longrightarrow> set es \<subseteq> set es' \<Longrightarrow> res_inv P c0 host (snd (cache_Load key now c)) es'"
  using res_inv_mono [of P c0 host c es es'] by (auto simp: res_inv_def cache_Load_def split: option.split)

lemma res_inv_store:
  assumes "res_inv P c0 host c es" "res_known P c0 host es m"
  shows "res_inv P c0 host (cache_Store key m ttl now c) es"
  using assms by (auto simp: res_inv_def cache_Store_def)

lemma cache_Load_some: "fst (cache_Load key now c) = Some m \<Longrightarrow> \<exists>item. c key = Some item \<and> ci_msg item = m"
  by (auto simp: cache_Load_def split: option.splits if_splits)

lemma res_resolveIPs_known:
  assumes "res_inv P c0 host c es" "t \<in> res_types"
  shows "wp (res_resolveIPs P E server (res_query P host t))
    (\<lambda>r h. res_inv P c0 host (fst h) (snd h) \<and> res_ips_known P c0 host (snd h) (fst r)) (c, es)"
proof -
  have hit: "res_inv P c0 host (snd (cache_Load (res_key P host t) now c)) (es @ [e]) \<and>
      res_ips_known P c0 host (es @ [e]) (dns_addresses (dm_answer m))"
    if load: "fst (cache_Load (res_key P host t) now c) = Some m" for now m e
  proof -
    obtain item where "c (res_key P host t) = Some item" "ci_msg item = m" using cache_Load_some [OF load] by blast
    then have "res_known P c0 host es m" using assms unfolding res_inv_def by blast
    then have "res_known P c0 host (es @ [e]) m" by (rule res_known_mono) auto
    then show ?thesis using res_inv_load [OF assms(1), of "es @ [e]"] by (auto simp: res_ips_known_def)
  qed
  let ?c = "snd (cache_Load (res_key P host t) (rw_now E (c, es)) c)" and ?es = "es @ [ResClock (rw_now E (c, es))]"
  have inv: "res_inv P c0 host ?c (es @ new)" for new by (rule res_inv_load [OF assms(1)]) auto
  have stored: "res_inv P c0 host (cache_Store (res_key P host t) m ttl now ?c) (es @ new) \<and>
      res_ips_known P c0 host (es @ new) (dns_addresses (dm_answer m))"
    if "ResExchange ex query (Some reply) \<in> set new" "dp_pack P (AddSubnetOpt (res_query P host t) ip) = Some query"
      "dp_unpack P reply = (m, True)" for ex query reply m ip new ttl now
  proof -
    have "res_known P c0 host (es @ new) m"
      unfolding res_known_def using assms(2) that by (intro bexI [of _ t] disjI2 exI conjI) auto
    then show ?thesis using res_inv_store [OF inv] by (auto simp: res_ips_known_def)
  qed
  have none: "res_ips_known P c0 host es' []" for es' by (simp add: res_ips_known_def)
  show ?thesis
  proof (cases "fst (cache_Load (res_key P host t) (rw_now E (c, es)) c)")
    case (Some m)
    then show ?thesis using hit [OF Some] by (simp add: res_resolveIPs_def Let_def res_key_def [symmetric] wp_simps)
  next
    case None
    note miss = None
    show ?thesis
    proof (cases "dp_pack P (AddSubnetOpt (res_query P host t) (ns_ClientIP (fst server)))")
      case None
      with miss inv none show ?thesis
        by (simp add: res_resolveIPs_def res_exchange_def Let_def res_key_def [symmetric] wp_simps)
    next
      case (Some query)
      let ?reply = "rw_exchange E (?c, ?es) (snd server) query"
      show ?thesis
      proof (cases "\<exists>reply m. ?reply = Some reply \<and> dp_unpack P reply = (m, True)")
        case True
        then obtain reply m where r: "?reply = Some reply" "dp_unpack P reply = (m, True)" by blast
        show ?thesis using miss Some r stored [OF _ Some r(2)]
          by (simp add: res_resolveIPs_def res_exchange_def Let_def res_key_def [symmetric] wp_simps)
      next
        case False
        then have "(case ?reply of None \<Rightarrow> None
            | Some reply \<Rightarrow> (case dp_unpack P reply of (mr, ok) \<Rightarrow> if ok then Some mr else None)) = None"
          by (auto split: option.split prod.split)
        with miss Some inv none show ?thesis
          by (simp add: res_resolveIPs_def res_exchange_def Let_def res_key_def [symmetric] wp_simps)
      qed
    qed
  qed
qed

lemma res_types_members: "dns_TypeA \<in> res_types" "dns_TypeAAAA \<in> res_types"
  by (simp_all add: res_types_def)

definition res_post :: "dns_pkg \<Rightarrow> dns_cache \<Rightarrow> string \<Rightarrow> ip list \<times> bool \<Rightarrow> res_history \<Rightarrow> bool" where
  "res_post P c0 host r h \<longleftrightarrow> res_inv P c0 host (fst h) (snd h) \<and> res_ips_known P c0 host (snd h) (fst r)"

lemma res_step_known:
  assumes "res_inv P c0 host (fst h) (snd h)" "t \<in> res_types"
  shows "wp (res_resolveIPs P E server (res_query P host t)) (res_post P c0 host) h"
  using res_resolveIPs_known [of P c0 host "fst h" "snd h" t E server] assms
  by (simp add: res_post_def [abs_def])

lemma res_resolve_known:
  assumes "res_inv P c0 host (fst h) (snd h)"
  shows "wp (res_resolve P E server host) (res_post P c0 host) h"
proof -
  have both: "wp (State_Monad.bind (res_resolveIPs P E server (res_query P host t))
      (\<lambda>r. if fst r \<noteq> [] then return r else res_resolveIPs P E server (res_query P host t'))) (res_post P c0 host) h"
    if "t \<in> res_types" "t' \<in> res_types" for t t'
    unfolding wp_bind
  proof (rule wp_mono [OF res_step_known [OF assms that(1)]])
    fix r h'
    assume "res_post P c0 host r h'"
    then show "wp (if fst r \<noteq> [] then return r else res_resolveIPs P E server (res_query P host t')) (res_post P c0 host) h'"
      using res_step_known [OF _ that(2)] by (simp add: res_post_def wp_return)
  qed
  show ?thesis
    unfolding res_resolve_def res_resolve4_def res_resolve6_def res_query_def [symmetric]
    by (simp add: both res_types_members)
qed

lemma res_loop_known:
  "res_post P c0 host r h \<Longrightarrow> wp (res_loop P E host servers r) (res_post P c0 host) h"
proof (induction servers arbitrary: r h)
  case (Cons server servers)
  then have "res_inv P c0 host (fst h) (snd h)" by (simp add: res_post_def)
  then show ?case
    by (simp add: wp_bind) (rule wp_mono [OF res_resolve_known], auto simp: wp_return intro: Cons.IH)
qed (simp add: wp_return)

text \<open>
  C21.  Every address the resolver gives for a name is an address of an answer for that name, with the
  resolver's domain when the name has no dot: one the cache held before, or one a server has sent in reply
  to a query of type A or AAAA for it.
\<close>

theorem resolver_addresses_answered:
  assumes "parse_ip host = None"
  shows "\<forall>ip\<in>set (fst (io_result (res_Resolve P E R host) c)).
    \<exists>m. res_known P c (res_host R host) (io_trace (res_Resolve P E R host) c) m \<and> ip \<in> set (dns_addresses (dm_answer m))"
proof -
  have "res_inv P c (res_host R host) c []"
    unfolding res_inv_def res_known_def by blast
  then have "wp (res_Resolve P E R host) (res_post P c (res_host R host)) (c, [])"
    unfolding res_Resolve_def assms option.case by (intro res_loop_known) (simp add: res_post_def res_ips_known_def)
  then have "wp (res_Resolve P E R host) (\<lambda>r h. res_ips_known P c (res_host R host) (snd h) (fst r)) (c, [])"
    by (rule wp_mono) (simp add: res_post_def)
  then have "res_ips_known P c (res_host R host) (io_trace (res_Resolve P E R host) c) (fst (io_result (res_Resolve P E R host) c))"
    by (rule io_trace_wp)
  then show ?thesis by (simp add: res_ips_known_def)
qed

text \<open>Two servers, of which the first knows no address, and a name.\<close>

definition demo_dns_pkg :: dns_pkg where
  "demo_dns_pkg = \<lparr>dp_unpack = (\<lambda>b. (demo_dns_msg (if b = [1] then [demo_rr 60] else []), True)),
     dp_pack = (\<lambda>m. Some (map (\<lambda>q. ucast (dq_type q)) (dm_question m))), dp_SetReply = (\<lambda>m. m), dp_NewRR = (\<lambda>_. None),
     dp_class = (\<lambda>_. ''IN''), dp_type = (\<lambda>t. if t = 1 then ''A'' else ''AAAA''), dp_Fqdn = (\<lambda>host. host @ ''.''),
     dp_query = (\<lambda>name t. \<lparr>dm_id = 1, dm_flags = 0, dm_question = [\<lparr>dq_name = name, dq_class = 1, dq_type = t\<rparr>],
       dm_answer = [], dm_extra = []\<rparr>)\<rparr>"

definition demo_server :: "string \<Rightarrow> name_server \<times> exchanger" where
  "demo_server addr = (\<lparr>ns_Addr = addr, ns_TTL = 0, ns_Timeout = 0, ns_ClientIP = [], ns_Prefer = []\<rparr>,
     \<lparr>ex_network = ''udp'', ex_addr = addr, ex_rawAddr = addr, ex_tls = False, ex_timeout = 5 * dns_second\<rparr>)"

definition demo_res_world :: res_world where
  "demo_res_world = \<lparr>rw_now = (\<lambda>_. 0), rw_exchange = (\<lambda>_ ex q. Some (if ex_addr ex = ''10.0.0.2:53'' then [1] else [0]))\<rparr>"

definition demo_resolver :: "string list \<Rightarrow> resolver" where
  "demo_resolver addrs = \<lparr>rs_servers = map demo_server addrs, rs_domain = ''example''\<rparr>"

lemma demo_resolver_second:
  "fst (io_result (res_Resolve demo_dns_pkg demo_res_world (demo_resolver [''10.0.0.2:53'']) ''www'') (\<lambda>_. None)) = [[10, 0, 0, 1]]"
  by code_simp

lemma demo_host: "parse_ip ''www'' = None"
  by code_simp

theorem resolver_addresses_answered_witness:
  "\<exists>m. res_known demo_dns_pkg (\<lambda>_. None) ''www.example''
     (io_trace (res_Resolve demo_dns_pkg demo_res_world (demo_resolver [''10.0.0.2:53'']) ''www'') (\<lambda>_. None)) m \<and>
     [10, 0, 0, 1] \<in> set (dns_addresses (dm_answer m))"
proof -
  have "res_host (demo_resolver [''10.0.0.2:53'']) ''www'' = ''www.example''" by code_simp
  with resolver_addresses_answered [OF demo_host, of demo_dns_pkg demo_res_world "demo_resolver [''10.0.0.2:53'']" "\<lambda>_. None"]
  show ?thesis by (simp add: demo_resolver_second)
qed

section \<open>The second server is not asked\<close>

text \<open>The cache holds empty answers for the host, of both types or none of a type yet, which stay fresh until \<open>t\<close>.\<close>

definition res_empty :: "dns_pkg \<Rightarrow> string \<Rightarrow> int \<Rightarrow> uint16 set \<Rightarrow> dns_cache \<Rightarrow> bool" where
  "res_empty P host t types c \<longleftrightarrow> (\<forall>ty\<in>res_types.
     case c (res_key P host ty) of
       None \<Rightarrow> ty \<notin> types
     | Some item \<Rightarrow> dns_addresses (dm_answer (ci_msg item)) = [] \<and> t \<le> ci_ts item + ci_ttl item)"

definition res_asks_only :: "exchanger \<Rightarrow> res_event list \<Rightarrow> bool" where
  "res_asks_only ex es \<longleftrightarrow> (\<forall>ex' query reply. ResExchange ex' query reply \<in> set es \<longrightarrow> ex' = ex)"

text \<open>The server answers a query of this type without an address, in time.\<close>

definition res_answers_empty ::
    "dns_pkg \<Rightarrow> res_world \<Rightarrow> name_server \<times> exchanger \<Rightarrow> string \<Rightarrow> int \<Rightarrow> int \<Rightarrow> uint16 \<Rightarrow> bool"
where
  "res_answers_empty P E server host t0 t ty \<longleftrightarrow>
     (\<exists>query. dp_pack P (AddSubnetOpt (res_query P host ty) (ns_ClientIP (fst server))) = Some query \<and>
        (\<forall>h. \<exists>reply m. rw_exchange E h (snd server) query = Some reply \<and> dp_unpack P reply = (m, True) \<and>
           dns_addresses (dm_answer m) = [] \<and> t \<le> t0 + cache_ttl (ns_TTL (fst server)) (dm_answer m)))"

definition res_empty_post :: "dns_pkg \<Rightarrow> string \<Rightarrow> int \<Rightarrow> exchanger \<Rightarrow> uint16 set \<Rightarrow> ip list \<times> bool \<Rightarrow> res_history \<Rightarrow> bool" where
  "res_empty_post P host t ex types r h \<longleftrightarrow>
     r = ([], False) \<and> res_empty P host t types (fst h) \<and> res_asks_only ex (snd h)"

lemma res_empty_post_next:
  "res_empty_post P host t ex types r h \<Longrightarrow>
   wp (if snd r then m r else if fst r \<noteq> [] then return r else m r) Q h = wp (m r) Q h"
  by (simp add: res_empty_post_def)

lemma res_key_nonempty: "res_key P host ty \<noteq> []"
  by (simp add: res_key_def NewCacheKey_def)

lemma res_hit:
  assumes "res_empty P host t types c" "ty \<in> types" "ty \<in> res_types" "\<forall>h. rw_now E h \<le> t" "res_asks_only ex es"
  shows "wp (res_resolveIPs P E server (res_query P host ty)) (res_empty_post P host t ex types) (c, es)"
proof -
  obtain item where item: "c (res_key P host ty) = Some item" "dns_addresses (dm_answer (ci_msg item)) = []"
      "t \<le> ci_ts item + ci_ttl item"
    using assms(1-3) unfolding res_empty_def by (auto split: option.splits)
  have "rw_now E (c, es) \<le> t" using assms(4) by blast
  with item have "cache_Load (res_key P host ty) (rw_now E (c, es)) c = (Some (ci_msg item), c)"
    by (simp add: cache_Load_def)
  then show ?thesis
    using item(2) assms(1,5)
    by (simp add: res_resolveIPs_def Let_def res_key_def [symmetric] wp_simps res_empty_post_def res_asks_only_def)
qed

lemma res_first_empty:
  assumes "res_empty P host t types c" "ty \<in> res_types" "\<forall>h. t0 \<le> rw_now E h \<and> rw_now E h \<le> t" "res_asks_only (snd server) es"
    and "res_answers_empty P E server host t0 t ty" "0 \<le> ns_TTL (fst server)"
  shows "wp (res_resolveIPs P E server (res_query P host ty)) (res_empty_post P host t (snd server) (insert ty types)) (c, es)"
proof (cases "c (res_key P host ty)")
  case (Some item)
  then have "res_empty P host t (insert ty types) c"
    using assms(1) by (auto simp: res_empty_def split: option.splits)
  then show ?thesis using assms(2-4) by (intro res_hit) auto
next
  case None
  let ?es = "es @ [ResClock (rw_now E (c, es))]"
  obtain query where query: "dp_pack P (AddSubnetOpt (res_query P host ty) (ns_ClientIP (fst server))) = Some query"
    and replies: "\<forall>h. \<exists>reply m. rw_exchange E h (snd server) query = Some reply \<and> dp_unpack P reply = (m, True) \<and>
           dns_addresses (dm_answer m) = [] \<and> t \<le> t0 + cache_ttl (ns_TTL (fst server)) (dm_answer m)"
    using assms(5) unfolding res_answers_empty_def by blast
  from spec [OF replies, of "(c, ?es)"] obtain reply m where r: "rw_exchange E (c, ?es) (snd server) query = Some reply"
      "dp_unpack P reply = (m, True)" "dns_addresses (dm_answer m) = []"
      "t \<le> t0 + cache_ttl (ns_TTL (fst server)) (dm_answer m)" by blast
  have load: "cache_Load (res_key P host ty) now c = (None, c)" for now using None by (simp add: cache_Load_def)
  have store: "res_empty P host t (insert ty types) (cache_Store (res_key P host ty) m (ns_TTL (fst server)) (rw_now E h) c)" for h
  proof -
    have "t0 \<le> rw_now E h" using assms(3) by blast
    then show ?thesis
      using assms(1,6) r(3,4) res_key_nonempty [of P host ty]
      by (auto simp: res_empty_def cache_Store_def split: option.splits)
  qed
  show ?thesis
    using store assms(4)
    by (simp add: res_resolveIPs_def res_exchange_def Let_def res_key_def [symmetric] wp_simps load query r(1-3)
        res_empty_post_def) (simp add: res_asks_only_def)
qed

lemma res_resolve_empty:
  assumes step: "\<And>h ty types. ty \<in> res_types \<Longrightarrow> base \<subseteq> types \<Longrightarrow> res_empty P host t types (fst h) \<Longrightarrow> res_asks_only ex (snd h) \<Longrightarrow>
      wp (res_resolveIPs P E server (res_query P host ty)) (res_empty_post P host t ex (insert ty types)) h"
    and "base \<subseteq> types" "res_empty P host t types (fst h)" "res_asks_only ex (snd h)"
  shows "wp (res_resolve P E server host) (res_empty_post P host t ex res_types) h"
proof -
  have both: "wp (State_Monad.bind (res_resolveIPs P E server (res_query P host ty))
      (\<lambda>r. if fst r \<noteq> [] then return r else res_resolveIPs P E server (res_query P host ty'))) (res_empty_post P host t ex res_types) h"
    if ty: "{ty, ty'} = res_types" for ty ty'
    unfolding wp_bind
  proof (rule wp_mono [OF step [OF _ assms(2-4)]])
    show "ty \<in> res_types" using ty by blast
    fix r h'
    assume post: "res_empty_post P host t ex (insert ty types) r h'"
    have "wp (res_resolveIPs P E server (res_query P host ty')) (res_empty_post P host t ex (insert ty' (insert ty types))) h'"
      by (rule step) (use post ty assms(2) in \<open>auto simp: res_empty_post_def\<close>)
    moreover have "res_empty P host t (insert ty' (insert ty types)) c \<Longrightarrow> res_empty P host t res_types c" for c
      using ty by (auto simp: res_empty_def split: option.splits)
    ultimately have "wp (res_resolveIPs P E server (res_query P host ty')) (res_empty_post P host t ex res_types) h'"
      by (elim wp_mono) (auto simp: res_empty_post_def)
    with post show "wp (if fst r \<noteq> [] then return r else res_resolveIPs P E server (res_query P host ty'))
        (res_empty_post P host t ex res_types) h'"
      by (simp add: res_empty_post_def)
  qed
  show ?thesis
    unfolding res_resolve_def res_resolve4_def res_resolve6_def res_query_def [symmetric]
    using both [of dns_TypeA dns_TypeAAAA] both [of dns_TypeAAAA dns_TypeA] by (simp add: res_types_def insert_commute)
qed

lemma res_loop_empty:
  assumes "\<forall>h. rw_now E h \<le> t"
  shows "res_empty_post P host t ex res_types r h \<Longrightarrow> wp (res_loop P E host servers r) (res_empty_post P host t ex res_types) h"
proof (induction servers arbitrary: r h)
  case (Cons server servers)
  have step: "wp (res_resolveIPs P E server (res_query P host ty)) (res_empty_post P host t ex (insert ty types)) h'"
    if "ty \<in> res_types" "res_types \<subseteq> types" "res_empty P host t types (fst h')" "res_asks_only ex (snd h')" for ty types h'
  proof -
    have "insert ty types = types" "ty \<in> types" using that(1,2) by auto
    with res_hit [OF that(3) _ that(1) assms that(4)] show ?thesis by simp
  qed
  have "wp (res_resolve P E server host) (res_empty_post P host t ex res_types) h"
    by (rule res_resolve_empty [OF step]) (use Cons.prems in \<open>auto simp: res_empty_post_def\<close>)
  then have "wp (res_resolve P E server host) (\<lambda>r. wp (if snd r then res_loop P E host servers r
      else if fst r \<noteq> [] then return r else res_loop P E host servers r) (res_empty_post P host t ex res_types)) h"
    by (rule wp_mono) (use Cons.IH in \<open>simp add: res_empty_post_next\<close>)
  then show ?case by (simp add: wp_bind)
qed (simp add: wp_return)

text \<open>
  The servers of a resolver share its cache, whose keys do not name them: when the first one answers
  that there is no address, this answer is what every other server is taken to say, and none of
  them is asked while it is fresh, whatever they would have said.
\<close>

theorem resolver_fallback_defeated:
  assumes "parse_ip host = None" and "rs_servers R = server # servers" and "0 \<le> ns_TTL (fst server)"
    and "\<forall>h. t0 \<le> rw_now E h \<and> rw_now E h \<le> t"
    and "\<forall>ty\<in>res_types. res_answers_empty P E server (res_host R host) t0 t ty"
    and "\<forall>ty\<in>res_types. c (res_key P (res_host R host) ty) = None"
  shows "io_result (res_Resolve P E R host) c = ([], False) \<and>
    (\<forall>ex query reply. ResExchange ex query reply \<in> set (io_trace (res_Resolve P E R host) c) \<longrightarrow> ex = snd server)"
proof -
  let ?host = "res_host R host" and ?post = "res_empty_post P (res_host R host) t (snd server) res_types"
  have step: "wp (res_resolveIPs P E server (res_query P ?host ty)) (res_empty_post P ?host t (snd server) (insert ty types)) h"
    if "ty \<in> res_types" "{} \<subseteq> types" "res_empty P ?host t types (fst h)" "res_asks_only (snd server) (snd h)" for h ty types
    using res_first_empty [OF that(3,1) assms(4) that(4) _ assms(3)] assms(5) that(1) by simp
  have "wp (res_resolve P E server ?host) ?post (c, [])"
    by (rule res_resolve_empty [OF step, where types = "{}"])
      (use assms(6) in \<open>auto simp: res_empty_def res_asks_only_def\<close>)
  then have "wp (res_resolve P E server ?host) (\<lambda>r. wp (if snd r then res_loop P E ?host servers r
      else if fst r \<noteq> [] then return r else res_loop P E ?host servers r) ?post) (c, [])"
    by (rule wp_mono) (use res_loop_empty assms(4) in \<open>simp add: res_empty_post_next\<close>)
  then have "wp (res_Resolve P E R host) ?post (c, [])"
    by (simp add: res_Resolve_def assms(1,2) wp_bind)
  then have "wp (res_Resolve P E R host) (\<lambda>r h. r = ([], False) \<and> res_asks_only (snd server) (snd h)) (c, [])"
    by (rule wp_mono) (simp add: res_empty_post_def)
  then have "io_result (res_Resolve P E R host) c = ([], False) \<and>
      res_asks_only (snd server) (io_trace (res_Resolve P E R host) c)"
    by (rule io_trace_wp)
  then show ?thesis by (simp add: res_asks_only_def)
qed

theorem resolver_fallback_defeated_witness:
  "io_result (res_Resolve demo_dns_pkg demo_res_world (demo_resolver [''10.0.0.1:53'', ''10.0.0.2:53'']) ''www'') (\<lambda>_. None) =
     ([], False)"
proof -
  have "res_answers_empty demo_dns_pkg demo_res_world (demo_server ''10.0.0.1:53'') host 0 0 ty" for host ty
    by (simp add: res_answers_empty_def demo_dns_pkg_def demo_res_world_def demo_server_def demo_dns_msg_def
        dns_addresses_def cache_ttl_def dns_second_def)
  then show ?thesis
    using resolver_fallback_defeated [OF demo_host, of "demo_resolver [''10.0.0.1:53'', ''10.0.0.2:53'']"
        "demo_server ''10.0.0.1:53''" "[demo_server ''10.0.0.2:53'']" 0 demo_res_world 0 demo_dns_pkg "\<lambda>_. None"]
    by (simp add: demo_resolver_def demo_server_def demo_res_world_def)
qed

end
