(* ===== verification/DnsHandler.thy ===== *)
theory DnsHandler
  imports Resolver
begin

text \<open>
  The DNS proxy (\<open>handler/dns/handler.go\<close>): a query is answered because its name is bypassed, from the
  host table, from the cache, or by the name server that the hop selects.  The state is the
  cache; messages, cache and exchangers are those of \<open>Resolver\<close>.
\<close>

section \<open>The handler and what it does\<close>

text \<open>\<open>dh_lookup\<close> is the \<open>Lookup\<close> of the router's host mapper, when it has one; \<open>dh_hop\<close> tells whether there is a hop.\<close>

record dns_handler =
  dh_limiter :: "(string \<Rightarrow> bool) option"
  dh_bypass :: "(string \<Rightarrow> bool) option"
  dh_lookup :: "(string \<Rightarrow> string \<Rightarrow> ip list) option"
  dh_hop :: bool
  dh_exchangers :: "string \<Rightarrow> exchanger option"
  dh_ttl :: int
  dh_clientIP :: ip

datatype dns_special =
    DnsClock int
  | DnsSelect string "string option"
  | DnsExchange exchanger "byte list" "byte list option"

type_synonym dns_event = "(byte list, byte list, dns_special) event"
type_synonym dns_history = "(dns_cache, dns_event) history"
type_synonym 'a dns_io = "(dns_cache, dns_event, 'a) io"

text \<open>The node the hop selects is given by its name.\<close>

record dns_world =
  dw_allow :: "dns_history \<Rightarrow> bool"
  dw_read :: "dns_history \<Rightarrow> byte list option"
  dw_now :: "dns_history \<Rightarrow> int"
  dw_select :: "dns_history \<Rightarrow> string \<Rightarrow> string option"
  dw_exchange :: "dns_history \<Rightarrow> exchanger \<Rightarrow> byte list \<Rightarrow> byte list option"
  dw_write :: "dns_history \<Rightarrow> bool"

section \<open>Set-up\<close>

text \<open>\<open>mk\<close> is \<open>NewExchanger\<close> with the router and the timeout, \<open>nodes\<close> are the names and addresses of the hop.\<close>

definition dns_defaultNameserver :: string where
  "dns_defaultNameserver = ''udp://127.0.0.1:53''"

definition dns_node_exchangers :: "(string \<Rightarrow> exchanger option) \<Rightarrow> (string \<times> string) list \<Rightarrow> string \<Rightarrow> exchanger option" where
  "dns_node_exchangers mk nodes =
     fold (\<lambda>(name, addr) exs.
       let addr = trim_space addr
       in if addr = [] then exs else case mk addr of None \<Rightarrow> exs | Some ex \<Rightarrow> exs(name := Some ex)) nodes (\<lambda>_. None)"

text \<open>\<open>None\<close>: an error.\<close>

definition dns_Init :: "(string \<Rightarrow> exchanger option) \<Rightarrow> (string \<times> string) list \<Rightarrow> (string \<Rightarrow> exchanger option) option" where
  "dns_Init mk nodes =
     (let exs = dns_node_exchangers mk nodes
      in if (\<forall>(name, addr)\<in>set nodes. exs name = None)
         then (case mk dns_defaultNameserver of None \<Rightarrow> None | Some ex \<Rightarrow> Some (exs(''default'' := Some ex)))
         else Some exs)"

section \<open>A query\<close>

definition trim_dots :: "string \<Rightarrow> string" where
  "trim_dots s = rev (dropWhile (\<lambda>c. c = CHR ''.'') (rev (dropWhile (\<lambda>c. c = CHR ''.'') s)))"

fun dns_records :: "dns_pkg \<Rightarrow> string \<Rightarrow> string \<Rightarrow> ip list \<Rightarrow> dns_rr list option" where
  "dns_records P name type_name [] = Some []"
| "dns_records P name type_name (ip # ips) =
     (case dp_NewRR P (name @ '' IN '' @ type_name @ '' '' @ ip_string ip @ [CHR 0x0A]) of
        None \<Rightarrow> None
      | Some rr \<Rightarrow> map_option ((#) rr) (dns_records P name type_name ips))"

definition dns_lookupHosts :: "dns_pkg \<Rightarrow> dns_handler \<Rightarrow> dns_msg \<Rightarrow> dns_msg option" where
  "dns_lookupHosts P H r =
     (let q = hd (dm_question r)
      in case dh_lookup H of
           None \<Rightarrow> None
         | Some lookup \<Rightarrow>
             if dq_class q \<noteq> dns_ClassINET \<or> dq_type q \<noteq> dns_TypeA \<and> dq_type q \<noteq> dns_TypeAAAA then None
             else let m = dp_SetReply P r;
                      host = trim_suffix (dq_name q) ''.'';
                      ips = lookup (if dq_type q = dns_TypeA then ''ip4'' else ''ip6'') host
                  in if ips = [] then None
                     else map_option (\<lambda>rrs. m\<lparr>dm_answer := dm_answer m @ rrs\<rparr>)
                       (dns_records P (dq_name q) (if dq_type q = dns_TypeA then ''A'' else ''AAAA'') ips))"

definition dns_selectExchanger :: "dns_world \<Rightarrow> dns_handler \<Rightarrow> string \<Rightarrow> exchanger option dns_io" where
  "dns_selectExchanger E H addr =
     (if \<not> dh_hop H then return None
      else do {
        node \<leftarrow> ask (\<lambda>h. dw_select E h addr) (\<lambda>n. Special (DnsSelect addr n));
        return (case node of None \<Rightarrow> None | Some name \<Rightarrow> dh_exchangers H name)
      })"

definition dns_bypassed :: "dns_handler \<Rightarrow> dns_question \<Rightarrow> bool" where
  "dns_bypassed H q =
     (case dh_bypass H of None \<Rightarrow> False
      | Some contains \<Rightarrow> dq_class q = dns_ClassINET \<and> contains (trim_dots (dq_name q)))"

text \<open>
  The query goes to a name server.  What it has sent is stored when the function returns, also when it could
  not be unpacked.
\<close>

definition dns_ask :: "dns_pkg \<Rightarrow> dns_world \<Rightarrow> dns_handler \<Rightarrow> dns_msg \<Rightarrow> byte list option dns_io" where
  "dns_ask P E H mq =
     (let q = hd (dm_question mq)
      in case dp_pack P mq of
           None \<Rightarrow> return None
         | Some query \<Rightarrow> do {
             ex \<leftarrow> dns_selectExchanger E H (trim_dots (dq_name q));
             case ex of
               None \<Rightarrow> return None
             | Some ex \<Rightarrow> do {
                 reply \<leftarrow> ask (\<lambda>h. dw_exchange E h ex query) (\<lambda>r. Special (DnsExchange ex query r));
                 case reply of
                   None \<Rightarrow> return None
                 | Some reply \<Rightarrow> do {
                     (if length (dm_question mq) = 1
                      then do {
                        now \<leftarrow> ask (dw_now E) (\<lambda>t. Special (DnsClock t));
                        act (\<lambda>c. ((), cache_Store (NewCacheKey P q) (fst (dp_unpack P reply)) (dh_ttl H) now c))
                      }
                      else return ());
                     return (if snd (dp_unpack P reply) then Some reply else None)
                   }
               }
           })"

text \<open>Only the answers to a single question are cached.\<close>

definition dns_cached :: "dns_pkg \<Rightarrow> dns_world \<Rightarrow> dns_handler \<Rightarrow> dns_msg \<Rightarrow> byte list option dns_io" where
  "dns_cached P E H mq = do {
     cached \<leftarrow> (if length (dm_question mq) = 1
       then do {
         now \<leftarrow> ask (dw_now E) (\<lambda>t. Special (DnsClock t));
         act (cache_Load (NewCacheKey P (hd (dm_question mq))) now)
       }
       else return None);
     case cached of
       Some mr \<Rightarrow> return (dp_pack P (mr\<lparr>dm_id := dm_id mq\<rparr>))
     | None \<Rightarrow> dns_ask P E H mq
   }"

definition dns_exchange :: "dns_pkg \<Rightarrow> dns_world \<Rightarrow> dns_handler \<Rightarrow> byte list \<Rightarrow> byte list option dns_io" where
  "dns_exchange P E H msg =
     (case dp_unpack P msg of
        (mq, ok) \<Rightarrow>
          if \<not> ok \<or> dm_question mq = [] then return None
          else let mq = AddSubnetOpt mq (dh_clientIP H)
            in if dns_bypassed H (hd (dm_question mq)) then return (dp_pack P (dp_SetReply P mq))
               else case dns_lookupHosts P H mq of
                 Some mr \<Rightarrow> return (dp_pack P mr)
               | None \<Rightarrow> dns_cached P E H mq)"

datatype dns_err = DnsRead | DnsExchangeErr | DnsWrite

definition dns_respond :: "dns_world \<Rightarrow> byte list option \<Rightarrow> dns_err option dns_io" where
  "dns_respond E reply =
     (case reply of
        None \<Rightarrow> return (Some DnsExchangeErr)
      | Some reply \<Rightarrow> do {
          ok \<leftarrow> ask (dw_write E) (Reply reply);
          return (if ok then None else Some DnsWrite)
        })"

definition dns_Handle :: "dns_pkg \<Rightarrow> dns_world \<Rightarrow> dns_handler \<Rightarrow> string \<Rightarrow> dns_err option dns_io" where
  "dns_Handle P E H remote = deferring (emit CloseClient) (do {
     ok \<leftarrow> checkRateLimit (dh_limiter H) (dw_allow E) remote;
     if \<not> ok then return None
     else do {
       msg \<leftarrow> ask (dw_read E) ReadRequest;
       case msg of
         None \<Rightarrow> return (Some DnsRead)
       | Some msg \<Rightarrow> do { reply \<leftarrow> dns_exchange P E H msg; dns_respond E reply }
     }
   })"

section \<open>Where answers come from\<close>

text \<open>The query as the handler sees it, and what it may do with it: the reply, and the exchange.\<close>

definition dns_seen :: "dns_pkg \<Rightarrow> dns_handler \<Rightarrow> byte list \<Rightarrow> dns_msg" where
  "dns_seen P H msg = AddSubnetOpt (fst (dp_unpack P msg)) (dh_clientIP H)"

definition dns_asked :: "dns_pkg \<Rightarrow> dns_handler \<Rightarrow> byte list \<Rightarrow> bool" where
  "dns_asked P H msg \<longleftrightarrow> snd (dp_unpack P msg) \<and> dm_question (dns_seen P H msg) \<noteq> [] \<and>
     \<not> dns_bypassed H (hd (dm_question (dns_seen P H msg))) \<and> dns_lookupHosts P H (dns_seen P H msg) = None"

definition dns_from :: "dns_pkg \<Rightarrow> dns_handler \<Rightarrow> dns_cache \<Rightarrow> dns_event list \<Rightarrow> byte list \<Rightarrow> byte list \<Rightarrow> bool" where
  "dns_from P H c es msg b \<longleftrightarrow>
     (let mq = dns_seen P H msg; q = hd (dm_question mq)
      in if dns_bypassed H q then dp_pack P (dp_SetReply P mq) = Some b
         else case dns_lookupHosts P H mq of
           Some mr \<Rightarrow> dp_pack P mr = Some b
         | None \<Rightarrow>
             (\<exists>t item. Special (DnsClock t) \<in> set es \<and> c (NewCacheKey P q) = Some item \<and> t \<le> ci_ts item + ci_ttl item \<and>
                dp_pack P ((ci_msg item)\<lparr>dm_id := dm_id mq\<rparr>) = Some b) \<or>
             (\<exists>ex query. Special (DnsExchange ex query (Some b)) \<in> set es \<and> snd (dp_unpack P b)))"

definition dns_may :: "dns_pkg \<Rightarrow> dns_handler \<Rightarrow> string \<Rightarrow> dns_cache \<Rightarrow> dns_event list \<Rightarrow> dns_event \<Rightarrow> bool" where
  "dns_may P H remote c es e = (case e of
     Reply b ok \<Rightarrow> Allow (host_of remote) False \<notin> set es \<and>
       (\<exists>msg. ReadRequest (Some msg) \<in> set es \<and> dns_from P H c es msg b)
   | Special (DnsExchange ex query r) \<Rightarrow> Allow (host_of remote) False \<notin> set es \<and>
       (\<exists>msg name. ReadRequest (Some msg) \<in> set es \<and> dns_asked P H msg \<and> dp_pack P (dns_seen P H msg) = Some query \<and>
          Special (DnsSelect (trim_dots (dq_name (hd (dm_question (dns_seen P H msg))))) (Some name)) \<in> set es \<and>
          dh_exchangers H name = Some ex)
   | _ \<Rightarrow> True)"

lemma dns_may_simps [simp]:
  "dns_may P H remote c es (Allow host ok)" "dns_may P H remote c es (ReadRequest r)" "dns_may P H remote c es CloseClient"
  "dns_may P H remote c es (Special (DnsClock t))" "dns_may P H remote c es (Special (DnsSelect a n))"
  by (simp_all add: dns_may_def)

lemma AddSubnetOpt_question [simp]: "dm_question (AddSubnetOpt m ip) = dm_question m"
  by (simp add: AddSubnetOpt_def)







text \<open>A query to a name server whose node has no exchanger is not sent.\<close>

definition dns_sends :: "dns_event list \<Rightarrow> bool" where
  "dns_sends es \<longleftrightarrow> (\<exists>ex query r. Special (DnsExchange ex query r) \<in> set es)"

lemma dns_nothing_sent:
  assumes "\<forall>h a n. dw_select E h a = Some n \<longrightarrow> dh_exchangers H n = None"
  shows "\<not> dns_sends (io_trace (dns_Handle P E H remote) c)"
proof -
  have ask: "wp (dns_ask P E H mq) (\<lambda>r h. \<not> dns_sends (snd h)) h" if "\<not> dns_sends (snd h)" for mq h
    using that assms by (cases h) (auto simp: dns_ask_def dns_selectExchanger_def Let_def wp_simps dns_sends_def split: option.split)
  have cached: "wp (dns_cached P E H mq) (\<lambda>r h. \<not> dns_sends (snd h)) h" if "\<not> dns_sends (snd h)" for mq h
    using that by (cases h) (auto simp: dns_cached_def Let_def wp_simps split: option.split intro!: ask, auto simp: dns_sends_def)
  have exchange: "wp (dns_exchange P E H msg) (\<lambda>r h. \<not> dns_sends (snd h)) h" if "\<not> dns_sends (snd h)" for msg h
    using that cached by (auto simp: dns_exchange_def Let_def wp_simps split: option.split prod.split)
  have respond: "wp (dns_respond E r) (\<lambda>r. wp (emit CloseClient) (\<lambda>_ h. \<not> dns_sends (snd h))) h" if "\<not> dns_sends (snd h)" for r h
    using that by (cases h) (auto simp: dns_respond_def wp_simps dns_sends_def split: option.split)
  have "wp (dns_exchange P E H msg) (\<lambda>r. wp (dns_respond E r) (\<lambda>r. wp (emit CloseClient) (\<lambda>_ h. \<not> dns_sends (snd h)))) h"
    if "\<not> dns_sends (snd h)" for msg h
    by (rule wp_mono [OF exchange [OF that]]) (rule respond)
  then have "wp (dns_Handle P E H remote) (\<lambda>r h. \<not> dns_sends (snd h)) (c, [])"
    by (auto simp: dns_Handle_def wp_simps Let_def dns_sends_def rate_allowed_def split: option.split)
  then show ?thesis by (rule io_trace_wp)
qed

text \<open>
  The default name server is never asked: set-up makes its exchanger, under the name ``default'', when
  no node of the hop has one, but a query goes to the exchanger of the node the hop selects.
\<close>

theorem dns_default_unused:
  assumes "dns_Init mk nodes = Some (dh_exchangers H)" and "\<forall>(name, addr)\<in>set nodes. dns_node_exchangers mk nodes name = None"
    and "''default'' \<notin> fst ` set nodes" and "\<forall>h a n. dw_select E h a = Some n \<longrightarrow> n \<in> fst ` set nodes"
  shows "dh_exchangers H ''default'' = mk dns_defaultNameserver \<and> \<not> dns_sends (io_trace (dns_Handle P E H remote) c)"
proof -
  from assms(1,2) obtain ex where ex: "mk dns_defaultNameserver = Some ex"
      "dh_exchangers H = (dns_node_exchangers mk nodes)(''default'' := Some ex)"
    by (auto simp: dns_Init_def Let_def split: option.splits)
  have none: "dh_exchangers H n = None" if "n \<in> fst ` set nodes" for n
  proof -
    from that obtain addr where "(n, addr) \<in> set nodes" by auto
    with assms(2) have "dns_node_exchangers mk nodes n = None" by blast
    moreover have "n \<noteq> ''default''" using that assms(3) by blast
    ultimately show ?thesis by (simp add: ex(2))
  qed
  have "\<forall>h a n. dw_select E h a = Some n \<longrightarrow> dh_exchangers H n = None"
  proof (intro allI impI)
    fix h a n
    assume "dw_select E h a = Some n"
    with assms(4) have "n \<in> fst ` set nodes" by (elim allE impE)
    then show "dh_exchangers H n = None" by (rule none)
  qed
  then have "\<not> dns_sends (io_trace (dns_Handle P E H remote) c)" by (rule dns_nothing_sent)
  then show ?thesis by (simp add: ex)
qed

definition demo_dns_handler :: "(string \<Rightarrow> exchanger option) \<Rightarrow> dns_handler" where
  "demo_dns_handler exs = \<lparr>dh_limiter = None, dh_bypass = None, dh_lookup = None, dh_hop = True, dh_exchangers = exs, dh_ttl = 0,
     dh_clientIP = []\<rparr>"

definition demo_dns_world :: "string option \<Rightarrow> byte list \<Rightarrow> dns_world" where
  "demo_dns_world node reply = \<lparr>dw_allow = (\<lambda>_. True), dw_read = (\<lambda>_. Some [5]), dw_now = (\<lambda>_. 0), dw_select = (\<lambda>_ _. node),
     dw_exchange = (\<lambda>_ _ _. Some reply), dw_write = (\<lambda>_. True)\<rparr>"

theorem dns_default_unused_witness:
  "\<not> dns_sends (io_trace (dns_Handle demo_dns_pkg (demo_dns_world None [1])
     (demo_dns_handler (\<lambda>n. if n = ''default'' then Some (snd (demo_server ''127.0.0.1:53'')) else None)) ''192.0.2.1:4000'') (\<lambda>_. None))"
  using dns_default_unused [of "\<lambda>_. Some (snd (demo_server ''127.0.0.1:53''))" "[]"
      "demo_dns_handler (\<lambda>n. if n = ''default'' then Some (snd (demo_server ''127.0.0.1:53'')) else None)" "demo_dns_world None [1]"]
  by (simp add: dns_Init_def dns_node_exchangers_def demo_dns_handler_def demo_dns_world_def fun_upd_def)

section \<open>A reply that cannot be read is kept\<close>

definition dns_after :: "dns_pkg \<Rightarrow> dns_world \<Rightarrow> dns_handler \<Rightarrow> string \<Rightarrow> dns_cache \<Rightarrow> dns_cache" where
  "dns_after P E H remote c = fst (snd (run_state (dns_Handle P E H remote) (c, [])))"

lemma dns_exchange_asked:
  "dns_asked P H msg \<Longrightarrow> dns_exchange P E H msg = dns_cached P E H (dns_seen P H msg)"
  by (auto simp: dns_asked_def dns_exchange_def dns_seen_def Let_def split: prod.splits)

text \<open>
  A reply of a name server that cannot be unpacked ends the session with an error and no reply, but
  the part that was read is put into the cache: while it is fresh, the same query is answered with it.
\<close>

theorem dns_broken_reply_stays:
  assumes "dh_limiter H = None" "dns_asked P H msg" "dm_question (dns_seen P H msg) = [q]" "dp_pack P (dns_seen P H msg) = Some query"
    and "dh_hop H" "dh_exchangers H name = Some ex" "0 \<le> dh_ttl H" "c (NewCacheKey P q) = None"
    and "\<forall>h. dw_read E h = Some msg \<and> dw_now E h = t \<and> (\<forall>a. dw_select E h a = Some name) \<and> dw_exchange E h ex query = Some reply"
    and "dp_unpack P reply = (part, False)" "dp_pack P (part\<lparr>dm_id := dm_id (dns_seen P H msg)\<rparr>) = Some b"
    and "\<forall>h. dw_read E2 h = Some msg \<and> dw_now E2 h - t \<le> cache_ttl (dh_ttl H) (dm_answer part)"
  shows "io_result (dns_Handle P E H remote) c = Some DnsExchangeErr \<and> replies (io_trace (dns_Handle P E H remote) c) = [] \<and>
    replies (io_trace (dns_Handle P E2 H remote2) (dns_after P E H remote c)) = [b]"
proof -
  let ?key = "NewCacheKey P q"
  let ?item = "\<lparr>ci_msg = part, ci_ts = t, ci_ttl = cache_ttl (dh_ttl H) (dm_answer part)\<rparr>"
  let ?c = "c(?key := Some ?item)"
  have key: "?key \<noteq> []" by (simp add: NewCacheKey_def)
  have "wp (dns_Handle P E H remote) (\<lambda>r h. r = Some DnsExchangeErr \<and> replies (snd h) = [] \<and> fst h = ?c) (c, [])"
    using assms(3-10) key
    by (simp add: dns_Handle_def checkRateLimit_def assms(1) wp_simps dns_exchange_asked [OF assms(2)] dns_cached_def
        cache_Load_def dns_ask_def dns_selectExchanger_def dns_respond_def cache_Store_def Let_def)
  then have first: "io_result (dns_Handle P E H remote) c = Some DnsExchangeErr \<and> replies (io_trace (dns_Handle P E H remote) c) = [] \<and>
      dns_after P E H remote c = ?c"
    by (simp add: wp_def io_result_def io_trace_def dns_after_def split_beta)
  have "\<not> dw_now E2 h - t > cache_ttl (dh_ttl H) (dm_answer part)" for h
    using spec [OF assms(12), of h] by linarith
  then have "wp (dns_Handle P E2 H remote2) (\<lambda>r h. replies (snd h) = [b]) (?c, [])"
    using assms(3,11,12)
    by (simp add: dns_Handle_def checkRateLimit_def assms(1) wp_simps dns_exchange_asked [OF assms(2)] dns_cached_def
        cache_Load_def dns_respond_def Let_def)
  then have "replies (io_trace (dns_Handle P E2 H remote2) ?c) = [b]" by (rule io_trace_wp)
  with first show ?thesis by simp
qed

definition demo_broken_pkg :: dns_pkg where
  "demo_broken_pkg = demo_dns_pkg\<lparr>dp_unpack := (\<lambda>b. if b = [5] then (dp_query demo_dns_pkg ''www.'' 1, True) else (demo_dns_msg [], False)),
     dp_pack := (\<lambda>m. Some [of_nat (length (dm_question m))])\<rparr>"

theorem dns_broken_reply_stays_witness:
  "replies (io_trace (dns_Handle demo_broken_pkg (demo_dns_world (Some ''a'') [1])
       (demo_dns_handler (\<lambda>_. Some (snd (demo_server ''10.0.0.1:53'')))) ''192.0.2.1:4000'')
     (dns_after demo_broken_pkg (demo_dns_world (Some ''a'') [9]) (demo_dns_handler (\<lambda>_. Some (snd (demo_server ''10.0.0.1:53''))))
       ''192.0.2.1:4000'' (\<lambda>_. None))) = [[0]]"
proof -
  have "0 \<le> cache_ttl 0 as" for as using cache_ttl_pos [of 0 as] by simp
  then show ?thesis
    using dns_broken_reply_stays [of "demo_dns_handler (\<lambda>_. Some (snd (demo_server ''10.0.0.1:53'')))" demo_broken_pkg "[5]"
        "\<lparr>dq_name = ''www.'', dq_class = 1, dq_type = 1\<rparr>" "[1]" "''a''" "snd (demo_server ''10.0.0.1:53'')" "\<lambda>_. None"
        "demo_dns_world (Some ''a'') [9]" 0 "[9]" "demo_dns_msg []" "[0]" "demo_dns_world (Some ''a'') [1]"]
    by (simp add: demo_dns_handler_def demo_dns_world_def demo_broken_pkg_def demo_dns_pkg_def dns_asked_def dns_seen_def
        AddSubnetOpt_def dns_bypassed_def dns_lookupHosts_def Let_def demo_dns_msg_def)
qed

end
