(* ===== verification/Tunnel.thy ===== *)
theory Tunnel
  imports Bytes Handler
begin

text \<open>
  The tunnels of the relay server (\<open>handler/relay/tunnel.go\<close>): the connectors that bound a
  tunnel, the choice among them in turn, and the pool that finds them by the tunnel's identifier.
  The identifiers are those of \<open>github.com/go-gost/relay\<close>, a parameter; a multiplexed session is
  a number.
\<close>

section \<open>Identifiers\<close>

text \<open>
  What the code uses of the identifiers of tunnels and connectors; \<open>ti_uuid\<close> is \<open>uuid.Parse\<close>
  without its error, which the code ignores.
\<close>

record ('tid, 'cid) tunnel_ids =
  ti_zero :: 'tid
  ti_New :: "byte list \<Rightarrow> 'tid"
  ti_NewPrivate :: "byte list \<Rightarrow> 'tid"
  ti_IsZero :: "'tid \<Rightarrow> bool"
  ti_IsPrivate :: "'tid \<Rightarrow> bool"
  ti_Equal :: "'tid \<Rightarrow> 'tid \<Rightarrow> bool"
  ti_String :: "'tid \<Rightarrow> string"
  ti_uuid :: "string \<Rightarrow> byte list"
  ci_New :: "byte list \<Rightarrow> 'cid"
  ci_NewUDP :: "byte list \<Rightarrow> 'cid"
  ci_IsUDP :: "'cid \<Rightarrow> bool"
  ci_ID :: "'cid \<Rightarrow> byte list"

definition parseTunnelID :: "('tid, 'cid) tunnel_ids \<Rightarrow> string \<Rightarrow> 'tid" where
  "parseTunnelID T s =
     (if s = [] then ti_zero T
      else let private = (hd s = CHR ''$'');
               s = (if private then tl s else s);
               uuid = ti_uuid T s
           in if private then ti_NewPrivate T uuid else ti_New T uuid)"

section \<open>Connectors and tunnels\<close>

record 'cid connector =
  co_id :: 'cid
  co_s :: nat

text \<open>
  The goroutine of a connector refuses what the peer opens: over the results of \<open>Accept\<close>, the
  streams it closes, and whether it closed the session.
\<close>

fun connector_accept :: "'k option list \<Rightarrow> 'k list \<times> bool" where
  "connector_accept [] = ([], False)"
| "connector_accept (None # rs) = ([], True)"
| "connector_accept (Some conn # rs) = (case connector_accept rs of (ks, b) \<Rightarrow> (conn # ks, b))"

record ('tid, 'cid) tunnel =
  tn_id :: 'tid
  tn_connectors :: "'cid connector list"
  tn_n :: uint64

definition NewTunnel :: "'tid \<Rightarrow> ('tid, 'cid) tunnel" where
  "NewTunnel tid = \<lparr>tn_id = tid, tn_connectors = [], tn_n = 0\<rparr>"

definition tunnel_AddConnector :: "'cid connector option \<Rightarrow> ('tid, 'cid) tunnel \<Rightarrow> ('tid, 'cid) tunnel" where
  "tunnel_AddConnector c t =
     (case c of None \<Rightarrow> t | Some c \<Rightarrow> t\<lparr>tn_connectors := tn_connectors t @ [c]\<rparr>)"

definition connector_fits :: "('tid, 'cid) tunnel_ids \<Rightarrow> string \<Rightarrow> 'cid connector \<Rightarrow> bool" where
  "connector_fits T network c \<longleftrightarrow>
     network = ''udp'' \<and> ci_IsUDP T (co_id c) \<or> network \<noteq> ''udp'' \<and> \<not> ci_IsUDP T (co_id c)"

definition tunnel_GetConnector ::
    "('tid, 'cid) tunnel_ids \<Rightarrow> string \<Rightarrow> ('tid, 'cid) tunnel \<Rightarrow> 'cid connector option \<times> ('tid, 'cid) tunnel"
where
  "tunnel_GetConnector T network t =
     (let connectors = filter (connector_fits T network) (tn_connectors t)
      in if length connectors = 0 then (None, t)
         else let n = tn_n t + 1 - 1
              in (Some (connectors ! (unat n mod length connectors)), t\<lparr>tn_n := tn_n t + 1\<rparr>))"

text \<open>One tick of \<open>clean\<close>; \<open>closed\<close> says which sessions are.\<close>

definition tunnel_clean :: "(nat \<Rightarrow> bool) \<Rightarrow> ('tid, 'cid) tunnel \<Rightarrow> ('tid, 'cid) tunnel" where
  "tunnel_clean closed t =
     (let connectors = filter (\<lambda>c. \<not> closed (co_s c)) (tn_connectors t)
      in if length connectors \<noteq> length (tn_connectors t) then t\<lparr>tn_connectors := connectors\<rparr> else t)"

section \<open>The pool\<close>

type_synonym ('tid, 'cid) connector_pool = "string \<rightharpoonup> ('tid, 'cid) tunnel"

definition pool_Add ::
    "('tid, 'cid) tunnel_ids \<Rightarrow> 'tid \<Rightarrow> 'cid connector option \<Rightarrow> ('tid, 'cid) connector_pool \<Rightarrow> ('tid, 'cid) connector_pool"
where
  "pool_Add T tid c p =
     (let s = ti_String T tid;
          t = (case p s of None \<Rightarrow> NewTunnel tid | Some t \<Rightarrow> t)
      in p(s \<mapsto> tunnel_AddConnector c t))"

definition pool_Get ::
    "('tid, 'cid) tunnel_ids \<Rightarrow> string \<Rightarrow> 'tid \<Rightarrow> ('tid, 'cid) connector_pool \<Rightarrow>
     'cid connector option \<times> ('tid, 'cid) connector_pool"
where
  "pool_Get T network tid p =
     (case p (ti_String T tid) of
        None \<Rightarrow> (None, p)
      | Some t \<Rightarrow> (case tunnel_GetConnector T network t of (c, t') \<Rightarrow> (c, p(ti_String T tid \<mapsto> t'))))"

text \<open>The tick of the goroutine of the tunnel \<open>s\<close>.\<close>

definition pool_clean :: "(nat \<Rightarrow> bool) \<Rightarrow> string \<Rightarrow> ('tid, 'cid) connector_pool \<Rightarrow> ('tid, 'cid) connector_pool" where
  "pool_clean closed s p = (case p s of None \<Rightarrow> p | Some t \<Rightarrow> p(s \<mapsto> tunnel_clean closed t))"

text \<open>
  \<open>getTunnelConn\<close>: a stream of a session of the tunnel, with up to \<open>retry\<close> attempts; \<open>getconn\<close>
  says whether a session opens one, and \<open>ev\<close> is what is noted of it.
\<close>

primrec getTunnelConn_loop ::
    "('tid, 'cid) tunnel_ids \<Rightarrow> (nat \<Rightarrow> (('tid, 'cid) connector_pool, 'e) history \<Rightarrow> bool) \<Rightarrow> (nat \<Rightarrow> bool \<Rightarrow> 'e) \<Rightarrow>
     string \<Rightarrow> 'tid \<Rightarrow> nat \<Rightarrow> (('tid, 'cid) connector_pool, 'e, 'cid connector option) io"
where
  "getTunnelConn_loop T getconn ev network tid 0 = return None"
| "getTunnelConn_loop T getconn ev network tid (Suc i) = do {
     c \<leftarrow> act (pool_Get T network tid);
     case c of
       None \<Rightarrow> return None
     | Some c \<Rightarrow> do {
         ok \<leftarrow> ask (getconn (co_s c)) (ev (co_s c));
         if ok then return (Some c) else getTunnelConn_loop T getconn ev network tid i
       }
   }"

definition getTunnelConn ::
    "('tid, 'cid) tunnel_ids \<Rightarrow> (nat \<Rightarrow> (('tid, 'cid) connector_pool, 'e) history \<Rightarrow> bool) \<Rightarrow> (nat \<Rightarrow> bool \<Rightarrow> 'e) \<Rightarrow>
     string \<Rightarrow> 'tid \<Rightarrow> int \<Rightarrow> (('tid, 'cid) connector_pool, 'e, 'cid connector option) io"
where
  "getTunnelConn T getconn ev network tid retry =
     getTunnelConn_loop T getconn ev network tid (nat (if retry \<le> 0 then 1 else retry))"

section \<open>What the pool holds\<close>

text \<open>The histories of a pool, with the connectors each lookup found.\<close>

datatype ('tid, 'cid) pool_op =
    PoolAdd 'tid "'cid connector option"
  | PoolGet string 'tid
  | PoolClean "nat \<Rightarrow> bool" string

fun pool_step :: "('tid, 'cid) tunnel_ids \<Rightarrow> ('tid, 'cid) pool_op \<Rightarrow> ('tid, 'cid) connector_pool \<Rightarrow> ('tid, 'cid) connector_pool" where
  "pool_step T (PoolAdd tid c) p = pool_Add T tid c p"
| "pool_step T (PoolGet network tid) p = snd (pool_Get T network tid p)"
| "pool_step T (PoolClean closed s) p = pool_clean closed s p"

definition pool_run :: "('tid, 'cid) tunnel_ids \<Rightarrow> ('tid, 'cid) pool_op list \<Rightarrow> ('tid, 'cid) connector_pool" where
  "pool_run T ops = fold (pool_step T) ops Map.empty"

text \<open>The connectors bound to the tunnels named \<open>s\<close> and not removed, told by the history.\<close>

fun bound_step :: "('tid, 'cid) tunnel_ids \<Rightarrow> string \<Rightarrow> ('tid, 'cid) pool_op \<Rightarrow> 'cid connector list \<Rightarrow> 'cid connector list" where
  "bound_step T s (PoolAdd tid c) cs = (if ti_String T tid = s then cs @ (case c of None \<Rightarrow> [] | Some c \<Rightarrow> [c]) else cs)"
| "bound_step T s (PoolGet network tid) cs = cs"
| "bound_step T s (PoolClean closed s') cs = (if s' = s then filter (\<lambda>c. \<not> closed (co_s c)) cs else cs)"

definition bound :: "('tid, 'cid) tunnel_ids \<Rightarrow> string \<Rightarrow> ('tid, 'cid) pool_op list \<Rightarrow> 'cid connector list" where
  "bound T s ops = fold (bound_step T s) ops []"

definition pool_connectors :: "('tid, 'cid) connector_pool \<Rightarrow> string \<Rightarrow> 'cid connector list" where
  "pool_connectors p s = (case p s of None \<Rightarrow> [] | Some t \<Rightarrow> tn_connectors t)"

lemma tunnel_clean_filter:
  "tn_connectors (tunnel_clean closed t) = filter (\<lambda>c. \<not> closed (co_s c)) (tn_connectors t)"
proof (cases "length (filter (\<lambda>c. \<not> closed (co_s c)) (tn_connectors t)) = length (tn_connectors t)")
  case True
  then have "filter (\<lambda>c. \<not> closed (co_s c)) (tn_connectors t) = tn_connectors t"
    by (metis filter_True length_filter_less less_irrefl)
  with True show ?thesis by (simp add: tunnel_clean_def Let_def)
qed (simp add: tunnel_clean_def Let_def)

lemma pool_Get_connectors: "pool_connectors (snd (pool_Get T network tid p)) = pool_connectors p"
  by (auto simp: fun_eq_iff pool_connectors_def pool_Get_def tunnel_GetConnector_def Let_def split: option.split prod.split)

lemma pool_step_bound: "pool_connectors (pool_step T op p) s = bound_step T s op (pool_connectors p s)"
proof (cases op)
  case (PoolGet network tid)
  then show ?thesis by (simp add: pool_Get_connectors)
qed (auto simp: pool_connectors_def pool_Add_def pool_clean_def NewTunnel_def tunnel_AddConnector_def
      tunnel_clean_filter Let_def split: option.split)

lemma pool_run_bound: "pool_connectors (pool_run T ops) s = bound T s ops"
proof -
  have "pool_connectors (fold (pool_step T) ops p) s = fold (bound_step T s) ops (pool_connectors p s)" for p
    by (induction ops arbitrary: p) (simp_all add: pool_step_bound)
  then show ?thesis by (simp add: pool_run_def bound_def pool_connectors_def)
qed

lemma pool_Get_fits:
  "fst (pool_Get T network tid p) =
     (let cs = filter (connector_fits T network) (pool_connectors p (ti_String T tid))
      in if cs = [] then None else Some (cs ! (unat (tn_n (the (p (ti_String T tid)))) mod length cs)))"
  by (auto simp: pool_Get_def tunnel_GetConnector_def pool_connectors_def Let_def split: option.split)

text \<open>
  A lookup in the pool of tunnels finds a connector exactly when one is bound: after any history
  of bindings, lookups and removals of closed sessions it gives one of the connectors of the
  wanted kind bound under that identifier and not removed since, and none when there is none.
\<close>

theorem pool_get_bound:
  "case fst (pool_Get T network tid (pool_run T ops)) of
     None \<Rightarrow> filter (connector_fits T network) (bound T (ti_String T tid) ops) = []
   | Some c \<Rightarrow> c \<in> set (bound T (ti_String T tid) ops) \<and> connector_fits T network c"
proof (cases "filter (connector_fits T network) (bound T (ti_String T tid) ops) = []")
  case False
  then have "length (filter (connector_fits T network) (bound T (ti_String T tid) ops)) > 0" by blast
  then have "filter (connector_fits T network) (bound T (ti_String T tid) ops) !
      (n mod length (filter (connector_fits T network) (bound T (ti_String T tid) ops)))
      \<in> set (filter (connector_fits T network) (bound T (ti_String T tid) ops))" for n
    by (intro nth_mem) simp
  with False show ?thesis by (simp add: pool_Get_fits pool_run_bound Let_def)
qed (simp add: pool_Get_fits pool_run_bound Let_def)

text \<open>The connectors a connection through a tunnel may come from, in a pool.\<close>

definition reachable_connector :: "('tid, 'cid) tunnel_ids \<Rightarrow> (string \<Rightarrow> 'cid connector list) \<Rightarrow> string \<Rightarrow> 'tid \<Rightarrow> 'cid connector \<Rightarrow> bool" where
  "reachable_connector T connectors network tid c \<longleftrightarrow>
     c \<in> set (connectors (ti_String T tid)) \<and> connector_fits T network c"

lemma pool_Get_reachable:
  assumes "fst (pool_Get T network tid p) = Some c"
  shows "reachable_connector T (pool_connectors p) network tid c"
proof -
  let ?cs = "filter (connector_fits T network) (pool_connectors p (ti_String T tid))"
  from assms obtain n where "?cs \<noteq> []" "c = ?cs ! (n mod length ?cs)"
    by (auto simp: pool_Get_fits Let_def split: if_splits)
  then have "c \<in> set ?cs" by (metis length_greater_0_conv mod_less_divisor nth_mem)
  then show ?thesis by (simp add: reachable_connector_def)
qed

text \<open>
  \<open>getTunnelConn\<close> only asks sessions of connectors of the tunnel, and returns one that opened a
  stream.
\<close>

definition tunnel_conn_trace ::
    "('cid connector \<Rightarrow> bool) \<Rightarrow> (nat \<Rightarrow> bool \<Rightarrow> 'e) \<Rightarrow> 'cid connector option \<Rightarrow> 'e list \<Rightarrow> bool"
where
  "tunnel_conn_trace R ev r new \<longleftrightarrow>
     (\<exists>tried. list_all R tried \<and>
       (case r of
          None \<Rightarrow> new = map (\<lambda>c. ev (co_s c) False) tried
        | Some c \<Rightarrow> R c \<and> new = map (\<lambda>c. ev (co_s c) False) tried @ [ev (co_s c) True]))"

lemma tunnel_conn_trace_Nil: "tunnel_conn_trace R ev None []"
  by (simp add: tunnel_conn_trace_def)

lemma tunnel_conn_trace_hit: "R c \<Longrightarrow> tunnel_conn_trace R ev (Some c) [ev (co_s c) True]"
  by (auto simp: tunnel_conn_trace_def)

lemma tunnel_conn_trace_miss:
  assumes "R c" and "tunnel_conn_trace R ev r new"
  shows "tunnel_conn_trace R ev r (ev (co_s c) False # new)"
proof -
  from assms(2) obtain tried where t: "list_all R tried"
    "case r of None \<Rightarrow> new = map (\<lambda>c. ev (co_s c) False) tried
     | Some c \<Rightarrow> R c \<and> new = map (\<lambda>c. ev (co_s c) False) tried @ [ev (co_s c) True]"
    by (auto simp: tunnel_conn_trace_def)
  show ?thesis unfolding tunnel_conn_trace_def
    by (rule exI [of _ "c # tried"]) (use t assms(1) in \<open>auto split: option.splits\<close>)
qed

lemma getTunnelConn_loop_trace:
  assumes "pool_connectors p = cs"
  shows "wp (getTunnelConn_loop T getconn ev network tid n)
    (\<lambda>r h. pool_connectors (fst h) = cs \<and>
      (\<exists>new. snd h = es @ new \<and> tunnel_conn_trace (reachable_connector T cs network tid) ev r new)) (p, es)"
  using assms
proof (induction n arbitrary: p es)
  case 0
  then show ?case by (simp add: wp_simps tunnel_conn_trace_Nil)
next
  case (Suc n)
  have g: "pool_connectors (snd (pool_Get T network tid p)) = cs"
    using Suc.prems by (simp add: pool_Get_connectors)
  show ?case
  proof (cases "fst (pool_Get T network tid p)")
    case None
    then show ?thesis by (simp add: wp_simps g tunnel_conn_trace_Nil)
  next
    case (Some c)
    then have R: "reachable_connector T cs network tid c"
      unfolding Suc.prems [symmetric] by (rule pool_Get_reachable)
    show ?thesis
    proof (cases "getconn (co_s c) (snd (pool_Get T network tid p), es)")
      case True
      then show ?thesis
        using tunnel_conn_trace_hit [where R = "reachable_connector T cs network tid", OF R]
        by (simp add: wp_simps Some g)
    next
      case False
      have "wp (getTunnelConn_loop T getconn ev network tid n)
        (\<lambda>r h. pool_connectors (fst h) = cs \<and>
          (\<exists>new. snd h = es @ new \<and> tunnel_conn_trace (reachable_connector T cs network tid) ev r new))
        (snd (pool_Get T network tid p), es @ [ev (co_s c) False])"
        by (rule wp_mono [OF Suc.IH [OF g]]) (use tunnel_conn_trace_miss [where R = "reachable_connector T cs network tid", OF R] in fastforce)
      with False show ?thesis by (simp add: wp_simps Some)
    qed
  qed
qed

lemma getTunnelConn_trace:
  "pool_connectors p = cs \<Longrightarrow>
   wp (getTunnelConn T getconn ev network tid retry)
    (\<lambda>r h. pool_connectors (fst h) = cs \<and>
      (\<exists>new. snd h = es @ new \<and> tunnel_conn_trace (reachable_connector T cs network tid) ev r new)) (p, es)"
  unfolding getTunnelConn_def by (rule getTunnelConn_loop_trace)

end
