(* ===== verification/RelayConn.thy ===== *)
theory RelayConn
  imports Bytes
begin

text \<open>
  The connections of the relay protocol (\<open>connector/relay/conn.go\<close>, \<open>handler/relay/conn.go\<close>) and
  of the UDP tunnels (\<open>internal/util/relay/conn.go\<close>): a datagram travels in a stream behind its
  length in two bytes, and the answer of the server leaves with the first data.  The relay
  messages and the SOCKS datagrams are those of \<open>github.com/go-gost/relay\<close> and
  \<open>github.com/go-gost/gosocks5\<close>, parameters.  A stream is the bytes until its end.
\<close>

section \<open>Datagrams in a stream\<close>

text \<open>
  A read of at most \<open>cap\<close> bytes.  A datagram that does not fit goes through a buffer, whose first
  content is \<open>fresh n\<close>; the copy takes from the buffer also when it was not filled.
\<close>

definition relay_frame_read :: "(nat \<Rightarrow> byte list) \<Rightarrow> nat \<Rightarrow> byte list \<Rightarrow> (byte list \<times> bool) \<times> byte list" where
  "relay_frame_read fresh cap s =
     (case read_full 2 s of
        ((_, True), s') \<Rightarrow> (([], True), s')
      | ((bb, False), s') \<Rightarrow>
          let dlen = unat (get16 bb)
          in if cap \<ge> dlen then read_full dlen s'
             else case read_full dlen s' of
               ((buf, e), s'') \<Rightarrow> ((take cap (buf @ drop (length buf) (fresh dlen)), e), s''))"

text \<open>A write: header and data together behind the cached answer, or in two writes.\<close>

definition relay_udp_Write ::
    "'s writer \<Rightarrow> byte list \<Rightarrow> byte list \<Rightarrow> 's \<Rightarrow> (nat \<times> bool) \<times> byte list \<times> 's"
where
  "relay_udp_Write wr wbuf b s =
     (if length b > 65535 then ((0, True), wbuf, s)
      else if length wbuf > 0
      then (let out = wbuf @ be16 (of_nat (length b)) @ b
            in case wr out s of
                 ((n, e), s') \<Rightarrow> ((length b, e \<or> n \<noteq> length out), drop n out, s'))
      else (case wr (be16 (of_nat (length b))) s of
              ((_, True), s') \<Rightarrow> ((length b, True), wbuf, s')
            | ((_, False), s') \<Rightarrow>
                (case wr b s' of ((n, e), s'') \<Rightarrow> ((n, e), wbuf, s''))))"

section \<open>The client's connections\<close>

text \<open>
  What the code uses of the package of relay messages: its constants and \<open>Response.ReadFrom\<close> on
  the stream, which gives the version and the status.
\<close>

record relay_pkg =
  rk_Version1 :: byte
  rk_StatusOK :: byte
  rk_StatusBadRequest :: byte
  rk_StatusUnauthorized :: byte
  rk_StatusForbidden :: byte
  rk_StatusInternalServerError :: byte
  rk_StatusServiceUnavailable :: byte
  rk_StatusHostUnreachable :: byte
  rk_StatusNetworkUnreachable :: byte
  rk_FUDP :: byte
  rk_CmdMask :: byte
  rk_CmdConnect :: byte
  rk_CmdBind :: byte
  rk_read_response :: "byte list \<Rightarrow> (byte \<times> byte) option \<times> byte list"

text \<open>\<open>None\<close> is no error.\<close>

datatype relay_error = ErrRead | ErrBadVersion | ErrStatus byte

definition relay_readResponse :: "relay_pkg \<Rightarrow> byte list \<Rightarrow> relay_error option \<times> byte list" where
  "relay_readResponse K s =
     (case rk_read_response K s of
        (None, s') \<Rightarrow> (Some ErrRead, s')
      | (Some (version, status), s') \<Rightarrow>
          if version \<noteq> rk_Version1 K then (Some ErrBadVersion, s')
          else if status \<noteq> rk_StatusOK K then (Some (ErrStatus status), s')
          else (None, s'))"

text \<open>
  \<open>Read\<close>: the response is read once, whatever comes of it; \<open>once\<close> says that it was.  The inner
  read is \<open>inner\<close>, a read of the TCP connection or of a datagram.
\<close>

definition relay_client_Read ::
    "relay_pkg \<Rightarrow> (byte list \<Rightarrow> (byte list \<times> bool) \<times> byte list) \<Rightarrow> bool \<times> byte list \<Rightarrow>
     (byte list \<times> bool) \<times> bool \<times> byte list"
where
  "relay_client_Read K inner st =
     (case st of (once, s) \<Rightarrow>
       case (if once then (None, s) else relay_readResponse K s) of
         (Some e, s') \<Rightarrow> (([], True), True, s')
       | (None, s') \<Rightarrow> (case inner s' of (r, s'') \<Rightarrow> (r, True, s'')))"

definition relay_client_tcp_Read ::
    "relay_pkg \<Rightarrow> (byte list \<Rightarrow> (byte list \<times> bool) \<times> byte list) \<Rightarrow> bool \<times> byte list \<Rightarrow>
     (byte list \<times> bool) \<times> bool \<times> byte list"
where
  "relay_client_tcp_Read K read st = relay_client_Read K read st"

definition relay_client_udp_Read ::
    "relay_pkg \<Rightarrow> (nat \<Rightarrow> byte list) \<Rightarrow> nat \<Rightarrow> bool \<times> byte list \<Rightarrow> (byte list \<times> bool) \<times> bool \<times> byte list"
where
  "relay_client_udp_Read K fresh cap st = relay_client_Read K (relay_frame_read fresh cap) st"

text \<open>The TCP write of the client resets the cached request whatever the write took.\<close>

definition relay_client_tcp_Write :: "'s writer \<Rightarrow> byte list \<Rightarrow> byte list \<Rightarrow> 's \<Rightarrow> (nat \<times> bool) \<times> byte list \<times> 's" where
  "relay_client_tcp_Write wr wbuf b s =
     (if length wbuf > 0
      then (case wr (wbuf @ b) s of ((_, e), s') \<Rightarrow> ((length b, e), [], s'))
      else (case wr b s of ((_, e), s') \<Rightarrow> ((length b, e), wbuf, s')))"

definition relay_client_udp_Write :: "'s writer \<Rightarrow> byte list \<Rightarrow> byte list \<Rightarrow> 's \<Rightarrow> (nat \<times> bool) \<times> byte list \<times> 's" where
  "relay_client_udp_Write wr wbuf b s = relay_udp_Write wr wbuf b s"

text \<open>The datagram connection of a bound port, with the peer's address.\<close>

definition relay_bindUDP_Read :: "(nat \<Rightarrow> byte list) \<Rightarrow> nat \<Rightarrow> byte list \<Rightarrow> (byte list \<times> bool) \<times> byte list" where
  "relay_bindUDP_Read fresh cap s = relay_frame_read fresh cap s"

definition relay_bindUDP_Write :: "'s writer \<Rightarrow> byte list \<Rightarrow> 's \<Rightarrow> (nat \<times> bool) \<times> 's" where
  "relay_bindUDP_Write wr b s =
     (if length b > 65535 then ((0, True), s)
      else case wr (be16 (of_nat (length b))) s of
        ((_, True), s') \<Rightarrow> ((0, True), s')
      | ((_, False), s') \<Rightarrow> wr b s')"

section \<open>The server's connections\<close>

definition relay_server_tcp_Write :: "'s writer \<Rightarrow> byte list \<Rightarrow> byte list \<Rightarrow> 's \<Rightarrow> (nat \<times> bool) \<times> byte list \<times> 's" where
  "relay_server_tcp_Write wr wbuf b s =
     (if length wbuf > 0
      then (let out = wbuf @ b
            in case wr out s of
                 ((n, e), s') \<Rightarrow> ((length b, e \<or> n \<noteq> length out), drop n out, s'))
      else (case wr b s of ((_, e), s') \<Rightarrow> ((length b, e), wbuf, s')))"

definition relay_server_udp_Read :: "nat \<Rightarrow> byte list \<Rightarrow> (byte list \<times> bool) \<times> byte list" where
  "relay_server_udp_Read cap s = relay_frame_read (\<lambda>n. replicate n 0) cap s"

definition relay_server_udp_Write :: "'s writer \<Rightarrow> byte list \<Rightarrow> byte list \<Rightarrow> 's \<Rightarrow> (nat \<times> bool) \<times> byte list \<times> 's" where
  "relay_server_udp_Write wr wbuf b s = relay_udp_Write wr wbuf b s"

section \<open>UDP tunnels\<close>

text \<open>
  What the code calls of \<open>gosocks5\<close>: an address parsed from text, the text of an address, a
  datagram as it is written (reserved field, fragment field, address and data), a datagram read
  from a stream into a buffer, and a header with its length read from a packet.
\<close>

record 'a socks_pkg =
  sk_parse :: "string \<Rightarrow> 'a option"
  sk_string :: "'a \<Rightarrow> string"
  sk_write :: "uint16 \<Rightarrow> byte \<Rightarrow> 'a \<Rightarrow> byte list \<Rightarrow> byte list"
  sk_read :: "nat \<Rightarrow> byte list \<Rightarrow> (byte list \<times> 'a) option \<times> byte list"
  sk_header :: "byte list \<Rightarrow> (nat \<times> 'a) option"

text \<open>\<open>resolve\<close> is \<open>net.ResolveUDPAddr\<close>; the address is read as its text.\<close>

definition udpTun_ReadFrom ::
    "'a socks_pkg \<Rightarrow> (string \<Rightarrow> string option) \<Rightarrow> nat \<Rightarrow> byte list \<Rightarrow>
     (byte list \<times> string option \<times> bool) \<times> byte list"
where
  "udpTun_ReadFrom K resolve cap s =
     (case sk_read K cap s of
        (None, s') \<Rightarrow> (([], None, True), s')
      | (Some (d, a), s') \<Rightarrow>
          ((take cap d, resolve (sk_string K a), resolve (sk_string K a) = None), s'))"

definition udpTun_WriteTo :: "'a socks_pkg \<Rightarrow> 's writer \<Rightarrow> byte list \<Rightarrow> string \<Rightarrow> 's \<Rightarrow> (nat \<times> bool) \<times> 's" where
  "udpTun_WriteTo K wr b addr s =
     (case sk_parse K addr of
        None \<Rightarrow> ((0, True), s)
      | Some a \<Rightarrow>
          (case wr (sk_write K (of_nat (length b)) 0xff a b) s of ((_, e), s') \<Rightarrow> ((length b, e), s')))"

text \<open>
  The datagram socket that speaks SOCKS: it keeps the address of the last packet and answers to
  it.  A packet of the inner socket, or an error.
\<close>

definition udpSocks_ReadFrom ::
    "'a socks_pkg \<Rightarrow> (string \<Rightarrow> string option) \<Rightarrow> nat \<Rightarrow> nat \<Rightarrow> (byte list \<times> string) option \<Rightarrow> string option \<Rightarrow>
     (byte list \<times> string option \<times> bool) \<times> string option"
where
  "udpSocks_ReadFrom K resolve bufferSize cap p raddr =
     (case p of
        None \<Rightarrow> (([], None, True), None)
      | Some (d, from) \<Rightarrow>
          (let rbuf = take bufferSize d
           in case sk_header K rbuf of
                None \<Rightarrow> (([], None, True), Some from)
              | Some (hlen, a) \<Rightarrow>
                  ((take cap (drop hlen rbuf), resolve (sk_string K a), resolve (sk_string K a) = None), Some from)))"

definition udpSocks_WriteTo ::
    "'a socks_pkg \<Rightarrow> (byte list \<times> string option \<Rightarrow> 's \<Rightarrow> bool \<times> 's) \<Rightarrow> byte list \<Rightarrow> string \<Rightarrow> string option \<Rightarrow>
     's \<Rightarrow> (nat \<times> bool) \<times> 's"
where
  "udpSocks_WriteTo K send b addr raddr s =
     (case sk_parse K addr of
        None \<Rightarrow> ((0, True), s)
      | Some a \<Rightarrow>
          (case send (sk_write K 0 0 a b, raddr) s of (e, s') \<Rightarrow> ((length b, e), s')))"

section \<open>Datagrams arrive as they were sent\<close>

definition relay_frame :: "byte list \<Rightarrow> byte list" where
  "relay_frame d = be16 (of_nat (length d)) @ d"

lemma relay_frame_read_frame:
  assumes "length d \<le> 65535"
  shows "relay_frame_read fresh cap (relay_frame d @ s) = ((take cap d, False), s)"
proof -
  have "unat (of_nat (length d) :: uint16) = length d" using assms by (intro unat_of_nat_16) simp
  then show ?thesis by (simp add: relay_frame_read_def relay_frame_def Let_def)
qed

lemma relay_udp_Write_log:
  assumes "length d \<le> 65535"
  shows "relay_udp_Write log_wr wbuf d s = ((length d, False), [], s @ wbuf @ relay_frame d)"
  using assms by (simp add: relay_udp_Write_def log_wr_def relay_frame_def Let_def)

text \<open>Successive writes of the server and reads of the client.\<close>

definition relay_udp_writes :: "byte list list \<Rightarrow> byte list \<times> byte list \<Rightarrow> byte list \<times> byte list" where
  "relay_udp_writes ds st = fold (\<lambda>d st. snd (relay_server_udp_Write log_wr (fst st) d (snd st))) ds st"

fun relay_udp_reads ::
    "relay_pkg \<Rightarrow> (nat \<Rightarrow> byte list) \<Rightarrow> nat list \<Rightarrow> bool \<times> byte list \<Rightarrow> (byte list \<times> bool) list"
where
  "relay_udp_reads K fresh [] st = []"
| "relay_udp_reads K fresh (cap # caps) st =
     (case relay_client_udp_Read K fresh cap st of (r, st') \<Rightarrow> r # relay_udp_reads K fresh caps st')"

lemma relay_udp_writes_stream:
  assumes "\<forall>d\<in>set ds. length d \<le> 65535"
  shows "relay_udp_writes ds ([], s) = ([], s @ concat (map relay_frame ds))"
  using assms
  by (induction ds arbitrary: s)
    (simp_all add: relay_udp_writes_def relay_server_udp_Write_def relay_udp_Write_log)

lemma relay_udp_reads_stream:
  assumes "\<forall>d\<in>set ds. length d \<le> 65535" and "length caps = length ds"
  shows "relay_udp_reads K fresh caps (True, concat (map relay_frame ds) @ s) =
    map2 (\<lambda>cap d. (take cap d, False)) caps ds"
  using assms(2,1)
  by (induction caps ds rule: list_induct2)
    (simp_all add: relay_client_udp_Read_def relay_client_Read_def relay_frame_read_frame)

text \<open>
  The datagrams a relay server writes are what its client reads, one for each read, in order and
  cut to the reader's buffer; the server's answer, cached and sent with the first datagram, is
  read once and hidden.
\<close>

theorem relay_udp_roundtrip:
  assumes ds: "ds \<noteq> []" "\<forall>d\<in>set ds. length d \<le> 65535" "length caps = length ds"
    and resp: "\<forall>s. rk_read_response K (resp @ s) = (Some (rk_Version1 K, rk_StatusOK K), s)"
  shows "relay_udp_reads K fresh caps (False, snd (relay_udp_writes ds (resp, []))) =
    map2 (\<lambda>cap d. (take cap d, False)) caps ds"
proof -
  obtain d ds' where d: "ds = d # ds'" using ds(1) by (cases ds) auto
  obtain cap caps' where c: "caps = cap # caps'" using ds(3) d by (cases caps) auto
  have "relay_udp_writes ds (resp, []) = relay_udp_writes ds' ([], resp @ relay_frame d)"
    using ds(2) by (simp add: d relay_udp_writes_def relay_server_udp_Write_def relay_udp_Write_log)
  also have "\<dots> = ([], resp @ relay_frame d @ concat (map relay_frame ds'))"
    using ds(2) by (simp add: d relay_udp_writes_stream)
  finally have "relay_udp_reads K fresh caps (False, snd (relay_udp_writes ds (resp, []))) =
      (take cap d, False) # relay_udp_reads K fresh caps' (True, concat (map relay_frame ds') @ [])"
    using ds(2)
    by (simp add: c d relay_client_udp_Read_def relay_client_Read_def relay_readResponse_def resp
        relay_frame_read_frame)
  also have "\<dots> = map2 (\<lambda>cap d. (take cap d, False)) caps ds"
    using ds by (subst relay_udp_reads_stream) (simp_all add: c d)
  finally show ?thesis .
qed

text \<open>An answer of two bytes, and two datagrams of which the second does not fit.\<close>

definition demo_relay :: relay_pkg where
  "demo_relay =
     \<lparr>rk_Version1 = 1, rk_StatusOK = 0, rk_StatusBadRequest = 1, rk_StatusUnauthorized = 2, rk_StatusForbidden = 3,
      rk_StatusInternalServerError = 5, rk_StatusServiceUnavailable = 6, rk_StatusHostUnreachable = 7,
      rk_StatusNetworkUnreachable = 8, rk_FUDP = 0x80, rk_CmdMask = 0x0F, rk_CmdConnect = 1, rk_CmdBind = 2,
      rk_read_response = (\<lambda>s. if length s < 2 then (None, []) else (Some (s ! 0, s ! 1), drop 2 s))\<rparr>"

theorem relay_udp_roundtrip_witness:
  "relay_udp_reads demo_relay (\<lambda>n. []) [10, 1]
     (False, snd (relay_udp_writes [[], [5, 6]] ([1, 0], []))) = [([], False), ([5], False)]"
  using relay_udp_roundtrip [of "[[], [5, 6]]" "[10, 1]" demo_relay "[1, 0]" "\<lambda>n. []"]
  by (simp add: demo_relay_def)

text \<open>
  The error of the response is returned by one read only: the next read goes on with what
  follows a refusal as if it had been accepted.
\<close>

lemma relay_refusal_forgotten:
  assumes "rk_read_response K s = (Some (rk_Version1 K, status), relay_frame d @ s')" and "status \<noteq> rk_StatusOK K" "length d \<le> 65535"
  shows "relay_udp_reads K fresh [cap, cap] (False, s) = [([], True), (take cap d, False)]"
  using assms
  by (simp add: relay_client_udp_Read_def relay_client_Read_def relay_readResponse_def relay_frame_read_frame)

section \<open>UDP tunnels\<close>

text \<open>A datagram is read as it was written when its length is in the reserved field.\<close>

locale socks_datagrams =
  fixes K :: "'a socks_pkg"
  assumes parse_string: "sk_parse K t = Some a \<Longrightarrow> sk_string K a = t"
    and read_write: "sk_parse K t = Some a \<Longrightarrow> length d \<le> 65535 \<Longrightarrow>
      sk_read K cap (sk_write K (of_nat (length d)) 0xff a d @ s) = (Some (d, a), s)"
begin

lemma tunnel_roundtrip:
  assumes "length d \<le> 65535" and "sk_parse K addr = Some a"
  shows "udpTun_WriteTo K log_wr d addr s = ((length d, False), s @ sk_write K (of_nat (length d)) 0xff a d) \<and>
    udpTun_ReadFrom K resolve cap (sk_write K (of_nat (length d)) 0xff a d @ s') =
      ((take cap d, resolve addr, resolve addr = None), s')"
  using assms parse_string [OF assms(2)]
  by (simp add: udpTun_WriteTo_def udpTun_ReadFrom_def log_wr_def read_write [OF assms(2,1)])

end

text \<open>Addresses of at most 255 bytes, written with their length.\<close>

definition plain_socks :: "byte list socks_pkg" where
  "plain_socks =
     \<lparr>sk_parse = (\<lambda>t. if length t < 256 then Some (map (\<lambda>c. of_nat (of_char c)) t) else None),
      sk_string = (\<lambda>a. map (\<lambda>b. char_of (unat b)) a),
      sk_write = (\<lambda>rsv frag a d. be16 rsv @ [frag] @ be16 (of_nat (length a)) @ a @ d),
      sk_read = (\<lambda>cap s. 
        let n = unat (get16 s); l = unat (get16 (drop 3 s))
        in (Some (take n (drop (5 + l) s), take l (drop 5 s)), drop (5 + l + n) s)),
      sk_header = (\<lambda>b. None)\<rparr>"

interpretation plain_socks: socks_datagrams plain_socks
proof
  fix t :: string and a and d s :: "byte list" and cap :: nat
  assume parse: "sk_parse plain_socks t = Some a"
  then have a: "a = map (\<lambda>c. of_nat (of_char c)) t" "length t < 256"
    by (auto simp: plain_socks_def split: if_splits)
  have "char_of (unat (of_nat (of_char c) :: byte)) = c" for c :: char
    by (simp add: unat_of_nat)
  then show "sk_string plain_socks a = t"
    by (simp add: plain_socks_def a(1) comp_def)
  assume d: "length d \<le> 65535"
  have n: "unat (of_nat (length d) :: uint16) = length d" "unat (of_nat (length a) :: uint16) = length a"
    using d a by (simp_all add: unat_of_nat)
  have at3: "drop 3 (be16 v @ f # u) = u" for v :: uint16 and f u by (simp add: be16_def)
  have at5: "drop (5 + k) (be16 v @ f # be16 w @ u) = drop k u" for v w :: uint16 and f u k
    by (simp add: be16_def eval_nat_numeral)
  show "sk_read plain_socks cap (sk_write plain_socks (of_nat (length d)) 0xff a d @ s) = (Some (d, a), s)"
    using at5 [of 0] at5 [of "length a"] at5 [of "length a + length d"]
    by (simp add: plain_socks_def Let_def n at3 add.assoc)
qed

text \<open>
  A datagram of at most 65535 bytes written into a UDP tunnel arrives at the other end with its
  address, cut to the reader's buffer, and the stream goes on behind it.
\<close>

theorem udpTun_roundtrip:
  assumes "socks_datagrams K" and "length d \<le> 65535" and "sk_parse K addr = Some a"
  shows "\<exists>out. udpTun_WriteTo K log_wr d addr s = ((length d, False), s @ out) \<and>
    udpTun_ReadFrom K resolve cap (out @ s') = ((take cap d, resolve addr, resolve addr = None), s')"
  using socks_datagrams.tunnel_roundtrip [OF assms] by blast

theorem udpTun_roundtrip_witness:
  "\<exists>out. udpTun_WriteTo plain_socks log_wr [1, 2, 3] ''10.0.0.1:53'' [] = ((3, False), out) \<and>
     udpTun_ReadFrom plain_socks Some 2 (out @ [9]) = (([1, 2], Some ''10.0.0.1:53'', False), [9])"
proof -
  have "sk_parse plain_socks ''10.0.0.1:53'' = Some (map (\<lambda>c. of_nat (of_char c)) ''10.0.0.1:53'')"
    by (simp add: plain_socks_def)
  from udpTun_roundtrip [OF plain_socks.socks_datagrams_axioms _ this, of "[1, 2, 3]" "[]" Some 2 "[9]"]
  show ?thesis by (simp add: numeral_3_eq_3)
qed

end
