(* ===== verification/RelayHandler.thy ===== *)
theory RelayHandler
  imports Tunnel RelayConn
begin

text \<open>
  The relay server (\<open>handler/relay/handler.go\<close>, \<open>forward.go\<close>, \<open>connect.go\<close>, \<open>bind.go\<close>): a
  request is read, its user authenticated, and the connection relayed to the target of the hop,
  to the requested address or into a tunnel, or bound to a port or a tunnel.
\<close>

unbundle bit_operations_syntax

section \<open>Messages\<close>

text \<open>
  The features of a request.  In a response, \<open>AddrOf s\<close> is an address feature after
  \<open>ParseFrom(s)\<close>, whose error the code ignores.
\<close>

datatype req_feature = UserAuthFeature string string | AddrFeature string uint16 | TunnelFeature "byte list"

datatype resp_feature = AddrOf string | AddrDomain string uint16 | ConnectorFeature "byte list"

record relay_request =
  rq_version :: byte
  rq_cmd :: byte
  rq_features :: "req_feature list"

datatype relay_resp = Response byte byte "resp_feature list"

datatype relay_err = ErrBadVersionReq | ErrUnknownCmd | ErrUnauthorized | ErrRateLimit | ErrNoTarget
  | ErrNoRoute | ErrNoTunnel | ErrAccessDenied | ErrExternal

text \<open>
  What only this handler does: select a node of the hop, ask a session for a stream, listen, upgrade the client's connection
  to a session, add a connector to the pool, serve the bound port, and relay datagrams.
\<close>

datatype 'cid relay_special =
    SelectTarget "string option"
  | GetConn nat bool
  | NewUUID bool
  | Listen string string bool
  | CloseListener
  | Upgrade bool
  | CloseSession
  | ServeEntryPoint
  | AddConnector string 'cid
  | RelayUDP nat

section \<open>The handler and what it calls\<close>

text \<open>
  The options and metadata.  \<open>rh_hop\<close> says whether there is a hop to forward to, \<open>rh_limiter\<close> for
  which hosts there is a rate limiter, and \<open>rh_ep\<close> is the address of the entry point.
\<close>

record relay_handler =
  rh_limiter :: "(string \<Rightarrow> bool) option"
  rh_auther :: "(string \<Rightarrow> string \<Rightarrow> bool) option"
  rh_bypass :: "(string \<Rightarrow> bool) option"
  rh_hop :: bool
  rh_readTimeout :: int
  rh_enableBind :: bool
  rh_udpBufferSize :: nat
  rh_noDelay :: bool
  rh_hash :: string
  rh_ingress :: "(string \<Rightarrow> string) option"
  rh_directTunnel :: bool
  rh_ep :: "string option"

text \<open>
  The oracles: the limiter, the request, whether a write succeeds, whether a dial does, the node
  the hop selects (its address, and whether it has a marker), a stream of a session, a random
  identifier, a listener with its address, and the upgrade of a connection to a session.
\<close>

record ('tid, 'cid) relay_world =
  rw_allow :: "(('tid, 'cid) connector_pool, (relay_request, relay_resp, 'cid relay_special) event) history \<Rightarrow> bool"
  rw_request :: "(('tid, 'cid) connector_pool, (relay_request, relay_resp, 'cid relay_special) event) history \<Rightarrow> relay_request option"
  rw_write :: "(('tid, 'cid) connector_pool, (relay_request, relay_resp, 'cid relay_special) event) history \<Rightarrow> bool"
  rw_dial :: "(('tid, 'cid) connector_pool, (relay_request, relay_resp, 'cid relay_special) event) history \<Rightarrow> bool"
  rw_select :: "(('tid, 'cid) connector_pool, (relay_request, relay_resp, 'cid relay_special) event) history \<Rightarrow> (string \<times> bool) option"
  rw_getconn :: "nat \<Rightarrow> (('tid, 'cid) connector_pool, (relay_request, relay_resp, 'cid relay_special) event) history \<Rightarrow> bool"
  rw_uuid :: "(('tid, 'cid) connector_pool, (relay_request, relay_resp, 'cid relay_special) event) history \<Rightarrow> byte list option"
  rw_listen :: "(('tid, 'cid) connector_pool, (relay_request, relay_resp, 'cid relay_special) event) history \<Rightarrow> string option"
  rw_session :: "(('tid, 'cid) connector_pool, (relay_request, relay_resp, 'cid relay_special) event) history \<Rightarrow> nat option"
  rw_serve :: "(('tid, 'cid) connector_pool, (relay_request, relay_resp, 'cid relay_special) event) history \<Rightarrow> bool"

type_synonym ('tid, 'cid, 'a) relay_io = "(('tid, 'cid) connector_pool, (relay_request, relay_resp, 'cid relay_special) event, 'a) io"

definition relay_reply :: "('tid, 'cid) relay_world \<Rightarrow> relay_resp \<Rightarrow> ('tid, 'cid, bool) relay_io" where
  "relay_reply E m = ask (rw_write E) (Reply m)"

text \<open>An answer without features, and what \<open>resp.WriteTo(conn); return err\<close> does.\<close>

definition relay_status :: "relay_pkg \<Rightarrow> byte \<Rightarrow> relay_resp" where
  "relay_status K status = Response (rk_Version1 K) status []"

definition relay_fail ::
    "relay_pkg \<Rightarrow> ('tid, 'cid) relay_world \<Rightarrow> byte \<Rightarrow> relay_err \<Rightarrow> ('tid, 'cid, relay_err option) relay_io"
where
  "relay_fail K E status err = do { relay_reply E (relay_status K status); return (Some err) }"

text \<open>\<open>_, err := resp.WriteTo(conn); return err\<close>.\<close>

definition relay_refuse ::
    "relay_pkg \<Rightarrow> ('tid, 'cid) relay_world \<Rightarrow> byte \<Rightarrow> ('tid, 'cid, relay_err option) relay_io"
where
  "relay_refuse K E status = do {
     ok \<leftarrow> relay_reply E (relay_status K status);
     return (if ok then None else Some ErrExternal)
   }"

definition is_udp :: "string \<Rightarrow> bool" where
  "is_udp network \<longleftrightarrow> network \<in> {''udp'', ''udp4'', ''udp6''}"

section \<open>Forward mode\<close>

definition relay_handleForward ::
    "relay_pkg \<Rightarrow> ('tid, 'cid) relay_world \<Rightarrow> relay_handler \<Rightarrow> string \<Rightarrow> ('tid, 'cid, relay_err option) relay_io"
where
  "relay_handleForward K E H network = do {
     target \<leftarrow> ask (rw_select E) (\<lambda>t. Special (SelectTarget (map_option fst t)));
     case target of
       None \<Rightarrow> relay_fail K E (rk_StatusServiceUnavailable K) ErrNoTarget
     | Some (addr, marker) \<Rightarrow> do {
         ok \<leftarrow> ask (rw_dial E) (Dial None network addr);
         if \<not> ok then do {
           (if marker then emit MarkTarget else return ());
           relay_fail K E (rk_StatusHostUnreachable K) ErrExternal
         } else deferring (emit CloseUp) (do {
           (if marker then emit ResetTarget else return ());
           ok \<leftarrow> (if rh_noDelay H then relay_reply E (relay_status K (rk_StatusOK K)) else return True);
           if \<not> ok then return (Some ErrExternal)
           else do {
             emit (Transport (is_udp network) (if rh_noDelay H then [] else [relay_status K (rk_StatusOK K)]));
             return None
           }
         })
       }
   }"

section \<open>Connect\<close>

definition relay_handleConnect ::
    "relay_pkg \<Rightarrow> ('tid, 'cid) relay_world \<Rightarrow> relay_handler \<Rightarrow> string \<Rightarrow> string \<Rightarrow> ('tid, 'cid, relay_err option) relay_io"
where
  "relay_handleConnect K E H network address =
     (if address = [] then relay_fail K E (rk_StatusBadRequest K) ErrNoTarget
      else if (case rh_bypass H of None \<Rightarrow> False | Some contains \<Rightarrow> contains address)
      then relay_refuse K E (rk_StatusForbidden K)
      else do {
        ok \<leftarrow> ask (rw_dial E) (Dial (if rh_hash H = ''host'' then Some address else None) network address);
        if \<not> ok then relay_fail K E (rk_StatusNetworkUnreachable K) ErrExternal
        else deferring (emit CloseUp) (do {
          ok \<leftarrow> (if rh_noDelay H then relay_reply E (relay_status K (rk_StatusOK K)) else return True);
          if \<not> ok then return (Some ErrExternal)
          else do {
            emit (Transport (is_udp network) (if rh_noDelay H then [] else [relay_status K (rk_StatusOK K)]));
            return None
          }
        })
      })"

text \<open>\<open>remote\<close> is the address of the client.  The client's side is never relayed as datagrams.\<close>

definition relay_handleConnectTunnel ::
    "relay_pkg \<Rightarrow> ('tid, 'cid) tunnel_ids \<Rightarrow> ('tid, 'cid) relay_world \<Rightarrow> relay_handler \<Rightarrow> string \<Rightarrow>
     string \<Rightarrow> string \<Rightarrow> 'tid \<Rightarrow> ('tid, 'cid, relay_err option) relay_io"
where
  "relay_handleConnectTunnel K T E H remote network address tunnelID =
     (let (host, sp) = (case split_host_port address of None \<Rightarrow> ([], []) | Some hp \<Rightarrow> hp);
          tid = (case rh_ingress H of None \<Rightarrow> ti_zero T | Some get \<Rightarrow> parseTunnelID T (get host))
      in if (case rh_bypass H of None \<Rightarrow> False | Some contains \<Rightarrow> contains address)
         then relay_refuse K E (rk_StatusForbidden K)
         else if \<not> ti_Equal T tid tunnelID \<and> \<not> rh_directTunnel H
         then relay_fail K E (rk_StatusBadRequest K) ErrNoRoute
         else do {
           cc \<leftarrow> getTunnelConn T (rw_getconn E) (\<lambda>s ok. Special (GetConn s ok)) network tunnelID 3;
           if cc = None then return (Some ErrNoTunnel)
           else deferring (emit CloseUp) (do {
             ok \<leftarrow> (if rh_noDelay H then relay_reply E (relay_status K (rk_StatusOK K)) else return True);
             if \<not> ok then return (Some ErrExternal)
             else do {
               ask (rw_write E) (SendUp (Response (rk_Version1 K) (rk_StatusOK K)
                 ([AddrOf remote] @ (if host \<noteq> [] then [AddrDomain host (word_of_int (atoi sp))] else []))));
               emit (Transport False (if rh_noDelay H then [] else [relay_status K (rk_StatusOK K)]));
               return None
             }
           })
         })"

section \<open>Bind\<close>

text \<open>A port is bound, and what connects to it goes into streams of the client's session.\<close>

definition relay_bindTCP ::
    "relay_pkg \<Rightarrow> ('tid, 'cid) relay_world \<Rightarrow> string \<Rightarrow> string \<Rightarrow> ('tid, 'cid, relay_err option) relay_io"
where
  "relay_bindTCP K E network address = do {
     ln \<leftarrow> ask (rw_listen E) (\<lambda>ln. Special (Listen network address (ln \<noteq> None)));
     case ln of
       None \<Rightarrow> relay_fail K E (rk_StatusServiceUnavailable K) ErrExternal
     | Some addr \<Rightarrow> deferring (emit (Special CloseListener)) (do {
         ok \<leftarrow> relay_reply E (Response (rk_Version1 K) (rk_StatusOK K) [AddrOf addr]);
         if \<not> ok then return (Some ErrExternal)
         else do {
           session \<leftarrow> ask (rw_session E) (\<lambda>s. Special (Upgrade (s \<noteq> None)));
           if session = None then return (Some ErrExternal)
           else deferring (emit (Special CloseSession)) (do {
             ok \<leftarrow> ask (rw_serve E) (\<lambda>_. Special ServeEntryPoint);
             return (if ok then None else Some ErrExternal)
           })
         }
       })
   }"

definition relay_bindUDP ::
    "relay_pkg \<Rightarrow> ('tid, 'cid) relay_world \<Rightarrow> relay_handler \<Rightarrow> string \<Rightarrow> string \<Rightarrow> ('tid, 'cid, relay_err option) relay_io"
where
  "relay_bindUDP K E H network address = do {
     pc \<leftarrow> ask (rw_listen E) (\<lambda>pc. Special (Listen network address (pc \<noteq> None)));
     case pc of
       None \<Rightarrow> return (Some ErrExternal)
     | Some addr \<Rightarrow> deferring (emit (Special CloseListener)) (do {
         ok \<leftarrow> relay_reply E (Response (rk_Version1 K) (rk_StatusOK K) [AddrOf addr]);
         if \<not> ok then return (Some ErrExternal)
         else do {
           emit (Special (RelayUDP (rh_udpBufferSize H)));
           return None
         }
       })
   }"

definition relay_handleBind ::
    "relay_pkg \<Rightarrow> ('tid, 'cid) relay_world \<Rightarrow> relay_handler \<Rightarrow> string \<Rightarrow> string \<Rightarrow> ('tid, 'cid, relay_err option) relay_io"
where
  "relay_handleBind K E H network address =
     (if \<not> rh_enableBind H then relay_refuse K E (rk_StatusForbidden K)
      else if network = ''tcp'' then relay_bindTCP K E network address
      else relay_bindUDP K E H network address)"

definition relay_handleBindTunnel ::
    "relay_pkg \<Rightarrow> ('tid, 'cid) tunnel_ids \<Rightarrow> ('tid, 'cid) relay_world \<Rightarrow> relay_handler \<Rightarrow> string \<Rightarrow> 'tid \<Rightarrow>
     ('tid, 'cid, relay_err option) relay_io"
where
  "relay_handleBindTunnel K T E H network tunnelID = do {
     uuid \<leftarrow> ask (rw_uuid E) (\<lambda>u. Special (NewUUID (u \<noteq> None)));
     case uuid of
       None \<Rightarrow> relay_fail K E (rk_StatusInternalServerError K) ErrExternal
     | Some u \<Rightarrow> do {
         let connectorID = (if network = ''udp'' then ci_NewUDP T u else ci_New T u);
         let addr = (case rh_ep H of None \<Rightarrow> '':0'' | Some a \<Rightarrow> a);
         relay_reply E (Response (rk_Version1 K) (rk_StatusOK K) [AddrOf addr, ConnectorFeature (ci_ID T connectorID)]);
         session \<leftarrow> ask (rw_session E) (\<lambda>s. Special (Upgrade (s \<noteq> None)));
         case session of
           None \<Rightarrow> return (Some ErrExternal)
         | Some s \<Rightarrow> do {
             act (\<lambda>p. ((), pool_Add T tunnelID (Some \<lparr>co_id = connectorID, co_s = s\<rparr>) p));
             emit (Special (AddConnector (ti_String T tunnelID) connectorID));
             return None
           }
       }
   }"

section \<open>A request\<close>

record 'tid request_data =
  rd_user :: string
  rd_pass :: string
  rd_address :: string
  rd_tunnelID :: 'tid

definition relay_feature :: "('tid, 'cid) tunnel_ids \<Rightarrow> req_feature \<Rightarrow> 'tid request_data \<Rightarrow> 'tid request_data" where
  "relay_feature T f d =
     (case f of
        UserAuthFeature user pass \<Rightarrow> d\<lparr>rd_user := user, rd_pass := pass\<rparr>
      | AddrFeature host port \<Rightarrow> d\<lparr>rd_address := join_host_port host (dec_string (unat port))\<rparr>
      | TunnelFeature bs \<Rightarrow> d\<lparr>rd_tunnelID := ti_New T bs\<rparr>)"

definition relay_features :: "('tid, 'cid) tunnel_ids \<Rightarrow> req_feature list \<Rightarrow> 'tid request_data" where
  "relay_features T fs =
     fold (relay_feature T) fs \<lparr>rd_user = [], rd_pass = [], rd_address = [], rd_tunnelID = ti_zero T\<rparr>"

text \<open>The command is dispatched once the user is known.\<close>

definition relay_dispatch ::
    "relay_pkg \<Rightarrow> ('tid, 'cid) tunnel_ids \<Rightarrow> ('tid, 'cid) relay_world \<Rightarrow> relay_handler \<Rightarrow> string \<Rightarrow>
     byte \<Rightarrow> 'tid request_data \<Rightarrow> ('tid, 'cid, relay_err option) relay_io"
where
  "relay_dispatch K T E H remote cmd d =
     (let network = (if cmd AND rk_FUDP K = rk_FUDP K then ''udp'' else ''tcp'');
          c = cmd AND rk_CmdMask K
      in if rh_hop H then deferring (emit CloseClient) (relay_handleForward K E H network)
         else if c = 0 \<or> c = rk_CmdConnect K
         then deferring (emit CloseClient)
           (if \<not> ti_IsZero T (rd_tunnelID d)
            then relay_handleConnectTunnel K T E H remote network (rd_address d) (rd_tunnelID d)
            else relay_handleConnect K E H network (rd_address d))
         else if c = rk_CmdBind K
         then (if \<not> ti_IsZero T (rd_tunnelID d) then relay_handleBindTunnel K T E H network (rd_tunnelID d)
               else deferring (emit CloseClient) (relay_handleBind K E H network (rd_address d)))
         else relay_fail K E (rk_StatusBadRequest K) ErrUnknownCmd)"

definition relay_Handle ::
    "relay_pkg \<Rightarrow> ('tid, 'cid) tunnel_ids \<Rightarrow> ('tid, 'cid) relay_world \<Rightarrow> relay_handler \<Rightarrow> string \<Rightarrow>
     ('tid, 'cid, relay_err option) relay_io"
where
  "relay_Handle K T E H remote = on_error (emit CloseClient) (do {
     ok \<leftarrow> checkRateLimit (rh_limiter H) (rw_allow E) remote;
     if \<not> ok then return (Some ErrRateLimit)
     else do {
       (if rh_readTimeout H > 0 then emit (Deadline True) else return ());
       req \<leftarrow> ask (rw_request E) ReadRequest;
       case req of
         None \<Rightarrow> return (Some ErrExternal)
       | Some req \<Rightarrow> do {
           emit (Deadline False);
           if rq_version req \<noteq> rk_Version1 K then relay_fail K E (rk_StatusBadRequest K) ErrBadVersionReq
           else do {
             let d = relay_features T (rq_features req);
             if (case rh_auther H of None \<Rightarrow> False | Some auth \<Rightarrow> \<not> auth (rd_user d) (rd_pass d))
             then relay_fail K E (rk_StatusUnauthorized K) ErrUnauthorized
             else relay_dispatch K T E H remote (rq_cmd req) d
           }
         }
     }
   })"

section \<open>What a session is\<close>

text \<open>A stream of a connector's session is a connection to a target, too.\<close>

definition relay_opens :: "'cid relay_special \<Rightarrow> bool" where
  "relay_opens x = (case x of GetConn s ok \<Rightarrow> ok | _ \<Rightarrow> False)"

abbreviation relay_typed :: "bool \<Rightarrow> (relay_request, relay_resp, 'cid relay_special) event list \<Rightarrow> bool" where
  "relay_typed \<equiv> target_typed relay_opens"

lemma relay_opens_simps [simp]:
  "relay_opens (GetConn s ok) = ok" "\<not> relay_opens (SelectTarget t)" "\<not> relay_opens (NewUUID ok)"
  "\<not> relay_opens (Listen n a ok)" "\<not> relay_opens CloseListener" "\<not> relay_opens (Upgrade ok)"
  "\<not> relay_opens CloseSession" "\<not> relay_opens ServeEntryPoint" "\<not> relay_opens (AddConnector i c)"
  "\<not> relay_opens (RelayUDP k)"
  by (simp_all add: relay_opens_def)

text \<open>
  A part of a session: its events satisfy \<open>P\<close>, the connection to the target is closed when it
  ends, and it answers at most once.
\<close>

definition relay_part ::
    "((relay_request, relay_resp, 'cid relay_special) event \<Rightarrow> bool) \<Rightarrow>
     (relay_request, relay_resp, 'cid relay_special) event list \<Rightarrow> bool"
where
  "relay_part P new \<longleftrightarrow> list_all P new \<and> (\<forall>rest. relay_typed False (new @ rest) = relay_typed False rest) \<and>
     length (replies new) \<le> 1"

text \<open>
  What is done before the client is closed: the address dialled is that of the selected node, and
  a dial that fails is an error.
\<close>

definition relay_inner :: "bool \<Rightarrow> relay_err option \<Rightarrow> (relay_request, relay_resp, 'cid relay_special) event list \<Rightarrow> bool" where
  "relay_inner hop r new \<longleftrightarrow> CloseClient \<notin> set new \<and>
     (hop \<longrightarrow> (\<forall>(n, a)\<in>set (dials new). Special (SelectTarget (Some a)) \<in> set new)) \<and>
     (\<forall>h n a. Dial h n a False \<in> set new \<longrightarrow> r \<noteq> None)"

lemmas relay_io_defs = relay_fail_def relay_refuse_def relay_reply_def

text \<open>The events that serve the client: they need a request, and permission.\<close>

definition relay_serves :: "(relay_request, relay_resp, 'cid relay_special) event \<Rightarrow> bool" where
  "relay_serves e = (case e of
     Dial h n a ok \<Rightarrow> True | SendUp m ok \<Rightarrow> True | Transport udp ms \<Rightarrow> True
   | Special (GetConn s ok) \<Rightarrow> True | Special (Listen n a ok) \<Rightarrow> True | Special (AddConnector t c) \<Rightarrow> True
   | Special (RelayUDP n) \<Rightarrow> True | Special ServeEntryPoint \<Rightarrow> True | _ \<Rightarrow> False)"

definition relay_bypassed :: "relay_handler \<Rightarrow> string \<Rightarrow> bool" where
  "relay_bypassed H address = (case rh_bypass H of None \<Rightarrow> False | Some contains \<Rightarrow> contains address)"

text \<open>The ingress maps the host to the tunnel, or any tunnel may be asked for.\<close>

definition relay_routed :: "('tid, 'cid) tunnel_ids \<Rightarrow> relay_handler \<Rightarrow> string \<Rightarrow> 'tid \<Rightarrow> bool" where
  "relay_routed T H address tid \<longleftrightarrow> rh_directTunnel H \<or>
     ti_Equal T (case rh_ingress H of None \<Rightarrow> ti_zero T | Some get \<Rightarrow> parseTunnelID T (get (host_of address))) tid"

lemma relay_handleForward_part:
  assumes "\<And>m ok. P (Reply m ok)" "\<And>t. P (Special (SelectTarget t))" "\<And>a ok. P (Dial None network a ok)" 
    "P MarkTarget" "P ResetTarget" "\<And>ms. P (Transport (is_udp network) ms)" "P CloseUp"
  shows "traces (relay_handleForward K E H network)
    (\<lambda>r new. relay_part P new \<and> relay_inner True r new)"
  by (rule tracesI)
   (auto simp: relay_handleForward_def relay_io_defs relay_part_def relay_inner_def wp_simps assms split: option.splits)

lemma relay_handleConnect_part:
  assumes "\<And>m ok. P (Reply m ok)" "\<And>ms. P (Transport (is_udp network) ms)" "P CloseUp"
    "\<And>h ok. address \<noteq> [] \<Longrightarrow> \<not> relay_bypassed H address \<Longrightarrow> P (Dial h network address ok)"
  shows "traces (relay_handleConnect K E H network address) (\<lambda>r new. relay_part P new \<and> relay_inner False r new)"
  by (rule tracesI)
   (auto simp: relay_handleConnect_def relay_bypassed_def relay_io_defs relay_part_def relay_inner_def wp_simps assms split: option.splits if_splits)

lemma tunnel_conn_typed:
  assumes "tunnel_conn_trace R (\<lambda>s ok. Special (GetConn s ok)) r new"
  shows "relay_typed False (new @ rest) = relay_typed (r \<noteq> None) rest" and "replies new = []"
proof -
  have tried: "relay_typed False (map (\<lambda>c. Special (GetConn (co_s c) False)) cs @ es) = relay_typed False es"
    "replies (map (\<lambda>c. Special (GetConn (co_s c) False)) cs) = []" for cs :: "'a connector list" and es
    by (induction cs) simp_all
  show "relay_typed False (new @ rest) = relay_typed (r \<noteq> None) rest" "replies new = []"
    using assms by (auto simp: tunnel_conn_trace_def tried split: option.splits)
qed

lemma wp_getTunnelConn:
  assumes "\<And>r w' new. tunnel_conn_trace (reachable_connector T (pool_connectors p) network tid) ev r new \<Longrightarrow> Q r (w', es @ new)"
  shows "wp (getTunnelConn T getconn ev network tid retry) Q (p, es)"
  by (rule wp_mono [OF getTunnelConn_trace [OF refl]]) (metis assms prod.collapse)

lemma relay_handleConnectTunnel_part:
  fixes T :: "('tid, 'cid) tunnel_ids"
  assumes "\<And>m ok. P (Reply m ok)" "\<And>ms. P (Transport False ms)" "P CloseUp"
    "\<And>m ok. \<not> relay_bypassed H address \<Longrightarrow> relay_routed T H address tid \<Longrightarrow> P (SendUp m ok)"
    "\<And>c ok. \<not> relay_bypassed H address \<Longrightarrow> relay_routed T H address tid \<Longrightarrow>
       reachable_connector T (pool_connectors p) network tid c \<Longrightarrow> P (Special (GetConn (co_s c) ok))"
  shows "wp (relay_handleConnectTunnel K T E H remote network address tid)
    (\<lambda>r h. \<exists>new. snd h = es @ new \<and> relay_part P new \<and> relay_inner False r new) (p, es)"
proof -
  obtain sp where hp: "(case split_host_port address of None \<Rightarrow> ([], []) | Some hp \<Rightarrow> hp) = (host_of address, sp)"
    by (cases "split_host_port address") (auto simp: host_of_def)
  show ?thesis
  proof (cases "\<not> relay_bypassed H address \<and> relay_routed T H address tid")
    case True
    then have P: "\<And>m ok. P (SendUp m ok)"
      "\<And>c ok. reachable_connector T (pool_connectors p) network tid c \<Longrightarrow> P (Special (GetConn (co_s c) ok))"
      using assms(4,5) by blast+
    have "list_all P new" "CloseClient \<notin> set new" "Dial h n a ok \<notin> set new" if "tunnel_conn_trace (reachable_connector T (pool_connectors p) network tid)
        (\<lambda>s ok. Special (GetConn s ok)) r new" for r new h n a ok
      using that P(2) by (auto simp: tunnel_conn_trace_def list_all_iff split: option.splits)
    note P = P this
    from True have c: "(case rh_bypass H of None \<Rightarrow> False | Some contains \<Rightarrow> contains address) = False"
      "(\<not> ti_Equal T (case rh_ingress H of None \<Rightarrow> ti_zero T | Some get \<Rightarrow> parseTunnelID T (get (host_of address))) tid \<and>
        \<not> rh_directTunnel H) = False"
      by (auto simp: relay_bypassed_def relay_routed_def)
    show ?thesis
      unfolding relay_handleConnectTunnel_def hp Let_def prod.case c if_False
      by (unfold wp_bind, rule wp_getTunnelConn)
        (auto simp: relay_part_def relay_inner_def relay_io_defs wp_simps assms P tunnel_conn_typed dest: tunnel_conn_typed(1))
  next
    case False
    then have "(case rh_bypass H of None \<Rightarrow> False | Some contains \<Rightarrow> contains address) \<or>
      (\<not> ti_Equal T (case rh_ingress H of None \<Rightarrow> ti_zero T | Some get \<Rightarrow> parseTunnelID T (get (host_of address))) tid \<and>
        \<not> rh_directTunnel H)"
      by (auto simp: relay_bypassed_def relay_routed_def)
    then show ?thesis
      by (auto simp: relay_handleConnectTunnel_def hp relay_io_defs relay_part_def relay_inner_def wp_simps assms(1))
  qed
qed

lemma relay_handleBind_part:
  assumes "\<And>m ok. P (Reply m ok)"
    and "\<And>ok. rh_enableBind H \<Longrightarrow> P (Special (Listen network address ok))"
    and "P (Special CloseListener)" "P (Special CloseSession)" "P (Special ServeEntryPoint)"
    and "\<And>ok. P (Special (Upgrade ok))" "\<And>k. P (Special (RelayUDP k))"
  shows "traces (relay_handleBind K E H network address) (\<lambda>r new. relay_part P new \<and> relay_inner False r new)"
  by (rule tracesI)
   (use assms in \<open>auto simp: relay_handleBind_def relay_bindTCP_def relay_bindUDP_def relay_io_defs relay_part_def relay_inner_def
      wp_simps split: option.splits\<close>)

lemma relay_handleBindTunnel_part:
  assumes "\<And>m ok. P (Reply m ok)" and "\<And>c. P (Special (AddConnector (ti_String T tid) c))"
    and "\<And>ok. P (Special (NewUUID ok))" "\<And>ok. P (Special (Upgrade ok))"
  shows "traces (relay_handleBindTunnel K T E H network tid)
    (\<lambda>r new. relay_part P new \<and> dials new = [] \<and>
      (r = None \<longrightarrow> (\<exists>c. Special (AddConnector (ti_String T tid) c) \<in> set new)))"
  by (rule tracesI)
   (auto simp: relay_handleBindTunnel_def relay_io_defs relay_part_def Let_def wp_simps assms
     split: option.splits)

section \<open>What a request permits\<close>

definition relay_network :: "relay_pkg \<Rightarrow> byte \<Rightarrow> string" where
  "relay_network K cmd = (if cmd AND rk_FUDP K = rk_FUDP K then ''udp'' else ''tcp'')"

definition relay_is_connect :: "relay_pkg \<Rightarrow> byte \<Rightarrow> bool" where
  "relay_is_connect K cmd \<longleftrightarrow> cmd AND rk_CmdMask K = 0 \<or> cmd AND rk_CmdMask K = rk_CmdConnect K"

text \<open>
  The events a request permits: without a hop, a connection only to the requested address, when it
  is given and not bypassed, or into the requested tunnel, when it is routed there, a port bound
  only when that is enabled, and a connector added only to the requested tunnel.
\<close>

definition relay_permits ::
    "relay_pkg \<Rightarrow> ('tid, 'cid) tunnel_ids \<Rightarrow> relay_handler \<Rightarrow> (string \<Rightarrow> 'cid connector list) \<Rightarrow> byte \<Rightarrow> 'tid request_data \<Rightarrow>
     (relay_request, relay_resp, 'cid relay_special) event \<Rightarrow> bool"
where
  "relay_permits K T H connectors cmd d e =
     (let tunnelled = (\<not> rh_hop H \<and> relay_is_connect K cmd \<and> \<not> ti_IsZero T (rd_tunnelID d) \<and>
        \<not> relay_bypassed H (rd_address d) \<and> relay_routed T H (rd_address d) (rd_tunnelID d));
          bind = (\<not> rh_hop H \<and> \<not> relay_is_connect K cmd \<and> cmd AND rk_CmdMask K = rk_CmdBind K)
      in case e of
        Dial h n a ok \<Rightarrow> n = relay_network K cmd \<and>
          (rh_hop H \<or> relay_is_connect K cmd \<and> ti_IsZero T (rd_tunnelID d) \<and>
             a = rd_address d \<and> a \<noteq> [] \<and> \<not> relay_bypassed H a)
      | SendUp m ok \<Rightarrow> tunnelled
      | Special (GetConn s ok) \<Rightarrow> tunnelled \<and>
          (\<exists>c. reachable_connector T connectors (relay_network K cmd) (rd_tunnelID d) c \<and> co_s c = s)
      | Special (Listen n a ok) \<Rightarrow> bind \<and> rh_enableBind H \<and> ti_IsZero T (rd_tunnelID d) \<and>
          n = relay_network K cmd \<and> a = rd_address d
      | Special (AddConnector s c) \<Rightarrow> bind \<and> \<not> ti_IsZero T (rd_tunnelID d) \<and> s = ti_String T (rd_tunnelID d)
      | Allow h ok \<Rightarrow> False
      | _ \<Rightarrow> True)"

definition relay_done :: "relay_handler \<Rightarrow> relay_err option \<Rightarrow> (relay_request, relay_resp, 'cid relay_special) event list \<Rightarrow> bool" where
  "relay_done H r new \<longleftrightarrow>
     (rh_hop H \<longrightarrow> (\<forall>(n, a)\<in>set (dials new). Special (SelectTarget (Some a)) \<in> set new)) \<and>
     (r = None \<longrightarrow> CloseClient \<in> set new \<or> (\<exists>s c. Special (AddConnector s c) \<in> set new)) \<and>
     (\<forall>h n a. Dial h n a False \<in> set new \<longrightarrow> r \<noteq> None \<and> filter (\<lambda>e. e = CloseClient) new = [CloseClient])"

lemma relay_part_closing:
  assumes "wp m (\<lambda>r h. \<exists>new. snd h = es @ new \<and> relay_part P new \<and> relay_inner (rh_hop H) r new) (p, es)"
    and "P CloseClient"
  shows "wp (deferring (emit CloseClient) m) (\<lambda>r h. \<exists>new. snd h = es @ new \<and> relay_part P new \<and> relay_done H r new) (p, es)"
proof -
  have step: "wp (emit CloseClient) (\<lambda>_ h. \<exists>new. snd h = es @ new \<and> relay_part P new \<and> relay_done H r new) h"
    if "\<exists>new. snd h = es @ new \<and> relay_part P new \<and> relay_inner (rh_hop H) r new" for r h
    using that assms(2) by (cases h) (auto simp: wp_simps relay_part_def relay_done_def relay_inner_def filter_empty_conv)
  show ?thesis unfolding wp_deferring by (rule wp_mono [OF assms(1)]) (rule step)
qed

lemma relay_dial_elem: "Dial h n a ok \<in> set es \<Longrightarrow> (n, a) \<in> set (dials es)"
  by (force simp: dials_def)

lemma relay_dispatch_part:
  fixes T :: "('tid, 'cid) tunnel_ids"
  shows "wp (relay_dispatch K T E H remote cmd d)
    (\<lambda>r h. \<exists>new. snd h = es @ new \<and> relay_part (relay_permits K T H (pool_connectors p) cmd d) new \<and> relay_done H r new)
    (p, es)"
proof -
  let ?P = "relay_permits K T H (pool_connectors p) cmd d"
  have any: "?P (Reply m ok)" "?P MarkTarget" "?P ResetTarget" "?P CloseUp" "?P CloseClient" "?P (Transport u ms)"
    "?P (Special (SelectTarget t))" "?P (Special (NewUUID ok))" "?P (Special (Upgrade ok))" "?P (Special CloseListener)"
    "?P (Special CloseSession)" "?P (Special ServeEntryPoint)" "?P (Special (RelayUDP k))" for m ok u ms t k
    by (simp_all add: relay_permits_def)
  consider (hop) "rh_hop H"
    | (tunnel) "\<not> rh_hop H" "relay_is_connect K cmd" "\<not> ti_IsZero T (rd_tunnelID d)"
    | (connect) "\<not> rh_hop H" "relay_is_connect K cmd" "ti_IsZero T (rd_tunnelID d)"
    | (bind) "\<not> rh_hop H" "\<not> relay_is_connect K cmd" "cmd AND rk_CmdMask K = rk_CmdBind K"
    | (unknown) "\<not> rh_hop H" "\<not> relay_is_connect K cmd" "cmd AND rk_CmdMask K \<noteq> rk_CmdBind K"
    by blast
  then show ?thesis
  proof cases
    case hop
    then have eq: "relay_dispatch K T E H remote cmd d =
        deferring (emit CloseClient) (relay_handleForward K E H (relay_network K cmd))"
      by (simp add: relay_dispatch_def relay_network_def Let_def)
    show ?thesis unfolding eq
      by (rule relay_part_closing, rule traces_use, rule relay_handleForward_part [where P = ?P])
        (auto simp: any relay_permits_def hop)
  next
    case tunnel
    then have eq: "relay_dispatch K T E H remote cmd d = deferring (emit CloseClient)
        (relay_handleConnectTunnel K T E H remote (relay_network K cmd) (rd_address d) (rd_tunnelID d))"
      by (auto simp: relay_dispatch_def relay_network_def relay_is_connect_def Let_def)
    have "?P (SendUp m ok)" "reachable_connector T (pool_connectors p) (relay_network K cmd) (rd_tunnelID d) c \<Longrightarrow> ?P (Special (GetConn (co_s c) ok))"
      if "\<not> relay_bypassed H (rd_address d)" "relay_routed T H (rd_address d) (rd_tunnelID d)" for m ok c
      using that tunnel by (auto simp: relay_permits_def)
    then show ?thesis unfolding eq
      by (intro relay_part_closing wp_mono [OF relay_handleConnectTunnel_part [where P = ?P]])
        (auto simp: any tunnel)
  next
    case connect
    then have eq: "relay_dispatch K T E H remote cmd d = deferring (emit CloseClient)
        (relay_handleConnect K E H (relay_network K cmd) (rd_address d))"
      by (auto simp: relay_dispatch_def relay_network_def relay_is_connect_def Let_def)
    show ?thesis unfolding eq
      by (rule relay_part_closing, rule traces_use, rule relay_handleConnect_part [where P = ?P])
        (auto simp: any relay_permits_def connect)
  next
    case bind
    show ?thesis
    proof (cases "ti_IsZero T (rd_tunnelID d)")
      case True
      with bind have eq: "relay_dispatch K T E H remote cmd d = deferring (emit CloseClient)
          (relay_handleBind K E H (relay_network K cmd) (rd_address d))"
        by (auto simp: relay_dispatch_def relay_network_def relay_is_connect_def Let_def)
      show ?thesis unfolding eq
        by (rule relay_part_closing, rule traces_use, rule relay_handleBind_part [where P = ?P])
          (auto simp: any relay_permits_def bind True)
    next
      case False
      with bind have eq: "relay_dispatch K T E H remote cmd d =
          relay_handleBindTunnel K T E H (relay_network K cmd) (rd_tunnelID d)"
        by (auto simp: relay_dispatch_def relay_network_def relay_is_connect_def Let_def)
      show ?thesis unfolding eq
        by (rule traces_use, rule relay_handleBindTunnel_part [where P = ?P])
          (auto simp: any relay_permits_def relay_done_def bind False dest: relay_dial_elem)
    qed
  next
    case unknown
    then have "relay_dispatch K T E H remote cmd d = relay_fail K E (rk_StatusBadRequest K) ErrUnknownCmd"
      by (auto simp: relay_dispatch_def relay_network_def relay_is_connect_def Let_def)
    then show ?thesis
      by (auto simp: relay_io_defs wp_simps relay_part_def relay_done_def any)
  qed
qed

section \<open>A session\<close>

definition relay_authorized :: "relay_handler \<Rightarrow> 'tid request_data \<Rightarrow> bool" where
  "relay_authorized H d =
     (case rh_auther H of None \<Rightarrow> True | Some auth \<Rightarrow> auth (rd_user d) (rd_pass d))"

text \<open>What the server has checked of the request \<open>req\<close> when it serves the event \<open>e\<close>.\<close>

definition relay_checked ::
    "relay_pkg \<Rightarrow> ('tid, 'cid) tunnel_ids \<Rightarrow> relay_handler \<Rightarrow> ('tid, 'cid) connector_pool \<Rightarrow> string \<Rightarrow>
     (relay_request, relay_resp, 'cid relay_special) event list \<Rightarrow> (relay_request, relay_resp, 'cid relay_special) event \<Rightarrow> bool"
where
  "relay_checked K T H p remote es e \<longleftrightarrow>
     Allow (host_of remote) False \<notin> set es \<and>
     (\<exists>req. ReadRequest (Some req) \<in> set es \<and> rq_version req = rk_Version1 K \<and>
       (let d = relay_features T (rq_features req)
        in relay_authorized H d \<and>
           relay_permits K T H (pool_connectors p) (rq_cmd req) d e) \<and>
       (case e of Dial h n a ok \<Rightarrow> rh_hop H \<longrightarrow> Special (SelectTarget (Some a)) \<in> set es | _ \<Rightarrow> True))"

definition relay_session ::
    "relay_pkg \<Rightarrow> ('tid, 'cid) tunnel_ids \<Rightarrow> relay_handler \<Rightarrow> ('tid, 'cid) connector_pool \<Rightarrow> string \<Rightarrow> relay_err option \<Rightarrow>
     (relay_request, relay_resp, 'cid relay_special) event list \<Rightarrow> bool"
where
  "relay_session K T H p remote r es \<longleftrightarrow>
     (\<forall>e\<in>set es. relay_serves e \<longrightarrow> relay_checked K T H p remote es e) \<and>
     relay_typed False es \<and> length (replies es) \<le> 1 \<and>
     (\<forall>h n a. Dial h n a False \<in> set es \<longrightarrow> filter (\<lambda>e. e = CloseClient) es = [CloseClient, CloseClient]) \<and>
     (CloseClient \<in> set es \<or> r = None \<and> (\<exists>s c. Special (AddConnector s c) \<in> set es))"

lemma relay_part_elem: "relay_part P new \<Longrightarrow> e \<in> set new \<Longrightarrow> P e"
  by (simp add: relay_part_def list_all_iff)

lemma relay_serves_simps [simp]:
  "\<not> relay_serves (Allow h ok)" "\<not> relay_serves (Deadline b)" "\<not> relay_serves (ReadRequest q)"
  "\<not> relay_serves (Reply m ok)" "\<not> relay_serves CloseClient"
  by (simp_all add: relay_serves_def)

text \<open>The events before the request is known, and after.\<close>

lemma relay_session_refused:
  assumes "\<forall>e\<in>set es. \<not> relay_serves e" "relay_typed False (es @ [CloseClient])" "length (replies es) \<le> 1"
  shows "relay_session K T H p remote (Some err) (es @ [CloseClient])"
  using assms by (auto simp: relay_session_def relay_serves_def)

lemma relay_session_served:
  fixes T :: "('tid, 'cid) tunnel_ids"
  assumes pre: "\<forall>e\<in>set pre. \<not> relay_serves e" "\<And>rest. relay_typed False (pre @ rest) = relay_typed False rest"
      "replies pre = []" "Allow (host_of remote) False \<notin> set pre" "ReadRequest (Some req) \<in> set pre"
      "CloseClient \<notin> set pre"
    and req: "rq_version req = rk_Version1 K" "d = relay_features T (rq_features req)"
      "relay_authorized H d"
    and new: "relay_part (relay_permits K T H (pool_connectors p) (rq_cmd req) d) new"
      "relay_done H r new"
  shows "relay_session K T H p remote r (pre @ new @ (if r = None then [] else [CloseClient]))"
proof -
  let ?es = "pre @ new @ (if r = None then [] else [CloseClient])"
  have allow: "Allow h ok \<notin> set new" for h ok
    using relay_part_elem [OF new(1), of "Allow h ok"] by (auto simp: relay_permits_def Let_def)
  have "relay_checked K T H p remote ?es e" if "e \<in> set ?es" "relay_serves e" for e
  proof -
    from that pre(1) have e: "e \<in> set new" by (auto split: if_splits)
    with new(2) have "case e of Dial h n a ok \<Rightarrow> rh_hop H \<longrightarrow> Special (SelectTarget (Some a)) \<in> set new | _ \<Rightarrow> True"
      by (auto simp: relay_done_def dest: relay_dial_elem split: event.splits)
    then have *: "case e of Dial h n a ok \<Rightarrow> rh_hop H \<longrightarrow> Special (SelectTarget (Some a)) \<in> set ?es | _ \<Rightarrow> True"
      by (auto split: event.splits)
    then show ?thesis
      unfolding relay_checked_def Let_def
      using pre req allow *  relay_part_elem [OF new(1) e] by (intro conjI exI [of _ req]) auto
  qed
  moreover have "relay_typed False ?es" "length (replies ?es) \<le> 1"
    using new(1) pre(3) by (auto simp: relay_part_def pre(2))
  moreover have "CloseClient \<in> set ?es \<or> r = None \<and> (\<exists>s c. Special (AddConnector s c) \<in> set ?es)"
    using new(2) by (auto simp: relay_done_def)
  moreover have "filter (\<lambda>e. e = CloseClient) ?es = [CloseClient, CloseClient]" if "Dial h n a False \<in> set ?es" for h n a
  proof -
    from that pre(1) have "Dial h n a False \<in> set new" by (auto simp: relay_serves_def split: if_splits)
    with new(2) have "r \<noteq> None" "filter (\<lambda>e. e = CloseClient) new = [CloseClient]" by (auto simp: relay_done_def)
    then show ?thesis using pre(6) by (auto simp: filter_empty_conv)
  qed
  ultimately show ?thesis by (simp add: relay_session_def)
qed

lemma relay_Handle_session:
  "wp (relay_Handle K T E H remote) (\<lambda>r h. relay_session K T H p remote r (snd h)) (p, [])"
proof -
  define ok where "ok = (case rh_limiter H of Some has \<Rightarrow> has (host_of remote) \<longrightarrow> rw_allow E (p, []) | None \<Rightarrow> True)"
  define es0 :: "(relay_request, relay_resp, 'b relay_special) event list" where
    "es0 = rate_allowed (rh_limiter H) remote ok @ (if rh_readTimeout H > 0 then [Deadline True] else [])"
  define q where "q = rw_request E (p, es0)"
  have rate: "\<forall>e\<in>set (rate_allowed (rh_limiter H) remote ok). \<not> relay_serves (e :: (relay_request, relay_resp, 'b relay_special) event)"
    "\<forall>e\<in>set es0. \<not> relay_serves e" "ok \<Longrightarrow> Allow (host_of remote) False \<notin> set es0"
    "replies es0 = []" "CloseClient \<notin> set es0" "relay_typed False (es0 @ rest) = relay_typed False rest" for rest
    by (auto simp: rate_allowed_def es0_def split: option.splits if_splits)
  have open_q: "rh_readTimeout H > 0 \<Longrightarrow> rw_request E (p, rate_allowed (rh_limiter H) remote ok @ [Deadline True]) = q"
    "\<not> rh_readTimeout H > 0 \<Longrightarrow> rw_request E (p, rate_allowed (rh_limiter H) remote ok) = q"
    by (simp_all add: q_def es0_def)
  have auth: "(case rh_auther H of None \<Rightarrow> False | Some auth \<Rightarrow> \<not> auth (rd_user d) (rd_pass d)) = (\<not> relay_authorized H d)"
    for d :: "'a request_data"
    by (auto simp: relay_authorized_def split: option.split)
  note handle = relay_Handle_def wp_simps Let_def ok_def [symmetric] auth
  consider (refused) "\<not> ok" | (unread) "ok" "q = None"
    | (bad) req where "ok" "q = Some req" "rq_version req \<noteq> rk_Version1 K \<or> \<not> relay_authorized H (relay_features T (rq_features req))"
    | (good) req where "ok" "q = Some req" "rq_version req = rk_Version1 K" "relay_authorized H (relay_features T (rq_features req))"
    by blast
  then show ?thesis
  proof cases
    case good
    let ?d = "relay_features T (rq_features req)"
    let ?pre = "es0 @ [ReadRequest (Some req), Deadline False]"
    have "relay_session K T H p remote r (?pre @ new @ (if r = None then [] else [CloseClient]))"
      if "relay_part (relay_permits K T H (pool_connectors p) (rq_cmd req) ?d) new" "relay_done H r new" for r new
      by (rule relay_session_served) (use good rate that in auto)
    then have "wp (relay_dispatch K T E H remote (rq_cmd req) ?d)
        (\<lambda>r h. (r \<noteq> None \<longrightarrow> wp (emit CloseClient) (\<lambda>_ h. relay_session K T H p remote r (snd h)) h) \<and>
          (r = None \<longrightarrow> relay_session K T H p remote r (snd h))) (p, ?pre)"
      by (intro wp_mono [OF relay_dispatch_part]) (fastforce simp: wp_simps)
    then show ?thesis
      using good open_q by (cases "rh_readTimeout H > 0") (simp_all add: handle es0_def)
  next
    case refused
    have "relay_session K T H p remote (Some err) (rate_allowed (rh_limiter H) remote ok @ [CloseClient])" for err
      by (rule relay_session_refused) (use rate in auto)
    with refused show ?thesis by (simp add: handle)
  next
    case unread
    have "relay_session K T H p remote (Some err) ((es0 @ [ReadRequest None]) @ [CloseClient])" for err
      by (rule relay_session_refused) (use rate in auto)
    then show ?thesis
      using unread open_q by (cases "rh_readTimeout H > 0") (simp_all add: handle es0_def)
  next
    case bad
    have "relay_session K T H p remote (Some err) ((es0 @ [ReadRequest (Some req), Deadline False, Reply m b]) @ [CloseClient])" for err m b
      by (rule relay_session_refused) (use rate in auto)
    then show ?thesis
      using bad open_q by (cases "rh_readTimeout H > 0") (auto simp: handle es0_def relay_io_defs)
  qed
qed

definition demo_ids :: "(byte list, byte list) tunnel_ids" where
  "demo_ids = \<lparr>ti_zero = [], ti_New = id, ti_NewPrivate = id, ti_IsZero = (\<lambda>t. t = []), ti_IsPrivate = (\<lambda>_. False),
     ti_Equal = (=), ti_String = (\<lambda>t. map (\<lambda>b. char_of (unat b)) t), ti_uuid = (\<lambda>s. map (\<lambda>c. of_nat (of_char c)) s),
     ci_New = id, ci_NewUDP = id, ci_IsUDP = (\<lambda>_. False), ci_ID = id\<rparr>"

text \<open>A world in which a client asks for an address, and every operation succeeds but a dial perhaps.\<close>

definition demo_relay_world :: "relay_request \<Rightarrow> bool \<Rightarrow> (byte list, byte list) relay_world" where
  "demo_relay_world req dial =
     \<lparr>rw_allow = (\<lambda>_. True), rw_request = (\<lambda>_. Some req), rw_write = (\<lambda>_. True), rw_dial = (\<lambda>_. dial),
      rw_select = (\<lambda>_. None), rw_getconn = (\<lambda>_ _. True), rw_uuid = (\<lambda>_. None), rw_listen = (\<lambda>_. None),
      rw_session = (\<lambda>_. None), rw_serve = (\<lambda>_. True)\<rparr>"

definition demo_relay_handler :: relay_handler where
  "demo_relay_handler =
     \<lparr>rh_limiter = None, rh_auther = Some (\<lambda>u p. u = ''u'' \<and> p = ''p''), rh_bypass = Some (\<lambda>a. False), rh_hop = False,
      rh_readTimeout = 0, rh_enableBind = False, rh_udpBufferSize = 4096, rh_noDelay = False, rh_hash = [],
      rh_ingress = None, rh_directTunnel = False, rh_ep = None\<rparr>"

definition demo_relay_request :: relay_request where
  "demo_relay_request =
     \<lparr>rq_version = 1, rq_cmd = 1, rq_features = [UserAuthFeature ''u'' ''p'', AddrFeature ''10.0.0.1'' 80]\<rparr>"

text \<open>
  C6. A relay server serves only what it was asked for and may: whenever a session dials, asks a
  tunnel for a stream, listens, adds a connector or relays, the rate limiter refused nothing, a
  request of version 1 was read whose user is authenticated, and the request permits it: with a
  hop, the address dialled is that of the selected node; otherwise it is the requested one, given
  and not bypassed; a stream comes from a connector bound under the requested tunnel, to which
  the ingress maps the requested host; and a port is bound only when that is enabled.
\<close>

theorem relay_serves_only_permitted:
  assumes "e \<in> set (io_trace (relay_Handle K T E H remote) p)" and "relay_serves e"
  shows "relay_checked K T H p remote (io_trace (relay_Handle K T E H remote) p) e"
  using io_trace_wp [OF relay_Handle_session [of K T E H remote p]] assms by (simp add: relay_session_def)

lemma demo_relay_trace:
  "io_trace (relay_Handle demo_relay demo_ids (demo_relay_world demo_relay_request True) demo_relay_handler ''10.0.0.2:9'') Map.empty =
     [ReadRequest (Some demo_relay_request), Deadline False, Dial None ''tcp'' ''10.0.0.1:80'' True,
      Transport False [Response 1 0 []], CloseUp, CloseClient]"
  by code_simp

lemma demo_relay_failed:
  "io_trace (relay_Handle demo_relay demo_ids (demo_relay_world demo_relay_request False) demo_relay_handler ''10.0.0.2:9'') Map.empty =
     [ReadRequest (Some demo_relay_request), Deadline False, Dial None ''tcp'' ''10.0.0.1:80'' False,
      Reply (Response 1 8 []) True, CloseClient, CloseClient]"
  by code_simp

theorem relay_serves_only_permitted_witness:
  "relay_checked demo_relay demo_ids demo_relay_handler Map.empty ''10.0.0.2:9''
     [ReadRequest (Some demo_relay_request), Deadline False, Dial None ''tcp'' ''10.0.0.1:80'' True,
      Transport False [Response 1 0 []], CloseUp, CloseClient] (Dial None ''tcp'' ''10.0.0.1:80'' True)"
  using relay_serves_only_permitted [of "Dial None ''tcp'' ''10.0.0.1:80'' True" demo_relay demo_ids
      "demo_relay_world demo_relay_request True" demo_relay_handler "''10.0.0.2:9''" Map.empty]
  by (simp add: demo_relay_trace relay_serves_def)

text \<open>
  C14. Every session of a relay server is well formed: a connection to a target is opened only when
  none is open, used only while it is, and closed before the handler returns; at most one
  response is sent or left to go with the first data; and the client is closed, unless it became
  a connector of a tunnel.
\<close>

theorem relay_session_typed:
  "relay_typed False (io_trace (relay_Handle K T E H remote) p) \<and>
   length (replies (io_trace (relay_Handle K T E H remote) p)) \<le> 1 \<and>
   (CloseClient \<in> set (io_trace (relay_Handle K T E H remote) p) \<or>
    io_result (relay_Handle K T E H remote) p = None \<and>
    (\<exists>s c. Special (AddConnector s c) \<in> set (io_trace (relay_Handle K T E H remote) p)))"
  using io_trace_wp [OF relay_Handle_session [of K T E H remote p]] by (simp add: relay_session_def)

text \<open>A dial that fails closes the client twice: by the deferred close, and for the error.\<close>

lemma relay_failed_dial_closes_twice:
  assumes "Dial h n a False \<in> set (io_trace (relay_Handle K T E H remote) p)"
  shows "filter (\<lambda>e. e = CloseClient) (io_trace (relay_Handle K T E H remote) p) = [CloseClient, CloseClient]"
  using io_trace_wp [OF relay_Handle_session [of K T E H remote p]] assms by (auto simp: relay_session_def)

end
