(* ===== verification/RelayConnector.thy ===== *)
theory RelayConnector
  imports RelayHandler
begin

text \<open>
  The relay connector (\<open>connector/relay/connector.go\<close>, \<open>bind.go\<close>, \<open>listener.go\<close>): the request for a
  connection or for a bound port, with the user, the address and the tunnel, and what becomes of the
  connection to the relay server.  Messages are those of \<open>RelayHandler\<close>, which serves them, and the connections
  those of \<open>RelayConn\<close>.
\<close>

unbundle bit_operations_syntax

section \<open>The connector\<close>

text \<open>
  \<open>rc_tunnelID\<close> is the identifier of the tunnel as bytes, when it is not zero.  \<open>parse\<close> is the \<open>ParseFrom\<close> of an
  address feature; a feature it fails on is the empty one.
\<close>

record relay_connector =
  rc_auth :: "(string \<times> string) option"
  rc_connectTimeout :: int
  rc_noDelay :: bool
  rc_tunnelID :: "byte list option"

type_synonym addr_parser = "string \<Rightarrow> (string \<times> uint16) option"

text \<open>A response that is read: version, status, and its features, those of a request.\<close>

datatype relay_answer = Answer byte byte "req_feature list"

datatype relay_conn_event =
    RcDeadline bool
  | RcSend relay_request bool
  | RcRead "relay_answer option"
  | RcSession bool
  | RcStream bool
  | RcPeer "relay_answer option"
  | RcCloseStream

type_synonym rc_history = "(unit, relay_conn_event) history"
type_synonym 'a rc_io = "(unit, relay_conn_event, 'a) io"

text \<open>The oracles: a write, a response, the upgrade to a session, a stream of it, and the resolution of an address.\<close>

record rc_world =
  cw_write :: "rc_history \<Rightarrow> bool"
  cw_response :: "rc_history \<Rightarrow> relay_answer option"
  cw_session :: "rc_history \<Rightarrow> bool"
  cw_accept :: "rc_history \<Rightarrow> bool"
  cw_resolve :: "string \<Rightarrow> string \<Rightarrow> string option"

datatype rc_err = RcIO | RcBadVersion | RcStatus byte | RcParse | RcNetwork | RcResolve | RcMux

text \<open>
  What the caller gets: a connection for streams or for datagrams, with the request it sends along with the
  first bytes, or a tunnel for datagrams.
\<close>

datatype rc_conn = RcTCP "relay_request option" | RcUDP "relay_request option" | RcTunnel

definition rc_user_features :: "relay_connector \<Rightarrow> req_feature list" where
  "rc_user_features C = (case rc_auth C of None \<Rightarrow> [] | Some (user, pwd) \<Rightarrow> [UserAuthFeature user pwd])"

section \<open>Bound ports\<close>

definition rc_bind_request :: "relay_pkg \<Rightarrow> addr_parser \<Rightarrow> relay_connector \<Rightarrow> byte \<Rightarrow> string \<Rightarrow> relay_request" where
  "rc_bind_request K parse C cmd address =
     \<lparr>rq_version = rk_Version1 K, rq_cmd = cmd,
      rq_features = rc_user_features C @
        [case parse address of None \<Rightarrow> AddrFeature [] 0 | Some (host, port) \<Rightarrow> AddrFeature host port]\<rparr>"

text \<open>The last address among features.\<close>

definition rc_address :: "req_feature list \<Rightarrow> string" where
  "rc_address fs =
     fold (\<lambda>f a. case f of AddrFeature host port \<Rightarrow> join_host_port host (dec_string (unat port)) | _ \<Rightarrow> a) fs []"

definition rc_bind ::
    "relay_pkg \<Rightarrow> addr_parser \<Rightarrow> rc_world \<Rightarrow> relay_connector \<Rightarrow> byte \<Rightarrow> string \<Rightarrow> string \<Rightarrow> (rc_err + string) rc_io"
where
  "rc_bind K parse E C cmd network address = do {
     ok \<leftarrow> ask (cw_write E) (RcSend (rc_bind_request K parse C cmd address));
     if \<not> ok then return (Inl RcIO)
     else do {
       resp \<leftarrow> ask (cw_response E) RcRead;
       return (case resp of
         None \<Rightarrow> Inl RcIO
       | Some (Answer version status fs) \<Rightarrow>
           if status \<noteq> rk_StatusOK K then Inl (RcStatus status)
           else if tcp_network network \<or> udp_network network
           then (case cw_resolve E network (rc_address fs) of None \<Rightarrow> Inl RcResolve | Some a \<Rightarrow> Inr a)
           else Inl RcNetwork)
     }
   }"

definition rc_tunnel_request :: "relay_pkg \<Rightarrow> relay_connector \<Rightarrow> byte list \<Rightarrow> string \<Rightarrow> relay_request" where
  "rc_tunnel_request K C tid network =
     \<lparr>rq_version = rk_Version1 K,
      rq_cmd = (if network = ''udp'' then rk_CmdBind K OR rk_FUDP K else rk_CmdBind K),
      rq_features = rc_user_features C @ [TunnelFeature tid]\<rparr>"

text \<open>
  The address and the identifier of the connector in the answer; an address that does not resolve is an error,
  unless a later one resolves.
\<close>

definition rc_tunnel_answer ::
    "rc_world \<Rightarrow> req_feature list \<Rightarrow> (bool \<times> string option) \<times> byte list option"
where
  "rc_tunnel_answer E fs =
     fold (\<lambda>f (a, cid). case f of
         AddrFeature host port \<Rightarrow>
           (case cw_resolve E ''tcp'' (join_host_port host (dec_string (unat port))) of
              None \<Rightarrow> ((True, None), cid) | Some s \<Rightarrow> ((False, Some s), cid))
       | TunnelFeature bs \<Rightarrow> (a, Some bs)
       | _ \<Rightarrow> (a, cid)) fs ((False, None), None)"

definition rc_initTunnel ::
    "relay_pkg \<Rightarrow> rc_world \<Rightarrow> relay_connector \<Rightarrow> byte list \<Rightarrow> string \<Rightarrow> (rc_err + string option \<times> byte list option) rc_io"
where
  "rc_initTunnel K E C tid network = do {
     ok \<leftarrow> ask (cw_write E) (RcSend (rc_tunnel_request K C tid network));
     if \<not> ok then return (Inl RcIO)
     else do {
       resp \<leftarrow> ask (cw_response E) RcRead;
       return (case resp of
         None \<Rightarrow> Inl RcIO
       | Some (Answer version status fs) \<Rightarrow>
           if status \<noteq> rk_StatusOK K then Inl (RcStatus status)
           else (case rc_tunnel_answer E fs of ((failed, addr), cid) \<Rightarrow> if failed then Inl RcResolve else Inr (addr, cid)))
     }
   }"

text \<open>A listener: its network, its address, and whether its peers come in streams of a session.\<close>

record rc_listener =
  rl_network :: string
  rl_addr :: "string option"
  rl_mux :: bool

definition rc_bindTunnel ::
    "relay_pkg \<Rightarrow> rc_world \<Rightarrow> relay_connector \<Rightarrow> byte list \<Rightarrow> string \<Rightarrow> (rc_err + rc_listener) rc_io"
where
  "rc_bindTunnel K E C tid network = do {
     r \<leftarrow> rc_initTunnel K E C tid network;
     case r of
       Inl e \<Rightarrow> return (Inl e)
     | Inr (addr, cid) \<Rightarrow> do {
         ok \<leftarrow> ask (cw_session E) RcSession;
         return (if ok then Inr \<lparr>rl_network = network, rl_addr = addr, rl_mux = True\<rparr> else Inl RcMux)
       }
   }"

definition rc_bindTCP ::
    "relay_pkg \<Rightarrow> addr_parser \<Rightarrow> rc_world \<Rightarrow> relay_connector \<Rightarrow> string \<Rightarrow> string \<Rightarrow> (rc_err + rc_listener) rc_io"
where
  "rc_bindTCP K parse E C network address = do {
     r \<leftarrow> rc_bind K parse E C (rk_CmdBind K) network address;
     case r of
       Inl e \<Rightarrow> return (Inl e)
     | Inr laddr \<Rightarrow> do {
         ok \<leftarrow> ask (cw_session E) RcSession;
         return (if ok then Inr \<lparr>rl_network = [], rl_addr = Some laddr, rl_mux = True\<rparr> else Inl RcMux)
       }
   }"

definition rc_bindUDP ::
    "relay_pkg \<Rightarrow> addr_parser \<Rightarrow> rc_world \<Rightarrow> relay_connector \<Rightarrow> string \<Rightarrow> string \<Rightarrow> (rc_err + rc_listener) rc_io"
where
  "rc_bindUDP K parse E C network address = do {
     r \<leftarrow> rc_bind K parse E C (rk_FUDP K OR rk_CmdBind K) network address;
     return (case r of Inl e \<Rightarrow> Inl e | Inr laddr \<Rightarrow> Inr \<lparr>rl_network = network, rl_addr = Some laddr, rl_mux = False\<rparr>)
   }"

definition rc_Bind ::
    "relay_pkg \<Rightarrow> addr_parser \<Rightarrow> rc_world \<Rightarrow> relay_connector \<Rightarrow> string \<Rightarrow> string \<Rightarrow> (rc_err + rc_listener) rc_io"
where
  "rc_Bind K parse E C network address =
     (case rc_tunnelID C of
        Some tid \<Rightarrow> rc_bindTunnel K E C tid network
      | None \<Rightarrow>
          if tcp_network network then rc_bindTCP K parse E C network address
          else if udp_network network then rc_bindUDP K parse E C network address
          else return (Inl RcNetwork))"

text \<open>
  A peer of a bound port: its address, the host it asks for, and whether it brings datagrams.  With more than two
  addresses the host is the last.
\<close>

record rc_peer =
  rp_remote :: string
  rp_host :: string
  rp_udp :: bool

definition rc_peer_addresses :: "req_feature list \<Rightarrow> string \<times> string" where
  "rc_peer_addresses fs =
     fold (\<lambda>f (address, host). case f of
         AddrFeature h port \<Rightarrow>
           (let v = join_host_port h (dec_string (unat port)) in if address \<noteq> [] then (address, v) else (v, host))
       | _ \<Rightarrow> (address, host)) fs ([], [])"

definition rc_getPeerConn :: "relay_pkg \<Rightarrow> rc_world \<Rightarrow> rc_listener \<Rightarrow> (rc_err + rc_peer) rc_io" where
  "rc_getPeerConn K E l = do {
     resp \<leftarrow> ask (cw_response E) RcPeer;
     return (case resp of
       None \<Rightarrow> Inl RcIO
     | Some (Answer version status fs) \<Rightarrow>
         if status \<noteq> rk_StatusOK K then Inl (RcStatus status)
         else (case rc_peer_addresses fs of
           (address, host) \<Rightarrow>
             (case cw_resolve E ''tcp'' address of
                None \<Rightarrow> Inl RcResolve
              | Some raddr \<Rightarrow> Inr \<lparr>rp_remote = raddr, rp_host = host, rp_udp = (rl_network l = ''udp'')\<rparr>)))
   }"

definition rc_Accept :: "relay_pkg \<Rightarrow> rc_world \<Rightarrow> rc_listener \<Rightarrow> (rc_err + rc_peer) rc_io" where
  "rc_Accept K E l = do {
     ok \<leftarrow> ask (cw_accept E) RcStream;
     if \<not> ok then return (Inl RcMux)
     else do {
       r \<leftarrow> rc_getPeerConn K E l;
       case r of
         Inl e \<Rightarrow> do { emit RcCloseStream; return (Inl e) }
       | Inr p \<Rightarrow> return (Inr p)
     }
   }"

section \<open>Connections\<close>

text \<open>The request for an address; \<open>None\<close> when it cannot be parsed.\<close>

definition rc_connect_request ::
    "relay_pkg \<Rightarrow> addr_parser \<Rightarrow> relay_connector \<Rightarrow> string \<Rightarrow> string \<Rightarrow> relay_request option"
where
  "rc_connect_request K parse C network address =
     (let addr = (if address = [] then Some [] else map_option (\<lambda>(host, port). [AddrFeature host port]) (parse address))
      in case addr of
           None \<Rightarrow> None
         | Some fs \<Rightarrow>
             Some \<lparr>rq_version = rk_Version1 K,
               rq_cmd = (if udp_network network then rk_CmdConnect K OR rk_FUDP K else rk_CmdConnect K),
               rq_features = rc_user_features C @ fs @ (case rc_tunnelID C of None \<Rightarrow> [] | Some tid \<Rightarrow> [TunnelFeature tid])\<rparr>)"

text \<open>With no delay the request is sent, and the answer read, before the connection is made.\<close>

definition rc_send_now :: "relay_pkg \<Rightarrow> rc_world \<Rightarrow> relay_request \<Rightarrow> rc_err option rc_io" where
  "rc_send_now K E req = do {
     ok \<leftarrow> ask (cw_write E) (RcSend req);
     if \<not> ok then return (Some RcIO)
     else do {
       resp \<leftarrow> ask (cw_response E) RcRead;
       return (case resp of
         None \<Rightarrow> Some RcIO
       | Some (Answer version status fs) \<Rightarrow>
           if version \<noteq> rk_Version1 K then Some RcBadVersion
           else if status \<noteq> rk_StatusOK K then Some (RcStatus status)
           else None)
     }
   }"

definition rc_make_conn :: "relay_connector \<Rightarrow> string \<Rightarrow> relay_request \<Rightarrow> rc_err + rc_conn" where
  "rc_make_conn C network req =
     (let later = (if rc_noDelay C then None else Some req)
      in if tcp_network network then Inr (RcTCP later)
         else if udp_network network then Inr (RcUDP later)
         else Inl RcNetwork)"

definition rc_timed :: "relay_connector \<Rightarrow> 'a rc_io \<Rightarrow> 'a rc_io" where
  "rc_timed C m = (if rc_connectTimeout C > 0 then do { emit (RcDeadline True); deferring (emit (RcDeadline False)) m } else m)"

definition rc_Connect ::
    "relay_pkg \<Rightarrow> addr_parser \<Rightarrow> rc_world \<Rightarrow> relay_connector \<Rightarrow> string \<Rightarrow> string \<Rightarrow> (rc_err + rc_conn) rc_io"
where
  "rc_Connect K parse E C network address = rc_timed C
     (if udp_network network \<and> address = []
      then do {
        r \<leftarrow> rc_bind K parse E C (rk_FUDP K OR rk_CmdBind K) network address;
        return (case r of Inl e \<Rightarrow> Inl e | Inr _ \<Rightarrow> Inr RcTunnel)
      }
      else case rc_connect_request K parse C network address of
        None \<Rightarrow> return (Inl RcParse)
      | Some req \<Rightarrow> do {
          failed \<leftarrow> (if rc_noDelay C then rc_send_now K E req else return None);
          return (case failed of Some e \<Rightarrow> Inl e | None \<Rightarrow> rc_make_conn C network req)
        })"

section \<open>The server understands the connector\<close>

text \<open>What the codes of the package are for: commands under a mask, and the flag for datagrams outside of it.\<close>

definition relay_codes :: "relay_pkg \<Rightarrow> bool" where
  "relay_codes K \<longleftrightarrow>
     (\<forall>cmd\<in>{rk_CmdConnect K, rk_CmdBind K}.
        cmd AND rk_FUDP K \<noteq> rk_FUDP K \<and> cmd AND rk_CmdMask K = cmd \<and> (cmd OR rk_FUDP K) AND rk_CmdMask K = cmd) \<and>
     rk_CmdBind K \<noteq> 0 \<and> rk_CmdBind K \<noteq> rk_CmdConnect K"

lemma or_and_absorb: "(c OR f) AND f = f" "(f OR c) AND f = f" for c f :: byte
  by (auto simp: bit_eq_iff bit_and_iff bit_or_iff)

lemma rc_user_features_fold:
  "fold (relay_feature T) (rc_user_features C) d =
     (case rc_auth C of None \<Rightarrow> d | Some (u, p) \<Rightarrow> d\<lparr>rd_user := u, rd_pass := p\<rparr>)"
  by (simp add: rc_user_features_def relay_feature_def split: option.split)



definition demo_connector :: relay_connector where
  "demo_connector = \<lparr>rc_auth = Some (''u'', ''p''), rc_connectTimeout = 0, rc_noDelay = True, rc_tunnelID = Some [7]\<rparr>"

definition demo_parse :: addr_parser where
  "demo_parse address = (if address = ''a:80'' then Some (''a'', 80) else None)"

definition demo_connect_request :: relay_request where
  "demo_connect_request =
     \<lparr>rq_version = 1, rq_cmd = 0x81, rq_features = [UserAuthFeature ''u'' ''p'', AddrFeature ''a'' 80, TunnelFeature [7]]\<rparr>"

lemma demo_connector_facts:
  "relay_codes demo_relay"
  "rc_connect_request demo_relay demo_parse demo_connector ''udp'' ''a:80'' = Some demo_connect_request"
  "join_host_port ''a'' (dec_string (unat (80::uint16))) = ''a:80''"
  "ti_IsZero demo_ids (ti_zero demo_ids)" "\<not> ti_IsZero demo_ids (ti_New demo_ids [7])" "\<not> rh_hop demo_relay_handler"
  by code_simp+


text \<open>
  A relay server binds what the connector asks for: the connector's tunnel when it has one, for datagrams only
  if the network is called udp, or else the address, for either network.
\<close>

theorem relay_bind_request_served:
  assumes "relay_codes K" "ti_IsZero T (ti_zero T)" "\<not> ti_IsZero T (ti_New T tid)" "\<not> rh_hop H"
    and "parse address = Some (h, p)" "join_host_port h (dec_string (unat p)) = address"
  shows "relay_dispatch K T E H remote (rq_cmd (rc_tunnel_request K C tid network))
        (relay_features T (rq_features (rc_tunnel_request K C tid network))) =
      relay_handleBindTunnel K T E H (if network = ''udp'' then ''udp'' else ''tcp'') (ti_New T tid) \<and>
    relay_dispatch K T E H remote (rk_CmdBind K) (relay_features T (rq_features (rc_bind_request K parse C (rk_CmdBind K) address))) =
      deferring (emit CloseClient) (relay_handleBind K E H ''tcp'' address) \<and>
    relay_dispatch K T E H remote (rk_FUDP K OR rk_CmdBind K)
        (relay_features T (rq_features (rc_bind_request K parse C (rk_FUDP K OR rk_CmdBind K) address))) =
      deferring (emit CloseClient) (relay_handleBind K E H ''udp'' address)"
proof -
  have cmd: "rk_CmdBind K AND rk_FUDP K \<noteq> rk_FUDP K" "rk_CmdBind K AND rk_CmdMask K = rk_CmdBind K"
    "(rk_CmdBind K OR rk_FUDP K) AND rk_CmdMask K = rk_CmdBind K" "rk_CmdBind K \<noteq> 0" "rk_CmdBind K \<noteq> rk_CmdConnect K"
    using assms(1) by (auto simp: relay_codes_def)
  then have "(rk_FUDP K OR rk_CmdBind K) AND rk_CmdMask K = rk_CmdBind K" by (simp add: or.commute)
  note cmd = cmd this
  have tunnel: "rd_tunnelID (relay_features T (rq_features (rc_tunnel_request K C tid network))) = ti_New T tid"
    by (simp add: relay_features_def rc_tunnel_request_def rc_user_features_fold relay_feature_def)
  have bound: "rd_tunnelID (relay_features T (rq_features (rc_bind_request K parse C c address))) = ti_zero T"
    "rd_address (relay_features T (rq_features (rc_bind_request K parse C c address))) = address" for c
    using assms(5,6)
    by (simp_all add: relay_features_def rc_bind_request_def rc_user_features_fold relay_feature_def split: option.split)
  show ?thesis
    using assms(2-4) cmd
    by (simp add: relay_dispatch_def Let_def tunnel bound or_and_absorb) (simp add: rc_tunnel_request_def or_and_absorb)
qed

theorem relay_bind_request_served_witness:
  "relay_dispatch demo_relay demo_ids (demo_relay_world demo_relay_request True) demo_relay_handler ''c:9'' 2
     (relay_features demo_ids [UserAuthFeature ''u'' ''p'', AddrFeature ''a'' 80]) =
   deferring (emit CloseClient) (relay_handleBind demo_relay (demo_relay_world demo_relay_request True) demo_relay_handler ''tcp'' ''a:80'')"
proof -
  have "rq_features (rc_bind_request demo_relay demo_parse demo_connector (rk_CmdBind demo_relay) ''a:80'') =
      [UserAuthFeature ''u'' ''p'', AddrFeature ''a'' 80]" "rk_CmdBind demo_relay = 2" "demo_parse ''a:80'' = Some (''a'', 80)"
    by code_simp+
  then show ?thesis
    using relay_bind_request_served [OF demo_connector_facts(1,4,5,6) _ demo_connector_facts(3), of demo_parse "demo_relay_world demo_relay_request True" "''c:9''" demo_connector]
    by simp
qed

section \<open>No delay, and datagrams\<close>

lemma be16_small:
  assumes "n < 256"
  shows "be16 (of_nat n) = [0, of_nat n]"
proof -
  have w: "unat (of_nat n :: uint16) = n" using assms by (simp add: unat_of_nat)
  have "unat (drop_bit 8 (of_nat n :: uint16)) = 0"
    unfolding unat_drop_bit_eq w using assms by (simp add: drop_bit_eq_div)
  then have hi: "drop_bit 8 (of_nat n :: uint16) = 0" by (simp only: unat_eq_0)
  have lo: "(ucast (of_nat n :: uint16) :: byte) = of_nat n"
    using assms by (simp add: unsigned_of_nat take_bit_nat_eq_self)
  show ?thesis by (simp add: be16_def hi lo)
qed

text \<open>
  With no delay the answer of the server is read before the connection is made, and the connection for
  datagrams reads an answer once more: it takes the first datagram of less than 256 bytes for one, so
  the first read of the client fails, and the datagram is lost.
\<close>

theorem relay_nodelay_udp_fails:
  assumes "rc_noDelay C" "udp_network network"
    and "\<forall>v st s. fst (rk_read_response K (v # st # s)) \<in> {None, Some (v, st)}" "rk_Version1 K = 1"
    and "length d < 256"
  shows "rc_make_conn C network req = Inr (RcUDP None) \<and>
    fst (relay_client_udp_Read K fresh cap (False, relay_frame d @ s)) = ([], True)"
proof -
  have "\<not> tcp_network network" using assms(2) tcp_not_udp by blast
  then have conn: "rc_make_conn C network req = Inr (RcUDP None)"
    using assms(1,2) by (simp add: rc_make_conn_def)
  have "be16 (of_nat (length d)) = [0, of_nat (length d)]"
    using assms(5) by (rule be16_small)
  then have "relay_frame d @ s = 0 # of_nat (length d) # d @ s" by (simp add: relay_frame_def)
  moreover have "fst (rk_read_response K (0 # of_nat (length d) # d @ s)) \<in> {None, Some (0, of_nat (length d))}"
    using assms(3) by blast
  ultimately have "fst (relay_readResponse K (relay_frame d @ s)) \<noteq> None"
    using assms(4) by (auto simp: relay_readResponse_def split: prod.splits option.splits)
  then have "fst (relay_client_udp_Read K fresh cap (False, relay_frame d @ s)) = ([], True)"
    by (auto simp: relay_client_udp_Read_def relay_client_Read_def split: prod.splits option.splits)
  with conn show ?thesis by simp
qed

theorem relay_nodelay_udp_fails_witness:
  "fst (relay_client_udp_Read demo_relay (\<lambda>n. []) 10 (False, relay_frame [1, 2, 3] @ [])) = ([], True)"
  using relay_nodelay_udp_fails [of demo_connector "''udp''" demo_relay "[1, 2, 3]" demo_connect_request "\<lambda>n. []" 10 "[]"]
  by (simp add: demo_connector_def demo_relay_def udp_network_def)

end
