(* ===== verification/Tun.thy ===== *)
theory Tun
  imports GoNet Bytes
begin

text \<open>
  TUN devices (\<open>handler/tun\<close>).  The server learns from keep-alive messages at which address a client's
  IP addresses are, and sends it the packets for them; the client tells its addresses.  Two goroutines
  move packets, one for each direction.  Packet headers are parsed by third-party packages, which are
  parameters; the authenticator is the one of the handler.
\<close>

section \<open>Addresses and routes\<close>

text \<open>A UDP address, as \<open>net.UDPAddr\<close>, and how it prints.\<close>

record udp_addr =
  ua_ip :: ip
  ua_port :: uint16
  ua_zone :: string

definition ua_string :: "udp_addr \<Rightarrow> string" where
  "ua_string a =
     (let host = (if ua_ip a = [] then [] else ip_string (ua_ip a))
      in join_host_port (if ua_zone a = [] then host else host @ ''%'' @ ua_zone a) (dec_string (unat (ua_port a))))"

text \<open>A gateway that is not given is \<open>[]\<close>.\<close>

record tun_route =
  ro_Net :: ipnet
  ro_Gateway :: ip

record tun_config =
  tc_Net :: "ipnet list"
  tc_Routes :: "tun_route list"

type_synonym tun_routes = "byte list \<rightharpoonup> udp_addr"

definition ipToTunRouteKey :: "ip \<Rightarrow> byte list" where
  "ipToTunRouteKey ip = copy_at 0 (ip_to16 ip) (replicate 16 0)"

definition findRouteFor :: "tun_routes \<Rightarrow> ip \<Rightarrow> tun_route list \<Rightarrow> udp_addr option" where
  "findRouteFor routes dst rs =
     (case routes (ipToTunRouteKey dst) of
        Some a \<Rightarrow> Some a
      | None \<Rightarrow>
          first_some (\<lambda>r. if ipnet_contains (ro_Net r) dst \<and> ro_Gateway r \<noteq> []
                          then routes (ipToTunRouteKey (ro_Gateway r)) else None) rs)"

definition updateRoute :: "udp_addr \<Rightarrow> ip \<Rightarrow> tun_routes \<Rightarrow> tun_routes" where
  "updateRoute addr ip routes =
     (case routes (ipToTunRouteKey ip) of
        Some a \<Rightarrow> if ua_string a \<noteq> ua_string addr then routes(ipToTunRouteKey ip \<mapsto> addr) else routes
      | None \<Rightarrow> routes(ipToTunRouteKey ip \<mapsto> addr))"

section \<open>Packets\<close>

text \<open>
  The packages for packets: whether the version is 4 or 6, with \<open>None\<close> for a panic, and the source and destination of a header
  that can be parsed.
\<close>

record tun_pkg =
  tp_IsIPv4 :: "byte list \<Rightarrow> bool option"
  tp_IsIPv6 :: "byte list \<Rightarrow> bool option"
  tp_header4 :: "byte list \<Rightarrow> (ip \<times> ip) option"
  tp_header6 :: "byte list \<Rightarrow> (ip \<times> ip) option"

datatype tun_packet = PktPanics | PktDropped | Pkt ip ip

definition tun_parsed :: "(ip \<times> ip) option \<Rightarrow> tun_packet" where
  "tun_parsed h = (case h of None \<Rightarrow> PktDropped | Some (src, dst) \<Rightarrow> Pkt src dst)"

definition tun_parse :: "tun_pkg \<Rightarrow> byte list \<Rightarrow> tun_packet" where
  "tun_parse P b =
     (case tp_IsIPv4 P b of
        None \<Rightarrow> PktPanics
      | Some True \<Rightarrow> tun_parsed (tp_header4 P b)
      | Some False \<Rightarrow>
          (case tp_IsIPv6 P b of
             None \<Rightarrow> PktPanics
           | Some True \<Rightarrow> tun_parsed (tp_header6 P b)
           | Some False \<Rightarrow> PktDropped))"

text \<open>What a goroutine does with a packet, and how its round ends.\<close>

datatype tun_act = ToPeer udp_addr "byte list" | ToDevice "byte list" | ToServer "byte list" | Extend

datatype tun_err = ErrTun | TunEOF | TunIO | ErrInvalidNet | TunWrongConn

datatype tun_end = Goes | Stops tun_err | Panics

section \<open>Keep-alive messages\<close>

definition keepAliveHeaderLength :: nat where "keepAliveHeaderLength = 20"

definition magicHeader :: "byte list" where "magicHeader = [0x47, 0x4F, 0x53, 0x54]"

text \<open>\<open>[]byte(s)\<close> and back.\<close>

definition bytes_of :: "string \<Rightarrow> byte list" where "bytes_of s = map (\<lambda>c. of_nat (of_char c)) s"

definition string_of :: "byte list \<Rightarrow> string" where "string_of b = map (\<lambda>x. char_of (unat x)) b"

text \<open>The message of a client; \<open>buf\<close> is what the buffer of the pool held before, which is not cleared.\<close>

definition keepAliveData :: "byte list \<Rightarrow> string \<Rightarrow> ip list \<Rightarrow> byte list" where
  "keepAliveData buf passphrase ips =
     (let b = copy_at 0 magicHeader buf;
          b = take 4 b @ copy_at 0 (bytes_of passphrase) (take 16 (drop 4 b)) @ drop 20 b
      in snd (fold (\<lambda>ip (pos, b). (pos + 16, take pos b @ copy_at 0 (ip_to16 ip) (take 16 (drop pos b)) @ drop (pos + 16) b))
           ips (20, b)))"

text \<open>
  The messages of a client over time: one, and with a period one more for each tick, until a write fails.
  \<open>oks\<close> are the results of the writes.
\<close>

fun tun_ticks :: "byte list \<Rightarrow> bool list \<Rightarrow> byte list list" where
  "tun_ticks d [] = []"
| "tun_ticks d (ok # oks) = d # (if ok then tun_ticks d oks else [])"

definition tun_keepAlive :: "int \<Rightarrow> byte list \<Rightarrow> bool list \<Rightarrow> byte list list" where
  "tun_keepAlive period d oks =
     (case oks of
        [] \<Rightarrow> []
      | ok # oks \<Rightarrow> d # (if ok \<and> period > 0 then tun_ticks d oks else []))"

fun tun_chunks :: "byte list \<Rightarrow> ip list" where
  "tun_chunks [] = []"
| "tun_chunks (b # bs) = take 16 (b # bs) # tun_chunks (drop 15 bs)"

definition tun_peerIPs :: "byte list \<Rightarrow> ip list" where
  "tun_peerIPs data = (if length data mod 16 = 0 then tun_chunks data else [])"

definition trim_nuls :: "byte list \<Rightarrow> byte list" where
  "trim_nuls b = rev (dropWhile (\<lambda>x. x = 0) (rev b))"

record tun_handler =
  th_bufferSize :: nat
  th_keepAlivePeriod :: int
  th_passphrase :: string
  th_auther :: "(string \<Rightarrow> string \<Rightarrow> bool) option"

definition tun_is_keepalive :: "byte list \<Rightarrow> bool" where
  "tun_is_keepalive b \<longleftrightarrow> length b > keepAliveHeaderLength \<and> take 4 b = magicHeader"

text \<open>The addresses a message is accepted for; \<open>None\<close> when it is not.\<close>

definition tun_accepts :: "tun_handler \<Rightarrow> tun_config \<Rightarrow> byte list \<Rightarrow> ip list option" where
  "tun_accepts H cfg b =
     (let ips = tun_peerIPs (drop keepAliveHeaderLength b)
      in if ips = [] then None
         else if \<exists>n\<in>set (tc_Net cfg). \<exists>ip\<in>set ips. ip_equal ip (ip_to16 (net_ip n)) then None
         else case th_auther H of
           None \<Rightarrow> Some ips
         | Some authenticate \<Rightarrow>
             if \<forall>ip\<in>set ips. authenticate (ip_string ip) (string_of (trim_nuls (take 16 (drop 4 b)))) then Some ips else None)"

text \<open>The answer, with the address the server sees; none for an address that does not parse.\<close>

definition tun_answer :: "udp_addr \<Rightarrow> byte list option" where
  "tun_answer addr = (if ip_to16 (ua_ip addr) = [] then None else Some (magicHeader @ ip_to16 (ua_ip addr)))"

section \<open>The server\<close>

text \<open>A packet from the device; \<open>ok\<close> is the result of the write there may be.\<close>

definition tun_server_out ::
    "tun_pkg \<Rightarrow> tun_config \<Rightarrow> tun_routes \<Rightarrow> byte list \<Rightarrow> bool \<Rightarrow> tun_act list \<times> tun_end"
where
  "tun_server_out P cfg routes b ok =
     (case tun_parse P b of
        PktPanics \<Rightarrow> ([], Panics)
      | PktDropped \<Rightarrow> ([], Goes)
      | Pkt src dst \<Rightarrow>
          (case findRouteFor routes dst (tc_Routes cfg) of
             None \<Rightarrow> ([], Goes)
           | Some addr \<Rightarrow> ([ToPeer addr b], if ok then Goes else Stops TunIO)))"

text \<open>A datagram from an address.\<close>

definition tun_server_in ::
    "tun_pkg \<Rightarrow> tun_handler \<Rightarrow> tun_config \<Rightarrow> tun_routes \<Rightarrow> udp_addr \<Rightarrow> byte list \<Rightarrow> bool \<Rightarrow>
     (tun_act list \<times> tun_end) \<times> tun_routes"
where
  "tun_server_in P H cfg routes addr b ok =
     (if tun_is_keepalive b
      then case tun_accepts H cfg b of
             None \<Rightarrow> (([], Goes), routes)
           | Some ips \<Rightarrow>
               (case tun_answer addr of
                  None \<Rightarrow> (([], Goes), routes)
                | Some d \<Rightarrow> (([ToPeer addr d], Goes), if ok then fold (updateRoute addr) ips routes else routes))
      else case tun_parse P b of
             PktPanics \<Rightarrow> (([], Panics), routes)
           | PktDropped \<Rightarrow> (([], Goes), routes)
           | Pkt src dst \<Rightarrow>
               (case findRouteFor routes dst (tc_Routes cfg) of
                  Some a \<Rightarrow> (([ToPeer a b], if ok then Goes else Stops TunIO), routes)
                | None \<Rightarrow> (([ToDevice b], if ok then Goes else Stops ErrTun), routes)))"

section \<open>The client\<close>

definition tun_client_out :: "tun_pkg \<Rightarrow> byte list \<Rightarrow> bool \<Rightarrow> tun_act list \<times> tun_end" where
  "tun_client_out P b ok =
     (case tun_parse P b of
        PktPanics \<Rightarrow> ([], Panics)
      | PktDropped \<Rightarrow> ([], Goes)
      | Pkt src dst \<Rightarrow> ([ToServer b], if ok then Goes else Stops TunIO))"

definition tun_client_in :: "tun_pkg \<Rightarrow> tun_handler \<Rightarrow> byte list \<Rightarrow> bool \<Rightarrow> tun_act list \<times> tun_end" where
  "tun_client_in P H b ok =
     (if length b = keepAliveHeaderLength \<and> take 4 b = magicHeader
      then (if th_keepAlivePeriod H > 0 then [Extend] else [], Goes)
      else case tun_parse P b of
             PktPanics \<Rightarrow> ([], Panics)
           | PktDropped \<Rightarrow> ([], Goes)
           | Pkt src dst \<Rightarrow> ([ToDevice b], if ok then Goes else Stops ErrTun))"

section \<open>The two goroutines\<close>

text \<open>
  A read of the device or of the socket, with the result of the write that may follow, or its failure.  Reads
  are cut to the buffer.
\<close>

datatype tun_event = DevRead "byte list" bool | DevFails | NetRead udp_addr "byte list" bool | NetFails tun_err

text \<open>
  The routes, which goroutines have ended, the first error sent to the channel, and whether the program
  has panicked.  The function returns with the first error; the other goroutine goes on.
\<close>

record tun_run =
  tr_routes :: tun_routes
  tr_dev_done :: bool
  tr_net_done :: bool
  tr_err :: "tun_err option"
  tr_panic :: bool

definition tun_start :: "tun_routes \<Rightarrow> tun_run" where
  "tun_start routes = \<lparr>tr_routes = routes, tr_dev_done = False, tr_net_done = False, tr_err = None, tr_panic = False\<rparr>"

definition tun_ended :: "tun_end \<Rightarrow> tun_run \<Rightarrow> tun_run" where
  "tun_ended e st =
     (case e of
        Goes \<Rightarrow> st
      | Stops err \<Rightarrow> (if tr_err st = None then st\<lparr>tr_err := Some err\<rparr> else st)
      | Panics \<Rightarrow> st\<lparr>tr_panic := True\<rparr>)"

definition tun_dev_end :: "tun_end \<Rightarrow> tun_run \<Rightarrow> tun_run" where
  "tun_dev_end e st = (tun_ended e st)\<lparr>tr_dev_done := (e \<noteq> Goes)\<rparr>"

definition tun_net_end :: "tun_end \<Rightarrow> tun_run \<Rightarrow> tun_run" where
  "tun_net_end e st = (tun_ended e st)\<lparr>tr_net_done := (e \<noteq> Goes)\<rparr>"

text \<open>One round of a goroutine, for what the two bodies do.\<close>

definition tun_step ::
    "nat \<Rightarrow> (tun_routes \<Rightarrow> byte list \<Rightarrow> bool \<Rightarrow> tun_act list \<times> tun_end) \<Rightarrow>
     (tun_routes \<Rightarrow> udp_addr \<Rightarrow> byte list \<Rightarrow> bool \<Rightarrow> (tun_act list \<times> tun_end) \<times> tun_routes) \<Rightarrow>
     tun_event \<Rightarrow> tun_run \<Rightarrow> tun_act list \<times> tun_run"
where
  "tun_step cap out inn e st =
     (if tr_panic st then ([], st)
      else case e of
        DevRead b ok \<Rightarrow>
          if tr_dev_done st then ([], st)
          else (case out (tr_routes st) (take cap b) ok of (acts, r) \<Rightarrow> (acts, tun_dev_end r st))
      | DevFails \<Rightarrow> if tr_dev_done st then ([], st) else ([], tun_dev_end (Stops ErrTun) st)
      | NetRead addr b ok \<Rightarrow>
          if tr_net_done st then ([], st)
          else (case inn (tr_routes st) addr (take cap b) ok of
                  ((acts, r), routes) \<Rightarrow> (acts, tun_net_end r (st\<lparr>tr_routes := routes\<rparr>)))
      | NetFails err \<Rightarrow> if tr_net_done st then ([], st) else ([], tun_net_end (Stops err) st))"

definition transportServer_step :: "tun_pkg \<Rightarrow> tun_handler \<Rightarrow> tun_config \<Rightarrow> tun_event \<Rightarrow> tun_run \<Rightarrow> tun_act list \<times> tun_run" where
  "transportServer_step P H cfg = tun_step (th_bufferSize H) (tun_server_out P cfg) (tun_server_in P H cfg)"

definition transportClient_step :: "tun_pkg \<Rightarrow> tun_handler \<Rightarrow> tun_event \<Rightarrow> tun_run \<Rightarrow> tun_act list \<times> tun_run" where
  "transportClient_step P H = tun_step (th_bufferSize H) (\<lambda>_. tun_client_out P) (\<lambda>routes _ b ok. (tun_client_in P H b ok, routes))"

fun tun_steps :: "(tun_event \<Rightarrow> tun_run \<Rightarrow> tun_act list \<times> tun_run) \<Rightarrow> tun_event list \<Rightarrow> tun_run \<Rightarrow> tun_act list \<times> tun_run" where
  "tun_steps step [] st = ([], st)"
| "tun_steps step (e # es) st =
     (case step e st of (acts, st) \<Rightarrow> (case tun_steps step es st of (acts', st) \<Rightarrow> (acts @ acts', st)))"

text \<open>What the function returns: nothing while no error is sent, then the error, with the end of the stream for none.\<close>

definition tun_returns :: "tun_run \<Rightarrow> tun_err option option" where
  "tun_returns st = (case tr_err st of None \<Rightarrow> None | Some TunEOF \<Rightarrow> Some None | Some e \<Rightarrow> Some (Some e))"

section \<open>The handler\<close>

text \<open>
  The loop around a transport.  A round fails to listen or to dial, or ends with the result of a transport; only an
  error of the device ends the loop.  The result is the number of seconds slept, and whether the loop has ended.
\<close>

fun tun_rounds :: "tun_err option list \<Rightarrow> nat \<times> tun_err option" where
  "tun_rounds [] = (0, None)"
| "tun_rounds (r # rs) =
     (if r = Some ErrTun then (0, Some ErrTun)
      else (case tun_rounds rs of (n, e) \<Rightarrow> (Suc n, e)))"

definition tun_handleServer :: "tun_err option list \<Rightarrow> nat \<times> tun_err option" where
  "tun_handleServer = tun_rounds"

definition tun_handleClient :: "tun_config \<Rightarrow> tun_err option list \<Rightarrow> nat \<times> tun_err option" where
  "tun_handleClient cfg rs = (if tc_Net cfg = [] then (0, Some ErrInvalidNet) else tun_rounds rs)"

text \<open>
  \<open>target\<close> is the node of the hop, \<open>rs\<close> are the rounds of the loop.  The result is \<open>None\<close> while the loop runs; the error of a
  client is not returned.
\<close>

definition tun_Handle :: "bool \<Rightarrow> string option \<Rightarrow> tun_config \<Rightarrow> tun_err option list \<Rightarrow> tun_err option option" where
  "tun_Handle metadatable target cfg rs =
     (if \<not> metadatable then Some (Some TunWrongConn)
      else case target of
        Some raddr \<Rightarrow> (case snd (tun_handleClient cfg rs) of None \<Rightarrow> None | Some e \<Rightarrow> Some None)
      | None \<Rightarrow> (case snd (tun_handleServer rs) of None \<Rightarrow> None | Some e \<Rightarrow> Some (Some e)))"

section \<open>The server understands the client\<close>

lemma tun_chunks_append [simp]: "length a = 16 \<Longrightarrow> tun_chunks (a @ b) = a # tun_chunks b"
  by (cases a) auto

lemma tun_chunks_concat: "\<forall>c\<in>set cs. length c = 16 \<Longrightarrow> tun_chunks (concat cs) = cs"
  by (induction cs) auto

lemma length_concat_16: "\<forall>c\<in>set cs. length c = 16 \<Longrightarrow> length (concat cs) = 16 * length cs"
  by (induction cs) auto

lemma string_of_bytes_of [simp]: "string_of (bytes_of s) = s"
  by (simp add: string_of_def bytes_of_def comp_def unat_of_nat map_idI)

lemma byte_of_char_0: "of_nat (of_char c) = (0::byte) \<longleftrightarrow> c = CHR 0x00"
proof
  assume zero: "of_nat (of_char c) = (0::byte)"
  have "c = char_of (unat (of_nat (of_char c) :: byte))" by (simp add: unat_of_nat)
  then show "c = CHR 0x00" by (simp add: zero char_of_def)
qed simp

lemma ip_to16_length: "length ip \<in> {4, 16} \<Longrightarrow> length (ip_to16 ip) = 16"
  by (auto simp: ip_to16_def v4_in_v6_prefix_def)

lemma keepAliveData_ips:
  assumes "\<forall>ip\<in>set ips. length ip \<in> {4, 16}" "length a = pos" "length b = 16 * length ips"
  shows "snd (fold (\<lambda>ip (pos, b). (pos + 16, take pos b @ copy_at 0 (ip_to16 ip) (take 16 (drop pos b)) @ drop (pos + 16) b))
      ips (pos, a @ b)) = a @ concat (map ip_to16 ips)"
  using assms
proof (induction ips arbitrary: pos a b)
  case (Cons ip ips)
  have len: "length (ip_to16 ip) = 16" using Cons.prems(1) by (intro ip_to16_length) simp
  have "copy_at 0 (ip_to16 ip) (take 16 b) = ip_to16 ip"
    using len Cons.prems(3) by (simp add: copy_at_def)
  then show ?case
    using Cons.IH [of "a @ ip_to16 ip" "pos + 16" "drop 16 b"] Cons.prems len by (simp add: add.commute)
qed simp

lemma length_magicHeader [simp]: "length magicHeader = 4"
  by (simp add: magicHeader_def)

text \<open>The 16 bytes of the key: the passphrase, cut, and what the buffer held behind it.\<close>

definition tun_key :: "byte list \<Rightarrow> string \<Rightarrow> byte list" where
  "tun_key buf passphrase = take 16 (bytes_of passphrase) @ take (16 - length passphrase) (drop (4 + length passphrase) buf)"

lemma keepAliveData_layout:
  assumes "\<forall>ip\<in>set ips. length ip \<in> {4, 16}" "length buf = 20 + 16 * length ips"
  shows "keepAliveData buf passphrase ips = magicHeader @ tun_key buf passphrase @ concat (map ip_to16 ips)"
proof -
  have len: "length (bytes_of passphrase) = length passphrase" by (simp add: bytes_of_def)
  have magic: "copy_at 0 magicHeader buf = magicHeader @ drop 4 buf"
    using assms(2) by (simp add: copy_at_def)
  have key: "copy_at 0 (bytes_of passphrase) (take 16 (drop 4 buf)) = tun_key buf passphrase"
    using assms(2) len by (simp add: copy_at_def tun_key_def drop_take add.commute)
  have "length (tun_key buf passphrase) = 16" using assms(2) len by (simp add: tun_key_def)
  then show ?thesis
    using keepAliveData_ips [OF assms(1), of "magicHeader @ tun_key buf passphrase" 20 "drop 20 buf"] assms(2)
    by (simp add: keepAliveData_def Let_def magic key)
qed

lemma length_tun_key: "length buf \<ge> 20 \<Longrightarrow> length (tun_key buf passphrase) = 16"
  by (simp add: tun_key_def bytes_of_def)

lemma trim_nuls_append_zeros: "\<forall>x\<in>set z. x = 0 \<Longrightarrow> trim_nuls (a @ z) = trim_nuls a"
  by (simp add: trim_nuls_def) (subst dropWhile_append2, auto)

lemma trim_nuls_id: "a = [] \<or> List.last a \<noteq> 0 \<Longrightarrow> trim_nuls a = a"
  by (cases a rule: rev_cases) (auto simp: trim_nuls_def)

lemma trim_nuls_longer: "x \<in> set z \<Longrightarrow> x \<noteq> 0 \<Longrightarrow> length (trim_nuls (a @ z)) > length a"
proof (induction z rule: rev_induct)
  case (snoc y z)
  then show ?case by (cases "y = 0") (auto simp: trim_nuls_def)
qed simp

text \<open>
  A keep-alive message of a client is recognised, and names exactly the addresses of the client, none of
  which may be the server's; what the authenticator is asked for is the client's passphrase just when
  the buffer the client took from the pool held zeros behind it.
\<close>

theorem tun_keepalive_accepted:
  assumes "ips \<noteq> []" "\<forall>ip\<in>set ips. length ip \<in> {4, 16}" "length buf = 20 + 16 * length ips"
    and "length passphrase \<le> 16" "passphrase = [] \<or> List.last passphrase \<noteq> CHR 0x00"
  shows "tun_is_keepalive (keepAliveData buf passphrase ips) \<and>
    (\<exists>key. (key = passphrase \<longleftrightarrow> (\<forall>x\<in>set (take (16 - length passphrase) (drop (4 + length passphrase) buf)). x = 0)) \<and>
      tun_accepts H cfg (keepAliveData buf passphrase ips) =
        (if (\<exists>n\<in>set (tc_Net cfg). \<exists>ip\<in>set ips. ip_equal (ip_to16 ip) (ip_to16 (net_ip n))) then None
         else case th_auther H of
           None \<Rightarrow> Some (map ip_to16 ips)
         | Some authenticate \<Rightarrow>
             if \<forall>ip\<in>set ips. authenticate (ip_string (ip_to16 ip)) key then Some (map ip_to16 ips) else None))"
    (is "_ \<and> (\<exists>key. (key = _ \<longleftrightarrow> (\<forall>x\<in>set ?z. x = 0)) \<and> _)")
proof -
  let ?d = "keepAliveData buf passphrase ips" and ?key = "string_of (trim_nuls (tun_key buf passphrase))"
  have d: "?d = magicHeader @ tun_key buf passphrase @ concat (map ip_to16 ips)"
    using assms(2,3) by (rule keepAliveData_layout)
  have key: "length (tun_key buf passphrase) = 16" using assms(3) by (simp add: length_tun_key)
  have cs: "\<forall>c\<in>set (map ip_to16 ips). length c = 16" using assms(2) by (auto simp: ip_to16_length)
  have ips: "tun_peerIPs (drop 20 ?d) = map ip_to16 ips"
    using key tun_chunks_concat [OF cs] length_concat_16 [OF cs] by (simp add: d tun_peerIPs_def)
  have tk: "tun_key buf passphrase = bytes_of passphrase @ ?z"
    using assms(4) by (simp add: tun_key_def bytes_of_def)
  have "?key = passphrase \<longleftrightarrow> (\<forall>x\<in>set ?z. x = 0)"
  proof (cases "\<forall>x\<in>set ?z. x = 0")
    case True
    have "bytes_of passphrase = [] \<or> List.last (bytes_of passphrase) \<noteq> 0"
      using assms(5) by (auto simp: bytes_of_def last_map byte_of_char_0)
    then show ?thesis using True by (simp add: tk trim_nuls_append_zeros trim_nuls_id)
  next
    case False
    then have "length (trim_nuls (bytes_of passphrase @ ?z)) > length (bytes_of passphrase)"
      by (auto intro: trim_nuls_longer)
    then have "length ?key \<noteq> length passphrase" by (simp add: tk string_of_def bytes_of_def)
    then show ?thesis using False by auto
  qed
  moreover have "tun_is_keepalive ?d"
    using assms(1) key length_concat_16 [OF cs] by (simp add: tun_is_keepalive_def keepAliveHeaderLength_def d)
  moreover have "tun_accepts H cfg ?d =
      (if (\<exists>n\<in>set (tc_Net cfg). \<exists>ip\<in>set ips. ip_equal (ip_to16 ip) (ip_to16 (net_ip n))) then None
       else case th_auther H of
         None \<Rightarrow> Some (map ip_to16 ips)
       | Some authenticate \<Rightarrow> if \<forall>ip\<in>set ips. authenticate (ip_string (ip_to16 ip)) ?key then Some (map ip_to16 ips) else None)"
    using assms(1) key ips by (simp add: tun_accepts_def Let_def keepAliveHeaderLength_def split: option.split) (simp add: d)
  ultimately show ?thesis by blast
qed

section \<open>Routes\<close>

lemma fold_updateRoute:
  "map_option ua_string (fold (updateRoute addr) ips routes k) =
     (if k \<in> ipToTunRouteKey ` set ips then Some (ua_string addr) else map_option ua_string (routes k))"
proof (induction ips arbitrary: routes)
  case (Cons ip ips)
  have upd: "map_option ua_string (updateRoute addr ip routes k) =
      (if k = ipToTunRouteKey ip then Some (ua_string addr) else map_option ua_string (routes k))"
    by (auto simp: updateRoute_def split: option.split)
  show ?case by (simp only: fold_simps Cons.IH upd list.set image_insert insert_iff) simp
qed simp

lemma fold_updateRoute_some:
  "ip \<in> set ips \<Longrightarrow>
   \<exists>a. fold (updateRoute addr) ips routes (ipToTunRouteKey ip) = Some a \<and> ua_string a = ua_string addr"
  using fold_updateRoute [of addr ips routes "ipToTunRouteKey ip"] by simp

text \<open>The keep-alive messages that reach the server's goroutine, in order: the keys they name, and the address.\<close>

fun tun_claims ::
    "tun_pkg \<Rightarrow> tun_handler \<Rightarrow> tun_config \<Rightarrow> tun_event list \<Rightarrow> tun_run \<Rightarrow> (byte list set \<times> udp_addr) list"
where
  "tun_claims P H cfg [] st = []"
| "tun_claims P H cfg (e # es) st =
     (case e of
        NetRead addr b True \<Rightarrow>
          let b = take (th_bufferSize H) b
          in if \<not> tr_panic st \<and> \<not> tr_net_done st \<and> tun_is_keepalive b \<and> tun_answer addr \<noteq> None
             then (case tun_accepts H cfg b of None \<Rightarrow> [] | Some ips \<Rightarrow> [(ipToTunRouteKey ` set ips, addr)])
             else []
      | _ \<Rightarrow> []) @ tun_claims P H cfg es (snd (transportServer_step P H cfg e st))"

definition tun_claimed :: "(byte list set \<times> udp_addr) list \<Rightarrow> byte list \<Rightarrow> string option \<Rightarrow> string option" where
  "tun_claimed cs k old = fold (\<lambda>(ks, addr) a. if k \<in> ks then Some (ua_string addr) else a) cs old"

lemma tun_end_routes [simp]:
  "tr_routes (tun_dev_end e st) = tr_routes st" "tr_routes (tun_net_end e st) = tr_routes st"
  by (simp_all add: tun_dev_end_def tun_net_end_def tun_ended_def split: tun_end.split)

lemma transportServer_step_routes:
  "map_option ua_string (tr_routes (snd (transportServer_step P H cfg e st)) k) =
     tun_claimed (tun_claims P H cfg [e] st) k (map_option ua_string (tr_routes st k))"
proof (cases e)
  case (NetRead addr b ok)
  show ?thesis
    by (cases ok)
      (auto simp: NetRead transportServer_step_def tun_step_def tun_server_in_def tun_claimed_def Let_def fold_updateRoute fold_updateRoute_some
        split: option.split tun_packet.split)
qed (auto simp: transportServer_step_def tun_step_def tun_claimed_def split: prod.split)

lemma tun_steps_snd: "snd (tun_steps step (e # es) st) = snd (tun_steps step es (snd (step e st)))"
  by (simp split: prod.split)

text \<open>
  C25.  The routes of a TUN server are those of the keep-alive messages: whatever the packets of both
  directions and the failures, an address is reached at the socket address the last accepted message that names it
  came from.
\<close>

theorem tun_routes_follow_keepalives:
  "map_option ua_string (tr_routes (snd (tun_steps (transportServer_step P H cfg) es st)) k) =
     tun_claimed (tun_claims P H cfg es st) k (map_option ua_string (tr_routes st k))"
proof (induction es arbitrary: st)
  case (Cons e es)
  have "tun_claims P H cfg (e # es) st = tun_claims P H cfg [e] st @ tun_claims P H cfg es (snd (transportServer_step P H cfg e st))"
    by simp
  then have "tun_claimed (tun_claims P H cfg (e # es) st) k (map_option ua_string (tr_routes st k)) =
      tun_claimed (tun_claims P H cfg es (snd (transportServer_step P H cfg e st))) k
        (tun_claimed (tun_claims P H cfg [e] st) k (map_option ua_string (tr_routes st k)))"
    by (simp only: tun_claimed_def fold_append comp_def)
  then show ?case by (simp only: tun_steps_snd Cons.IH transportServer_step_routes)
qed (simp add: tun_claimed_def)

section \<open>Who gets packets\<close>

text \<open>An address from which an accepted message came.\<close>

definition tun_heard :: "tun_handler \<Rightarrow> tun_config \<Rightarrow> tun_event list \<Rightarrow> udp_addr \<Rightarrow> bool" where
  "tun_heard H cfg es a \<longleftrightarrow>
     (\<exists>b ok. NetRead a b ok \<in> set es \<and> tun_is_keepalive (take (th_bufferSize H) b) \<and>
        tun_accepts H cfg (take (th_bufferSize H) b) \<noteq> None)"

lemma ran_updateRoute: "a \<in> ran (updateRoute addr ip routes) \<Longrightarrow> a = addr \<or> a \<in> ran routes"
  by (auto simp: updateRoute_def ran_def split: option.splits if_splits)

lemma ran_fold_updateRoute: "a \<in> ran (fold (updateRoute addr) ips routes) \<Longrightarrow> a = addr \<or> a \<in> ran routes"
proof (induction ips arbitrary: routes)
  case (Cons ip ips)
  then show ?case using ran_updateRoute by fastforce
qed simp

lemma findRouteFor_ran: "findRouteFor routes dst rs = Some a \<Longrightarrow> a \<in> ran routes"
  by (auto simp: findRouteFor_def first_some_Some ran_def split: option.splits if_splits)

lemma transportServer_step_known:
  assumes "ran (tr_routes st) \<subseteq> Q" "\<forall>a. tun_heard H cfg [e] a \<longrightarrow> a \<in> Q"
  shows "ran (tr_routes (snd (transportServer_step P H cfg e st))) \<subseteq> Q \<and>
    (\<forall>a b. ToPeer a b \<in> set (fst (transportServer_step P H cfg e st)) \<longrightarrow> a \<in> Q)"
proof (cases e)
  case (DevRead b ok)
  then show ?thesis
    using assms(1) by (auto simp: transportServer_step_def tun_step_def tun_server_out_def
        split: tun_packet.split option.split dest: findRouteFor_ran)
next
  case (NetRead addr b ok)
  have "addr \<in> Q" if "tun_is_keepalive (take (th_bufferSize H) b)" "tun_accepts H cfg (take (th_bufferSize H) b) = Some ips" for ips
    using assms(2) that by (auto simp: NetRead tun_heard_def)
  then show ?thesis
    using assms(1) by (auto simp: NetRead transportServer_step_def tun_step_def tun_server_in_def
        split: tun_packet.split option.split dest!: findRouteFor_ran ran_fold_updateRoute)
qed (use assms(1) in \<open>auto simp: transportServer_step_def tun_step_def\<close>)

lemma tun_steps_known:
  assumes "ran (tr_routes st) \<subseteq> Q" "\<forall>a. tun_heard H cfg es a \<longrightarrow> a \<in> Q"
    and "ToPeer a b \<in> set (fst (tun_steps (transportServer_step P H cfg) es st))"
  shows "a \<in> Q"
  using assms
proof (induction es arbitrary: st)
  case (Cons e es)
  have heard: "\<forall>a. tun_heard H cfg [e] a \<longrightarrow> a \<in> Q" "\<forall>a. tun_heard H cfg es a \<longrightarrow> a \<in> Q"
    using Cons.prems(2) unfolding tun_heard_def by (fastforce, fastforce)
  have known: "ran (tr_routes (snd (transportServer_step P H cfg e st))) \<subseteq> Q"
    "\<forall>a b. ToPeer a b \<in> set (fst (transportServer_step P H cfg e st)) \<longrightarrow> a \<in> Q"
    using transportServer_step_known [OF Cons.prems(1) heard(1)] by blast+
  have "ToPeer a b \<in> set (fst (transportServer_step P H cfg e st)) \<or>
      ToPeer a b \<in> set (fst (tun_steps (transportServer_step P H cfg) es (snd (transportServer_step P H cfg e st))))"
    using Cons.prems(3) by (auto split: prod.splits)
  then show ?case using known Cons.IH [OF known(1) heard(2)] by blast
qed simp

text \<open>
  C24.  A TUN server that starts without routes sends datagrams only to addresses an accepted keep-alive message came from:
  packets and answers alike, through any interleaving of its goroutines and any failures.
\<close>

theorem tun_sends_only_to_accepted:
  assumes "ToPeer a b \<in> set (fst (tun_steps (transportServer_step P H cfg) es (tun_start Map.empty)))"
  shows "\<exists>msg ok. NetRead a msg ok \<in> set es \<and> tun_is_keepalive (take (th_bufferSize H) msg) \<and>
    tun_accepts H cfg (take (th_bufferSize H) msg) \<noteq> None"
  using tun_steps_known [OF _ _ assms, of "{a. tun_heard H cfg es a}"] by (simp add: tun_start_def tun_heard_def)

text \<open>An empty datagram, from anybody, ends the program when the package looks at the first byte.\<close>

lemma tun_empty_datagram_panics:
  assumes "tp_IsIPv4 P [] = None" "\<not> tr_panic st" "\<not> tr_net_done st"
  shows "tr_panic (snd (transportServer_step P H cfg (NetRead addr [] ok) st))"
  using assms by (simp add: transportServer_step_def tun_step_def tun_server_in_def tun_is_keepalive_def tun_parse_def
      tun_net_end_def tun_ended_def)

text \<open>A device error is the only one that ends the loop around the transports.\<close>

lemma tun_rounds_end: "snd (tun_rounds rs) = (if Some ErrTun \<in> set rs then Some ErrTun else None)"
  by (induction rs) (auto split: prod.splits)

lemma tun_rounds_slept: "fst (tun_rounds rs) = length (takeWhile (\<lambda>r. r \<noteq> Some ErrTun) rs)"
  by (induction rs) (auto split: prod.splits)

section \<open>An example\<close>

text \<open>A package that knows the version nibble and reads addresses of version 4.\<close>

definition demo_tun_pkg :: tun_pkg where
  "demo_tun_pkg =
     \<lparr>tp_IsIPv4 = (\<lambda>b. case b of [] \<Rightarrow> None | x # _ \<Rightarrow> Some (drop_bit 4 x = 4)),
      tp_IsIPv6 = (\<lambda>b. case b of [] \<Rightarrow> None | x # _ \<Rightarrow> Some (drop_bit 4 x = 6)),
      tp_header4 = (\<lambda>b. if length b < 20 then None else Some (take 4 (drop 12 b), take 4 (drop 16 b))),
      tp_header6 = (\<lambda>b. if length b < 40 then None else Some (take 16 (drop 8 b), take 16 (drop 24 b)))\<rparr>"

definition demo_tun_handler :: tun_handler where
  "demo_tun_handler =
     \<lparr>th_bufferSize = 64, th_keepAlivePeriod = 0, th_passphrase = ''pw'', th_auther = Some (\<lambda>u p. u = ''10.0.0.2'' \<and> p = ''pw'')\<rparr>"

definition demo_tun_config :: tun_config where
  "demo_tun_config = \<lparr>tc_Net = [\<lparr>net_ip = [10, 0, 0, 1], net_mask = [255, 255, 255, 0]\<rparr>], tc_Routes = []\<rparr>"

definition demo_udp_addr :: udp_addr where
  "demo_udp_addr = \<lparr>ua_ip = [192, 0, 2, 7], ua_port = 4000, ua_zone = []\<rparr>"

definition demo_packet :: "byte list" where
  "demo_packet = [0x45,0,0,20, 0,0,0,0, 64,6,0,0, 10,0,0,1, 10,0,0,2]"

lemma demo_tun_run:
  "ToPeer demo_udp_addr demo_packet \<in> set (fst (tun_steps (transportServer_step demo_tun_pkg demo_tun_handler demo_tun_config)
     [NetRead demo_udp_addr (keepAliveData (replicate 36 0) ''pw'' [[10, 0, 0, 2]]) True, DevRead demo_packet True] (tun_start Map.empty)))"
  by code_simp

theorem tun_sends_only_to_accepted_witness:
  "\<exists>msg ok. NetRead demo_udp_addr msg ok \<in>
      set [NetRead demo_udp_addr (keepAliveData (replicate 36 0) ''pw'' [[10, 0, 0, 2]]) True, DevRead demo_packet True] \<and>
    tun_is_keepalive (take (th_bufferSize demo_tun_handler) msg) \<and>
    tun_accepts demo_tun_handler demo_tun_config (take (th_bufferSize demo_tun_handler) msg) \<noteq> None"
  using demo_tun_run by (rule tun_sends_only_to_accepted)

theorem tun_keepalive_accepted_witness:
  "tun_is_keepalive (keepAliveData (replicate 36 0) ''pw'' [[10, 0, 0, 2]])"
  using tun_keepalive_accepted [of "[[10, 0, 0, 2]]" "replicate 36 0" "''pw''"] by simp

end
