(* ===== verification/Tap.thy ===== *)
theory Tap
  imports Tun
begin

text \<open>
  TAP devices (\<open>handler/tap\<close>).  The server is a learning switch: it keeps the socket address each hardware address was
  last seen at, sends broadcasts to all of them and other frames to the one it knows.  The client sends all frames to its
  server.  The parser of frames is a third-party package; the cipher, if there is one, is part of the socket.
\<close>

section \<open>Frames and routes\<close>

text \<open>The source and destination of a frame, \<open>None\<close> for a panic of the package, and whether an address is a broadcast.\<close>

record tap_pkg =
  mp_addrs :: "byte list \<Rightarrow> (byte list \<times> byte list) option"
  mp_broadcast :: "byte list \<Rightarrow> bool"

text \<open>A map that is gone through, in some order.\<close>

type_synonym tap_routes = "(byte list \<times> udp_addr) list"

definition hwAddrToTapRouteKey :: "byte list \<Rightarrow> byte list" where
  "hwAddrToTapRouteKey addr = copy_at 0 addr (replicate 6 0)"

fun tap_store :: "byte list \<Rightarrow> udp_addr \<Rightarrow> tap_routes \<Rightarrow> tap_routes" where
  "tap_store k a [] = [(k, a)]"
| "tap_store k a ((k', a') # rs) = (if k' = k then (k, a) # rs else (k', a') # tap_store k a rs)"

text \<open>The route of the source is recorded.\<close>

definition tap_learn :: "byte list \<Rightarrow> udp_addr \<Rightarrow> tap_routes \<Rightarrow> tap_routes" where
  "tap_learn k addr rs =
     (case map_of rs k of
        Some a \<Rightarrow> if ua_string a \<noteq> ua_string addr then tap_store k addr rs else rs
      | None \<Rightarrow> tap_store k addr rs)"

section \<open>The two goroutines\<close>

text \<open>
  A frame from the device.  \<open>raddr\<close> is the server of a client.  Broadcasts are sent by a goroutine of their own, whose errors
  nobody sees.
\<close>

definition tap_out :: "tap_pkg \<Rightarrow> udp_addr option \<Rightarrow> tap_routes \<Rightarrow> byte list \<Rightarrow> bool \<Rightarrow> tun_act list \<times> tun_end" where
  "tap_out P raddr rs b ok =
     (case mp_addrs P b of
        None \<Rightarrow> ([], Panics)
      | Some (src, dst) \<Rightarrow>
          (case raddr of
             Some server \<Rightarrow> ([ToPeer server b], if ok then Goes else Stops TunIO)
           | None \<Rightarrow>
               if mp_broadcast P dst then (map (\<lambda>(k, a). ToPeer a b) rs, Goes)
               else case map_of rs (hwAddrToTapRouteKey dst) of
                 None \<Rightarrow> ([], Goes)
               | Some a \<Rightarrow> ([ToPeer a b], if ok then Goes else Stops TunIO)))"

text \<open>A datagram.  The third part of the result tells whether the loop around is told to exit.\<close>

definition tap_in ::
    "tap_pkg \<Rightarrow> udp_addr option \<Rightarrow> tap_routes \<Rightarrow> udp_addr \<Rightarrow> byte list \<Rightarrow> bool \<Rightarrow> (tun_act list \<times> tun_end \<times> bool) \<times> tap_routes"
where
  "tap_in P raddr rs addr b ok =
     (case mp_addrs P b of
        None \<Rightarrow> (([], Panics, False), rs)
      | Some (src, dst) \<Rightarrow>
          if raddr \<noteq> None then (([ToDevice b], if ok then Goes else Stops TunIO, False), rs)
          else let rkey = hwAddrToTapRouteKey src;
                   rs = tap_learn rkey addr rs;
                   flood = (if mp_broadcast P dst then map (\<lambda>(k, a). ToPeer a b) (filter (\<lambda>(k, a). k \<noteq> rkey) rs) else [])
               in case map_of rs (hwAddrToTapRouteKey dst) of
                    Some a \<Rightarrow> ((flood @ [ToPeer a b], if ok then Goes else Stops TunIO, False), rs)
                  | None \<Rightarrow> ((flood @ [ToDevice b], if ok then Goes else Stops TunIO, \<not> ok), rs))"

text \<open>The state of the handler and of a transport: routes, the signal to exit, the goroutines, the first error.\<close>

record tap_run =
  ta_routes :: tap_routes
  ta_exit :: bool
  ta_dev_done :: bool
  ta_net_done :: bool
  ta_err :: "tun_err option"
  ta_panic :: bool

definition tap_start :: "tap_routes \<Rightarrow> tap_run" where
  "tap_start rs = \<lparr>ta_routes = rs, ta_exit = False, ta_dev_done = False, ta_net_done = False, ta_err = None, ta_panic = False\<rparr>"

definition tap_ended :: "tun_end \<Rightarrow> tap_run \<Rightarrow> tap_run" where
  "tap_ended e st =
     (case e of
        Goes \<Rightarrow> st
      | Stops err \<Rightarrow> (if ta_err st = None then st\<lparr>ta_err := Some err\<rparr> else st)
      | Panics \<Rightarrow> st\<lparr>ta_panic := True\<rparr>)"

text \<open>A device that cannot be read ends the program's loop; the short packets of the cipher are frames like others.\<close>

definition tap_step :: "tap_pkg \<Rightarrow> nat \<Rightarrow> udp_addr option \<Rightarrow> tun_event \<Rightarrow> tap_run \<Rightarrow> tun_act list \<times> tap_run" where
  "tap_step P cap raddr e st =
     (if ta_panic st then ([], st)
      else case e of
        DevRead b ok \<Rightarrow>
          if ta_dev_done st then ([], st)
          else (case tap_out P raddr (ta_routes st) (take cap b) ok of
                  (acts, r) \<Rightarrow> (acts, (tap_ended r st)\<lparr>ta_dev_done := (r \<noteq> Goes)\<rparr>))
      | DevFails \<Rightarrow>
          if ta_dev_done st then ([], st)
          else ([], (tap_ended (Stops TunIO) st)\<lparr>ta_exit := True, ta_dev_done := True\<rparr>)
      | NetRead addr b ok \<Rightarrow>
          if ta_net_done st then ([], st)
          else (case tap_in P raddr (ta_routes st) addr (take cap b) ok of
                  ((acts, r, exits), rs) \<Rightarrow>
                    (acts, (tap_ended r st)\<lparr>ta_routes := rs, ta_exit := ta_exit st \<or> exits, ta_net_done := (r \<noteq> Goes)\<rparr>))
      | NetFails err \<Rightarrow>
          if ta_net_done st then ([], st) else ([], (tap_ended (Stops err) st)\<lparr>ta_net_done := True\<rparr>))"

fun tap_steps :: "tap_pkg \<Rightarrow> nat \<Rightarrow> udp_addr option \<Rightarrow> tun_event list \<Rightarrow> tap_run \<Rightarrow> tun_act list \<times> tap_run" where
  "tap_steps P cap raddr [] st = ([], st)"
| "tap_steps P cap raddr (e # es) st =
     (case tap_step P cap raddr e st of
        (acts, st) \<Rightarrow> (case tap_steps P cap raddr es st of (acts', st) \<Rightarrow> (acts @ acts', st)))"

section \<open>The loop\<close>

text \<open>
  A round of the loop fails or not, and then finds the signal to exit or not.  The result is the delays slept between rounds, in
  nanoseconds, and whether the loop has returned.
\<close>

definition tap_delay :: "int \<Rightarrow> int" where
  "tap_delay d = min (if d = 0 then 1000 * 10 ^ 6 else d * 2) (6 * 10 ^ 9)"

fun tap_handleLoop :: "int \<Rightarrow> (bool \<times> bool) list \<Rightarrow> int list \<times> bool" where
  "tap_handleLoop d [] = ([], False)"
| "tap_handleLoop d ((fails, exits) # rs) =
     (if exits then ([], True)
      else if fails then (case tap_handleLoop (tap_delay d) rs of (ds, r) \<Rightarrow> (tap_delay d # ds, r))
      else tap_handleLoop 0 rs)"

text \<open>
  The handler; whatever it does, the program exits with status 0 at the end.  \<open>resolve\<close> is the address of the node.
\<close>

datatype tap_end = TapRuns | TapExits "tun_err option"

definition tap_Handle :: "bool \<Rightarrow> string option \<Rightarrow> (string \<Rightarrow> udp_addr option) \<Rightarrow> (bool \<times> bool) list \<Rightarrow> tap_end" where
  "tap_Handle metadatable target resolve rs =
     (if \<not> metadatable then TapExits (Some TunWrongConn)
      else if (case target of None \<Rightarrow> False | Some addr \<Rightarrow> resolve addr = None) then TapExits (Some ErrInvalidNet)
      else if snd (tap_handleLoop 0 rs) then TapExits None else TapRuns)"


section \<open>Routes\<close>

lemma map_of_tap_store: "map_of (tap_store k a rs) = (map_of rs)(k \<mapsto> a)"
  by (induction rs) auto

lemma map_of_tap_learn:
  "map_option ua_string (map_of (tap_learn k addr rs) k') =
     (if k' = k then Some (ua_string addr) else map_option ua_string (map_of rs k'))"
  by (auto simp: tap_learn_def map_of_tap_store split: option.split)

lemma tap_learn_some: "\<exists>a. map_of (tap_learn k addr rs) k = Some a \<and> ua_string a = ua_string addr"
  using map_of_tap_learn [of k addr rs k] by simp

lemma tap_store_keys: "set (map fst (tap_store k a rs)) = insert k (set (map fst rs))"
  by (induction k a rs rule: tap_store.induct) (simp_all add: insert_commute)

lemma tap_store_fst [simp]: "fst ` set (tap_store k a rs) = insert k (fst ` set rs)"
  using tap_store_keys [of k a rs] by simp

lemma tap_store_distinct: "distinct (map fst rs) \<Longrightarrow> distinct (map fst (tap_store k a rs))"
proof (induction rs)
  case (Cons r rs)
  then show ?case by (cases r) auto
qed simp

lemma tap_learn_distinct: "distinct (map fst rs) \<Longrightarrow> distinct (map fst (tap_learn k a rs))"
  by (simp add: tap_learn_def tap_store_distinct split: option.split)

text \<open>The frames that reach the server: their sources, and the address they came from.\<close>

fun tap_seen :: "tap_pkg \<Rightarrow> nat \<Rightarrow> tun_event list \<Rightarrow> tap_run \<Rightarrow> (byte list \<times> udp_addr) list" where
  "tap_seen P cap [] st = []"
| "tap_seen P cap (e # es) st =
     (case e of
        NetRead addr b ok \<Rightarrow>
          if ta_panic st \<or> ta_net_done st then []
          else (case mp_addrs P (take cap b) of None \<Rightarrow> [] | Some (src, dst) \<Rightarrow> [(hwAddrToTapRouteKey src, addr)])
      | _ \<Rightarrow> []) @ tap_seen P cap es (snd (tap_step P cap None e st))"

definition tap_last :: "(byte list \<times> udp_addr) list \<Rightarrow> byte list \<Rightarrow> string option \<Rightarrow> string option" where
  "tap_last ss k old = fold (\<lambda>(k', addr) a. if k' = k then Some (ua_string addr) else a) ss old"

lemma tap_ended_routes [simp]: "ta_routes (tap_ended e st) = ta_routes st"
  by (simp add: tap_ended_def split: tun_end.split)

lemma tap_in_routes:
  "snd (tap_in P None rs addr b ok) =
     (case mp_addrs P b of None \<Rightarrow> rs | Some (src, dst) \<Rightarrow> tap_learn (hwAddrToTapRouteKey src) addr rs)"
  by (simp add: tap_in_def Let_def split: option.split prod.split)

lemma tap_step_routes:
  "map_option ua_string (map_of (ta_routes (snd (tap_step P cap None e st))) k) =
     tap_last (tap_seen P cap [e] st) k (map_option ua_string (map_of (ta_routes st) k))"
proof (cases e)
  case (NetRead addr b ok)
  show ?thesis
    using tap_in_routes [of P "ta_routes st" addr "take cap b" ok]
    by (auto simp: NetRead tap_step_def tap_last_def map_of_tap_learn tap_learn_some split: option.splits prod.splits)
qed (auto simp: tap_step_def tap_last_def split: prod.split)

lemma tap_step_distinct:
  "distinct (map fst (ta_routes st)) \<Longrightarrow> distinct (map fst (ta_routes (snd (tap_step P cap None e st))))"
proof (cases e)
  case (NetRead addr b ok)
  assume "distinct (map fst (ta_routes st))"
  then show ?thesis
    using tap_in_routes [of P "ta_routes st" addr "take cap b" ok]
    by (auto simp: NetRead tap_step_def tap_learn_distinct split: option.splits prod.splits)
qed (auto simp: tap_step_def split: prod.splits)

lemma tap_steps_snd: "snd (tap_steps P cap raddr (e # es) st) = snd (tap_steps P cap raddr es (snd (tap_step P cap raddr e st)))"
  by (simp split: prod.split)

text \<open>
  The TAP server is a learning switch: after any events each hardware address has at most one route, and it leads to the socket
  address the last frame with that source came from.
\<close>

theorem tap_learns_last_source:
  assumes "distinct (map fst (ta_routes st))"
  shows "distinct (map fst (ta_routes (snd (tap_steps P cap None es st)))) \<and>
    map_option ua_string (map_of (ta_routes (snd (tap_steps P cap None es st))) k) =
      tap_last (tap_seen P cap es st) k (map_option ua_string (map_of (ta_routes st) k))"
  using assms
proof (induction es arbitrary: st)
  case (Cons e es)
  have "tap_last (tap_seen P cap (e # es) st) k (map_option ua_string (map_of (ta_routes st) k)) =
      tap_last (tap_seen P cap es (snd (tap_step P cap None e st))) k
        (tap_last (tap_seen P cap [e] st) k (map_option ua_string (map_of (ta_routes st) k)))"
    by (simp add: tap_last_def)
  then show ?case
    using Cons.IH [OF tap_step_distinct [OF Cons.prems]] by (simp only: tap_steps_snd tap_step_routes)
qed (simp add: tap_last_def)

definition demo_tap_pkg :: tap_pkg where
  "demo_tap_pkg =
     \<lparr>mp_addrs = (\<lambda>b. if length b < 14 then None else Some (take 6 (drop 6 b), take 6 b)),
      mp_broadcast = (\<lambda>a. a = replicate 6 255)\<rparr>"


theorem tap_learns_last_source_witness:
  "map_option ua_string (map_of (ta_routes (snd (tap_steps demo_tap_pkg 100 None
     [NetRead demo_udp_addr (replicate 6 255 @ [2,0,0,0,0,9,8,6]) True] (tap_start [])))) [2,0,0,0,0,9]) = Some (ua_string demo_udp_addr)"
proof -
  let ?es = "[NetRead demo_udp_addr (replicate 6 255 @ [2,0,0,0,0,9,8,6]) True]"
  have seen: "tap_seen demo_tap_pkg 100 ?es (tap_start []) = [([2,0,0,0,0,9], demo_udp_addr)]" by code_simp
  have start: "distinct (map fst (ta_routes (tap_start [])))" by (simp add: tap_start_def)
  show ?thesis
    using conjunct2 [OF tap_learns_last_source [OF start, of demo_tap_pkg 100 ?es "[2,0,0,0,0,9]"], unfolded seen]
    by (simp only: tap_last_def fold_simps prod.case if_True refl)
qed

end
