(* ===== verification/Socks.thy ===== *)
theory Socks
  imports Handler
begin

text \<open>
  The SOCKS servers (\<open>handler/socks/v5\<close>, \<open>handler/socks/v4\<close>): the selection of an authentication
  method, CONNECT, BIND for one and for many peers, and UDP over an association or a tunnel.  The
  messages are those of \<open>github.com/go-gost/gosocks4\<close> and \<open>gosocks5\<close>, whose constants and
  handshake are parameters.
\<close>

section \<open>Messages\<close>

record socks5_pkg =
  k5_MethodNoAuth :: byte
  k5_MethodUserPass :: byte
  k5_MethodNoAcceptable :: byte
  k5_CmdConnect :: byte
  k5_CmdBind :: byte
  k5_CmdUdp :: byte
  k5_Succeeded :: byte
  k5_Failure :: byte
  k5_NotAllowed :: byte
  k5_NetUnreachable :: byte
  k5_CmdUnsupported :: byte

text \<open>\<open>internal/util/socks/socks.go\<close>.\<close>

definition socks_MethodTLS :: byte where "socks_MethodTLS = 0x80"
definition socks_MethodTLSAuth :: byte where "socks_MethodTLSAuth = 0x82"
definition socks_CmdMuxBind :: byte where "socks_CmdMuxBind = 0xF2"
definition socks_CmdUDPTun :: byte where "socks_CmdUDPTun = 0xF3"

text \<open>
  The address of a reply: none, what \<open>ParseFrom\<close> makes of a text (it may fail, which the code
  ignores), or that with another host.
\<close>

datatype socks_addr = NoAddr | Parsed string | ParsedAt string string

datatype socks_reply = Reply5 byte socks_addr

datatype socks_err = SocksUnknownCmd | SocksWrongConn | SocksExternal

text \<open>
  What only this handler does: the messages of the handshake, the password negotiation, TLS, bound
  ports and their peers, sessions and their streams, and the relaying of datagrams (with the
  size of the buffer).
\<close>

datatype socks_special =
    Wire bool
  | StartTLS
  | UserPassRead "(string \<times> string) option"
  | UserPassReply byte bool
  | BindTCP string string bool
  | BindUDP string "(string \<times> nat) option" bool
  | CloseBound
  | AcceptPeer "string option"
  | AcceptPeers "string list"
  | PipeEnd
  | PeerReply socks_reply bool
  | RelayPeer
  | ClosePeer
  | UpgradeMux bool
  | CloseMux
  | OpenStream bool
  | CloseStream
  | IsPacketConn bool
  | RelayDatagrams nat
  | DrainClient

type_synonym socks_event = "(byte \<times> string, socks_reply, socks_special) event"
type_synonym socks_history = "(unit, socks_event) history"
type_synonym 'a socks_io = "(unit, socks_event, 'a) io"

section \<open>The handler and what it calls\<close>

record socks5_handler =
  sh_limiter :: "(string \<Rightarrow> bool) option"
  sh_auther :: "(string \<Rightarrow> string \<Rightarrow> bool) option"
  sh_bypass :: "(string \<Rightarrow> bool) option"
  sh_readTimeout :: int
  sh_noTLS :: bool
  sh_enableBind :: bool
  sh_enableUDP :: bool
  sh_udpBufferSize :: nat
  sh_compatibilityMode :: bool
  sh_hash :: string

text \<open>
  What ends the wait of BIND: a peer is accepted, accepting fails, or the client goes away, when a
  peer may have been accepted in the meantime.
\<close>

datatype bind_outcome = Accepted string | AcceptFails | ClientGone "string option"

text \<open>
  The oracles: the limiter, the password request, the request (a command and an address), whether a
  write succeeds, whether a dial does, a listener with its address, the upgrade to a session, a
  stream of it, the peers a listener accepts until it is closed, what ends a bind, and whether
  the connection of an association carries packets.
\<close>

record socks_world =
  sw_allow :: "socks_history \<Rightarrow> bool"
  sw_userpass :: "socks_history \<Rightarrow> (string \<times> string) option"
  sw_request :: "socks_history \<Rightarrow> (byte \<times> string) option"
  sw_write :: "socks_history \<Rightarrow> bool"
  sw_dial :: "socks_history \<Rightarrow> bool"
  sw_listen :: "socks_history \<Rightarrow> string option"
  sw_session :: "socks_history \<Rightarrow> bool"
  sw_stream :: "socks_history \<Rightarrow> bool"
  sw_peers :: "socks_history \<Rightarrow> string list"
  sw_bind :: "socks_history \<Rightarrow> bind_outcome"
  sw_packets :: "socks_history \<Rightarrow> bool"
  sw_resolve :: "string \<Rightarrow> string \<Rightarrow> (string \<times> nat) option"

definition socks_reply :: "socks_world \<Rightarrow> byte \<Rightarrow> socks_addr \<Rightarrow> bool socks_io" where
  "socks_reply E code addr = ask (sw_write E) (Reply (Reply5 code addr))"

text \<open>\<open>return reply.Write(conn)\<close>.\<close>

definition socks_refuse :: "socks_world \<Rightarrow> byte \<Rightarrow> socks_err option socks_io" where
  "socks_refuse E code = do {
     ok \<leftarrow> socks_reply E code NoAddr;
     return (if ok then None else Some SocksExternal)
   }"

text \<open>\<open>reply.Write(conn); return err\<close>.\<close>

definition socks_fail :: "socks_world \<Rightarrow> byte \<Rightarrow> socks_err \<Rightarrow> socks_err option socks_io" where
  "socks_fail E code err = do { socks_reply E code NoAddr; return (Some err) }"

section \<open>Methods\<close>

definition socks5_Select :: "socks5_pkg \<Rightarrow> socks5_handler \<Rightarrow> byte list \<Rightarrow> byte" where
  "socks5_Select K H methods =
     (let m = (if socks_MethodTLS \<in> set methods \<and> \<not> sh_noTLS H then socks_MethodTLS else k5_MethodNoAuth K)
      in if sh_auther H = None then m
         else let m = (if m = k5_MethodNoAuth K then k5_MethodUserPass K else m)
              in if m = socks_MethodTLS \<and> \<not> sh_noTLS H then socks_MethodTLSAuth else m)"

definition socks5_OnSelected :: "socks5_pkg \<Rightarrow> socks_world \<Rightarrow> socks5_handler \<Rightarrow> byte \<Rightarrow> bool socks_io" where
  "socks5_OnSelected K E H m =
     (if m = socks_MethodTLS then do { emit (Special StartTLS); return True }
      else if m = k5_MethodUserPass K \<or> m = socks_MethodTLSAuth then do {
        (if m = socks_MethodTLSAuth then emit (Special StartTLS) else return ());
        req \<leftarrow> ask (sw_userpass E) (\<lambda>r. Special (UserPassRead r));
        case req of
          None \<Rightarrow> return False
        | Some (user, pass) \<Rightarrow>
            if (case sh_auther H of None \<Rightarrow> False | Some auth \<Rightarrow> \<not> auth user pass)
            then do { ask (sw_write E) (\<lambda>ok. Special (UserPassReply (k5_Failure K) ok)); return False }
            else ask (sw_write E) (\<lambda>ok. Special (UserPassReply (k5_Succeeded K) ok))
      }
      else return (m \<noteq> k5_MethodNoAcceptable K))"

section \<open>Connect\<close>

definition socks5_bypassed :: "socks5_handler \<Rightarrow> string \<Rightarrow> bool" where
  "socks5_bypassed H address = (case sh_bypass H of None \<Rightarrow> False | Some contains \<Rightarrow> contains address)"

definition socks5_handleConnect ::
    "socks5_pkg \<Rightarrow> socks_world \<Rightarrow> socks5_handler \<Rightarrow> string \<Rightarrow> string \<Rightarrow> socks_err option socks_io"
where
  "socks5_handleConnect K E H network address =
     (if socks5_bypassed H address then socks_refuse E (k5_NotAllowed K)
      else do {
        ok \<leftarrow> ask (sw_dial E) (Dial (if sh_hash H = ''host'' then Some address else None) network address);
        if \<not> ok then socks_fail E (k5_NetUnreachable K) SocksExternal
        else deferring (emit CloseUp) (do {
          ok \<leftarrow> socks_reply E (k5_Succeeded K) NoAddr;
          if \<not> ok then return (Some SocksExternal)
          else do { emit (Transport False []); return None }
        })
      })"

section \<open>Bind\<close>

text \<open>
  \<open>serveBind\<close> waits for one peer while the client is relayed into a pipe.  The goroutine that
  accepts closes the listener; a peer it accepts while the client goes away is not closed.
\<close>

definition socks5_serveBind :: "socks5_pkg \<Rightarrow> socks_world \<Rightarrow> unit socks_io" where
  "socks5_serveBind K E = deferring (emit (Special PipeEnd)) (do {
     outcome \<leftarrow> ask (sw_bind E) (\<lambda>b. Special (AcceptPeer
       (case b of Accepted peer \<Rightarrow> Some peer | AcceptFails \<Rightarrow> None | ClientGone peer \<Rightarrow> peer)));
     emit (Special CloseBound);
     case outcome of
       AcceptFails \<Rightarrow> do {
         ask (sw_write E) (\<lambda>ok. Special (PeerReply (Reply5 (k5_Failure K) NoAddr) ok));
         return ()
       }
     | Accepted peer \<Rightarrow> deferring (emit (Special ClosePeer)) (do {
         ask (sw_write E) (\<lambda>ok. Special (PeerReply (Reply5 (k5_Succeeded K) (Parsed peer)) ok));
         emit (Special RelayPeer)
       })
     | ClientGone peer \<Rightarrow> return ()
   })"

text \<open>\<open>local\<close> is the address the client reached.\<close>

definition socks5_bindLocal ::
    "socks5_pkg \<Rightarrow> socks_world \<Rightarrow> string \<Rightarrow> string \<Rightarrow> string \<Rightarrow> socks_err option socks_io"
where
  "socks5_bindLocal K E local network address = do {
     ln \<leftarrow> ask (sw_listen E) (\<lambda>ln. Special (BindTCP network address (ln \<noteq> None)));
     case ln of
       None \<Rightarrow> socks_fail E (k5_Failure K) SocksExternal
     | Some addr \<Rightarrow> do {
         ok \<leftarrow> socks_reply E (k5_Succeeded K) (ParsedAt (host_of local) addr);
         if \<not> ok then do { emit (Special CloseBound); return (Some SocksExternal) }
         else do { socks5_serveBind K E; return None }
       }
   }"

definition socks5_handleBind ::
    "socks5_pkg \<Rightarrow> socks_world \<Rightarrow> socks5_handler \<Rightarrow> string \<Rightarrow> string \<Rightarrow> string \<Rightarrow> socks_err option socks_io"
where
  "socks5_handleBind K E H local network address =
     (if \<not> sh_enableBind H then socks_refuse E (k5_NotAllowed K)
      else socks5_bindLocal K E local network address)"

text \<open>
  A peer of a listener goes into a stream of the session.  The peers are served in goroutines of
  their own, here one after the other.
\<close>

definition socks5_servePeer :: "socks5_pkg \<Rightarrow> socks_world \<Rightarrow> socks5_handler \<Rightarrow> string \<Rightarrow> unit socks_io" where
  "socks5_servePeer K E H peer = do {
     emit (Special (AcceptPeer (Some peer)));
     deferring (emit (Special ClosePeer)) (do {
       ok \<leftarrow> ask (sw_stream E) (\<lambda>ok. Special (OpenStream ok));
       if \<not> ok then return ()
       else deferring (emit (Special CloseStream)) (do {
         ok \<leftarrow> (if sh_compatibilityMode H then return True
               else ask (sw_write E) (\<lambda>ok. Special (PeerReply (Reply5 (k5_Succeeded K) (Parsed peer)) ok)));
         if ok then emit (Special RelayPeer) else return ()
       })
     })
   }"

primrec socks5_servePeers :: "socks5_pkg \<Rightarrow> socks_world \<Rightarrow> socks5_handler \<Rightarrow> string list \<Rightarrow> unit socks_io" where
  "socks5_servePeers K E H [] = return ()"
| "socks5_servePeers K E H (peer # peers) = do { socks5_servePeer K E H peer; socks5_servePeers K E H peers }"

text \<open>
  Until \<open>Accept\<close> fails.  The listener is closed by the goroutine that refuses the streams of the
  client, which ends with the session; that goroutine is started only when there is a session.
\<close>

definition socks5_serveMuxBind :: "socks5_pkg \<Rightarrow> socks_world \<Rightarrow> socks5_handler \<Rightarrow> socks_err option socks_io" where
  "socks5_serveMuxBind K E H = do {
     ok \<leftarrow> ask (sw_session E) (\<lambda>ok. Special (UpgradeMux ok));
     if \<not> ok then return (Some SocksExternal)
     else do {
       peers \<leftarrow> ask (sw_peers E) (\<lambda>ps. Special (AcceptPeers ps));
       socks5_servePeers K E H peers;
       emit (Special CloseMux);
       emit (Special CloseBound);
       return (Some SocksExternal)
     }
   }"

definition socks5_muxBindLocal ::
    "socks5_pkg \<Rightarrow> socks_world \<Rightarrow> socks5_handler \<Rightarrow> string \<Rightarrow> string \<Rightarrow> string \<Rightarrow> socks_err option socks_io"
where
  "socks5_muxBindLocal K E H local network address = do {
     ln \<leftarrow> ask (sw_listen E) (\<lambda>ln. Special (BindTCP network address (ln \<noteq> None)));
     case ln of
       None \<Rightarrow> socks_fail E (k5_Failure K) SocksExternal
     | Some addr \<Rightarrow> do {
         ok \<leftarrow> socks_reply E (k5_Succeeded K) (ParsedAt (host_of local) addr);
         if \<not> ok then do { emit (Special CloseBound); return (Some SocksExternal) }
         else socks5_serveMuxBind K E H
       }
   }"

definition socks5_handleMuxBind ::
    "socks5_pkg \<Rightarrow> socks_world \<Rightarrow> socks5_handler \<Rightarrow> string \<Rightarrow> string \<Rightarrow> string \<Rightarrow> socks_err option socks_io"
where
  "socks5_handleMuxBind K E H local network address =
     (if \<not> sh_enableBind H then socks_refuse E (k5_NotAllowed K)
      else socks5_muxBindLocal K E H local network address)"

section \<open>UDP\<close>

text \<open>
  An association: datagrams are relayed, in a goroutine, until the client goes away.  The bypass
  of the handler is that of the relay.
\<close>

definition socks5_handleUDP :: "socks5_pkg \<Rightarrow> socks_world \<Rightarrow> socks5_handler \<Rightarrow> string \<Rightarrow> socks_err option socks_io" where
  "socks5_handleUDP K E H local =
     (if \<not> sh_enableUDP H then socks_refuse E (k5_NotAllowed K)
      else do {
        cc \<leftarrow> ask (sw_listen E) (\<lambda>cc. Special (BindUDP ''udp'' None (cc \<noteq> None)));
        case cc of
          None \<Rightarrow> socks_fail E (k5_Failure K) SocksExternal
        | Some addr \<Rightarrow> deferring (emit (Special CloseBound)) (do {
            ok \<leftarrow> socks_reply E (k5_Succeeded K) (ParsedAt (host_of local) addr);
            if \<not> ok then return (Some SocksExternal)
            else do {
              ok \<leftarrow> ask (sw_dial E) (Dial None ''udp'' []);
              if \<not> ok then return (Some SocksExternal)
              else deferring (emit CloseUp) (do {
                ok \<leftarrow> ask (sw_packets E) (\<lambda>ok. Special (IsPacketConn ok));
                if \<not> ok then return (Some SocksWrongConn)
                else do {
                  emit (Special (RelayDatagrams (sh_udpBufferSize H)));
                  emit (Special DrainClient);
                  return None
                }
              })
            }
          })
      })"

text \<open>A tunnel: without a port it is an association over the connection, with one a bound port.\<close>

definition socks5_handleUDPTun ::
    "socks5_pkg \<Rightarrow> socks_world \<Rightarrow> socks5_handler \<Rightarrow> string \<Rightarrow> string \<Rightarrow> socks_err option socks_io"
where
  "socks5_handleUDPTun K E H network address =
     (let bindAddr = (case sw_resolve E network address of None \<Rightarrow> ([], 0) | Some a \<Rightarrow> a)
      in if snd bindAddr = 0 \<and> \<not> sh_enableUDP H then socks_refuse E (k5_NotAllowed K)
         else if snd bindAddr \<noteq> 0 \<and> \<not> sh_enableBind H then socks_refuse E (k5_NotAllowed K)
         else do {
           pc \<leftarrow> ask (sw_listen E) (\<lambda>pc. Special (BindUDP network (Some bindAddr) (pc \<noteq> None)));
           case pc of
             None \<Rightarrow> return (Some SocksExternal)
           | Some addr \<Rightarrow> deferring (emit (Special CloseBound)) (do {
               ok \<leftarrow> socks_reply E (k5_Succeeded K) (Parsed addr);
               if \<not> ok then return (Some SocksExternal)
               else do { emit (Special (RelayDatagrams (sh_udpBufferSize H))); return None }
             })
         })"

section \<open>A session\<close>

definition socks5_dispatch ::
    "socks5_pkg \<Rightarrow> socks_world \<Rightarrow> socks5_handler \<Rightarrow> string \<Rightarrow> byte \<Rightarrow> string \<Rightarrow> socks_err option socks_io"
where
  "socks5_dispatch K E H local cmd address =
     (if cmd = k5_CmdConnect K then socks5_handleConnect K E H ''tcp'' address
      else if cmd = k5_CmdBind K then socks5_handleBind K E H local ''tcp'' address
      else if cmd = socks_CmdMuxBind then socks5_handleMuxBind K E H local ''tcp'' address
      else if cmd = k5_CmdUdp K then socks5_handleUDP K E H local
      else if cmd = socks_CmdUDPTun then socks5_handleUDPTun K E H ''udp'' address
      else socks_fail E (k5_CmdUnsupported K) SocksUnknownCmd)"

text \<open>
  The handshake of \<open>gosocks5.ServerConn\<close>, which runs when the request is read: it asks the selector
  for a method and then negotiates it.
\<close>

type_synonym socks_handshake = "(byte list \<Rightarrow> byte) \<Rightarrow> (byte \<Rightarrow> bool socks_io) \<Rightarrow> bool socks_io"

text \<open>From the handshake to the command.\<close>

definition socks5_serve ::
    "socks5_pkg \<Rightarrow> socks_handshake \<Rightarrow> socks_world \<Rightarrow> socks5_handler \<Rightarrow> string \<Rightarrow> socks_err option socks_io"
where
  "socks5_serve K handshake E H local = do {
     ok \<leftarrow> handshake (socks5_Select K H) (socks5_OnSelected K E H);
     if \<not> ok then return (Some SocksExternal)
     else do {
       req \<leftarrow> ask (sw_request E) ReadRequest;
       case req of
         None \<Rightarrow> return (Some SocksExternal)
       | Some (cmd, address) \<Rightarrow> do {
           emit (Deadline False);
           socks5_dispatch K E H local cmd address
         }
     }
   }"

definition socks5_Handle ::
    "socks5_pkg \<Rightarrow> socks_handshake \<Rightarrow> socks_world \<Rightarrow> socks5_handler \<Rightarrow> string \<Rightarrow> string \<Rightarrow> socks_err option socks_io"
where
  "socks5_Handle K handshake E H remote local = deferring (emit CloseClient) (do {
     ok \<leftarrow> checkRateLimit (sh_limiter H) (sw_allow E) remote;
     if \<not> ok then return None
     else do {
       (if sh_readTimeout H > 0 then emit (Deadline True) else return ());
       socks5_serve K handshake E H local
     }
   })"

section \<open>What the handshake promises\<close>

text \<open>
  The documented behaviour of the handshake: besides reading and writing its own messages, it does
  what \<open>OnSelected\<close> does for a method the selector gave, once, and it succeeds only if that did.
\<close>

fun is_wire :: "socks_event \<Rightarrow> bool" where
  "is_wire (Special (Wire b)) = True"
| "is_wire _ = False"

definition handshake_trace ::
    "(byte list \<Rightarrow> byte) \<Rightarrow> (byte \<Rightarrow> bool \<Rightarrow> socks_event list \<Rightarrow> bool) \<Rightarrow> bool \<Rightarrow> socks_event list \<Rightarrow> bool"
where
  "handshake_trace select R ok new \<longleftrightarrow> (\<exists>before mid after. new = before @ mid @ after \<and>
     (\<forall>e\<in>set (before @ after). is_wire e) \<and>
     (\<not> ok \<and> mid = [] \<or> (\<exists>ms b. R (select ms) b mid \<and> (ok \<longrightarrow> b))))"

definition handshake_runs :: "socks_handshake \<Rightarrow> bool" where
  "handshake_runs handshake \<longleftrightarrow>
     (\<forall>select selected R. (\<forall>m. traces (selected m) (R m)) \<longrightarrow>
        traces (handshake select selected) (handshake_trace select R))"

text \<open>The one of RFC 1928: the client's methods are read and the one selected is written.\<close>

definition rfc_handshake :: "(socks_history \<Rightarrow> byte list option) \<Rightarrow> socks_handshake" where
  "rfc_handshake methods select selected = do {
     ms \<leftarrow> ask methods (\<lambda>ms. Special (Wire (ms \<noteq> None)));
     case ms of
       None \<Rightarrow> return False
     | Some ms \<Rightarrow> do { emit (Special (Wire True)); selected (select ms) }
   }"

lemma handshake_traceI:
  assumes "\<forall>e\<in>set before. is_wire e" "R (select ms) b mid" "ok \<longrightarrow> b"
  shows "handshake_trace select R ok (before @ mid)"
  unfolding handshake_trace_def by (rule exI [of _ before], rule exI [of _ mid], rule exI [of _ "[]"]) (use assms in auto)

lemma handshake_trace_failed:
  "\<forall>e\<in>set new. is_wire e \<Longrightarrow> handshake_trace select R False new"
  unfolding handshake_trace_def by (rule exI [of _ new], rule exI [of _ "[]"], rule exI [of _ "[]"]) auto

lemma rfc_handshake_runs: "handshake_runs (rfc_handshake methods)"
  unfolding handshake_runs_def
proof (intro allI impI)
  fix select :: "byte list \<Rightarrow> byte" and selected :: "byte \<Rightarrow> bool socks_io" and R :: "byte \<Rightarrow> bool \<Rightarrow> socks_event list \<Rightarrow> bool"
  assume R: "\<forall>m. traces (selected m) (R m)"
  show "traces (rfc_handshake methods select selected) (handshake_trace select R)"
  proof (rule tracesI)
    fix w :: unit and es
    show "wp (rfc_handshake methods select selected) (\<lambda>a h. \<exists>new. snd h = es @ new \<and> handshake_trace select R a new) (w, es)"
    proof (cases "methods ((), es)")
      case None
      then show ?thesis by (simp add: rfc_handshake_def wp_simps handshake_trace_failed)
    next
      case (Some ms)
      let ?wire = "[Special (Wire True), Special (Wire True)]"
      have "wp (selected (select ms)) (\<lambda>a h. \<exists>new. snd h = es @ new \<and> handshake_trace select R a new) ((), es @ ?wire)"
        by (intro traces_use [OF R [rule_format]]) (use handshake_traceI [of ?wire R select ms] in force)
      then show ?thesis by (simp add: rfc_handshake_def wp_simps Some)
    qed
  qed
qed

section \<open>What a request permits\<close>

definition socks_serves :: "socks_event \<Rightarrow> bool" where
  "socks_serves e = (case e of
     Dial h n a ok \<Rightarrow> True | Transport udp ms \<Rightarrow> True | Special (BindTCP n a ok) \<Rightarrow> True
   | Special (BindUDP n b ok) \<Rightarrow> True | Special RelayPeer \<Rightarrow> True | Special (RelayDatagrams k) \<Rightarrow> True | _ \<Rightarrow> False)"

text \<open>
  A connection only to the requested address, which is not bypassed; a port bound only to the
  requested address, when that is enabled; an association only when UDP is enabled.
\<close>

definition socks5_permits :: "socks5_pkg \<Rightarrow> socks5_handler \<Rightarrow> byte \<Rightarrow> string \<Rightarrow> socks_event \<Rightarrow> bool" where
  "socks5_permits K H cmd address e = (case e of
     Dial h n a ok \<Rightarrow>
       cmd = k5_CmdConnect K \<and> n = ''tcp'' \<and> a = address \<and> \<not> socks5_bypassed H address \<or>
       cmd = k5_CmdUdp K \<and> sh_enableUDP H \<and> n = ''udp'' \<and> a = []
   | Transport udp ms \<Rightarrow> cmd = k5_CmdConnect K \<and> \<not> socks5_bypassed H address
   | Special (BindTCP n a ok) \<Rightarrow>
       cmd \<in> {k5_CmdBind K, socks_CmdMuxBind} \<and> sh_enableBind H \<and> n = ''tcp'' \<and> a = address
   | Special RelayPeer \<Rightarrow> cmd \<in> {k5_CmdBind K, socks_CmdMuxBind} \<and> sh_enableBind H
   | Special (BindUDP n b ok) \<Rightarrow>
       n = ''udp'' \<and> (cmd = k5_CmdUdp K \<and> b = None \<and> sh_enableUDP H \<or>
         cmd = socks_CmdUDPTun \<and> (case b of None \<Rightarrow> False | Some (h, p) \<Rightarrow> if p = 0 then sh_enableUDP H else sh_enableBind H))
   | Special (RelayDatagrams k) \<Rightarrow>
       k = sh_udpBufferSize H \<and> (cmd = k5_CmdUdp K \<and> sh_enableUDP H \<or> cmd = socks_CmdUDPTun \<and> (sh_enableUDP H \<or> sh_enableBind H))
   | Allow h ok \<Rightarrow> False
   | _ \<Rightarrow> True)"

text \<open>Ports that are bound, and closed.\<close>

fun binds :: "socks_event \<Rightarrow> bool" where
  "binds (Special (BindTCP n a ok)) = ok"
| "binds (Special (BindUDP n b ok)) = ok"
| "binds e = False"

definition ports_open :: "socks_event list \<Rightarrow> int" where
  "ports_open es = int (length (filter binds es)) - int (length (filter (\<lambda>e. e = Special CloseBound) es))"

lemma ports_open_simps [simp]:
  "ports_open [] = 0"
  "ports_open (e # es) = (if binds e then 1 else if e = Special CloseBound then - 1 else 0) + ports_open es"
  "ports_open (a @ b) = ports_open a + ports_open b"
  by (auto simp: ports_open_def)

definition socks_part ::
    "(socks_event \<Rightarrow> bool) \<Rightarrow> socks_event list \<Rightarrow> bool"
where
  "socks_part P new \<longleftrightarrow> list_all P new \<and> ports_open new = (if Special (UpgradeMux False) \<in> set new then 1 else 0) \<and>
     (\<forall>rest. target_typed (\<lambda>_. False) False (new @ rest) = target_typed (\<lambda>_. False) False rest)"

lemmas socks_io_defs = socks_refuse_def socks_fail_def socks_reply_def

lemma socks5_handleConnect_part:
  "traces (socks5_handleConnect K E H ''tcp'' address) (\<lambda>r. socks_part (socks5_permits K H (k5_CmdConnect K) address))"
  by (rule tracesI) (auto simp: socks5_handleConnect_def socks_io_defs wp_simps socks_part_def socks5_permits_def)

lemma socks5_handleBind_part:
  "traces (socks5_handleBind K E H local ''tcp'' address) (\<lambda>r. socks_part (socks5_permits K H (k5_CmdBind K) address))"
  by (rule tracesI)
    (auto simp: socks5_handleBind_def socks5_bindLocal_def socks5_serveBind_def socks_io_defs wp_simps socks_part_def
      socks5_permits_def split: option.splits bind_outcome.splits)

lemma socks5_servePeers_quiet:
  assumes "sh_enableBind H"
  shows "traces (socks5_servePeers K E H peers)
    (\<lambda>r new. list_all (socks5_permits K H socks_CmdMuxBind address) new \<and> ports_open new = 0 \<and> Special (UpgradeMux False) \<notin> set new \<and>
      (\<forall>rest. target_typed (\<lambda>_. False) False (new @ rest) = target_typed (\<lambda>_. False) False rest))"
proof (induction peers)
  case Nil
  then show ?case by (auto simp: traces_return)
next
  case (Cons peer peers)
  have "traces (socks5_servePeer K E H peer)
    (\<lambda>r new. list_all (socks5_permits K H socks_CmdMuxBind address) new \<and> ports_open new = 0 \<and> Special (UpgradeMux False) \<notin> set new \<and>
      (\<forall>rest. target_typed (\<lambda>_. False) False (new @ rest) = target_typed (\<lambda>_. False) False rest))"
    by (rule tracesI) (auto simp: socks5_servePeer_def wp_simps socks5_permits_def assms)
  from traces_bind [OF this Cons.IH] show ?case by simp
qed

lemma socks5_handleMuxBind_part:
  "traces (socks5_handleMuxBind K E H local ''tcp'' address) (\<lambda>r. socks_part (socks5_permits K H socks_CmdMuxBind address))"
proof (rule tracesI)
  fix w :: unit and es
  let ?quiet = "\<lambda>new. list_all (socks5_permits K H socks_CmdMuxBind address) new \<and> ports_open new = 0 \<and> Special (UpgradeMux False) \<notin> set new \<and>
      (\<forall>rest. target_typed (\<lambda>_. False) False (new @ rest) = target_typed (\<lambda>_. False) False rest)"
  have peers: "wp (socks5_servePeers K E H peers) Q ((), es')"
    if "sh_enableBind H" "\<And>new. ?quiet new \<Longrightarrow> Q () ((), es' @ new)" for peers es' Q
    by (rule traces_use [OF socks5_servePeers_quiet [OF that(1), of _ _ _ address]]) (use that(2) in auto)
  show "wp (socks5_handleMuxBind K E H local ''tcp'' address)
    (\<lambda>r h. \<exists>new. snd h = es @ new \<and> socks_part (socks5_permits K H socks_CmdMuxBind address) new) (w, es)"
    unfolding socks5_handleMuxBind_def socks5_muxBindLocal_def socks5_serveMuxBind_def
    by (auto simp: socks_io_defs wp_simps split: option.splits intro!: peers)
      (simp_all add: socks_part_def socks5_permits_def)
qed

lemma socks5_handleUDP_part:
  "traces (socks5_handleUDP K E H local) (\<lambda>r. socks_part (socks5_permits K H (k5_CmdUdp K) address))"
  by (rule tracesI)
    (auto simp: socks5_handleUDP_def socks_io_defs wp_simps socks_part_def socks5_permits_def split: option.splits)

lemma socks5_handleUDPTun_part:
  "traces (socks5_handleUDPTun K E H ''udp'' address) (\<lambda>r. socks_part (socks5_permits K H socks_CmdUDPTun address))"
  by (rule tracesI)
    (auto simp: socks5_handleUDPTun_def socks_io_defs wp_simps socks_part_def socks5_permits_def Let_def split: option.splits if_splits)

lemma socks5_dispatch_part:
  "traces (socks5_dispatch K E H local cmd address) (\<lambda>r. socks_part (socks5_permits K H cmd address))"
proof -
  have unknown: "traces (socks_fail E (k5_CmdUnsupported K) SocksUnknownCmd) (\<lambda>r. socks_part (socks5_permits K H cmd address))"
    by (rule tracesI) (auto simp: socks_io_defs wp_simps socks_part_def socks5_permits_def)
  show ?thesis
    using socks5_handleConnect_part socks5_handleBind_part socks5_handleMuxBind_part socks5_handleUDP_part socks5_handleUDPTun_part unknown
    by (simp add: socks5_dispatch_def)
qed

section \<open>A session\<close>

definition socks5_authorized :: "socks5_handler \<Rightarrow> socks_event list \<Rightarrow> bool" where
  "socks5_authorized H es =
     (case sh_auther H of
        None \<Rightarrow> True
      | Some auth \<Rightarrow> \<exists>(user, pass) \<in> {up. Special (UserPassRead (Some up)) \<in> set es}. auth user pass)"

definition socks5_may ::
    "socks5_pkg \<Rightarrow> socks5_handler \<Rightarrow> string \<Rightarrow> socks_event list \<Rightarrow> socks_event \<Rightarrow> bool"
where
  "socks5_may K H remote es e \<longleftrightarrow>
     (socks_serves e \<longrightarrow>
        Allow (host_of remote) False \<notin> set es \<and> socks5_authorized H es \<and>
        (\<exists>cmd address. ReadRequest (Some (cmd, address)) \<in> set es \<and> socks5_permits K H cmd address e))"

text \<open>The events of the handshake and of \<open>OnSelected\<close>.\<close>

definition socks_quiet :: "socks_event \<Rightarrow> bool" where
  "socks_quiet e = (case e of Special (Wire b) \<Rightarrow> True | Special StartTLS \<Rightarrow> True | Special (UserPassRead r) \<Rightarrow> True
   | Special (UserPassReply c ok) \<Rightarrow> True | _ \<Rightarrow> False)"

lemma socks_quiet_simps:
  "socks_quiet e \<Longrightarrow> \<not> socks_serves e" "socks_quiet e \<Longrightarrow> e \<noteq> Allow h ok" "socks_quiet e \<Longrightarrow> \<not> binds e"
  "socks_quiet e \<Longrightarrow> e \<noteq> Special CloseBound" "socks_quiet e \<Longrightarrow> e \<noteq> Special (UpgradeMux ok)"
  by (auto simp: socks_quiet_def socks_serves_def split: event.splits socks_special.splits)

lemma socks_quiet_list:
  assumes "\<forall>e\<in>set es. socks_quiet e"
  shows "guarded (socks5_may K H remote) pre es" "ports_open es = 0" "Allow h ok \<notin> set es" "Special (UpgradeMux ok) \<notin> set es"
    "target_typed (\<lambda>_. False) False (es @ rest) = target_typed (\<lambda>_. False) False rest"
proof -
  show "guarded (socks5_may K H remote) pre es"
    by (rule guarded_all) (use assms in \<open>auto simp: socks5_may_def dest: socks_quiet_simps\<close>)
  show "ports_open es = 0" using assms
    by (induction es) (auto dest: socks_quiet_simps)
  show "Allow h ok \<notin> set es" "Special (UpgradeMux ok) \<notin> set es" using assms by (auto simp: socks_quiet_def)
  show "target_typed (\<lambda>_. False) False (es @ rest) = target_typed (\<lambda>_. False) False rest" using assms
    by (induction es) (auto simp: socks_quiet_def split: event.splits)
qed

lemma socks5_OnSelected_traces:
  "traces (socks5_OnSelected K E H m)
    (\<lambda>ok new. (\<forall>e\<in>set new. socks_quiet e) \<and>
      (ok \<and> m \<noteq> socks_MethodTLS \<and> m \<in> {k5_MethodUserPass K, socks_MethodTLSAuth} \<longrightarrow> socks5_authorized H new))"
  by (rule tracesI)
    (auto simp: socks5_OnSelected_def wp_simps socks_quiet_def socks5_authorized_def split: option.splits)

lemma socks5_Select_auth:
  assumes "sh_auther H \<noteq> None" "k5_MethodUserPass K \<noteq> socks_MethodTLS"
  shows "socks5_Select K H ms \<noteq> socks_MethodTLS \<and> socks5_Select K H ms \<in> {k5_MethodUserPass K, socks_MethodTLSAuth}"
  using assms by (auto simp: socks5_Select_def Let_def socks_MethodTLS_def socks_MethodTLSAuth_def)

lemma socks5_handshake_traces:
  assumes "handshake_runs handshake" "k5_MethodUserPass K \<noteq> socks_MethodTLS"
  shows "traces (handshake (socks5_Select K H) (socks5_OnSelected K E H))
    (\<lambda>ok new. (\<forall>e\<in>set new. socks_quiet e) \<and> (ok \<longrightarrow> socks5_authorized H new))"
proof -
  let ?R = "\<lambda>m ok new. (\<forall>e\<in>set new. socks_quiet e) \<and>
      (ok \<and> m \<noteq> socks_MethodTLS \<and> m \<in> {k5_MethodUserPass K, socks_MethodTLSAuth} \<longrightarrow> socks5_authorized H new)"
  have wire: "is_wire e \<Longrightarrow> socks_quiet e" for e by (cases e rule: is_wire.cases) (auto simp: socks_quiet_def)
  have more: "socks5_authorized H mid \<Longrightarrow> socks5_authorized H (before @ mid @ after)" for before mid after
    by (auto simp: socks5_authorized_def split: option.splits)
  have none: "sh_auther H = None \<Longrightarrow> socks5_authorized H es" for es by (simp add: socks5_authorized_def)
  have "traces (handshake (socks5_Select K H) (socks5_OnSelected K E H)) (handshake_trace (socks5_Select K H) ?R)"
    by (rule assms(1) [unfolded handshake_runs_def, rule_format]) (rule socks5_OnSelected_traces)
  then show ?thesis
  proof (rule traces_mono)
    fix ok new
    assume "handshake_trace (socks5_Select K H) ?R ok new"
    then obtain before mid after where new: "new = before @ mid @ after" "\<forall>e\<in>set (before @ after). is_wire e"
        and m: "\<not> ok \<and> mid = [] \<or> (\<exists>ms b. ?R (socks5_Select K H ms) b mid \<and> (ok \<longrightarrow> b))"
      unfolding handshake_trace_def by (elim exE conjE)
    have "\<forall>e\<in>set (before @ after). socks_quiet e" using new(2) wire by fast
    moreover have "\<forall>e\<in>set mid. socks_quiet e" using m by auto
    moreover have "socks5_authorized H new" if ok
      using m that new(1) none more socks5_Select_auth [OF _ assms(2), of H] by (cases "sh_auther H = None") auto
    ultimately show "(\<forall>e\<in>set new. socks_quiet e) \<and> (ok \<longrightarrow> socks5_authorized H new)"
      using new(1) by auto
  qed
qed

text \<open>What follows a history in which the limiter refused nothing, and which is guarded.\<close>

lemma socks5_dispatch_guarded:
  assumes "guarded (socks5_may K H remote) [] es" "ReadRequest (Some (cmd, address)) \<in> set es"
    "Allow (host_of remote) False \<notin> set es" "socks5_authorized H es"
  shows "wp (socks5_dispatch K E H local cmd address) (\<lambda>r h. guarded (socks5_may K H remote) [] (snd h)) (w, es)"
proof (rule traces_use [OF socks5_dispatch_part])
  fix a w' new
  assume "socks_part (socks5_permits K H cmd address) new"
  then have new: "\<forall>e\<in>set new. socks5_permits K H cmd address e" by (simp add: socks_part_def list_all_iff)
  have not_allow: "\<not> socks5_permits K H cmd address (Allow h ok)" for h ok
    by (simp add: socks5_permits_def)
  have "guarded (socks5_may K H remote) es new"
  proof (rule guarded_stable [where K = "\<lambda>e. e \<noteq> Allow (host_of remote) False"])
    show "\<forall>e\<in>set new. e \<noteq> Allow (host_of remote) False \<and> socks5_may K H remote es e"
      using new assms(2-4) not_allow by (auto simp: socks5_may_def)
  qed (auto simp: socks5_may_def socks5_authorized_def split: option.splits)
  with assms(1) show "guarded (socks5_may K H remote) [] (snd (w', es @ new))" by simp
qed

lemma socks5_may_always:
  "socks5_may K H remote pre (Allow h b)" "socks5_may K H remote pre (Deadline b)"
  "socks5_may K H remote pre (ReadRequest q)" "socks5_may K H remote pre CloseClient"
  by (simp_all add: socks5_may_def socks_serves_def)

lemma socks5_serve_guarded:
  assumes "handshake_runs handshake" "k5_MethodUserPass K \<noteq> socks_MethodTLS"
    and es: "guarded (socks5_may K H remote) [] es" "Allow (host_of remote) False \<notin> set es"
  shows "wp (socks5_serve K handshake E H local) (\<lambda>r h. guarded (socks5_may K H remote) [] (snd h)) (w, es)"
  unfolding socks5_serve_def wp_bind
proof (rule traces_use [OF socks5_handshake_traces [OF assms(1,2)]])
  fix ok w' new
  assume new: "(\<forall>e\<in>set new. socks_quiet e) \<and> (ok \<longrightarrow> socks5_authorized H new)"
  have "socks5_authorized H new \<Longrightarrow> socks5_authorized H (es @ new @ rest)" for rest
    by (auto simp: socks5_authorized_def split: option.splits)
  then show "wp (if \<not> ok then return (Some SocksExternal)
        else ask (sw_request E) ReadRequest \<bind> (\<lambda>req. case req of
            None \<Rightarrow> return (Some SocksExternal)
          | Some (cmd, address) \<Rightarrow> emit (Deadline False) \<bind> (\<lambda>_. socks5_dispatch K E H local cmd address)))
      (\<lambda>r h. guarded (socks5_may K H remote) [] (snd h)) (w', es @ new)"
    using es new socks_quiet_list [of new]
    by (auto simp: wp_simps socks5_may_always split: option.splits intro!: socks5_dispatch_guarded)
qed

text \<open>
  C16.  Whenever a SOCKS5 session dials, binds a port or relays, the rate limiter refused nothing, a
  user of the authenticator, if there is one, gave the password, and a request was read that
  permits it: a connection only to the address of a CONNECT, and not to a bypassed one; a port
  only for BIND, and only where BIND is enabled; an association only where UDP is.
\<close>

theorem socks5_serves_only_permitted:
  assumes "handshake_runs handshake" "k5_MethodUserPass K \<noteq> socks_MethodTLS"
  shows "guarded (socks5_may K H remote) [] (io_trace (socks5_Handle K handshake E H remote local) ())"
proof -
  let ?G = "\<lambda>r (h :: socks_history). guarded (socks5_may K H remote) [] (snd h)"
  define allowed where "allowed = (case sh_limiter H of Some has \<Rightarrow> has (host_of remote) \<longrightarrow> sw_allow E ((), []) | None \<Rightarrow> True)"
  have rate: "guarded (socks5_may K H remote) [] (rate_allowed (sh_limiter H) remote allowed)"
    "allowed \<Longrightarrow> Allow (host_of remote) False \<notin> set (rate_allowed (sh_limiter H) remote allowed)"
    by (auto simp: rate_allowed_def socks5_may_always split: option.splits)
  have serve: "wp (socks5_serve K handshake E H local) (\<lambda>r. wp (emit CloseClient) (\<lambda>_. ?G r)) ((), es)"
    if "guarded (socks5_may K H remote) [] es" "Allow (host_of remote) False \<notin> set es" for es
    by (rule wp_mono [OF socks5_serve_guarded [OF assms that]]) (auto simp: wp_simps socks5_may_always)
  have "wp (socks5_Handle K handshake E H remote local) ?G ((), [])"
    using rate by (auto simp: socks5_Handle_def wp_simps allowed_def [symmetric] socks5_may_always intro!: serve)
  then show ?thesis by (rule io_trace_wp)
qed

definition rfc1928 :: socks5_pkg where
  "rfc1928 = \<lparr>k5_MethodNoAuth = 0, k5_MethodUserPass = 2, k5_MethodNoAcceptable = 0xFF, k5_CmdConnect = 1, k5_CmdBind = 2,
     k5_CmdUdp = 3, k5_Succeeded = 0, k5_Failure = 1, k5_NotAllowed = 2, k5_NetUnreachable = 3, k5_CmdUnsupported = 7\<rparr>"

definition demo_socks_handler :: socks5_handler where
  "demo_socks_handler = \<lparr>sh_limiter = None, sh_auther = Some (\<lambda>u p. u = ''u'' \<and> p = ''p''), sh_bypass = Some (\<lambda>a. a = ''10.0.0.9:80''),
     sh_readTimeout = 0, sh_noTLS = False, sh_enableBind = True, sh_enableUDP = False, sh_udpBufferSize = 4096,
     sh_compatibilityMode = False, sh_hash = []\<rparr>"

definition demo_socks_world :: "byte \<times> string \<Rightarrow> socks_world" where
  "demo_socks_world req = \<lparr>sw_allow = \<lambda>_. True, sw_userpass = \<lambda>_. Some (''u'', ''p''), sw_request = \<lambda>_. Some req,
     sw_write = \<lambda>_. True, sw_dial = \<lambda>_. True, sw_listen = \<lambda>_. Some ''[::]:1080'', sw_session = \<lambda>_. False, sw_stream = \<lambda>_. True,
     sw_peers = \<lambda>_. [], sw_bind = \<lambda>_. AcceptFails, sw_packets = \<lambda>_. True, sw_resolve = \<lambda>_ _. None\<rparr>"

lemma demo_socks_trace:
  "io_trace (socks5_Handle rfc1928 (rfc_handshake (\<lambda>_. Some [0, 2])) (demo_socks_world (1, ''10.0.0.1:80'')) demo_socks_handler ''10.0.0.2:9'' []) () =
     [Special (Wire True), Special (Wire True), Special (UserPassRead (Some (''u'', ''p''))), Special (UserPassReply 0 True),
      ReadRequest (Some (1, ''10.0.0.1:80'')), Deadline False, Dial None ''tcp'' ''10.0.0.1:80'' True,
      Reply (Reply5 0 NoAddr) True, Transport False [], CloseUp, CloseClient]"
  by code_simp

theorem socks5_serves_only_permitted_witness:
  "guarded (socks5_may rfc1928 demo_socks_handler ''10.0.0.2:9'') []
     [Special (Wire True), Special (Wire True), Special (UserPassRead (Some (''u'', ''p''))), Special (UserPassReply 0 True),
      ReadRequest (Some (1, ''10.0.0.1:80'')), Deadline False, Dial None ''tcp'' ''10.0.0.1:80'' True,
      Reply (Reply5 0 NoAddr) True, Transport False [], CloseUp, CloseClient]"
  using socks5_serves_only_permitted [OF rfc_handshake_runs, of rfc1928 demo_socks_handler "''10.0.0.2:9''" "\<lambda>_. Some [0, 2]"
      "demo_socks_world (1, ''10.0.0.1:80'')" "[]"]
  by (simp add: demo_socks_trace) (simp add: rfc1928_def socks_MethodTLS_def)

section \<open>Ports\<close>

lemma socks5_serve_ports:
  assumes "handshake_runs handshake" "k5_MethodUserPass K \<noteq> socks_MethodTLS"
  shows "traces (socks5_serve K handshake E H local) (\<lambda>r. socks_part (\<lambda>_. True))"
proof -
  have dispatch: "traces (socks5_dispatch K E H local cmd address) (\<lambda>r. socks_part (\<lambda>_. True))" for cmd address
    by (rule traces_mono [OF socks5_dispatch_part]) (auto simp: socks_part_def list_all_iff)
  have rest: "traces (if \<not> ok then return (Some SocksExternal)
        else ask (sw_request E) ReadRequest \<bind> (\<lambda>req. case req of
            None \<Rightarrow> return (Some SocksExternal)
          | Some (cmd, address) \<Rightarrow> emit (Deadline False) \<bind> (\<lambda>_. socks5_dispatch K E H local cmd address)))
      (\<lambda>r. socks_part (\<lambda>_. True))" for ok
  proof (rule tracesI)
    fix w :: unit and es
    have served: "wp (socks5_dispatch K E H local cmd address) (\<lambda>a h. \<exists>new. snd h = es @ new \<and> socks_part (\<lambda>_. True) new)
        ((), es @ [ReadRequest q, Deadline False])" for cmd address q
      by (rule traces_use [OF dispatch]) (auto simp: socks_part_def list_all_iff)
    show "wp (if \<not> ok then return (Some SocksExternal)
        else ask (sw_request E) ReadRequest \<bind> (\<lambda>req. case req of
            None \<Rightarrow> return (Some SocksExternal)
          | Some (cmd, address) \<Rightarrow> emit (Deadline False) \<bind> (\<lambda>_. socks5_dispatch K E H local cmd address)))
      (\<lambda>a h. \<exists>new. snd h = es @ new \<and> socks_part (\<lambda>_. True) new) (w, es)"
      by (auto simp: wp_simps split: option.splits intro!: served) (auto simp: socks_part_def list_all_iff)
  qed
  show ?thesis
    unfolding socks5_serve_def
    by (rule traces_bind [OF socks5_handshake_traces [OF assms] rest])
      (auto simp: socks_part_def list_all_iff dest: socks_quiet_list)
qed

text \<open>
  A SOCKS5 session leaves no port bound and no connection to a target open, except that a
  port bound for many peers stays bound, for ever, when the upgrade of the client's connection
  to a session fails.
\<close>

theorem socks5_failed_upgrade_keeps_port:
  assumes "handshake_runs handshake" "k5_MethodUserPass K \<noteq> socks_MethodTLS"
  shows "let es = io_trace (socks5_Handle K handshake E H remote local) ()
    in ports_open es = (if Special (UpgradeMux False) \<in> set es then 1 else 0) \<and> target_typed (\<lambda>_. False) False es"
proof -
  have served: "wp (socks5_serve K handshake E H local) Q ((), es)"
    if "\<And>r new. socks_part (\<lambda>_. True) new \<Longrightarrow> Q r ((), es @ new)" for Q es
    by (rule traces_use [OF socks5_serve_ports [OF assms]]) (use that in auto)
  have rate: "ports_open (rate_allowed l a ok) = 0" "Special (UpgradeMux False) \<notin> set (rate_allowed l a ok)" for l a ok
    by (auto simp: rate_allowed_def split: option.split)
  have "wp (socks5_Handle K handshake E H remote local) (\<lambda>r h.
      ports_open (snd h) = (if Special (UpgradeMux False) \<in> set (snd h) then 1 else 0) \<and> target_typed (\<lambda>_. False) False (snd h)) ((), [])"
    by (auto simp: socks5_Handle_def wp_simps rate Let_def socks_part_def intro!: served)
  from io_trace_wp [where P = "\<lambda>r es. ports_open es = (if Special (UpgradeMux False) \<in> set es then 1 else 0) \<and> target_typed (\<lambda>_. False) False es", OF this]
  show ?thesis by (simp add: Let_def)
qed

theorem socks5_failed_upgrade_keeps_port_witness:
  "ports_open (io_trace (socks5_Handle rfc1928 (rfc_handshake (\<lambda>_. Some [0, 2])) (demo_socks_world (0xF2, ''10.0.0.1:80''))
     demo_socks_handler ''10.0.0.2:9'' []) ()) = 1"
proof -
  let ?es = "io_trace (socks5_Handle rfc1928 (rfc_handshake (\<lambda>_. Some [0, 2])) (demo_socks_world (0xF2, ''10.0.0.1:80''))
     demo_socks_handler ''10.0.0.2:9'' []) ()"
  have "?es ! 8 = Special (UpgradeMux False)" "8 < length ?es" by code_simp+
  then have "Special (UpgradeMux False) \<in> set ?es" by (metis nth_mem)
  moreover have "k5_MethodUserPass rfc1928 \<noteq> socks_MethodTLS" by code_simp
  ultimately show ?thesis
    using socks5_failed_upgrade_keeps_port [OF rfc_handshake_runs, of rfc1928 "\<lambda>_. Some [0, 2]"
        "demo_socks_world (0xF2, ''10.0.0.1:80'')" demo_socks_handler "''10.0.0.2:9''" "[]"]
    by (simp add: Let_def)
qed

section \<open>SOCKS4\<close>

record socks4_pkg =
  k4_CmdConnect :: byte
  k4_CmdBind :: byte
  k4_Granted :: byte
  k4_Failed :: byte
  k4_Rejected :: byte
  k4_RejectedUserid :: byte

text \<open>A request has a command, an address and the name of a user.\<close>

record socks4_request =
  s4_cmd :: byte
  s4_addr :: string
  s4_userid :: string

type_synonym socks4_event = "(socks4_request, byte, unit) event"
type_synonym 'a socks4_io = "(unit, socks4_event, 'a) io"

record socks4_handler =
  s4h_limiter :: "(string \<Rightarrow> bool) option"
  s4h_auther :: "(string \<Rightarrow> string \<Rightarrow> bool) option"
  s4h_bypass :: "(string \<Rightarrow> bool) option"
  s4h_readTimeout :: int
  s4h_hash :: string

record socks4_world =
  s4w_allow :: "(unit, socks4_event) history \<Rightarrow> bool"
  s4w_request :: "(unit, socks4_event) history \<Rightarrow> socks4_request option"
  s4w_write :: "(unit, socks4_event) history \<Rightarrow> bool"
  s4w_dial :: "(unit, socks4_event) history \<Rightarrow> bool"

datatype socks4_err = Socks4UnknownCmd | Socks4Unimplemented | Socks4External

definition socks4_refuse :: "socks4_world \<Rightarrow> byte \<Rightarrow> socks4_err option socks4_io" where
  "socks4_refuse E code = do {
     ok \<leftarrow> ask (s4w_write E) (Reply code);
     return (if ok then None else Some Socks4External)
   }"

definition socks4_handleConnect ::
    "socks4_pkg \<Rightarrow> socks4_world \<Rightarrow> socks4_handler \<Rightarrow> socks4_request \<Rightarrow> socks4_err option socks4_io"
where
  "socks4_handleConnect K E H req =
     (let addr = s4_addr req
      in if (case s4h_bypass H of None \<Rightarrow> False | Some contains \<Rightarrow> contains addr) then socks4_refuse E (k4_Rejected K)
         else do {
           ok \<leftarrow> ask (s4w_dial E) (Dial (if s4h_hash H = ''host'' then Some addr else None) ''tcp'' addr);
           if \<not> ok then do { ask (s4w_write E) (Reply (k4_Failed K)); return (Some Socks4External) }
           else deferring (emit CloseUp) (do {
             ok \<leftarrow> ask (s4w_write E) (Reply (k4_Granted K));
             if \<not> ok then return (Some Socks4External)
             else do { emit (Transport False []); return None }
           })
         })"

definition socks4_handleBind :: "socks4_err option socks4_io" where
  "socks4_handleBind = return (Some Socks4Unimplemented)"

definition socks4_Handle ::
    "socks4_pkg \<Rightarrow> socks4_world \<Rightarrow> socks4_handler \<Rightarrow> string \<Rightarrow> socks4_err option socks4_io"
where
  "socks4_Handle K E H remote = deferring (emit CloseClient) (do {
     ok \<leftarrow> checkRateLimit (s4h_limiter H) (s4w_allow E) remote;
     if \<not> ok then return None
     else do {
       (if s4h_readTimeout H > 0 then emit (Deadline True) else return ());
       req \<leftarrow> ask (s4w_request E) ReadRequest;
       case req of
         None \<Rightarrow> return (Some Socks4External)
       | Some req \<Rightarrow> do {
           emit (Deadline False);
           if (case s4h_auther H of None \<Rightarrow> False | Some auth \<Rightarrow> \<not> auth (s4_userid req) [])
           then socks4_refuse E (k4_RejectedUserid K)
           else if s4_cmd req = k4_CmdConnect K then socks4_handleConnect K E H req
           else if s4_cmd req = k4_CmdBind K then socks4_handleBind
           else return (Some Socks4UnknownCmd)
         }
     }
   })"

text \<open>A SOCKS4 session dials only the requested address, for a user accepted without a password.\<close>

definition socks4_may :: "socks4_pkg \<Rightarrow> socks4_handler \<Rightarrow> string \<Rightarrow> socks4_event list \<Rightarrow> socks4_event \<Rightarrow> bool" where
  "socks4_may K H remote es e = (case e of
     Dial h n a ok \<Rightarrow> Allow (host_of remote) False \<notin> set es \<and> n = ''tcp'' \<and>
       (\<exists>req. ReadRequest (Some req) \<in> set es \<and> s4_cmd req = k4_CmdConnect K \<and> a = s4_addr req \<and>
         (case s4h_auther H of None \<Rightarrow> True | Some auth \<Rightarrow> auth (s4_userid req) []) \<and>
         (case s4h_bypass H of None \<Rightarrow> True | Some contains \<Rightarrow> \<not> contains a))
   | _ \<Rightarrow> True)"

lemma socks4_may_simps:
  "socks4_may K H remote es (Allow h ok)" "socks4_may K H remote es (Deadline b)" "socks4_may K H remote es (ReadRequest q)"
  "socks4_may K H remote es (Reply m ok)" "socks4_may K H remote es (Transport u ms)" "socks4_may K H remote es CloseUp"
  "socks4_may K H remote es CloseClient"
  by (simp_all add: socks4_may_def)

lemma socks4_handleConnect_guarded:
  assumes "guarded (socks4_may K H remote) [] es" "ReadRequest (Some req) \<in> set es" "Allow (host_of remote) False \<notin> set es"
    "s4_cmd req = k4_CmdConnect K" "case s4h_auther H of None \<Rightarrow> True | Some auth \<Rightarrow> auth (s4_userid req) []"
  shows "wp (socks4_handleConnect K E H req) (\<lambda>r h. guarded (socks4_may K H remote) [] (snd h)) (w, es)"
proof -
  have dial: "socks4_may K H remote es (Dial h ''tcp'' (s4_addr req) ok)"
    if "\<not> (case s4h_bypass H of None \<Rightarrow> False | Some contains \<Rightarrow> contains (s4_addr req))" for h ok
    using assms(2-) that by (auto simp: socks4_may_def split: option.splits)
  show ?thesis
    by (auto simp: socks4_handleConnect_def socks4_refuse_def wp_simps Let_def assms(1) socks4_may_simps dial)
qed

text \<open>
  A SOCKS4 session dials only the address of a CONNECT that is not bypassed, for a user the
  authenticator accepts without a password, and not past the rate limiter.
\<close>

theorem socks4_serves_only_permitted:
  "guarded (socks4_may K H remote) [] (io_trace (socks4_Handle K E H remote) ())"
proof -
  define allowed where "allowed = (case s4h_limiter H of Some has \<Rightarrow> has (host_of remote) \<longrightarrow> s4w_allow E ((), []) | None \<Rightarrow> True)"
  have rate: "guarded (socks4_may K H remote) [] (rate_allowed (s4h_limiter H) remote allowed)"
    "allowed \<Longrightarrow> Allow (host_of remote) False \<notin> set (rate_allowed (s4h_limiter H) remote allowed)"
    by (auto simp: rate_allowed_def socks4_may_simps split: option.splits)
  have connect: "wp (socks4_handleConnect K E H req) (\<lambda>r h. wp (emit CloseClient) (\<lambda>_ h. guarded (socks4_may K H remote) [] (snd h)) h) ((), es)"
    if "guarded (socks4_may K H remote) [] es" "ReadRequest (Some req) \<in> set es" "Allow (host_of remote) False \<notin> set es"
    "s4_cmd req = k4_CmdConnect K" "case s4h_auther H of None \<Rightarrow> True | Some auth \<Rightarrow> auth (s4_userid req) []" for req es
    by (rule wp_mono [OF socks4_handleConnect_guarded [OF that]]) (auto simp: wp_simps socks4_may_simps)
  have "wp (socks4_Handle K E H remote) (\<lambda>r h. guarded (socks4_may K H remote) [] (snd h)) ((), [])"
    using rate
    by (auto simp: socks4_Handle_def socks4_refuse_def socks4_handleBind_def wp_simps allowed_def [symmetric]
        socks4_may_simps intro!: connect split: option.splits)
  then show ?thesis by (rule io_trace_wp)
qed

end
