(* ===== verification/SocksConnector.thy ===== *)
theory SocksConnector
  imports Socks Bytes
begin

text \<open>
  The SOCKS connectors (\<open>connector/socks/v5\<close>, \<open>connector/socks/v4\<close>) and the datagrams of SOCKS
  (\<open>internal/util/socks/conn.go\<close>): methods and their negotiation, the requests for connections, for datagrams and for bound ports, and
  datagrams over an association or a stream.  Messages are those of \<open>Socks\<close>, whose server answers them.
\<close>

section \<open>The connector and what it calls\<close>

record socks5_connector =
  sc_auth :: "(string \<times> string) option"
  sc_connectTimeout :: int
  sc_noTLS :: bool
  sc_relay :: string
  sc_udpBufferSize :: nat

datatype sc_event =
    ScDeadline bool
  | ScWire bool
  | ScTLS
  | ScUserPass string string bool
  | ScUserPassResp "byte option"
  | ScRequest byte socks_addr bool
  | ScReply "(byte \<times> string) option"
  | ScDial string bool
  | ScSession bool
  | ScStream bool
  | ScCloseStream

type_synonym sc_history = "(unit, sc_event) history"
type_synonym 'a sc_io = "(unit, sc_event, 'a) io"

text \<open>
  The oracles: a write, the status of an authentication, a reply (its code and address), a dial, the upgrade to a session and a
  stream of it; and whether \<open>ParseFrom\<close> takes an address, and what it resolves to.
\<close>

record sc_world =
  scw_write :: "sc_history \<Rightarrow> bool"
  scw_status :: "sc_history \<Rightarrow> byte option"
  scw_reply :: "sc_history \<Rightarrow> (byte \<times> string) option"
  scw_dial :: "sc_history \<Rightarrow> bool"
  scw_session :: "sc_history \<Rightarrow> bool"
  scw_accept :: "sc_history \<Rightarrow> bool"
  scw_parses :: "string \<Rightarrow> bool"
  scw_resolve :: "string \<Rightarrow> string \<Rightarrow> string option"

datatype sc_err = ScIO | ScHandshake | ScNetwork | ScTcpOverUdp | ScParse | ScRefused | ScResolve | ScMux

text \<open>A stream, datagrams over the stream for a target, or an association for a target, with the address to send to.\<close>

datatype sc_conn = ScStreamConn | ScTunConn string | ScRelayConn string string

definition sc_timed :: "int \<Rightarrow> 'a sc_io \<Rightarrow> 'a sc_io" where
  "sc_timed timeout m =
     (if timeout > 0 then do { emit (ScDeadline True); deferring (emit (ScDeadline False)) m } else m)"

section \<open>Methods\<close>

definition sc_methods :: "socks5_pkg \<Rightarrow> socks5_connector \<Rightarrow> byte list" where
  "sc_methods K C =
     [k5_MethodNoAuth K] @ (if sc_auth C \<noteq> None then [k5_MethodUserPass K] else []) @
     (if sc_noTLS C then []
      else [socks_MethodTLS] @ (if sc_auth C \<noteq> None then [socks_MethodTLSAuth] else []))"

definition sc_OnSelected :: "socks5_pkg \<Rightarrow> sc_world \<Rightarrow> socks5_connector \<Rightarrow> byte \<Rightarrow> bool sc_io" where
  "sc_OnSelected K E C m =
     (if m = socks_MethodTLS then do { emit ScTLS; return True }
      else if m = k5_MethodUserPass K \<or> m = socks_MethodTLSAuth then do {
        (if m = socks_MethodTLSAuth then emit ScTLS else return ());
        let (username, password) = (case sc_auth C of None \<Rightarrow> ([], []) | Some up \<Rightarrow> up);
        ok \<leftarrow> ask (scw_write E) (ScUserPass username password);
        if \<not> ok then return False
        else do {
          resp \<leftarrow> ask (scw_status E) ScUserPassResp;
          return (resp = Some (k5_Succeeded K))
        }
      }
      else return (m \<noteq> k5_MethodNoAcceptable K))"

text \<open>The handshake of \<open>gosocks5.ClientConn\<close> offers the methods and negotiates the one that is selected.\<close>

type_synonym sc_handshake = "byte list \<Rightarrow> (byte \<Rightarrow> bool sc_io) \<Rightarrow> bool sc_io"

definition sc_Handshake :: "socks5_pkg \<Rightarrow> sc_handshake \<Rightarrow> sc_world \<Rightarrow> socks5_connector \<Rightarrow> sc_err option sc_io" where
  "sc_Handshake K handshake E C = sc_timed (sc_connectTimeout C) (do {
     ok \<leftarrow> handshake (sc_methods K C) (sc_OnSelected K E C);
     return (if ok then None else Some ScHandshake)
   })"

section \<open>Requests\<close>

text \<open>A request is written and its reply read.\<close>

definition sc_roundtrip :: "sc_world \<Rightarrow> byte \<Rightarrow> socks_addr \<Rightarrow> (byte \<times> string) option sc_io" where
  "sc_roundtrip E cmd addr = do {
     ok \<leftarrow> ask (scw_write E) (ScRequest cmd addr);
     if \<not> ok then return None else ask (scw_reply E) ScReply
   }"

definition sc_relayUDP :: "socks5_pkg \<Rightarrow> sc_world \<Rightarrow> socks5_connector \<Rightarrow> string \<Rightarrow> (sc_err + sc_conn) sc_io" where
  "sc_relayUDP K E C addr = do {
     reply \<leftarrow> sc_roundtrip E (k5_CmdUdp K) NoAddr;
     case reply of
       None \<Rightarrow> return (Inl ScIO)
     | Some (rep, baddr) \<Rightarrow>
         if rep \<noteq> k5_Succeeded K then return (Inl ScRefused)
         else do {
           ok \<leftarrow> ask (scw_dial E) (ScDial baddr);
           return (if ok then Inr (ScRelayConn baddr addr) else Inl ScIO)
         }
   }"

definition sc_connectUDP :: "socks5_pkg \<Rightarrow> sc_world \<Rightarrow> socks5_connector \<Rightarrow> string \<Rightarrow> string \<Rightarrow> (sc_err + sc_conn) sc_io" where
  "sc_connectUDP K E C network address =
     (case scw_resolve E network address of
        None \<Rightarrow> return (Inl ScResolve)
      | Some addr \<Rightarrow>
          if sc_relay C = ''udp'' then sc_relayUDP K E C addr
          else do {
            reply \<leftarrow> sc_roundtrip E socks_CmdUDPTun NoAddr;
            return (case reply of
              None \<Rightarrow> Inl ScIO
            | Some (rep, a) \<Rightarrow> if rep \<noteq> k5_Succeeded K then Inl ScRefused else Inr (ScTunConn addr))
          })"

text \<open>\<open>packets\<close> tells whether the connection carries packets.\<close>

definition sc_connectTCP :: "socks5_pkg \<Rightarrow> sc_world \<Rightarrow> string \<Rightarrow> (sc_err + sc_conn) sc_io" where
  "sc_connectTCP K E address =
     (if \<not> scw_parses E address then return (Inl ScParse)
      else do {
        reply \<leftarrow> sc_roundtrip E (k5_CmdConnect K) (Parsed address);
        return (case reply of
          None \<Rightarrow> Inl ScIO
        | Some (rep, a) \<Rightarrow> if rep \<noteq> k5_Succeeded K then Inl ScRefused else Inr ScStreamConn)
      })"

definition sc_Connect ::
    "socks5_pkg \<Rightarrow> sc_world \<Rightarrow> socks5_connector \<Rightarrow> bool \<Rightarrow> string \<Rightarrow> string \<Rightarrow> (sc_err + sc_conn) sc_io"
where
  "sc_Connect K E C packets network address = sc_timed (sc_connectTimeout C)
     (if udp_network network then sc_connectUDP K E C network address
      else if tcp_network network
      then (if packets then return (Inl ScTcpOverUdp) else sc_connectTCP K E address)
      else return (Inl ScNetwork))"

section \<open>Bound ports\<close>

text \<open>An address that does not parse is sent as the empty one.\<close>

definition sc_bind :: "socks5_pkg \<Rightarrow> sc_world \<Rightarrow> byte \<Rightarrow> string \<Rightarrow> string \<Rightarrow> (sc_err + string) sc_io" where
  "sc_bind K E cmd network address = do {
     reply \<leftarrow> sc_roundtrip E cmd (Parsed address);
     return (case reply of
       None \<Rightarrow> Inl ScIO
     | Some (rep, a) \<Rightarrow>
         if rep \<noteq> k5_Succeeded K then Inl ScRefused
         else if tcp_network network \<or> udp_network network
         then (case scw_resolve E network a of None \<Rightarrow> Inl ScResolve | Some baddr \<Rightarrow> Inr baddr)
         else Inl ScNetwork)
   }"

datatype sc_listener = ScListener string | ScMuxListener string | ScUDPListener string

definition sc_bindTCP :: "socks5_pkg \<Rightarrow> sc_world \<Rightarrow> string \<Rightarrow> string \<Rightarrow> (sc_err + sc_listener) sc_io" where
  "sc_bindTCP K E network address = do {
     r \<leftarrow> sc_bind K E (k5_CmdBind K) network address;
     return (case r of Inl e \<Rightarrow> Inl e | Inr laddr \<Rightarrow> Inr (ScListener laddr))
   }"

definition sc_muxBindTCP :: "socks5_pkg \<Rightarrow> sc_world \<Rightarrow> string \<Rightarrow> string \<Rightarrow> (sc_err + sc_listener) sc_io" where
  "sc_muxBindTCP K E network address = do {
     r \<leftarrow> sc_bind K E socks_CmdMuxBind network address;
     case r of
       Inl e \<Rightarrow> return (Inl e)
     | Inr laddr \<Rightarrow> do {
         ok \<leftarrow> ask (scw_session E) ScSession;
         return (if ok then Inr (ScMuxListener laddr) else Inl ScMux)
       }
   }"

definition sc_bindUDP :: "socks5_pkg \<Rightarrow> sc_world \<Rightarrow> string \<Rightarrow> string \<Rightarrow> (sc_err + sc_listener) sc_io" where
  "sc_bindUDP K E network address = do {
     r \<leftarrow> sc_bind K E socks_CmdUDPTun network address;
     return (case r of Inl e \<Rightarrow> Inl e | Inr laddr \<Rightarrow> Inr (ScUDPListener laddr))
   }"

definition sc_Bind :: "socks5_pkg \<Rightarrow> sc_world \<Rightarrow> bool \<Rightarrow> string \<Rightarrow> string \<Rightarrow> (sc_err + sc_listener) sc_io" where
  "sc_Bind K E mux network address =
     (if tcp_network network then (if mux then sc_muxBindTCP K E network address else sc_bindTCP K E network address)
      else if udp_network network then sc_bindUDP K E network address
      else return (Inl ScNetwork))"

text \<open>The peer of a bound port: its address.\<close>

definition sc_peer :: "socks5_pkg \<Rightarrow> sc_world \<Rightarrow> (sc_err + string) sc_io" where
  "sc_peer K E = do {
     rep \<leftarrow> ask (scw_reply E) ScReply;
     return (case rep of
       None \<Rightarrow> Inl ScIO
     | Some (rep, a) \<Rightarrow>
         if rep \<noteq> k5_Succeeded K then Inl ScRefused
         else case scw_resolve E ''tcp'' a of None \<Rightarrow> Inl ScResolve | Some raddr \<Rightarrow> Inr raddr)
   }"

definition sc_tcp_Accept :: "socks5_pkg \<Rightarrow> sc_world \<Rightarrow> (sc_err + string) sc_io" where
  "sc_tcp_Accept K E = sc_peer K E"

definition sc_mux_getPeerConn :: "socks5_pkg \<Rightarrow> sc_world \<Rightarrow> (sc_err + string) sc_io" where
  "sc_mux_getPeerConn K E = sc_peer K E"

definition sc_mux_Accept :: "socks5_pkg \<Rightarrow> sc_world \<Rightarrow> (sc_err + string) sc_io" where
  "sc_mux_Accept K E = do {
     ok \<leftarrow> ask (scw_accept E) ScStream;
     if \<not> ok then return (Inl ScMux)
     else do {
       r \<leftarrow> sc_mux_getPeerConn K E;
       case r of
         Inl e \<Rightarrow> do { emit ScCloseStream; return (Inl e) }
       | Inr a \<Rightarrow> return (Inr a)
     }
   }"

section \<open>Datagrams\<close>

text \<open>
  The package for datagrams: the address a text is parsed to (as text again), the bytes of a datagram with its reserved field and
  its fragment number, a datagram read from a stream (address and data), and the header of a packet (address and length).
\<close>

record socks_dgram_pkg =
  dg_parse :: "string \<Rightarrow> string option"
  dg_enc :: "uint16 \<Rightarrow> byte \<Rightarrow> string \<Rightarrow> byte list \<Rightarrow> byte list"
  dg_dec :: "byte list \<Rightarrow> ((string \<times> byte list) \<times> byte list) option"
  dg_head :: "byte list \<Rightarrow> (string \<times> nat) option"

text \<open>
  Over a stream: the length is in the reserved field, in 16 bits.  The result of a write is the number of bytes and whether it
  failed, here only because of the address; a read gives the data, the address, when it resolves, and the rest of the
  stream.
\<close>

definition udpTunConn_WriteTo ::
    "socks_dgram_pkg \<Rightarrow> byte list \<Rightarrow> string \<Rightarrow> byte list \<Rightarrow> (nat \<times> bool) \<times> byte list"
where
  "udpTunConn_WriteTo D b addr s =
     (case dg_parse D addr of
        None \<Rightarrow> ((0, True), s)
      | Some a \<Rightarrow> ((length b, False), s @ dg_enc D (of_nat (length b)) 0xFF a b))"

definition udpTunConn_ReadFrom ::
    "socks_dgram_pkg \<Rightarrow> (string \<Rightarrow> string option) \<Rightarrow> nat \<Rightarrow> byte list \<Rightarrow> (byte list \<times> string option) option \<times> byte list"
where
  "udpTunConn_ReadFrom D resolve cap s =
     (case dg_dec D s of
        None \<Rightarrow> (None, s)
      | Some ((a, d), rest) \<Rightarrow> (Some (take cap d, resolve a), rest))"

definition udpTunConn_Read ::
    "socks_dgram_pkg \<Rightarrow> (string \<Rightarrow> string option) \<Rightarrow> nat \<Rightarrow> byte list \<Rightarrow> byte list option \<times> byte list"
where
  "udpTunConn_Read D resolve cap s =
     (case udpTunConn_ReadFrom D resolve cap s of
        (Some (d, Some a), rest) \<Rightarrow> (Some d, rest)
      | (_, rest) \<Rightarrow> (None, rest))"

definition udpTunConn_Write ::
    "socks_dgram_pkg \<Rightarrow> string \<Rightarrow> byte list \<Rightarrow> byte list \<Rightarrow> (nat \<times> bool) \<times> byte list"
where
  "udpTunConn_Write D taddr b s = udpTunConn_WriteTo D b taddr s"

text \<open>
  Over packets, in the server: a packet of at most the size of the buffer, of which the header is taken off.  The address it
  came from is kept for the answers: the first part of the result.  \<open>None\<close> is an error.
\<close>

definition udpConn_ReadFrom ::
    "socks_dgram_pkg \<Rightarrow> (string \<Rightarrow> string option) \<Rightarrow> nat \<Rightarrow> nat \<Rightarrow> byte list \<times> string \<Rightarrow>
     string \<times> (byte list \<times> string option) option"
where
  "udpConn_ReadFrom D resolve bufferSize cap pkt =
     (case pkt of (p, from) \<Rightarrow>
        let p = take bufferSize p
        in (from,
            case dg_head D p of
              None \<Rightarrow> None
            | Some (a, hlen) \<Rightarrow> Some (take cap (drop hlen p), resolve a)))"

definition udpConn_WriteTo :: "socks_dgram_pkg \<Rightarrow> string \<Rightarrow> byte list \<Rightarrow> string \<Rightarrow> nat \<times> (byte list \<times> string) option" where
  "udpConn_WriteTo D raddr b addr =
     (case dg_parse D addr of
        None \<Rightarrow> (0, None)
      | Some a \<Rightarrow> (length b, Some (dg_enc D 0 0 a b, raddr)))"

text \<open>
  Over packets, in the connector.  The datagram is written behind the front of a buffer of the pool; when it does not fit
  into its capacity it goes elsewhere, and what is sent is what the buffer held, \<open>stale\<close>.
\<close>

definition udpRelayConn_ReadFrom ::
    "socks_dgram_pkg \<Rightarrow> (string \<Rightarrow> string option) \<Rightarrow> nat \<Rightarrow> nat \<Rightarrow> byte list \<Rightarrow> (byte list \<times> string option) option"
where
  "udpRelayConn_ReadFrom D resolve bufferSize cap p =
     (case dg_dec D (take bufferSize p) of
        None \<Rightarrow> None
      | Some ((a, d), rest) \<Rightarrow> Some (take cap d, resolve a))"

definition udpRelayConn_WriteTo ::
    "socks_dgram_pkg \<Rightarrow> nat \<Rightarrow> byte list \<Rightarrow> byte list \<Rightarrow> string \<Rightarrow> nat \<times> byte list option"
where
  "udpRelayConn_WriteTo D bufferSize stale b addr =
     (case dg_parse D addr of
        None \<Rightarrow> (0, None)
      | Some a \<Rightarrow>
          let e = dg_enc D 0 0 a b;
              buf = (if length e \<le> length stale then copy_at 0 e stale else stale)
          in (length b, Some (take (min (length e) bufferSize) buf)))"

section \<open>SOCKS4\<close>

record socks4_connector =
  s4_userid :: "string option"
  s4_connectTimeout :: int
  s4_disable4a :: bool

datatype socks4_address = Addr4 string uint16 | Domain4 string uint16

datatype sc4_event = Sc4Deadline bool | Sc4Request socks4_address string bool | Sc4Reply "byte option"

text \<open>\<open>s4w_resolve\<close> is the address (empty when there is none) and port of \<open>ResolveTCPAddr\<close>.\<close>

record sc4_world =
  s4w_write :: "(unit, sc4_event) history \<Rightarrow> bool"
  s4w_reply :: "(unit, sc4_event) history \<Rightarrow> byte option"
  s4w_resolve :: "string \<Rightarrow> (ip \<times> uint16) option"

text \<open>A port that is no number is 0, and one that is too large is cut to 16 bits.\<close>

definition sc4_address :: "sc4_world \<Rightarrow> socks4_connector \<Rightarrow> string \<Rightarrow> socks4_address option" where
  "sc4_address E C address =
     (if s4_disable4a C
      then (case s4w_resolve E address of
              None \<Rightarrow> None
            | Some (ip, port) \<Rightarrow> Some (Addr4 (ip_string (if ip = [] then [0, 0, 0, 0] else ip)) port))
      else (case split_host_port address of
              None \<Rightarrow> None
            | Some (host, port) \<Rightarrow> Some (Domain4 host (of_int (atoi port)))))"

definition sc4_Connect ::
    "byte \<Rightarrow> sc4_world \<Rightarrow> socks4_connector \<Rightarrow> bool \<Rightarrow> string \<Rightarrow> string \<Rightarrow> (unit, sc4_event, sc_err option) io"
where
  "sc4_Connect granted E C packets network address =
     (if \<not> tcp_network network then return (Some ScNetwork)
      else if packets then return (Some ScTcpOverUdp)
      else case sc4_address E C address of
        None \<Rightarrow> return (Some ScParse)
      | Some addr \<Rightarrow>
          let m = do {
            ok \<leftarrow> ask (s4w_write E) (Sc4Request addr (case s4_userid C of None \<Rightarrow> [] | Some u \<Rightarrow> u));
            if \<not> ok then return (Some ScIO)
            else do {
              reply \<leftarrow> ask (s4w_reply E) Sc4Reply;
              return (case reply of
                None \<Rightarrow> Some ScIO
              | Some code \<Rightarrow> if code \<noteq> granted then Some ScRefused else None)
            }
          }
          in if s4_connectTimeout C > 0
             then do { emit (Sc4Deadline True); deferring (emit (Sc4Deadline False)) m } else m)"

section \<open>Both sides agree\<close>

text \<open>The codes of the package are distinct, and distinct from those of \<open>internal/util/socks\<close>.\<close>

definition socks5_codes :: "socks5_pkg \<Rightarrow> bool" where
  "socks5_codes K \<longleftrightarrow>
     distinct [k5_MethodNoAuth K, k5_MethodUserPass K, k5_MethodNoAcceptable K, socks_MethodTLS, socks_MethodTLSAuth] \<and>
     distinct [k5_CmdConnect K, k5_CmdBind K, k5_CmdUdp K, socks_CmdMuxBind, socks_CmdUDPTun]"

definition socks5_both_tls :: "socks5_connector \<Rightarrow> socks5_handler \<Rightarrow> bool" where
  "socks5_both_tls C H \<longleftrightarrow> \<not> sc_noTLS C \<and> \<not> sh_noTLS H"

lemma socks5_selected:
  assumes "socks5_codes K"
  shows "socks5_Select K H (sc_methods K C) =
    (if socks5_both_tls C H then (if sh_auther H = None then socks_MethodTLS else socks_MethodTLSAuth)
     else if sh_auther H = None then k5_MethodNoAuth K else k5_MethodUserPass K)"
proof -
  have "socks_MethodTLS \<in> set (sc_methods K C) \<longleftrightarrow> \<not> sc_noTLS C"
    using assms by (auto simp: sc_methods_def socks5_codes_def)
  then show ?thesis
    using assms by (auto simp: socks5_Select_def socks5_both_tls_def socks5_codes_def Let_def)
qed

text \<open>What a client does for a method it has been told: TLS, then its credentials.\<close>

definition sc_negotiated :: "socks5_pkg \<Rightarrow> socks5_connector \<Rightarrow> bool \<Rightarrow> bool \<Rightarrow> bool \<Rightarrow> sc_event list \<Rightarrow> bool" where
  "sc_negotiated K C tls auth ok new \<longleftrightarrow>
     (\<exists>up. new = (if tls then [ScTLS] else []) @ up \<and>
        (if auth
         then \<exists>user pass. sc_auth C = Some (user, pass) \<and>
                (up = [ScUserPass user pass False] \<and> \<not> ok \<or>
                 (\<exists>resp. up = [ScUserPass user pass True, ScUserPassResp resp] \<and> (ok \<longleftrightarrow> resp = Some (k5_Succeeded K))))
         else up = [] \<and> ok))"

lemma sc_OnSelected_negotiates:
  assumes "socks5_codes K" "auth \<longrightarrow> sc_auth C \<noteq> None"
  shows "traces (sc_OnSelected K E C (if tls then (if auth then socks_MethodTLSAuth else socks_MethodTLS)
      else if auth then k5_MethodUserPass K else k5_MethodNoAuth K)) (sc_negotiated K C tls auth)"
proof (rule tracesI)
  fix w es
  show "wp (sc_OnSelected K E C (if tls then (if auth then socks_MethodTLSAuth else socks_MethodTLS)
      else if auth then k5_MethodUserPass K else k5_MethodNoAuth K))
      (\<lambda>a h. \<exists>new. snd h = es @ new \<and> sc_negotiated K C tls auth a new) (w, es)"
    using assms
    by (cases tls; cases auth; cases "sc_auth C")
      (auto simp: sc_OnSelected_def socks5_codes_def sc_negotiated_def wp_simps Let_def split: prod.split)
qed

definition socks5_negotiated :: "socks5_handler \<Rightarrow> bool \<Rightarrow> bool \<Rightarrow> socks_event list \<Rightarrow> bool" where
  "socks5_negotiated H tls ok new \<longleftrightarrow>
     (Special StartTLS \<in> set new \<longleftrightarrow> tls) \<and>
     (\<forall>auth. ok \<and> sh_auther H = Some auth \<longrightarrow> (\<exists>user pass. Special (UserPassRead (Some (user, pass))) \<in> set new \<and> auth user pass))"

lemma socks5_OnSelected_negotiates:
  assumes "socks5_codes K"
  shows "traces (socks5_OnSelected K E H (if tls then (if sh_auther H = None then socks_MethodTLS else socks_MethodTLSAuth)
      else if sh_auther H = None then k5_MethodNoAuth K else k5_MethodUserPass K)) (socks5_negotiated H tls)"
proof (rule tracesI)
  fix w es
  show "wp (socks5_OnSelected K E H (if tls then (if sh_auther H = None then socks_MethodTLS else socks_MethodTLSAuth)
      else if sh_auther H = None then k5_MethodNoAuth K else k5_MethodUserPass K))
      (\<lambda>a h. \<exists>new. snd h = es @ new \<and> socks5_negotiated H tls a new) (w, es)"
    using assms
    by (cases tls; cases "sh_auther H")
      (auto simp: socks5_OnSelected_def socks5_codes_def socks5_negotiated_def wp_simps Let_def split: prod.split option.split)
qed

text \<open>
  Connector and server agree.  The server selects a method the connector has offered unless it wants
  credentials and the connector has none; then both start TLS just when neither has turned it off, before
  anything else is sent; the connector sends its credentials just when the server has an authenticator, and goes on only if they are
  accepted; and the server goes on only if its authenticator accepts what it has read.
\<close>

theorem socks5_negotiation_agrees:
  assumes "socks5_codes K"
  shows "(socks5_Select K H (sc_methods K C) \<in> set (sc_methods K C) \<longleftrightarrow> sh_auther H = None \<or> sc_auth C \<noteq> None) \<and>
    (sh_auther H = None \<or> sc_auth C \<noteq> None \<longrightarrow>
       traces (sc_OnSelected K E C (socks5_Select K H (sc_methods K C)))
         (sc_negotiated K C (socks5_both_tls C H) (sh_auther H \<noteq> None))) \<and>
    traces (socks5_OnSelected K E' H (socks5_Select K H (sc_methods K C))) (socks5_negotiated H (socks5_both_tls C H))"
proof (intro conjI impI)
  show "socks5_Select K H (sc_methods K C) \<in> set (sc_methods K C) \<longleftrightarrow> sh_auther H = None \<or> sc_auth C \<noteq> None"
    unfolding socks5_selected [OF assms] using assms by (auto simp: sc_methods_def socks5_both_tls_def socks5_codes_def)
next
  assume "sh_auther H = None \<or> sc_auth C \<noteq> None"
  then have "sh_auther H \<noteq> None \<longrightarrow> sc_auth C \<noteq> None" by auto
  from sc_OnSelected_negotiates [OF assms this, of E "socks5_both_tls C H"]
  show "traces (sc_OnSelected K E C (socks5_Select K H (sc_methods K C)))
      (sc_negotiated K C (socks5_both_tls C H) (sh_auther H \<noteq> None))"
    unfolding socks5_selected [OF assms] by (simp split: if_splits)
next
  show "traces (socks5_OnSelected K E' H (socks5_Select K H (sc_methods K C))) (socks5_negotiated H (socks5_both_tls C H))"
    unfolding socks5_selected [OF assms] by (rule socks5_OnSelected_negotiates [OF assms])
qed

theorem socks5_negotiation_agrees_witness:
  "socks5_Select rfc1928 demo_socks_handler
     (sc_methods rfc1928 \<lparr>sc_auth = Some (''u'', ''p''), sc_connectTimeout = 0, sc_noTLS = False, sc_relay = [], sc_udpBufferSize = 4096\<rparr>)
   \<in> set (sc_methods rfc1928 \<lparr>sc_auth = Some (''u'', ''p''), sc_connectTimeout = 0, sc_noTLS = False, sc_relay = [], sc_udpBufferSize = 4096\<rparr>)"
proof -
  have "socks5_codes rfc1928" by code_simp
  from socks5_negotiation_agrees [OF this, of demo_socks_handler
    "\<lparr>sc_auth = Some (''u'', ''p''), sc_connectTimeout = 0, sc_noTLS = False, sc_relay = [], sc_udpBufferSize = 4096\<rparr>"]
  show ?thesis by simp
qed

section \<open>Connections are those asked for\<close>

text \<open>The exchange that leads to a connection: the request and the reply, and for an association the dial.\<close>

definition sc_asked :: "socks5_pkg \<Rightarrow> sc_world \<Rightarrow> string \<Rightarrow> string \<Rightarrow> sc_conn \<Rightarrow> sc_event list" where
  "sc_asked K E a address c =
     (case c of
        ScStreamConn \<Rightarrow> [ScRequest (k5_CmdConnect K) (Parsed address) True, ScReply (Some (k5_Succeeded K, a))]
      | ScTunConn target \<Rightarrow> [ScRequest socks_CmdUDPTun NoAddr True, ScReply (Some (k5_Succeeded K, a))]
      | ScRelayConn baddr target \<Rightarrow>
          [ScRequest (k5_CmdUdp K) NoAddr True, ScReply (Some (k5_Succeeded K, a)), ScDial a True])"

definition sc_conn_for :: "sc_world \<Rightarrow> socks5_connector \<Rightarrow> string \<Rightarrow> string \<Rightarrow> string \<Rightarrow> sc_conn \<Rightarrow> bool" where
  "sc_conn_for E C network address a c \<longleftrightarrow>
     (case c of
        ScStreamConn \<Rightarrow> tcp_network network \<and> scw_parses E address
      | ScTunConn target \<Rightarrow> udp_network network \<and> sc_relay C \<noteq> ''udp'' \<and> scw_resolve E network address = Some target
      | ScRelayConn baddr target \<Rightarrow>
          udp_network network \<and> sc_relay C = ''udp'' \<and> scw_resolve E network address = Some target \<and> baddr = a)"

text \<open>The deadline is set around it all.\<close>

definition sc_in_time :: "socks5_connector \<Rightarrow> sc_event list \<Rightarrow> sc_event list" where
  "sc_in_time C es = (if sc_connectTimeout C > 0 then [ScDeadline True] @ es @ [ScDeadline False] else es)"

lemma sc_Connect_asks:
  "traces (sc_Connect K E C packets network address)
     (\<lambda>r new. \<forall>c. r = Inr c \<longrightarrow> (\<exists>a. new = sc_in_time C (sc_asked K E a address c) \<and> sc_conn_for E C network address a c))"
proof (rule tracesI)
  fix w es
  show "wp (sc_Connect K E C packets network address)
      (\<lambda>r h. \<exists>new. snd h = es @ new \<and>
        (\<forall>c. r = Inr c \<longrightarrow> (\<exists>a. new = sc_in_time C (sc_asked K E a address c) \<and> sc_conn_for E C network address a c))) (w, es)"
    by (cases "udp_network network"; cases "sc_relay C = ''udp''"; cases "sc_connectTimeout C > 0")
      (auto simp: sc_Connect_def sc_timed_def sc_connectUDP_def sc_connectTCP_def sc_relayUDP_def sc_roundtrip_def wp_simps
        sc_asked_def sc_conn_for_def sc_in_time_def split: option.split prod.split)
qed

text \<open>
  A connection of the SOCKS5 connector is the one asked for.  It is returned only when the server has answered the request for it
  with success, and the request is for exactly the address, or for datagrams, which then go to the
  address as it resolves; and a server takes each request for what it is.
\<close>

theorem socks5_connection_asked_for:
  "traces (sc_Connect K E C packets network address)
     (\<lambda>r new. \<forall>c. r = Inr c \<longrightarrow> (\<exists>a. new = sc_in_time C (sc_asked K E a address c) \<and> sc_conn_for E C network address a c)) \<and>
   (socks5_codes K \<longrightarrow>
     socks5_dispatch K E' H local (k5_CmdConnect K) address = socks5_handleConnect K E' H ''tcp'' address \<and>
     socks5_dispatch K E' H local (k5_CmdBind K) address = socks5_handleBind K E' H local ''tcp'' address \<and>
     socks5_dispatch K E' H local socks_CmdMuxBind address = socks5_handleMuxBind K E' H local ''tcp'' address \<and>
     socks5_dispatch K E' H local (k5_CmdUdp K) address = socks5_handleUDP K E' H local \<and>
     socks5_dispatch K E' H local socks_CmdUDPTun address = socks5_handleUDPTun K E' H ''udp'' address)"
  using sc_Connect_asks by (auto simp: socks5_dispatch_def socks5_codes_def)

section \<open>Datagrams over a stream\<close>

text \<open>What the package documents for datagrams with their length: a reader takes off what a writer has written.\<close>

definition dg_framed :: "socks_dgram_pkg \<Rightarrow> bool" where
  "dg_framed D \<longleftrightarrow>
     (\<forall>t a d s. dg_parse D t = Some a \<and> 0 < length d \<and> length d < 2 ^ 16 \<longrightarrow> dg_dec D (dg_enc D (of_nat (length d)) 0xFF a d @ s) = Some ((a, d), s))"

fun udpTun_writes :: "socks_dgram_pkg \<Rightarrow> (byte list \<times> string) list \<Rightarrow> byte list \<Rightarrow> byte list" where
  "udpTun_writes D [] s = s"
| "udpTun_writes D ((d, a) # ds) s = udpTun_writes D ds (snd (udpTunConn_WriteTo D d a s))"

fun udpTun_reads ::
    "socks_dgram_pkg \<Rightarrow> (string \<Rightarrow> string option) \<Rightarrow> nat list \<Rightarrow> byte list \<Rightarrow> (byte list \<times> string option) option list"
where
  "udpTun_reads D resolve [] s = []"
| "udpTun_reads D resolve (cap # caps) s =
     (case udpTunConn_ReadFrom D resolve cap s of (r, s) \<Rightarrow> r # udpTun_reads D resolve caps s)"

lemma udpTun_writes_append:
  "udpTun_writes D ds (s @ t) = s @ udpTun_writes D ds t"
  by (induction ds arbitrary: t) (auto simp: udpTunConn_WriteTo_def split: option.split)

text \<open>
  Datagrams of 1 to 65535 bytes over a SOCKS5 stream arrive one for one, in order, with their addresses, each cut only to
  the room of the reader.
\<close>

theorem socks_udpTun_roundtrip:
  assumes "dg_framed D" "\<forall>(d, a)\<in>set ds. 0 < length d \<and> length d < 2 ^ 16 \<and> dg_parse D a \<noteq> None" "length caps = length ds"
  shows "udpTun_reads D resolve caps (udpTun_writes D ds []) =
    map2 (\<lambda>cap (d, a). Some (take cap d, resolve (the (dg_parse D a)))) caps ds"
  using assms(2,3)
proof (induction ds arbitrary: caps)
  case (Cons x ds)
  obtain d a where x: "x = (d, a)" by (cases x)
  obtain cap caps' where caps: "caps = cap # caps'" "length caps' = length ds" using Cons.prems(2) by (cases caps) auto
  obtain a' where a': "dg_parse D a = Some a'" using Cons.prems(1) x by auto
  let ?f = "dg_enc D (of_nat (length d)) 0xFF a' d"
  have "udpTun_writes D (x # ds) [] = ?f @ udpTun_writes D ds []"
    using udpTun_writes_append [of D ds ?f "[]"] by (simp add: x a' udpTunConn_WriteTo_def)
  moreover have "dg_dec D (?f @ udpTun_writes D ds []) = Some ((a', d), udpTun_writes D ds [])"
    using assms(1) Cons.prems(1) x a' by (simp add: dg_framed_def)
  ultimately show ?case
    using Cons.IH [of caps'] Cons.prems(1) caps by (simp add: x a' udpTunConn_ReadFrom_def)
qed simp

text \<open>
  An empty datagram has the length 0, which stands for a datagram that goes on to the end of the stream: with a package that
  reads it so, everything behind is lost.
\<close>

lemma socks_udpTun_empty_swallows:
  assumes "\<forall>a s. dg_dec D (dg_enc D 0 0xFF a [] @ s) = Some ((a, s), [])" "dg_dec D [] = None" "dg_parse D a = Some a'"
  shows "udpTun_reads D resolve [cap, cap'] (udpTun_writes D [([], a), (d, b)] []) =
    [Some (take cap (udpTun_writes D [(d, b)] []), resolve a'), None]"
  using assms udpTun_writes_append [of D "[(d, b)]" "dg_enc D 0 0xFF a' []" "[]"]
  by (simp add: udpTunConn_ReadFrom_def udpTunConn_WriteTo_def)

text \<open>A datagram that does not fit is cut, or replaced by old bytes: here by those the buffer held.\<close>

lemma udpRelay_stale:
  assumes "dg_parse D addr = Some a" "length stale < length (dg_enc D 0 0 a b)"
  shows "udpRelayConn_WriteTo D bufferSize stale b addr =
    (length b, Some (take (min (length (dg_enc D 0 0 a b)) bufferSize) stale))"
  using assms by (simp add: udpRelayConn_WriteTo_def Let_def)

lemma udpRelay_fits:
  assumes "dg_parse D addr = Some a" "length (dg_enc D 0 0 a b) \<le> bufferSize" "bufferSize \<le> length stale"
  shows "udpRelayConn_WriteTo D bufferSize stale b addr = (length b, Some (dg_enc D 0 0 a b))"
  using assms by (simp add: udpRelayConn_WriteTo_def Let_def copy_at_def)

text \<open>A package with a length for the address.\<close>

definition demo_dgram :: socks_dgram_pkg where
  "demo_dgram =
     \<lparr>dg_parse = (\<lambda>a. if length a < 256 then Some a else None),
      dg_enc = (\<lambda>rsv frag a d. be16 rsv @ [frag, of_nat (length a)] @ map (\<lambda>c. of_nat (of_char c)) a @ d),
      dg_dec = (\<lambda>s. if length s < 4 then None
        else let n = unat (s ! 3); d = drop (4 + n) s; k = unat (get16 s)
             in Some ((map (\<lambda>x. char_of (unat x)) (take n (drop 4 s)), if k = 0 then d else take k d), if k = 0 then [] else drop k d)),
      dg_head = (\<lambda>s. None)\<rparr>"

lemma demo_dgram_framed: "dg_framed demo_dgram"
proof -
  have "dg_dec demo_dgram (dg_enc demo_dgram (of_nat (length d)) 0xFF a d @ s) = Some ((a, d), s)"
    if "length a < 256" "0 < length d" "length d < 2 ^ 16" for a d s
  proof -
    have len: "unat (of_nat (length d) :: uint16) = length d" "unat (of_nat (length a) :: byte) = length a"
      using that by (simp_all add: unat_of_nat)
    have chars: "map (\<lambda>x. char_of (unat x)) (map (\<lambda>c. of_nat (of_char c) :: byte) a) = a"
      by (simp add: comp_def unat_of_nat map_idI)
    let ?s = "be16 (of_nat (length d)) @ [0xFF, of_nat (length a)] @ map (\<lambda>c. of_nat (of_char c)) a @ d @ s"
    have parts: "?s ! 3 = of_nat (length a)" "drop 4 ?s = map (\<lambda>c. of_nat (of_char c)) a @ d @ s" "get16 ?s = of_nat (length d)"
      by (simp_all add: nth_append numeral_eq_Suc)
    then show ?thesis
      using that(2) chars by (simp add: demo_dgram_def Let_def len del: map_map flip: drop_drop)
  qed
  then show ?thesis by (auto simp: dg_framed_def demo_dgram_def split: if_splits)
qed

theorem socks_udpTun_roundtrip_witness:
  "udpTun_reads demo_dgram Some [10, 1] (udpTun_writes demo_dgram [([1], ''a:1''), ([2, 3], ''b:2'')] []) =
     [Some ([1], Some ''a:1''), Some ([2], Some ''b:2'')]"
  using socks_udpTun_roundtrip [OF demo_dgram_framed, of "[([1], ''a:1''), ([2, 3], ''b:2'')]" "[10, 1]" Some]
  by (simp add: demo_dgram_def)

end
