(* ===== verification/HttpConnector.thy ===== *)
theory HttpConnector
  imports HttpHandler
begin

text \<open>
  The HTTP connectors (\<open>connector/http\<close>, \<open>connector/http2\<close>): the CONNECT request for an address, with credentials and the mark for
  datagrams, and what becomes of the connection.  The request's header is that of the connector's metadata when
  there is one, so a change of the one is a change of the other: it is the state of the model, \<open>None\<close> when it is nil.
  The server is that of \<open>HttpHandler\<close>.
\<close>

section \<open>The connectors and what they call\<close>

record http_connector =
  hn_auth :: "(string \<times> string) option"
  hn_connectTimeout :: int

datatype hn_event =
    HnDeadline bool
  | HnRequest http_request bool
  | HnResponse "int option"
  | HnDo http_request "int option"
  | HnCloseConn
  | HnCloseBody

type_synonym hn_history = "(http_state, hn_event) history"
type_synonym 'a hn_io = "(http_state, hn_event, 'a) io"

text \<open>
  The oracles: the write of a request, the status of its response, the status of a request that a client of HTTP/2 performs; and the
  addresses that resolve.
\<close>

record hn_world =
  nw_write :: "hn_history \<Rightarrow> bool"
  nw_response :: "hn_history \<Rightarrow> int option"
  nw_do :: "hn_history \<Rightarrow> int option"
  nw_resolve :: "string \<Rightarrow> string \<Rightarrow> string option"

datatype hn_err = HnTcpOverUdp | HnNetwork | HnIO | HnStatus int | HnWrongConn

text \<open>The connection itself, datagrams over it for a target, or the stream of an HTTP/2 exchange.\<close>

datatype hn_conn = HnStream | HnDatagrams "string option" | HnHttp2 "string option"

section \<open>The header\<close>

definition hn_basic :: "string \<Rightarrow> string \<Rightarrow> string" where
  "hn_basic u p = ''Basic '' @ b64_encode b64_std (string_bytes (u @ '':'' @ p))"

definition hn_authorize :: "http_connector \<Rightarrow> http_header \<Rightarrow> http_header" where
  "hn_authorize C h =
     (case hn_auth C of None \<Rightarrow> h | Some (u, p) \<Rightarrow> hdr_set ''Proxy-Authorization'' (hn_basic u p) h)"

definition hn_common :: "http_connector \<Rightarrow> http_header \<Rightarrow> http_header" where
  "hn_common C h = hn_authorize C (hdr_set ''Proxy-Connection'' ''keep-alive'' h)"

definition hn_udp :: "http_header \<Rightarrow> http_header" where
  "hn_udp h = hdr_set ''X-Gost-Protocol'' ''udp'' h"

text \<open>The header a request starts with, and a change of it, which is one of the shared header when that is not nil.\<close>

definition hn_header :: "http_header hn_io" where
  "hn_header = act (\<lambda>w. (case w of None \<Rightarrow> [] | Some h \<Rightarrow> h, w))"

definition hn_change :: "http_header \<Rightarrow> unit hn_io" where
  "hn_change h = act (\<lambda>w. ((), if w = None then None else Some h))"

section \<open>HTTP\<close>

definition hn_request :: "string \<Rightarrow> http_header \<Rightarrow> http_request" where
  "hn_request address h =
     \<lparr>hq_method = ''CONNECT'', hq_abs = False, hq_scheme = [], hq_hostname = strip_port address, hq_host = address, hq_header = h\<rparr>"

definition hn_timed :: "http_connector \<Rightarrow> 'a hn_io \<Rightarrow> 'a hn_io" where
  "hn_timed C m =
     (if hn_connectTimeout C > 0 then do { emit (HnDeadline True); deferring (emit (HnDeadline False)) m } else m)"

text \<open>Only the network \<open>udp\<close> gets a connection for datagrams.\<close>

definition hn_exchange :: "hn_world \<Rightarrow> http_connector \<Rightarrow> string \<Rightarrow> string \<Rightarrow> http_header \<Rightarrow> (hn_err + hn_conn) hn_io" where
  "hn_exchange E C network address h = hn_timed C (do {
     ok \<leftarrow> ask (nw_write E) (HnRequest (hn_request address h));
     if \<not> ok then return (Inl HnIO)
     else do {
       resp \<leftarrow> ask (nw_response E) HnResponse;
       return (case resp of
         None \<Rightarrow> Inl HnIO
       | Some status \<Rightarrow>
           if status \<noteq> 200 then Inl (HnStatus status)
           else if network = ''udp'' then Inr (HnDatagrams (nw_resolve E network address))
           else Inr HnStream)
     }
   })"

text \<open>\<open>packets\<close> tells whether the connection carries packets.\<close>

definition hn_Connect ::
    "hn_world \<Rightarrow> http_connector \<Rightarrow> bool \<Rightarrow> string \<Rightarrow> string \<Rightarrow> (hn_err + hn_conn) hn_io"
where
  "hn_Connect E C packets network address = do {
     h \<leftarrow> hn_header;
     let h = hn_common C h;
     hn_change h;
     if tcp_network network
     then (if packets then return (Inl HnTcpOverUdp) else hn_exchange E C network address h)
     else if udp_network network
     then do { hn_change (hn_udp h); hn_exchange E C network address (hn_udp h) }
     else return (Inl HnNetwork)
   }"

section \<open>HTTP/2\<close>

text \<open>\<open>remote\<close> is the address of the server, \<open>metadatable\<close> tells whether the connection carries a client.\<close>

definition hn2_request :: "string \<Rightarrow> string \<Rightarrow> http_header \<Rightarrow> http_request" where
  "hn2_request remote address h =
     \<lparr>hq_method = ''CONNECT'', hq_abs = True, hq_scheme = ''https'', hq_hostname = strip_port remote, hq_host = address, hq_header = h\<rparr>"

definition hn2_Connect ::
    "hn_world \<Rightarrow> http_connector \<Rightarrow> bool \<Rightarrow> string \<Rightarrow> string \<Rightarrow> string \<Rightarrow> (hn_err + hn_conn) hn_io"
where
  "hn2_Connect E C metadatable remote network address =
     (if \<not> metadatable then return (Inl HnWrongConn)
      else do {
        h \<leftarrow> hn_header;
        let h = hn_authorize C h;
        hn_change h;
        hn_timed C (do {
          resp \<leftarrow> ask (nw_do E) (HnDo (hn2_request remote address h));
          case resp of
            None \<Rightarrow> do { emit HnCloseConn; return (Inl HnIO) }
          | Some status \<Rightarrow>
              if status \<noteq> 200 then do { emit HnCloseBody; return (Inl (HnStatus status)) }
              else return (Inr (HnHttp2 (nw_resolve E network address)))
        })
      })"

section \<open>The server understands the connector\<close>



lemma map_of_hdr_set [simp]: "map_of (hdr_set k v h) k' = (if k' = k then Some [v] else map_of h k')"
  by (simp add: hdr_set_def update_conv')

lemma hdr_get_set [simp]: "hdr_get k (hdr_set k' v h) = (if k = k' then v else hdr_get k h)"
  by (simp add: hdr_get_def)






section \<open>The header that is shared\<close>

text \<open>Connections made one after the other.\<close>

primrec hn_connects :: "hn_world \<Rightarrow> http_connector \<Rightarrow> (bool \<times> string \<times> string) list \<Rightarrow> unit hn_io" where
  "hn_connects E C [] = return ()"
| "hn_connects E C (c # cs) = do {
     hn_Connect E C (fst c) (fst (snd c)) (snd (snd c));
     hn_connects E C cs
   }"

definition hn_marked :: "http_header \<Rightarrow> bool" where
  "hn_marked h \<longleftrightarrow> hdr_get ''X-Gost-Protocol'' h = ''udp''"

definition hn_all_marked :: "hn_event list \<Rightarrow> bool" where
  "hn_all_marked es \<longleftrightarrow> (\<forall>req ok. HnRequest req ok \<in> set es \<longrightarrow> hn_marked (hq_header req))"

lemma hn_marked_sent: "hn_marked h \<Longrightarrow> hn_marked (hn_common C h)" "hn_marked (hn_udp h)"
  by (auto simp: hn_marked_def hn_common_def hn_authorize_def hn_udp_def split: option.split)

lemma wp_hn_exchange:
  assumes "hn_marked h" "hn_marked h'" "hn_all_marked es"
  shows "wp (hn_exchange E C network address h)
    (\<lambda>r st. (\<exists>h. fst st = Some h \<and> hn_marked h) \<and> hn_all_marked (snd st)) (Some h', es)"
  using assms by (auto simp: hn_exchange_def hn_timed_def wp_simps hn_all_marked_def hn_request_def)

lemma wp_hn_Connect:
  assumes "hn_marked h \<or> udp_network network" "hn_all_marked es"
  shows "wp (hn_Connect E C packets network address)
    (\<lambda>r st. (\<exists>h. fst st = Some h \<and> hn_marked h) \<and> hn_all_marked (snd st)) (Some h, es)"
  using assms hn_marked_sent tcp_not_udp wp_hn_exchange
  by (auto simp: hn_Connect_def hn_header_def hn_change_def wp_simps Let_def)

text \<open>
  With a header in its configuration the connector stays with datagrams: after one connection for datagrams, every request, for
  streams too, carries their mark, for which the server relays datagrams.
\<close>

theorem http_connector_stays_udp:
  assumes "udp_network network"
  shows "hn_all_marked (io_trace (hn_connects E C ((packets, network, address) # cs)) (Some h))"
proof -
  have step: "wp (hn_connects E C cs) (\<lambda>_ st. (\<exists>h. fst st = Some h \<and> hn_marked h) \<and> hn_all_marked (snd st)) (Some h, es)"
    if "hn_marked h" "hn_all_marked es" for h es
    using that
  proof (induction cs arbitrary: h es)
    case (Cons c cs)
    show ?case
      unfolding hn_connects.simps wp_bind
      by (rule wp_mono [OF wp_hn_Connect]) (use Cons in auto)
  qed (auto simp: wp_simps)
  have "wp (hn_connects E C ((packets, network, address) # cs)) (\<lambda>_ st. hn_all_marked (snd st)) (Some h, [])"
    unfolding hn_connects.simps wp_bind fst_conv snd_conv
  proof (rule wp_mono [OF wp_hn_Connect])
    show "hn_marked h \<or> udp_network network" using assms by simp
    show "hn_all_marked []" by (simp add: hn_all_marked_def)
    show "wp (hn_connects E C cs) (\<lambda>_ st. hn_all_marked (snd st)) st"
      if "(\<exists>h. fst st = Some h \<and> hn_marked h) \<and> hn_all_marked (snd st)" for st :: hn_history
      using that step by (cases st) (auto intro: wp_mono)
  qed
  then show ?thesis by (rule io_trace_wp)
qed

section \<open>An example\<close>

definition demo_hn :: http_connector where
  "demo_hn = \<lparr>hn_auth = Some (''u'', ''p''), hn_connectTimeout = 0\<rparr>"


definition demo_hn_world :: hn_world where
  "demo_hn_world = \<lparr>nw_write = \<lambda>_. True, nw_response = \<lambda>_. Some 200, nw_do = \<lambda>_. None, nw_resolve = \<lambda>_ _. None\<rparr>"

theorem http_connector_stays_udp_witness:
  "hn_all_marked (io_trace (hn_connects demo_hn_world demo_hn [(False, ''udp'', ''a:53''), (False, ''tcp'', ''a:80'')]) (Some []))"
  by (rule http_connector_stays_udp) code_simp

end
