(* ===== verification/Reader.thy ===== *)
theory Reader
  imports Prelude
begin

text \<open>
  What connections with a buffer share: a stream of bytes in pieces, reads in front of it, and the contract of a reader that loses nothing.
\<close>

section \<open>Streams\<close>

text \<open>
  A stream is the list of what the reads of the inner connection return, from which a read with less room takes a part; \<open>None\<close> is its end.
\<close>

definition conn_read :: "nat \<Rightarrow> string list \<Rightarrow> string option \<times> string list" where
  "conn_read n cs =
     (case cs of
        [] \<Rightarrow> (None, [])
      | c # cs \<Rightarrow> if length c \<le> n then (Some c, cs) else (Some (take n c), drop n c # cs))"

text \<open>A read behind the buffer of bytes that were read ahead.\<close>

definition rbuf_read :: "nat \<Rightarrow> string \<Rightarrow> string list \<Rightarrow> (string option \<times> string) \<times> string list" where
  "rbuf_read n buf cs =
     (if buf \<noteq> [] then ((Some (take n buf), drop n buf), cs)
      else case conn_read n cs of (r, cs) \<Rightarrow> ((r, []), cs))"

text \<open>A read in front of a stream without empty reads.\<close>

lemma rbuf_read_some:
  "rbuf_read n buf cs = ((Some b, buf'), cs') \<Longrightarrow> [] \<notin> set cs \<Longrightarrow>
   [] \<notin> set cs' \<and> buf @ concat cs = b @ buf' @ concat cs' \<and> (0 < n \<longrightarrow> b \<noteq> [])"
  by (auto simp: rbuf_read_def conn_read_def split: if_splits list.splits)

lemma rbuf_read_none: "rbuf_read n buf cs = ((None, buf'), cs') \<Longrightarrow> buf = [] \<and> cs = [] \<and> buf' = [] \<and> cs' = []"
  by (auto simp: rbuf_read_def conn_read_def split: if_splits list.splits)

section \<open>Reading to the end\<close>

text \<open>Reads with room for \<open>ns\<close> bytes, up to the first that fails.\<close>

fun reads :: "(nat \<Rightarrow> 's \<Rightarrow> string option \<times> 's) \<Rightarrow> nat list \<Rightarrow> 's \<Rightarrow> string \<times> 's" where
  "reads rd [] s = ([], s)"
| "reads rd (n # ns) s =
     (case rd n s of
        (None, s) \<Rightarrow> ([], s)
      | (Some b, s) \<Rightarrow> (case reads rd ns s of (bs, s) \<Rightarrow> (b @ bs, s)))"

text \<open>A reader that loses nothing of what is pending, and gets something of it as long as there is any.\<close>

locale lossless_reader =
  fixes rd :: "nat \<Rightarrow> 's \<Rightarrow> string option \<times> 's"
    and inv :: "'s \<Rightarrow> bool"
    and pending :: "'s \<Rightarrow> string"
  assumes rd_some: "inv s \<Longrightarrow> rd n s = (Some b, s') \<Longrightarrow> inv s' \<and> pending s = b @ pending s' \<and> (0 < n \<longrightarrow> b \<noteq> [])"
    and rd_none: "inv s \<Longrightarrow> rd n s = (None, s') \<Longrightarrow> inv s' \<and> pending s = [] \<and> pending s' = []"
begin

lemma reads_lossless: "inv s \<Longrightarrow> fst (reads rd ns s) @ pending (snd (reads rd ns s)) = pending s"
proof (induction ns arbitrary: s)
  case (Cons n ns)
  show ?case
  proof (cases "rd n s")
    case (Pair r s')
    show ?thesis
    proof (cases r)
      case (Some b)
      with rd_some [of s n b s'] Pair Cons.prems have "inv s'" "pending s = b @ pending s'" by auto
      with Cons.IH [of s'] Pair Some show ?thesis by (simp add: case_prod_beta)
    qed (use Pair rd_none [of s n s'] Cons.prems in auto)
  qed
qed simp

lemma reads_inv: "inv s \<Longrightarrow> inv (snd (reads rd ns s))"
proof (induction ns arbitrary: s)
  case (Cons n ns)
  show ?case
  proof (cases "rd n s")
    case (Pair r s')
    then show ?thesis using rd_some [of s n _ s'] rd_none [of s n s'] Cons
      by (cases r) (simp_all add: case_prod_beta)
  qed
qed simp

lemma reads_all:
  "inv s \<Longrightarrow> \<forall>n\<in>set ns. 0 < n \<Longrightarrow> length (pending s) \<le> length ns \<Longrightarrow> fst (reads rd ns s) = pending s"
proof (induction ns arbitrary: s)
  case (Cons n ns)
  show ?case
  proof (cases "rd n s")
    case (Pair r s')
    show ?thesis
    proof (cases r)
      case (Some b)
      with rd_some [of s n b s'] Pair Cons.prems
      have s': "inv s'" "pending s = b @ pending s'" "b \<noteq> []" by auto
      then have "length (pending s') \<le> length ns" using Cons.prems(3) by (cases b) auto
      then have "fst (reads rd ns s') = pending s'" using Cons s' by auto
      then show ?thesis using Pair Some s' by (auto split: prod.splits)
    qed (use Pair rd_none [of s n s'] Cons.prems in auto)
  qed
qed simp

end

end
