(* ===== verification/ObfsHttp.thy ===== *)
theory ObfsHttp
  imports HostCode Reader
begin

text \<open>
  The HTTP camouflage (\<open>dialer/obfs/http/conn.go\<close>, \<open>listener/obfs/http/conn.go\<close>): a connection that begins like the upgrade to
  a web socket.  The client's request goes out with the first bytes it writes; the server answers it when it first reads or
  writes.  The text of a request and of a response, and the parser of requests, are those of \<open>net/http\<close>.
\<close>

section \<open>Reading ahead\<close>

text \<open>
  A buffered reader in front of the stream, until \<open>strip\<close> finds what it looks for at the front of the buffer: its value, the
  rest of the buffer and the rest of the stream.
\<close>

fun oh_fill :: "(string \<Rightarrow> ('r \<times> string) option) \<Rightarrow> string \<Rightarrow> string list \<Rightarrow> ('r \<times> string \<times> string list) option" where
  "oh_fill strip buf [] = (case strip buf of None \<Rightarrow> None | Some (r, rest) \<Rightarrow> Some (r, rest, []))"
| "oh_fill strip buf (c # cs) =
     (case strip buf of None \<Rightarrow> oh_fill strip (buf @ c) cs | Some (r, rest) \<Rightarrow> Some (r, rest, c # cs))"

text \<open>What is found stays found when more bytes come.\<close>

locale header_reader =
  fixes strip :: "string \<Rightarrow> ('r \<times> string) option"
  assumes strip_more: "strip s = Some (r, rest) \<Longrightarrow> strip (s @ t) = Some (r, rest @ t)"
begin

lemma fill_found:
  assumes "strip (buf @ concat cs) = Some (r, data)"
  shows "\<exists>rest cs'. oh_fill strip buf cs = Some (r, rest, cs') \<and> rest @ concat cs' = data \<and> set cs' \<subseteq> set cs"
  using assms
proof (induction cs arbitrary: buf)
  case (Cons c cs)
  show ?case
  proof (cases "strip buf")
    case None
    then show ?thesis using Cons.IH [of "buf @ c"] Cons.prems by auto
  next
    case (Some x)
    obtain r' rest where x: "x = (r', rest)" by (cases x)
    with Some strip_more [of buf r' rest "concat (c # cs)"] Cons.prems show ?thesis by simp
  qed
qed simp

end

section \<open>The client\<close>

record oh_client =
  oc_rbuf :: string
  oc_wbuf :: string
  oc_drained :: bool
  oc_handshaked :: bool

definition oh_new_client :: oh_client where
  "oh_new_client = \<lparr>oc_rbuf = [], oc_wbuf = [], oc_drained = False, oc_handshaked = False\<rparr>"

text \<open>\<open>request\<close> is the text of the request, \<open>None\<close> when it cannot be written.  It is cached only.\<close>

definition oh_client_Handshake :: "string option \<Rightarrow> oh_client \<Rightarrow> bool \<times> oh_client" where
  "oh_client_Handshake request c =
     (if oc_handshaked c then (True, c)
      else case request of
        None \<Rightarrow> (False, c)
      | Some req \<Rightarrow> (True, c\<lparr>oc_wbuf := oc_wbuf c @ req, oc_handshaked := True\<rparr>))"

text \<open>
  A write: the number of bytes and whether it succeeded, and what the inner connection got.  \<open>fails\<close> is the number of bytes it takes before it fails.
\<close>

definition oh_client_Write :: "string option \<Rightarrow> nat option \<Rightarrow> string \<Rightarrow> oh_client \<Rightarrow> ((nat \<times> bool) \<times> string) \<times> oh_client" where
  "oh_client_Write request fails b c =
     (case oh_client_Handshake request c of
        (False, c) \<Rightarrow> (((0, False), []), c)
      | (True, c) \<Rightarrow>
          if oc_wbuf c \<noteq> []
          then (let out = oc_wbuf c @ b
                in case fails of
                     None \<Rightarrow> (((length b, True), out), c\<lparr>oc_wbuf := []\<rparr>)
                   | Some m \<Rightarrow> (((length b, False), take m out), c\<lparr>oc_wbuf := drop m out\<rparr>))
          else case fails of
                 None \<Rightarrow> (((length b, True), b), c)
               | Some m \<Rightarrow> (((m, False), take m b), c))"

text \<open>The lines of a header, up to the empty one: the rest behind it.\<close>

function oh_lines :: "string \<Rightarrow> string option" where
  "oh_lines s =
     (case read_line s of None \<Rightarrow> None | Some (line, rest) \<Rightarrow> if line = crlf then Some rest else oh_lines rest)"
  by pat_completeness auto

termination
  by (relation "measure length") (auto dest: read_line_shorter)

declare oh_lines.simps [simp del]

definition oh_header :: "string \<Rightarrow> (unit \<times> string) option" where
  "oh_header s = map_option (Pair ()) (oh_lines s)"

text \<open>Once tried, the header is not looked for again, even when the stream has ended before it did.\<close>

definition oh_drainHeader :: "oh_client \<Rightarrow> string list \<Rightarrow> (bool \<times> oh_client) \<times> string list" where
  "oh_drainHeader c cs =
     (if oc_drained c then ((True, c), cs)
      else case oh_fill oh_header [] cs of
        None \<Rightarrow> ((False, c\<lparr>oc_drained := True\<rparr>), [])
      | Some (_, rest, cs) \<Rightarrow> ((True, c\<lparr>oc_drained := True, oc_rbuf := oc_rbuf c @ rest\<rparr>), cs))"

definition oh_client_Read :: "string option \<Rightarrow> nat \<Rightarrow> oh_client \<Rightarrow> string list \<Rightarrow> (string option \<times> oh_client) \<times> string list" where
  "oh_client_Read request n c cs =
     (case oh_client_Handshake request c of
        (False, c) \<Rightarrow> ((None, c), cs)
      | (True, c) \<Rightarrow>
          (case oh_drainHeader c cs of
             ((False, c), cs) \<Rightarrow> ((None, c), cs)
           | ((True, c), cs) \<Rightarrow>
               (case rbuf_read n (oc_rbuf c) cs of ((r, buf), cs) \<Rightarrow> ((r, c\<lparr>oc_rbuf := buf\<rparr>), cs))))"

section \<open>The server\<close>

text \<open>A request: its method, the fields that are looked at, and the length of its body.\<close>

record oh_request =
  or_method :: string
  or_upgrade :: string
  or_key :: string
  or_contentLength :: int

record oh_server =
  os_rbuf :: string
  os_wbuf :: string
  os_handshaked :: bool

definition oh_new_server :: oh_server where
  "oh_new_server = \<lparr>os_rbuf = [], os_wbuf = [], os_handshaked = False\<rparr>"

text \<open>
  \<open>parse\<close> is \<open>http.ReadRequest\<close>: \<open>None\<close> asks for more bytes, and a malformed request has none.  \<open>sha1\<close> is the hash.  With a
  body, exactly its bytes are kept; without one, all that the reader has taken.
\<close>

definition keyGUID :: string where "keyGUID = ''258EAFA5-E914-47DA-95CA-C5AB0DC85B11''"

definition computeAcceptKey :: "(string \<Rightarrow> byte list) \<Rightarrow> string \<Rightarrow> string" where
  "computeAcceptKey sha1 challengeKey = b64_encode b64_std (sha1 (challengeKey @ keyGUID))"

definition oh_body :: "oh_request \<Rightarrow> string \<Rightarrow> string list \<Rightarrow> (string \<times> string list) option" where
  "oh_body r rest cs =
     (if or_contentLength r > 0
      then map_option (\<lambda>(b, _, cs). (b, cs))
        (oh_fill (\<lambda>s. if length s < nat (or_contentLength r) then None
                      else Some (take (nat (or_contentLength r)) s, drop (nat (or_contentLength r)) s)) rest cs)
      else Some (rest, cs))"

text \<open>
  The handshake: whether it succeeded, what was handed to the inner connection, and the rest of the stream.  \<open>ok\<close> is the
  result of writing the response; \<open>response\<close> is the text of a response with a status and an accepted key.
\<close>

type_synonym oh_parser = "string \<Rightarrow> (oh_request option \<times> string) option"

definition oh_handshake ::
    "oh_parser \<Rightarrow> (int \<Rightarrow> string option \<Rightarrow> string) \<Rightarrow> (string \<Rightarrow> byte list) \<Rightarrow> bool \<Rightarrow>
     oh_server \<Rightarrow> string list \<Rightarrow> ((bool \<times> string) \<times> oh_server) \<times> string list"
where
  "oh_handshake parse response sha1 ok c cs =
     (case oh_fill parse [] cs of
        None \<Rightarrow> (((False, []), c), [])
      | Some (None, rest, cs) \<Rightarrow> (((False, []), c), cs)
      | Some (Some r, rest, cs) \<Rightarrow>
          (case oh_body r rest cs of
             None \<Rightarrow> (((False, []), c\<lparr>os_rbuf := os_rbuf c @ rest @ concat cs\<rparr>), [])
           | Some (b, cs) \<Rightarrow>
               let c = c\<lparr>os_rbuf := os_rbuf c @ b\<rparr>
               in if or_method r \<noteq> ''GET'' \<or> or_upgrade r \<noteq> ''websocket''
                  then (((False, response 400 None), c), cs)
                  else let resp = response 101 (Some (computeAcceptKey sha1 (or_key r)))
                       in if os_rbuf c \<noteq> [] then (((True, []), c\<lparr>os_wbuf := os_wbuf c @ resp\<rparr>), cs)
                          else (((ok, resp), c), cs)))"

definition oh_server_Handshake ::
    "oh_parser \<Rightarrow> (int \<Rightarrow> string option \<Rightarrow> string) \<Rightarrow> (string \<Rightarrow> byte list) \<Rightarrow> bool \<Rightarrow>
     oh_server \<Rightarrow> string list \<Rightarrow> ((bool \<times> string) \<times> oh_server) \<times> string list"
where
  "oh_server_Handshake parse response sha1 ok c cs =
     (if os_handshaked c then (((True, []), c), cs)
      else case oh_handshake parse response sha1 ok c cs of
        (((True, out), c), cs) \<Rightarrow> (((True, out), c\<lparr>os_handshaked := True\<rparr>), cs)
      | (((False, out), c), cs) \<Rightarrow> (((False, out), c), cs))"

text \<open>A read: the bytes, what was written meanwhile, and the rest of the stream.\<close>

definition oh_server_Read ::
    "oh_parser \<Rightarrow> (int \<Rightarrow> string option \<Rightarrow> string) \<Rightarrow> (string \<Rightarrow> byte list) \<Rightarrow> bool \<Rightarrow>
     nat \<Rightarrow> oh_server \<Rightarrow> string list \<Rightarrow> ((string option \<times> string) \<times> oh_server) \<times> string list"
where
  "oh_server_Read parse response sha1 ok n c cs =
     (case oh_server_Handshake parse response sha1 ok c cs of
        (((False, out), c), cs) \<Rightarrow> (((None, out), c), cs)
      | (((True, out), c), cs) \<Rightarrow>
          (case rbuf_read n (os_rbuf c) cs of ((r, buf), cs) \<Rightarrow> (((r, out), c\<lparr>os_rbuf := buf\<rparr>), cs)))"

text \<open>A write, of which the inner connection takes \<open>fails\<close> bytes before it fails.\<close>

definition oh_server_Write ::
    "oh_parser \<Rightarrow> (int \<Rightarrow> string option \<Rightarrow> string) \<Rightarrow> (string \<Rightarrow> byte list) \<Rightarrow> bool \<Rightarrow> nat option \<Rightarrow>
     string \<Rightarrow> oh_server \<Rightarrow> string list \<Rightarrow> (((nat \<times> bool) \<times> string) \<times> oh_server) \<times> string list"
where
  "oh_server_Write parse response sha1 ok fails b c cs =
     (case oh_server_Handshake parse response sha1 ok c cs of
        (((False, out), c), cs) \<Rightarrow> ((((0, False), out), c), cs)
      | (((True, out), c), cs) \<Rightarrow>
          if os_wbuf c \<noteq> []
          then (let outs = os_wbuf c @ b
                in case fails of
                     None \<Rightarrow> ((((length b, True), out @ outs), c\<lparr>os_wbuf := []\<rparr>), cs)
                   | Some m \<Rightarrow> ((((length b, False), out @ take m outs), c\<lparr>os_wbuf := drop m outs\<rparr>), cs))
          else (case fails of
                  None \<Rightarrow> ((((length b, True), out @ b), c), cs)
                | Some m \<Rightarrow> ((((m, False), out @ take m b), c), cs)))"

section \<open>Reading to the end\<close>

text \<open>The bytes behind the first empty line: more bytes do not change where it is.\<close>

lemma index_byte_more: "index_byte c s = Some i \<Longrightarrow> index_byte c (s @ t) = Some i"
  by (induction s arbitrary: i) auto

lemma read_line_more: "read_line s = Some (l, r) \<Longrightarrow> read_line (s @ t) = Some (l, r @ t)"
  by (auto simp: read_line_def index_byte_more split: option.splits dest: index_byte_SomeD)

lemma oh_lines_more: "oh_lines s = Some rest \<Longrightarrow> oh_lines (s @ t) = Some (rest @ t)"
proof (induction s arbitrary: rest rule: oh_lines.induct)
  case (1 s)
  show ?case
  proof (cases "read_line s")
    case None
    then show ?thesis using 1 by (simp add: oh_lines.simps [of s])
  next
    case (Some x)
    obtain line r where x: "x = (line, r)" by (cases x)
    have "read_line (s @ t) = Some (line, r @ t)" using Some x by (simp add: read_line_more)
    then show ?thesis using 1 Some x
      by (simp add: oh_lines.simps [of s] oh_lines.simps [of "s @ t"] split: if_splits)
  qed
qed

interpretation resp: header_reader oh_header
  by unfold_locales (auto simp: oh_header_def dest: oh_lines_more)

subsection \<open>The client\<close>

definition oc_read :: "string option \<Rightarrow> nat \<Rightarrow> oh_client \<times> string list \<Rightarrow> string option \<times> oh_client \<times> string list" where
  "oc_read request n = (\<lambda>(c, cs). case oh_client_Read request n c cs of ((r, c), cs) \<Rightarrow> (r, c, cs))"

definition oc_inv :: "oh_client \<times> string list \<Rightarrow> bool" where
  "oc_inv = (\<lambda>(c, cs). [] \<notin> set cs \<and> (oc_drained c \<or> oc_rbuf c = [] \<and> oh_lines (concat cs) \<noteq> None))"

definition oc_pending :: "oh_client \<times> string list \<Rightarrow> string" where
  "oc_pending = (\<lambda>(c, cs). if oc_drained c then oc_rbuf c @ concat cs else the (oh_lines (concat cs)))"

lemma oh_drainHeader_inv:
  assumes "oc_inv (c, cs)"
  shows "\<exists>c' cs'. oh_drainHeader c cs = ((True, c'), cs') \<and> oc_inv (c', cs') \<and> oc_drained c' \<and>
    oc_pending (c', cs') = oc_pending (c, cs)"
proof (cases "oc_drained c")
  case True
  with assms show ?thesis by (simp add: oh_drainHeader_def)
next
  case False
  with assms obtain data where d: "oh_lines (concat cs) = Some data" "oc_rbuf c = []" "[] \<notin> set cs"
    by (auto simp: oc_inv_def)
  then obtain rest cs' where "oh_fill oh_header [] cs = Some ((), rest, cs')" "rest @ concat cs' = data" "set cs' \<subseteq> set cs"
    using resp.fill_found [of "[]" cs "()" data] by (auto simp: oh_header_def)
  with False d show ?thesis by (auto simp: oh_drainHeader_def oc_inv_def oc_pending_def)
qed

lemma oh_client_Handshake_inv:
  "\<exists>c'. oh_client_Handshake (Some req) c = (True, c') \<and> oc_inv (c', cs) = oc_inv (c, cs) \<and>
     oc_pending (c', cs) = oc_pending (c, cs)"
  by (simp add: oh_client_Handshake_def oc_inv_def oc_pending_def)

lemma oc_read_step:
  assumes "oc_inv (c, cs)"
  shows "\<exists>c1 cs1 r buf cs2. oc_inv (c1, cs1) \<and> oc_drained c1 \<and> oc_pending (c1, cs1) = oc_pending (c, cs) \<and>
    rbuf_read n (oc_rbuf c1) cs1 = ((r, buf), cs2) \<and> oc_read (Some req) n (c, cs) = (r, c1\<lparr>oc_rbuf := buf\<rparr>, cs2)"
proof -
  obtain c0 where c0: "oh_client_Handshake (Some req) c = (True, c0)" "oc_inv (c0, cs)"
      "oc_pending (c0, cs) = oc_pending (c, cs)"
    using oh_client_Handshake_inv [of req c cs] assms by auto
  obtain c1 cs1 where c1: "oh_drainHeader c0 cs = ((True, c1), cs1)" "oc_inv (c1, cs1)" "oc_drained c1"
      "oc_pending (c1, cs1) = oc_pending (c0, cs)"
    using oh_drainHeader_inv [OF c0(2)] by auto
  obtain r buf cs2 where "rbuf_read n (oc_rbuf c1) cs1 = ((r, buf), cs2)"
    by (metis surj_pair)
  with c0 c1 show ?thesis by (auto simp: oc_read_def oh_client_Read_def)
qed

interpretation oc: lossless_reader "oc_read (Some req)" oc_inv oc_pending for req
proof (unfold_locales, goal_cases)
  case (1 s n b s')
  obtain c cs where s: "s = (c, cs)" by (cases s)
  show ?case
    using oc_read_step [of c cs n req] 1
    by (fastforce simp: s oc_inv_def oc_pending_def dest: rbuf_read_some)
next
  case (2 s n s')
  obtain c cs where s: "s = (c, cs)" by (cases s)
  show ?case
    using oc_read_step [of c cs n req] 2
    by (fastforce simp: s oc_inv_def oc_pending_def dest: rbuf_read_none)
qed

subsection \<open>The server\<close>

text \<open>What a server that succeeds answers to the request \<open>r\<close>.\<close>

definition os_accept :: "(int \<Rightarrow> string option \<Rightarrow> string) \<Rightarrow> (string \<Rightarrow> byte list) \<Rightarrow> oh_request \<Rightarrow> string" where
  "os_accept response sha1 r = response 101 (Some (computeAcceptKey sha1 (or_key r)))"

text \<open>A client that upgrades, with nothing in its body.\<close>

definition upgrades :: "oh_request \<Rightarrow> bool" where
  "upgrades r \<longleftrightarrow> or_method r = ''GET'' \<and> or_upgrade r = ''websocket'' \<and> or_contentLength r \<le> 0"

text \<open>A state of the reads: the server, what it has written, and the stream.\<close>

type_synonym os_state = "oh_server \<times> string \<times> string list"

definition os_read ::
    "oh_parser \<Rightarrow> (int \<Rightarrow> string option \<Rightarrow> string) \<Rightarrow> (string \<Rightarrow> byte list) \<Rightarrow> nat \<Rightarrow> os_state \<Rightarrow> string option \<times> os_state"
where
  "os_read parse response sha1 n =
     (\<lambda>(c, out, cs). case oh_server_Read parse response sha1 True n c cs of
        (((r, o1), c), cs) \<Rightarrow> (r, c, out @ o1, cs))"

definition os_inv ::
    "oh_parser \<Rightarrow> (int \<Rightarrow> string option \<Rightarrow> string) \<Rightarrow> (string \<Rightarrow> byte list) \<Rightarrow> oh_request \<Rightarrow> os_state \<Rightarrow> bool"
where
  "os_inv parse response sha1 r =
     (\<lambda>(c, out, cs). header_reader parse \<and> upgrades r \<and> [] \<notin> set cs \<and>
        (if os_handshaked c then out @ os_wbuf c = os_accept response sha1 r
         else c = oh_new_server \<and> out = [] \<and> (\<exists>data. parse (concat cs) = Some (Some r, data))))"

definition os_pending :: "oh_parser \<Rightarrow> os_state \<Rightarrow> string" where
  "os_pending parse =
     (\<lambda>(c, out, cs). if os_handshaked c then os_rbuf c @ concat cs else snd (the (parse (concat cs))))"

lemma os_Handshake_inv:
  assumes "os_inv parse response sha1 r (c, out, cs)"
  shows "\<exists>o1 c1 cs1. oh_server_Handshake parse response sha1 True c cs = (((True, o1), c1), cs1) \<and> os_handshaked c1 \<and>
    os_inv parse response sha1 r (c1, out @ o1, cs1) \<and> os_pending parse (c1, out @ o1, cs1) = os_pending parse (c, out, cs)"
proof (cases "os_handshaked c")
  case True
  with assms show ?thesis by (simp add: oh_server_Handshake_def)
next
  case False
  with assms obtain data where d: "parse (concat cs) = Some (Some r, data)" "c = oh_new_server" "out = []"
      "[] \<notin> set cs" "upgrades r" "header_reader parse"
    by (auto simp: os_inv_def)
  obtain rest cs1 where "oh_fill parse [] cs = Some (Some r, rest, cs1)" "rest @ concat cs1 = data" "set cs1 \<subseteq> set cs"
    using header_reader.fill_found [OF d(6), of "[]" cs "Some r" data] d(1) by auto
  with d show ?thesis
    by (auto simp: oh_server_Handshake_def oh_handshake_def oh_body_def oh_new_server_def upgrades_def Let_def
        os_inv_def os_pending_def os_accept_def)
qed

lemma os_read_step:
  assumes "os_inv parse response sha1 r (c, out, cs)"
  shows "\<exists>o1 c1 cs1 b buf cs2. os_inv parse response sha1 r (c1, out @ o1, cs1) \<and> os_handshaked c1 \<and>
    os_pending parse (c1, out @ o1, cs1) = os_pending parse (c, out, cs) \<and>
    rbuf_read n (os_rbuf c1) cs1 = ((b, buf), cs2) \<and>
    os_read parse response sha1 n (c, out, cs) = (b, c1\<lparr>os_rbuf := buf\<rparr>, out @ o1, cs2)"
proof -
  obtain o1 c1 cs1 where h: "oh_server_Handshake parse response sha1 True c cs = (((True, o1), c1), cs1)" "os_handshaked c1"
      "os_inv parse response sha1 r (c1, out @ o1, cs1)"
      "os_pending parse (c1, out @ o1, cs1) = os_pending parse (c, out, cs)"
    using os_Handshake_inv [OF assms] by auto
  obtain b buf cs2 where "rbuf_read n (os_rbuf c1) cs1 = ((b, buf), cs2)"
    by (metis surj_pair)
  with h show ?thesis by (auto simp: os_read_def oh_server_Read_def)
qed

interpretation os: lossless_reader "os_read parse response sha1" "os_inv parse response sha1 r" "os_pending parse"
  for parse response sha1 r
proof (unfold_locales, goal_cases)
  case (1 s n b s')
  obtain c out cs where s: "s = (c, out, cs)" by (cases s)
  show ?case
    using os_read_step [of parse response sha1 r c out cs n] 1
    by (fastforce simp: s os_inv_def os_pending_def dest: rbuf_read_some)
next
  case (2 s n s')
  obtain c out cs where s: "s = (c, out, cs)" by (cases s)
  show ?case
    using os_read_step [of parse response sha1 r c out cs n] 2
    by (fastforce simp: s os_inv_def os_pending_def dest: rbuf_read_none)
qed

text \<open>After a write, the client has the whole response and the bytes.\<close>

lemma os_Write_response:
  assumes "os_inv parse response sha1 r (c, out, cs)"
    and "oh_server_Write parse response sha1 True None b c cs = (((w, o1), c1), cs1)"
  shows "w = (length b, True) \<and> out @ o1 = os_accept response sha1 r @ b"
  using os_Handshake_inv [OF assms(1)] assms(2)
  by (fastforce simp: oh_server_Write_def os_inv_def Let_def split: if_splits)

text \<open>
  C28. The camouflage hides no byte.  The client's first write sends the request and its bytes; however the
  network cuts them, the server reads the bytes, and its first write sends the response to the key of that request and its bytes;
  however these are cut, the client reads them.  For the request, the text of \<open>net/http\<close> must be parsed back, and the
  response must end with its only empty line.
\<close>

theorem obfs_http_session:
  assumes "header_reader parse" "parse req = Some (Some r, [])" "upgrades r"
    and "oh_lines (response 101 (Some (computeAcceptKey sha1 (or_key r)))) = Some []"
    and "oh_client_Write (Some req) None b1 oh_new_client = ((w1, out1), c1)"
    and "concat cs1 = out1" "[] \<notin> set cs1" "\<forall>n\<in>set ns1. 0 < n" "length b1 \<le> length ns1"
    and "reads (os_read parse response sha1) ns1 (oh_new_server, [], cs1) = (got1, s1, mid, cs1')"
    and "oh_server_Write parse response sha1 True None b2 s1 cs1' = (((w2, out2), s2), cs1'')"
    and "concat cs2 = mid @ out2" "[] \<notin> set cs2" "\<forall>n\<in>set ns2. 0 < n" "length b2 \<le> length ns2"
  shows "w1 = (length b1, True) \<and> got1 = b1 \<and> w2 = (length b2, True) \<and>
    fst (reads (oc_read (Some req)) ns2 (c1, cs2)) = b2"
proof -
  have w1: "w1 = (length b1, True)" "out1 = req @ b1" and c1: "oc_rbuf c1 = []" "\<not> oc_drained c1"
    using assms(5) by (auto simp: oh_client_Write_def oh_client_Handshake_def oh_new_client_def Let_def split: if_splits)
  have p: "parse (concat cs1) = Some (Some r, b1)"
    using header_reader.strip_more [OF assms(1,2), of b1] assms(6) w1 by simp
  then have inv: "os_inv parse response sha1 r (oh_new_server, [], cs1)"
    using assms(1,3,7) by (auto simp: os_inv_def oh_new_server_def)
  have pend: "os_pending parse (oh_new_server, [], cs1) = b1"
    using p by (simp add: os_pending_def oh_new_server_def)
  have got1: "got1 = b1"
    using os.reads_all [OF inv assms(8)] assms(9,10) pend by simp
  have "os_inv parse response sha1 r (s1, mid, cs1')"
    using os.reads_inv [OF inv, of ns1] assms(10) by simp
  from os_Write_response [OF this assms(11)]
  have w2: "w2 = (length b2, True)" and out2: "mid @ out2 = os_accept response sha1 r @ b2" by auto
  have "oh_lines (concat cs2) = Some b2"
    using oh_lines_more [OF assms(4), of b2] assms(12) out2 by (simp add: os_accept_def)
  then have "oc_inv (c1, cs2)" "oc_pending (c1, cs2) = b2"
    using c1 assms(13) by (auto simp: oc_inv_def oc_pending_def)
  then have "fst (reads (oc_read (Some req)) ns2 (c1, cs2)) = b2"
    using oc.reads_all [OF _ assms(14)] assms(15) by simp
  with w1 got1 w2 show ?thesis by simp
qed

text \<open>A client that reads first sends nothing: a protocol in which the server speaks first never gets its request.\<close>

lemma oh_client_Read_sends_nothing:
  "oh_client_Read (Some req) n oh_new_client [] =
     ((None, \<lparr>oc_rbuf = [], oc_wbuf = req, oc_drained = True, oc_handshaked = True\<rparr>), [])"
  by (simp add: oh_client_Read_def oh_client_Handshake_def oh_drainHeader_def oh_header_def oh_new_client_def
      oh_lines.simps [of "[]"] read_line_def)

subsection \<open>A session\<close>

definition demo_oh_request :: oh_request where
  "demo_oh_request = \<lparr>or_method = ''GET'', or_upgrade = ''websocket'', or_key = ''k'', or_contentLength = 0\<rparr>"

definition demo_oh_parse :: oh_parser where
  "demo_oh_parse s = map_option (Pair (Some demo_oh_request)) (oh_lines s)"

lemma demo_oh_reader: "header_reader demo_oh_parse"
  by unfold_locales (auto simp: demo_oh_parse_def dest: oh_lines_more)

lemma demo_oh_lines: "oh_lines [CHR ''G'', CHR 0x0A, CHR 0x0D, CHR 0x0A] = Some []"
  by (simp add: oh_lines.simps read_line_def crlf_def)

theorem obfs_http_session_witness:
  "let req = [CHR ''G'', CHR 0x0A, CHR 0x0D, CHR 0x0A];
       ((w1, out1), c1) = oh_client_Write (Some req) None ''ab'' oh_new_client;
       rd = os_read demo_oh_parse (\<lambda>_ _. req) (\<lambda>_. []);
       (got1, s1, mid, rest1) = reads rd [1, 5] (oh_new_server, [], [take 3 out1, drop 3 out1]);
       (((w2, out2), s2), rest2) = oh_server_Write demo_oh_parse (\<lambda>_ _. req) (\<lambda>_. []) True None ''cde'' s1 rest1
   in got1 = ''ab'' \<and> fst (reads (oc_read (Some req)) [2, 2, 2] (c1, [mid @ out2])) = ''cde''"
proof -
  let ?req = "[CHR ''G'', CHR 0x0A, CHR 0x0D, CHR 0x0A]"
  let ?resp = "\<lambda>_ _. ?req" and ?sha = "\<lambda>_. []"
  obtain w1 out1 c1 where 1: "oh_client_Write (Some ?req) None ''ab'' oh_new_client = ((w1, out1), c1)"
    by (metis surj_pair)
  then have out1: "out1 = ?req @ ''ab''"
    by (auto simp: oh_client_Write_def oh_client_Handshake_def oh_new_client_def Let_def)
  obtain got1 s1 mid rest1 where 2: "reads (os_read demo_oh_parse ?resp ?sha) [1, 5]
      (oh_new_server, [], [take 3 out1, drop 3 out1]) = (got1, s1, mid, rest1)"
    by (metis surj_pair)
  obtain w2 out2 s2 rest2 where 3: "oh_server_Write demo_oh_parse ?resp ?sha True None ''cde'' s1 rest1 = (((w2, out2), s2), rest2)"
    by (metis surj_pair)
  have ne: "mid @ out2 \<noteq> []"
  proof -
    have "os_inv demo_oh_parse ?resp ?sha demo_oh_request (oh_new_server, [], [take 3 out1, drop 3 out1])"
      using demo_oh_reader oh_lines_more [OF demo_oh_lines, of "''ab''"] out1
      by (auto simp: os_inv_def oh_new_server_def upgrades_def demo_oh_request_def demo_oh_parse_def)
    from os.reads_inv [OF this, of "[1, 5]"] 2
    have "os_inv demo_oh_parse ?resp ?sha demo_oh_request (s1, mid, rest1)" by simp
    from os_Write_response [OF this 3] show ?thesis by simp
  qed
  have "got1 = ''ab'' \<and> fst (reads (oc_read (Some ?req)) [2, 2, 2] (c1, [mid @ out2])) = ''cde''"
    using obfs_http_session [OF demo_oh_reader _ _ _ 1 _ _ _ _ 2 3, of demo_oh_request "[mid @ out2]" "[2, 2, 2]"]
      out1 ne demo_oh_lines
    by (simp add: demo_oh_parse_def upgrades_def demo_oh_request_def)
  with 1 2 3 show ?thesis by simp
qed

end
