(* ===== verification/Dialers.thy ===== *)
theory Dialers
  imports Handler "HOL-Library.Signed_Division"
begin

text \<open>
  The dialers that carry many connections over one session (\<open>dialer/mtls\<close>, \<open>dialer/mws\<close>, \<open>dialer/ssh\<close>, \<open>dialer/sshd\<close>,
  \<open>dialer/quic\<close>, \<open>dialer/icmp\<close>, \<open>dialer/kcp\<close>): each keeps a table of sessions by address under one mutex, so
  that a dial and a handshake are atomic, but not both together.  The multiplexers, TLS, SSH, QUIC and KCP are packages
  of others: what they answer is an oracle.  Connections and sessions are numbers.
\<close>

section \<open>Sessions, events and oracles\<close>

text \<open>
  A session: its connection, and its multiplexer, SSH client or QUIC connection once there is one.
\<close>

record dl_session =
  se_conn :: nat
  se_mux :: "nat option"

type_synonym dl_pool = "string \<Rightarrow> dl_session option"

text \<open>The fields of the configuration of \<open>smux\<close> that are set, and the client's methods of SSH.\<close>

record smux_config =
  sx_Version :: int
  sx_KeepAliveDisabled :: bool
  sx_KeepAliveInterval :: int
  sx_KeepAliveTimeout :: int
  sx_MaxFrameSize :: int
  sx_MaxReceiveBuffer :: int
  sx_MaxStreamBuffer :: int

datatype ssh_method = SshPassword string | SshPublicKeys

record kcp_config =
  kc_Key :: string
  kc_Crypt :: string
  kc_Mode :: string
  kc_MTU :: int
  kc_SndWnd :: int
  kc_RcvWnd :: int
  kc_DataShard :: int
  kc_ParityShard :: int
  kc_DSCP :: int
  kc_NoComp :: bool
  kc_AckNodelay :: bool
  kc_NoDelay :: int
  kc_Interval :: int
  kc_Resend :: int
  kc_NoCongestion :: int
  kc_SockBuf :: int
  kc_SmuxBuf :: int
  kc_StreamBuf :: int
  kc_SmuxVer :: int
  kc_KeepAlive :: int
  kc_SnmpLog :: string
  kc_SnmpPeriod :: int
  kc_Signal :: bool
  kc_TCP :: bool

text \<open>The configuration of QUIC.\<close>

record quic_config =
  qc_keepAlivePeriod :: int
  qc_maxIdleTimeout :: int
  qc_handshakeTimeout :: int
  qc_maxStreams :: int

text \<open>What is put over a connection, and what makes a session of it.\<close>

datatype kcp_cipher =
    KcpSM4 | KcpTEA | KcpSimpleXOR | KcpNone | KcpAES | KcpBlowfish | KcpTwofish | KcpCast5 | KcpTripleDES | KcpXTEA | KcpSalsa20

datatype dl_wrap =
    WrapTls | WrapWs string string string | WrapCipher | WrapIcmp nat | WrapKcp kcp_cipher string kcp_config | WrapSnappy
datatype dl_setup = SmuxClient smux_config | SshClient string "ssh_method list" | QuicEarly quic_config string nat

datatype dl_event =
    DlNet string string "nat option"
  | DlWrap dl_wrap nat "nat option"
  | DlSetup dl_setup nat "nat option"
  | DlClosed nat bool
  | DlOpen nat "nat option"
  | DlClose nat
  | DlCloseMux nat
  | DlDeadline nat bool
  | DlKeepAlive nat
  | DlRandom nat

type_synonym dl_history = "(dl_pool, dl_event) history"
type_synonym 'a dl_io = "(dl_pool, dl_event, 'a) io"

text \<open>
  The oracles: a dial of the network, a handshake over a connection, the making of a session, whether a session is closed, and the
  opening of a stream; the number of a wrapper that cannot fail, a random identifier; which addresses resolve, with their
  port, which connections carry packets, the default configuration of \<open>smux\<close>, and the derivation of keys.
\<close>

record dl_world =
  dw_net :: "string \<Rightarrow> string \<Rightarrow> dl_history \<Rightarrow> nat option"
  dw_wrap :: "dl_wrap \<Rightarrow> nat \<Rightarrow> dl_history \<Rightarrow> nat option"
  dw_setup :: "dl_setup \<Rightarrow> nat \<Rightarrow> dl_history \<Rightarrow> nat option"
  dw_closed :: "nat \<Rightarrow> dl_history \<Rightarrow> bool"
  dw_open :: "nat \<Rightarrow> dl_history \<Rightarrow> nat option"
  dw_resolve :: "string \<Rightarrow> (string \<times> nat) option"
  dw_packets :: "nat \<Rightarrow> bool"
  dw_name :: "dl_wrap \<Rightarrow> nat \<Rightarrow> dl_history \<Rightarrow> nat"
  dw_random :: "dl_history \<Rightarrow> nat"
  dw_smux :: smux_config
  dw_pbkdf2 :: "string \<Rightarrow> string \<Rightarrow> string"

datatype dl_err = DlDial | DlResolve | DlType | DlInit | DlUnrecognized | DlOpening | DlDead

section \<open>The table\<close>

definition dl_get :: "string \<Rightarrow> dl_session option dl_io" where
  "dl_get addr = act (\<lambda>m. (m addr, m))"

definition dl_put :: "string \<Rightarrow> dl_session \<Rightarrow> unit dl_io" where
  "dl_put addr s = act (\<lambda>m. ((), m(addr \<mapsto> s)))"

definition dl_delete :: "string \<Rightarrow> unit dl_io" where
  "dl_delete addr = act (\<lambda>m. ((), m(addr := None)))"

text \<open>The session of an address, when there is one that is not closed; a closed one is forgotten.\<close>

definition dl_live :: "(dl_session \<Rightarrow> bool dl_io) \<Rightarrow> string \<Rightarrow> dl_session option dl_io" where
  "dl_live IsClosed addr = do {
     so \<leftarrow> dl_get addr;
     case so of
       None \<Rightarrow> return None
     | Some s \<Rightarrow> do {
         closed \<leftarrow> IsClosed s;
         if closed then do { dl_delete addr; return None } else return (Some s)
       }
   }"

text \<open>A session of \<open>smux\<close> that has not been set up counts as closed; for SSH its channels are nil, and it does not.\<close>

definition mux_IsClosed :: "dl_world \<Rightarrow> dl_session \<Rightarrow> bool dl_io" where
  "mux_IsClosed E s = (case se_mux s of None \<Rightarrow> return True | Some m \<Rightarrow> ask (dw_closed E m) (DlClosed m))"

definition ssh_IsClosed :: "dl_world \<Rightarrow> dl_session \<Rightarrow> bool dl_io" where
  "ssh_IsClosed E s = (case se_mux s of None \<Rightarrow> return False | Some m \<Rightarrow> ask (dw_closed E m) (DlClosed m))"

section \<open>Dialing for a later handshake\<close>

definition stream_Dial :: "dl_world \<Rightarrow> (dl_session \<Rightarrow> bool dl_io) \<Rightarrow> string \<Rightarrow> (dl_err + nat) dl_io" where
  "stream_Dial E IsClosed addr = do {
     so \<leftarrow> dl_live IsClosed addr;
     case so of
       Some s \<Rightarrow> return (Inr (se_conn s))
     | None \<Rightarrow> do {
         conn \<leftarrow> ask (dw_net E ''tcp'' addr) (DlNet ''tcp'' addr);
         case conn of
           None \<Rightarrow> return (Inl DlDial)
         | Some c \<Rightarrow> do { dl_put addr \<lparr>se_conn = c, se_mux = None\<rparr>; return (Inr c) }
       }
   }"

definition mtls_Dial where "mtls_Dial E = stream_Dial E (mux_IsClosed E)"
definition mws_Dial where "mws_Dial E = stream_Dial E (mux_IsClosed E)"
definition ssh_Dial where "ssh_Dial E = stream_Dial E (ssh_IsClosed E)"
definition sshd_Dial where "sshd_Dial E = stream_Dial E (ssh_IsClosed E)"

section \<open>Handshakes of multiplexed streams\<close>

record mux_metadata =
  mm_handshakeTimeout :: int
  mm_muxKeepAliveDisabled :: bool
  mm_muxKeepAliveInterval :: int
  mm_muxKeepAliveTimeout :: int
  mm_muxMaxFrameSize :: int
  mm_muxMaxReceiveBuffer :: int
  mm_muxMaxStreamBuffer :: int

definition mux_smuxConfig :: "mux_metadata \<Rightarrow> smux_config \<Rightarrow> smux_config" where
  "mux_smuxConfig M d =
     d\<lparr>sx_KeepAliveDisabled := mm_muxKeepAliveDisabled M,
       sx_KeepAliveInterval := if mm_muxKeepAliveInterval M > 0 then mm_muxKeepAliveInterval M else sx_KeepAliveInterval d,
       sx_KeepAliveTimeout := if mm_muxKeepAliveTimeout M > 0 then mm_muxKeepAliveTimeout M else sx_KeepAliveTimeout d,
       sx_MaxFrameSize := if mm_muxMaxFrameSize M > 0 then mm_muxMaxFrameSize M else sx_MaxFrameSize d,
       sx_MaxReceiveBuffer := if mm_muxMaxReceiveBuffer M > 0 then mm_muxMaxReceiveBuffer M else sx_MaxReceiveBuffer d,
       sx_MaxStreamBuffer := if mm_muxMaxStreamBuffer M > 0 then mm_muxMaxStreamBuffer M else sx_MaxStreamBuffer d\<rparr>"

text \<open>\<open>smux.Client\<close> over a connection that has been made ready: the connection and the multiplexer of the session.\<close>

definition mux_client :: "dl_world \<Rightarrow> smux_config \<Rightarrow> nat option \<Rightarrow> (nat \<times> nat) option dl_io" where
  "mux_client E cfg co =
     (case co of
        None \<Rightarrow> return None
      | Some c \<Rightarrow> do {
          m \<leftarrow> ask (dw_setup E (SmuxClient cfg) c) (DlSetup (SmuxClient cfg) c);
          return (map_option (Pair c) m)
        })"

definition mtls_initSession :: "dl_world \<Rightarrow> mux_metadata \<Rightarrow> nat \<Rightarrow> (nat \<times> nat) option dl_io" where
  "mtls_initSession E M conn = do {
     co \<leftarrow> ask (dw_wrap E WrapTls conn) (DlWrap WrapTls conn);
     mux_client E (mux_smuxConfig M (dw_smux E)) co
   }"

record mws_metadata =
  mw_host :: string
  mw_path :: string
  mw_tls :: bool
  mw_keepAlive :: int
  mw_mux :: mux_metadata

definition mws_initSession :: "dl_world \<Rightarrow> mws_metadata \<Rightarrow> string \<Rightarrow> nat \<Rightarrow> (nat \<times> nat) option dl_io" where
  "mws_initSession E M host conn = do {
     (if mm_handshakeTimeout (mw_mux M) > 0 then emit (DlDeadline conn True) else return ());
     let ws = WrapWs (if mw_tls M then ''wss'' else ''ws'') host (mw_path M);
     co \<leftarrow> ask (dw_wrap E ws conn) (DlWrap ws conn);
     case co of
       None \<Rightarrow> return None
     | Some c \<Rightarrow> do {
         (if mm_handshakeTimeout (mw_mux M) > 0 then emit (DlDeadline conn False) else return ());
         (if mw_keepAlive M > 0 then emit (DlKeepAlive c) else return ());
         mux_client E (mux_smuxConfig (mw_mux M) (dw_smux E)) (Some c)
       }
   }"

text \<open>A stream of the session, which is closed and forgotten when it gives none.\<close>

definition dl_stream :: "dl_world \<Rightarrow> string \<Rightarrow> nat \<Rightarrow> (dl_err + nat) dl_io" where
  "dl_stream E addr m = do {
     st \<leftarrow> ask (dw_open E m) (DlOpen m);
     case st of
       None \<Rightarrow> do { emit (DlCloseMux m); dl_delete addr; return (Inl DlOpening) }
     | Some st \<Rightarrow> return (Inr st)
   }"

text \<open>A new session for the address, over the connection.\<close>

definition dl_init :: "(nat \<times> nat) option dl_io \<Rightarrow> string \<Rightarrow> nat \<Rightarrow> nat option dl_io" where
  "dl_init init addr conn = do {
     s \<leftarrow> init;
     case s of
       None \<Rightarrow> do { emit (DlClose conn); dl_delete addr; return None }
     | Some (c, m) \<Rightarrow> do { dl_put addr \<lparr>se_conn = c, se_mux = Some m\<rparr>; return (Some m) }
   }"

definition dl_foreign :: "dl_session option \<Rightarrow> nat \<Rightarrow> bool" where
  "dl_foreign so conn \<longleftrightarrow> (case so of None \<Rightarrow> False | Some s \<Rightarrow> se_conn s \<noteq> conn)"

definition mux_Handshake :: "dl_world \<Rightarrow> (nat \<times> nat) option dl_io \<Rightarrow> string \<Rightarrow> nat \<Rightarrow> (dl_err + nat) dl_io" where
  "mux_Handshake E init addr conn = do {
     so \<leftarrow> dl_get addr;
     if dl_foreign so conn then do { emit (DlClose conn); return (Inl DlUnrecognized) }
     else do {
       mo \<leftarrow> (case Option.bind so se_mux of Some m \<Rightarrow> return (Some m) | None \<Rightarrow> dl_init init addr conn);
       case mo of
         None \<Rightarrow> return (Inl DlInit)
       | Some m \<Rightarrow> dl_stream E addr m
     }
   }"

definition dl_timed :: "int \<Rightarrow> nat \<Rightarrow> 'a dl_io \<Rightarrow> 'a dl_io" where
  "dl_timed timeout conn m =
     (if timeout > 0 then do { emit (DlDeadline conn True); deferring (emit (DlDeadline conn False)) m } else m)"

definition mtls_Handshake :: "dl_world \<Rightarrow> mux_metadata \<Rightarrow> string \<Rightarrow> nat \<Rightarrow> (dl_err + nat) dl_io" where
  "mtls_Handshake E M addr conn =
     dl_timed (mm_handshakeTimeout M) conn (mux_Handshake E (mtls_initSession E M conn) addr conn)"

definition mws_Handshake :: "dl_world \<Rightarrow> mws_metadata \<Rightarrow> string \<Rightarrow> nat \<Rightarrow> (dl_err + nat) dl_io" where
  "mws_Handshake E M addr conn =
     mux_Handshake E (mws_initSession E M (if mw_host M = [] then addr else mw_host M) conn) addr conn"

section \<open>Handshakes of SSH\<close>

definition ssh_client_config :: "(string \<times> string) option \<Rightarrow> bool \<Rightarrow> string \<times> ssh_method list" where
  "ssh_client_config auth signer =
     (case auth of
        None \<Rightarrow> ([], if signer then [SshPublicKeys] else [])
      | Some (u, p) \<Rightarrow>
          (u, (if p \<noteq> [] then [SshPassword p] else []) @ (if signer then [SshPublicKeys] else [])))"

record ssh_metadata =
  sm_handshakeTimeout :: int
  sm_signer :: bool
  sm_auth :: "(string \<times> string) option"

definition ssh_initSession :: "dl_world \<Rightarrow> ssh_metadata \<Rightarrow> nat \<Rightarrow> (nat \<times> nat) option dl_io" where
  "ssh_initSession E M conn = do {
     let (user, methods) = ssh_client_config (sm_auth M) (sm_signer M);
     m \<leftarrow> ask (dw_setup E (SshClient user methods) conn) (DlSetup (SshClient user methods) conn);
     return (map_option (Pair conn) m)
   }"

text \<open>The client of a session that is alive; another connection makes the table forget the session.\<close>

definition ssh_client :: "dl_world \<Rightarrow> ssh_metadata \<Rightarrow> string \<Rightarrow> nat \<Rightarrow> (dl_err + nat) dl_io" where
  "ssh_client E M addr conn = do {
     so \<leftarrow> dl_get addr;
     if dl_foreign so conn
     then do { emit (DlClose conn); dl_delete addr; return (Inl DlUnrecognized) }
     else do {
       mo \<leftarrow> (case Option.bind so se_mux of Some m \<Rightarrow> return (Some m) | None \<Rightarrow> dl_init (ssh_initSession E M conn) addr conn);
       case mo of
         None \<Rightarrow> return (Inl DlInit)
       | Some m \<Rightarrow> do {
           closed \<leftarrow> ask (dw_closed E m) (DlClosed m);
           if closed then do { dl_delete addr; return (Inl DlDead) } else return (Inr m)
         }
     }
   }"

definition ssh_Handshake :: "dl_world \<Rightarrow> ssh_metadata \<Rightarrow> string \<Rightarrow> nat \<Rightarrow> (dl_err + nat) dl_io" where
  "ssh_Handshake E M addr conn = dl_timed (sm_handshakeTimeout M) conn (do {
     r \<leftarrow> ssh_client E M addr conn;
     case r of
       Inl e \<Rightarrow> return (Inl e)
     | Inr m \<Rightarrow> do {
         st \<leftarrow> ask (dw_open E m) (DlOpen m);
         return (case st of None \<Rightarrow> Inl DlOpening | Some st \<Rightarrow> Inr st)
       }
   })"

definition sshd_Handshake :: "dl_world \<Rightarrow> ssh_metadata \<Rightarrow> string \<Rightarrow> nat \<Rightarrow> (dl_err + nat) dl_io" where
  "sshd_Handshake E M addr conn = dl_timed (sm_handshakeTimeout M) conn (ssh_client E M addr conn)"

section \<open>Dialing datagrams for a session\<close>

text \<open>A connection for packets, which are encrypted when there is a key.\<close>

definition packet_Dial :: "dl_world \<Rightarrow> (dl_err + nat) dl_io" where
  "packet_Dial E = do {
     conn \<leftarrow> ask (dw_net E ''udp'' []) (DlNet ''udp'' []);
     case conn of
       None \<Rightarrow> return (Inl DlDial)
     | Some c \<Rightarrow> if dw_packets E c then return (Inr c) else do { emit (DlClose c); return (Inl DlType) }
   }"

definition dl_wrapped :: "dl_world \<Rightarrow> dl_wrap \<Rightarrow> nat \<Rightarrow> nat dl_io" where
  "dl_wrapped E w c = ask (dw_name E w c) (\<lambda>pc. DlWrap w c (Some pc))"

text \<open>A session over packets, which are closed when there is none; and a stream of the session that is found or made.\<close>

definition session_over :: "(nat \<Rightarrow> nat option dl_io) \<Rightarrow> nat \<Rightarrow> (dl_err + nat \<times> nat) dl_io" where
  "session_over init pc = do {
     m \<leftarrow> init pc;
     case m of
       None \<Rightarrow> do { emit (DlClose pc); return (Inl DlInit) }
     | Some m \<Rightarrow> return (Inr (pc, m))
   }"

definition session_Dial ::
    "dl_world \<Rightarrow> dl_session option dl_io \<Rightarrow> (dl_err + nat \<times> nat) dl_io \<Rightarrow> string \<Rightarrow> (dl_err + nat) dl_io"
where
  "session_Dial E lookup fresh addr = do {
     so \<leftarrow> lookup;
     case Option.bind so se_mux of
       Some m \<Rightarrow> dl_stream E addr m
     | None \<Rightarrow> do {
         r \<leftarrow> fresh;
         case r of
           Inl e \<Rightarrow> return (Inl e)
         | Inr (pc, m) \<Rightarrow> do { dl_put addr \<lparr>se_conn = pc, se_mux = Some m\<rparr>; dl_stream E addr m }
       }
   }"

definition dl_with_port :: "string \<Rightarrow> string" where
  "dl_with_port addr = (if split_host_port addr = None then join_host_port addr ''0'' else addr)"

definition quic_initSession :: "dl_world \<Rightarrow> quic_config \<Rightarrow> string \<Rightarrow> nat \<Rightarrow> nat \<Rightarrow> nat option dl_io" where
  "quic_initSession E Q ip port pc = ask (dw_setup E (QuicEarly Q ip port) pc) (DlSetup (QuicEarly Q ip port) pc)"

text \<open>With a key, packets are encrypted.\<close>

definition quic_Dial :: "dl_world \<Rightarrow> quic_config \<Rightarrow> string \<Rightarrow> string \<Rightarrow> (dl_err + nat) dl_io" where
  "quic_Dial E Q cipherKey address =
     (let addr = dl_with_port address in
      case dw_resolve E addr of
        None \<Rightarrow> return (Inl DlResolve)
      | Some (ip, port) \<Rightarrow>
          session_Dial E (dl_get addr)
            (do {
              r \<leftarrow> packet_Dial E;
              case r of
                Inl e \<Rightarrow> return (Inl e)
              | Inr c \<Rightarrow> do {
                  pc \<leftarrow> (if cipherKey \<noteq> [] then dl_wrapped E WrapCipher c else return c);
                  session_over (quic_initSession E Q ip port) pc
                }
            }) addr)"

text \<open>The identifier of the echo messages is the port, or random when there is none.\<close>

definition icmp_id :: "dl_world \<Rightarrow> nat \<Rightarrow> nat dl_io" where
  "icmp_id E port =
     (if port = 0 then do { n \<leftarrow> ask (dw_random E) DlRandom; return (n mod 65535 + 1) } else return port)"

definition icmp_Dial :: "dl_world \<Rightarrow> quic_config \<Rightarrow> string \<Rightarrow> (dl_err + nat) dl_io" where
  "icmp_Dial E Q address =
     (let addr = dl_with_port address in
      case dw_resolve E addr of
        None \<Rightarrow> return (Inl DlResolve)
      | Some (ip, port) \<Rightarrow>
          session_Dial E (dl_get addr)
            (do {
              conn \<leftarrow> ask (dw_net E ''ip4:icmp'' []) (DlNet ''ip4:icmp'' []);
              case conn of
                None \<Rightarrow> return (Inl DlDial)
              | Some c \<Rightarrow> do {
                  id \<leftarrow> icmp_id E port;
                  pc \<leftarrow> dl_wrapped E (WrapIcmp id) c;
                  session_over (quic_initSession E Q ip id) pc
                }
            }) addr)"

section \<open>KCP\<close>

definition kcp_DefaultConfig :: kcp_config where
  "kcp_DefaultConfig =
     \<lparr>kc_Key = ''it'' @ [CHR 0x27] @ ''s a secrect'', kc_Crypt = ''aes'', kc_Mode = ''fast'', kc_MTU = 1350,
      kc_SndWnd = 1024, kc_RcvWnd = 1024, kc_DataShard = 10, kc_ParityShard = 3, kc_DSCP = 0, kc_NoComp = False,
      kc_AckNodelay = False, kc_NoDelay = 0, kc_Interval = 50, kc_Resend = 0, kc_NoCongestion = 0, kc_SockBuf = 4194304,
      kc_SmuxBuf = 4194304, kc_StreamBuf = 2097152, kc_SmuxVer = 1, kc_KeepAlive = 10, kc_SnmpLog = [],
      kc_SnmpPeriod = 60, kc_Signal = False, kc_TCP = False\<rparr>"

definition kcp_mode :: "kcp_config \<Rightarrow> kcp_config" where
  "kcp_mode c =
     (let set = \<lambda>nodelay interval resend nc.
        c\<lparr>kc_NoDelay := nodelay, kc_Interval := interval, kc_Resend := resend, kc_NoCongestion := nc\<rparr>
      in if kc_Mode c = ''normal'' then set 0 40 2 1
         else if kc_Mode c = ''fast'' then set 0 30 2 1
         else if kc_Mode c = ''fast2'' then set 1 20 2 1
         else if kc_Mode c = ''fast3'' then set 1 10 2 1
         else c)"

text \<open>\<open>Config.Init\<close>; a division of \<open>int\<close> cuts towards zero.\<close>

definition kcp_Init :: "kcp_config \<Rightarrow> kcp_config" where
  "kcp_Init c0 =
     (let c = kcp_mode c0;
          c = (if kc_SmuxVer c \<le> 0 then c\<lparr>kc_SmuxVer := 1\<rparr> else c);
          c = (if kc_SmuxBuf c \<le> 0 then c\<lparr>kc_SmuxBuf := kc_SockBuf c\<rparr> else c)
      in if kc_StreamBuf c \<le> 0 then c\<lparr>kc_StreamBuf := kc_SockBuf c sdiv 2\<rparr> else c)"

text \<open>The cipher and its key, from the 32 bytes that are derived from the key and the salt.\<close>

definition kcp_BlockCrypt :: "(string \<Rightarrow> string \<Rightarrow> string) \<Rightarrow> string \<Rightarrow> string \<Rightarrow> string \<Rightarrow> kcp_cipher \<times> string" where
  "kcp_BlockCrypt pbkdf2 key crypt salt =
     (let pass = pbkdf2 key salt in
      case map_of
        [(''sm4'', (KcpSM4, take 16 pass)), (''tea'', (KcpTEA, take 16 pass)), (''xor'', (KcpSimpleXOR, pass)),
         (''none'', (KcpNone, pass)), (''aes-128'', (KcpAES, take 16 pass)), (''aes-192'', (KcpAES, take 24 pass)),
         (''blowfish'', (KcpBlowfish, pass)), (''twofish'', (KcpTwofish, pass)), (''cast5'', (KcpCast5, take 16 pass)),
         (''3des'', (KcpTripleDES, take 24 pass)), (''xtea'', (KcpXTEA, take 16 pass)), (''salsa20'', (KcpSalsa20, pass))] crypt
      of Some b \<Rightarrow> b | None \<Rightarrow> (KcpAES, pass))"

definition kcp_smuxConfig :: "kcp_config \<Rightarrow> smux_config \<Rightarrow> smux_config" where
  "kcp_smuxConfig C d =
     d\<lparr>sx_Version := kc_SmuxVer C, sx_MaxReceiveBuffer := kc_SmuxBuf C, sx_MaxStreamBuffer := kc_StreamBuf C,
       sx_KeepAliveInterval := wrap64 (kc_KeepAlive C * 1000000000)\<rparr>"

definition kcp_initSession :: "dl_world \<Rightarrow> kcp_config \<Rightarrow> nat \<Rightarrow> nat option dl_io" where
  "kcp_initSession E C pc = do {
     let (cipher, key) = kcp_BlockCrypt (dw_pbkdf2 E) (kc_Key C) (kc_Crypt C) ''kcp-go'';
     ko \<leftarrow> ask (dw_wrap E (WrapKcp cipher key C) pc) (DlWrap (WrapKcp cipher key C) pc);
     case ko of
       None \<Rightarrow> return None
     | Some k \<Rightarrow> do {
         cc \<leftarrow> (if kc_NoComp C then return k else dl_wrapped E WrapSnappy k);
         s \<leftarrow> mux_client E (kcp_smuxConfig C (dw_smux E)) (Some cc);
         return (map_option snd s)
       }
   }"

definition kcp_Dial :: "dl_world \<Rightarrow> kcp_config \<Rightarrow> string \<Rightarrow> (dl_err + nat) dl_io" where
  "kcp_Dial E C addr =
     (case dw_resolve E addr of
        None \<Rightarrow> return (Inl DlResolve)
      | Some _ \<Rightarrow>
          session_Dial E (dl_live (mux_IsClosed E) addr)
            (do {
              r \<leftarrow> (if kc_TCP C
                   then do {
                     conn \<leftarrow> ask (dw_net E ''tcpraw'' addr) (DlNet ''tcpraw'' addr);
                     return (case conn of None \<Rightarrow> Inl DlDial | Some c \<Rightarrow> Inr c)
                   }
                   else packet_Dial E);
              case r of Inl e \<Rightarrow> return (Inl e) | Inr pc \<Rightarrow> session_over (kcp_initSession E C) pc
            }) addr)"

section \<open>Metadata\<close>

text \<open>What the getters of the metadata answer for a key; durations are in nanoseconds.\<close>

record md_reader =
  md_string :: "string \<Rightarrow> string"
  md_bool :: "string \<Rightarrow> bool"
  md_int :: "string \<Rightarrow> int"
  md_duration :: "string \<Rightarrow> int"
  md_exists :: "string \<Rightarrow> bool"

definition mtls_parseMetadata :: "md_reader \<Rightarrow> mux_metadata" where
  "mtls_parseMetadata md =
     \<lparr>mm_handshakeTimeout = md_duration md ''handshakeTimeout'',
      mm_muxKeepAliveDisabled = md_bool md ''muxKeepAliveDisabled'',
      mm_muxKeepAliveInterval = md_duration md ''muxKeepAliveInterval'',
      mm_muxKeepAliveTimeout = md_duration md ''muxKeepAliveTimeout'',
      mm_muxMaxFrameSize = md_int md ''muxMaxFrameSize'',
      mm_muxMaxReceiveBuffer = md_int md ''muxMaxReceiveBuffer'',
      mm_muxMaxStreamBuffer = md_int md ''muxMaxStreamBuffer''\<rparr>"

text \<open>\<open>tls\<close> is set by the constructor.  Buffers, compression and the header of the web socket are left to its package.\<close>

definition mws_parseMetadata :: "bool \<Rightarrow> md_reader \<Rightarrow> mws_metadata" where
  "mws_parseMetadata tls md =
     \<lparr>mw_host = md_string md ''host'',
      mw_path = (let path = md_string md ''path'' in if path = [] then ''/ws'' else path),
      mw_tls = tls,
      mw_keepAlive = md_duration md ''keepAlive'',
      mw_mux = mtls_parseMetadata md\<rparr>"

definition quic_ttl :: "md_reader \<Rightarrow> int" where
  "quic_ttl md = (let ttl = md_duration md ''ttl'' in if ttl \<le> 0 then 10 * 1000000000 else ttl)"

text \<open>For QUIC streams are kept alive unless the metadata says no, for ICMP only when it says yes.\<close>

definition quic_parseMetadata :: "md_reader \<Rightarrow> quic_config \<times> string" where
  "quic_parseMetadata md =
     (\<lparr>qc_keepAlivePeriod = (if \<not> md_exists md ''keepAlive'' \<or> md_bool md ''keepAlive'' then quic_ttl md else 0),
       qc_maxIdleTimeout = md_duration md ''maxIdleTimeout'',
       qc_handshakeTimeout = md_duration md ''handshakeTimeout'',
       qc_maxStreams = md_int md ''maxStreams''\<rparr>, md_string md ''cipherKey'')"

definition icmp_parseMetadata :: "md_reader \<Rightarrow> quic_config" where
  "icmp_parseMetadata md =
     \<lparr>qc_keepAlivePeriod = (if md_bool md ''keepAlive'' then quic_ttl md else 0),
      qc_maxIdleTimeout = md_duration md ''maxIdleTimeout'',
      qc_handshakeTimeout = md_duration md ''handshakeTimeout'',
      qc_maxStreams = 0\<rparr>"

section \<open>No session is lost\<close>

text \<open>Every session that was set up is in the table, was found closed, or has been closed.\<close>

definition dl_held :: "dl_history \<Rightarrow> nat \<Rightarrow> bool" where
  "dl_held h m \<longleftrightarrow>
     (\<exists>a s. fst h a = Some s \<and> se_mux s = Some m) \<or> DlCloseMux m \<in> set (snd h) \<or> DlClosed m True \<in> set (snd h)"

definition dl_accounted :: "dl_history \<Rightarrow> bool" where
  "dl_accounted h \<longleftrightarrow> (\<forall>p c m. DlSetup p c (Some m) \<in> set (snd h) \<longrightarrow> dl_held h m)"

text \<open>Operations one after the other, as the mutex orders them.\<close>

primrec dl_run :: "('x \<Rightarrow> 'r dl_io) \<Rightarrow> 'x list \<Rightarrow> unit dl_io" where
  "dl_run f [] = return ()"
| "dl_run f (x # xs) = do { f x; dl_run f xs }"

datatype dl_op = OpDial string | OpHandshake string nat

primrec mtls_op :: "dl_world \<Rightarrow> mux_metadata \<Rightarrow> dl_op \<Rightarrow> (dl_err + nat) dl_io" where
  "mtls_op E M (OpDial addr) = mtls_Dial E addr"
| "mtls_op E M (OpHandshake addr conn) = mtls_Handshake E M addr conn"

primrec mws_op :: "dl_world \<Rightarrow> mws_metadata \<Rightarrow> dl_op \<Rightarrow> (dl_err + nat) dl_io" where
  "mws_op E M (OpDial addr) = mws_Dial E addr"
| "mws_op E M (OpHandshake addr conn) = mws_Handshake E M addr conn"

locale session_keeper =
  fixes f :: "'x \<Rightarrow> 'r dl_io"
  assumes keeps: "dl_accounted h \<Longrightarrow> wp (f x) (\<lambda>_. dl_accounted) h"
begin

lemma run_keeps: "dl_accounted h \<Longrightarrow> wp (dl_run f xs) (\<lambda>_. dl_accounted) h"
proof (induction xs arbitrary: h)
  case (Cons x xs)
  show ?case unfolding dl_run.simps wp_bind
    by (rule wp_mono [OF keeps [OF Cons.prems]]) (rule Cons.IH)
qed (simp add: wp_return)

lemma run_accounted: "dl_accounted (snd (run_state (dl_run f xs) (Map.empty, [])))"
  using run_keeps [of "(Map.empty, [])" xs] by (simp add: wp_def dl_accounted_def case_prod_beta)

end

lemmas dl_simps = dl_get_def dl_put_def dl_delete_def wp_simps

text \<open>The rules for the shared steps.\<close>

definition dl_gone :: "string \<Rightarrow> dl_history \<Rightarrow> bool" where
  "dl_gone addr h \<longleftrightarrow>
     (case fst h addr of
        Some s \<Rightarrow> (case se_mux s of Some m \<Rightarrow> DlCloseMux m \<in> set (snd h) \<or> DlClosed m True \<in> set (snd h) | None \<Rightarrow> True)
      | None \<Rightarrow> True)"

lemma held_emit: "dl_held (m, es) k \<Longrightarrow> dl_held (m, es @ es') k"
  by (auto simp: dl_held_def)

lemma held_put:
  assumes "dl_held (m, es) k" "dl_gone addr (m, es)"
  shows "dl_held (m(addr := so), es) k"
proof (cases "\<exists>a s. m a = Some s \<and> se_mux s = Some k")
  case True
  then obtain a s where "m a = Some s" "se_mux s = Some k" by auto
  with assms(2) show ?thesis by (cases "a = addr") (auto simp: dl_held_def dl_gone_def)
qed (use assms in \<open>auto simp: dl_held_def\<close>)

lemma accounted_put:
  "dl_accounted (m, es) \<Longrightarrow> dl_gone addr (m, es) \<Longrightarrow> dl_accounted (m(addr := so), es)"
  by (simp add: dl_accounted_def held_put)

lemma accounted_emit:
  "dl_accounted (m, es) \<Longrightarrow> \<forall>e\<in>set es'. \<forall>p c k. e \<noteq> DlSetup p c (Some k) \<Longrightarrow> dl_accounted (m, es @ es')"
  unfolding dl_accounted_def by (auto intro: held_emit)

lemma gone_emit: "dl_gone addr (m, es) \<Longrightarrow> dl_gone addr (m, es @ es')"
  unfolding dl_gone_def by (auto split: option.splits)

text \<open>A session that has just been made, and is put into the table.\<close>

lemma accounted_setup:
  assumes "dl_accounted (m, es)" "dl_gone addr (m, es)"
  shows "dl_accounted (m(addr \<mapsto> \<lparr>se_conn = c, se_mux = Some k\<rparr>), es @ [DlSetup p c' (Some k)])"
proof -
  have "dl_held (m(addr \<mapsto> \<lparr>se_conn = c, se_mux = Some k\<rparr>), es @ [DlSetup p c' (Some k)]) k"
    by (auto simp: dl_held_def)
  moreover have "dl_held (m(addr \<mapsto> \<lparr>se_conn = c, se_mux = Some k\<rparr>), es @ [DlSetup p c' (Some k)]) k'"
    if "DlSetup p' c2 (Some k') \<in> set es" for p' c2 k'
    using that assms by (auto simp: dl_accounted_def intro!: held_put held_emit gone_emit)
  ultimately show ?thesis by (auto simp: dl_accounted_def)
qed

lemma wp_dl_live:
  "dl_accounted h \<Longrightarrow> wp (dl_live (mux_IsClosed E) addr) (\<lambda>so h'. dl_accounted h' \<and> fst h' addr = so) h"
  by (cases h)
    (auto simp: dl_live_def mux_IsClosed_def dl_simps Let_def dl_gone_def intro!: accounted_emit accounted_put
      split: option.splits)

lemma wp_dl_stream:
  "dl_accounted h \<Longrightarrow> \<exists>s. fst h addr = Some s \<and> se_mux s = Some m \<Longrightarrow> wp (dl_stream E addr m) (\<lambda>_. dl_accounted) h"
  by (cases h)
    (auto simp: dl_stream_def dl_simps Let_def dl_gone_def intro!: accounted_emit accounted_put split: option.splits)

text \<open>What makes a session leaves it to be put into the table.\<close>

definition dl_made :: "dl_pool \<Rightarrow> string \<Rightarrow> nat option \<Rightarrow> dl_history \<Rightarrow> bool" where
  "dl_made pool addr mo h \<longleftrightarrow>
     fst h = pool \<and> dl_gone addr h \<and>
     (case mo of None \<Rightarrow> dl_accounted h
      | Some m \<Rightarrow> \<forall>c. dl_accounted (pool(addr \<mapsto> \<lparr>se_conn = c, se_mux = Some m\<rparr>), snd h))"

definition makes_session :: "('a \<Rightarrow> nat option) \<Rightarrow> 'a dl_io \<Rightarrow> bool" where
  "makes_session f init \<longleftrightarrow>
     (\<forall>pool es addr. dl_accounted (pool, es) \<longrightarrow> dl_gone addr (pool, es) \<longrightarrow>
        wp init (\<lambda>r. dl_made pool addr (f r)) (pool, es))"

lemma wp_dl_setup:
  "dl_accounted (pool, es) \<Longrightarrow> dl_gone addr (pool, es) \<Longrightarrow>
   wp (ask (dw_setup E p c) (DlSetup p c)) (dl_made pool addr) (pool, es)"
  by (cases "dw_setup E p c (pool, es)")
    (auto simp: wp_simps dl_made_def intro: accounted_emit gone_emit accounted_setup)

lemma wp_mux_client:
  "dl_accounted (pool, es) \<Longrightarrow> dl_gone addr (pool, es) \<Longrightarrow>
   wp (mux_client E cfg co) (\<lambda>r. dl_made pool addr (map_option snd r)) (pool, es)"
proof (cases co)
  case (Some c)
  assume "dl_accounted (pool, es)" "dl_gone addr (pool, es)"
  with Some show ?thesis
    by (auto simp: mux_client_def wp_bind wp_return option.map_comp comp_def option.map_ident intro: wp_mono [OF wp_dl_setup])
qed (simp add: mux_client_def wp_return dl_made_def)

lemma mtls_makes: "makes_session (map_option snd) (mtls_initSession E M conn)"
  unfolding makes_session_def mtls_initSession_def wp_bind wp_ask
  by (auto intro!: wp_mux_client accounted_emit gone_emit)

lemma mws_makes: "makes_session (map_option snd) (mws_initSession E M host conn)"
  unfolding makes_session_def mws_initSession_def wp_bind wp_if wp_emit wp_return wp_ask Let_def
  by (auto simp: wp_bind wp_if wp_emit wp_return dl_made_def intro!: wp_mux_client accounted_emit gone_emit split: option.split)

lemma quic_makes: "makes_session id (quic_initSession E Q ip port pc)"
  by (auto simp: makes_session_def quic_initSession_def intro: wp_dl_setup)

lemma kcp_makes: "makes_session id (kcp_initSession E C pc)"
  unfolding makes_session_def kcp_initSession_def Let_def wp_bind wp_ask case_prod_beta
  by (auto simp: wp_bind wp_if wp_ask wp_return dl_wrapped_def dl_made_def split: option.split
      intro!: wp_mono [OF wp_mux_client] accounted_emit gone_emit)

lemma wp_dl_init:
  assumes "makes_session (map_option snd) init" "dl_accounted h" "dl_gone addr h"
  shows "wp (dl_init init addr conn)
    (\<lambda>mo h'. dl_accounted h' \<and> (\<forall>m. mo = Some m \<longrightarrow> (\<exists>s. fst h' addr = Some s \<and> se_mux s = Some m))) h"
proof -
  obtain pool es where h: "h = (pool, es)" by (cases h)
  have "wp init (\<lambda>r. dl_made pool addr (map_option snd r)) (pool, es)"
    using assms by (simp add: makes_session_def h)
  then show ?thesis unfolding dl_init_def h wp_bind
    by (rule wp_mono)
      (auto simp: dl_made_def dl_simps intro!: accounted_emit accounted_put gone_emit split: option.splits)
qed

lemma wp_mux_Handshake:
  assumes "makes_session (map_option snd) init" "dl_accounted h"
  shows "wp (mux_Handshake E init addr conn) (\<lambda>_. dl_accounted) h"
proof -
  obtain pool es where h: "h = (pool, es)" by (cases h)
  show ?thesis
    unfolding mux_Handshake_def h
    by (auto simp: dl_get_def wp_simps Let_def bind_eq_None_conv bind_eq_Some_conv split: option.split
        intro!: accounted_emit wp_dl_stream wp_mono [OF wp_dl_init [OF assms(1)]] assms(2) [unfolded h])
      (auto simp: dl_gone_def split: option.splits)
qed

lemma wp_dl_timed:
  assumes "\<And>h. dl_accounted h \<Longrightarrow> wp m (\<lambda>_. dl_accounted) h" "dl_accounted h"
  shows "wp (dl_timed t conn m) (\<lambda>_. dl_accounted) h"
proof -
  have timed: "wp m (\<lambda>r. wp (emit (DlDeadline conn False)) (\<lambda>_. dl_accounted)) h" if "dl_accounted h" for h
    by (rule wp_mono [OF assms(1) [OF that]]) (auto simp: wp_emit intro!: accounted_emit)
  obtain pool es where "h = (pool, es)" by (cases h)
  with assms show ?thesis
    by (auto simp: dl_timed_def wp_bind wp_emit wp_deferring intro!: timed accounted_emit)
qed

lemma wp_stream_Dial:
  assumes "dl_accounted h"
  shows "wp (stream_Dial E (mux_IsClosed E) addr) (\<lambda>_. dl_accounted) h"
  unfolding stream_Dial_def wp_bind
  by (rule wp_mono [OF wp_dl_live [OF assms]])
    (auto simp: dl_put_def wp_simps Let_def dl_gone_def split: option.split intro!: accounted_emit accounted_put)

lemma wp_session_over:
  assumes "makes_session id (init pc)" "dl_accounted (pool, es)" "dl_gone addr (pool, es)"
  shows "wp (session_over init pc)
    (\<lambda>r h. fst h = pool \<and> dl_gone addr h \<and>
       (case r of Inl _ \<Rightarrow> dl_accounted h | Inr (c, m) \<Rightarrow> dl_made pool addr (Some m) h)) (pool, es)"
proof -
  have "wp (init pc) (\<lambda>r. dl_made pool addr r) (pool, es)"
    using assms by (auto simp: makes_session_def)
  then show ?thesis unfolding session_over_def wp_bind
    by (rule wp_mono) (auto simp: dl_made_def wp_simps intro!: accounted_emit gone_emit split: option.splits)
qed

text \<open>A dial through the table: \<open>fresh\<close> leaves the table alone.\<close>

definition dials_session :: "(dl_err + nat \<times> nat) dl_io \<Rightarrow> bool" where
  "dials_session fresh \<longleftrightarrow>
     (\<forall>pool es addr. dl_accounted (pool, es) \<longrightarrow> dl_gone addr (pool, es) \<longrightarrow>
        wp fresh (\<lambda>r h. fst h = pool \<and> dl_gone addr h \<and>
          (case r of Inl _ \<Rightarrow> dl_accounted h | Inr (c, m) \<Rightarrow> dl_made pool addr (Some m) h)) (pool, es))"

lemma wp_session_Dial:
  assumes "dials_session fresh" "wp lookup (\<lambda>so h'. dl_accounted h' \<and> fst h' addr = so) h"
  shows "wp (session_Dial E lookup fresh addr) (\<lambda>_. dl_accounted) h"
  unfolding session_Dial_def wp_bind
proof (rule wp_mono [OF assms(2)])
  fix so and h' :: dl_history
  assume so: "dl_accounted h' \<and> fst h' addr = so"
  obtain pool es where h': "h' = (pool, es)" by (cases h')
  have fresh: "wp fresh (\<lambda>r h. fst h = pool \<and> dl_gone addr h \<and>
      (case r of Inl _ \<Rightarrow> dl_accounted h | Inr (c, m) \<Rightarrow> dl_made pool addr (Some m) h)) (pool, es)"
    if "Option.bind so se_mux = None"
  proof -
    have "dl_gone addr (pool, es)" using that so by (auto simp: dl_gone_def h' bind_eq_None_conv split: option.split)
    with so assms(1) show ?thesis by (simp add: dials_session_def h')
  qed
  show "wp (case Option.bind so se_mux of
        None \<Rightarrow> do { r \<leftarrow> fresh; case r of Inl e \<Rightarrow> return (Inl e)
          | Inr (pc, m) \<Rightarrow> do { dl_put addr \<lparr>se_conn = pc, se_mux = Some m\<rparr>; dl_stream E addr m } }
      | Some m \<Rightarrow> dl_stream E addr m) (\<lambda>_. dl_accounted) h'"
  proof (cases "Option.bind so se_mux")
    case None
    show ?thesis unfolding None h' option.case wp_bind
      by (rule wp_mono [OF fresh [OF None]])
        (auto simp: dl_put_def wp_simps dl_made_def split: sum.splits intro!: wp_dl_stream)
  next
    case (Some m)
    with so show ?thesis by (auto simp: bind_eq_Some_conv intro!: wp_dl_stream)
  qed
qed

lemma wp_dl_get: "dl_accounted h \<Longrightarrow> wp (dl_get addr) (\<lambda>so h'. dl_accounted h' \<and> fst h' addr = so) h"
  by (cases h) (simp add: dl_get_def wp_act)

lemma quic_dials: "dials_session (do {
    r \<leftarrow> packet_Dial E;
    case r of
      Inl e \<Rightarrow> return (Inl e)
    | Inr c \<Rightarrow> do {
        pc \<leftarrow> (if cipherKey \<noteq> [] then dl_wrapped E WrapCipher c else return c);
        session_over (quic_initSession E Q ip port) pc
      }
  })"
  unfolding dials_session_def packet_Dial_def dl_wrapped_def wp_bind wp_ask
  by (auto simp: wp_bind wp_if wp_ask wp_emit wp_return split: option.split
      intro!: wp_session_over quic_makes accounted_emit gone_emit)

lemma icmp_dials: "dials_session (do {
    conn \<leftarrow> ask (dw_net E ''ip4:icmp'' []) (DlNet ''ip4:icmp'' []);
    case conn of
      None \<Rightarrow> return (Inl DlDial)
    | Some c \<Rightarrow> do {
        id \<leftarrow> icmp_id E port;
        pc \<leftarrow> dl_wrapped E (WrapIcmp id) c;
        session_over (quic_initSession E Q ip id) pc
      }
  })"
  unfolding dials_session_def icmp_id_def dl_wrapped_def wp_bind wp_ask
  by (auto simp: wp_bind wp_if wp_ask wp_return split: option.split
      intro!: wp_session_over quic_makes accounted_emit gone_emit)

lemma kcp_dials: "dials_session (do {
    r \<leftarrow> (if kc_TCP C
         then do {
           conn \<leftarrow> ask (dw_net E ''tcpraw'' addr) (DlNet ''tcpraw'' addr);
           return (case conn of None \<Rightarrow> Inl DlDial | Some c \<Rightarrow> Inr c)
         }
         else packet_Dial E);
    case r of Inl e \<Rightarrow> return (Inl e) | Inr pc \<Rightarrow> session_over (kcp_initSession E C) pc
  })"
  unfolding dials_session_def packet_Dial_def wp_bind wp_if wp_ask
  by (auto simp: wp_bind wp_if wp_ask wp_emit wp_return split: option.split
      intro!: wp_session_over kcp_makes accounted_emit gone_emit)

interpretation mtls: session_keeper "mtls_op E M" for E M
proof (unfold_locales)
  show "wp (mtls_op E M x) (\<lambda>_. dl_accounted) h" if "dl_accounted h" for x h
    using that by (cases x)
      (auto simp: mtls_Dial_def mtls_Handshake_def intro!: wp_stream_Dial wp_dl_timed wp_mux_Handshake mtls_makes)
qed

interpretation mws: session_keeper "mws_op E M" for E M
proof (unfold_locales)
  show "wp (mws_op E M x) (\<lambda>_. dl_accounted) h" if "dl_accounted h" for x h
    using that by (cases x) (auto simp: mws_Dial_def mws_Handshake_def intro!: wp_stream_Dial wp_mux_Handshake mws_makes)
qed

interpretation quic: session_keeper "quic_Dial E Q key" for E Q key
  by unfold_locales
    (auto simp: quic_Dial_def Let_def wp_return split: option.split intro!: wp_session_Dial [OF quic_dials] wp_dl_get)

interpretation icmp: session_keeper "icmp_Dial E Q" for E Q
  by unfold_locales
    (auto simp: icmp_Dial_def Let_def wp_return split: option.split intro!: wp_session_Dial [OF icmp_dials] wp_dl_get)

interpretation kcp: session_keeper "kcp_Dial E C" for E C
proof (unfold_locales)
  show "wp (kcp_Dial E C addr) (\<lambda>_. dl_accounted) h" if "dl_accounted h" for addr h
    unfolding kcp_Dial_def using that wp_session_Dial [OF kcp_dials wp_dl_live]
    by (cases "dw_resolve E addr") (simp_all only: option.case wp_return)
qed

text \<open>
  C29.  Whatever is dialled and shaken hands over, in any order and with any answers of the network: every session that a dialer of
  TLS, web sockets, QUIC, ICMP or KCP has set up is still in its table, has been found closed, or has been closed by it.
\<close>

theorem dialer_sessions_accounted:
  "dl_accounted (snd (run_state (dl_run (mtls_op E M) ops) (Map.empty, []))) \<and>
   dl_accounted (snd (run_state (dl_run (mws_op E W) ops) (Map.empty, []))) \<and>
   dl_accounted (snd (run_state (dl_run (quic_Dial E Q cipherKey) addrs) (Map.empty, []))) \<and>
   dl_accounted (snd (run_state (dl_run (icmp_Dial E Q') addrs) (Map.empty, []))) \<and>
   dl_accounted (snd (run_state (dl_run (kcp_Dial E C) addrs) (Map.empty, [])))"
  by (intro conjI mtls.run_accounted mws.run_accounted quic.run_accounted icmp.run_accounted kcp.run_accounted)

section \<open>Two clients at a time\<close>

text \<open>A client dials and shakes hands; with \<open>between\<close> another one dials the same address in between.\<close>

definition dl_connect ::
    "bool \<Rightarrow> (string \<Rightarrow> (dl_err + nat) dl_io) \<Rightarrow> (string \<Rightarrow> nat \<Rightarrow> (dl_err + nat) dl_io) \<Rightarrow> string \<Rightarrow>
     ((dl_err + nat) \<times> (dl_err + nat) \<times> (dl_err + nat)) dl_io"
where
  "dl_connect between dial handshake addr = do {
     r1 \<leftarrow> dial addr;
     r2 \<leftarrow> (if between then dial addr else return r1);
     r3 \<leftarrow> (case r1 of Inl e \<Rightarrow> return (Inl e) | Inr c \<Rightarrow> handshake addr c);
     return (r1, r2, r3)
   }"

text \<open>The network is dialled for an address without a session; for \<open>smux\<close>, for one that is not set up as well.\<close>

definition dl_dialled :: "dl_world \<Rightarrow> string \<Rightarrow> (dl_err + nat \<Rightarrow> dl_history \<Rightarrow> bool) \<Rightarrow> dl_history \<Rightarrow> bool" where
  "dl_dialled E addr Q =
     (\<lambda>(pool, es). let c = dw_net E ''tcp'' addr (pool, es); es' = es @ [DlNet ''tcp'' addr c] in
        case c of None \<Rightarrow> Q (Inl DlDial) (pool, es') | Some c \<Rightarrow> Q (Inr c) (pool(addr \<mapsto> \<lparr>se_conn = c, se_mux = None\<rparr>), es'))"

lemma wp_new_Dial:
  assumes "pool addr = None"
  shows "wp (stream_Dial E IsClosed addr) Q (pool, es) = dl_dialled E addr Q (pool, es)"
  using assms by (auto simp: stream_Dial_def dl_live_def dl_dialled_def dl_simps Let_def split: option.splits)

lemma wp_mux_Dial_again:
  assumes "pool addr = Some s" "se_mux s = None"
  shows "wp (stream_Dial E (mux_IsClosed E) addr) Q (pool, es) = dl_dialled E addr Q (pool(addr := None), es)"
  using assms
  by (auto simp: stream_Dial_def dl_live_def mux_IsClosed_def dl_dialled_def dl_simps Let_def split: option.splits)

lemma wp_ssh_Dial_again:
  assumes "pool addr = Some s" "se_mux s = None"
  shows "wp (stream_Dial E (ssh_IsClosed E) addr) Q (pool, es) = Q (Inr (se_conn s)) (pool, es)"
  using assms by (simp add: stream_Dial_def dl_live_def ssh_IsClosed_def dl_simps)

text \<open>Whether a handshake recognizes the connection.\<close>

lemma wp_any: "wp m (\<lambda>_ _. True) h"
  by (simp add: wp_def case_prod_beta)

lemma wp_then: "(\<And>a h'. wp (f a) Q h') \<Longrightarrow> wp (State_Monad.bind m f) Q h"
  by (simp add: wp_def case_prod_beta)

lemma wp_mux_unrecognized:
  assumes "pool addr = Some s"
  shows "wp (mux_Handshake E init addr c)
    (\<lambda>r h. se_conn s \<noteq> c \<longrightarrow> r = Inl DlUnrecognized \<and> snd h = es @ [DlClose c]) (pool, es)"
proof (cases "se_conn s = c")
  case True
  then show ?thesis by (simp only: simp_thms wp_any)
qed (simp add: assms mux_Handshake_def dl_foreign_def dl_simps)

lemma wp_mux_recognized:
  assumes "pool addr = Some s" "se_conn s = c"
  shows "wp (mux_Handshake E init addr c) (\<lambda>r _. r \<noteq> Inl DlUnrecognized) (pool, es)"
proof -
  have stream: "wp (dl_stream E addr m) (\<lambda>r _. r \<noteq> Inl DlUnrecognized) h" for m h
    by (cases h) (auto simp: dl_stream_def dl_simps Let_def split: option.split)
  have "wp (do { mo \<leftarrow> k; case mo of None \<Rightarrow> return (Inl DlInit) | Some m \<Rightarrow> dl_stream E addr m })
      (\<lambda>r _. r \<noteq> Inl DlUnrecognized) h" for k h
    by (rule wp_then) (auto simp: wp_return stream split: option.split)
  then show ?thesis
    using assms by (simp add: mux_Handshake_def dl_foreign_def wp_bind dl_get_def wp_act)
qed

lemma wp_ssh_recognized:
  assumes "pool addr = Some s" "se_conn s = c"
  shows "wp (ssh_client E M addr c) (\<lambda>r _. r \<noteq> Inl DlUnrecognized) (pool, es)"
proof -
  have live: "wp (do { closed \<leftarrow> ask (dw_closed E m) (DlClosed m);
      if closed then do { dl_delete addr; return (Inl DlDead) } else return (Inr m) }) (\<lambda>r _. r \<noteq> Inl DlUnrecognized) h" for m h
    by (cases h) (simp add: dl_simps Let_def)
  have "wp (do { mo \<leftarrow> k; case mo of None \<Rightarrow> return (Inl DlInit)
      | Some m \<Rightarrow> do { closed \<leftarrow> ask (dw_closed E m) (DlClosed m);
          if closed then do { dl_delete addr; return (Inl DlDead) } else return (Inr m) } })
      (\<lambda>r _. r \<noteq> Inl DlUnrecognized) h" for k h
    by (rule wp_then) (auto simp: wp_return live split: option.split)
  then show ?thesis
    using assms by (simp add: ssh_client_def dl_foreign_def wp_bind dl_get_def wp_act)
qed

text \<open>The deadline is the first and the last that happens.\<close>

lemma wp_timed:
  assumes "wp m (\<lambda>r h. Q r (fst h, snd h @ [DlDeadline conn False])) (pool, es @ [DlDeadline conn True])" "wp m Q (pool, es)"
  shows "wp (dl_timed t conn m) Q (pool, es)"
  using assms by (auto simp: dl_timed_def wp_bind wp_emit wp_deferring elim!: wp_mono)

text \<open>
  A connection that is being set up for TLS is forgotten by the next dial: alone, a client that dials an address is recognized by the
  handshake; when another one dials before it, both have dialled the network, and the first is refused and its connection
  closed, although nothing has failed.  With SSH the second client gets the connection of the first, which is served.
\<close>

theorem dialer_forgets_pending:
  assumes "pool addr = None"
  shows "wp (dl_connect False (mtls_Dial E) (mtls_Handshake E M) addr)
      (\<lambda>(r1, r2, r3) h. r3 \<noteq> Inl DlUnrecognized) (pool, es) \<and>
    wp (dl_connect True (mtls_Dial E) (mtls_Handshake E M) addr)
      (\<lambda>(r1, r2, r3) h. \<forall>c1 c2. r1 = Inr c1 \<longrightarrow> r2 = Inr c2 \<longrightarrow> c1 \<noteq> c2 \<longrightarrow> r3 = Inl DlUnrecognized \<and>
         (\<exists>rest. snd h = es @ [DlNet ''tcp'' addr (Some c1), DlNet ''tcp'' addr (Some c2)] @ rest \<and> DlClose c1 \<in> set rest))
      (pool, es) \<and>
    wp (dl_connect True (sshd_Dial E) (sshd_Handshake E S) addr)
      (\<lambda>(r1, r2, r3) h. r2 = r1 \<and> r3 \<noteq> Inl DlUnrecognized \<or> r1 = Inl DlDial) (pool, es)"
proof (intro conjI)
  show "wp (dl_connect False (mtls_Dial E) (mtls_Handshake E M) addr)
      (\<lambda>(r1, r2, r3) h. r3 \<noteq> Inl DlUnrecognized) (pool, es)"
    unfolding dl_connect_def mtls_Dial_def mtls_Handshake_def wp_bind wp_new_Dial [where addr = addr and pool = pool, OF assms] dl_dialled_def
    by (auto simp: wp_return Let_def split: option.split intro!: wp_timed wp_mux_recognized)
  show "wp (dl_connect True (sshd_Dial E) (sshd_Handshake E S) addr)
      (\<lambda>(r1, r2, r3) h. r2 = r1 \<and> r3 \<noteq> Inl DlUnrecognized \<or> r1 = Inl DlDial) (pool, es)"
    unfolding dl_connect_def sshd_Dial_def sshd_Handshake_def wp_bind wp_new_Dial [where addr = addr and pool = pool, OF assms] dl_dialled_def
    by (auto simp: wp_return wp_bind wp_any Let_def wp_ssh_Dial_again split: option.split intro!: wp_timed wp_ssh_recognized)
  show "wp (dl_connect True (mtls_Dial E) (mtls_Handshake E M) addr)
      (\<lambda>(r1, r2, r3) h. \<forall>c1 c2. r1 = Inr c1 \<longrightarrow> r2 = Inr c2 \<longrightarrow> c1 \<noteq> c2 \<longrightarrow> r3 = Inl DlUnrecognized \<and>
         (\<exists>rest. snd h = es @ [DlNet ''tcp'' addr (Some c1), DlNet ''tcp'' addr (Some c2)] @ rest \<and> DlClose c1 \<in> set rest))
      (pool, es)"
    unfolding dl_connect_def mtls_Dial_def mtls_Handshake_def wp_bind wp_new_Dial [where addr = addr and pool = pool, OF assms] dl_dialled_def
    by (auto simp: wp_return wp_bind wp_any Let_def wp_mux_Dial_again dl_dialled_def split: option.split
        intro!: wp_timed wp_mono [OF wp_mux_unrecognized])
qed

text \<open>
  A session of QUIC is not asked whether it is closed: the dial after its end fails, and only the one after that dials again.
\<close>

lemma quic_dead_session_fails_once:
  assumes "dw_resolve E addr = Some (ip, port)" "dl_with_port addr = addr" "pool addr = Some s" "se_mux s = Some m"
    and "dw_open E m (pool, es) = None"
  shows "wp (quic_Dial E Q cipherKey addr)
    (\<lambda>r h. r = Inl DlOpening \<and> fst h addr = None \<and> snd h = es @ [DlOpen m None, DlCloseMux m]) (pool, es)"
  using assms by (simp add: quic_Dial_def session_Dial_def dl_stream_def dl_simps Let_def)

text \<open>With SSH a stale connection makes the table forget a session that is alive, without closing it.\<close>

lemma ssh_stale_forgets_session:
  assumes "pool addr = Some \<lparr>se_conn = c, se_mux = Some m\<rparr>" "stale \<noteq> c"
  shows "wp (ssh_client E S addr stale)
    (\<lambda>r h. r = Inl DlUnrecognized \<and> fst h addr = None \<and> snd h = es @ [DlClose stale]) (pool, es)"
  using assms by (simp add: ssh_client_def dl_foreign_def dl_simps)

section \<open>An example\<close>

definition demo_dl_world :: dl_world where
  "demo_dl_world =
     \<lparr>dw_net = \<lambda>_ _ h. Some (length (snd h)), dw_wrap = \<lambda>_ c _. Some (c + 100), dw_setup = \<lambda>_ c _. Some (c + 1000),
      dw_closed = \<lambda>_ _. False, dw_open = \<lambda>m h. Some (length (snd h)), dw_resolve = \<lambda>_. None, dw_packets = \<lambda>_. True,
      dw_name = \<lambda>_ c _. c, dw_random = \<lambda>_. 0,
      dw_smux = \<lparr>sx_Version = 1, sx_KeepAliveDisabled = False, sx_KeepAliveInterval = 10, sx_KeepAliveTimeout = 30,
        sx_MaxFrameSize = 32768, sx_MaxReceiveBuffer = 4194304, sx_MaxStreamBuffer = 65536\<rparr>,
      dw_pbkdf2 = \<lambda>k _. k\<rparr>"

definition demo_mux :: mux_metadata where
  "demo_mux = \<lparr>mm_handshakeTimeout = 0, mm_muxKeepAliveDisabled = False, mm_muxKeepAliveInterval = 0,
     mm_muxKeepAliveTimeout = 0, mm_muxMaxFrameSize = 0, mm_muxMaxReceiveBuffer = 0, mm_muxMaxStreamBuffer = 0\<rparr>"

definition demo_ssh :: ssh_metadata where
  "demo_ssh = \<lparr>sm_handshakeTimeout = 0, sm_signer = False, sm_auth = None\<rparr>"

lemma demo_dl_connect:
  "io_result (dl_connect True (mtls_Dial demo_dl_world) (mtls_Handshake demo_dl_world demo_mux) ''a:1'') Map.empty =
     (Inr 0, Inr 1, Inl DlUnrecognized)"
  by code_simp

theorem dialer_forgets_pending_witness:
  "DlClose 0 \<in> set (io_trace (dl_connect True (mtls_Dial demo_dl_world) (mtls_Handshake demo_dl_world demo_mux) ''a:1'') Map.empty)"
  using dialer_forgets_pending [of Map.empty "''a:1''" demo_dl_world demo_mux "[]" demo_ssh] demo_dl_connect
  by (auto simp: wp_def io_trace_def io_result_def case_prod_beta)

end
