(* ===== verification/Listeners.thy ===== *)
theory Listeners
  imports GoNet
begin

text \<open>
  The listeners with a queue of connections (\<open>listener/mtls\<close>, \<open>mws\<close>, \<open>kcp\<close>, \<open>quic\<close>, \<open>icmp\<close>, \<open>ws\<close>, \<open>grpc\<close>, \<open>http2/h2\<close>, \<open>ssh\<close>,
  \<open>sshd\<close>): goroutines, one for each connection, put what they accept into a channel with bounds, from which
  \<open>Accept\<close> takes it.  An error of the listener, which may be nil, goes through a second channel, which is then closed.  A step is what one goroutine
  does between two operations on the channels; its label says which, and what a choice between several is.
\<close>

section \<open>Setting up\<close>

text \<open>What is put over the listener of the network, from the inside to the outside.\<close>

datatype ln_layer = LnMetrics | LnProxyProtocol | LnAdmission | LnTraffic | LnConnLimit | LnTls

definition is_IPv4 :: "string \<Rightarrow> bool" where
  "is_IPv4 address \<longleftrightarrow> (case address of [] \<Rightarrow> False | c # _ \<Rightarrow> c \<noteq> CHR '':'' \<and> c \<noteq> CHR ''['')"

definition ln_network :: "string \<Rightarrow> string" where
  "ln_network address = (if is_IPv4 address then ''tcp4'' else ''tcp'')"

definition ln_wrapped :: "ln_layer list" where
  "ln_wrapped = [LnMetrics, LnProxyProtocol, LnAdmission, LnTraffic, LnConnLimit]"

definition ln_backlog :: "int \<Rightarrow> nat" where
  "ln_backlog n = nat (if n \<le> 0 then 128 else n)"

text \<open>A listener that has been set up: its layers, the address it tells, and the room of its queue.\<close>

record ln_listener =
  li_layers :: "ln_layer list"
  li_addr :: "string option"
  li_backlog :: nat

text \<open>\<open>listen\<close> is \<open>net.Listen\<close>, which answers with the bound address; \<open>tls\<close> is set by the constructor.\<close>

definition ln_Init :: "(string \<Rightarrow> string \<Rightarrow> string option) \<Rightarrow> ln_layer list \<Rightarrow> bool \<Rightarrow> string \<Rightarrow> int \<Rightarrow> ln_listener option" where
  "ln_Init listen outer told address backlog =
     (case listen (ln_network address) address of
        None \<Rightarrow> None
      | Some bound \<Rightarrow>
          Some \<lparr>li_layers = ln_wrapped @ outer, li_addr = (if told then Some bound else None), li_backlog = ln_backlog backlog\<rparr>)"

definition mtls_Init where "mtls_Init listen = ln_Init listen [LnTls] True"
definition mws_Init where "mws_Init listen tls = ln_Init listen (if tls then [LnTls] else []) True"
definition h2_Init where "h2_Init listen h2c = ln_Init listen (if h2c then [] else [LnTls]) True"
definition ssh_Init where "ssh_Init listen = ln_Init listen [] True"
definition sshd_Init where "sshd_Init listen = ln_Init listen [] True"

text \<open>In gRPC the server has the credentials for TLS, unless it is insecure.\<close>

definition grpc_Init where "grpc_Init listen insecure = ln_Init listen (if insecure then [] else [LnTls]) True"

text \<open>The listener of web sockets looks neither at \<open>tls\<close> nor does it keep its address.\<close>

definition ws_Init :: "(string \<Rightarrow> string \<Rightarrow> string option) \<Rightarrow> bool \<Rightarrow> string \<Rightarrow> int \<Rightarrow> ln_listener option" where
  "ws_Init listen tls = ln_Init listen [] False"

section \<open>The queue\<close>

text \<open>A stream is that of a connection, by number.\<close>

type_synonym ml_stream = "nat \<times> nat"

record ml_state =
  ml_queue :: "ml_stream list"
  ml_cap :: nat
  ml_err :: "string option list"
  ml_errClosed :: bool
  ml_listening :: bool
  ml_sessions :: "nat list"

definition ml_new :: "int \<Rightarrow> ml_state" where
  "ml_new backlog =
     \<lparr>ml_queue = [], ml_cap = ln_backlog backlog, ml_err = [], ml_errClosed = False, ml_listening = True, ml_sessions = []\<rparr>"

datatype ml_event =
    MlQueued ml_stream
  | MlDiscarded ml_stream
  | MlRejected ml_stream
  | MlAccepted ml_stream
  | MlAcceptError string
  | MlAcceptNil
  | MlAcceptClosed
  | MlSessionClosed nat
  | MlConnClosed nat

text \<open>How the set-up of a connection ends.\<close>

datatype ml_outcome = MlServed | MlNoSession | MlNoUpgrade

text \<open>
  A connection; the end of the listener, with the error it tells; a stream of a connection, with whether it has died and the choice
  when there is room for it as well; a channel or a request of SSH, with its type and whether it can be accepted; the
  end of a connection; an \<open>Accept\<close>, with the choice when there are both a connection and an error; a \<open>Close\<close>, with
  the error of the server's.
\<close>

datatype ml_label =
    MlConn nat ml_outcome
  | MlFail "string option"
  | MlStream nat nat bool bool
  | MlChannel nat nat string bool
  | MlRequest nat nat string
  | MlEnd nat
  | MlAccept bool
  | MlClose "string option"

text \<open>A channel operation does not block: without room the stream is closed.\<close>

definition ml_offer :: "bool \<Rightarrow> bool \<Rightarrow> ml_stream \<Rightarrow> ml_state \<Rightarrow> ml_event list \<times> ml_state" where
  "ml_offer dead pick c l =
     (if length (ml_queue l) < ml_cap l \<and> (\<not> dead \<or> pick) then ([MlQueued c], l\<lparr>ml_queue := ml_queue l @ [c]\<rparr>)
      else ([MlDiscarded c], l))"

definition ml_offer_now :: "ml_stream \<Rightarrow> ml_state \<Rightarrow> ml_event list \<times> ml_state" where
  "ml_offer_now c l =
     (if length (ml_queue l) < ml_cap l then ([MlQueued c], l\<lparr>ml_queue := ml_queue l @ [c]\<rparr>) else ([MlDiscarded c], l))"

text \<open>\<open>Accept\<close>: \<open>None\<close> while it blocks.  A nil error makes it return neither a connection nor an error.\<close>

definition ml_from_queue :: "ml_state \<Rightarrow> (ml_event \<times> ml_state) option" where
  "ml_from_queue l = (case ml_queue l of [] \<Rightarrow> None | c # q \<Rightarrow> Some (MlAccepted c, l\<lparr>ml_queue := q\<rparr>))"

definition ml_from_err :: "ml_state \<Rightarrow> (ml_event \<times> ml_state) option" where
  "ml_from_err l =
     (case ml_err l of
        e # es \<Rightarrow> Some (case e of None \<Rightarrow> MlAcceptNil | Some e \<Rightarrow> MlAcceptError e, l\<lparr>ml_err := es\<rparr>)
      | [] \<Rightarrow> if ml_errClosed l then Some (MlAcceptClosed, l) else None)"

definition ml_Accept :: "bool \<Rightarrow> ml_state \<Rightarrow> (ml_event \<times> ml_state) option" where
  "ml_Accept pick l =
     (case (ml_from_queue l, ml_from_err l) of
        (None, e) \<Rightarrow> e
      | (Some c, None) \<Rightarrow> Some c
      | (Some c, Some e) \<Rightarrow> Some (if pick then e else c))"

definition ml_accept_step :: "bool \<Rightarrow> ml_state \<Rightarrow> (ml_event list \<times> ml_state) option" where
  "ml_accept_step pick l = map_option (\<lambda>(e, l). ([e], l)) (ml_Accept pick l)"

text \<open>The end of the loop that accepts connections.\<close>

definition ml_failed :: "string option \<Rightarrow> ml_state \<Rightarrow> (ml_event list \<times> ml_state) option" where
  "ml_failed e l =
     (if ml_listening l
      then Some ([], l\<lparr>ml_err := ml_err l @ (case e of None \<Rightarrow> [] | Some e \<Rightarrow> [Some e]), ml_errClosed := True, ml_listening := False\<rparr>)
      else None)"

definition ml_open :: "nat \<Rightarrow> ml_state \<Rightarrow> (ml_event list \<times> ml_state) option" where
  "ml_open k l = Some ([], l\<lparr>ml_sessions := k # ml_sessions l\<rparr>)"

definition ml_end :: "ml_event list \<Rightarrow> nat \<Rightarrow> ml_state \<Rightarrow> (ml_event list \<times> ml_state) option" where
  "ml_end es k l =
     (if k \<in> set (ml_sessions l) then Some (es, l\<lparr>ml_sessions := removeAll k (ml_sessions l)\<rparr>) else None)"

definition ml_in_session :: "nat \<Rightarrow> (ml_state \<Rightarrow> ml_event list \<times> ml_state) \<Rightarrow> ml_state \<Rightarrow> (ml_event list \<times> ml_state) option" where
  "ml_in_session k f l = (if k \<in> set (ml_sessions l) then Some (f l) else None)"

section \<open>The listeners\<close>

text \<open>Streams of \<open>smux\<close>, over TLS, web sockets or KCP.\<close>

fun mtls_step :: "ml_label \<Rightarrow> ml_state \<Rightarrow> (ml_event list \<times> ml_state) option" where
  "mtls_step (MlConn k out) l =
     (if \<not> ml_listening l then None else if out = MlServed then ml_open k l else Some ([MlConnClosed k], l))"
| "mtls_step (MlFail e) l = (if e = None then None else ml_failed e l)"
| "mtls_step (MlStream k i dead pick) l = ml_in_session k (ml_offer dead pick (k, i)) l"
| "mtls_step (MlEnd k) l = ml_end [MlSessionClosed k, MlConnClosed k] k l"
| "mtls_step (MlAccept pick) l = ml_accept_step pick l"
| "mtls_step _ l = None"

fun mws_step :: "ml_label \<Rightarrow> ml_state \<Rightarrow> (ml_event list \<times> ml_state) option" where
  "mws_step (MlConn k out) l =
     (if \<not> ml_listening l then None
      else case out of
        MlNoUpgrade \<Rightarrow> Some ([], l)
      | MlNoSession \<Rightarrow> Some ([MlConnClosed k], l)
      | MlServed \<Rightarrow> ml_open k l)"
| "mws_step (MlFail e) l = ml_failed e l"
| "mws_step (MlStream k i dead pick) l = ml_in_session k (ml_offer dead pick (k, i)) l"
| "mws_step (MlEnd k) l = ml_end [MlSessionClosed k, MlConnClosed k] k l"
| "mws_step (MlAccept pick) l = ml_accept_step pick l"
| "mws_step _ l = None"

fun kcp_step :: "ml_label \<Rightarrow> ml_state \<Rightarrow> (ml_event list \<times> ml_state) option" where
  "kcp_step (MlConn k out) l =
     (if \<not> ml_listening l then None else if out = MlServed then ml_open k l else Some ([MlConnClosed k], l))"
| "kcp_step (MlFail e) l = (if e = None then None else ml_failed e l)"
| "kcp_step (MlStream k i dead pick) l = ml_in_session k (ml_offer dead pick (k, i)) l"
| "kcp_step (MlEnd k) l = ml_end [MlSessionClosed k, MlConnClosed k] k l"
| "kcp_step (MlAccept pick) l = ml_accept_step pick l"
| "kcp_step _ l = None"

text \<open>Streams of QUIC, over UDP or ICMP: the connection is the session.\<close>

fun quic_step :: "ml_label \<Rightarrow> ml_state \<Rightarrow> (ml_event list \<times> ml_state) option" where
  "quic_step (MlConn k out) l = (if \<not> ml_listening l then None else ml_open k l)"
| "quic_step (MlFail e) l = (if e = None then None else ml_failed e l)"
| "quic_step (MlStream k i dead pick) l = ml_in_session k (ml_offer dead pick (k, i)) l"
| "quic_step (MlEnd k) l = ml_end [MlSessionClosed k] k l"
| "quic_step (MlAccept pick) l = ml_accept_step pick l"
| "quic_step _ l = None"

definition icmp_step :: "ml_label \<Rightarrow> ml_state \<Rightarrow> (ml_event list \<times> ml_state) option" where
  "icmp_step = quic_step"

text \<open>Web sockets and gRPC: a connection is a stream.\<close>

fun ws_step :: "ml_label \<Rightarrow> ml_state \<Rightarrow> (ml_event list \<times> ml_state) option" where
  "ws_step (MlConn k out) l =
     (if \<not> ml_listening l then None
      else if out = MlServed then Some (ml_offer_now (k, 0) l) else Some ([], l))"
| "ws_step (MlFail e) l = ml_failed e l"
| "ws_step (MlAccept pick) l = ml_accept_step pick l"
| "ws_step _ l = None"

fun grpc_step :: "ml_label \<Rightarrow> ml_state \<Rightarrow> (ml_event list \<times> ml_state) option" where
  "grpc_step (MlConn k out) l = (if \<not> ml_listening l then None else Some (ml_offer_now (k, 0) l))"
| "grpc_step (MlFail e) l = ml_failed e l"
| "grpc_step (MlAccept pick) l = ml_accept_step pick l"
| "grpc_step _ l = None"

text \<open>HTTP/2: an error of the server is only logged; \<open>Close\<close> tells it, the first time and when nobody has told it before.\<close>

definition h2_served :: "ml_state \<Rightarrow> ml_state" where
  "h2_served l = l\<lparr>ml_listening := False\<rparr>"

definition h2_Close :: "string option \<Rightarrow> ml_state \<Rightarrow> ml_state" where
  "h2_Close e l =
     (case ml_err l of
        _ # es \<Rightarrow> l\<lparr>ml_err := es\<rparr>
      | [] \<Rightarrow> if ml_errClosed l then l else l\<lparr>ml_err := [e], ml_errClosed := True, ml_listening := False\<rparr>)"

text \<open>
  What becomes of a request: whether it is passed to a server on port 8899 of this host, the statuses that are written, and whether it
  is a stream.
\<close>

definition h2_upgrade :: "string \<Rightarrow> string \<Rightarrow> string \<Rightarrow> bool \<times> int list \<times> bool" where
  "h2_upgrade path method uri =
     (path = ''/proxy'' \<and> method \<noteq> ''CONNECT'',
      if path = [] \<and> method \<noteq> ''CONNECT'' then ([405], False)
      else if path \<noteq> [] \<and> uri \<noteq> path then ([400], False)
      else ([200], True))"

fun h2_step :: "ml_label \<Rightarrow> ml_state \<Rightarrow> (ml_event list \<times> ml_state) option" where
  "h2_step (MlConn k out) l =
     (if \<not> ml_listening l then None
      else if out = MlServed then Some (ml_offer_now (k, 0) l) else Some ([], l))"
| "h2_step (MlFail e) l = (if ml_listening l then Some ([], h2_served l) else None)"
| "h2_step (MlAccept pick) l = ml_accept_step pick l"
| "h2_step (MlClose e) l = Some ([], h2_Close e l)"
| "h2_step _ l = None"

text \<open>Channels of SSH; of the tunnel's type only.\<close>

fun ssh_step :: "ml_label \<Rightarrow> ml_state \<Rightarrow> (ml_event list \<times> ml_state) option" where
  "ssh_step (MlConn k out) l =
     (if \<not> ml_listening l then None else if out = MlServed then ml_open k l else Some ([MlConnClosed k], l))"
| "ssh_step (MlFail e) l = (if e = None then None else ml_failed e l)"
| "ssh_step (MlChannel k i t ok) l =
     ml_in_session k (if t \<noteq> ''gost-tunnel'' then Pair [MlRejected (k, i)]
       else if ok then ml_offer_now (k, i) else Pair []) l"
| "ssh_step (MlEnd k) l = ml_end [MlSessionClosed k] k l"
| "ssh_step (MlAccept pick) l = ml_accept_step pick l"
| "ssh_step _ l = None"

text \<open>Forwarding by SSH: channels for connections, and requests for listeners.\<close>

fun sshd_step :: "ml_label \<Rightarrow> ml_state \<Rightarrow> (ml_event list \<times> ml_state) option" where
  "sshd_step (MlConn k out) l =
     (if \<not> ml_listening l then None else if out = MlServed then ml_open k l else Some ([MlConnClosed k], l))"
| "sshd_step (MlFail e) l = (if e = None then None else ml_failed e l)"
| "sshd_step (MlChannel k i t ok) l =
     ml_in_session k (if t \<noteq> ''direct-tcpip'' then Pair [MlRejected (k, i)]
       else if ok then ml_offer_now (k, i) else Pair []) l"
| "sshd_step (MlRequest k i t) l =
     ml_in_session k (if t \<noteq> ''tcpip-forward'' then Pair [MlRejected (k, i)] else ml_offer_now (k, i)) l"
| "sshd_step (MlEnd k) l = ml_end [MlSessionClosed k] k l"
| "sshd_step (MlAccept pick) l = ml_accept_step pick l"
| "sshd_step _ l = None"

section \<open>First come, first served\<close>

fun ml_run ::
    "('l \<Rightarrow> ml_state \<Rightarrow> (ml_event list \<times> ml_state) option) \<Rightarrow> 'l list \<Rightarrow> ml_state \<Rightarrow> (ml_event list \<times> ml_state) option"
where
  "ml_run step [] l = Some ([], l)"
| "ml_run step (x # xs) l =
     (case step x l of
        None \<Rightarrow> None
      | Some (es, l) \<Rightarrow> map_option (\<lambda>(es', l). (es @ es', l)) (ml_run step xs l))"

definition ml_queued :: "ml_event list \<Rightarrow> ml_stream list" where
  "ml_queued es = concat (map (\<lambda>e. case e of MlQueued c \<Rightarrow> [c] | _ \<Rightarrow> []) es)"

definition ml_accepted :: "ml_event list \<Rightarrow> ml_stream list" where
  "ml_accepted es = concat (map (\<lambda>e. case e of MlAccepted c \<Rightarrow> [c] | _ \<Rightarrow> []) es)"

definition ml_told :: "ml_event list \<Rightarrow> string list" where
  "ml_told es = concat (map (\<lambda>e. case e of MlAcceptError c \<Rightarrow> [c] | _ \<Rightarrow> []) es)"

lemmas ml_events = ml_queued_def ml_accepted_def ml_told_def

text \<open>What a step may do to the queue.\<close>

definition ml_moves :: "ml_event list \<Rightarrow> ml_state \<Rightarrow> ml_state \<Rightarrow> bool" where
  "ml_moves es l l' \<longleftrightarrow>
     ml_cap l' = ml_cap l \<and>
     (length (ml_queue l) \<le> ml_cap l \<longrightarrow> length (ml_queue l') \<le> ml_cap l) \<and>
     ml_accepted es @ ml_queue l' = ml_queue l @ ml_queued es \<and>
     (ml_errClosed l \<longrightarrow> ml_errClosed l')"

lemma ml_moves_trans: "ml_moves es l l' \<Longrightarrow> ml_moves es' l' l'' \<Longrightarrow> ml_moves (es @ es') l l''"
  by (auto simp: ml_moves_def ml_events)

lemma ml_offer_moves: "ml_offer dead pick c l = (es, l') \<Longrightarrow> ml_moves es l l'"
  by (auto simp: ml_offer_def ml_moves_def ml_events split: if_splits)

lemma ml_offer_now_moves: "ml_offer_now c l = (es, l') \<Longrightarrow> ml_moves es l l'"
  by (auto simp: ml_offer_now_def ml_moves_def ml_events split: if_splits)

lemma ml_accept_moves: "ml_accept_step pick l = Some (es, l') \<Longrightarrow> ml_moves es l l'"
  by (auto simp: ml_accept_step_def ml_Accept_def ml_from_queue_def ml_from_err_def ml_moves_def ml_events
      split: option.splits list.splits if_splits)

lemma ml_failed_moves: "ml_failed e l = Some (es, l') \<Longrightarrow> ml_moves es l l' \<and> ml_errClosed l'"
  by (auto simp: ml_failed_def ml_moves_def ml_events split: if_splits)

text \<open>Events that do not concern the queue, and a state with the same one.\<close>

definition ml_aside :: "ml_event list \<Rightarrow> bool" where
  "ml_aside es \<longleftrightarrow> ml_queued es = [] \<and> ml_accepted es = []"

lemma ml_open_moves: "ml_open k l = Some (es, l') \<Longrightarrow> ml_moves es l l'"
  by (auto simp: ml_open_def ml_moves_def ml_events)

lemma ml_end_moves: "ml_end es k l = Some (es', l') \<Longrightarrow> ml_aside es \<Longrightarrow> ml_moves es' l l'"
  by (auto simp: ml_end_def ml_moves_def ml_aside_def split: if_splits)

lemma ml_in_session_moves:
  "ml_in_session k f l = Some (es, l') \<Longrightarrow> (\<And>es l'. f l = (es, l') \<Longrightarrow> ml_moves es l l') \<Longrightarrow> ml_moves es l l'"
  by (auto simp: ml_in_session_def split: if_splits)

lemma ml_stays: "ml_aside es \<Longrightarrow> ml_moves es l l"
  by (simp add: ml_moves_def ml_aside_def)

lemma ml_aside_events [simp]:
  "ml_aside []" "ml_aside [MlSessionClosed k]" "ml_aside [MlConnClosed k]" "ml_aside [MlSessionClosed k, MlConnClosed k]"
  "ml_aside [MlRejected c]"
  by (simp_all add: ml_aside_def ml_events)

lemma h2_moves: "ml_moves [] l (h2_served l)" "ml_moves [] l (h2_Close e l)"
  by (auto simp: h2_served_def h2_Close_def ml_moves_def ml_events split: list.split)

lemmas ml_step_moves = h2_moves ml_accept_moves ml_open_moves ml_stays ml_failed_moves [THEN conjunct1]
  ml_offer_moves ml_offer_now_moves

locale accept_queue =
  fixes step :: "'l \<Rightarrow> ml_state \<Rightarrow> (ml_event list \<times> ml_state) option"
  assumes step_moves: "step x l = Some (es, l') \<Longrightarrow> ml_moves es l l'"
begin

lemma run_moves: "ml_run step xs l = Some (es, l') \<Longrightarrow> ml_moves es l l'"
proof (induction xs arbitrary: l es)
  case (Cons x xs)
  then obtain es1 l1 es2 where "step x l = Some (es1, l1)" "ml_run step xs l1 = Some (es2, l')" "es = es1 @ es2"
    by (auto split: option.splits)
  with Cons.IH [of l1 es2] step_moves [of x l es1 l1] show ?case by (auto intro: ml_moves_trans)
qed (simp add: ml_stays)

lemma run_fifo:
  assumes "ml_run step xs (ml_new backlog) = Some (es, l)"
  shows "ml_accepted es @ ml_queue l = ml_queued es \<and> length (ml_queue l) \<le> ln_backlog backlog"
  using run_moves [OF assms] by (simp add: ml_moves_def ml_new_def)

end

interpretation mtls: accept_queue mtls_step
  by (unfold_locales, rename_tac x l es l', case_tac x)
    (auto split: if_splits intro: ml_step_moves ml_end_moves elim!: ml_in_session_moves)

interpretation mws: accept_queue mws_step
  by (unfold_locales, rename_tac x l es l', case_tac x)
    (auto split: if_splits ml_outcome.splits intro: ml_step_moves ml_end_moves elim!: ml_in_session_moves)

interpretation kcp: accept_queue kcp_step
  by (unfold_locales, rename_tac x l es l', case_tac x)
    (auto split: if_splits intro: ml_step_moves ml_end_moves elim!: ml_in_session_moves)

interpretation quic: accept_queue quic_step
  by (unfold_locales, rename_tac x l es l', case_tac x)
    (auto split: if_splits intro: ml_step_moves ml_end_moves elim!: ml_in_session_moves)

interpretation icmp: accept_queue icmp_step
  unfolding icmp_step_def by unfold_locales (rule quic.step_moves)

interpretation ws: accept_queue ws_step
  by (unfold_locales, rename_tac x l es l', case_tac x) (auto split: if_splits intro: ml_step_moves)

interpretation grpc: accept_queue grpc_step
  by (unfold_locales, rename_tac x l es l', case_tac x) (auto split: if_splits intro: ml_step_moves)

interpretation h2: accept_queue h2_step
  by (unfold_locales, rename_tac x l es l', case_tac x)
    (auto split: if_splits intro: ml_step_moves)

interpretation ssh: accept_queue ssh_step
  by (unfold_locales, rename_tac x l es l', case_tac x)
    (auto split: if_splits intro: ml_step_moves ml_end_moves elim!: ml_in_session_moves)

interpretation sshd: accept_queue sshd_step
  by (unfold_locales, rename_tac x l es l', case_tac x)
    (auto split: if_splits intro: ml_step_moves ml_end_moves elim!: ml_in_session_moves)

lemmas queue_axioms =
  mtls.accept_queue_axioms mws.accept_queue_axioms kcp.accept_queue_axioms quic.accept_queue_axioms icmp.accept_queue_axioms
  ws.accept_queue_axioms grpc.accept_queue_axioms h2.accept_queue_axioms ssh.accept_queue_axioms sshd.accept_queue_axioms

text \<open>
  C30.  First come, first served, in every listener: whatever the goroutines do, and in whatever order, \<open>Accept\<close> has returned the streams
  in the order in which they were put into the queue, each once, and those that are left are the rest; there are never more
  of them than the backlog.
\<close>

theorem listeners_fifo:
  assumes "step \<in> {mtls_step, mws_step, kcp_step, quic_step, icmp_step, ws_step, grpc_step, h2_step, ssh_step, sshd_step}"
    and "ml_run step xs (ml_new backlog) = Some (es, l)"
  shows "ml_accepted es @ ml_queue l = ml_queued es \<and> length (ml_queue l) \<le> ln_backlog backlog"
  using assms(1) by (intro accept_queue.run_fifo [OF _ assms(2)]) (auto intro: queue_axioms)

section \<open>The end of a listener\<close>

text \<open>Once the channel of errors is closed, \<open>Accept\<close> does not block.\<close>

lemma ml_Accept_closed: "ml_errClosed l \<Longrightarrow> ml_Accept pick l \<noteq> None"
  by (auto simp: ml_Accept_def ml_from_err_def split: option.split list.split)

locale failing_queue = accept_queue step
  for step :: "'l \<Rightarrow> ml_state \<Rightarrow> (ml_event list \<times> ml_state) option" +
  fixes f :: "'e \<Rightarrow> 'l"
  assumes fail_closes: "step (f e) l = Some (es, l') \<Longrightarrow> ml_errClosed l'"
begin

lemma accept_after_failure:
  assumes "ml_run step (f e # ys) l = Some (es, l')"
  shows "ml_Accept pick l' \<noteq> None"
proof -
  obtain es1 l1 es2 where "step (f e) l = Some (es1, l1)" "ml_run step ys l1 = Some (es2, l')"
    using assms by (auto split: option.splits)
  with fail_closes run_moves [of ys l1 es2 l'] have "ml_errClosed l'" by (auto simp: ml_moves_def)
  then show ?thesis by (rule ml_Accept_closed)
qed

end

interpretation mtls: failing_queue mtls_step MlFail
  by unfold_locales (auto split: if_splits dest: ml_failed_moves)

interpretation mws: failing_queue mws_step MlFail
  by unfold_locales (auto dest: ml_failed_moves)

interpretation kcp: failing_queue kcp_step MlFail
  by unfold_locales (auto split: if_splits dest: ml_failed_moves)

interpretation quic: failing_queue quic_step MlFail
  by unfold_locales (auto split: if_splits dest: ml_failed_moves)

interpretation icmp: failing_queue icmp_step MlFail
  by unfold_locales (use quic.fail_closes in \<open>simp add: icmp_step_def\<close>)

interpretation ws: failing_queue ws_step MlFail
  by unfold_locales (auto dest: ml_failed_moves)

interpretation grpc: failing_queue grpc_step MlFail
  by unfold_locales (auto dest: ml_failed_moves)

interpretation ssh: failing_queue ssh_step MlFail
  by unfold_locales (auto split: if_splits dest: ml_failed_moves)

interpretation sshd: failing_queue sshd_step MlFail
  by unfold_locales (auto split: if_splits dest: ml_failed_moves)





text \<open>
  Every listener for streams is wrapped in the same way: metrics, proxy protocol, admission, and both limits, in this order, and tells the
  address it is bound to; with TLS on the outside when it was configured for TLS.  But not the listener for web sockets: with TLS as
  without it serves plain connections, and it has no address to tell.
\<close>

theorem listeners_layers:
  assumes "listen (ln_network address) address = Some bound"
  shows "(\<forall>init\<in>{(mtls_Init listen, True), (mws_Init listen tls, tls), (h2_Init listen h2c, \<not> h2c),
        (grpc_Init listen insecure, \<not> insecure), (ssh_Init listen, False), (sshd_Init listen, False)}.
      \<exists>l. fst init address backlog = Some l \<and> li_layers l = ln_wrapped @ (if snd init then [LnTls] else []) \<and> li_addr l = Some bound) \<and>
    (\<exists>l. ws_Init listen tls address backlog = Some l \<and> li_layers l = ln_wrapped \<and> li_addr l = None)"
  using assms
  by (auto simp: mtls_Init_def mws_Init_def h2_Init_def grpc_Init_def ssh_Init_def sshd_Init_def ws_Init_def ln_Init_def)

section \<open>Examples\<close>

definition demo_run :: "ml_label list" where
  "demo_run = [MlConn 1 MlServed, MlStream 1 0 False False, MlStream 1 1 False False, MlAccept False]"

lemma demo_ml_run:
  "ml_run mtls_step demo_run (ml_new 1) =
     Some ([MlQueued (1, 0), MlDiscarded (1, 1), MlAccepted (1, 0)], (ml_new 1)\<lparr>ml_sessions := [1]\<rparr>)"
  by code_simp

theorem listeners_fifo_witness: "ml_accepted [MlQueued (1, 0), MlDiscarded (1, 1), MlAccepted (1, 0)] = [(1, 0)]"
  using listeners_fifo [OF _ demo_ml_run] by (simp add: ml_new_def ml_queued_def)


theorem listeners_layers_witness:
  "\<exists>l. ws_Init (\<lambda>_ a. Some a) True '':443'' 0 = Some l \<and> LnTls \<notin> set (li_layers l) \<and> li_addr l = None"
proof -
  obtain l where "ws_Init (\<lambda>_ a. Some a) True '':443'' 0 = Some l" "li_layers l = ln_wrapped" "li_addr l = None"
    using listeners_layers [where listen = "\<lambda>_ a. Some a" and address = "'':443''", OF refl, THEN conjunct2, of True 0] by auto
  then show ?thesis by (simp add: ln_wrapped_def)
qed

end
