(* ===== verification/Chunks.thy ===== *)
theory Chunks
  imports Reader
begin

text \<open>
  Connections over messages: gRPC (\<open>dialer/grpc/conn.go\<close>, \<open>listener/grpc/server.go\<close>), web sockets (\<open>internal/util/ws\<close>) and DTLS
  (\<open>internal/util/dtls\<close>).  A write sends messages, a read takes a part of one and keeps the rest.
\<close>

section \<open>The connections\<close>

text \<open>\<open>alive\<close>: the context of the stream is not done and, at the server, the connection is not closed.\<close>

record chunk_conn =
  cc_rb :: string
  cc_alive :: bool

definition take_rb :: "nat \<Rightarrow> string \<Rightarrow> chunk_conn \<Rightarrow> string \<times> chunk_conn" where
  "take_rb n rb c = (take n rb, c\<lparr>cc_rb := drop n rb\<rparr>)"

definition grpc_Read :: "nat \<Rightarrow> chunk_conn \<times> string list \<Rightarrow> string option \<times> chunk_conn \<times> string list" where
  "grpc_Read n = (\<lambda>(c, cs).
     if \<not> cc_alive c then (None, c, cs)
     else if cc_rb c = [] then
       (case cs of
          [] \<Rightarrow> (None, c, cs)
        | chunk # cs \<Rightarrow> (case take_rb n chunk c of (b, c) \<Rightarrow> (Some b, c, cs)))
     else case take_rb n (cc_rb c) c of (b, c) \<Rightarrow> (Some b, c, cs))"

text \<open>The message that is sent; \<open>ok\<close> is the result.\<close>

definition grpc_Write :: "bool \<Rightarrow> string \<Rightarrow> chunk_conn \<Rightarrow> nat option \<times> string list" where
  "grpc_Write ok b c = (if \<not> cc_alive c then (None, []) else if ok then (Some (length b), [b]) else (None, []))"

definition grpc_server_Read :: "nat \<Rightarrow> chunk_conn \<times> string list \<Rightarrow> string option \<times> chunk_conn \<times> string list" where
  "grpc_server_Read = grpc_Read"

definition grpc_server_Write :: "bool \<Rightarrow> string \<Rightarrow> chunk_conn \<Rightarrow> nat option \<times> string list" where
  "grpc_server_Write = grpc_Write"

definition ws_Read :: "nat \<Rightarrow> string \<times> string list \<Rightarrow> string option \<times> string \<times> string list" where
  "ws_Read n = (\<lambda>(rb, cs).
     if rb = [] then (case cs of [] \<Rightarrow> (None, [], []) | m # cs \<Rightarrow> (Some (take n m), drop n m, cs))
     else (Some (take n rb), drop n rb, cs))"

text \<open>The number of bytes is that of the argument, whatever the result.\<close>

definition ws_Write :: "bool \<Rightarrow> string \<Rightarrow> (nat \<times> bool) \<times> string list" where
  "ws_Write ok b = ((length b, ok), if ok then [b] else [])"

text \<open>
  A read of DTLS with less room than the record that comes fails and loses it; with room for \<open>bufferSize\<close> bytes the connection reads past its
  buffer.
\<close>

definition dtls_record :: "nat \<Rightarrow> string list \<Rightarrow> string option \<times> string list" where
  "dtls_record n cs = (case cs of [] \<Rightarrow> (None, []) | r # cs \<Rightarrow> (if length r \<le> n then Some r else None, cs))"

definition dtls_Read :: "nat \<Rightarrow> nat \<Rightarrow> string \<times> string list \<Rightarrow> string option \<times> string \<times> string list" where
  "dtls_Read bufferSize n = (\<lambda>(rb, cs).
     if rb \<noteq> [] then (Some (take n rb), drop n rb, cs)
     else if n \<ge> bufferSize then (case dtls_record n cs of (r, cs) \<Rightarrow> (r, rb, cs))
     else case dtls_record bufferSize cs of
       (None, cs) \<Rightarrow> (None, rb, cs)
     | (Some r, cs) \<Rightarrow> (Some (take n r), rb @ drop n r, cs))"

text \<open>The records of a write that succeeds; a buffer of size 0 would make no progress.\<close>

function dtls_Write :: "nat \<Rightarrow> string \<Rightarrow> string list" where
  "dtls_Write bufferSize p =
     (if p = [] \<or> bufferSize = 0 then []
      else take (min bufferSize (length p)) p # dtls_Write bufferSize (drop (min bufferSize (length p)) p))"
  by pat_completeness auto

termination
  by (relation "measure (\<lambda>(n, p). length p)") auto

declare dtls_Write.simps [simp del]

section \<open>Nothing is lost\<close>

definition grpc_inv :: "chunk_conn \<times> string list \<Rightarrow> bool" where
  "grpc_inv = (\<lambda>(c, cs). cc_alive c \<and> [] \<notin> set cs)"

definition grpc_pending :: "chunk_conn \<times> string list \<Rightarrow> string" where
  "grpc_pending = (\<lambda>(c, cs). cc_rb c @ concat cs)"

interpretation grpc: lossless_reader grpc_Read grpc_inv grpc_pending
  by unfold_locales
    (auto simp: grpc_Read_def grpc_inv_def grpc_pending_def take_rb_def split: if_splits list.splits prod.splits)

definition ws_inv :: "string \<times> string list \<Rightarrow> bool" where
  "ws_inv = (\<lambda>(rb, cs). [] \<notin> set cs)"

definition ws_pending :: "string \<times> string list \<Rightarrow> string" where
  "ws_pending = (\<lambda>(rb, cs). rb @ concat cs)"

interpretation ws: lossless_reader ws_Read ws_inv ws_pending
  by unfold_locales (auto simp: ws_Read_def ws_inv_def ws_pending_def split: if_splits list.splits)

definition dtls_inv :: "nat \<Rightarrow> string \<times> string list \<Rightarrow> bool" where
  "dtls_inv bufferSize = (\<lambda>(rb, cs). \<forall>r\<in>set cs. r \<noteq> [] \<and> length r \<le> bufferSize)"

text \<open>With records that fit, it reads like a web socket.\<close>

lemma dtls_like_ws:
  assumes "dtls_inv bufferSize s"
  shows "dtls_Read bufferSize n s = ws_Read n s \<and> ws_inv s \<and> dtls_inv bufferSize (snd (ws_Read n s))"
proof -
  obtain rb cs where s: "s = (rb, cs)" by (cases s)
  show ?thesis
  proof (cases "rb = []")
    case True
    with assms show ?thesis
      by (cases cs) (auto simp: s dtls_Read_def dtls_record_def ws_Read_def dtls_inv_def ws_inv_def)
  qed (use assms in \<open>auto simp: s dtls_Read_def ws_Read_def dtls_inv_def ws_inv_def\<close>)
qed

interpretation dtls: lossless_reader "dtls_Read bufferSize" "dtls_inv bufferSize" ws_pending for bufferSize
proof (unfold_locales, goal_cases)
  case (1 s n b s')
  have ws: "dtls_Read bufferSize n s = ws_Read n s" "ws_inv s" "dtls_inv bufferSize (snd (ws_Read n s))"
    using dtls_like_ws [OF 1(1), of n] by auto
  have read: "ws_Read n s = (Some b, s')" using 1(2) unfolding ws(1) .
  show ?case using ws.rd_some [OF ws(2) read] ws(3) unfolding read snd_conv by blast
next
  case (2 s n s')
  have ws: "dtls_Read bufferSize n s = ws_Read n s" "ws_inv s" "dtls_inv bufferSize (snd (ws_Read n s))"
    using dtls_like_ws [OF 2(1), of n] by auto
  have read: "ws_Read n s = (None, s')" using 2(2) unfolding ws(1) .
  show ?case using ws.rd_none [OF ws(2) read] ws(3) unfolding read snd_conv by blast
qed

lemma dtls_Write_records:
  assumes "0 < bufferSize"
  shows "concat (dtls_Write bufferSize p) = p \<and> (\<forall>r\<in>set (dtls_Write bufferSize p). r \<noteq> [] \<and> length r \<le> bufferSize)"
  using assms
proof (induction bufferSize p rule: dtls_Write.induct)
  case (1 bufferSize p)
  show ?case
  proof (cases "p = []")
    case False
    let ?n = "min bufferSize (length p)"
    have step: "dtls_Write bufferSize p = take ?n p # dtls_Write bufferSize (drop ?n p)"
      using False 1(2) by (subst dtls_Write.simps) simp
    have "\<not> (p = [] \<or> bufferSize = 0)" using False 1(2) by simp
    from 1(1) [OF this 1(2)]
    have rest: "concat (dtls_Write bufferSize (drop ?n p)) = drop ?n p"
        "\<forall>r\<in>set (dtls_Write bufferSize (drop ?n p)). r \<noteq> [] \<and> length r \<le> bufferSize"
      by (rule conjunct1, rule conjunct2)
    have first: "take ?n p \<noteq> []" "length (take ?n p) \<le> bufferSize"
      using False 1(2) by simp_all
    have "concat (dtls_Write bufferSize p) = p"
      unfolding step concat.simps rest(1) by (rule append_take_drop_id)
    moreover have "\<forall>r\<in>set (dtls_Write bufferSize p). r \<noteq> [] \<and> length r \<le> bufferSize"
      unfolding step list.set ball_simps(7) using first rest(2) by (intro conjI)
    ultimately show ?thesis by (rule conjI)
  qed (simp add: dtls_Write.simps)
qed

text \<open>
  C32.  The connections over gRPC, web sockets and DTLS are streams: however the reader cuts its reads, it gets the bytes of all writes, in their
  order, and nothing else; for DTLS the writer may send records up to the size of the reader's buffer.
\<close>

theorem chunked_conns_lossless:
  assumes "\<forall>n\<in>set ns. 0 < n" "length (concat bs) \<le> length ns" "[] \<notin> set bs" "cc_alive c" "cc_rb c = []"
    and "0 < w" "w \<le> bufferSize"
  shows "fst (reads grpc_Read ns (c, concat (map (\<lambda>b. snd (grpc_server_Write True b c)) bs))) = concat bs \<and>
    fst (reads grpc_server_Read ns (c, concat (map (\<lambda>b. snd (grpc_Write True b c)) bs))) = concat bs \<and>
    fst (reads ws_Read ns ([], concat (map (\<lambda>b. snd (ws_Write True b)) bs))) = concat bs \<and>
    fst (reads (dtls_Read bufferSize) ns ([], concat (map (dtls_Write w) bs))) = concat bs"
proof -
  have grpc: "concat (map (\<lambda>b. snd (grpc_Write True b c)) bs) = bs"
    using assms(4) by (simp add: grpc_Write_def)
  have ws: "concat (map (\<lambda>b. snd (ws_Write True b)) bs) = bs"
    by (simp add: ws_Write_def)
  have dtls: "concat (concat (map (dtls_Write w) bs)) = concat bs"
    by (induction bs) (simp_all add: dtls_Write_records [OF assms(6), THEN conjunct1])
  have records: "dtls_inv bufferSize ([], concat (map (dtls_Write w) bs))"
    using dtls_Write_records [OF assms(6)] assms(7) by (fastforce simp: dtls_inv_def)
  show ?thesis
    unfolding grpc_server_Read_def grpc_server_Write_def grpc ws
    using grpc.reads_all [of "(c, bs)" ns] ws.reads_all [of "([], bs)" ns] dtls.reads_all [OF records assms(1)] assms dtls
    by (simp add: grpc_inv_def grpc_pending_def ws_inv_def ws_pending_def)
qed

text \<open>A record that is larger than the reader's buffer is lost.\<close>

lemma dtls_large_record_lost: "bufferSize < length r \<Longrightarrow> n < bufferSize \<Longrightarrow> dtls_Read bufferSize n ([], r # cs) = (None, [], cs)"
  by (simp add: dtls_Read_def dtls_record_def)

theorem chunked_conns_lossless_witness:
  "fst (reads (dtls_Read 2) [1, 1, 1, 1, 1] ([], dtls_Write 2 ''abc'' @ dtls_Write 2 ''de'')) = ''abcde''"
  using chunked_conns_lossless [of "[1, 1, 1, 1, 1]" "[''abc'', ''de'']" "\<lparr>cc_rb = [], cc_alive = True\<rparr>" 2 2] by simp

end
