(* ===== verification/Sshd.thy ===== *)
theory Sshd
  imports Handler Bytes
begin

text \<open>
  Forwarding of ports by SSH (\<open>handler/sshd\<close>, \<open>connector/sshd\<close>) and the connectors that have nothing to say
  (\<open>connector/direct\<close>, \<open>connector/forward\<close>).  SSH itself is a package of others: the payload of a request is parsed by a
  parameter.
\<close>

section \<open>Connections, events and oracles\<close>

text \<open>A connection of the listener: for a destination, or a request to listen with its payload and whether it wants a reply.\<close>

datatype sshd_conn = DirectForward string | RemoteForward string bool | OtherConn

text \<open>
  A port is opened; the request is answered, with the port; a connection to the port, by its peer's address; a channel to the client, by
  the bound and the peer's host and port; its relaying and its end; the end of the client, and of the port.
\<close>

datatype sshd_special =
    ShListen string "string option"
  | ShReply bool "byte list" bool
  | ShPeer string
  | ShChannel string uint32 string uint32 bool
  | ShRelay
  | ShCloseChannel
  | ShClosePeer
  | ShClient
  | ShClosePort

type_synonym sshd_event = "(unit, unit, sshd_special) event"
type_synonym 'a sshd_io = "(unit, sshd_event, 'a) io"
type_synonym sshd_history = "(unit, sshd_event) history"

datatype sshd_err = ShType | ShDial | ShParse | ShBind | ShAnswer

record sshd_handler =
  sh_limiter :: "(string \<Rightarrow> bool) option"
  sh_bypass :: "(string \<Rightarrow> bool) option"

text \<open>\<open>sw_parse\<close> finds the host and the port in a payload, \<open>sw_peers\<close> are the peers that connect to the port while it is open.\<close>

record sshd_world =
  sw_allow :: "sshd_history \<Rightarrow> bool"
  sw_dial :: "sshd_history \<Rightarrow> bool"
  sw_listen :: "string \<Rightarrow> sshd_history \<Rightarrow> string option"
  sw_reply :: "sshd_history \<Rightarrow> bool"
  sw_channel :: "sshd_history \<Rightarrow> bool"
  sw_parse :: "string \<Rightarrow> (string \<times> uint32) option"
  sw_peers :: "sshd_history \<Rightarrow> string list"

text \<open>\<open>strconv.Atoi\<close> with its errors, and \<open>strconv.Itoa\<close> of a port.\<close>

definition Atoi :: "string \<Rightarrow> int option" where
  "Atoi s =
     (let neg = (s \<noteq> [] \<and> hd s = CHR ''-'');
          ds = (if s \<noteq> [] \<and> (hd s = CHR ''-'' \<or> hd s = CHR ''+'') then tl s else s)
      in if ds = [] then None
         else case parse_uint 0 ds of
           None \<Rightarrow> None
         | Some n \<Rightarrow> if n > 2 ^ 63 \<or> n = 2 ^ 63 \<and> \<not> neg then None else Some (atoi s))"

fun Itoa :: "nat \<Rightarrow> string" where
  "Itoa n = (if n < 10 then [] else Itoa (n div 10)) @ [char_of (48 + n mod 10)]"

declare Itoa.simps [simp del]

definition getHostPortFromAddr :: "string \<Rightarrow> (string \<times> int) option" where
  "getHostPortFromAddr addr =
     (case split_host_port addr of
        None \<Rightarrow> None
      | Some (host, port) \<Rightarrow> map_option (Pair host) (Atoi port))"

section \<open>The handler\<close>

definition sshd_bypassed :: "sshd_handler \<Rightarrow> string \<Rightarrow> bool" where
  "sshd_bypassed H addr = (case sh_bypass H of None \<Rightarrow> False | Some contains \<Rightarrow> contains addr)"

definition sshd_handleDirectForward :: "sshd_world \<Rightarrow> sshd_handler \<Rightarrow> string \<Rightarrow> sshd_err option sshd_io" where
  "sshd_handleDirectForward E H targetAddr =
     (if sshd_bypassed H targetAddr then return None
      else do {
        ok \<leftarrow> ask (sw_dial E) (Dial None ''tcp'' targetAddr);
        if \<not> ok then return (Some ShDial)
        else deferring (emit CloseUp) (do { emit (Transport False []); return None })
      })"

text \<open>The answer tells the port when the client has left it open and wants to know: the port that is told from then on.\<close>

definition sshd_reply ::
    "sshd_world \<Rightarrow> bool \<Rightarrow> uint32 \<Rightarrow> string \<Rightarrow> uint32 option sshd_io"
where
  "sshd_reply E wantReply port bound =
     (if port = 0 \<and> wantReply
      then (case getHostPortFromAddr bound of
              None \<Rightarrow> return None
            | Some (_, p) \<Rightarrow> do {
                ok \<leftarrow> ask (sw_reply E) (\<lambda>ok. Special (ShReply True (be32 (word_of_int p)) ok));
                return (if ok then Some (word_of_int p) else None)
              })
      else do {
        ok \<leftarrow> ask (sw_reply E) (\<lambda>ok. Special (ShReply True [] ok));
        return (if ok then Some port else None)
      })"

text \<open>A peer that connects to the port.\<close>

definition sshd_peer :: "sshd_world \<Rightarrow> string \<Rightarrow> uint32 \<Rightarrow> string \<Rightarrow> unit sshd_io" where
  "sshd_peer E host port peer = do {
     emit (Special (ShPeer peer));
     deferring (emit (Special ShClosePeer))
       (case getHostPortFromAddr peer of
          None \<Rightarrow> return ()
        | Some (host2, port2) \<Rightarrow> do {
            ok \<leftarrow> ask (sw_channel E) (\<lambda>ok. Special (ShChannel host port host2 (word_of_int port2) ok));
            if \<not> ok then return ()
            else deferring (emit (Special ShCloseChannel)) (emit (Special ShRelay))
          })
   }"

primrec sshd_serve :: "sshd_world \<Rightarrow> string \<Rightarrow> uint32 \<Rightarrow> string list \<Rightarrow> unit sshd_io" where
  "sshd_serve E host port [] = return ()"
| "sshd_serve E host port (p # ps) = do { sshd_peer E host port p; sshd_serve E host port ps }"

definition sshd_handleRemoteForward ::
    "sshd_world \<Rightarrow> string \<Rightarrow> bool \<Rightarrow> sshd_err option sshd_io"
where
  "sshd_handleRemoteForward E payload wantReply =
     (case sw_parse E payload of
        None \<Rightarrow> return (Some ShParse)
      | Some (host, port) \<Rightarrow> do {
          let addr = join_host_port host (Itoa (unat port));
          bound \<leftarrow> ask (sw_listen E addr) (\<lambda>b. Special (ShListen addr b));
          case bound of
            None \<Rightarrow> do { ok \<leftarrow> ask (sw_reply E) (\<lambda>ok. Special (ShReply False [] ok)); return (Some ShBind) }
          | Some bound \<Rightarrow> deferring (emit (Special ShClosePort)) (do {
              told \<leftarrow> sshd_reply E wantReply port bound;
              case told of
                None \<Rightarrow> return (Some ShAnswer)
              | Some port \<Rightarrow> do {
                  peers \<leftarrow> State (\<lambda>h. (sw_peers E h, h));
                  sshd_serve E host port peers;
                  emit (Special ShClient);
                  return None
                }
            })
        })"

definition sshd_Handle ::
    "sshd_world \<Rightarrow> sshd_handler \<Rightarrow> string \<Rightarrow> sshd_conn \<Rightarrow> sshd_err option sshd_io"
where
  "sshd_Handle E H remote conn = deferring (emit CloseClient) (do {
     ok \<leftarrow> checkRateLimit (sh_limiter H) (sw_allow E) remote;
     if \<not> ok then return None
     else case conn of
       DirectForward dst \<Rightarrow> sshd_handleDirectForward E H dst
     | RemoteForward payload wantReply \<Rightarrow> sshd_handleRemoteForward E payload wantReply
     | OtherConn \<Rightarrow> return (Some ShType)
   })"

section \<open>The connectors\<close>

text \<open>\<open>dial\<close> and \<open>client\<close> are the dials of the network and of the client of SSH, which a connection may not carry.\<close>

definition direct_Connect :: "(string \<Rightarrow> string \<Rightarrow> 'c option) \<Rightarrow> string \<Rightarrow> string \<Rightarrow> 'c option" where
  "direct_Connect dial network address = dial network address"

definition forward_Connect :: "'c \<Rightarrow> 'c option" where
  "forward_Connect conn = Some conn"

definition sshd_Connect :: "(string \<Rightarrow> string \<Rightarrow> 'c option) option \<Rightarrow> string \<Rightarrow> string \<Rightarrow> 'c option" where
  "sshd_Connect client network address = (case client of None \<Rightarrow> None | Some dial \<Rightarrow> dial network address)"

definition sshd_bind_address :: "string \<Rightarrow> string" where
  "sshd_bind_address address =
     (case split_host_port address of
        None \<Rightarrow> join_host_port ''0.0.0.0'' []
      | Some (host, port) \<Rightarrow> if host = [] then join_host_port ''0.0.0.0'' port else address)"

definition sshd_Bind :: "(string \<Rightarrow> string \<Rightarrow> 'l option) option \<Rightarrow> string \<Rightarrow> string \<Rightarrow> 'l option" where
  "sshd_Bind client network address =
     (case client of None \<Rightarrow> None | Some listen \<Rightarrow> listen network (sshd_bind_address address))"

section \<open>What a client gets\<close>













text \<open>A port is opened whatever the bypass says.\<close>

lemma sshd_remote_not_bypassed: "sshd_Handle E (H\<lparr>sh_bypass := b\<rparr>) remote (RemoteForward payload want) = sshd_Handle E H remote (RemoteForward payload want)"
  by (simp add: sshd_Handle_def cong: if_cong)

lemma sshd_bind_anywhere: "sshd_bind_address '':8080'' = ''0.0.0.0:8080''"
  by code_simp

end
