(* ===== verification/NetRelay.thy ===== *)
theory NetRelay
  imports Prelude
begin

text \<open>
  The two relays under all handlers: \<open>Transport\<close> of \<open>internal/net/transport.go\<close> for streams, and
  \<open>internal/net/udp/relay.go\<close> for datagrams.  Both run two goroutines, one for each direction,
  which share nothing but the channel of their errors, and return with the first of them that
  ends.  Their interleavings are the runs of one step relation.
\<close>

section \<open>Two goroutines\<close>

datatype side = Client | Target

primrec other :: "side \<Rightarrow> side" where
  "other Client = Target"
| "other Target = Client"

text \<open>
  What each side still has to be read, what was written to it, whether the goroutine that reads
  it has ended, and the channel: the goroutines in the order they ended, each with its error.
\<close>

record ('r, 'd, 'e) duplex =
  dx_in :: "side \<Rightarrow> 'r list"
  dx_out :: "side \<Rightarrow> 'd list"
  dx_ended :: "side \<Rightarrow> bool"
  dx_errc :: "'e option list"

text \<open>
  One round of the goroutine of a side: \<open>handle\<close> says what one read leads to, an end or what is
  written to the other side.
\<close>

type_synonym ('r, 'd, 'e) round = "side \<Rightarrow> 'r \<Rightarrow> 'e option + 'd list"

definition duplex_round :: "('r, 'd, 'e) round \<Rightarrow> side \<Rightarrow> ('r, 'd, 'e) duplex \<Rightarrow> ('r, 'd, 'e) duplex option" where
  "duplex_round handle d s =
     (if dx_ended s d then None
      else case dx_in s d of
        [] \<Rightarrow> None
      | r # rs \<Rightarrow>
          Some (case handle d r of
             Inl e \<Rightarrow> s\<lparr>dx_in := (dx_in s)(d := rs), dx_ended := (dx_ended s)(d := True), dx_errc := dx_errc s @ [e]\<rparr>
           | Inr ds \<Rightarrow> s\<lparr>dx_in := (dx_in s)(d := rs), dx_out := (dx_out s)(other d := dx_out s (other d) @ ds)\<rparr>))"

inductive duplex_run :: "('r, 'd, 'e) round \<Rightarrow> nat \<Rightarrow> ('r, 'd, 'e) duplex \<Rightarrow> ('r, 'd, 'e) duplex \<Rightarrow> bool"
  for handle where
  start: "duplex_run handle 0 s s"
| step: "duplex_run handle n s s' \<Longrightarrow> duplex_round handle d s' = Some s'' \<Longrightarrow> duplex_run handle (Suc n) s s''"

inductive_cases duplex_run_SucE: "duplex_run handle (Suc n) s s'"

definition duplex_start :: "(side \<Rightarrow> 'r list) \<Rightarrow> ('r, 'd, 'e) duplex" where
  "duplex_start ins = \<lparr>dx_in = ins, dx_out = (\<lambda>_. []), dx_ended = (\<lambda>_. False), dx_errc = []\<rparr>"

text \<open>The result is the first error that arrives.\<close>

definition duplex_result :: "('r, 'd, 'e) duplex \<Rightarrow> 'e option option" where
  "duplex_result s = (case dx_errc s of [] \<Rightarrow> None | e # _ \<Rightarrow> Some e)"

section \<open>What every run keeps\<close>

lemma other_simps [simp]: "other d \<noteq> d" "d \<noteq> other d" "other (other d) = d"
  by (cases d; simp)+

lemma other_eq_iff [simp]: "other d = other d' \<longleftrightarrow> d = d'"
  by (cases d; cases d') auto

text \<open>What a list of reads leads to, up to the first that ends the goroutine.\<close>

fun relayed :: "('r \<Rightarrow> 'e option + 'd list) \<Rightarrow> 'r list \<Rightarrow> 'd list" where
  "relayed h [] = []"
| "relayed h (r # rs) = (case h r of Inl e \<Rightarrow> [] | Inr ds \<Rightarrow> ds @ relayed h rs)"

definition ends :: "('r \<Rightarrow> 'e option + 'd list) \<Rightarrow> 'r list \<Rightarrow> bool" where
  "ends h rs = list_ex (\<lambda>r. isl (h r)) rs"

lemma relayed_append: "\<not> ends h as \<Longrightarrow> relayed h (as @ bs) = relayed h as @ relayed h bs"
  by (induction as) (auto simp: ends_def split: sum.splits)

text \<open>
  Of each side a part has been read, the other side got what it leads to, and the goroutine has
  ended exactly if its last read says so.
\<close>

definition relayed_so_far :: "('r \<Rightarrow> 'e option + 'd list) \<Rightarrow> 'r list \<Rightarrow> 'r list \<Rightarrow> 'd list \<Rightarrow> bool \<Rightarrow> bool" where
  "relayed_so_far h all left outs ended \<longleftrightarrow> (\<exists>read. all = read @ left \<and> outs = relayed h read \<and>
     (if ended then \<exists>as r. read = as @ [r] \<and> \<not> ends h as \<and> isl (h r) else \<not> ends h read))"

definition duplex_inv :: "('r, 'd, 'e) round \<Rightarrow> (side \<Rightarrow> 'r list) \<Rightarrow> ('r, 'd, 'e) duplex \<Rightarrow> bool" where
  "duplex_inv handle ins s \<longleftrightarrow>
     (\<forall>d. relayed_so_far (handle d) (ins d) (dx_in s d) (dx_out s (other d)) (dx_ended s d)) \<and>
     (dx_errc s = [] \<longleftrightarrow> \<not> dx_ended s Client \<and> \<not> dx_ended s Target)"

lemma relayed_so_far_step:
  assumes "relayed_so_far h all (r # rs) outs False"
  shows "relayed_so_far h all rs (outs @ (case h r of Inl e \<Rightarrow> [] | Inr ds \<Rightarrow> ds)) (isl (h r))"
proof -
  obtain read where read: "all = read @ r # rs" "outs = relayed h read" "\<not> ends h read"
    using assms by (auto simp: relayed_so_far_def)
  then show ?thesis
    unfolding relayed_so_far_def
    by (intro exI [of _ "read @ [r]"]) (auto simp: relayed_append ends_def split: sum.split)
qed

lemma duplex_round_inv:
  assumes "duplex_inv handle ins s" "duplex_round handle d s = Some s'"
  shows "duplex_inv handle ins s'"
proof -
  obtain r rs where r: "\<not> dx_ended s d" "dx_in s d = r # rs"
    using assms(2) by (auto simp: duplex_round_def split: if_splits list.splits)
  have "relayed_so_far (handle d) (ins d) rs
      (dx_out s (other d) @ (case handle d r of Inl e \<Rightarrow> [] | Inr ds \<Rightarrow> ds)) (isl (handle d r))"
    using assms(1) r by (intro relayed_so_far_step) (metis duplex_inv_def)
  moreover have "x = d \<or> x = other d" for x by (cases x; cases d) auto
  ultimately have "relayed_so_far (handle x) (ins x) (dx_in s' x) (dx_out s' (other x)) (dx_ended s' x)" for x
    using assms r by (cases "x = d") (auto simp: duplex_inv_def duplex_round_def split: sum.splits)
  moreover have "dx_errc s' = [] \<longleftrightarrow> \<not> dx_ended s' Client \<and> \<not> dx_ended s' Target"
    using assms r by (cases d) (auto simp: duplex_inv_def duplex_round_def split: sum.splits)
  ultimately show ?thesis by (simp add: duplex_inv_def)
qed

lemma duplex_run_inv: "duplex_run handle n s0 s \<Longrightarrow> s0 = duplex_start ins \<Longrightarrow> duplex_inv handle ins s"
proof (induction rule: duplex_run.induct)
  case (start s)
  then show ?case by (simp add: duplex_inv_def duplex_start_def relayed_so_far_def ends_def)
next
  case (step n s s' d s'')
  then show ?case by (blast intro: duplex_round_inv)
qed

text \<open>Every round reads, so a run is no longer than what there is to read.\<close>

definition dx_left :: "('r, 'd, 'e) duplex \<Rightarrow> nat" where
  "dx_left s = length (dx_in s Client) + length (dx_in s Target)"

lemma duplex_round_left: "duplex_round handle d s = Some s' \<Longrightarrow> dx_left s = Suc (dx_left s')"
  by (cases d) (auto simp: duplex_round_def dx_left_def split: if_splits list.splits sum.splits)

lemma duplex_run_left: "duplex_run handle n s s' \<Longrightarrow> n + dx_left s' = dx_left s"
  by (induction rule: duplex_run.induct) (auto dest: duplex_round_left)

definition duplex_stuck :: "('r, 'd, 'e) round \<Rightarrow> ('r, 'd, 'e) duplex \<Rightarrow> bool" where
  "duplex_stuck handle s \<longleftrightarrow> duplex_round handle Client s = None \<and> duplex_round handle Target s = None"

lemma duplex_stuck_ended:
  assumes "duplex_inv handle ins s" "duplex_stuck handle s" "ends (handle d) (ins d)"
  shows "dx_ended s d"
proof (rule ccontr)
  assume a: "\<not> dx_ended s d"
  have "duplex_round handle d s = None" using assms(2) by (cases d) (auto simp: duplex_stuck_def)
  with a have "dx_in s d = []" by (auto simp: duplex_round_def split: list.splits)
  with a assms(1) have "\<not> ends (handle d) (ins d)" unfolding duplex_inv_def relayed_so_far_def by (metis append_Nil2)
  with assms(3) show False by simp
qed

section \<open>Streams\<close>

text \<open>
  \<open>CopyBuffer\<close>: a read gives bytes, the end of the stream, which is no error, or an error; the
  bytes are written, or the write fails.
\<close>

datatype stream_read = Chunk "byte list" | EOF | ReadFails

datatype relay_failure = ReadFailure | WriteFailure

definition CopyBuffer :: "(side \<Rightarrow> byte list \<Rightarrow> bool) \<Rightarrow> (stream_read, byte, relay_failure) round" where
  "CopyBuffer writable d r =
     (case r of
        EOF \<Rightarrow> Inl None
      | ReadFails \<Rightarrow> Inl (Some ReadFailure)
      | Chunk b \<Rightarrow> if writable (other d) b then Inr b else Inl (Some WriteFailure))"

text \<open>A run of \<open>Transport\<close> of \<open>n\<close> rounds, and what it returns: nothing while neither direction has ended.\<close>

definition Transport_run ::
    "(side \<Rightarrow> byte list \<Rightarrow> bool) \<Rightarrow> (side \<Rightarrow> stream_read list) \<Rightarrow> nat \<Rightarrow> (stream_read, byte, relay_failure) duplex \<Rightarrow> bool"
where
  "Transport_run writable ins n s = duplex_run (CopyBuffer writable) n (duplex_start ins) s"

definition Transport_result :: "(stream_read, byte, relay_failure) duplex \<Rightarrow> relay_failure option option" where
  "Transport_result s = duplex_result s"

text \<open>The bytes of a stream.\<close>

definition stream_bytes :: "stream_read list \<Rightarrow> byte list" where
  "stream_bytes rs = concat (map (\<lambda>r. case r of Chunk b \<Rightarrow> b | _ \<Rightarrow> []) rs)"

lemma relayed_prefix: "\<exists>rest. stream_bytes rs = relayed (CopyBuffer writable d) rs @ rest"
proof (induction rs)
  case (Cons r rs)
  then show ?case by (cases r) (auto simp: stream_bytes_def CopyBuffer_def)
qed (simp add: stream_bytes_def)

text \<open>
  C17.  Whatever the order in which the two directions make progress, \<open>Transport\<close> delivers to each
  side a prefix of the bytes of the other, takes no more rounds than there are reads, and, when
  one stream ends, a run that can go no further has returned.
\<close>

theorem transport_delivers_and_returns:
  assumes "Transport_run writable ins n s"
  shows "(\<exists>rest. stream_bytes (ins d) = dx_out s (other d) @ rest) \<and>
    n \<le> length (ins Client) + length (ins Target) \<and>
    (EOF \<in> set (ins d) \<and> duplex_stuck (CopyBuffer writable) s \<longrightarrow> Transport_result s \<noteq> None)"
proof -
  have run: "duplex_run (CopyBuffer writable) n (duplex_start ins) s" using assms by (simp add: Transport_run_def)
  note inv = duplex_run_inv [OF run refl]
  obtain read where read: "ins d = read @ dx_in s d" "dx_out s (other d) = relayed (CopyBuffer writable d) read"
    using inv unfolding duplex_inv_def relayed_so_far_def by metis
  obtain rest where "stream_bytes read = dx_out s (other d) @ rest" using relayed_prefix [of read writable d] read(2) by auto
  then have "stream_bytes (ins d) = dx_out s (other d) @ rest @ stream_bytes (dx_in s d)"
    using read(1) by (simp add: stream_bytes_def)
  moreover have "n \<le> length (ins Client) + length (ins Target)"
    using duplex_run_left [OF run] by (simp add: dx_left_def duplex_start_def)
  moreover have "Transport_result s \<noteq> None" if "EOF \<in> set (ins d)" "duplex_stuck (CopyBuffer writable) s"
  proof -
    have "ends (CopyBuffer writable d) (ins d)"
      using that(1) by (auto simp: ends_def list_ex_iff CopyBuffer_def intro!: bexI [of _ EOF])
    with duplex_stuck_ended [OF inv that(2)] have "dx_ended s d" .
    with inv have "dx_errc s \<noteq> []" by (cases d) (auto simp: duplex_inv_def)
    then show ?thesis by (simp add: Transport_result_def duplex_result_def split: list.split)
  qed
  ultimately show ?thesis by blast
qed

text \<open>
  Half-closed connections are cut: a client that sends its request and closes its direction may
  get nothing of the answer, and no error is reported.
\<close>

definition half_closed :: "byte list \<Rightarrow> byte list \<Rightarrow> side \<Rightarrow> stream_read list" where
  "half_closed request answer d = (case d of Client \<Rightarrow> [Chunk request, EOF] | Target \<Rightarrow> [Chunk answer, EOF])"

lemma transport_half_close_drops:
  "\<exists>s. Transport_run (\<lambda>_ _. True) (half_closed request answer) 2 s \<and> Transport_result s = Some None \<and>
     dx_out s Target = request \<and> dx_out s Client = []"
proof -
  let ?h = "CopyBuffer (\<lambda>_ _. True)"
  let ?s0 = "duplex_start (half_closed request answer) :: (stream_read, byte, relay_failure) duplex"
  let ?s1 = "?s0\<lparr>dx_in := (dx_in ?s0)(Client := [EOF]), dx_out := (dx_out ?s0)(Target := request)\<rparr>"
  let ?s2 = "?s1\<lparr>dx_in := (dx_in ?s1)(Client := []), dx_ended := (dx_ended ?s1)(Client := True), dx_errc := [None]\<rparr>"
  have "duplex_round ?h Client ?s0 = Some ?s1" "duplex_round ?h Client ?s1 = Some ?s2"
    by (simp_all add: duplex_round_def duplex_start_def half_closed_def CopyBuffer_def)
  then have "duplex_run ?h (Suc (Suc 0)) ?s0 ?s2" by (blast intro: duplex_run.intros)
  then show ?thesis
    by (intro exI [of _ ?s2]) (simp add: Transport_run_def Transport_result_def duplex_result_def numeral_2_eq_2 duplex_start_def)
qed

theorem transport_delivers_and_returns_witness:
  "\<exists>s rest. Transport_run (\<lambda>_ _. True) (half_closed [1, 2] [3]) 2 s \<and> [3] = dx_out s Client @ rest \<and> Transport_result s = Some None"
proof -
  obtain s where s: "Transport_run (\<lambda>_ _. True) (half_closed [1, 2] [3]) 2 s" "Transport_result s = Some None"
    using transport_half_close_drops by blast
  from transport_delivers_and_returns [OF s(1), of Target] s show ?thesis
    by (auto simp: half_closed_def stream_bytes_def)
qed

section \<open>Datagrams\<close>

datatype udp_read = Datagram "byte list" string | NoDatagram

definition Relay_bufSize :: "int \<Rightarrow> nat" where
  "Relay_bufSize n = (if n \<le> 0 then 4096 else nat n)"

text \<open>A datagram is cut to the buffer, dropped when its address is bypassed, and written to that address.\<close>

definition Relay_round ::
    "(string \<Rightarrow> bool) option \<Rightarrow> int \<Rightarrow> (side \<Rightarrow> byte list \<Rightarrow> string \<Rightarrow> bool) \<Rightarrow> (udp_read, byte list \<times> string, relay_failure) round"
where
  "Relay_round bypass bufferSize writable d r =
     (case r of
        NoDatagram \<Rightarrow> Inl (Some ReadFailure)
      | Datagram b raddr \<Rightarrow>
          let b = take (Relay_bufSize bufferSize) b
          in if (case bypass of None \<Rightarrow> False | Some contains \<Rightarrow> contains raddr) then Inr []
             else if writable (other d) b raddr then Inr [(b, raddr)] else Inl (Some WriteFailure))"

definition Relay_Run ::
    "(string \<Rightarrow> bool) option \<Rightarrow> int \<Rightarrow> (side \<Rightarrow> byte list \<Rightarrow> string \<Rightarrow> bool) \<Rightarrow> (side \<Rightarrow> udp_read list) \<Rightarrow> nat \<Rightarrow>
     (udp_read, byte list \<times> string, relay_failure) duplex \<Rightarrow> bool"
where
  "Relay_Run bypass bufferSize writable ins n s = duplex_run (Relay_round bypass bufferSize writable) n (duplex_start ins) s"

definition wanted_datagrams :: "(string \<Rightarrow> bool) option \<Rightarrow> int \<Rightarrow> udp_read list \<Rightarrow> (byte list \<times> string) list" where
  "wanted_datagrams bypass bufferSize rs =
     concat (map (\<lambda>r. case r of
        NoDatagram \<Rightarrow> []
      | Datagram b a \<Rightarrow> if (case bypass of None \<Rightarrow> False | Some contains \<Rightarrow> contains a) then []
          else [(take (Relay_bufSize bufferSize) b, a)]) rs)"

lemma relayed_datagrams:
  "\<not> ends (Relay_round bypass n writable d) rs \<Longrightarrow> relayed (Relay_round bypass n writable d) rs = wanted_datagrams bypass n rs"
proof (induction rs)
  case (Cons r rs)
  then show ?case
    by (cases r) (auto simp: ends_def wanted_datagrams_def Relay_round_def Let_def split: if_splits)
qed (simp add: wanted_datagrams_def)

text \<open>
  A relay of datagrams writes to each side, in their order, the datagrams read from the other
  that are not bypassed, each cut to the size of the buffer and with its address, up to the one
  whose write fails, which ends the direction.
\<close>

theorem udp_relay_faithful:
  assumes "Relay_Run bypass bufferSize writable ins n s"
  shows "\<exists>k. dx_out s (other d) = wanted_datagrams bypass bufferSize (take k (ins d)) \<and>
    (dx_ended s d \<longrightarrow> k < length (ins d) \<and> isl (Relay_round bypass bufferSize writable d (ins d ! k)))"
proof -
  let ?h = "Relay_round bypass bufferSize writable d"
  have "duplex_inv (Relay_round bypass bufferSize writable) ins s"
    using assms by (simp add: Relay_Run_def duplex_run_inv)
  then obtain read where read: "ins d = read @ dx_in s d" "dx_out s (other d) = relayed ?h read"
      "if dx_ended s d then \<exists>as r. read = as @ [r] \<and> \<not> ends ?h as \<and> isl (?h r) else \<not> ends ?h read"
    unfolding duplex_inv_def relayed_so_far_def by metis
  show ?thesis
  proof (cases "dx_ended s d")
    case True
    then obtain as r where r: "read = as @ [r]" "\<not> ends ?h as" "isl (?h r)" using read(3) by auto
    then have "relayed ?h read = wanted_datagrams bypass bufferSize as"
      by (auto simp: relayed_append relayed_datagrams split: sum.splits)
    with read(1,2) r show ?thesis by (intro exI [of _ "length as"]) simp
  next
    case False
    with read show ?thesis by (intro exI [of _ "length read"]) (simp add: relayed_datagrams)
  qed
qed

theorem udp_relay_faithful_witness:
  "\<exists>s k. Relay_Run None 4 (\<lambda>_ _ a. a \<noteq> ''x'') (\<lambda>d. case d of Client \<Rightarrow> [Datagram [1, 2, 3, 4, 5] ''x''] | Target \<Rightarrow> []) 1 s \<and>
     dx_ended s Client \<and> dx_out s Target = wanted_datagrams None 4 (take k [Datagram [1, 2, 3, 4, 5] ''x'']) \<and> k < 1"
proof -
  let ?h = "Relay_round None 4 (\<lambda>_ _ a. a \<noteq> ''x'')" and ?ins = "\<lambda>d. case d of Client \<Rightarrow> [Datagram [1, 2, 3, 4, 5] ''x''] | Target \<Rightarrow> []"
  let ?s = "the (duplex_round ?h Client (duplex_start ?ins))"
  have "duplex_round ?h Client (duplex_start ?ins) = Some ?s" by (simp add: duplex_round_def duplex_start_def)
  then have "duplex_run ?h (Suc 0) (duplex_start ?ins) ?s" by (blast intro: duplex_run.intros)
  then have run: "Relay_Run None 4 (\<lambda>_ _ a. a \<noteq> ''x'') ?ins 1 ?s" by (simp add: Relay_Run_def)
  moreover have "dx_ended ?s Client" by (simp add: duplex_round_def duplex_start_def Relay_round_def Let_def)
  ultimately show ?thesis
    using udp_relay_faithful [OF run, of Client] by (intro exI [of _ ?s]) auto
qed

end
