(* ===== verification/Shadowsocks.thy ===== *)
theory Shadowsocks
  imports Handler NetRelay
begin

text \<open>
  Shadowsocks (\<open>handler/ss\<close>, \<open>connector/ss\<close>, \<open>internal/util/ss\<close>).  The ciphers and the form of an address in bytes are packages of others:
  a cipher is what it makes of a stream or a packet, and an address is its text.
\<close>

section \<open>Parameters\<close>

text \<open>The bytes of an address, when its text can be parsed; and the address at the start of bytes, with the length of its own.\<close>

record ss_pkg =
  sp_encode :: "string \<Rightarrow> byte list option"
  sp_read :: "byte list \<Rightarrow> (string \<times> nat) option"

definition ss_addressed :: "ss_pkg \<Rightarrow> string \<Rightarrow> byte list \<Rightarrow> bool" where
  "ss_addressed K addr h \<longleftrightarrow> sp_encode K addr = Some h \<and> (\<forall>t. sp_read K (h @ t) = Some (addr, length h))"

text \<open>No cipher without a method or a password; the older package is asked first.\<close>

definition ShadowCipher ::
    "(string \<Rightarrow> string \<Rightarrow> 'c option) \<Rightarrow> (string \<Rightarrow> string \<Rightarrow> string \<Rightarrow> 'e + 'c) \<Rightarrow> string \<Rightarrow> string \<Rightarrow> string \<Rightarrow> 'e + 'c option"
where
  "ShadowCipher NewCipher PickCipher method password key =
     (if method = [] \<or> password = [] then Inr None
      else case NewCipher method password of
        Some c \<Rightarrow> Inr (Some c)
      | None \<Rightarrow> map_sum id Some (PickCipher method key password))"

text \<open>A handler or connector that is set up: with credentials, its cipher; the error of the cipher is that of the set-up.\<close>

definition ss_Init ::
    "(string \<Rightarrow> string \<Rightarrow> 'c option) \<Rightarrow> (string \<Rightarrow> string \<Rightarrow> string \<Rightarrow> 'e + 'c) \<Rightarrow> (string \<times> string) option \<Rightarrow> string \<Rightarrow> 'e + 'c option"
where
  "ss_Init NewCipher PickCipher auth key =
     (case auth of None \<Rightarrow> Inr None | Some (method, password) \<Rightarrow> ShadowCipher NewCipher PickCipher method password key)"

section \<open>Streams\<close>

text \<open>The header waits for the first write, which is told to have written all its bytes, whatever becomes of them.\<close>

definition ShadowConn :: "byte list \<Rightarrow> byte list" where
  "ShadowConn header = header"

definition shadow_Write :: "bool \<Rightarrow> byte list \<Rightarrow> byte list \<Rightarrow> (nat \<times> bool) \<times> byte list \<times> byte list" where
  "shadow_Write ok b wbuf = ((length b, ok), if ok then wbuf @ b else [], [])"

text \<open>What successive writes that succeed send.\<close>

primrec shadow_Writes :: "byte list list \<Rightarrow> byte list \<Rightarrow> byte list" where
  "shadow_Writes [] wbuf = []"
| "shadow_Writes (b # bs) wbuf = (case shadow_Write True b wbuf of (_, out, wbuf) \<Rightarrow> out @ shadow_Writes bs wbuf)"

section \<open>The connector\<close>

datatype ss_special = SsWrite "byte list" bool | SsDrain | SsRelay "byte list" | SsRelayPackets

type_synonym ss_event = "(string, unit, ss_special) event"
type_synonym 'a ss_io = "(unit, ss_event, 'a) io"
type_synonym ss_history = "(unit, ss_event) history"

datatype ss_err = SsTcpOverUdp | SsNetwork | SsAddress | SsIO | SsRead | SsDial | SsType

record ss_connector =
  sn_connectTimeout :: int
  sn_noDelay :: bool

definition ss_timed :: "int \<Rightarrow> 'a ss_io \<Rightarrow> 'a ss_io" where
  "ss_timed timeout m = (if timeout > 0 then do { emit (Deadline True); deferring (emit (Deadline False)) m } else m)"

text \<open>The buffer of the connection: the address, unless it has been written.\<close>

definition ss_Connect ::
    "ss_pkg \<Rightarrow> (ss_history \<Rightarrow> bool) \<Rightarrow> ss_connector \<Rightarrow> bool \<Rightarrow> string \<Rightarrow> string \<Rightarrow> (ss_err + byte list) ss_io"
where
  "ss_Connect K write C packets network address =
     (if \<not> tcp_network network then return (Inl SsNetwork)
      else if packets then return (Inl SsTcpOverUdp)
      else case sp_encode K address of
        None \<Rightarrow> return (Inl SsAddress)
      | Some rawaddr \<Rightarrow> ss_timed (sn_connectTimeout C)
          (if sn_noDelay C then do {
             ok \<leftarrow> ask write (\<lambda>ok. Special (SsWrite rawaddr ok));
             return (if ok then Inr (ShadowConn []) else Inl SsIO)
           }
           else return (Inr (ShadowConn rawaddr))))"

section \<open>The handler\<close>

record ss_handler =
  ss_limiter :: "(string \<Rightarrow> bool) option"
  ss_bypass :: "(string \<Rightarrow> bool) option"
  ss_cipher :: "(byte list \<Rightarrow> byte list) option"
  ss_readTimeout :: int
  ss_hash :: string

record ss_world =
  sw_allow :: "ss_history \<Rightarrow> bool"
  sw_dial :: "ss_history \<Rightarrow> bool"

definition ss_plain :: "ss_handler \<Rightarrow> byte list \<Rightarrow> byte list" where
  "ss_plain H s = (case ss_cipher H of None \<Rightarrow> s | Some decrypt \<Rightarrow> decrypt s)"

definition ss_bypassed :: "ss_handler \<Rightarrow> string \<Rightarrow> bool" where
  "ss_bypassed H addr = (case ss_bypass H of None \<Rightarrow> False | Some contains \<Rightarrow> contains addr)"

text \<open>\<open>s\<close> is what the client sends; an address that cannot be read is followed by all that comes.\<close>

definition ss_Handle :: "ss_pkg \<Rightarrow> ss_world \<Rightarrow> ss_handler \<Rightarrow> string \<Rightarrow> byte list \<Rightarrow> ss_err option ss_io" where
  "ss_Handle K E H remote s = deferring (emit CloseClient) (do {
     ok \<leftarrow> checkRateLimit (ss_limiter H) (sw_allow E) remote;
     if \<not> ok then return None
     else do {
       (if ss_readTimeout H > 0 then emit (Deadline True) else return ());
       case sp_read K (ss_plain H s) of
         None \<Rightarrow> do { emit (ReadRequest None); emit (Special SsDrain); return (Some SsRead) }
       | Some (addr, n) \<Rightarrow> do {
           emit (ReadRequest (Some addr));
           if ss_bypassed H addr then return None
           else do {
             ok \<leftarrow> ask (sw_dial E) (Dial (if ss_hash H = ''host'' then Some addr else None) ''tcp'' addr);
             if \<not> ok then return (Some SsDial)
             else deferring (emit CloseUp) (do { emit (Special (SsRelay (drop n (ss_plain H s)))); return None })
           }
         }
     }
   })"

section \<open>Datagrams\<close>

text \<open>
  A packet holds the address and the data.  \<open>resolve\<close> is \<open>net.ResolveUDPAddr\<close>; a packet of the inner connection is cut to the buffer.
\<close>

definition ss_udp_ReadFrom ::
    "ss_pkg \<Rightarrow> (string \<Rightarrow> string option) \<Rightarrow> nat \<Rightarrow> nat \<Rightarrow> byte list \<Rightarrow> (byte list \<times> string) option"
where
  "ss_udp_ReadFrom K resolve bufferSize cap packet =
     (let rbuf = take bufferSize packet
      in case sp_read K rbuf of
        None \<Rightarrow> None
      | Some (addr, n) \<Rightarrow> map_option (Pair (take cap (drop n rbuf))) (resolve addr))"

text \<open>The number of bytes and the packet; \<open>Encode\<close> fails when the buffer is too short.\<close>

definition ss_udp_WriteTo :: "ss_pkg \<Rightarrow> nat \<Rightarrow> byte list \<Rightarrow> string \<Rightarrow> (nat \<times> byte list) option" where
  "ss_udp_WriteTo K bufferSize b addr =
     (case sp_encode K addr of
        None \<Rightarrow> None
      | Some h \<Rightarrow>
          if length h > bufferSize then None
          else let d = take (bufferSize - length h) b in Some (length d, h @ d))"

definition ssu_bufferSize :: "int \<Rightarrow> nat" where
  "ssu_bufferSize bs = (if bs > 0 then nat (min (max bs 512) (64 * 1024)) else 4096)"

text \<open>The relay of the handler is that of \<open>internal/net/udp\<close>.\<close>

definition ssu_relayPacket ::
    "(string \<Rightarrow> bool) option \<Rightarrow> int \<Rightarrow> (side \<Rightarrow> byte list \<Rightarrow> string \<Rightarrow> bool) \<Rightarrow> (side \<Rightarrow> udp_read list) \<Rightarrow> nat \<Rightarrow>
     (udp_read, byte list \<times> string, relay_failure) duplex \<Rightarrow> bool"
where
  "ssu_relayPacket bypass bs = Relay_Run bypass (int (ssu_bufferSize bs))"

definition ssu_Handle :: "ss_world \<Rightarrow> ss_handler \<Rightarrow> bool \<Rightarrow> string \<Rightarrow> ss_err option ss_io" where
  "ssu_Handle E H packets remote = deferring (emit CloseClient) (do {
     ok \<leftarrow> checkRateLimit (ss_limiter H) (sw_allow E) remote;
     if \<not> ok then return None
     else do {
       ok \<leftarrow> ask (sw_dial E) (Dial None ''udp'' []);
       if \<not> ok then return (Some SsDial)
       else deferring (emit CloseUp)
         (if \<not> packets then return (Some SsType) else do { emit (Special SsRelayPackets); return None })
     }
   })"

text \<open>A connection for packets holds them with their address; a stream is a tunnel of datagrams.\<close>

datatype ssu_conn = SsuPackets string | SsuTunnel string

definition ssu_Connect :: "(string \<Rightarrow> string \<Rightarrow> string option) \<Rightarrow> int \<Rightarrow> bool \<Rightarrow> string \<Rightarrow> string \<Rightarrow> (ss_err + ssu_conn) ss_io" where
  "ssu_Connect resolve timeout packets network address =
     (if \<not> udp_network network then return (Inl SsNetwork)
      else ss_timed timeout (do {
        let taddr = (case resolve network address of None \<Rightarrow> '':0'' | Some a \<Rightarrow> a);
        return (Inr (if packets then SsuPackets taddr else SsuTunnel taddr))
      }))"

section \<open>A connection from end to end\<close>

lemma shadow_Writes_sends: "bs \<noteq> [] \<Longrightarrow> shadow_Writes bs wbuf = wbuf @ concat bs"
proof (induction bs arbitrary: wbuf)
  case (Cons b bs)
  then show ?case by (cases bs) (simp_all add: shadow_Write_def)
qed simp

text \<open>What a connector has sent on its own.\<close>

definition ss_sent :: "ss_event list \<Rightarrow> byte list" where
  "ss_sent es = concat (map (\<lambda>e. case e of Special (SsWrite b True) \<Rightarrow> b | _ \<Rightarrow> []) es)"

text \<open>
  C34.  A connection through Shadowsocks leads where it was asked to.  The connector is asked for an address, and the client writes; from the
  bytes that are sent, deciphered, the handler reads that address, dials it, if the bypass does not contain it, and relays
  exactly what the client has written.  The deadline for the request is still set while it does.
\<close>

theorem ss_connection_served:
  assumes "ss_addressed K addr h" "tcp_network network"
    and "io_result (ss_Connect K write C False network addr) () = Inr wbuf"
    and "bs \<noteq> []" "ss_plain H s = ss_sent (io_trace (ss_Connect K write C False network addr) ()) @ shadow_Writes bs wbuf"
    and "ss_limiter H = None" "\<not> ss_bypassed H addr" "\<And>es. sw_dial E ((), es)"
  shows "io_trace (ss_Handle K E H remote s) () =
    (if ss_readTimeout H > 0 then [Deadline True] else []) @
    [ReadRequest (Some addr), Dial (if ss_hash H = ''host'' then Some addr else None) ''tcp'' addr True,
     Special (SsRelay (concat bs)), CloseUp, CloseClient]"
proof -
  have "ss_plain H s = h @ concat bs"
    using assms(1-5)
    by (auto simp: ss_addressed_def ss_Connect_def ss_timed_def io_result_def io_trace_def ask_def emit_def deferring_def
        Let_def ShadowConn_def ss_sent_def shadow_Writes_sends split: if_splits)
  then have "wp (ss_Handle K E H remote s) (\<lambda>_ h. snd h =
      (if ss_readTimeout H > 0 then [Deadline True] else []) @
      [ReadRequest (Some addr), Dial (if ss_hash H = ''host'' then Some addr else None) ''tcp'' addr True,
       Special (SsRelay (concat bs)), CloseUp, CloseClient]) ((), [])"
    using assms(1,6-8) by (auto simp: ss_Handle_def ss_addressed_def wp_simps checkRateLimit_def Let_def)
  then show ?thesis by (rule io_trace_wp)
qed

text \<open>A datagram that fits arrives, with its address.\<close>

lemma ss_udp_roundtrip:
  assumes "ss_addressed K addr h" "length h + length b \<le> bufferSize" "resolve addr = Some a" "length b \<le> cap"
  shows "\<exists>packet. ss_udp_WriteTo K bufferSize b addr = Some (length b, packet) \<and>
    ss_udp_ReadFrom K resolve bufferSize cap packet = Some (b, a)"
  using assms by (auto simp: ss_udp_WriteTo_def ss_udp_ReadFrom_def ss_addressed_def Let_def)

text \<open>Credentials without a password leave the connection in clear text.\<close>

lemma ss_no_password_no_cipher: "ss_Init NewCipher PickCipher (Some (method, [])) key = Inr None"
  by (simp add: ss_Init_def ShadowCipher_def)

section \<open>An example\<close>

definition demo_ss :: ss_pkg where
  "demo_ss = \<lparr>sp_encode = \<lambda>_. Some [3], sp_read = \<lambda>s. if take 1 s = [3] then Some (''a:80'', 1) else None\<rparr>"

definition demo_ss_handler :: ss_handler where
  "demo_ss_handler = \<lparr>ss_limiter = None, ss_bypass = None, ss_cipher = Some (map (\<lambda>b. b - 1)), ss_readTimeout = 5, ss_hash = []\<rparr>"

theorem ss_connection_served_witness:
  "io_trace (ss_Handle demo_ss \<lparr>sw_allow = \<lambda>_. True, sw_dial = \<lambda>_. True\<rparr> demo_ss_handler ''10.0.0.1:1'' [4, 8, 9]) () =
    [Deadline True, ReadRequest (Some ''a:80''), Dial None ''tcp'' ''a:80'' True, Special (SsRelay [7, 8]), CloseUp, CloseClient]"
proof -
  have "ss_addressed demo_ss ''a:80'' [3]" by (simp add: ss_addressed_def demo_ss_def)
  from ss_connection_served [OF this, of "''tcp''" "\<lambda>_. True" "\<lparr>sn_connectTimeout = 0, sn_noDelay = False\<rparr>" "[3]" "[[7], [8]]"
      demo_ss_handler "[4, 8, 9]" "\<lparr>sw_allow = \<lambda>_. True, sw_dial = \<lambda>_. True\<rparr>" "''10.0.0.1:1''"]
  show ?thesis
    by (simp add: tcp_network_def ss_Connect_def demo_ss_def ss_timed_def io_result_def io_trace_def ShadowConn_def ss_sent_def
        shadow_Write_def ss_plain_def ss_bypassed_def demo_ss_handler_def)
qed

end
