(* ===== verification/Wrappers.thy ===== *)
theory Wrappers
  imports TrafficConn "HOL-Library.Sublist"
begin

text \<open>
  The wrappers of packet connections (\<open>metrics/wrapper\<close>, \<open>admission/wrapper\<close>, \<open>limiter/traffic/wrapper\<close>), which listeners put around
  a socket one over the other.  A connection is a record of its operations on a state; those that a type assertion asks for
  are optional.  An operation that does not return is \<open>None\<close>.
\<close>

section \<open>Connections\<close>

text \<open>What a read gives: the bytes, the sender, and the error; with flags and the length of control data for \<open>ReadMsgUDP\<close>.\<close>

type_synonym packet = "byte list \<times> string \<times> io_error option"
type_synonym ('r, 's) conn_op = "'s \<Rightarrow> ('r \<times> 's) option"

record 's udp_ops =
  uo_ReadFrom :: "nat \<Rightarrow> (packet, 's) conn_op"
  uo_WriteTo :: "byte list \<Rightarrow> string \<Rightarrow> (nat \<times> io_error option, 's) conn_op"
  uo_Read :: "(nat \<Rightarrow> (byte list \<times> io_error option, 's) conn_op) option"
  uo_Write :: "(byte list \<Rightarrow> (nat \<times> io_error option, 's) conn_op) option"
  uo_ReadFromUDP :: "(nat \<Rightarrow> (packet, 's) conn_op) option"
  uo_ReadMsgUDP :: "(nat \<Rightarrow> nat \<Rightarrow> ((nat \<times> int) \<times> packet, 's) conn_op) option"
  uo_WriteToUDP :: "(byte list \<Rightarrow> string \<Rightarrow> (nat \<times> io_error option, 's) conn_op) option"
  uo_WriteMsgUDP :: "(byte list \<Rightarrow> byte list \<Rightarrow> string \<Rightarrow> (nat \<times> nat \<times> io_error option, 's) conn_op) option"
  uo_RemoteAddr :: "string option"
  uo_SetReadBuffer :: "(int \<Rightarrow> (io_error option, 's) conn_op) option"
  uo_SetWriteBuffer :: "(int \<Rightarrow> (io_error option, 's) conn_op) option"
  uo_SetDSCP :: "(int \<Rightarrow> (io_error option, 's) conn_op) option"
  uo_SyscallConn :: "(nat option \<times> io_error option, 's) conn_op option"
  uo_Metadata :: "(string \<rightharpoonup> string) option"

definition unsupported :: "'r \<Rightarrow> ('r, 's) conn_op" where
  "unsupported r s = Some (r, s)"

text \<open>What all wrappers of UDP connections do alike: they pass on what the inner connection has, and fail otherwise, but for \<open>SetDSCP\<close>.\<close>

definition udp_pass :: "(io_error option, 's) conn_op option \<Rightarrow> (io_error option, 's) conn_op" where
  "udp_pass inner = (case inner of Some f \<Rightarrow> f | None \<Rightarrow> unsupported (Some ErrUnsupport))"

definition udp_SetReadBuffer :: "'s udp_ops \<Rightarrow> int \<Rightarrow> (io_error option, 's) conn_op" where
  "udp_SetReadBuffer N n = udp_pass (map_option (\<lambda>f. f n) (uo_SetReadBuffer N))"

definition udp_SetWriteBuffer :: "'s udp_ops \<Rightarrow> int \<Rightarrow> (io_error option, 's) conn_op" where
  "udp_SetWriteBuffer N n = udp_pass (map_option (\<lambda>f. f n) (uo_SetWriteBuffer N))"

definition udp_SetDSCP :: "'s udp_ops \<Rightarrow> int \<Rightarrow> (io_error option, 's) conn_op" where
  "udp_SetDSCP N n = (case uo_SetDSCP N of Some f \<Rightarrow> f n | None \<Rightarrow> unsupported None)"

definition udp_SyscallConn :: "'s udp_ops \<Rightarrow> (nat option \<times> io_error option, 's) conn_op" where
  "udp_SyscallConn N = (case uo_SyscallConn N of Some f \<Rightarrow> f | None \<Rightarrow> unsupported (None, Some ErrUnsupport))"

definition udp_Read :: "'s udp_ops \<Rightarrow> nat \<Rightarrow> (byte list \<times> io_error option, 's) conn_op" where
  "udp_Read N cap = (case uo_Read N of Some f \<Rightarrow> f cap | None \<Rightarrow> unsupported ([], Some ErrUnsupport))"

definition udp_Write :: "'s udp_ops \<Rightarrow> byte list \<Rightarrow> (nat \<times> io_error option, 's) conn_op" where
  "udp_Write N b = (case uo_Write N of Some f \<Rightarrow> f b | None \<Rightarrow> unsupported (0, Some ErrUnsupport))"

definition udp_ReadFromUDP :: "'s udp_ops \<Rightarrow> nat \<Rightarrow> (packet, 's) conn_op" where
  "udp_ReadFromUDP N cap = (case uo_ReadFromUDP N of Some f \<Rightarrow> f cap | None \<Rightarrow> unsupported ([], [], Some ErrUnsupport))"

definition udp_ReadMsgUDP :: "'s udp_ops \<Rightarrow> nat \<Rightarrow> nat \<Rightarrow> ((nat \<times> int) \<times> packet, 's) conn_op" where
  "udp_ReadMsgUDP N cap oob =
     (case uo_ReadMsgUDP N of Some f \<Rightarrow> f cap oob | None \<Rightarrow> unsupported ((0, 0), [], [], Some ErrUnsupport))"

definition udp_WriteToUDP :: "'s udp_ops \<Rightarrow> byte list \<Rightarrow> string \<Rightarrow> (nat \<times> io_error option, 's) conn_op" where
  "udp_WriteToUDP N b addr = (case uo_WriteToUDP N of Some f \<Rightarrow> f b addr | None \<Rightarrow> unsupported (0, Some ErrUnsupport))"

definition udp_WriteMsgUDP :: "'s udp_ops \<Rightarrow> byte list \<Rightarrow> byte list \<Rightarrow> string \<Rightarrow> (nat \<times> nat \<times> io_error option, 's) conn_op" where
  "udp_WriteMsgUDP N b oob addr =
     (case uo_WriteMsgUDP N of Some f \<Rightarrow> f b oob addr | None \<Rightarrow> unsupported (0, 0, Some ErrUnsupport))"

section \<open>Metrics\<close>

text \<open>The counters of a service, for the bytes that came in and went out, in the state of the program.\<close>

record 's counters =
  ct_in :: "nat \<Rightarrow> 's \<Rightarrow> 's"
  ct_out :: "nat \<Rightarrow> 's \<Rightarrow> 's"

definition counted :: "(nat \<Rightarrow> 's \<Rightarrow> 's) \<Rightarrow> ('r \<Rightarrow> nat) \<Rightarrow> ('r, 's) conn_op \<Rightarrow> ('r, 's) conn_op" where
  "counted add bytes m s = map_option (\<lambda>(r, s). (r, add (bytes r) s)) (m s)"

definition metrics_ReadFrom :: "'s counters \<Rightarrow> 's udp_ops \<Rightarrow> nat \<Rightarrow> (packet, 's) conn_op" where
  "metrics_ReadFrom C N cap = counted (ct_in C) (\<lambda>r. length (fst r)) (uo_ReadFrom N cap)"

definition metrics_WriteTo :: "'s counters \<Rightarrow> 's udp_ops \<Rightarrow> byte list \<Rightarrow> string \<Rightarrow> (nat \<times> io_error option, 's) conn_op" where
  "metrics_WriteTo C N b addr = counted (ct_out C) fst (uo_WriteTo N b addr)"

text \<open>The rest counts when the inner connection has the operation.\<close>

definition metrics_Read :: "'s counters \<Rightarrow> 's udp_ops \<Rightarrow> nat \<Rightarrow> (byte list \<times> io_error option, 's) conn_op" where
  "metrics_Read C N cap =
     (case uo_Read N of Some f \<Rightarrow> counted (ct_in C) (\<lambda>r. length (fst r)) (f cap) | None \<Rightarrow> unsupported ([], Some ErrUnsupport))"

definition metrics_Write :: "'s counters \<Rightarrow> 's udp_ops \<Rightarrow> byte list \<Rightarrow> (nat \<times> io_error option, 's) conn_op" where
  "metrics_Write C N b =
     (case uo_Write N of Some f \<Rightarrow> counted (ct_out C) fst (f b) | None \<Rightarrow> unsupported (0, Some ErrUnsupport))"

definition metrics_ReadFromUDP :: "'s counters \<Rightarrow> 's udp_ops \<Rightarrow> nat \<Rightarrow> (packet, 's) conn_op" where
  "metrics_ReadFromUDP C N cap =
     (case uo_ReadFromUDP N of
        Some f \<Rightarrow> counted (ct_in C) (\<lambda>r. length (fst r)) (f cap)
      | None \<Rightarrow> unsupported ([], [], Some ErrUnsupport))"

definition metrics_ReadMsgUDP :: "'s counters \<Rightarrow> 's udp_ops \<Rightarrow> nat \<Rightarrow> nat \<Rightarrow> ((nat \<times> int) \<times> packet, 's) conn_op" where
  "metrics_ReadMsgUDP C N cap oob =
     (case uo_ReadMsgUDP N of
        Some f \<Rightarrow> counted (ct_in C) (\<lambda>r. length (fst (snd r))) (f cap oob)
      | None \<Rightarrow> unsupported ((0, 0), [], [], Some ErrUnsupport))"

definition metrics_WriteToUDP :: "'s counters \<Rightarrow> 's udp_ops \<Rightarrow> byte list \<Rightarrow> string \<Rightarrow> (nat \<times> io_error option, 's) conn_op" where
  "metrics_WriteToUDP C N b addr =
     (case uo_WriteToUDP N of Some f \<Rightarrow> counted (ct_out C) fst (f b addr) | None \<Rightarrow> unsupported (0, Some ErrUnsupport))"

definition metrics_WriteMsgUDP :: "'s counters \<Rightarrow> 's udp_ops \<Rightarrow> byte list \<Rightarrow> byte list \<Rightarrow> string \<Rightarrow> (nat \<times> nat \<times> io_error option, 's) conn_op" where
  "metrics_WriteMsgUDP C N b oob addr =
     (case uo_WriteMsgUDP N of
        Some f \<Rightarrow> counted (ct_out C) fst (f b oob addr)
      | None \<Rightarrow> unsupported (0, 0, Some ErrUnsupport))"

definition metrics_WrapUDPConn :: "'s counters \<Rightarrow> 's udp_ops \<Rightarrow> 's udp_ops" where
  "metrics_WrapUDPConn C N =
     \<lparr>uo_ReadFrom = metrics_ReadFrom C N, uo_WriteTo = metrics_WriteTo C N, uo_Read = Some (metrics_Read C N),
      uo_Write = Some (metrics_Write C N), uo_ReadFromUDP = Some (metrics_ReadFromUDP C N),
      uo_ReadMsgUDP = Some (metrics_ReadMsgUDP C N), uo_WriteToUDP = Some (metrics_WriteToUDP C N),
      uo_WriteMsgUDP = Some (metrics_WriteMsgUDP C N), uo_RemoteAddr = uo_RemoteAddr N,
      uo_SetReadBuffer = Some (udp_SetReadBuffer N), uo_SetWriteBuffer = Some (udp_SetWriteBuffer N),
      uo_SetDSCP = Some (udp_SetDSCP N), uo_SyscallConn = Some (udp_SyscallConn N), uo_Metadata = uo_Metadata N\<rparr>"

text \<open>A wrapped packet connection has the two operations of packets only.  Without metrics it is left as it is.\<close>

definition packet_ops ::
    "(nat \<Rightarrow> (packet, 's) conn_op) \<Rightarrow> (byte list \<Rightarrow> string \<Rightarrow> (nat \<times> io_error option, 's) conn_op) \<Rightarrow> (string \<rightharpoonup> string) option \<Rightarrow> 's udp_ops"
where
  "packet_ops rd wr meta =
     \<lparr>uo_ReadFrom = rd, uo_WriteTo = wr, uo_Read = None, uo_Write = None, uo_ReadFromUDP = None, uo_ReadMsgUDP = None,
      uo_WriteToUDP = None, uo_WriteMsgUDP = None, uo_RemoteAddr = None, uo_SetReadBuffer = None, uo_SetWriteBuffer = None,
      uo_SetDSCP = None, uo_SyscallConn = None, uo_Metadata = meta\<rparr>"

definition metrics_WrapPacketConn :: "bool \<Rightarrow> 's counters \<Rightarrow> 's udp_ops \<Rightarrow> 's udp_ops" where
  "metrics_WrapPacketConn enabled C N =
     (if enabled then packet_ops (metrics_ReadFrom C N) (metrics_WriteTo C N) (uo_Metadata N) else N)"

text \<open>Streams are wrapped alike; the listener wraps what it accepts.\<close>

record 's stream_ops =
  st_Read :: "nat \<Rightarrow> (byte list \<times> io_error option, 's) conn_op"
  st_Write :: "byte list \<Rightarrow> (nat \<times> io_error option, 's) conn_op"
  st_SyscallConn :: "(nat option \<times> io_error option, 's) conn_op option"
  st_Metadata :: "(string \<rightharpoonup> string) option"

definition metrics_stream_Read :: "'s counters \<Rightarrow> 's stream_ops \<Rightarrow> nat \<Rightarrow> (byte list \<times> io_error option, 's) conn_op" where
  "metrics_stream_Read C N cap = counted (ct_in C) (\<lambda>r. length (fst r)) (st_Read N cap)"

definition metrics_stream_Write :: "'s counters \<Rightarrow> 's stream_ops \<Rightarrow> byte list \<Rightarrow> (nat \<times> io_error option, 's) conn_op" where
  "metrics_stream_Write C N b = counted (ct_out C) fst (st_Write N b)"

definition stream_SyscallConn :: "'s stream_ops \<Rightarrow> (nat option \<times> io_error option, 's) conn_op" where
  "stream_SyscallConn N = (case st_SyscallConn N of Some f \<Rightarrow> f | None \<Rightarrow> unsupported (None, Some ErrUnsupport))"

definition metrics_WrapConn :: "bool \<Rightarrow> 's counters \<Rightarrow> 's stream_ops \<Rightarrow> 's stream_ops" where
  "metrics_WrapConn enabled C N =
     (if enabled
      then \<lparr>st_Read = metrics_stream_Read C N, st_Write = metrics_stream_Write C N, st_SyscallConn = Some (stream_SyscallConn N),
             st_Metadata = st_Metadata N\<rparr>
      else N)"

definition metrics_Accept :: "bool \<Rightarrow> 's counters \<Rightarrow> io_error + 's stream_ops \<Rightarrow> io_error + 's stream_ops" where
  "metrics_Accept enabled C = map_sum id (metrics_WrapConn enabled C)"

section \<open>Admission\<close>

text \<open>The loop that reads until the packet passes, or there is an error; a check may change the state.\<close>

partial_function (option) read_until ::
    "('r, 's) conn_op \<Rightarrow> ('r \<Rightarrow> 's \<Rightarrow> bool \<times> 's) \<Rightarrow> ('r, 's) conn_op"
where
  "read_until rd check s =
     Option.bind (rd s) (\<lambda>rs.
       if fst (check (fst rs) (snd rs)) then Some (fst rs, snd (check (fst rs) (snd rs)))
       else read_until rd check (snd (check (fst rs) (snd rs))))"

declare read_until.simps [simp del, code]

definition packet_passes :: "(string \<Rightarrow> nat \<Rightarrow> 's \<Rightarrow> bool \<times> 's) \<Rightarrow> packet \<Rightarrow> 's \<Rightarrow> bool \<times> 's" where
  "packet_passes check r s = (case r of (b, addr, err) \<Rightarrow> if err \<noteq> None then (True, s) else check addr (length b) s)"

definition admitted :: "(string \<Rightarrow> bool) option \<Rightarrow> string \<Rightarrow> nat \<Rightarrow> 's \<Rightarrow> bool \<times> 's" where
  "admitted A addr n s = (case A of None \<Rightarrow> True | Some admit \<Rightarrow> admit addr, s)"

definition adm_ReadFrom :: "(string \<Rightarrow> bool) option \<Rightarrow> 's udp_ops \<Rightarrow> nat \<Rightarrow> (packet, 's) conn_op" where
  "adm_ReadFrom A N cap = read_until (uo_ReadFrom N cap) (packet_passes (admitted A))"

definition adm_ReadFromUDP :: "(string \<Rightarrow> bool) option \<Rightarrow> 's udp_ops \<Rightarrow> nat \<Rightarrow> (packet, 's) conn_op" where
  "adm_ReadFromUDP A N cap =
     (case uo_ReadFromUDP N of
        Some f \<Rightarrow> read_until (f cap) (packet_passes (admitted A))
      | None \<Rightarrow> unsupported ([], [], Some ErrUnsupport))"

definition adm_ReadMsgUDP :: "(string \<Rightarrow> bool) option \<Rightarrow> 's udp_ops \<Rightarrow> nat \<Rightarrow> nat \<Rightarrow> ((nat \<times> int) \<times> packet, 's) conn_op" where
  "adm_ReadMsgUDP A N cap oob =
     (case uo_ReadMsgUDP N of
        Some f \<Rightarrow> read_until (f cap oob) (\<lambda>r. packet_passes (admitted A) (snd r))
      | None \<Rightarrow> unsupported ((0, 0), [], [], Some ErrUnsupport))"

definition adm_WrapUDPConn :: "(string \<Rightarrow> bool) option \<Rightarrow> 's udp_ops \<Rightarrow> 's udp_ops" where
  "adm_WrapUDPConn A N =
     \<lparr>uo_ReadFrom = adm_ReadFrom A N, uo_WriteTo = uo_WriteTo N, uo_Read = Some (udp_Read N), uo_Write = Some (udp_Write N),
      uo_ReadFromUDP = Some (adm_ReadFromUDP A N), uo_ReadMsgUDP = Some (adm_ReadMsgUDP A N),
      uo_WriteToUDP = Some (udp_WriteToUDP N), uo_WriteMsgUDP = Some (udp_WriteMsgUDP N), uo_RemoteAddr = uo_RemoteAddr N,
      uo_SetReadBuffer = Some (udp_SetReadBuffer N), uo_SetWriteBuffer = Some (udp_SetWriteBuffer N),
      uo_SetDSCP = Some (udp_SetDSCP N), uo_SyscallConn = Some (udp_SyscallConn N), uo_Metadata = uo_Metadata N\<rparr>"

definition adm_WrapPacketConn :: "(string \<Rightarrow> bool) option \<Rightarrow> 's udp_ops \<Rightarrow> 's udp_ops" where
  "adm_WrapPacketConn A N = (case A of None \<Rightarrow> N | Some _ \<Rightarrow> packet_ops (adm_ReadFrom A N) (uo_WriteTo N) (uo_Metadata N))"

section \<open>Traffic limits\<close>

text \<open>
  The limiters as checks on the state: whether so many bytes from or to the address are granted whole.  \<open>traffic_granted\<close> is
  the check that the limiter of \<open>Traffic\<close> makes, with the cache of the wrapper.
\<close>

record 's traffic_checks =
  tl_in :: "string \<Rightarrow> nat \<Rightarrow> 's \<Rightarrow> bool \<times> 's"
  tl_out :: "string \<Rightarrow> nat \<Rightarrow> 's \<Rightarrow> bool \<times> 's"

definition traffic_udp_getLimiter ::
    "('c, nat list option) cache_ops \<Rightarrow> (string \<Rightarrow> 'w \<Rightarrow> nat list option \<times> 'w) \<Rightarrow> int \<Rightarrow> string \<Rightarrow>
     'c \<times> 'w \<Rightarrow> nat list option \<times> 'c \<times> 'w"
where
  "traffic_udp_getLimiter = traffic_packet_getLimiter"

definition traffic_granted ::
    "('c, nat list option) cache_ops \<Rightarrow> 'l rate_ops \<Rightarrow> (string \<Rightarrow> 'w \<Rightarrow> nat list option \<times> 'w) \<Rightarrow> int \<Rightarrow>
     string \<Rightarrow> nat \<Rightarrow> ('c \<times> 'w) \<times> 'l list \<Rightarrow> bool \<times> ('c \<times> 'w) \<times> 'l list"
where
  "traffic_granted C B look now addr n st =
     (case st of (cw, h) \<Rightarrow>
       case traffic_udp_getLimiter C look now addr cw of
         (None, cw') \<Rightarrow> (True, cw', h)
       | (Some g, cw') \<Rightarrow> (case traffic_group_Wait B g (int n) h of (v, h') \<Rightarrow> (\<not> v < int n, cw', h')))"

definition limited :: "'s traffic_checks option \<Rightarrow> ('s traffic_checks \<Rightarrow> string \<Rightarrow> nat \<Rightarrow> 's \<Rightarrow> bool \<times> 's) \<Rightarrow> string \<Rightarrow> nat \<Rightarrow> 's \<Rightarrow> bool \<times> 's" where
  "limited L side addr n s = (case L of None \<Rightarrow> (True, s) | Some l \<Rightarrow> side l addr n s)"

definition tl_ReadFrom :: "'s traffic_checks option \<Rightarrow> 's udp_ops \<Rightarrow> nat \<Rightarrow> (packet, 's) conn_op" where
  "tl_ReadFrom L N cap = read_until (uo_ReadFrom N cap) (packet_passes (limited L tl_in))"

definition tl_ReadFromUDP :: "'s traffic_checks option \<Rightarrow> 's udp_ops \<Rightarrow> nat \<Rightarrow> (packet, 's) conn_op" where
  "tl_ReadFromUDP L N cap =
     (case uo_ReadFromUDP N of
        Some f \<Rightarrow> read_until (f cap) (packet_passes (limited L tl_in))
      | None \<Rightarrow> unsupported ([], [], Some ErrUnsupport))"

definition tl_ReadMsgUDP :: "'s traffic_checks option \<Rightarrow> 's udp_ops \<Rightarrow> nat \<Rightarrow> nat \<Rightarrow> ((nat \<times> int) \<times> packet, 's) conn_op" where
  "tl_ReadMsgUDP L N cap oob =
     (case uo_ReadMsgUDP N of
        Some f \<Rightarrow> read_until (f cap oob) (\<lambda>r. packet_passes (limited L tl_in) (snd r))
      | None \<Rightarrow> unsupported ((0, 0), [], [], Some ErrUnsupport))"

text \<open>A write that is not granted whole is dropped and reported as done.\<close>

definition tl_write :: "'s traffic_checks option \<Rightarrow> string \<Rightarrow> nat \<Rightarrow> 'r \<Rightarrow> ('r, 's) conn_op \<Rightarrow> ('r, 's) conn_op" where
  "tl_write L addr n dropped wr s = (case limited L tl_out addr n s of (ok, s) \<Rightarrow> if ok then wr s else Some (dropped, s))"

definition tl_WriteTo :: "'s traffic_checks option \<Rightarrow> 's udp_ops \<Rightarrow> byte list \<Rightarrow> string \<Rightarrow> (nat \<times> io_error option, 's) conn_op" where
  "tl_WriteTo L N b addr = tl_write L addr (length b) (length b, None) (uo_WriteTo N b addr)"

definition tl_WriteToUDP :: "'s traffic_checks option \<Rightarrow> 's udp_ops \<Rightarrow> byte list \<Rightarrow> string \<Rightarrow> (nat \<times> io_error option, 's) conn_op" where
  "tl_WriteToUDP L N b addr = tl_write L addr (length b) (length b, None) (udp_WriteToUDP N b addr)"

definition tl_WriteMsgUDP :: "'s traffic_checks option \<Rightarrow> 's udp_ops \<Rightarrow> byte list \<Rightarrow> byte list \<Rightarrow> string \<Rightarrow> (nat \<times> nat \<times> io_error option, 's) conn_op" where
  "tl_WriteMsgUDP L N b oob addr = tl_write L addr (length b) (length b, 0, None) (udp_WriteMsgUDP N b oob addr)"

definition tl_WrapUDPConn :: "'s traffic_checks option \<Rightarrow> 's udp_ops \<Rightarrow> 's udp_ops" where
  "tl_WrapUDPConn L N =
     \<lparr>uo_ReadFrom = tl_ReadFrom L N, uo_WriteTo = tl_WriteTo L N, uo_Read = Some (udp_Read N), uo_Write = Some (udp_Write N),
      uo_ReadFromUDP = Some (tl_ReadFromUDP L N), uo_ReadMsgUDP = Some (tl_ReadMsgUDP L N),
      uo_WriteToUDP = Some (tl_WriteToUDP L N), uo_WriteMsgUDP = Some (tl_WriteMsgUDP L N), uo_RemoteAddr = uo_RemoteAddr N,
      uo_SetReadBuffer = Some (udp_SetReadBuffer N), uo_SetWriteBuffer = Some (udp_SetWriteBuffer N),
      uo_SetDSCP = Some (udp_SetDSCP N), uo_SyscallConn = Some (udp_SyscallConn N), uo_Metadata = uo_Metadata N\<rparr>"

definition tl_WrapPacketConn :: "'s traffic_checks option \<Rightarrow> 's udp_ops \<Rightarrow> 's udp_ops" where
  "tl_WrapPacketConn L N = (case L of None \<Rightarrow> N | Some _ \<Rightarrow> packet_ops (tl_ReadFrom L N) (tl_WriteTo L N) (uo_Metadata N))"

text \<open>The socket of a listener, as the listeners of UDP and of KCP wrap it.\<close>

definition listener_conn :: "bool \<Rightarrow> 's counters \<Rightarrow> (string \<Rightarrow> bool) option \<Rightarrow> 's traffic_checks option \<Rightarrow> 's udp_ops \<Rightarrow> 's udp_ops" where
  "listener_conn enabled C A L N = tl_WrapPacketConn L (adm_WrapPacketConn A (metrics_WrapPacketConn enabled C N))"

definition listener_udp_conn :: "'s counters \<Rightarrow> (string \<Rightarrow> bool) option \<Rightarrow> 's traffic_checks option \<Rightarrow> 's udp_ops \<Rightarrow> 's udp_ops" where
  "listener_udp_conn C A L N = tl_WrapUDPConn L (adm_WrapUDPConn A (metrics_WrapUDPConn C N))"

section \<open>A socket and its calls\<close>

text \<open>
  The socket with what is to come, what it has given and sent, the counters, and the state of the limiters.  A read cuts a
  datagram to its buffer and does not return when nothing is to come.
\<close>

record 'l sock_world =
  sk_queue :: "datagram list"
  sk_given :: "(byte list \<times> string) list"
  sk_sent :: "(byte list \<times> string) list"
  sk_in :: nat
  sk_out :: nat
  sk_limits :: 'l

definition sock_read :: "nat \<Rightarrow> (packet, 'l sock_world) conn_op" where
  "sock_read cap s =
     (case sk_queue s of
        [] \<Rightarrow> None
      | Inl e # ds \<Rightarrow> Some (([], [], Some e), s\<lparr>sk_queue := ds\<rparr>)
      | Inr (b, addr) # ds \<Rightarrow>
          Some ((take cap b, addr, None), s\<lparr>sk_queue := ds, sk_given := sk_given s @ [(take cap b, addr)]\<rparr>))"

definition sock_write :: "byte list \<Rightarrow> string \<Rightarrow> (nat \<times> io_error option, 'l sock_world) conn_op" where
  "sock_write b addr s = Some ((length b, None), s\<lparr>sk_sent := sk_sent s @ [(b, addr)]\<rparr>)"

definition sock_conn :: "string \<Rightarrow> 'l sock_world udp_ops" where
  "sock_conn peer =
     \<lparr>uo_ReadFrom = sock_read, uo_WriteTo = sock_write,
      uo_Read = Some (\<lambda>cap s. map_option (\<lambda>((b, _, err), s). ((b, err), s)) (sock_read cap s)),
      uo_Write = Some (\<lambda>b. sock_write b peer), uo_ReadFromUDP = Some sock_read,
      uo_ReadMsgUDP = Some (\<lambda>cap oob s. map_option (\<lambda>(r, s). (((0, 0), r), s)) (sock_read cap s)),
      uo_WriteToUDP = Some sock_write,
      uo_WriteMsgUDP = Some (\<lambda>b oob addr s. map_option (\<lambda>((n, err), s). ((n, length oob, err), s)) (sock_write b addr s)),
      uo_RemoteAddr = None, uo_SetReadBuffer = Some (\<lambda>_. unsupported None), uo_SetWriteBuffer = Some (\<lambda>_. unsupported None),
      uo_SetDSCP = None, uo_SyscallConn = None, uo_Metadata = None\<rparr>"

definition sock_counters :: "'l sock_world counters" where
  "sock_counters = \<lparr>ct_in = \<lambda>n s. s\<lparr>sk_in := sk_in s + n\<rparr>, ct_out = \<lambda>n s. s\<lparr>sk_out := sk_out s + n\<rparr>\<rparr>"







section \<open>What passes, and what is counted\<close>



















lemmas listener_udp_defs =
  listener_udp_conn_def tl_WrapUDPConn_def adm_WrapUDPConn_def metrics_WrapUDPConn_def sock_conn_def tl_ReadFrom_def tl_ReadFromUDP_def
  tl_ReadMsgUDP_def adm_ReadFrom_def adm_ReadFromUDP_def adm_ReadMsgUDP_def metrics_ReadFrom_def metrics_ReadFromUDP_def
  metrics_ReadMsgUDP_def udp_ReadFromUDP_def udp_ReadMsgUDP_def







text \<open>A read returns the first packet that is admitted, when there is no limiter, and the bytes before it are counted.\<close>

lemma wrapped_read_returns:
  assumes "\<forall>d\<in>set refused. \<not> admit (snd d)" "admit addr" "sk_queue s = map Inr refused @ Inr (b, addr) # rest"
  shows "\<exists>s'. uo_ReadFrom (listener_udp_conn sock_counters (Some admit) None (sock_conn peer)) cap s = Some ((take cap b, addr, None), s') \<and>
    sk_queue s' = rest"
proof -
  let ?rd = "counted (ct_in sock_counters) (\<lambda>r. length (fst r)) (sock_read cap) :: (packet, 'a sock_world) conn_op"
  have "\<exists>s'. read_until ?rd (packet_passes (admitted (Some admit))) s = Some ((take cap b, addr, None), s') \<and> sk_queue s' = rest"
    using assms(1,3)
  proof (induction refused arbitrary: s)
    case Nil
    then show ?case
      using assms(2) by (subst read_until.simps) (simp add: counted_def sock_read_def sock_counters_def packet_passes_def admitted_def)
  next
    case (Cons d refused)
    let ?s = "s\<lparr>sk_queue := map Inr refused @ Inr (b, addr) # rest, sk_given := sk_given s @ [(take cap (fst d), snd d)],
      sk_in := sk_in s + length (take cap (fst d))\<rparr>"
    have "?rd s = Some ((take cap (fst d), snd d, None), ?s)"
      using Cons.prems(2) by (cases d) (simp add: counted_def sock_read_def sock_counters_def)
    moreover have "\<exists>s'. read_until ?rd (packet_passes (admitted (Some admit))) ?s = Some ((take cap b, addr, None), s') \<and> sk_queue s' = rest"
      by (rule Cons.IH) (use Cons.prems in simp_all)
    ultimately show ?case
      using Cons.prems(1) by (subst read_until.simps) (simp add: packet_passes_def admitted_def)
  qed
  then show ?thesis
    by (subst listener_udp_defs, simp add: listener_udp_defs, subst read_until.simps)
      (auto simp: packet_passes_def limited_def)
qed

section \<open>An example\<close>




end
