(* ===== verification/RequestListeners.thy ===== *)
theory RequestListeners
  imports Listeners HostCode "HOL-Library.Multiset"
begin

text \<open>
  The listeners whose connections are requests (\<open>listener/http2\<close>, \<open>http3\<close>, \<open>dns\<close>): the goroutine of a request puts a connection into
  the queue of \<open>Listeners\<close> and waits until the handler has closed it; then the request is over.
\<close>

section \<open>Setting up\<close>

text \<open>HTTP/2 is set up as the listeners for streams; HTTP/3 listens by itself, and nothing is put around what it accepts.\<close>

definition http2_Init where "http2_Init listen = ln_Init listen [LnTls] True"

definition http3_Init :: "(string \<Rightarrow> string \<Rightarrow> string option) \<Rightarrow> string \<Rightarrow> int \<Rightarrow> ln_listener option" where
  "http3_Init resolveUDP address backlog =
     (case resolveUDP (if is_IPv4 address then ''udp4'' else ''udp'') address of
        None \<Rightarrow> None
      | Some a \<Rightarrow> Some \<lparr>li_layers = [LnTls], li_addr = Some a, li_backlog = ln_backlog backlog\<rparr>)"

text \<open>The server of the DNS listener by its mode, with the address it tells; \<open>resolve\<close> is that of TCP and UDP addresses.\<close>

datatype dns_server = DnsTCP | DnsTLS | DnsHTTPS | DnsUDP

definition dns_listener_Init :: "(string \<Rightarrow> string \<Rightarrow> string option) \<Rightarrow> string \<Rightarrow> string \<Rightarrow> (dns_server \<times> string) option" where
  "dns_listener_Init resolve mode address =
     (case resolve ''tcp'' address of
        None \<Rightarrow> None
      | Some a \<Rightarrow>
          let m = to_lower mode in
          if m = ''tcp'' then Some (DnsTCP, a)
          else if m = ''tls'' then Some (DnsTLS, a)
          else if m = ''https'' then Some (DnsHTTPS, a)
          else map_option (Pair DnsUDP) (resolve ''udp'' address))"

section \<open>Requests\<close>

text \<open>The queue, the requests that wait, and whether the listener is being closed.\<close>

record rq_state =
  rq_ml :: ml_state
  rq_waiting :: "nat list"
  rq_closing :: bool

definition rq_new :: "int \<Rightarrow> rq_state" where
  "rq_new backlog = \<lparr>rq_ml = ml_new backlog, rq_waiting = [], rq_closing = False\<rparr>"

text \<open>What the queue does, the status of a request that was discarded, the end of a request, and the return of \<open>Close\<close>.\<close>

datatype rq_event = RqMl ml_event | RqStatus nat int | RqEnded nat | RqReturned

text \<open>A request, an \<open>Accept\<close>, the end of a connection by its handler, the end of the server, a call of \<open>Close\<close>, and its return.\<close>

datatype rq_label = RqRequest nat | RqAccept bool | RqDone nat | RqServed "string option" | RqClose "string option" | RqReturn

definition rq_request :: "int list \<Rightarrow> nat \<Rightarrow> rq_state \<Rightarrow> rq_event list \<times> rq_state" where
  "rq_request full k s =
     (let l = rq_ml s in
      if length (ml_queue l) < ml_cap l
      then ([RqMl (MlQueued (k, 0))], s\<lparr>rq_ml := l\<lparr>ml_queue := ml_queue l @ [(k, 0)]\<rparr>, rq_waiting := rq_waiting s @ [k]\<rparr>)
      else (RqMl (MlDiscarded (k, 0)) # map (RqStatus k) full, s))"

definition rq_accept :: "bool \<Rightarrow> rq_state \<Rightarrow> (rq_event list \<times> rq_state) option" where
  "rq_accept pick s = map_option (\<lambda>(e, l). ([RqMl e], s\<lparr>rq_ml := l\<rparr>)) (ml_Accept pick (rq_ml s))"

definition rq_done :: "nat \<Rightarrow> rq_state \<Rightarrow> (rq_event list \<times> rq_state) option" where
  "rq_done k s =
     (if k \<in> set (rq_waiting s) \<and> (k, 0) \<notin> set (ml_queue (rq_ml s))
      then Some ([RqEnded k], s\<lparr>rq_waiting := remove1 k (rq_waiting s)\<rparr>) else None)"

text \<open>
  HTTP/2 and HTTP/3: nothing is written for a request that is discarded, which makes its status 200.  An error of the server is only
  logged; \<open>Close\<close> tells it, and returns.
\<close>

fun http2_step :: "rq_label \<Rightarrow> rq_state \<Rightarrow> (rq_event list \<times> rq_state) option" where
  "http2_step (RqRequest k) s = (if ml_listening (rq_ml s) then Some (rq_request [200] k s) else None)"
| "http2_step (RqAccept pick) s = rq_accept pick s"
| "http2_step (RqDone k) s = rq_done k s"
| "http2_step (RqServed e) s = (if ml_listening (rq_ml s) then Some ([], s\<lparr>rq_ml := h2_served (rq_ml s)\<rparr>) else None)"
| "http2_step (RqClose e) s = Some ([RqReturned], s\<lparr>rq_ml := h2_Close e (rq_ml s), rq_closing := True\<rparr>)"
| "http2_step RqReturn s = None"

definition http3_step :: "rq_label \<Rightarrow> rq_state \<Rightarrow> (rq_event list \<times> rq_state) option" where
  "http3_step = http2_step"

text \<open>
  DNS: an answer of status 500 over HTTP, none otherwise.  A shutdown ends the loop of the server at once; over HTTP it
  returns when no request is under way.
\<close>

fun dns_step :: "bool \<Rightarrow> rq_label \<Rightarrow> rq_state \<Rightarrow> (rq_event list \<times> rq_state) option" where
  "dns_step http (RqRequest k) s =
     (if ml_listening (rq_ml s) then Some (rq_request (if http then [500] else []) k s) else None)"
| "dns_step http (RqAccept pick) s = rq_accept pick s"
| "dns_step http (RqDone k) s = rq_done k s"
| "dns_step http (RqServed e) s = map_option (\<lambda>(_, l). ([], s\<lparr>rq_ml := l\<rparr>)) (ml_failed e (rq_ml s))"
| "dns_step http (RqClose e) s =
     map_option (\<lambda>(_, l). ([], s\<lparr>rq_ml := l, rq_closing := True\<rparr>)) (ml_failed (if http then Some ''http: Server closed'' else e) (rq_ml s))"
| "dns_step http RqReturn s =
     (if rq_closing s \<and> (http \<longrightarrow> rq_waiting s = []) then Some ([RqReturned], s) else None)"

fun rq_run :: "(rq_label \<Rightarrow> rq_state \<Rightarrow> (rq_event list \<times> rq_state) option) \<Rightarrow> rq_label list \<Rightarrow> rq_state \<Rightarrow> (rq_event list \<times> rq_state) option" where
  "rq_run step [] s = Some ([], s)"
| "rq_run step (x # xs) s =
     (case step x s of
        None \<Rightarrow> None
      | Some (es, s) \<Rightarrow> map_option (\<lambda>(es', s). (es @ es', s)) (rq_run step xs s))"

section \<open>DNS over HTTP\<close>

record doh_request =
  dq_method :: string
  dq_dns :: string
  dq_contentType :: string
  dq_body :: "byte list option"

text \<open>
  The status of a request that is refused, or the query.  \<open>unpack\<close> is whether the DNS package can read it; a body that cannot be read is
  \<open>None\<close>.
\<close>

definition dns_ServeHTTP :: "(byte list \<Rightarrow> bool) \<Rightarrow> doh_request \<Rightarrow> int + byte list" where
  "dns_ServeHTTP unpack r =
     (let parsed = (if dq_method r = ''GET'' then
            (case b64_decode False b64_url (dq_dns r) of
               None \<Rightarrow> Inl 400
             | Some b \<Rightarrow> if b = [] then Inl 400 else Inr b)
          else if dq_method r = ''POST'' then
            (if dq_contentType r \<noteq> ''application/dns-message'' then Inl 415
             else case dq_body r of None \<Rightarrow> Inl 500 | Some b \<Rightarrow> Inr b)
          else Inl 405)
      in case parsed of Inl status \<Rightarrow> Inl status | Inr b \<Rightarrow> if unpack b then Inr b else Inl 400)"

text \<open>The connection of a query: what is left to read, what has been written, and whether it is closed.\<close>

record dns_conn =
  dc_r :: "byte list"
  dc_w :: "byte list"
  dc_closed :: bool

datatype dns_conn_err = DcClosedPipe | DcEOF

definition dns_serve :: "byte list \<Rightarrow> dns_conn" where
  "dns_serve msg = \<lparr>dc_r = msg, dc_w = [], dc_closed = False\<rparr>"

definition dns_conn_Read :: "nat \<Rightarrow> dns_conn \<Rightarrow> (dns_conn_err + byte list) \<times> dns_conn" where
  "dns_conn_Read cap c =
     (if dc_closed c then (Inl DcClosedPipe, c)
      else if dc_r c = [] then (Inl DcEOF, c)
      else (Inr (take cap (dc_r c)), c\<lparr>dc_r := drop cap (dc_r c)\<rparr>))"

definition dns_conn_Write :: "byte list \<Rightarrow> dns_conn \<Rightarrow> (dns_conn_err + nat) \<times> dns_conn" where
  "dns_conn_Write b c = (if dc_closed c then (Inl DcClosedPipe, c) else (Inr (length b), c\<lparr>dc_w := dc_w c @ b\<rparr>))"

definition dns_conn_Close :: "dns_conn \<Rightarrow> dns_conn" where
  "dns_conn_Close c = c\<lparr>dc_closed := True\<rparr>"

text \<open>What the client of an exchange over HTTP posts (\<open>resolver/exchanger\<close>).\<close>

definition doh_post :: "byte list \<Rightarrow> doh_request" where
  "doh_post msg = \<lparr>dq_method = ''POST'', dq_dns = [], dq_contentType = ''application/dns-message'', dq_body = Some msg\<rparr>"

definition doh_get :: "byte list \<Rightarrow> doh_request" where
  "doh_get msg = \<lparr>dq_method = ''GET'', dq_dns = b64_encode_raw b64_url msg, dq_contentType = [], dq_body = Some []\<rparr>"

section \<open>Every request is accounted for\<close>

definition rq_requested :: "rq_label list \<Rightarrow> nat list" where
  "rq_requested xs = concat (map (\<lambda>x. case x of RqRequest k \<Rightarrow> [k] | _ \<Rightarrow> []) xs)"

definition rq_ended :: "rq_event list \<Rightarrow> nat list" where
  "rq_ended es = concat (map (\<lambda>e. case e of RqEnded k \<Rightarrow> [k] | _ \<Rightarrow> []) es)"

definition rq_statuses :: "rq_event list \<Rightarrow> (nat \<times> int) list" where
  "rq_statuses es = concat (map (\<lambda>e. case e of RqStatus k st \<Rightarrow> [(k, st)] | _ \<Rightarrow> []) es)"

definition rq_mls :: "rq_event list \<Rightarrow> ml_event list" where
  "rq_mls es = concat (map (\<lambda>e. case e of RqMl m \<Rightarrow> [m] | _ \<Rightarrow> []) es)"

definition rq_discarded :: "rq_event list \<Rightarrow> nat list" where
  "rq_discarded es = concat (map (\<lambda>e. case e of MlDiscarded c \<Rightarrow> [fst c] | _ \<Rightarrow> []) (rq_mls es))"

lemmas rq_events = rq_requested_def rq_ended_def rq_statuses_def rq_mls_def rq_discarded_def

text \<open>What a run may do, with the status that a request which is discarded is told.\<close>

definition rq_moves :: "int list \<Rightarrow> rq_label list \<Rightarrow> rq_event list \<Rightarrow> rq_state \<Rightarrow> rq_state \<Rightarrow> bool" where
  "rq_moves full xs es s s' \<longleftrightarrow>
     mset (rq_requested xs) + mset (rq_waiting s) = mset (rq_discarded es) + mset (rq_ended es) + mset (rq_waiting s') \<and>
     rq_statuses es = concat (map (\<lambda>k. map (Pair k) full) (rq_discarded es)) \<and>
     ml_moves (rq_mls es) (rq_ml s) (rq_ml s')"

lemma rq_events_append [simp]:
  "rq_requested (xs @ ys) = rq_requested xs @ rq_requested ys" "rq_ended (es @ es') = rq_ended es @ rq_ended es'"
  "rq_statuses (es @ es') = rq_statuses es @ rq_statuses es'" "rq_mls (es @ es') = rq_mls es @ rq_mls es'"
  "rq_discarded (es @ es') = rq_discarded es @ rq_discarded es'"
  by (simp_all add: rq_events)

lemma concat_map_empty [simp]: "concat (map (\<lambda>x. []) xs) = []"
  by (induction xs) simp_all

lemma rq_moves_trans:
  assumes "rq_moves full xs es s s'" "rq_moves full ys es' s' s''"
  shows "rq_moves full (xs @ ys) (es @ es') s s''"
proof -
  have "mset (rq_requested (xs @ ys)) + mset (rq_waiting s) =
      mset (rq_requested ys) + (mset (rq_requested xs) + mset (rq_waiting s))"
    by (simp add: ac_simps)
  also have "\<dots> = mset (rq_discarded es) + mset (rq_ended es) + (mset (rq_requested ys) + mset (rq_waiting s'))"
    using assms(1) by (simp add: rq_moves_def ac_simps)
  also have "\<dots> = mset (rq_discarded (es @ es')) + mset (rq_ended (es @ es')) + mset (rq_waiting s'')"
    using assms(2) by (simp add: rq_moves_def ac_simps)
  finally show ?thesis
    using assms ml_moves_trans [of "rq_mls es" "rq_ml s" "rq_ml s'" "rq_mls es'" "rq_ml s''"] by (simp add: rq_moves_def)
qed

lemma rq_request_moves: "rq_request full k s = (es, s') \<Longrightarrow> rq_moves full [RqRequest k] es s s'"
  by (auto simp: rq_request_def rq_moves_def rq_events ml_moves_def ml_events Let_def comp_def split: if_splits)

lemma ml_Accept_discards: "ml_Accept pick l \<noteq> Some (MlDiscarded c, l')"
  by (auto simp: ml_Accept_def ml_from_queue_def ml_from_err_def split: option.splits list.splits if_splits)

lemma rq_accept_moves: "rq_accept pick s = Some (es, s') \<Longrightarrow> rq_moves full [RqAccept pick] es s s'"
  using ml_accept_moves [of pick "rq_ml s"]
  by (auto simp: rq_accept_def rq_moves_def rq_events ml_accept_step_def ml_Accept_discards split: ml_event.split)

lemma rq_done_moves: "rq_done k s = Some (es, s') \<Longrightarrow> rq_moves full [RqDone k] es s s'"
  by (auto simp: rq_done_def rq_moves_def rq_events ml_moves_def ml_events split: if_splits)

lemma rq_quiet_moves:
  assumes "ml_moves [] (rq_ml s) l" "x = RqServed e \<or> x = RqClose e" "es = [] \<or> es = [RqReturned]"
  shows "rq_moves full [x] es s (s\<lparr>rq_ml := l\<rparr>)" "rq_moves full [x] es s (s\<lparr>rq_ml := l, rq_closing := True\<rparr>)"
  using assms by (auto simp: rq_moves_def rq_events)

text \<open>An error that goes into the channel is no event.\<close>

lemma ml_failed_quiet: "ml_failed e l = Some (es, l') \<Longrightarrow> ml_moves [] l l'"
  by (auto simp: ml_failed_def ml_moves_def ml_events split: if_splits)

locale request_listener =
  fixes step :: "rq_label \<Rightarrow> rq_state \<Rightarrow> (rq_event list \<times> rq_state) option" and full :: "int list"
  assumes step_moves: "step x s = Some (es, s') \<Longrightarrow> rq_moves full [x] es s s'"
begin

lemma run_moves: "rq_run step xs s = Some (es, s') \<Longrightarrow> rq_moves full xs es s s'"
proof (induction xs arbitrary: s es)
  case Nil
  then show ?case by (simp add: rq_moves_def rq_events ml_stays)
next
  case (Cons x xs)
  then obtain es1 s1 es2 where "step x s = Some (es1, s1)" "rq_run step xs s1 = Some (es2, s')" "es = es1 @ es2"
    by (auto split: option.splits)
  with Cons.IH [of s1 es2] step_moves [of x s es1 s1] rq_moves_trans [of full "[x]" es1 s s1 xs es2 s'] show ?case by simp
qed

lemma run_accounted:
  assumes "rq_run step xs (rq_new backlog) = Some (es, s)"
  shows "mset (rq_requested xs) = mset (rq_discarded es) + mset (rq_ended es) + mset (rq_waiting s) \<and>
    rq_statuses es = concat (map (\<lambda>k. map (Pair k) full) (rq_discarded es)) \<and>
    ml_accepted (rq_mls es) @ ml_queue (rq_ml s) = ml_queued (rq_mls es)"
  using run_moves [OF assms] by (simp add: rq_moves_def rq_new_def ml_moves_def ml_new_def)

end

lemma http2_step_moves: "http2_step x s = Some (es, s') \<Longrightarrow> rq_moves [200] [x] es s s'"
  by (cases x) (auto intro: rq_request_moves rq_accept_moves rq_done_moves rq_quiet_moves h2_moves split: if_splits)

lemma dns_step_moves: "dns_step http x s = Some (es, s') \<Longrightarrow> rq_moves (if http then [500] else []) [x] es s s'"
  by (cases x) (auto intro: rq_request_moves rq_accept_moves rq_done_moves rq_quiet_moves ml_failed_quiet
      simp: rq_moves_def [of _ "[RqReturn]"] rq_events ml_stays split: if_splits)

interpretation http2: request_listener http2_step "[200]"
  by unfold_locales (rule http2_step_moves)

interpretation http3: request_listener http3_step "[200]"
  unfolding http3_step_def by unfold_locales (rule http2_step_moves)

interpretation dns: request_listener "dns_step http" "if http then [500] else []" for http
  by unfold_locales (rule dns_step_moves)

text \<open>
  C36.  A request is never lost and never served twice: whatever happens, and in whatever order, the requests that came are those that were
  discarded, those that have ended and those that wait; and they are accepted in the order in which they were queued.  A request that is
  discarded because the queue is full is told 500 by DNS over HTTP, nothing by the other servers of DNS, and 200, as a
  success, by HTTP/2 and HTTP/3.
\<close>

theorem requests_accounted:
  assumes "(step, full) \<in> {(http2_step, [200]), (http3_step, [200]), (dns_step True, [500]), (dns_step False, [])}"
    and "rq_run step xs (rq_new backlog) = Some (es, s)"
  shows "mset (rq_requested xs) = mset (rq_discarded es) + mset (rq_ended es) + mset (rq_waiting s) \<and>
    rq_statuses es = concat (map (\<lambda>k. map (Pair k) full) (rq_discarded es)) \<and>
    ml_accepted (rq_mls es) @ ml_queue (rq_ml s) = ml_queued (rq_mls es)"
  using assms http2.run_accounted http3.run_accounted dns.run_accounted [of True] dns.run_accounted [of False] by auto

section \<open>The end of DNS over HTTP\<close>

lemma dns_step_waiting: "dns_step http x s = Some (es, s') \<Longrightarrow> k \<in> set (rq_waiting s) \<Longrightarrow> x \<noteq> RqDone k \<Longrightarrow> k \<in> set (rq_waiting s')"
  by (cases x) (auto simp: rq_request_def rq_accept_def rq_done_def Let_def split: if_splits)

lemma dns_run_waiting:
  "rq_run (dns_step http) xs s = Some (es, s') \<Longrightarrow> k \<in> set (rq_waiting s) \<Longrightarrow> RqDone k \<notin> set xs \<Longrightarrow> k \<in> set (rq_waiting s')"
proof (induction xs arbitrary: s es)
  case (Cons x xs)
  then show ?case using dns_step_waiting [of http x s] by (auto split: option.splits)
qed simp

lemma rq_run_append:
  "rq_run step (xs @ ys) s =
     (case rq_run step xs s of
        None \<Rightarrow> None
      | Some (es, s1) \<Rightarrow> map_option (\<lambda>(es', s2). (es @ es', s2)) (rq_run step ys s1))"
  by (induction xs arbitrary: s) (auto split: option.split simp: map_option_case)

text \<open>
  C37.  A server of DNS over HTTP that is closed waits for its requests: when \<open>Close\<close> returns, every request has ended or was
  discarded.  But the service stops at the error that \<open>Accept\<close> returns then, even when there is a request in the queue as well; nobody
  closes its connection, and as long as nobody does, \<open>Close\<close> does not return.
\<close>

theorem doh_close_waits:
  "(\<forall>xs backlog es s. rq_run (dns_step True) (xs @ [RqReturn]) (rq_new backlog) = Some (es, s) \<longrightarrow>
      mset (rq_requested xs) = mset (rq_discarded es) + mset (rq_ended es)) \<and>
   rq_run (dns_step True) [RqRequest k, RqClose e, RqAccept True] (rq_new 1) =
     Some ([RqMl (MlQueued (k, 0)), RqMl (MlAcceptError ''http: Server closed'')],
       \<lparr>rq_ml = (ml_new 1)\<lparr>ml_queue := [(k, 0)], ml_errClosed := True, ml_listening := False\<rparr>, rq_waiting = [k], rq_closing = True\<rparr>) \<and>
   (\<forall>ys. RqDone k \<notin> set ys \<longrightarrow>
      rq_run (dns_step True) ([RqRequest k, RqClose e, RqAccept True] @ ys @ [RqReturn]) (rq_new 1) = None)"
proof (intro conjI allI impI)
  show "mset (rq_requested xs) = mset (rq_discarded es) + mset (rq_ended es)"
    if run: "rq_run (dns_step True) (xs @ [RqReturn]) (rq_new backlog) = Some (es, s)" for xs backlog es s
  proof -
    from run have "rq_waiting s = []" by (auto simp: rq_run_append split: option.splits if_splits)
    with dns.run_accounted [OF run] show ?thesis by (simp add: rq_requested_def)
  qed
  let ?s = "\<lparr>rq_ml = (ml_new 1)\<lparr>ml_queue := [(k, 0)], ml_errClosed := True, ml_listening := False\<rparr>, rq_waiting = [k], rq_closing = True\<rparr>"
  show start: "rq_run (dns_step True) [RqRequest k, RqClose e, RqAccept True] (rq_new 1) =
     Some ([RqMl (MlQueued (k, 0)), RqMl (MlAcceptError ''http: Server closed'')], ?s)"
    by (simp add: rq_new_def ml_new_def ln_backlog_def rq_request_def rq_accept_def ml_failed_def ml_Accept_def ml_from_queue_def
        ml_from_err_def)
  show "rq_run (dns_step True) ([RqRequest k, RqClose e, RqAccept True] @ ys @ [RqReturn]) (rq_new 1) = None"
    if "RqDone k \<notin> set ys" for ys
  proof (cases "rq_run (dns_step True) ys ?s")
    case None
    then show ?thesis by (subst rq_run_append) (simp add: start rq_run_append del: rq_run.simps)
  next
    case (Some r)
    then obtain es s where r: "rq_run (dns_step True) ys ?s = Some (es, s)" by (cases r) simp
    from dns_run_waiting [OF this, of k] that have "rq_waiting s \<noteq> []" by auto
    then have "rq_run (dns_step True) [RqReturn] s = None" by simp
    with r show ?thesis by (subst rq_run_append) (simp add: start rq_run_append del: rq_run.simps)
  qed
qed

section \<open>A query over HTTP\<close>

text \<open>
  A query reaches the handler over HTTP as it was sent, posted by the client of this program or in the name of the request: the handler
  reads exactly its bytes, then the end, and what it writes is the answer; after it has closed the connection nothing more.
\<close>

theorem doh_query_served:
  assumes "unpack msg" "msg \<noteq> []" "length msg \<le> cap" "r = doh_post msg \<or> r = doh_get msg"
  shows "dns_ServeHTTP unpack r = Inr msg \<and>
    (case dns_conn_Read cap (dns_serve msg) of (got, c) \<Rightarrow>
       got = Inr msg \<and> fst (dns_conn_Read n c) = Inl DcEOF \<and>
       (case dns_conn_Write answer c of (wrote, c) \<Rightarrow>
          wrote = Inr (length answer) \<and> dc_w c = answer \<and>
          (\<forall>b n. fst (dns_conn_Write b (dns_conn_Close c)) = Inl DcClosedPipe \<and> fst (dns_conn_Read n (dns_conn_Close c)) = Inl DcClosedPipe)))"
  using assms
  by (auto simp: dns_ServeHTTP_def doh_post_def doh_get_def url.decode_encode Let_def dns_conn_Read_def dns_conn_Write_def
      dns_conn_Close_def dns_serve_def)

section \<open>Examples\<close>

lemma demo_http2_requests:
  "rq_run http2_step [RqRequest 1, RqRequest 2, RqAccept False, RqDone 1] (rq_new 1) =
     Some ([RqMl (MlQueued (1, 0)), RqMl (MlDiscarded (2, 0)), RqStatus 2 200, RqMl (MlAccepted (1, 0)), RqEnded 1], rq_new 1)"
  by code_simp

theorem requests_accounted_witness: "ml_accepted (rq_mls [RqMl (MlQueued (1, 0)), RqMl (MlDiscarded (2, 0)), RqStatus 2 200,
    RqMl (MlAccepted (1, 0)), RqEnded 1]) = [(1, 0)]"
  using requests_accounted [OF _ demo_http2_requests, of "[200]"] by (simp add: rq_new_def ml_new_def rq_mls_def ml_queued_def)

theorem doh_close_waits_witness: "rq_run (dns_step True) ([RqRequest 3, RqClose None, RqAccept True] @ [RqAccept False] @ [RqReturn]) (rq_new 1) = None"
  by (rule doh_close_waits [of 3 None, THEN conjunct2, THEN conjunct2, rule_format]) simp

theorem doh_query_served_witness: "dns_ServeHTTP (\<lambda>_. True) (doh_get [1, 2, 3]) = Inr [1, 2, 3]"
  using doh_query_served [of "\<lambda>_. True" "[1, 2, 3]" 9] by auto

end
