(* ===== verification/Service.thy ===== *)
theory Service
  imports GoNet Reload
begin

text \<open>
  A service (\<open>service/service.go\<close>): its hooks, and the loop that accepts connections, backs off
  after temporary errors, records the client, asks the admission and hands the connection to
  the handler.  What it does to the world is a list of events; a handler runs in a goroutine of
  its own, so starting it is the event.
\<close>

section \<open>Options and events\<close>

text \<open>
  A recorder, with whether it is one for client addresses (the names of what is recorded are
  constants of \<open>github.com/go-gost/core\<close>); \<open>None\<close> is no admission.
\<close>

record service_options =
  so_admission :: "(string \<Rightarrow> bool) option"
  so_recorders :: "(bool \<times> nat) list"
  so_preUp :: "string list"
  so_postUp :: "string list"
  so_preDown :: "string list"
  so_postDown :: "string list"

definition service_no_options :: service_options where
  "service_no_options =
     \<lparr>so_admission = None, so_recorders = [], so_preUp = [], so_postUp = [], so_preDown = [], so_postDown = []\<rparr>"

definition service_AdmissionOption :: "(string \<Rightarrow> bool) option \<Rightarrow> service_options \<Rightarrow> service_options" where
  "service_AdmissionOption a opts = opts\<lparr>so_admission := a\<rparr>"

definition service_RecordersOption :: "(bool \<times> nat) list \<Rightarrow> service_options \<Rightarrow> service_options" where
  "service_RecordersOption rs opts = opts\<lparr>so_recorders := rs\<rparr>"

definition service_PreUpOption :: "string list \<Rightarrow> service_options \<Rightarrow> service_options" where
  "service_PreUpOption cmds opts = opts\<lparr>so_preUp := cmds\<rparr>"

definition service_PreDownOption :: "string list \<Rightarrow> service_options \<Rightarrow> service_options" where
  "service_PreDownOption cmds opts = opts\<lparr>so_preDown := cmds\<rparr>"

definition service_PostUpOption :: "string list \<Rightarrow> service_options \<Rightarrow> service_options" where
  "service_PostUpOption cmds opts = opts\<lparr>so_postUp := cmds\<rparr>"

definition service_PostDownOption :: "string list \<Rightarrow> service_options \<Rightarrow> service_options" where
  "service_PostDownOption cmds opts = opts\<lparr>so_postDown := cmds\<rparr>"

text \<open>
  A connection \<open>'k\<close> with its remote address, and what \<open>Accept\<close> returns: an error, which may be
  temporary, or a connection.  \<open>Handle\<close> carries the hash source of the context.
\<close>

datatype ('k, 'e) accepted = AcceptError bool 'e | AcceptConn 'k string

datatype 'k service_event = Exec string | Record nat string | Sleep int | Deny 'k | Handle 'k string
  | CloseHandler | CloseListener

definition service_execCmds :: "string list \<Rightarrow> 'k service_event list" where
  "service_execCmds cmds =
     concat (map (\<lambda>cmd. let cmd = trim_space cmd in if cmd = [] then [] else [Exec cmd]) cmds)"

definition NewService :: "(service_options \<Rightarrow> service_options) list \<Rightarrow> service_options \<times> 'k service_event list" where
  "NewService opts =
     (let options = foldl (\<lambda>acc opt. opt acc) service_no_options opts
      in (options, service_execCmds (so_preUp options)))"

text \<open>\<open>Close\<close>: the handler is closed when it can be.\<close>

definition service_Close :: "service_options \<Rightarrow> bool \<Rightarrow> 'k service_event list" where
  "service_Close options closer =
     service_execCmds (so_preDown options) @ (if closer then [CloseHandler] else []) @ [CloseListener] @
     service_execCmds (so_postDown options)"

section \<open>The accept loop\<close>

text \<open>The delay after one more temporary error, in nanoseconds.\<close>

definition service_delay :: "int \<Rightarrow> int" where
  "service_delay tempDelay =
     (let tempDelay = (if tempDelay = 0 then 1 * second else wrap64 (tempDelay * 2));
          max = 5 * second
      in if tempDelay > max then max else tempDelay)"

text \<open>The recorders are asked in order, up to the first for client addresses.\<close>

fun service_record :: "(bool \<times> nat) list \<Rightarrow> string \<Rightarrow> 'k service_event list" where
  "service_record [] addr = []"
| "service_record ((client, r) # rs) addr =
     (if client
      then [Record r (let h = host_of addr in if h \<noteq> [] then h else addr)]
      else service_record rs addr)"

text \<open>
  The loop over what \<open>Accept\<close> returns, with the current delay: the events, and the error it ends
  with, or \<open>None\<close> when there is no more and it waits.
\<close>

fun service_loop :: "service_options \<Rightarrow> int \<Rightarrow> ('k, 'e) accepted list \<Rightarrow> 'k service_event list \<times> 'e option" where
  "service_loop options tempDelay [] = ([], None)"
| "service_loop options tempDelay (AcceptError temporary e # rs) =
     (if temporary
      then (let tempDelay = service_delay tempDelay
            in case service_loop options tempDelay rs of (evs, r) \<Rightarrow> (Sleep tempDelay # evs, r))
      else ([], Some e))"
| "service_loop options tempDelay (AcceptConn conn addr # rs) =
     (let recorded = service_record (so_recorders options) addr;
          denied = (case so_admission options of None \<Rightarrow> False | Some admit \<Rightarrow> \<not> admit addr);
          ev = (if denied then Deny conn else Handle conn (host_of addr))
      in case service_loop options 0 rs of (evs, r) \<Rightarrow> (recorded @ ev # evs, r))"

definition service_Serve :: "service_options \<Rightarrow> ('k, 'e) accepted list \<Rightarrow> 'k service_event list \<times> 'e option" where
  "service_Serve options rs =
     (case service_loop options 0 rs of (evs, r) \<Rightarrow> (service_execCmds (so_postUp options) @ evs, r))"

section \<open>What is served\<close>

definition going_on :: "('k, 'e) accepted \<Rightarrow> bool" where
  "going_on r = (case r of AcceptError temporary e \<Rightarrow> temporary | AcceptConn k addr \<Rightarrow> True)"

lemma going_on_simps [simp]: "going_on (AcceptError t e) = t" "going_on (AcceptConn k addr)"
  by (simp_all add: going_on_def)

text \<open>What becomes of an accepted connection.\<close>

definition service_dispatch :: "service_options \<Rightarrow> 'k \<times> string \<Rightarrow> 'k service_event" where
  "service_dispatch options c =
     (case so_admission options of
        None \<Rightarrow> Handle (fst c) (host_of (snd c))
      | Some admit \<Rightarrow> if admit (snd c) then Handle (fst c) (host_of (snd c)) else Deny (fst c))"

definition connections :: "('k, 'e) accepted list \<Rightarrow> ('k \<times> string) list" where
  "connections rs = concat (map (\<lambda>r. case r of AcceptConn k addr \<Rightarrow> [(k, addr)] | _ \<Rightarrow> []) rs)"

definition dispatched :: "'k service_event list \<Rightarrow> 'k service_event list" where
  "dispatched evs = filter (\<lambda>e. case e of Deny _ \<Rightarrow> True | Handle _ _ \<Rightarrow> True | _ \<Rightarrow> False) evs"

lemma dispatched_simps [simp]:
  "dispatched [] = []" "dispatched (Deny k # evs) = Deny k # dispatched evs"
  "dispatched (Handle k h # evs) = Handle k h # dispatched evs" "dispatched (Sleep d # evs) = dispatched evs"
  "dispatched (service_record rs addr @ evs) = dispatched evs" "dispatched (service_execCmds cmds @ evs) = dispatched evs"
proof -
  show "dispatched (service_record rs addr @ evs) = dispatched evs"
    by (induction rs addr rule: service_record.induct) (simp_all add: dispatched_def)
  show "dispatched (service_execCmds cmds @ evs) = dispatched evs"
    by (induction cmds) (simp_all add: dispatched_def service_execCmds_def Let_def)
qed (simp_all add: dispatched_def)

lemma connections_simps [simp]:
  "connections [] = []" "connections (AcceptError t e # rs) = connections rs"
  "connections (AcceptConn k addr # rs) = (k, addr) # connections rs"
  by (simp_all add: connections_def)

lemma service_loop_dispatched:
  "dispatched (fst (service_loop options d rs)) =
   map (service_dispatch options) (connections (takeWhile going_on rs))"
proof (induction options d rs rule: service_loop.induct)
  case (2 options d temporary e rs)
  then show ?case by (cases temporary) (auto simp: Let_def split: prod.splits)
next
  case (3 options d conn addr rs)
  then show ?case by (auto simp: service_dispatch_def [of _ "(conn, addr)"] Let_def split_beta split: option.splits)
qed simp

lemma service_loop_result:
  "snd (service_loop options d rs) =
   (case dropWhile going_on rs of AcceptError t e # rs \<Rightarrow> Some e | _ \<Rightarrow> None)"
proof (induction options d rs rule: service_loop.induct)
  case (2 options d temporary e rs)
  then show ?case by (cases temporary) (auto simp: Let_def split: prod.splits)
next
  case (3 options d conn addr rs)
  then show ?case by (auto simp: Let_def split: prod.splits)
qed simp

text \<open>
  C12. A service goes on until \<open>Accept\<close> fails for good: every connection accepted before is, in the
  order of acceptance and once, handed to the handler with its address as hash source when the
  admission admits it, and closed otherwise; \<open>Serve\<close> returns that permanent error and no other.
\<close>

theorem service_serves_until_permanent_error:
  "dispatched (fst (service_Serve options rs)) =
     map (service_dispatch options) (connections (takeWhile going_on rs)) \<and>
   snd (service_Serve options rs) =
     (case dropWhile going_on rs of AcceptError t e # rs \<Rightarrow> Some e | _ \<Rightarrow> None)"
  using service_loop_dispatched [of options 0 rs] service_loop_result [of options 0 rs]
  by (auto simp: service_Serve_def split: prod.splits)

section \<open>Back-off\<close>

text \<open>The delays of successive temporary errors: a second, doubled up to five.\<close>

definition backoff :: "nat \<Rightarrow> int" where
  "backoff i = min (5 * second) (2 ^ i * second)"

lemma backoff_step: "service_delay (backoff i) = backoff (Suc i)"
proof -
  define x where "x = 2 ^ i * second"
  have x: "x > 0" by (simp add: x_def second_def)
  have now: "backoff i = min (5 * second) x" and "next": "backoff (Suc i) = min (5 * second) (2 * x)"
    by (simp_all add: backoff_def x_def)
  have b: "0 < backoff i" "backoff i \<le> 5 * second" using x by (auto simp: now second_def)
  have "wrap64 (backoff i * 2) = backoff i * 2"
    using b by (intro wrap64_id) (auto simp: second_def)
  then show ?thesis
    using b(1) x unfolding "next" now service_delay_def Let_def second_def by (auto simp: min_def)
qed

lemma service_loop_backoff:
  "fst (service_loop options (backoff i) (map (AcceptError True) es @ rs)) =
   map (\<lambda>j. Sleep (backoff (Suc i + j))) [0..<length es] @
   fst (service_loop options (backoff (i + length es)) rs)"
proof (induction es arbitrary: i)
  case (Cons e es)
  show ?case
    using Cons.IH [of "Suc i"]
    by (simp add: backoff_step Let_def map_upt_Suc split_beta del: upt_Suc)
qed simp

text \<open>
  After an accepted connection, successive temporary errors make the service sleep for one, two,
  four and then five seconds each, and then go on.
\<close>

theorem service_backoff_bounded:
  assumes "es \<noteq> []"
  shows "fst (service_loop options 0 (map (AcceptError True) es @ rs)) =
    map (\<lambda>i. Sleep (min (5 * second) (2 ^ i * second))) [0..<length es] @
    fst (service_loop options (min (5 * second) (2 ^ (length es - 1) * second)) rs)"
proof -
  obtain e es' where es: "es = e # es'" using assms by (cases es) auto
  have "service_delay 0 = backoff 0" by (simp add: service_delay_def backoff_def second_def)
  then have "fst (service_loop options 0 (map (AcceptError True) es @ rs)) =
      Sleep (backoff 0) # fst (service_loop options (backoff 0) (map (AcceptError True) es' @ rs))"
    by (simp add: es Let_def split: prod.split)
  also have "\<dots> = Sleep (backoff 0) # map (\<lambda>j. Sleep (backoff (Suc j))) [0..<length es'] @
      fst (service_loop options (backoff (length es')) rs)"
    using service_loop_backoff [of options 0 es' rs] by simp
  also have "Sleep (backoff 0) # map (\<lambda>j. Sleep (backoff (Suc j))) [0..<length es'] =
      map (\<lambda>i. Sleep (backoff i)) [0..<length es]"
    by (simp add: es map_upt_Suc del: upt_Suc)
  moreover have l: "length es' = length es - 1" by (simp add: es)
  ultimately show ?thesis unfolding backoff_def l by simp
qed

theorem service_backoff_bounded_witness:
  "fst (service_loop service_no_options 0 (map (AcceptError True) [1, 2, 3, 4 :: nat] @ [AcceptConn (7 :: nat) ''10.0.0.1:80''])) =
     [Sleep (1 * second), Sleep (2 * second), Sleep (4 * second), Sleep (5 * second), Handle 7 ''10.0.0.1'']"
proof -
  have "host_of ''10.0.0.1:80'' = ''10.0.0.1''" by code_simp
  then show ?thesis
    using service_backoff_bounded [of "[1, 2, 3, 4 :: nat]" service_no_options "[AcceptConn (7 :: nat) ''10.0.0.1:80'']"]
    by (simp add: service_no_options_def upt_rec numeral_eq_Suc second_def)
qed

end
