(* ===== verification/BindListeners.thy ===== *)
theory BindListeners
  imports Listeners Service
begin

text \<open>
  The listeners of remote ports (\<open>listener/rtcp\<close>, \<open>listener/rudp\<close>): \<open>Accept\<close> binds a port through the chain when there is none, and gives it
  up at an error; \<open>Close\<close> may come from another goroutine, between any two of its operations.
\<close>

section \<open>States and steps\<close>

text \<open>Where \<open>Accept\<close> is: outside, in the bind, or in the \<open>Accept\<close> of a listener, by number.\<close>

datatype rl_phase = RlIdle | RlBinding | RlAccepting nat

text \<open>\<open>rl_open\<close> are the ports that are bound at the other end, \<open>rl_fresh\<close> is the number of the next.\<close>

record rl_state =
  rl_closed :: bool
  rl_ln :: "nat option"
  rl_phase :: rl_phase
  rl_open :: "nat list"
  rl_fresh :: nat

definition rl_new :: rl_state where
  "rl_new = \<lparr>rl_closed = False, rl_ln = None, rl_phase = RlIdle, rl_open = [], rl_fresh = 0\<rparr>"

datatype rl_event = RlErrClosed | RlTemporary | RlBound nat | RlUnbound nat | RlAccepted nat

text \<open>A call of \<open>Accept\<close>; the end of the bind; the end of the inner \<open>Accept\<close>, which only an open port can end well; a call of \<open>Close\<close>.\<close>

datatype rl_label = RlCall | RlBind bool | RlConn bool | RlClose

text \<open>The error is temporary for the service (\<open>listener.NewAcceptError\<close>), but not that of a listener which is closed.\<close>

definition rl_call :: "rl_state \<Rightarrow> rl_event list \<times> rl_state" where
  "rl_call s =
     (if rl_closed s then ([RlErrClosed], s)
      else ([], s\<lparr>rl_phase := (case rl_ln s of None \<Rightarrow> RlBinding | Some n \<Rightarrow> RlAccepting n)\<rparr>))"

definition rl_bind :: "bool \<Rightarrow> rl_state \<Rightarrow> rl_event list \<times> rl_state" where
  "rl_bind ok s =
     (if ok
      then let n = rl_fresh s in
        ([RlBound n], s\<lparr>rl_ln := Some n, rl_phase := RlAccepting n, rl_open := n # rl_open s, rl_fresh := Suc n\<rparr>)
      else ([RlTemporary], s\<lparr>rl_phase := RlIdle\<rparr>))"

definition rl_conn :: "bool \<Rightarrow> nat \<Rightarrow> rl_state \<Rightarrow> rl_event list \<times> rl_state" where
  "rl_conn ok n s =
     (if ok then ([RlAccepted n], s\<lparr>rl_phase := RlIdle\<rparr>)
      else ([RlUnbound n, RlTemporary], s\<lparr>rl_ln := None, rl_phase := RlIdle, rl_open := removeAll n (rl_open s)\<rparr>))"

definition rl_Close :: "rl_state \<Rightarrow> rl_event list \<times> rl_state" where
  "rl_Close s =
     (if rl_closed s then ([], s)
      else case rl_ln s of
        None \<Rightarrow> ([], s\<lparr>rl_closed := True\<rparr>)
      | Some n \<Rightarrow> ([RlUnbound n], s\<lparr>rl_closed := True, rl_open := removeAll n (rl_open s)\<rparr>))"

fun rl_step :: "rl_label \<Rightarrow> rl_state \<Rightarrow> (rl_event list \<times> rl_state) option" where
  "rl_step RlCall s = (if rl_phase s = RlIdle then Some (rl_call s) else None)"
| "rl_step (RlBind ok) s = (if rl_phase s = RlBinding then Some (rl_bind ok s) else None)"
| "rl_step (RlConn ok) s =
     (case rl_phase s of
        RlAccepting n \<Rightarrow> if ok \<and> n \<notin> set (rl_open s) then None else Some (rl_conn ok n s)
      | _ \<Rightarrow> None)"
| "rl_step RlClose s = Some (rl_Close s)"

fun rl_run :: "rl_label list \<Rightarrow> rl_state \<Rightarrow> (rl_event list \<times> rl_state) option" where
  "rl_run [] s = Some ([], s)"
| "rl_run (x # xs) s =
     (case rl_step x s of
        None \<Rightarrow> None
      | Some (es, s) \<Rightarrow> map_option (\<lambda>(es', s). (es @ es', s)) (rl_run xs s))"

definition rudp_step :: "rl_label \<Rightarrow> rl_state \<Rightarrow> (rl_event list \<times> rl_state) option" where
  "rudp_step = rl_step"

text \<open>What is put around the bound listener of streams; there is no proxy protocol.\<close>

definition rtcp_layers :: "ln_layer list" where
  "rtcp_layers = [LnMetrics, LnAdmission, LnTraffic, LnConnLimit]"

text \<open>The set-up keeps the address, with nothing bound.\<close>

definition rtcp_Init :: "(string \<Rightarrow> string \<Rightarrow> string option) \<Rightarrow> string \<Rightarrow> (string \<times> rl_state) option" where
  "rtcp_Init resolveTCP address = map_option (\<lambda>a. (a, rl_new)) (resolveTCP (ln_network address) address)"

definition rudp_Init :: "(string \<Rightarrow> string \<Rightarrow> string option) \<Rightarrow> string \<Rightarrow> (string \<times> rl_state) option" where
  "rudp_Init resolveUDP address =
     map_option (\<lambda>a. (a, rl_new)) (resolveUDP (if is_IPv4 address then ''udp4'' else ''udp'') address)"

section \<open>Ports are given back\<close>

text \<open>An open port is that of the listener; when it is closed, only one that was bound afterwards.\<close>

definition rl_inv :: "rl_state \<Rightarrow> bool" where
  "rl_inv s \<longleftrightarrow>
     (rl_open s = [] \<or> (\<exists>n. rl_open s = [n] \<and> rl_ln s = Some n)) \<and>
     (rl_ln s = None \<longrightarrow> rl_open s = []) \<and>
     (rl_phase s = RlBinding \<longrightarrow> rl_ln s = None) \<and>
     (\<forall>n. rl_phase s = RlAccepting n \<longrightarrow> rl_ln s = Some n)"

lemma rl_step_inv: "rl_step x s = Some (es, s') \<Longrightarrow> rl_inv s \<Longrightarrow> rl_inv s'"
  by (cases x)
    (auto simp: rl_inv_def rl_call_def rl_bind_def rl_conn_def rl_Close_def Let_def split: if_splits option.splits rl_phase.splits)

lemma rl_run_inv: "rl_run xs s = Some (es, s') \<Longrightarrow> rl_inv s \<Longrightarrow> rl_inv s'"
  by (induction xs arbitrary: s es) (auto split: option.splits dest: rl_step_inv)

text \<open>A listener that is closed with nothing open and no bind under way stays so.\<close>

definition rl_over :: "rl_state \<Rightarrow> bool" where
  "rl_over s \<longleftrightarrow> rl_closed s \<and> rl_open s = [] \<and> rl_phase s \<noteq> RlBinding"

lemma rl_step_over: "rl_step x s = Some (es, s') \<Longrightarrow> rl_over s \<Longrightarrow> rl_over s'"
  by (cases x)
    (auto simp: rl_over_def rl_call_def rl_bind_def rl_conn_def rl_Close_def split: if_splits option.splits rl_phase.splits)

lemma rl_run_over: "rl_run xs s = Some (es, s') \<Longrightarrow> rl_over s \<Longrightarrow> rl_over s'"
  by (induction xs arbitrary: s es) (auto split: option.splits dest: rl_step_over)

text \<open>A port that was bound after \<open>Close\<close> stays open until the inner \<open>Accept\<close> fails.\<close>

definition rl_stranded :: "nat \<Rightarrow> rl_state \<Rightarrow> bool" where
  "rl_stranded n s \<longleftrightarrow> rl_closed s \<and> rl_open s = [n] \<and> rl_phase s \<noteq> RlBinding"

lemma rl_step_stranded: "rl_step x s = Some (es, s') \<Longrightarrow> rl_stranded n s \<Longrightarrow> x \<noteq> RlConn False \<Longrightarrow> rl_stranded n s'"
  by (cases x)
    (auto simp: rl_stranded_def rl_call_def rl_bind_def rl_conn_def rl_Close_def split: if_splits option.splits rl_phase.splits)

lemma rl_run_stranded: "rl_run xs s = Some (es, s') \<Longrightarrow> rl_stranded n s \<Longrightarrow> RlConn False \<notin> set xs \<Longrightarrow> rl_stranded n s'"
  by (induction xs arbitrary: s es) (auto split: option.splits dest: rl_step_stranded)

text \<open>
  C38.  A listener of a remote port holds one port at most, whatever the goroutines do, and gives it back: after a \<open>Close\<close> that did not come
  during a bind no port is open, then and for ever.  But when \<open>Close\<close> comes during the bind, the port that is bound then stays
  open: no further \<open>Close\<close> closes it, only an error of its own.
\<close>

theorem remote_port_given_back:
  assumes "rl_run xs rl_new = Some (es, s)"
  shows "length (rl_open s) \<le> 1 \<and>
    (rl_phase s \<noteq> RlBinding \<longrightarrow> (\<forall>ys es' s'. rl_run (RlClose # ys) s = Some (es', s') \<longrightarrow> rl_closed s \<or> rl_open s' = [])) \<and>
    (rl_phase s = RlBinding \<longrightarrow>
      (\<forall>ys es' s'. rl_run (RlClose # RlBind True # ys) s = Some (es', s') \<longrightarrow> RlConn False \<notin> set ys \<longrightarrow> rl_open s' = [rl_fresh s]))"
proof (intro conjI impI allI)
  from assms have inv: "rl_inv s" by (rule rl_run_inv) (simp add: rl_inv_def rl_new_def)
  then show "length (rl_open s) \<le> 1" by (auto simp: rl_inv_def)
  show "rl_closed s \<or> rl_open s' = []"
    if "rl_phase s \<noteq> RlBinding" and run: "rl_run (RlClose # ys) s = Some (es', s')" for ys es' s'
  proof (cases "rl_closed s")
    case False
    from run obtain es1 where "rl_run ys (snd (rl_Close s)) = Some (es1, s')" by (auto split: option.splits prod.splits)
    moreover have "rl_over (snd (rl_Close s))"
      using inv that(1) False by (auto simp: rl_inv_def rl_over_def rl_Close_def split: option.splits)
    ultimately show ?thesis using rl_run_over by (auto simp: rl_over_def)
  qed simp
  show "rl_open s' = [rl_fresh s]"
    if "rl_phase s = RlBinding" and run: "rl_run (RlClose # RlBind True # ys) s = Some (es', s')" and ys: "RlConn False \<notin> set ys"
    for ys es' s'
  proof -
    let ?s = "snd (rl_bind True (snd (rl_Close s)))"
    have "rl_ln s = None" "rl_open s = []" using inv that(1) by (auto simp: rl_inv_def)
    then have "rl_stranded (rl_fresh s) ?s"
      by (simp add: rl_stranded_def rl_bind_def rl_Close_def Let_def)
    moreover obtain es1 where "rl_run ys ?s = Some (es1, s')" using run by (auto split: option.splits prod.splits if_splits)
    ultimately show ?thesis using rl_run_stranded [OF _ _ ys] by (auto simp: rl_stranded_def)
  qed
qed

text \<open>What the service sees of the errors: it goes on after those of a bind or of the bound listener, and stops at that of a closed one.\<close>

definition rl_results :: "rl_event list \<Rightarrow> (nat, bool) accepted list" where
  "rl_results es = concat (map (\<lambda>e. case e of
     RlErrClosed \<Rightarrow> [AcceptError False True] | RlTemporary \<Rightarrow> [AcceptError True False] | RlAccepted n \<Rightarrow> [AcceptConn n []] | _ \<Rightarrow> []) es)"

lemma remote_service_goes_on:
  "RlErrClosed \<notin> set es \<Longrightarrow> snd (service_Serve options (rl_results es)) = None"
proof -
  assume "RlErrClosed \<notin> set es"
  then have "\<forall>r\<in>set (rl_results es). going_on r"
    by (auto simp: rl_results_def split: rl_event.splits)
  then show ?thesis
    using service_loop_result [of options 0 "rl_results es"]
    by (auto simp: service_Serve_def split: prod.splits simp flip: dropWhile_eq_Nil_conv)
qed

text \<open>A run in which \<open>Close\<close> comes between two calls.\<close>

lemma demo_rl_run:
  "rl_run [RlCall, RlBind True, RlConn True] rl_new =
     Some ([RlBound 0, RlAccepted 0], \<lparr>rl_closed = False, rl_ln = Some 0, rl_phase = RlIdle, rl_open = [0], rl_fresh = 1\<rparr>)"
  by code_simp

theorem remote_port_given_back_witness:
  "length (rl_open \<lparr>rl_closed = False, rl_ln = Some 0, rl_phase = RlIdle, rl_open = [0], rl_fresh = 1\<rparr>) \<le> 1"
  using remote_port_given_back [OF demo_rl_run] by blast

end
