(* ===== verification/RedirectUdp.thy ===== *)
theory RedirectUdp
  imports Tun Service
begin

text \<open>
  The listener of redirected datagrams (\<open>listener/redirect/udp\<close>, on Linux): each datagram becomes a connection, from a socket that is bound to
  its destination and connected to its sender.  System calls are oracles.
\<close>

section \<open>The destination of a datagram\<close>

datatype sockaddr = Sockaddr4 "byte list" uint16 | Sockaddr6 "byte list" uint16 nat

text \<open>The system calls of a dial; the last two close the descriptor, by itself and with its file.\<close>

datatype redu_call =
    RcSocket nat | RcTransparent | RcReuseAddr | RcReusePort | RcBind sockaddr | RcConnect sockaddr | RcFileConn | RcClose | RcCloseFile

datatype redu_err =
    ReduRead | ReduParse | ReduBadDst | ReduFamily | ReduNoDst | ReduRemoteAddr | ReduLocalAddr | ReduCall redu_call

definition AF_INET :: nat where "AF_INET = 2"
definition AF_INET6 :: nat where "AF_INET6 = 10"

text \<open>
  The control messages of a datagram, each with whether it is the original destination, and its data: the raw address of 16 bytes in
  the order of the host, which is little-endian.  An address of IPv6 is longer: \<open>beyond\<close> is what the memory holds after it.
\<close>

definition redu_address :: "byte list \<Rightarrow> byte list \<Rightarrow> redu_err + udp_addr" where
  "redu_address beyond d =
     (let family = unat (d ! 0) + 256 * unat (d ! 1); port = get16 (drop 2 d) in
      if family = AF_INET then Inr \<lparr>ua_ip = v4_in_v6_prefix @ take 4 (drop 4 d), ua_port = port, ua_zone = []\<rparr>
      else if family = AF_INET6
      then Inr \<lparr>ua_ip = take 8 (drop 8 d) @ take 8 beyond, ua_port = port,
                ua_zone = dec_string (foldr (\<lambda>b n. unat b + 256 * n) (take 4 (drop 8 beyond)) 0)\<rparr>
      else Inl ReduFamily)"

fun redu_dst :: "byte list \<Rightarrow> (bool \<times> byte list) list \<Rightarrow> redu_err + udp_addr" where
  "redu_dst beyond [] = Inl ReduNoDst"
| "redu_dst beyond ((orig, d) # msgs) =
     (if \<not> orig then redu_dst beyond msgs else if length d < 16 then Inl ReduBadDst else redu_address beyond d)"

text \<open>What is received: the bytes, the sender, and the control messages, if they can be parsed; or an error, which may be temporary.\<close>

record redu_datagram =
  rd_bytes :: "byte list"
  rd_from :: udp_addr
  rd_msgs :: "(bool \<times> byte list) list option"

definition redu_readFromUDP :: "byte list \<Rightarrow> nat \<Rightarrow> redu_datagram \<Rightarrow> redu_err + byte list \<times> udp_addr \<times> udp_addr" where
  "redu_readFromUDP beyond bufferSize d =
     (case rd_msgs d of
        None \<Rightarrow> Inl ReduParse
      | Some msgs \<Rightarrow>
          (case redu_dst beyond msgs of
             Inl e \<Rightarrow> Inl e
           | Inr dst \<Rightarrow> Inr (take bufferSize (rd_bytes d), rd_from d, dst)))"

section \<open>The socket\<close>

text \<open>\<open>strconv.ParseUint\<close> of a zone, to 32 bits.\<close>

definition zone_id :: "string \<Rightarrow> nat option" where
  "zone_id zone =
     (if zone = [] then None
      else case parse_uint 0 zone of None \<Rightarrow> None | Some n \<Rightarrow> if n > 2 ^ 32 - 1 then None else Some (nat n))"

definition udpAddrToSocketAddr :: "udp_addr \<Rightarrow> sockaddr option" where
  "udpAddrToSocketAddr a =
     (if ip_to4 (ua_ip a) \<noteq> [] then Some (Sockaddr4 (ip_to4 (ua_ip a)) (ua_port a))
      else map_option (Sockaddr6 (if ip_to16 (ua_ip a) = [] then replicate 16 0 else ip_to16 (ua_ip a)) (ua_port a))
        (zone_id (ua_zone a)))"

text \<open>The second test is for the local address too.\<close>

definition udpAddrFamily :: "string \<Rightarrow> udp_addr \<Rightarrow> udp_addr \<Rightarrow> nat" where
  "udpAddrFamily net laddr raddr =
     (if last net = CHR ''4'' then AF_INET
      else if last net = CHR ''6'' then AF_INET6
      else if ip_to4 (ua_ip laddr) \<noteq> [] \<and> ip_to4 (ua_ip laddr) \<noteq> [] then AF_INET
      else AF_INET6)"

text \<open>Calls up to the first that fails, after which the descriptor is closed.\<close>

fun redu_try :: "(redu_call \<Rightarrow> bool) \<Rightarrow> redu_call list \<Rightarrow> redu_call list \<times> redu_call option" where
  "redu_try ok [] = ([], None)"
| "redu_try ok (c # cs) =
     (if ok c then (case redu_try ok cs of (cs, failed) \<Rightarrow> (c # cs, failed)) else ([c, RcClose], Some c))"

definition redu_dialUDP :: "(redu_call \<Rightarrow> bool) \<Rightarrow> string \<Rightarrow> udp_addr \<Rightarrow> udp_addr \<Rightarrow> redu_call list \<times> redu_err option" where
  "redu_dialUDP ok network laddr raddr =
     (case udpAddrToSocketAddr raddr of
        None \<Rightarrow> ([], Some ReduRemoteAddr)
      | Some remote \<Rightarrow>
          (case udpAddrToSocketAddr laddr of
             None \<Rightarrow> ([], Some ReduLocalAddr)
           | Some local \<Rightarrow>
               let s = RcSocket (udpAddrFamily network laddr raddr) in
               if \<not> ok s then ([s], Some (ReduCall s))
               else (case redu_try ok [RcTransparent, RcReuseAddr, RcReusePort, RcBind local, RcConnect remote] of
                 (cs, Some c) \<Rightarrow> (s # cs, Some (ReduCall c))
               | (cs, None) \<Rightarrow>
                   if ok RcFileConn then (s # cs @ [RcFileConn, RcCloseFile], None)
                   else (s # cs @ [RcFileConn, RcClose, RcCloseFile], Some (ReduCall RcFileConn)))))"

section \<open>The connection\<close>

text \<open>The datagram that has come, and those that come on the socket; \<open>rc_timed\<close> is whether reads have a deadline.\<close>

record redu_conn =
  rc_buf :: "byte list option"
  rc_timed :: bool

text \<open>A read copies the first datagram, once; when it copies nothing it reads from the socket.  \<open>None\<close> while it blocks.\<close>

definition redu_Read :: "nat \<Rightarrow> redu_conn \<times> byte list list \<Rightarrow> (byte list \<times> redu_conn \<times> byte list list) option" where
  "redu_Read cap st =
     (case st of (c, sock) \<Rightarrow>
       let b = (case rc_buf c of None \<Rightarrow> [] | Some buf \<Rightarrow> take cap buf); c = c\<lparr>rc_buf := None\<rparr> in
       if b \<noteq> [] then Some (b, c, sock)
       else case sock of [] \<Rightarrow> None | d # ds \<Rightarrow> Some (take cap d, c, ds))"

fun redu_reads :: "nat list \<Rightarrow> redu_conn \<times> byte list list \<Rightarrow> byte list list" where
  "redu_reads [] st = []"
| "redu_reads (cap # caps) st = (case redu_Read cap st of None \<Rightarrow> [] | Some (b, st) \<Rightarrow> b # redu_reads caps st)"

text \<open>\<open>ttl\<close> and the size of the buffer have their defaults.\<close>

definition redu_ttl :: "int \<Rightarrow> int" where
  "redu_ttl ttl = (if ttl \<le> 0 then 30 * second else ttl)"

definition redu_bufferSize :: "int \<Rightarrow> nat" where
  "redu_bufferSize n = nat (if n \<le> 0 then 4096 else n)"

definition redu_network :: "string \<Rightarrow> string" where
  "redu_network address = (case address of [] \<Rightarrow> ''udp'' | c # _ \<Rightarrow> if c \<noteq> CHR '':'' \<and> c \<noteq> CHR ''['' then ''udp4'' else ''udp'')"

definition redu_accept ::
    "(redu_call \<Rightarrow> bool) \<Rightarrow> byte list \<Rightarrow> string \<Rightarrow> int \<Rightarrow> int \<Rightarrow> redu_datagram \<Rightarrow> redu_call list \<times> (redu_err + redu_conn)"
where
  "redu_accept ok beyond address ttl bufferSize d =
     (case redu_readFromUDP beyond (redu_bufferSize bufferSize) d of
        Inl e \<Rightarrow> ([], Inl e)
      | Inr (b, raddr, dst) \<Rightarrow>
          (case redu_dialUDP ok (redu_network address) dst raddr of
             (calls, Some e) \<Rightarrow> (calls, Inl e)
           | (calls, None) \<Rightarrow> (calls, Inr \<lparr>rc_buf = Some b, rc_timed = redu_ttl ttl > 0\<rparr>)))"

section \<open>Datagrams\<close>

text \<open>Every descriptor is closed, once; but after a failure of the last call twice.\<close>

lemma redu_try_closes:
  "RcClose \<notin> set cs \<Longrightarrow> RcCloseFile \<notin> set cs \<Longrightarrow>
   length (filter (\<lambda>c. c = RcClose \<or> c = RcCloseFile) (fst (redu_try ok cs))) = (if snd (redu_try ok cs) = None then 0 else 1)"
  by (induction cs) (auto split: prod.splits)

lemma redu_try_failed: "snd (redu_try ok cs) = Some c \<Longrightarrow> c \<in> set cs"
  by (induction cs) (auto split: if_splits prod.splits)

lemma redu_dial_closes:
  assumes "redu_dialUDP ok network laddr raddr = (calls, e)" "calls \<noteq> []" "ok (hd calls)"
  shows "length (filter (\<lambda>c. c = RcClose \<or> c = RcCloseFile) calls) = (if e = Some (ReduCall RcFileConn) then 2 else 1)"
proof -
  obtain remote local where addrs: "udpAddrToSocketAddr raddr = Some remote" "udpAddrToSocketAddr laddr = Some local"
    using assms(1,2) by (auto simp: redu_dialUDP_def split: option.splits)
  let ?cs = "[RcTransparent, RcReuseAddr, RcReusePort, RcBind local, RcConnect remote]"
  obtain cs f where t: "redu_try ok ?cs = (cs, f)" by fastforce
  have n: "length (filter (\<lambda>c. c = RcClose \<or> c = RcCloseFile) cs) = (if f = None then 0 else 1)"
    using redu_try_closes [of ?cs ok] by (simp add: t del: redu_try.simps)
  have f: "f \<noteq> Some RcFileConn" using redu_try_failed [of ok ?cs RcFileConn] by (auto simp: t simp del: redu_try.simps)
  from assms addrs show ?thesis
    by (cases f) (use n f in \<open>auto simp: redu_dialUDP_def Let_def t simp del: redu_try.simps split: if_splits\<close>)
qed

text \<open>The datagrams arrive, each cut to the buffer of the read; but the first one only if it is not empty.\<close>

lemma redu_reads_socket: "redu_reads caps (c\<lparr>rc_buf := None\<rparr>, ds) = map2 take caps ds"
proof (induction caps arbitrary: ds)
  case (Cons cap caps)
  then show ?case by (cases ds) (simp_all add: redu_Read_def Let_def)
qed simp

lemma redu_reads_all:
  assumes "\<forall>cap\<in>set caps. cap > 0"
  shows "redu_reads caps (\<lparr>rc_buf = Some b, rc_timed = t\<rparr>, ds) = map2 take caps (if b = [] then ds else b # ds)"
proof (cases caps)
  case (Cons cap caps')
  have "redu_Read cap (\<lparr>rc_buf = Some b, rc_timed = t\<rparr>, ds) =
      (if b \<noteq> [] then Some (take cap b, \<lparr>rc_buf = None, rc_timed = t\<rparr>, ds)
       else case ds of [] \<Rightarrow> None | d # ds \<Rightarrow> Some (take cap d, \<lparr>rc_buf = None, rc_timed = t\<rparr>, ds))"
    using assms Cons by (auto simp: redu_Read_def Let_def split: list.split)
  moreover have "redu_reads caps' (\<lparr>rc_buf = None, rc_timed = t\<rparr>, ds) = map2 take caps' ds" for ds
    using redu_reads_socket [of caps' "\<lparr>rc_buf = Some b, rc_timed = t\<rparr>"] by simp
  ultimately show ?thesis using Cons by (auto split: list.split)
qed simp

section \<open>The service of the listener\<close>

text \<open>What the service gets for a datagram: no error of the listener is temporary.\<close>

definition redu_accepted :: "redu_datagram \<Rightarrow> redu_err + redu_conn \<Rightarrow> (redu_conn, redu_err) accepted" where
  "redu_accepted d r = (case r of Inl e \<Rightarrow> AcceptError False e | Inr c \<Rightarrow> AcceptConn c (ua_string (rd_from d)))"

definition redu_serve ::
    "service_options \<Rightarrow> (redu_call \<Rightarrow> bool) \<Rightarrow> byte list \<Rightarrow> string \<Rightarrow> int \<Rightarrow> int \<Rightarrow> redu_datagram list \<Rightarrow> redu_conn service_event list \<times> redu_err option"
where
  "redu_serve options ok beyond address ttl bufferSize ds =
     service_Serve options (map (\<lambda>d. redu_accepted d (snd (redu_accept ok beyond address ttl bufferSize d))) ds)"

text \<open>A sender with an address of IPv6 whose zone is not a number, as it is when there is none.\<close>

definition redu_unreachable :: "redu_datagram \<Rightarrow> bool" where
  "redu_unreachable d \<longleftrightarrow> ip_to4 (ua_ip (rd_from d)) = [] \<and> zone_id (ua_zone (rd_from d)) = None"

lemma redu_unreachable_fails: "redu_unreachable d \<Longrightarrow> \<exists>e. snd (redu_accept ok beyond address ttl bufferSize d) = Inl e"
  by (auto simp: redu_unreachable_def redu_accept_def redu_readFromUDP_def redu_dialUDP_def udpAddrToSocketAddr_def
      split: option.splits sum.splits prod.splits)

text \<open>
  C39.  The first datagram from which no connection can be made ends the service: it has dispatched the connections of those before, if all
  of them could be made, and returns the error; it never looks at those that follow.  One datagram from an address of IPv6 without a
  numeric zone, which the system never gives to a global address, is enough.
\<close>

theorem redirect_udp_ends_at_failure:
  assumes "\<forall>d\<in>set before. \<not> isl (snd (redu_accept ok beyond address ttl bufferSize d))"
    and "redu_unreachable d \<or> isl (snd (redu_accept ok beyond address ttl bufferSize d))"
  shows "\<exists>e. snd (redu_accept ok beyond address ttl bufferSize d) = Inl e \<and>
    snd (redu_serve options ok beyond address ttl bufferSize (before @ d # later)) = Some e \<and>
    dispatched (fst (redu_serve options ok beyond address ttl bufferSize (before @ d # later))) =
      map (\<lambda>d. service_dispatch options (projr (snd (redu_accept ok beyond address ttl bufferSize d)), ua_string (rd_from d))) before"
proof -
  let ?r = "\<lambda>d. redu_accepted d (snd (redu_accept ok beyond address ttl bufferSize d))"
  obtain e where e: "snd (redu_accept ok beyond address ttl bufferSize d) = Inl e"
    using assms(2) redu_unreachable_fails [of d ok beyond address ttl bufferSize] by (auto simp: isl_def)
  have good: "?r b = AcceptConn (projr (snd (redu_accept ok beyond address ttl bufferSize b))) (ua_string (rd_from b))" if "b \<in> set before" for b
    using assms(1) that by (auto simp: redu_accepted_def isl_def split: sum.split)
  have bad: "?r d = AcceptError False e" by (simp add: e redu_accepted_def)
  have "takeWhile going_on (map ?r (before @ d # later)) = map ?r before"
    by (subst map_append, subst takeWhile_append2) (use good in \<open>auto simp: bad\<close>)
  moreover have "dropWhile going_on (map ?r (before @ d # later)) = map ?r (d # later)"
    by (subst map_append, subst dropWhile_append2) (use good in \<open>auto simp: bad\<close>)
  moreover have "map (service_dispatch options) (connections (map ?r before)) =
      map (\<lambda>d. service_dispatch options (projr (snd (redu_accept ok beyond address ttl bufferSize d)), ua_string (rd_from d))) before"
    using good by (induction before) simp_all
  ultimately show ?thesis
    using service_loop_dispatched [of options 0 "map ?r (before @ d # later)"] service_loop_result [of options 0 "map ?r (before @ d # later)"]
    by (auto simp: e redu_serve_def service_Serve_def redu_accepted_def [of d "Inl e"] split: prod.splits)
qed

section \<open>An example\<close>

definition demo_datagram :: "ip \<Rightarrow> redu_datagram" where
  "demo_datagram from =
     \<lparr>rd_bytes = [1], rd_from = \<lparr>ua_ip = from, ua_port = 9, ua_zone = []\<rparr>,
      rd_msgs = Some [(True, [2, 0, 0, 53, 10, 0, 0, 1, 0, 0, 0, 0, 0, 0, 0, 0])]\<rparr>"

theorem redirect_udp_ends_at_failure_witness:
  "\<exists>e. snd (redu_serve service_no_options (\<lambda>_. True) [] '':53'' 0 0
      ([demo_datagram [192, 0, 2, 1]] @ demo_datagram (32 # 1 # replicate 14 0) # [demo_datagram [192, 0, 2, 2]])) = Some e"
proof -
  have "\<not> isl (snd (redu_accept (\<lambda>_. True) [] '':53'' 0 0 (demo_datagram [192, 0, 2, 1])))" by code_simp
  moreover have "redu_unreachable (demo_datagram (32 # 1 # replicate 14 0))" by code_simp
  ultimately show ?thesis
    using redirect_udp_ends_at_failure [of "[demo_datagram [192, 0, 2, 1]]" "\<lambda>_. True" "[]" "'':53''" 0 0
        "demo_datagram (32 # 1 # replicate 14 0)" service_no_options "[demo_datagram [192, 0, 2, 2]]"] by auto
qed

end
