(* ===== verification/TlsConfig.thy ===== *)
theory TlsConfig
  imports Prelude
begin

text \<open>
  The TLS configurations (\<open>internal/util/tls\<close>, \<open>config/parsing/tls.go\<close>): who is asked for a certificate, and how it is verified.  Files and
  certificates are parameters; \<open>'c\<close> is a certificate with its key, \<open>'p\<close> a pool of authorities.
\<close>

section \<open>Loading\<close>









section \<open>The default of the servers\<close>




section \<open>Whom a handshake accepts\<close>




section \<open>An example\<close>



end
