(* ===== verification/ClientDialers.thy ===== *)
theory ClientDialers
  imports Listeners
begin

text \<open>
  The dialers that keep a client for each address (\<open>dialer/http2\<close>, \<open>http2/h2\<close>, \<open>http3\<close>, \<open>grpc\<close>, \<open>pht\<close>), and that of web sockets
  (\<open>dialer/ws\<close>).  What the clients do is a parameter.
\<close>

section \<open>Clients\<close>

text \<open>A client: the host it names, whether it uses TLS, and the dialer of the network it was made with, which is that of its first dial.\<close>

record 'n cd_client =
  cl_host :: string
  cl_tls :: bool
  cl_via :: 'n

type_synonym 'n cd_table = "string \<rightharpoonup> 'n cd_client"

text \<open>The options of a dial: the host of the node, and the dialer of the network.\<close>

record 'n cd_options =
  co_host :: string
  co_via :: 'n

definition cd_host :: "string \<Rightarrow> string \<Rightarrow> string" where
  "cd_host configured given =
     (let host = (if configured = [] then given else configured);
          h = (case split_host_port host of None \<Rightarrow> [] | Some (h, p) \<Rightarrow> h)
      in if h \<noteq> [] then h else host)"

definition cd_get :: "string \<Rightarrow> 'n cd_client \<Rightarrow> 'n cd_table \<Rightarrow> 'n cd_client \<times> 'n cd_table" where
  "cd_get addr fresh table = (case table addr of Some c \<Rightarrow> (c, table) | None \<Rightarrow> (fresh, table(addr \<mapsto> fresh)))"

text \<open>PHT, over HTTP or HTTP/3: the dial of the client.\<close>

definition pht_dialer_Dial ::
    "('n cd_client \<Rightarrow> string \<Rightarrow> 'k option) \<Rightarrow> bool \<Rightarrow> string \<Rightarrow> 'n cd_options \<Rightarrow> string \<Rightarrow> 'n cd_table \<Rightarrow> 'k option \<times> 'n cd_table"
where
  "pht_dialer_Dial dial tls host opts addr table =
     (case cd_get addr \<lparr>cl_host = cd_host host (co_host opts), cl_tls = tls, cl_via = co_via opts\<rparr> table of
        (c, table) \<Rightarrow> (dial c addr, table))"

definition http3_Dial ::
    "('n cd_client \<Rightarrow> string \<Rightarrow> 'k option) \<Rightarrow> string \<Rightarrow> 'n cd_options \<Rightarrow> string \<Rightarrow> 'n cd_table \<Rightarrow> 'k option \<times> 'n cd_table"
where
  "http3_Dial dial = pht_dialer_Dial dial True"

text \<open>gRPC: a client that cannot be made is not kept; one whose tunnel fails is.\<close>

definition grpc_Dial ::
    "('n cd_client \<Rightarrow> bool) \<Rightarrow> ('n cd_client \<Rightarrow> 'k option) \<Rightarrow> bool \<Rightarrow> string \<Rightarrow> 'n cd_options \<Rightarrow> string \<Rightarrow> 'n cd_table \<Rightarrow>
     'k option \<times> 'n cd_table"
where
  "grpc_Dial connect tunnel insecure host opts addr table =
     (case table addr of
        Some c \<Rightarrow> (tunnel c, table)
      | None \<Rightarrow>
          let c = \<lparr>cl_host = cd_host host (co_host opts), cl_tls = \<not> insecure, cl_via = co_via opts\<rparr> in
          if connect c then (tunnel c, table(addr \<mapsto> c)) else (None, table))"

text \<open>HTTP/2: the connection is the client, for the connector; its \<open>Close\<close> forgets the client of the address.\<close>

definition http2_Dial ::
    "(string \<Rightarrow> string option) \<Rightarrow> 'n cd_options \<Rightarrow> string \<Rightarrow> 'n cd_table \<Rightarrow> (string \<times> 'n cd_client) option \<times> 'n cd_table"
where
  "http2_Dial resolveTCP opts addr table =
     (case resolveTCP addr of
        None \<Rightarrow> (None, table)
      | Some raddr \<Rightarrow>
          (case cd_get addr \<lparr>cl_host = addr, cl_tls = True, cl_via = co_via opts\<rparr> table of
             (c, table) \<Rightarrow> (Some (raddr, c), table)))"

definition http2_conn_Close :: "string \<Rightarrow> 'n cd_table \<Rightarrow> 'n cd_table" where
  "http2_conn_Close addr table = table(addr := None)"

section \<open>Streams over HTTP/2\<close>

record h2_request =
  hr_scheme :: string
  hr_method :: string
  hr_host :: string
  hr_path :: string

definition h2_dial_request :: "bool \<Rightarrow> string \<Rightarrow> string \<Rightarrow> string \<Rightarrow> h2_request" where
  "h2_dial_request h2c host path address =
     \<lparr>hr_scheme = (if h2c then ''http'' else ''https''), hr_method = (if path \<noteq> [] then ''GET'' else ''CONNECT''),
      hr_host = (if host = [] then address else host), hr_path = path\<rparr>"

text \<open>\<open>send\<close> answers with the status, or an error; any status but 200 is one.\<close>

definition h2_Dial ::
    "(string \<Rightarrow> string option) \<Rightarrow> ('n cd_client \<Rightarrow> h2_request \<Rightarrow> int option) \<Rightarrow> bool \<Rightarrow> string \<Rightarrow> string \<Rightarrow> 'n cd_options \<Rightarrow> string \<Rightarrow>
     'n cd_table \<Rightarrow> string option \<times> 'n cd_table"
where
  "h2_Dial resolveTCP send h2c host path opts address table =
     (case resolveTCP address of
        None \<Rightarrow> (None, table)
      | Some raddr \<Rightarrow>
          (case cd_get address \<lparr>cl_host = address, cl_tls = \<not> h2c, cl_via = co_via opts\<rparr> table of
             (c, table) \<Rightarrow>
               (case send c (h2_dial_request h2c host path address) of
                  Some status \<Rightarrow> (if status = 200 then Some raddr else None, table)
                | None \<Rightarrow> (None, table))))"

text \<open>What the listener sees of a request: its URI is the host for a CONNECT, and the path otherwise, which needs no escapes.\<close>

definition h2_uri :: "h2_request \<Rightarrow> string" where
  "h2_uri r = (if hr_method r = ''CONNECT'' then hr_host r else hr_path r)"

definition h2_answer :: "string \<Rightarrow> h2_request \<Rightarrow> int option" where
  "h2_answer path r = (case h2_upgrade path (hr_method r) (h2_uri r) of (_, statuses, _) \<Rightarrow> Some (hd statuses))"

text \<open>
  The dialer and the listener for streams over HTTP/2 understand each other exactly when their paths are the same: with the same path,
  or with none, the dial succeeds and the listener serves the stream; with another the listener refuses and the dial fails.
  In either case the client is kept for the next dial.
\<close>

theorem h2_dial_served:
  assumes "resolveTCP address = Some raddr" "hr_host (h2_dial_request h2c host path address) \<noteq> path'"
  shows "fst (h2_Dial resolveTCP (\<lambda>c. h2_answer path') h2c host path opts address table) = (if path = path' then Some raddr else None) \<and>
    snd (snd (h2_upgrade path' (hr_method (h2_dial_request h2c host path address)) (h2_uri (h2_dial_request h2c host path address)))) =
      (path = path') \<and>
    snd (h2_Dial resolveTCP (\<lambda>c. h2_answer path') h2c host path opts address table) address \<noteq> None"
  using assms
  by (auto simp: h2_Dial_def h2_answer_def h2_uri_def h2_upgrade_def h2_dial_request_def cd_get_def split: option.splits if_splits)

text \<open>A second dial uses the client of the first, with its dialer of the network, whatever it is given itself.\<close>

lemma cd_first_dial_decides:
  "fst (cd_get addr c2 (snd (cd_get addr c1 table))) = fst (cd_get addr c1 table)"
  by (simp add: cd_get_def split: option.split)

text \<open>The end of any connection over HTTP/2 makes the next dial to its address start a client, though others still use the one before.\<close>

lemma http2_close_forgets:
  assumes "resolveTCP addr = Some raddr"
  shows "fst (http2_Dial resolveTCP opts addr (http2_conn_Close addr table)) = Some (raddr, \<lparr>cl_host = addr, cl_tls = True, cl_via = co_via opts\<rparr>)"
  using assms by (simp add: http2_Dial_def http2_conn_Close_def cd_get_def)

section \<open>Web sockets\<close>

text \<open>What the handshake does to the read deadline, in order; \<open>ok\<close> is the answer of the server.\<close>

datatype ws_deadline = WsHandshake int | WsKeepAlive int | WsNone

record ws_dialer =
  wd_handshakeTimeout :: int
  wd_keepAlive :: int
  wd_host :: string
  wd_path :: string

definition ws_dialer_Handshake :: "ws_dialer \<Rightarrow> bool \<Rightarrow> string \<Rightarrow> (string \<Rightarrow> bool) \<Rightarrow> bool \<times> ws_deadline list" where
  "ws_dialer_Handshake D tls addr ok =
     (let host = (if wd_host D = [] then addr else wd_host D);
          answered = ok ((if tls then ''wss'' else ''ws'') @ ''://'' @ host @ wd_path D)
      in (answered,
          (if wd_handshakeTimeout D > 0 then [WsHandshake (wd_handshakeTimeout D)] else []) @
          (if answered \<and> wd_keepAlive D > 0 then [WsKeepAlive (wd_keepAlive D * 2)] else []) @
          (if wd_handshakeTimeout D > 0 then [WsNone] else [])))"

definition ws_keepAlive_option :: "bool \<Rightarrow> int \<Rightarrow> int" where
  "ws_keepAlive_option keepAlive ttl = (if keepAlive then if ttl \<le> 0 then 15 * 1000000000 else ttl else 0)"

text \<open>With a timeout for the handshake the deadline of the keep-alive is lifted again: until the first pong there is none.\<close>

lemma ws_keepalive_lifted:
  "wd_handshakeTimeout D > 0 \<Longrightarrow> last (snd (ws_dialer_Handshake D tls addr ok)) = WsNone"
  by (simp add: ws_dialer_Handshake_def Let_def)

section \<open>An example\<close>

theorem h2_dial_served_witness:
  "fst (h2_Dial Some (\<lambda>c. h2_answer ''/s'') False [] ''/s'' \<lparr>co_host = [], co_via = ()\<rparr> ''a:443'' Map.empty) = Some ''a:443'' \<and>
   fst (h2_Dial Some (\<lambda>c. h2_answer ''/s'') False [] [] \<lparr>co_host = [], co_via = ()\<rparr> ''a:443'' Map.empty) = None"
  using h2_dial_served [of Some "''a:443''" "''a:443''" False "[]" "''/s''" "''/s''" "\<lparr>co_host = [], co_via = ()\<rparr>" Map.empty]
    h2_dial_served [of Some "''a:443''" "''a:443''" False "[]" "[]" "''/s''" "\<lparr>co_host = [], co_via = ()\<rparr>" Map.empty]
  by (simp add: h2_dial_request_def)

end
