(* ===== verification/Registry.thy ===== *)
theory Registry
  imports Prelude
begin

text \<open>
  The registries of named objects (\<open>registry/\<close>): a map that refuses duplicates and closes what it
  removes, and the wrappers the rest of the program holds instead of the objects, which look
  their name up at every call.
\<close>

section \<open>A registry\<close>

text \<open>An object may be a nil interface, which is stored as such.\<close>

type_synonym 'v registry = "string \<rightharpoonup> 'v option"

datatype reg_error = ErrDup

definition registry_Register :: "string \<Rightarrow> 'v option \<Rightarrow> 'v registry \<Rightarrow> reg_error option \<times> 'v registry" where
  "registry_Register name v r =
     (if name = [] then (None, r)
      else case r name of
        Some _ \<Rightarrow> (Some ErrDup, r)
      | None \<Rightarrow> (None, r(name \<mapsto> v)))"

text \<open>\<open>Unregister\<close>, with the object it closes; \<open>closer\<close> says which objects can be closed.\<close>

definition registry_Unregister :: "('v \<Rightarrow> bool) \<Rightarrow> string \<Rightarrow> 'v registry \<Rightarrow> 'v list \<times> 'v registry" where
  "registry_Unregister closer name r =
     (case r name of
        None \<Rightarrow> ([], r)
      | Some v \<Rightarrow>
          (case v of None \<Rightarrow> [] | Some v \<Rightarrow> if closer v then [v] else [], r(name := None)))"

definition registry_IsRegistered :: "string \<Rightarrow> 'v registry \<Rightarrow> bool" where
  "registry_IsRegistered name r = (r name \<noteq> None)"

definition registry_Get :: "string \<Rightarrow> 'v registry \<Rightarrow> 'v option" where
  "registry_Get name r =
     (if name = [] then None else case r name of None \<Rightarrow> None | Some v \<Rightarrow> v)"

text \<open>\<open>GetAll\<close> over the names in the order \<open>Range\<close> visits them.\<close>

definition registry_GetAll :: "string list \<Rightarrow> 'v registry \<Rightarrow> (string \<times> 'v option) list" where
  "registry_GetAll keys r = map (\<lambda>k. (k, the (r k))) (filter (\<lambda>k. r k \<noteq> None) keys)"

text \<open>
  The registries of handlers, listeners, dialers and connectors end the process at a duplicate:
  \<open>None\<close>.
\<close>

definition handlerRegistry_Register :: "string \<Rightarrow> 'v option \<Rightarrow> 'v registry \<Rightarrow> 'v registry option" where
  "handlerRegistry_Register name v r =
     (case registry_Register name v r of (Some _, _) \<Rightarrow> None | (None, r') \<Rightarrow> Some r')"

section \<open>Wrappers\<close>

text \<open>What the other registries hand out: a wrapper with the name.\<close>

datatype wrapper = Wrapper (wr_name: string)

definition wrapperRegistry_Get :: "string \<Rightarrow> wrapper option" where
  "wrapperRegistry_Get name = (if name \<noteq> [] then Some (Wrapper name) else None)"

text \<open>
  The operations of the wrappers.  An object is its method, or, when the method changes the
  object, \<open>call\<close> is the method on the state of all objects.
\<close>

definition admissionWrapper_Admit :: "wrapper \<Rightarrow> (string \<Rightarrow> bool) registry \<Rightarrow> string \<Rightarrow> bool" where
  "admissionWrapper_Admit w r addr =
     (case registry_Get (wr_name w) r of None \<Rightarrow> False | Some admit \<Rightarrow> admit addr)"

definition autherWrapper_Authenticate ::
    "wrapper \<Rightarrow> (string \<Rightarrow> string \<Rightarrow> bool) registry \<Rightarrow> string \<Rightarrow> string \<Rightarrow> bool"
where
  "autherWrapper_Authenticate w r user password =
     (case registry_Get (wr_name w) r of None \<Rightarrow> True | Some auth \<Rightarrow> auth user password)"

definition bypassWrapper_Contains :: "wrapper \<Rightarrow> (string \<Rightarrow> bool) registry \<Rightarrow> string \<Rightarrow> bool" where
  "bypassWrapper_Contains w r addr =
     (case registry_Get (wr_name w) r of None \<Rightarrow> False | Some contains \<Rightarrow> contains addr)"

definition hostsWrapper_Lookup ::
    "wrapper \<Rightarrow> (string \<Rightarrow> string \<Rightarrow> 'ip list \<times> bool) registry \<Rightarrow> string \<Rightarrow> string \<Rightarrow> 'ip list \<times> bool"
where
  "hostsWrapper_Lookup w r network host =
     (case registry_Get (wr_name w) r of None \<Rightarrow> ([], False) | Some lookup \<Rightarrow> lookup network host)"

definition ingressWrapper_Get :: "wrapper \<Rightarrow> (string \<Rightarrow> string) registry \<Rightarrow> string \<Rightarrow> string" where
  "ingressWrapper_Get w r host =
     (case registry_Get (wr_name w) r of None \<Rightarrow> [] | Some get \<Rightarrow> get host)"

text \<open>\<open>resolver.ErrInvalid\<close> is the error of a missing resolver.\<close>

definition resolverWrapper_Resolve ::
    "'e \<Rightarrow> ('v \<Rightarrow> string \<Rightarrow> string \<Rightarrow> 's \<Rightarrow> ('ip list \<times> 'e option) \<times> 's) \<Rightarrow> wrapper \<Rightarrow> 'v registry \<Rightarrow>
     string \<Rightarrow> string \<Rightarrow> 's \<Rightarrow> ('ip list \<times> 'e option) \<times> 's"
where
  "resolverWrapper_Resolve errInvalid call w r network host s =
     (case registry_Get (wr_name w) r of
        None \<Rightarrow> (([], Some errInvalid), s) | Some v \<Rightarrow> call v network host s)"

definition recorderWrapper_Record ::
    "('v \<Rightarrow> 'b \<Rightarrow> 's \<Rightarrow> 'e option \<times> 's) \<Rightarrow> wrapper \<Rightarrow> 'v registry \<Rightarrow> 'b \<Rightarrow> 's \<Rightarrow> 'e option \<times> 's"
where
  "recorderWrapper_Record call w r b s =
     (case registry_Get (wr_name w) r of None \<Rightarrow> (None, s) | Some v \<Rightarrow> call v b s)"

definition chainWrapper_Route ::
    "('v \<Rightarrow> string \<Rightarrow> string \<Rightarrow> 's \<Rightarrow> 'route option \<times> 's) \<Rightarrow> wrapper \<Rightarrow> 'v registry \<Rightarrow> string \<Rightarrow> string \<Rightarrow>
     's \<Rightarrow> 'route option \<times> 's"
where
  "chainWrapper_Route call w r network address s =
     (case registry_Get (wr_name w) r of None \<Rightarrow> (None, s) | Some v \<Rightarrow> call v network address s)"

text \<open>\<open>marker v\<close> is the marker of an object that has one.\<close>

definition chainWrapper_Marker :: "('v \<Rightarrow> 'm option) \<Rightarrow> wrapper \<Rightarrow> 'v registry \<Rightarrow> 'm option" where
  "chainWrapper_Marker marker w r =
     (case registry_Get (wr_name w) r of None \<Rightarrow> None | Some v \<Rightarrow> marker v)"

definition chainWrapper_Metadata :: "('v \<Rightarrow> 'm option) \<Rightarrow> wrapper \<Rightarrow> 'v registry \<Rightarrow> 'm option" where
  "chainWrapper_Metadata metadata w r =
     (case registry_Get (wr_name w) r of None \<Rightarrow> None | Some v \<Rightarrow> metadata v)"

definition hopWrapper_Nodes :: "('v \<Rightarrow> 'n list) \<Rightarrow> wrapper \<Rightarrow> 'v registry \<Rightarrow> 'n list" where
  "hopWrapper_Nodes nodes w r = (case registry_Get (wr_name w) r of None \<Rightarrow> [] | Some v \<Rightarrow> nodes v)"

definition hopWrapper_Select ::
    "('v \<Rightarrow> 'o \<Rightarrow> 's \<Rightarrow> 'n option \<times> 's) \<Rightarrow> wrapper \<Rightarrow> 'v registry \<Rightarrow> 'o \<Rightarrow> 's \<Rightarrow> 'n option \<times> 's"
where
  "hopWrapper_Select select w r options s =
     (case registry_Get (wr_name w) r of None \<Rightarrow> (None, s) | Some v \<Rightarrow> select v options s)"

definition trafficLimiterWrapper_In ::
    "('v \<Rightarrow> string \<Rightarrow> 's \<Rightarrow> 'l option \<times> 's) \<Rightarrow> wrapper \<Rightarrow> 'v registry \<Rightarrow> string \<Rightarrow> 's \<Rightarrow> 'l option \<times> 's"
where
  "trafficLimiterWrapper_In call w r key s =
     (case registry_Get (wr_name w) r of None \<Rightarrow> (None, s) | Some v \<Rightarrow> call v key s)"

definition trafficLimiterWrapper_Out ::
    "('v \<Rightarrow> string \<Rightarrow> 's \<Rightarrow> 'l option \<times> 's) \<Rightarrow> wrapper \<Rightarrow> 'v registry \<Rightarrow> string \<Rightarrow> 's \<Rightarrow> 'l option \<times> 's"
where
  "trafficLimiterWrapper_Out call w r key s =
     (case registry_Get (wr_name w) r of None \<Rightarrow> (None, s) | Some v \<Rightarrow> call v key s)"

definition connLimiterWrapper_Limiter ::
    "('v \<Rightarrow> string \<Rightarrow> 's \<Rightarrow> 'l option \<times> 's) \<Rightarrow> wrapper \<Rightarrow> 'v registry \<Rightarrow> string \<Rightarrow> 's \<Rightarrow> 'l option \<times> 's"
where
  "connLimiterWrapper_Limiter call w r key s =
     (case registry_Get (wr_name w) r of None \<Rightarrow> (None, s) | Some v \<Rightarrow> call v key s)"

definition rateLimiterWrapper_Limiter ::
    "('v \<Rightarrow> string \<Rightarrow> 's \<Rightarrow> 'l option \<times> 's) \<Rightarrow> wrapper \<Rightarrow> 'v registry \<Rightarrow> string \<Rightarrow> 's \<Rightarrow> 'l option \<times> 's"
where
  "rateLimiterWrapper_Limiter call w r key s =
     (case registry_Get (wr_name w) r of None \<Rightarrow> (None, s) | Some v \<Rightarrow> call v key s)"

section \<open>Histories\<close>

datatype 'v reg_op = Register string "'v option" | Unregister string

fun registry_run :: "('v \<Rightarrow> bool) \<Rightarrow> 'v reg_op list \<Rightarrow> 'v registry \<Rightarrow> 'v list \<times> 'v registry" where
  "registry_run closer [] r = ([], r)"
| "registry_run closer (Register name v # ops) r =
     registry_run closer ops (snd (registry_Register name v r))"
| "registry_run closer (Unregister name # ops) r =
     (case registry_Unregister closer name r of
        (closed, r') \<Rightarrow> (case registry_run closer ops r' of (closed', r'') \<Rightarrow> (closed @ closed', r'')))"

text \<open>
  What a name stands for, told by the history alone: the first registration since the last
  removal.
\<close>

definition since_removed :: "string \<Rightarrow> 'v reg_op list \<Rightarrow> 'v reg_op list" where
  "since_removed name ops = rev (takeWhile (\<lambda>op. op \<noteq> Unregister name) (rev ops))"

definition registered :: "string \<Rightarrow> 'v reg_op list \<Rightarrow> 'v option option" where
  "registered name ops =
     first_some (\<lambda>op. case op of Register n v \<Rightarrow> if n = name then Some v else None | _ \<Rightarrow> None)
       (since_removed name ops)"

lemma since_removed_snoc:
  "since_removed name (ops @ [op]) = (if op = Unregister name then [] else since_removed name ops @ [op])"
  by (simp add: since_removed_def)

lemma registered_snoc:
  "registered name (ops @ [op]) =
   (case op of
      Unregister n \<Rightarrow> if n = name then None else registered name ops
    | Register n v \<Rightarrow> if n = name \<and> registered name ops = None then Some v else registered name ops)"
  by (cases op) (auto simp: registered_def since_removed_snoc first_some_append split: option.splits)

lemma registry_run_append:
  "registry_run closer (xs @ ys) r =
   (case registry_run closer xs r of (c, r') \<Rightarrow>
      case registry_run closer ys r' of (c', r'') \<Rightarrow> (c @ c', r''))"
  by (induction closer xs r rule: registry_run.induct) (auto split: prod.splits)

lemma registry_run_empty_name: "r [] = None \<Longrightarrow> snd (registry_run closer ops r) [] = None"
  by (induction closer ops r rule: registry_run.induct)
    (auto simp: registry_Register_def registry_Unregister_def split: prod.splits option.splits if_splits)

lemma registry_run_registered:
  assumes "name \<noteq> []"
  shows "snd (registry_run closer ops Map.empty) name = registered name ops"
proof (induction ops rule: rev_induct)
  case Nil
  then show ?case by (simp add: registered_def since_removed_def)
next
  case (snoc op ops)
  then show ?case
    using assms
    by (cases op)
      (auto simp: registry_run_append registered_snoc registry_Register_def registry_Unregister_def
        split: prod.splits option.splits)
qed

text \<open>
  A wrapper looks its name up at each call: after any history of registrations and removals the
  authenticator, admission and bypass of a name are those of the first registration of the
  name since its last removal; without one, every user is authenticated, every client refused
  and no address bypassed.
\<close>

theorem wrapper_latest_registration:
  assumes "name \<noteq> []"
  shows "autherWrapper_Authenticate (Wrapper name) (snd (registry_run cl auths Map.empty)) user password =
      (case registered name auths of Some (Some auth) \<Rightarrow> auth user password | _ \<Rightarrow> True) \<and>
    admissionWrapper_Admit (Wrapper name) (snd (registry_run cl2 admissions Map.empty)) addr =
      (case registered name admissions of Some (Some admit) \<Rightarrow> admit addr | _ \<Rightarrow> False) \<and>
    bypassWrapper_Contains (Wrapper name) (snd (registry_run cl2 bypasses Map.empty)) addr =
      (case registered name bypasses of Some (Some contains) \<Rightarrow> contains addr | _ \<Rightarrow> False)"
  using assms
  by (simp add: autherWrapper_Authenticate_def admissionWrapper_Admit_def bypassWrapper_Contains_def
      registry_Get_def registry_run_registered split: option.split)

theorem wrapper_latest_registration_witness:
  "autherWrapper_Authenticate (Wrapper ''a'')
     (snd (registry_run (\<lambda>_. False) [Register ''a'' (Some (\<lambda>u p. p = ''x'')), Register ''a'' (Some (\<lambda>u p. False))] Map.empty))
     ''u'' ''x'' \<and>
   autherWrapper_Authenticate (Wrapper ''a'')
     (snd (registry_run (\<lambda>_. False) [Register ''a'' (Some (\<lambda>u p. p = ''x'')), Unregister ''a''] Map.empty))
     ''u'' ''wrong''"
  using wrapper_latest_registration [of "''a''" "\<lambda>_. False"
      "[Register ''a'' (Some (\<lambda>u p. p = ''x'')), Register ''a'' (Some (\<lambda>u p. False))]" "''u''" "''x''"]
    wrapper_latest_registration [of "''a''" "\<lambda>_. False"
      "[Register ''a'' (Some (\<lambda>u p. p = ''x'')), Unregister ''a'']" "''u''" "''wrong''"]
  by (simp add: registered_def since_removed_def)

end
