(* ===== verification/Sniff.thy ===== *)
theory Sniff
  imports Bytes GoStrings
begin

text \<open>
  Sniffing the protocol of a connection (\<open>internal/util/forward/forward.go\<close>, and the copies of its
  functions in \<open>handler/redirect/tcp/handler.go\<close>): the first bytes are read and put back in front
  of the stream.  A stream is the bytes until its end.  The TLS messages are those of
  \<open>github.com/go-gost/tls-dissector\<close> and the parsing of an HTTP request is Go's; both are
  parameters, functions of the bytes that follow.
\<close>

section \<open>Parameters\<close>

text \<open>
  The length of a record header and the type of handshake records; the server name of a client
  hello, with the number of bytes read for it, where the first component says how many bytes of
  the stream were read and the second is the result, \<open>None\<close> on an error; likewise for a request,
  with its host.
\<close>

record sniffers =
  sn_RecordHeaderLen :: nat
  sn_Handshake :: byte
  sn_record :: "byte list \<Rightarrow> nat \<times> byte list option"
  sn_hello :: "byte list \<Rightarrow> string option list option"
  sn_request :: "byte list \<Rightarrow> nat \<times> string option"

section \<open>The protocols\<close>

definition bytes_string :: "byte list \<Rightarrow> string" where
  "bytes_string bs = map (\<lambda>b. char_of (unat b)) bs"

text \<open>\<open>strings.HasPrefix(method, s)\<close>: whether the bytes start a method.\<close>

definition isHTTP :: "string \<Rightarrow> bool" where
  "isHTTP s \<longleftrightarrow>
     has_prefix ''GET'' (take 3 s) \<or> has_prefix ''POST'' (take 4 s) \<or> has_prefix ''PUT'' (take 3 s) \<or>
     has_prefix ''DELETE'' s \<or> has_prefix ''OPTIONS'' s \<or> has_prefix ''PATCH'' s \<or>
     has_prefix ''HEAD'' (take 4 s) \<or> has_prefix ''CONNECT'' s \<or> has_prefix ''TRACE'' s"

definition ProtoHTTP :: string where "ProtoHTTP = ''http''"
definition ProtoTLS :: string where "ProtoTLS = ''tls''"
definition ProtoSSHv2 :: string where "ProtoSSHv2 = ''SSH-2''"

definition sniffProtocol :: "byte list \<Rightarrow> string" where
  "sniffProtocol hdr = (if bytes_string hdr = ProtoSSHv2 then ''ssh'' else [])"

section \<open>The server name\<close>

text \<open>
  \<open>getServerName\<close>: the bytes it reads and the name of the first extension that has one; the
  extensions of a hello are given as the names of those of the type of server names.
\<close>

definition getServerName :: "sniffers \<Rightarrow> byte list \<Rightarrow> nat \<times> string option" where
  "getServerName P s =
     (case sn_record P s of
        (n, None) \<Rightarrow> (n, None)
      | (n, Some opaque) \<Rightarrow>
          (case sn_hello P opaque of
             None \<Rightarrow> (n, None)
           | Some exts \<Rightarrow>
               (n, Some (case filter (\<lambda>e. e \<noteq> None) exts of [] \<Rightarrow> [] | e # _ \<Rightarrow> the e))))"

text \<open>
  \<open>io.TeeReader\<close> with \<open>io.MultiReader\<close>: the bytes read are put in front of what is left.
\<close>

definition put_back :: "nat \<Rightarrow> byte list \<Rightarrow> byte list" where
  "put_back n s = take n s @ drop n s"

definition sniffSNI :: "sniffers \<Rightarrow> byte list \<Rightarrow> byte list \<times> string \<times> bool" where
  "sniffSNI P s =
     (case getServerName P s of (n, host) \<Rightarrow>
        (put_back n s, case host of None \<Rightarrow> [] | Some h \<Rightarrow> h, host = None))"

section \<open>Sniffing\<close>

text \<open>
  \<open>Sniffing\<close>: the stream to go on with, the host, the protocol, and whether an error is returned.
  The array of the header is filled with zeros where the stream is too short.  \<open>None\<close> is a panic,
  of \<open>isHTTP\<close> on a header of less than four bytes.
\<close>

definition Sniffing :: "sniffers \<Rightarrow> byte list \<Rightarrow> (byte list \<times> string \<times> string \<times> bool) option" where
  "Sniffing P s =
     (case read_full (sn_RecordHeaderLen P) s of ((got, short), rest) \<Rightarrow>
        let hdr = got @ replicate (sn_RecordHeaderLen P - length got) 0;
            rw = hdr @ rest
        in if \<not> short \<and> hdr ! 0 = sn_Handshake P \<and> get16 (drop 1 hdr) = 0x0301
           then (case sniffSNI P rw of (rw, host, e) \<Rightarrow> Some (rw, host, ProtoTLS, e))
           else if sn_RecordHeaderLen P < 4 then None
           else if isHTTP (bytes_string hdr)
           then (case sn_request P rw of
                   (n, Some host) \<Rightarrow> Some (put_back n rw, host, ProtoHTTP, False)
                 | (n, None) \<Rightarrow> Some (put_back n rw, [], sniffProtocol hdr, True))
           else Some (rw, [], sniffProtocol hdr, short))"

section \<open>What is sniffed is not lost\<close>

lemma put_back_id [simp]: "put_back n s = s"
  by (simp add: put_back_def)

text \<open>
  Sniffing is transparent: a stream that holds at least the header is passed on as it is,
  whatever the protocol and whatever the parsers make of it; a shorter one is not, it is
  padded with zeros to the length of the header.
\<close>

theorem sniffing_stream:
  assumes "sn_RecordHeaderLen P \<ge> 4"
  shows "map_option fst (Sniffing P s) = Some (s @ replicate (sn_RecordHeaderLen P - length s) 0)"
proof -
  define n where "n = sn_RecordHeaderLen P"
  define hdr where "hdr = take n s @ replicate (n - length (take n s)) 0"
  have "hdr @ drop n s = s @ replicate (n - length s) 0"
    by (cases "length s \<le> n") (simp_all add: hdr_def min_def)
  moreover obtain k host where "sn_request P (hdr @ drop n s) = (k, host)" by fastforce
  ultimately show ?thesis
    using assms unfolding Sniffing_def read_full_def Let_def prod.case n_def [symmetric] hdr_def [symmetric]
    by (cases host) (auto simp: sniffSNI_def split_beta)
qed

text \<open>Parsers for the examples: a record is everything, and no hello has a name.\<close>

definition demo_sniffers :: sniffers where
  "demo_sniffers =
     \<lparr>sn_RecordHeaderLen = 5, sn_Handshake = 22, sn_record = (\<lambda>s. (length s, Some s)),
      sn_hello = (\<lambda>_. Some [None]), sn_request = (\<lambda>s. (length s, None))\<rparr>"

theorem sniffing_stream_witness:
  "map_option fst (Sniffing demo_sniffers [1, 2, 3]) = Some [1, 2, 3, 0, 0]"
  using sniffing_stream [of demo_sniffers "[1, 2, 3]"] by (simp add: demo_sniffers_def numeral_2_eq_2)

text \<open>The methods are recognised by their first five bytes, or by the whole of a shorter name.\<close>

lemma isHTTP_methods:
  "isHTTP (take 5 (m @ '' /''))" if "m \<in> {''GET'', ''POST'', ''PUT'', ''DELETE'', ''OPTIONS'', ''PATCH'', ''HEAD'', ''CONNECT'', ''TRACE''}"
  using that by (auto simp: isHTTP_def has_prefix_def)

end
