(* ===== verification/EntryPoint.thy ===== *)
theory EntryPoint
  imports RelayHandler Sniff
begin

text \<open>
  The entry points of the relay server (\<open>handler/relay/entrypoint.go\<close>): what connects to a bound
  port goes into the client's session, and what connects to the public entry point goes to the
  tunnel its host is routed to, a connection as a whole or request by request.
\<close>

section \<open>Messages and events\<close>

text \<open>A request, with its host and its Upgrade header.  A response of HTTP is its status.\<close>

record ep_request =
  er_host :: string
  er_upgrade :: string

datatype ep_msg = EpRelay relay_resp | EpHttp nat

text \<open>
  A session is asked for a stream; the host and protocol sniffed; a request is sent on the
  connection \<open>k\<close>, which was opened for a tunnel; the bytes of a web socket are copied to it; and
  it is closed.
\<close>

datatype 'tid ep_special =
    Stream nat bool
  | Sniffed string string
  | Greet nat 'tid bool
  | SendRequest nat ep_request bool
  | WebSocket nat
  | CloseStream nat

record ('tid, 'cid) ep_world =
  ew_sniff :: "(('tid, 'cid) connector_pool, (ep_request, ep_msg, 'tid ep_special) event) history \<Rightarrow> string \<times> string"
  ew_getconn :: "nat \<Rightarrow> (('tid, 'cid) connector_pool, (ep_request, ep_msg, 'tid ep_special) event) history \<Rightarrow> bool"
  ew_write :: "(('tid, 'cid) connector_pool, (ep_request, ep_msg, 'tid ep_special) event) history \<Rightarrow> bool"

type_synonym ('tid, 'cid, 'a) ep_io = "(('tid, 'cid) connector_pool, (ep_request, ep_msg, 'tid ep_special) event, 'a) io"

section \<open>A bound port\<close>

text \<open>\<open>session\<close> is the session of the client that bound the port.\<close>

definition tcpHandler_Handle ::
    "relay_pkg \<Rightarrow> ('tid, 'cid) ep_world \<Rightarrow> nat \<Rightarrow> string \<Rightarrow> ('tid, 'cid, relay_err option) ep_io"
where
  "tcpHandler_Handle K E session remote = deferring (emit CloseClient) (do {
     ok \<leftarrow> ask (ew_getconn E session) (\<lambda>ok. Special (Stream session ok));
     if \<not> ok then return (Some ErrExternal)
     else deferring (emit CloseUp) (do {
       ok \<leftarrow> ask (ew_write E) (SendUp (EpRelay (Response (rk_Version1 K) (rk_StatusOK K) [AddrOf remote])));
       if \<not> ok then return (Some ErrExternal)
       else do { emit (Transport False []); return None }
     })
   })"

section \<open>The public entry point\<close>

definition ep_tunnel :: "('tid, 'cid) tunnel_ids \<Rightarrow> (string \<Rightarrow> string) option \<Rightarrow> string \<Rightarrow> 'tid" where
  "ep_tunnel T ingress host = (case ingress of None \<Rightarrow> ti_zero T | Some get \<Rightarrow> parseTunnelID T (get host))"

text \<open>
  The connections of one visitor, by tunnel, with their numbers.  A connection ends when the
  goroutine that copies from it does: it is closed and forgotten, and an error of the copy is
  answered.
\<close>

type_synonym 'tid ep_pool = "('tid \<times> nat) list"

primrec ep_ended ::
    "('tid, 'cid) ep_world \<Rightarrow> ('tid \<times> bool) list \<Rightarrow> 'tid ep_pool \<Rightarrow> ('tid, 'cid, 'tid ep_pool) ep_io"
where
  "ep_ended E [] pool = return pool"
| "ep_ended E (x # xs) pool =
     (case map_of pool (fst x) of
        None \<Rightarrow> ep_ended E xs pool
      | Some k \<Rightarrow> do {
          (if snd x then ask (ew_write E) (Reply (EpHttp 503)) else return True);
          emit (Special (CloseStream k));
          ep_ended E xs (filter (\<lambda>e. fst e \<noteq> fst x) pool)
        })"

text \<open>A request is sent on the connection \<open>k\<close>.\<close>

definition ep_forward ::
    "('tid, 'cid) ep_world \<Rightarrow> ep_request \<Rightarrow> nat \<Rightarrow> 'tid ep_pool \<Rightarrow> nat \<Rightarrow> ('tid, 'cid, bool \<times> 'tid ep_pool \<times> nat) ep_io"
where
  "ep_forward E req k pool n = do {
     sent \<leftarrow> ask (ew_write E) (\<lambda>ok. Special (SendRequest k req ok));
     if \<not> sent then do { ok \<leftarrow> ask (ew_write E) (Reply (EpHttp 503)); return (ok, pool, n) }
     else if er_upgrade req = ''websocket''
     then do { emit (Special (WebSocket k)); return (False, pool, n) }
     else return (True, pool, n)
   }"

text \<open>
  One request: whether the loop goes on, the connections, and the next number.
\<close>

definition ep_request_step ::
    "relay_pkg \<Rightarrow> ('tid, 'cid) tunnel_ids \<Rightarrow> ('tid, 'cid) ep_world \<Rightarrow> (string \<Rightarrow> string) option \<Rightarrow> string \<Rightarrow>
     ep_request \<Rightarrow> 'tid ep_pool \<Rightarrow> nat \<Rightarrow> ('tid, 'cid, bool \<times> 'tid ep_pool \<times> nat) ep_io"
where
  "ep_request_step K T E ingress remote req pool n =
     (let tid = ep_tunnel T ingress (er_host req)
      in if ti_IsZero T tid \<or> ti_IsPrivate T tid
         then do { ok \<leftarrow> ask (ew_write E) (Reply (EpHttp 502)); return (ok, pool, n) }
         else case map_of pool tid of
           Some k \<Rightarrow> ep_forward E req k pool n
         | None \<Rightarrow> do {
             cc \<leftarrow> getTunnelConn T (ew_getconn E) (\<lambda>s ok. Special (Stream s ok)) ''tcp'' tid 3;
             if cc = None then do { ok \<leftarrow> ask (ew_write E) (Reply (EpHttp 503)); return (ok, pool, n) }
             else do {
               ask (ew_write E) (\<lambda>ok. Special (Greet n tid ok));
               ep_forward E req n ((tid, n) # pool) (Suc n)
             }
           })"

text \<open>
  The loop over the requests of the visitor, with the connections that ended before each; it ends
  with the first error, and the connections left are closed.
\<close>

primrec ep_loop ::
    "relay_pkg \<Rightarrow> ('tid, 'cid) tunnel_ids \<Rightarrow> ('tid, 'cid) ep_world \<Rightarrow> (string \<Rightarrow> string) option \<Rightarrow> string \<Rightarrow>
     (('tid \<times> bool) list \<times> ep_request) list \<Rightarrow> 'tid ep_pool \<Rightarrow> nat \<Rightarrow> ('tid, 'cid, 'tid ep_pool) ep_io"
where
  "ep_loop K T E ingress remote [] pool n = return pool"
| "ep_loop K T E ingress remote (r # rs) pool n = do {
     pool \<leftarrow> ep_ended E (fst r) pool;
     emit (ReadRequest (Some (snd r)));
     x \<leftarrow> ep_request_step K T E ingress remote (snd r) pool n;
     (case x of (go, pool, n) \<Rightarrow>
        if go then ep_loop K T E ingress remote rs pool n else return pool)
   }"

primrec ep_close_all :: "'tid ep_pool \<Rightarrow> ('tid, 'cid, unit) ep_io" where
  "ep_close_all [] = return ()"
| "ep_close_all (e # pool) = do { emit (Special (CloseStream (snd e))); ep_close_all pool }"

definition tunnelHandler_handleHTTP ::
    "relay_pkg \<Rightarrow> ('tid, 'cid) tunnel_ids \<Rightarrow> ('tid, 'cid) ep_world \<Rightarrow> (string \<Rightarrow> string) option \<Rightarrow> string \<Rightarrow>
     (('tid \<times> bool) list \<times> ep_request) list \<Rightarrow> ('tid, 'cid, unit) ep_io"
where
  "tunnelHandler_handleHTTP K T E ingress remote rs = do {
     pool \<leftarrow> ep_loop K T E ingress remote rs [] 0;
     ep_close_all pool
   }"

definition tunnelHandler_Handle ::
    "relay_pkg \<Rightarrow> ('tid, 'cid) tunnel_ids \<Rightarrow> ('tid, 'cid) ep_world \<Rightarrow> (string \<Rightarrow> string) option \<Rightarrow> string \<Rightarrow>
     (('tid \<times> bool) list \<times> ep_request) list \<Rightarrow> ('tid, 'cid, relay_err option) ep_io"
where
  "tunnelHandler_Handle K T E ingress remote rs = deferring (emit CloseClient) (do {
     hp \<leftarrow> ask (ew_sniff E) (\<lambda>hp. Special (Sniffed (fst hp) (snd hp)));
     if snd hp = ProtoHTTP then do { tunnelHandler_handleHTTP K T E ingress remote rs; return None }
     else let tid = ep_tunnel T ingress (fst hp)
       in if ti_IsZero T tid then return (Some ErrNoRoute)
          else if ti_IsPrivate T tid then return (Some ErrAccessDenied)
          else do {
            cc \<leftarrow> getTunnelConn T (ew_getconn E) (\<lambda>s ok. Special (Stream s ok)) ''tcp'' tid 3;
            if cc = None then return (Some ErrNoTunnel)
            else deferring (emit CloseUp) (do {
              ask (ew_write E) (SendUp (EpRelay (Response (rk_Version1 K) (rk_StatusOK K) [AddrOf remote])));
              emit (Transport False []);
              return None
            })
          }
   })"

section \<open>Tunnels are kept apart\<close>

text \<open>The public tunnels that a host the visitor named is routed to.\<close>

definition ep_public :: "('tid, 'cid) tunnel_ids \<Rightarrow> (string \<Rightarrow> string) option \<Rightarrow> string \<Rightarrow> 'tid \<Rightarrow> bool" where
  "ep_public T ingress host tid \<longleftrightarrow> tid = ep_tunnel T ingress host \<and> \<not> ti_IsZero T tid \<and> \<not> ti_IsPrivate T tid"

definition ep_named :: "string \<Rightarrow> (ep_request, ep_msg, 'tid ep_special) event list \<Rightarrow> bool" where
  "ep_named host es \<longleftrightarrow> (\<exists>p. Special (Sniffed host p) \<in> set es) \<or> (\<exists>req. ReadRequest (Some req) \<in> set es \<and> er_host req = host)"

text \<open>
  A trace keeps the tunnels apart when each stream is asked of a connector of a public tunnel
  that a host the visitor named is routed to, and each request is sent on a connection that was
  opened for the public tunnel its own host is routed to, and for no other.
\<close>

definition ep_apart ::
    "('tid, 'cid) tunnel_ids \<Rightarrow> (string \<Rightarrow> string) option \<Rightarrow> (string \<Rightarrow> 'cid connector list) \<Rightarrow>
     (ep_request, ep_msg, 'tid ep_special) event list \<Rightarrow> bool"
where
  "ep_apart T ingress connectors es \<longleftrightarrow>
     (\<forall>s ok. Special (Stream s ok) \<in> set es \<longrightarrow>
        (\<exists>host tid c. ep_named host es \<and> ep_public T ingress host tid \<and>
           reachable_connector T connectors ''tcp'' tid c \<and> co_s c = s)) \<and>
     (\<forall>k req ok. Special (SendRequest k req ok) \<in> set es \<longrightarrow>
        (\<exists>tid ok. Special (Greet k tid ok) \<in> set es \<and> ep_public T ingress (er_host req) tid)) \<and>
     (\<forall>k tid ok tid' ok'. Special (Greet k tid ok) \<in> set es \<longrightarrow> Special (Greet k tid' ok') \<in> set es \<longrightarrow> tid = tid')"

text \<open>What holds between the requests.\<close>

definition ep_inv ::
    "('tid, 'cid) tunnel_ids \<Rightarrow> (string \<Rightarrow> string) option \<Rightarrow> (string \<Rightarrow> 'cid connector list) \<Rightarrow> 'tid ep_pool \<Rightarrow> nat \<Rightarrow>
     (('tid, 'cid) connector_pool, (ep_request, ep_msg, 'tid ep_special) event) history \<Rightarrow> bool"
where
  "ep_inv T ingress connectors pool n h \<longleftrightarrow>
     pool_connectors (fst h) = connectors \<and> ep_apart T ingress connectors (snd h) \<and>
     (\<forall>(tid, k)\<in>set pool. k < n \<and> (\<exists>ok. Special (Greet k tid ok) \<in> set (snd h))) \<and>
     (\<forall>k tid ok. Special (Greet k tid ok) \<in> set (snd h) \<longrightarrow> k < n)"

definition ep_plain :: "(ep_request, ep_msg, 'tid ep_special) event \<Rightarrow> bool" where
  "ep_plain e = (case e of Special (Stream s ok) \<Rightarrow> False | Special (SendRequest k req ok) \<Rightarrow> False
     | Special (Greet k tid ok) \<Rightarrow> False | _ \<Rightarrow> True)"

lemma ep_plain_simps [simp]:
  "ep_plain (Reply m ok)" "ep_plain (ReadRequest q)" "ep_plain (SendUp m ok)" "ep_plain (Transport u ms)" "ep_plain CloseUp"
  "ep_plain CloseClient" "ep_plain (Special (CloseStream k))" "ep_plain (Special (WebSocket k))"
  "ep_plain (Special (Sniffed host p))"
  by (simp_all add: ep_plain_def)

lemma ep_named_append: "ep_named host es \<Longrightarrow> ep_named host (es @ new)"
  by (auto simp: ep_named_def)

lemma ep_apart_append:
  assumes es: "ep_apart T ingress connectors es"
    and stream: "\<And>s ok. Special (Stream s ok) \<in> set new \<Longrightarrow> \<exists>host tid c. ep_named host (es @ new) \<and> ep_public T ingress host tid \<and>
      reachable_connector T connectors ''tcp'' tid c \<and> co_s c = s"
    and send: "\<And>k req ok. Special (SendRequest k req ok) \<in> set new \<Longrightarrow>
      \<exists>tid ok. Special (Greet k tid ok) \<in> set (es @ new) \<and> ep_public T ingress (er_host req) tid"
    and greet: "\<And>k tid ok tid' ok'. Special (Greet k tid ok) \<in> set new \<Longrightarrow> Special (Greet k tid' ok') \<in> set (es @ new) \<Longrightarrow> tid' = tid"
  shows "ep_apart T ingress connectors (es @ new)"
  unfolding ep_apart_def
proof (intro conjI allI impI)
  fix s ok
  assume "Special (Stream s ok) \<in> set (es @ new)"
  then show "\<exists>host tid c. ep_named host (es @ new) \<and> ep_public T ingress host tid \<and>
      reachable_connector T connectors ''tcp'' tid c \<and> co_s c = s"
    using es stream unfolding ep_apart_def set_append Un_iff by (metis ep_named_append)
next
  fix k req ok
  assume "Special (SendRequest k req ok) \<in> set (es @ new)"
  then show "\<exists>tid ok. Special (Greet k tid ok) \<in> set (es @ new) \<and> ep_public T ingress (er_host req) tid"
    using es send unfolding ep_apart_def set_append Un_iff by metis
next
  fix k tid ok tid' ok'
  assume "Special (Greet k tid ok) \<in> set (es @ new)" "Special (Greet k tid' ok') \<in> set (es @ new)"
  then show "tid = tid'"
    using es greet unfolding ep_apart_def set_append Un_iff by metis
qed

lemma ep_inv_plains:
  assumes "ep_inv T ingress connectors pool n (w, es)" and "list_all ep_plain new"
  shows "ep_inv T ingress connectors pool n (w, es @ new)"
proof -
  have no: "Special (Stream s ok) \<notin> set new" "Special (SendRequest k req ok) \<notin> set new" "Special (Greet k tid ok) \<notin> set new"
    for s ok k req tid
    using assms(2) by (force simp: ep_plain_def list_all_iff)+
  then have "ep_apart T ingress connectors (es @ new)"
    using assms(1) by (intro ep_apart_append) (auto simp: ep_inv_def)
  with no assms(1) show ?thesis by (fastforce simp: ep_inv_def)
qed

lemma ep_inv_plain:
  "ep_inv T ingress connectors pool n (w, es) \<Longrightarrow> ep_plain e \<Longrightarrow> ep_inv T ingress connectors pool n (w, es @ [e])"
  by (rule ep_inv_plains) simp_all

lemma ep_inv_pool:
  "ep_inv T ingress connectors pool n h \<Longrightarrow> set pool' \<subseteq> set pool \<Longrightarrow> ep_inv T ingress connectors pool' n h"
  by (auto simp: ep_inv_def)

lemma ep_ended_inv:
  "ep_inv T ingress connectors pool n (w, es) \<Longrightarrow>
   wp (ep_ended E xs pool) (\<lambda>pool' h. ep_inv T ingress connectors pool' n h) (w, es)"
proof (induction xs arbitrary: pool es)
  case (Cons x xs)
  let ?pool = "filter (\<lambda>e. fst e \<noteq> fst x) pool"
  have p: "ep_inv T ingress connectors ?pool n (w, es')" if "ep_inv T ingress connectors pool n (w, es')" for es'
    using that by (rule ep_inv_pool) auto
  show ?case
    using Cons.prems by (auto simp: wp_simps split: option.split intro!: Cons.IH p ep_inv_plains)
qed (simp add: wp_simps)

lemma tunnel_conn_elem:
  assumes "tunnel_conn_trace R ev r new" and "e \<in> set new"
  obtains c ok where "e = ev (co_s c) ok" "R c"
  using assms by (auto simp: tunnel_conn_trace_def list_all_iff split: option.splits)

lemma ep_inv_streams:
  assumes "ep_inv T ingress connectors pool n (w, es)" and "ep_named host es" and "ep_public T ingress host tid"
    and new: "tunnel_conn_trace (reachable_connector T connectors ''tcp'' tid) (\<lambda>s ok. Special (Stream s ok)) r new"
    and "pool_connectors w' = connectors"
  shows "ep_inv T ingress connectors pool n (w', es @ new)"
proof -
  have no: "Special (SendRequest k req ok) \<notin> set new" "Special (Greet k t ok) \<notin> set new" for k req ok t
    by (auto elim!: tunnel_conn_elem [OF new])
  have "\<exists>host tid c. ep_named host (es @ new) \<and> ep_public T ingress host tid \<and>
      reachable_connector T connectors ''tcp'' tid c \<and> co_s c = s" if elem: "Special (Stream s ok) \<in> set new" for s ok
  proof -
    obtain c where "reachable_connector T connectors ''tcp'' tid c" "co_s c = s"
      by (rule tunnel_conn_elem [OF new elem]) auto
    with assms(2,3) show ?thesis by (blast intro: ep_named_append)
  qed
  then have "ep_apart T ingress connectors (es @ new)"
    using assms(1) no by (intro ep_apart_append) (auto simp: ep_inv_def)
  with no assms(1,5) show ?thesis by (fastforce simp: ep_inv_def)
qed

lemma ep_inv_greet:
  assumes "ep_inv T ingress connectors pool n (w, es)"
  shows "ep_inv T ingress connectors ((tid, n) # pool) (Suc n) (w, es @ [Special (Greet n tid ok)])"
proof -
  have "ep_apart T ingress connectors (es @ [Special (Greet n tid ok)])"
    using assms by (intro ep_apart_append) (auto simp: ep_inv_def)
  with assms show ?thesis by (fastforce simp: ep_inv_def)
qed

lemma ep_inv_send:
  assumes "ep_inv T ingress connectors pool n (w, es)" and "(tid, k) \<in> set pool" "ep_public T ingress (er_host req) tid"
  shows "ep_inv T ingress connectors pool n (w, es @ [Special (SendRequest k req ok)])"
proof -
  from assms(1,2) obtain ok' where "Special (Greet k tid ok') \<in> set es" by (auto simp: ep_inv_def)
  with assms(1,3) have "ep_apart T ingress connectors (es @ [Special (SendRequest k req ok)])"
    by (intro ep_apart_append) (auto simp: ep_inv_def)
  with assms(1) show ?thesis by (fastforce simp: ep_inv_def)
qed

lemma wp_getTunnelConn_pool:
  assumes "pool_connectors p = cs"
    and "\<And>r w' new. pool_connectors w' = cs \<Longrightarrow> tunnel_conn_trace (reachable_connector T cs network tid) ev r new \<Longrightarrow> Q r (w', es @ new)"
  shows "wp (getTunnelConn T getconn ev network tid retry) Q (p, es)"
  by (rule wp_mono [OF getTunnelConn_trace [OF assms(1)]]) (metis assms(2) prod.collapse)

lemma ep_forward_inv:
  assumes "ep_inv T ingress connectors pool n (w, es)" "(tid, k) \<in> set pool" "ep_public T ingress (er_host req) tid"
  shows "wp (ep_forward E req k pool n) (\<lambda>r h. ep_inv T ingress connectors (fst (snd r)) (snd (snd r)) h) (w, es)"
proof -
  have send: "ep_inv T ingress connectors pool n (w, es @ [Special (SendRequest k req ok)])" for ok
    by (rule ep_inv_send [OF assms])
  then have "ep_inv T ingress connectors pool n (w, es @ [Special (SendRequest k req ok), e])" if "ep_plain e" for ok e
    using ep_inv_plain [OF send that] by simp
  with send show ?thesis by (simp add: ep_forward_def wp_simps)
qed

lemma ep_request_step_inv:
  fixes T :: "('tid, 'cid) tunnel_ids"
  assumes inv: "ep_inv T ingress connectors pool n (w, es)" and named: "ep_named (er_host req) es"
  shows "wp (ep_request_step K T E ingress remote req pool n)
    (\<lambda>r h. ep_inv T ingress connectors (fst (snd r)) (snd (snd r)) h) (w, es)"
proof -
  define tid where "tid = ep_tunnel T ingress (er_host req)"
  show ?thesis
  proof (cases "ti_IsZero T tid \<or> ti_IsPrivate T tid")
    case True
    then show ?thesis
      unfolding ep_request_step_def Let_def tid_def by (auto simp: wp_simps intro: ep_inv_plain inv)
  next
    case False
    then have public: "ep_public T ingress (er_host req) tid" by (simp add: ep_public_def tid_def)
    show ?thesis
    proof (cases "map_of pool tid")
      case (Some k)
      then show ?thesis
        using False ep_forward_inv [OF inv map_of_SomeD [OF Some] public]
        unfolding ep_request_step_def Let_def tid_def [symmetric] by simp
    next
      case None
      have cs: "pool_connectors w = connectors" using inv by (simp add: ep_inv_def)
      show ?thesis
        using False None unfolding ep_request_step_def Let_def tid_def [symmetric]
      proof (simp, unfold wp_bind, intro wp_getTunnelConn_pool [OF cs])
        fix r and w' :: "('tid, 'cid) connector_pool" and new :: "(ep_request, ep_msg, 'tid ep_special) event list"
        assume "pool_connectors w' = connectors"
          and "tunnel_conn_trace (reachable_connector T connectors ''tcp'' tid) (\<lambda>s ok. Special (Stream s ok)) r new"
        then have streams: "ep_inv T ingress connectors pool n (w', es @ new)"
          by (intro ep_inv_streams [OF inv named public])
        have refused: "ep_inv T ingress connectors pool n (w', (es @ new) @ [Reply m ok])" for m ok
          by (rule ep_inv_plain [OF streams]) simp
        have opened: "wp (ep_forward E req n ((tid, n) # pool) (Suc n))
            (\<lambda>r h. ep_inv T ingress connectors (fst (snd r)) (snd (snd r)) h) (w', (es @ new) @ [Special (Greet n tid ok)])" for ok
          by (rule ep_forward_inv [OF ep_inv_greet [OF streams] _ public]) simp
        show "wp (if r = None then do { ok \<leftarrow> ask (ew_write E) (Reply (EpHttp 503)); return (ok, pool, n) }
              else do { ask (ew_write E) (\<lambda>ok. Special (Greet n tid ok)); ep_forward E req n ((tid, n) # pool) (Suc n) })
            (\<lambda>r. ep_inv T ingress connectors (fst (snd r)) (snd (snd r))) (w', es @ new)"
          using refused opened by (simp add: wp_if wp_bind wp_ask wp_return)
      qed
    qed
  qed
qed

lemma ep_loop_inv:
  "ep_inv T ingress connectors pool n (w, es) \<Longrightarrow>
   wp (ep_loop K T E ingress remote rs pool n) (\<lambda>pool h. \<exists>n. ep_inv T ingress connectors pool n h) (w, es)"
proof (induction rs arbitrary: pool n w es)
  case (Cons r rs)
  have step: "wp (do {
       emit (ReadRequest (Some (snd r)));
       x \<leftarrow> ep_request_step K T E ingress remote (snd r) pool' n;
       (case x of (go, pool, n) \<Rightarrow> if go then ep_loop K T E ingress remote rs pool n else return pool) })
     (\<lambda>pool h. \<exists>n. ep_inv T ingress connectors pool n h) h"
    if "ep_inv T ingress connectors pool' n h" for pool' h
  proof -
    obtain w' es' where h: "h = (w', es')" by (cases h)
    have "wp (ep_request_step K T E ingress remote (snd r) pool' n)
      (\<lambda>x h. wp (case x of (go, pool, n) \<Rightarrow> if go then ep_loop K T E ingress remote rs pool n else return pool)
         (\<lambda>pool h. \<exists>n. ep_inv T ingress connectors pool n h) h) (w', es' @ [ReadRequest (Some (snd r))])"
      by (rule wp_mono [OF ep_request_step_inv [OF ep_inv_plain [OF that [unfolded h]]]])
        (auto simp: wp_if wp_return ep_named_def split: prod.splits intro: Cons.IH)
    then show ?thesis by (simp add: h wp_simps)
  qed
  show ?case unfolding ep_loop.simps wp_bind by (rule wp_mono [OF ep_ended_inv [OF Cons.prems]]) (rule step [unfolded wp_bind])
qed (auto simp: wp_simps)

lemma ep_close_all_inv:
  "ep_inv T ingress connectors p n (w, es) \<Longrightarrow> wp (ep_close_all pool) (\<lambda>_ h. ep_inv T ingress connectors p n h) (w, es)"
  by (induction pool arbitrary: es) (simp_all add: wp_simps ep_inv_plain)

lemma ep_inv_closing:
  "ep_inv T ingress cs pool n h \<Longrightarrow> wp (emit CloseClient) (\<lambda>_ h. ep_apart T ingress cs (snd h)) h"
  using ep_inv_plain [of T ingress cs pool n "fst h" "snd h" CloseClient]
  by (cases h) (simp add: wp_emit ep_inv_def)

text \<open>
  C10. The public entry point keeps the tunnels apart, whatever the visitor sends: a stream is only asked
  of connectors bound under a tunnel that is public and to which the ingress routes a host the
  visitor named, and in a connection of HTTP requests each request is only sent on a connection
  opened for the public tunnel its own host is routed to.
\<close>

theorem entry_point_tunnels_apart:
  "ep_apart T ingress (pool_connectors p) (io_trace (tunnelHandler_Handle K T E ingress remote rs) p)"
proof -
  let ?cs = "pool_connectors p"
  obtain host proto where hp: "ew_sniff E (p, []) = (host, proto)" by fastforce
  let ?es = "[Special (Sniffed host proto)]"
  have start: "ep_inv T ingress ?cs [] 0 (p, ?es)" by (simp add: ep_inv_def ep_apart_def)
  have apart: "ep_apart T ingress ?cs es" if "ep_inv T ingress ?cs pool n (w, es)" for pool n w es
    using that by (simp add: ep_inv_def)
  have "wp (tunnelHandler_Handle K T E ingress remote rs) (\<lambda>r h. ep_apart T ingress ?cs (snd h)) (p, [])"
  proof (cases "proto = ProtoHTTP")
    case True
    have closed: "wp (ep_close_all pool) (\<lambda>_ h. wp (emit CloseClient) (\<lambda>_ h. ep_apart T ingress ?cs (snd h)) h) h"
      if inv: "\<exists>n. ep_inv T ingress ?cs pool n h" for pool and h :: "(('a, 'b) connector_pool, (ep_request, ep_msg, 'a ep_special) event) history"
    proof -
      from inv obtain n w es where i: "ep_inv T ingress ?cs pool n (w, es)" and h: "h = (w, es)" by (cases h) auto
      show ?thesis unfolding h by (rule wp_mono [OF ep_close_all_inv [OF i]]) (rule ep_inv_closing)
    qed
    then show ?thesis
      using True wp_mono [OF ep_loop_inv [OF start], OF closed]
      by (simp add: tunnelHandler_Handle_def tunnelHandler_handleHTTP_def wp_simps hp)
  next
    case False
    let ?tid = "ep_tunnel T ingress host"
    have named: "ep_named host ?es" by (auto simp: ep_named_def)
    show ?thesis
    proof (cases "ti_IsZero T ?tid \<or> ti_IsPrivate T ?tid")
      case True
      then show ?thesis
        using False ep_inv_plain [OF start, of CloseClient]
        by (auto simp: tunnelHandler_Handle_def wp_simps hp Let_def intro: apart)
    next
      case public: False
      then have t: "ep_public T ingress host ?tid" by (simp add: ep_public_def)
      have served: "ep_apart T ingress ?cs (?es @ new @ es')"
        if "pool_connectors w' = ?cs" "list_all ep_plain es'"
          "tunnel_conn_trace (reachable_connector T ?cs ''tcp'' ?tid) (\<lambda>s ok. Special (Stream s ok)) r new"
        for r new es' and w' :: "('a, 'b) connector_pool"
        using ep_inv_plains [OF ep_inv_streams [OF start named t that(3,1)] that(2)] by (simp add: ep_inv_def)
      have "wp (getTunnelConn T (ew_getconn E) (\<lambda>s ok. Special (Stream s ok)) ''tcp'' ?tid 3) Q (p, ?es)"
        if "\<And>r w' new. pool_connectors w' = ?cs \<Longrightarrow>
          tunnel_conn_trace (reachable_connector T ?cs ''tcp'' ?tid) (\<lambda>s ok. Special (Stream s ok)) r new \<Longrightarrow> Q r (w', ?es @ new)" for Q
        by (rule wp_getTunnelConn_pool, rule refl, rule that)
      then show ?thesis
        using False public served
        by (auto simp: tunnelHandler_Handle_def wp_simps hp Let_def)
    qed
  qed
  then show ?thesis by (rule io_trace_wp)
qed

end
