(* ===== verification/ForwardHandler.thy ===== *)
theory ForwardHandler
  imports Handler Sniff
begin

text \<open>
  The forwarding handlers (\<open>handler/forward/local/handler.go\<close>, \<open>handler/forward/remote/handler.go\<close>):
  a connection goes to the node a hop selects for its host, as a whole or, when it speaks HTTP,
  request by request, each to the node of its own host.
\<close>

section \<open>Nodes, requests and events\<close>

text \<open>
  A node, which is a pointer and has a number, with its address, marker, authenticator, TLS
  settings, and the host and header its HTTP settings give a request.
\<close>

record fw_node =
  fn_id :: nat
  fn_Addr :: string
  fn_Marker :: bool
  fn_Auther :: "(string \<Rightarrow> string \<Rightarrow> bool) option"
  fn_TLS :: "(string \<times> bool) option"
  fn_HTTP :: "(string \<times> (string \<times> string) list) option"

text \<open>
  A request: its host, the credentials of its Authorization header, its Upgrade header, and the
  header fields that were set since it was read.
\<close>

record fw_request =
  fr_host :: string
  fr_auth :: "string \<times> string"
  fr_upgrade :: string
  fr_set :: "(string \<times> string) list"

text \<open>A response is its status and the header fields of its own.\<close>

datatype fw_msg = HttpResp nat "(string \<times> string) list"

datatype fw_special =
    Sniffed string string
  | Selected string string "fw_node option"
  | Connected nat fw_node
  | StartTLS string bool
  | SendRequest nat fw_request bool
  | WebSocket nat
  | CloseConn nat
  | Panic

type_synonym fw_event = "(fw_request, fw_msg, fw_special) event"

record 'w forward_handler =
  fh_limiter :: "(string \<Rightarrow> bool) option"
  fh_hop :: "(string \<Rightarrow> string \<Rightarrow> 'w \<Rightarrow> fw_node option \<times> 'w) option"
  fh_sniffing :: bool

record 'w fw_world =
  fw_allow :: "('w, fw_event) history \<Rightarrow> bool"
  fw_sniff :: "('w, fw_event) history \<Rightarrow> string \<times> string"
  fw_dial :: "('w, fw_event) history \<Rightarrow> bool"
  fw_write :: "('w, fw_event) history \<Rightarrow> bool"

type_synonym ('w, 'a) fw_io = "('w, fw_event, 'a) io"

datatype fw_err = ErrNoTarget | ErrDial

text \<open>The node made for a host when there is no hop.\<close>

definition fw_plain_node :: "string \<Rightarrow> fw_node" where
  "fw_plain_node addr =
     \<lparr>fn_id = 0, fn_Addr = addr, fn_Marker = False, fn_Auther = None, fn_TLS = None, fn_HTTP = None\<rparr>"

definition fw_select ::
    "'w forward_handler \<Rightarrow> string \<Rightarrow> string \<Rightarrow> fw_node option \<Rightarrow> ('w, fw_node option) fw_io"
where
  "fw_select H host protocol plain =
     (case fh_hop H of
        None \<Rightarrow> return plain
      | Some sel \<Rightarrow> do {
          target \<leftarrow> act (sel host protocol);
          emit (Special (Selected host protocol target));
          return target
        })"

text \<open>A dial, after which the node is marked or its mark is reset.\<close>

definition fw_connect :: "'w fw_world \<Rightarrow> string \<Rightarrow> string \<Rightarrow> fw_node \<Rightarrow> ('w, bool) fw_io" where
  "fw_connect E network addr target = do {
     ok \<leftarrow> ask (fw_dial E) (Dial None network addr);
     (if fn_Marker target then emit (if ok then ResetTarget else MarkTarget) else return ());
     return ok
   }"

section \<open>Requests\<close>

text \<open>
  The connections of one client by node, with their numbers.  A node made for a request is a new
  pointer, which is never found again.
\<close>

type_synonym fw_pool = "(nat \<times> nat) list"

definition fw_lookup :: "'w forward_handler \<Rightarrow> fw_pool \<Rightarrow> fw_node \<Rightarrow> nat option" where
  "fw_lookup H pool target = (case fh_hop H of None \<Rightarrow> None | Some _ \<Rightarrow> map_of pool (fn_id target))"

text \<open>
  The goroutines whose copies ended, with the numbers of their connections and whether by an
  error.
\<close>

primrec fw_ended :: "'w fw_world \<Rightarrow> (nat \<times> bool) list \<Rightarrow> fw_pool \<Rightarrow> ('w, fw_pool) fw_io" where
  "fw_ended E [] pool = return pool"
| "fw_ended E (x # xs) pool =
     (if fst x \<in> snd ` set pool
      then do {
        (if snd x then ask (fw_write E) (Reply (HttpResp 503 [])) else return True);
        emit (Special (CloseConn (fst x)));
        fw_ended E xs (filter (\<lambda>e. snd e \<noteq> fst x) pool)
      }
      else fw_ended E xs pool)"

text \<open>The settings give the request another host and set fields of its header, perhaps Upgrade.\<close>

definition fw_rewrite :: "fw_node \<Rightarrow> fw_request \<Rightarrow> fw_request" where
  "fw_rewrite target req =
     (case fn_HTTP target of
        None \<Rightarrow> req
      | Some (host, header) \<Rightarrow>
          fold (\<lambda>(k, v) req. (if header_key ''upgrade'' k then req\<lparr>fr_upgrade := v\<rparr> else req)\<lparr>fr_set := fr_set req @ [(k, v)]\<rparr>)
            header (if host \<noteq> [] then req\<lparr>fr_host := host\<rparr> else req))"

text \<open>How a request ends: the loop goes on, or stops, or the handler panics.\<close>

datatype fw_next = Next fw_pool nat | Stop fw_pool | Crash

definition fw_respond :: "'w fw_world \<Rightarrow> nat \<Rightarrow> (string \<times> string) list \<Rightarrow> fw_pool \<Rightarrow> nat \<Rightarrow> ('w, fw_next) fw_io" where
  "fw_respond E status header pool n = do {
     ok \<leftarrow> ask (fw_write E) (Reply (HttpResp status header));
     return (if ok then Next pool n else Stop pool)
   }"

definition fw_send :: "'w fw_world \<Rightarrow> fw_node \<Rightarrow> fw_request \<Rightarrow> nat \<Rightarrow> fw_pool \<Rightarrow> nat \<Rightarrow> ('w, fw_next) fw_io" where
  "fw_send E target req k pool n = (let req = fw_rewrite target req in do {
     sent \<leftarrow> ask (fw_write E) (\<lambda>ok. Special (SendRequest k req ok));
     if \<not> sent then fw_respond E 503 [] pool n
     else if fr_upgrade req = ''websocket'' then do { emit (Special (WebSocket k)); return (Stop pool) }
     else return (Next pool n)
   })"

text \<open>A connection is opened for a request.\<close>

definition fw_open :: "'w fw_world \<Rightarrow> fw_node \<Rightarrow> fw_request \<Rightarrow> fw_pool \<Rightarrow> nat \<Rightarrow> ('w, fw_next) fw_io" where
  "fw_open E target req pool n = do {
     ok \<leftarrow> fw_connect E ''tcp'' (fn_Addr target) target;
     if \<not> ok then fw_respond E 503 [] pool n
     else do {
       (case fn_TLS target of None \<Rightarrow> return () | Some (name, secure) \<Rightarrow> emit (Special (StartTLS name secure)));
       emit (Special (Connected n target));
       fw_send E target req n ((fn_id target, n) # pool) (Suc n)
     }
   }"

text \<open>
  One request.  \<open>has_header\<close> says whether the response was made with a header: setting a field of a
  nil header panics.
\<close>

definition fw_request_step ::
    "bool \<Rightarrow> 'w fw_world \<Rightarrow> 'w forward_handler \<Rightarrow> fw_request \<Rightarrow> fw_pool \<Rightarrow> nat \<Rightarrow> ('w, fw_next) fw_io"
where
  "fw_request_step has_header E H req pool n = do {
     target \<leftarrow> fw_select H (fr_host req) ProtoHTTP (Some (fw_plain_node (fr_host req)));
     case target of
       None \<Rightarrow> fw_respond E 502 [] pool n
     | Some target \<Rightarrow>
         if (case fn_Auther target of None \<Rightarrow> False | Some auth \<Rightarrow> \<not> auth (fst (fr_auth req)) (snd (fr_auth req)))
         then (if has_header then fw_respond E 401 [(''WWW-Authenticate'', ''Basic'')] pool n
               else do { emit (Special Panic); return Crash })
         else case fw_lookup H pool target of
           Some k \<Rightarrow> fw_send E target req k pool n
         | None \<Rightarrow> fw_open E target req pool n
   }"

primrec fw_close_all :: "fw_pool \<Rightarrow> ('w, unit) fw_io" where
  "fw_close_all [] = return ()"
| "fw_close_all (e # pool) = do { emit (Special (CloseConn (snd e))); fw_close_all pool }"

text \<open>The loop, with the connections that ended before each request; the end of the list is an error.\<close>

primrec fw_loop ::
    "bool \<Rightarrow> 'w fw_world \<Rightarrow> 'w forward_handler \<Rightarrow> ((nat \<times> bool) list \<times> fw_request) list \<Rightarrow> fw_pool \<Rightarrow> nat \<Rightarrow> ('w, unit) fw_io"
where
  "fw_loop has_header E H [] pool n = fw_close_all pool"
| "fw_loop has_header E H (r # rs) pool n = do {
     pool \<leftarrow> fw_ended E (fst r) pool;
     emit (ReadRequest (Some (snd r)));
     next \<leftarrow> fw_request_step has_header E H (snd r) pool n;
     (case next of
        Next pool n \<Rightarrow> fw_loop has_header E H rs pool n
      | Stop pool \<Rightarrow> fw_close_all pool
      | Crash \<Rightarrow> return ())
   }"

definition forward_local_handleHTTP ::
    "'w fw_world \<Rightarrow> 'w forward_handler \<Rightarrow> ((nat \<times> bool) list \<times> fw_request) list \<Rightarrow> ('w, unit) fw_io"
where
  "forward_local_handleHTTP E H rs = fw_loop False E H rs [] 0"

definition forward_remote_handleHTTP ::
    "'w fw_world \<Rightarrow> 'w forward_handler \<Rightarrow> ((nat \<times> bool) list \<times> fw_request) list \<Rightarrow> ('w, unit) fw_io"
where
  "forward_remote_handleHTTP E H rs = fw_loop True E H rs [] 0"

section \<open>Connections\<close>

text \<open>The target is dialled at \<open>addr\<close> and the bytes are relayed.\<close>

definition fw_relay :: "'w fw_world \<Rightarrow> string \<Rightarrow> string \<Rightarrow> fw_node \<Rightarrow> ('w, fw_err option) fw_io" where
  "fw_relay E network addr target = do {
     ok \<leftarrow> fw_connect E network addr target;
     if \<not> ok then return (Some ErrDial)
     else deferring (emit CloseUp) (do { emit (Transport False []); return None })
   }"

text \<open>\<open>packets\<close> says whether the client's connection is one of datagrams.\<close>

definition forward_local_Handle ::
    "'w fw_world \<Rightarrow> 'w forward_handler \<Rightarrow> string \<Rightarrow> bool \<Rightarrow> ((nat \<times> bool) list \<times> fw_request) list \<Rightarrow> ('w, fw_err option) fw_io"
where
  "forward_local_Handle E H remote packets rs = deferring (emit CloseClient) (do {
     ok \<leftarrow> checkRateLimit (fh_limiter H) (fw_allow E) remote;
     if \<not> ok then return None
     else do {
       let network = (if packets then ''udp'' else ''tcp'');
       hp \<leftarrow> (if \<not> packets \<and> fh_sniffing H then ask (fw_sniff E) (\<lambda>hp. Special (Sniffed (fst hp) (snd hp))) else return ([], []));
       if snd hp = ProtoHTTP then do { forward_local_handleHTTP E H rs; return None }
       else do {
         let host = (if split_host_port (fst hp) = None then join_host_port (fst hp) ''0'' else fst hp);
         target \<leftarrow> fw_select H host (snd hp) (if host \<noteq> [] then Some (fw_plain_node host) else None);
         case target of
           None \<Rightarrow> return (Some ErrNoTarget)
         | Some target \<Rightarrow>
             fw_relay E network
               (if split_host_port (fn_Addr target) = None then fn_Addr target @ '':0'' else fn_Addr target) target
       }
     }
   })"

text \<open>\<open>md\<close> is the host of the metadata of the client's connection, or empty.\<close>

definition forward_remote_Handle ::
    "'w fw_world \<Rightarrow> 'w forward_handler \<Rightarrow> string \<Rightarrow> bool \<Rightarrow> string \<Rightarrow> ((nat \<times> bool) list \<times> fw_request) list \<Rightarrow>
     ('w, fw_err option) fw_io"
where
  "forward_remote_Handle E H remote packets md rs = deferring (emit CloseClient) (do {
     ok \<leftarrow> checkRateLimit (fh_limiter H) (fw_allow E) remote;
     if \<not> ok then return None
     else do {
       let network = (if packets then ''udp'' else ''tcp'');
       hp \<leftarrow> (if \<not> packets \<and> fh_sniffing H then ask (fw_sniff E) (\<lambda>hp. Special (Sniffed (fst hp) (snd hp))) else return ([], []));
       if snd hp = ProtoHTTP then do { forward_remote_handleHTTP E H rs; return None }
       else do {
         let host = (if md \<noteq> [] then md else fst hp);
         target \<leftarrow> fw_select H host (snd hp) (if host \<noteq> [] then Some (fw_plain_node host) else None);
         case target of
           None \<Rightarrow> return (Some ErrNoTarget)
         | Some target \<Rightarrow> fw_relay E network (fn_Addr target) target
       }
     }
   })"

section \<open>Where requests go\<close>


definition fw_authorized :: "fw_node \<Rightarrow> fw_request \<Rightarrow> bool" where
  "fw_authorized target req \<longleftrightarrow>
     (case fn_Auther target of None \<Rightarrow> True | Some auth \<Rightarrow> auth (fst (fr_auth req)) (snd (fr_auth req)))"








text \<open>The events of which nothing is asked.\<close>

definition fw_plain :: "fw_event \<Rightarrow> bool" where
  "fw_plain e = (case e of Dial h n a ok \<Rightarrow> False | Special (SendRequest k req ok) \<Rightarrow> False | Special Panic \<Rightarrow> False
     | Special (Connected k t) \<Rightarrow> False | _ \<Rightarrow> True)"


lemma fw_plain_simps [simp]:
  "fw_plain (Reply m ok)" "fw_plain (ReadRequest q)" "fw_plain (Transport u ms)" "fw_plain CloseUp" "fw_plain CloseClient"
  "fw_plain MarkTarget" "fw_plain ResetTarget" "fw_plain (Allow host ok)" "fw_plain (Special (Sniffed host p))"
  "fw_plain (Special (Selected host p t))" "fw_plain (Special (StartTLS host ok))" "fw_plain (Special (WebSocket k))"
  "fw_plain (Special (CloseConn k))"
  by (simp_all add: fw_plain_def)

























text \<open>
  A client brings the local handler down: when the first request is for a node with an
  authenticator that does not accept its credentials, the local handler panics, which ends the
  whole process, where the remote one answers 401.
\<close>

theorem forward_local_unauthorized_panics:
  assumes "fh_limiter H = None" "fh_sniffing H" "fh_hop H = Some sel" "fw_sniff E (w, []) = (host, ProtoHTTP)"
    and "sel (fr_host req) ProtoHTTP w = (Some target, w')" "\<not> fw_authorized target req"
  shows "Special Panic \<in> set (io_trace (forward_local_Handle E H remote False (([], req) # rs)) w) \<and>
    (\<exists>ok. Reply (HttpResp 401 [(''WWW-Authenticate'', ''Basic'')]) ok
      \<in> set (io_trace (forward_remote_Handle E H remote False md [([], req)]) w))"
proof -
  have auth: "(case fn_Auther target of None \<Rightarrow> False | Some auth \<Rightarrow> \<not> auth (fst (fr_auth req)) (snd (fr_auth req)))"
    using assms(6) by (auto simp: fw_authorized_def split: option.splits)
  note handle = fw_select_def fw_request_step_def fw_respond_def wp_simps checkRateLimit_def assms(1-5) auth Let_def
  have local: "wp (forward_local_Handle E H remote False (([], req) # rs)) (\<lambda>_ h. Special Panic \<in> set (snd h)) (w, [])"
    by (simp add: forward_local_Handle_def forward_local_handleHTTP_def handle)
  have remote: "wp (forward_remote_Handle E H remote False md [([], req)])
    (\<lambda>_ h. \<exists>ok. Reply (HttpResp 401 [(''WWW-Authenticate'', ''Basic'')]) ok \<in> set (snd h)) (w, [])"
    by (auto simp: forward_remote_Handle_def forward_remote_handleHTTP_def handle)
  show ?thesis
    using io_trace_wp [where P = "\<lambda>_ es. Special Panic \<in> set es", OF local]
      io_trace_wp [where P = "\<lambda>_ es. \<exists>ok. Reply (HttpResp 401 [(''WWW-Authenticate'', ''Basic'')]) ok \<in> set es", OF remote]
    by blast
qed

text \<open>A hop with one node, which has an authenticator.\<close>

definition demo_fw_node :: fw_node where
  "demo_fw_node = (fw_plain_node ''10.0.0.1:80'')\<lparr>fn_Auther := Some (\<lambda>u p. p = ''secret'')\<rparr>"

definition demo_forward :: "unit forward_handler" where
  "demo_forward = \<lparr>fh_limiter = None, fh_hop = Some (\<lambda>host protocol w. (Some demo_fw_node, w)), fh_sniffing = True\<rparr>"

definition demo_fw_world :: "unit fw_world" where
  "demo_fw_world =
     \<lparr>fw_allow = (\<lambda>_. True), fw_sniff = (\<lambda>_. (''a.example'', ProtoHTTP)), fw_dial = (\<lambda>_. True), fw_write = (\<lambda>_. True)\<rparr>"

theorem forward_local_unauthorized_panics_witness:
  "Special Panic \<in> set (io_trace (forward_local_Handle demo_fw_world demo_forward ''10.0.0.2:9'' False
     [([], \<lparr>fr_host = ''a.example'', fr_auth = ([], []), fr_upgrade = [], fr_set = []\<rparr>)]) ())"
  using forward_local_unauthorized_panics [of demo_forward _ demo_fw_world "()" "''a.example''"
      "\<lparr>fr_host = ''a.example'', fr_auth = ([], []), fr_upgrade = [], fr_set = []\<rparr>" demo_fw_node "()" "''10.0.0.2:9''" "[]"]
  by (simp add: demo_forward_def demo_fw_world_def fw_authorized_def demo_fw_node_def)

text \<open>
  Without a sniffed host the local handler asks the hop for the host ``:0'', whatever the protocol
  is: a hop then filters its nodes by host, and never by protocol.
\<close>

lemma forward_local_asks_for_port:
  assumes "fh_limiter H = None" "fh_sniffing H" "fh_hop H = Some sel" "fw_sniff E (w, []) = ([], protocol)" "protocol \<noteq> ProtoHTTP"
  shows "Special (Selected '':0'' protocol (fst (sel '':0'' protocol w)))
    \<in> set (io_trace (forward_local_Handle E H remote False rs) w)"
proof -
  have "split_host_port [] = None" "join_host_port [] ''0'' = '':0''" by code_simp+
  then have "wp (forward_local_Handle E H remote False rs)
      (\<lambda>_ h. Special (Selected '':0'' protocol (fst (sel '':0'' protocol w))) \<in> set (snd h)) (w, [])"
    using assms(5)
    by (auto simp: forward_local_Handle_def fw_select_def fw_relay_def fw_connect_def checkRateLimit_def wp_simps assms(1-4) Let_def
        split: option.split)
  then show ?thesis by (rule io_trace_wp)
qed

end
