(* ===== verification/Api.thy ===== *)
theory Api
  imports Registry
begin

text \<open>
  The web API (\<open>api/\<close>) over the configuration (\<open>config/config.go\<close>) and the registries: the
  handlers that create, update and delete named objects, the routes to them, and the
  authentication in front of them.  The parsers that make an object of its configuration are a
  parameter (they are modelled in \<open>config/parsing\<close>), and so is the framework that reads the
  requests; each handler runs to its end, as between the locks of the configuration.
\<close>

section \<open>Objects and the state of the process\<close>

text \<open>The lists of a configuration, each with its registry.\<close>

datatype api_kind = Services | Chains | Hops | Authers | Admissions | Bypasses | Resolvers
  | HostMappers | Ingresses | Limiters | CLimiters | RLimiters

record 'c config_entry =
  ce_name :: string
  ce_data :: 'c

text \<open>An object has a number of its own, and the configuration it was made of.\<close>

record 'c object =
  ob_id :: nat
  ob_config :: "'c config_entry"

datatype effect = Parsed api_kind nat | Closed api_kind nat | Serving nat

record 'c api_state =
  as_config :: "api_kind \<Rightarrow> 'c config_entry list"
  as_registry :: "api_kind \<Rightarrow> 'c object registry"
  as_next :: nat
  as_effects :: "effect list"

text \<open>
  The parsers: whether one fails, which may depend on what was done before (a port in use), what
  it leaves of the configuration, in which it fills in defaults, and whether its objects have a
  \<open>Close\<close>.
\<close>

record 'c api_parser =
  ap_fails :: "api_kind \<Rightarrow> 'c config_entry \<Rightarrow> effect list \<Rightarrow> bool"
  ap_data :: "api_kind \<Rightarrow> 'c \<Rightarrow> 'c"
  ap_closer :: "api_kind \<Rightarrow> bool"

section \<open>Errors and responses\<close>

record api_error =
  ae_statusCode :: int
  ae_Code :: int
  ae_Msg :: string

definition api_ErrInvalid :: api_error where "api_ErrInvalid = \<lparr>ae_statusCode = 400, ae_Code = 40001, ae_Msg = ''object invalid''\<rparr>"
definition api_ErrDup :: api_error where "api_ErrDup = \<lparr>ae_statusCode = 400, ae_Code = 40002, ae_Msg = ''object duplicated''\<rparr>"
definition api_ErrCreate :: api_error where "api_ErrCreate = \<lparr>ae_statusCode = 409, ae_Code = 40003, ae_Msg = ''object creation failed''\<rparr>"
definition api_ErrNotFound :: api_error where "api_ErrNotFound = \<lparr>ae_statusCode = 400, ae_Code = 40004, ae_Msg = ''object not found''\<rparr>"

text \<open>An error of another type is \<open>None\<close>.\<close>

definition getStatusCode :: "api_error option \<Rightarrow> int" where
  "getStatusCode err =
     (case err of Some e \<Rightarrow> if ae_statusCode e \<ge> 200 \<and> ae_statusCode e < 600 then ae_statusCode e else 500
      | None \<Rightarrow> 500)"

text \<open>
  A response: its status, code and message, or the configuration in a format.  \<open>Unauthorized\<close> and
  \<open>NoRoute\<close> have no body.
\<close>

datatype 'c api_response =
    Answer int int string
  | ConfigData string string "api_kind \<Rightarrow> 'c config_entry list"
  | Unauthorized
  | NoRoute

definition writeError :: "api_error \<Rightarrow> 'c api_response" where
  "writeError err = Answer (getStatusCode (Some err)) (ae_Code err) (ae_Msg err)"

definition api_OK :: "'c api_response" where "api_OK = Answer 200 0 ''OK''"

section \<open>What the handlers call\<close>

text \<open>The functions of \<open>OnUpdate\<close>, on one list.\<close>

definition config_append :: "api_kind \<Rightarrow> 'c config_entry \<Rightarrow> 'c api_state \<Rightarrow> 'c api_state" where
  "config_append k c s = s\<lparr>as_config := (as_config s)(k := as_config s k @ [c])\<rparr>"

primrec replace_first :: "string \<Rightarrow> 'c config_entry \<Rightarrow> 'c config_entry list \<Rightarrow> 'c config_entry list" where
  "replace_first name c [] = []"
| "replace_first name c (e # es) = (if ce_name e = name then c # es else e # replace_first name c es)"

definition config_replace :: "api_kind \<Rightarrow> string \<Rightarrow> 'c config_entry \<Rightarrow> 'c api_state \<Rightarrow> 'c api_state" where
  "config_replace k name c s = s\<lparr>as_config := (as_config s)(k := replace_first name c (as_config s k))\<rparr>"

definition config_remove :: "api_kind \<Rightarrow> string \<Rightarrow> 'c api_state \<Rightarrow> 'c api_state" where
  "config_remove k name s = s\<lparr>as_config := (as_config s)(k := filter (\<lambda>e. ce_name e \<noteq> name) (as_config s k))\<rparr>"

text \<open>The registry of a kind; what is removed is closed where it can be.\<close>

definition api_Register :: "api_kind \<Rightarrow> string \<Rightarrow> 'c object \<Rightarrow> 'c api_state \<Rightarrow> bool \<times> 'c api_state" where
  "api_Register k name v s =
     (case registry_Register name (Some v) (as_registry s k) of
        (err, r) \<Rightarrow> (err = None, s\<lparr>as_registry := (as_registry s)(k := r)\<rparr>))"

definition api_Unregister :: "'c api_parser \<Rightarrow> api_kind \<Rightarrow> string \<Rightarrow> 'c api_state \<Rightarrow> 'c api_state" where
  "api_Unregister P k name s =
     (case registry_Unregister (\<lambda>_. ap_closer P k) name (as_registry s k) of
        (closed, r) \<Rightarrow> s\<lparr>as_registry := (as_registry s)(k := r), as_effects := as_effects s @ map (\<lambda>v. Closed k (ob_id v)) closed\<rparr>)"

definition api_effect :: "effect \<Rightarrow> 'c api_state \<Rightarrow> 'c api_state" where
  "api_effect e s = s\<lparr>as_effects := as_effects s @ [e]\<rparr>"

text \<open>A parser that cannot fail, and one that can.  The configuration is the one it leaves.\<close>

definition api_parse ::
    "'c api_parser \<Rightarrow> api_kind \<Rightarrow> 'c config_entry \<Rightarrow> 'c api_state \<Rightarrow> 'c object \<times> 'c api_state"
where
  "api_parse P k c s =
     (\<lparr>ob_id = as_next s, ob_config = c\<lparr>ce_data := ap_data P k (ce_data c)\<rparr>\<rparr>,
      s\<lparr>as_next := Suc (as_next s), as_effects := as_effects s @ [Parsed k (as_next s)]\<rparr>)"

definition api_try_parse ::
    "'c api_parser \<Rightarrow> api_kind \<Rightarrow> 'c config_entry \<Rightarrow> 'c api_state \<Rightarrow> 'c object option \<times> 'c api_state"
where
  "api_try_parse P k c s =
     (if ap_fails P k c (as_effects s) then (None, s)
      else case api_parse P k c s of (v, s') \<Rightarrow> (Some v, s'))"

section \<open>Objects that are only registered\<close>

text \<open>The parsers of chains, hops and resolvers return an error; the others do not.\<close>

definition api_parser_fails :: "api_kind \<Rightarrow> bool" where
  "api_parser_fails k \<longleftrightarrow> k \<in> {Chains, Hops, Resolvers}"

definition api_make ::
    "'c api_parser \<Rightarrow> api_kind \<Rightarrow> 'c config_entry \<Rightarrow> 'c api_state \<Rightarrow> 'c object option \<times> 'c api_state"
where
  "api_make P k c s =
     (if api_parser_fails k then api_try_parse P k c s
      else case api_parse P k c s of (v, s') \<Rightarrow> (Some v, s'))"

definition api_create ::
    "api_kind \<Rightarrow> 'c api_parser \<Rightarrow> 'c config_entry \<Rightarrow> 'c api_state \<Rightarrow> 'c api_response \<times> 'c api_state"
where
  "api_create k P req s =
     (if ce_name req = [] then (writeError api_ErrInvalid, s)
      else case api_make P k req s of
        (None, s) \<Rightarrow> (writeError api_ErrCreate, s)
      | (Some v, s) \<Rightarrow>
          (case api_Register k (ce_name req) v s of
             (False, s) \<Rightarrow> (writeError api_ErrDup, s)
           | (True, s) \<Rightarrow> (api_OK, config_append k (ob_config v) s)))"

definition api_update ::
    "api_kind \<Rightarrow> 'c api_parser \<Rightarrow> string \<Rightarrow> 'c config_entry \<Rightarrow> 'c api_state \<Rightarrow> 'c api_response \<times> 'c api_state"
where
  "api_update k P name req s =
     (if \<not> registry_IsRegistered name (as_registry s k) then (writeError api_ErrNotFound, s)
      else case api_make P k (req\<lparr>ce_name := name\<rparr>) s of
        (None, s) \<Rightarrow> (writeError api_ErrCreate, s)
      | (Some v, s) \<Rightarrow>
          (case api_Register k name v (api_Unregister P k name s) of
             (False, s) \<Rightarrow> (writeError api_ErrDup, s)
           | (True, s) \<Rightarrow> (api_OK, config_replace k name (ob_config v) s)))"

definition api_delete ::
    "api_kind \<Rightarrow> 'c api_parser \<Rightarrow> string \<Rightarrow> 'c api_state \<Rightarrow> 'c api_response \<times> 'c api_state"
where
  "api_delete k P name s =
     (if \<not> registry_IsRegistered name (as_registry s k) then (writeError api_ErrNotFound, s)
      else (api_OK, config_remove k name (api_Unregister P k name s)))"

definition createChain :: "'c api_parser \<Rightarrow> 'c config_entry \<Rightarrow> 'c api_state \<Rightarrow> 'c api_response \<times> 'c api_state" where
  "createChain = api_create Chains"

definition updateChain :: "'c api_parser \<Rightarrow> string \<Rightarrow> 'c config_entry \<Rightarrow> 'c api_state \<Rightarrow> 'c api_response \<times> 'c api_state" where
  "updateChain = api_update Chains"

definition deleteChain :: "'c api_parser \<Rightarrow> string \<Rightarrow> 'c api_state \<Rightarrow> 'c api_response \<times> 'c api_state" where
  "deleteChain = api_delete Chains"

definition createHop :: "'c api_parser \<Rightarrow> 'c config_entry \<Rightarrow> 'c api_state \<Rightarrow> 'c api_response \<times> 'c api_state" where
  "createHop = api_create Hops"

definition updateHop :: "'c api_parser \<Rightarrow> string \<Rightarrow> 'c config_entry \<Rightarrow> 'c api_state \<Rightarrow> 'c api_response \<times> 'c api_state" where
  "updateHop = api_update Hops"

definition deleteHop :: "'c api_parser \<Rightarrow> string \<Rightarrow> 'c api_state \<Rightarrow> 'c api_response \<times> 'c api_state" where
  "deleteHop = api_delete Hops"

definition createAuther :: "'c api_parser \<Rightarrow> 'c config_entry \<Rightarrow> 'c api_state \<Rightarrow> 'c api_response \<times> 'c api_state" where
  "createAuther = api_create Authers"

definition updateAuther :: "'c api_parser \<Rightarrow> string \<Rightarrow> 'c config_entry \<Rightarrow> 'c api_state \<Rightarrow> 'c api_response \<times> 'c api_state" where
  "updateAuther = api_update Authers"

definition deleteAuther :: "'c api_parser \<Rightarrow> string \<Rightarrow> 'c api_state \<Rightarrow> 'c api_response \<times> 'c api_state" where
  "deleteAuther = api_delete Authers"

definition createAdmission :: "'c api_parser \<Rightarrow> 'c config_entry \<Rightarrow> 'c api_state \<Rightarrow> 'c api_response \<times> 'c api_state" where
  "createAdmission = api_create Admissions"

definition updateAdmission :: "'c api_parser \<Rightarrow> string \<Rightarrow> 'c config_entry \<Rightarrow> 'c api_state \<Rightarrow> 'c api_response \<times> 'c api_state" where
  "updateAdmission = api_update Admissions"

definition deleteAdmission :: "'c api_parser \<Rightarrow> string \<Rightarrow> 'c api_state \<Rightarrow> 'c api_response \<times> 'c api_state" where
  "deleteAdmission = api_delete Admissions"

definition createBypass :: "'c api_parser \<Rightarrow> 'c config_entry \<Rightarrow> 'c api_state \<Rightarrow> 'c api_response \<times> 'c api_state" where
  "createBypass = api_create Bypasses"

definition updateBypass :: "'c api_parser \<Rightarrow> string \<Rightarrow> 'c config_entry \<Rightarrow> 'c api_state \<Rightarrow> 'c api_response \<times> 'c api_state" where
  "updateBypass = api_update Bypasses"

definition deleteBypass :: "'c api_parser \<Rightarrow> string \<Rightarrow> 'c api_state \<Rightarrow> 'c api_response \<times> 'c api_state" where
  "deleteBypass = api_delete Bypasses"

definition createResolver :: "'c api_parser \<Rightarrow> 'c config_entry \<Rightarrow> 'c api_state \<Rightarrow> 'c api_response \<times> 'c api_state" where
  "createResolver = api_create Resolvers"

definition updateResolver :: "'c api_parser \<Rightarrow> string \<Rightarrow> 'c config_entry \<Rightarrow> 'c api_state \<Rightarrow> 'c api_response \<times> 'c api_state" where
  "updateResolver = api_update Resolvers"

definition deleteResolver :: "'c api_parser \<Rightarrow> string \<Rightarrow> 'c api_state \<Rightarrow> 'c api_response \<times> 'c api_state" where
  "deleteResolver = api_delete Resolvers"

definition createHosts :: "'c api_parser \<Rightarrow> 'c config_entry \<Rightarrow> 'c api_state \<Rightarrow> 'c api_response \<times> 'c api_state" where
  "createHosts = api_create HostMappers"

definition updateHosts :: "'c api_parser \<Rightarrow> string \<Rightarrow> 'c config_entry \<Rightarrow> 'c api_state \<Rightarrow> 'c api_response \<times> 'c api_state" where
  "updateHosts = api_update HostMappers"

definition deleteHosts :: "'c api_parser \<Rightarrow> string \<Rightarrow> 'c api_state \<Rightarrow> 'c api_response \<times> 'c api_state" where
  "deleteHosts = api_delete HostMappers"

definition createIngress :: "'c api_parser \<Rightarrow> 'c config_entry \<Rightarrow> 'c api_state \<Rightarrow> 'c api_response \<times> 'c api_state" where
  "createIngress = api_create Ingresses"

definition updateIngress :: "'c api_parser \<Rightarrow> string \<Rightarrow> 'c config_entry \<Rightarrow> 'c api_state \<Rightarrow> 'c api_response \<times> 'c api_state" where
  "updateIngress = api_update Ingresses"

definition deleteIngress :: "'c api_parser \<Rightarrow> string \<Rightarrow> 'c api_state \<Rightarrow> 'c api_response \<times> 'c api_state" where
  "deleteIngress = api_delete Ingresses"

definition createLimiter :: "'c api_parser \<Rightarrow> 'c config_entry \<Rightarrow> 'c api_state \<Rightarrow> 'c api_response \<times> 'c api_state" where
  "createLimiter = api_create Limiters"

definition updateLimiter :: "'c api_parser \<Rightarrow> string \<Rightarrow> 'c config_entry \<Rightarrow> 'c api_state \<Rightarrow> 'c api_response \<times> 'c api_state" where
  "updateLimiter = api_update Limiters"

definition deleteLimiter :: "'c api_parser \<Rightarrow> string \<Rightarrow> 'c api_state \<Rightarrow> 'c api_response \<times> 'c api_state" where
  "deleteLimiter = api_delete Limiters"

definition createConnLimiter :: "'c api_parser \<Rightarrow> 'c config_entry \<Rightarrow> 'c api_state \<Rightarrow> 'c api_response \<times> 'c api_state" where
  "createConnLimiter = api_create CLimiters"

definition updateConnLimiter :: "'c api_parser \<Rightarrow> string \<Rightarrow> 'c config_entry \<Rightarrow> 'c api_state \<Rightarrow> 'c api_response \<times> 'c api_state" where
  "updateConnLimiter = api_update CLimiters"

definition deleteConnLimiter :: "'c api_parser \<Rightarrow> string \<Rightarrow> 'c api_state \<Rightarrow> 'c api_response \<times> 'c api_state" where
  "deleteConnLimiter = api_delete CLimiters"

definition createRateLimiter :: "'c api_parser \<Rightarrow> 'c config_entry \<Rightarrow> 'c api_state \<Rightarrow> 'c api_response \<times> 'c api_state" where
  "createRateLimiter = api_create RLimiters"

definition updateRateLimiter :: "'c api_parser \<Rightarrow> string \<Rightarrow> 'c config_entry \<Rightarrow> 'c api_state \<Rightarrow> 'c api_response \<times> 'c api_state" where
  "updateRateLimiter = api_update RLimiters"

definition deleteRateLimiter :: "'c api_parser \<Rightarrow> string \<Rightarrow> 'c api_state \<Rightarrow> 'c api_response \<times> 'c api_state" where
  "deleteRateLimiter = api_delete RLimiters"

section \<open>Services\<close>

definition createService :: "'c api_parser \<Rightarrow> 'c config_entry \<Rightarrow> 'c api_state \<Rightarrow> 'c api_response \<times> 'c api_state" where
  "createService P req s =
     (if ce_name req = [] then (writeError api_ErrInvalid, s)
      else if registry_IsRegistered (ce_name req) (as_registry s Services) then (writeError api_ErrDup, s)
      else case api_try_parse P Services req s of
        (None, s) \<Rightarrow> (writeError api_ErrCreate, s)
      | (Some svc, s) \<Rightarrow>
          (case api_Register Services (ce_name req) svc s of
             (False, s) \<Rightarrow> (writeError api_ErrDup, api_effect (Closed Services (ob_id svc)) s)
           | (True, s) \<Rightarrow> (api_OK, config_append Services (ob_config svc) (api_effect (Serving (ob_id svc)) s))))"

definition updateService :: "'c api_parser \<Rightarrow> string \<Rightarrow> 'c config_entry \<Rightarrow> 'c api_state \<Rightarrow> 'c api_response \<times> 'c api_state" where
  "updateService P name req s =
     (case registry_Get name (as_registry s Services) of
        None \<Rightarrow> (writeError api_ErrNotFound, s)
      | Some old \<Rightarrow>
          (case api_try_parse P Services (req\<lparr>ce_name := name\<rparr>) (api_effect (Closed Services (ob_id old)) s) of
             (None, s) \<Rightarrow> (writeError api_ErrCreate, s)
           | (Some svc, s) \<Rightarrow>
               (case api_Register Services name svc (api_Unregister P Services name s) of
                  (False, s) \<Rightarrow> (writeError api_ErrDup, api_effect (Closed Services (ob_id svc)) s)
                | (True, s) \<Rightarrow>
                    (api_OK, config_replace Services name (ob_config svc) (api_effect (Serving (ob_id svc)) s)))))"

definition deleteService :: "'c api_parser \<Rightarrow> string \<Rightarrow> 'c api_state \<Rightarrow> 'c api_response \<times> 'c api_state" where
  "deleteService P name s =
     (case registry_Get name (as_registry s Services) of
        None \<Rightarrow> (writeError api_ErrNotFound, s)
      | Some svc \<Rightarrow>
          (api_OK, config_remove Services name (api_effect (Closed Services (ob_id svc)) (api_Unregister P Services name s))))"

section \<open>The configuration\<close>

definition getConfig :: "string \<Rightarrow> 'c api_state \<Rightarrow> 'c api_response \<times> 'c api_state" where
  "getConfig format s =
     (let format = (if format = ''yaml'' then format else ''json'');
          contentType = (if format = ''yaml'' then ''text/x-yaml'' else ''application/json'')
      in (ConfigData contentType format (as_config s), s))"

text \<open>
  \<open>create\<close> is the error of creating the file, \<open>write\<close> that of writing it.  The second component is
  the file written, with its format.
\<close>

definition saveConfig ::
    "(string \<Rightarrow> string option) \<Rightarrow> string option \<Rightarrow> string \<Rightarrow> 'c api_state \<Rightarrow> 'c api_response \<times> (string \<times> string) option"
where
  "saveConfig create write format s =
     (let file = (if format = ''json'' then ''gost.json'' else ''gost.yaml'');
          format = (if format = ''json'' then format else ''yaml'')
      in case create file of
           Some e \<Rightarrow> (writeError \<lparr>ae_statusCode = 500, ae_Code = 40005, ae_Msg = ''create file: '' @ e\<rparr>, None)
         | None \<Rightarrow>
             (case write of
                Some e \<Rightarrow> (writeError \<lparr>ae_statusCode = 500, ae_Code = 40006, ae_Msg = ''write: '' @ e\<rparr>, Some (file, format))
              | None \<Rightarrow> (api_OK, Some (file, format))))"

section \<open>Routes\<close>

text \<open>A handler takes the object of the body, the name of the path, both, or neither.\<close>

datatype 'c api_handler =
    Post "'c config_entry \<Rightarrow> 'c api_state \<Rightarrow> 'c api_response \<times> 'c api_state"
  | Put "string \<Rightarrow> 'c config_entry \<Rightarrow> 'c api_state \<Rightarrow> 'c api_response \<times> 'c api_state"
  | Delete "string \<Rightarrow> 'c api_state \<Rightarrow> 'c api_response \<times> 'c api_state"

definition registerConfig :: "'c api_parser \<Rightarrow> ((string \<times> string) \<times> 'c api_handler) list" where
  "registerConfig P =
     [((''POST'', ''services''), Post (createService P)), ((''PUT'', ''services''), Put (updateService P)),
      ((''DELETE'', ''services''), Delete (deleteService P)),
      ((''POST'', ''chains''), Post (createChain P)), ((''PUT'', ''chains''), Put (updateChain P)),
      ((''DELETE'', ''chains''), Delete (deleteChain P)),
      ((''POST'', ''hops''), Post (createHop P)), ((''PUT'', ''hops''), Put (updateHop P)),
      ((''DELETE'', ''hops''), Delete (deleteHop P)),
      ((''POST'', ''authers''), Post (createAuther P)), ((''PUT'', ''authers''), Put (updateAuther P)),
      ((''DELETE'', ''authers''), Delete (deleteAuther P)),
      ((''POST'', ''admissions''), Post (createAdmission P)), ((''PUT'', ''admissions''), Put (updateAdmission P)),
      ((''DELETE'', ''admissions''), Delete (deleteAdmission P)),
      ((''POST'', ''bypasses''), Post (createBypass P)), ((''PUT'', ''bypasses''), Put (updateBypass P)),
      ((''DELETE'', ''bypasses''), Delete (deleteBypass P)),
      ((''POST'', ''resolvers''), Post (createResolver P)), ((''PUT'', ''resolvers''), Put (updateResolver P)),
      ((''DELETE'', ''resolvers''), Delete (deleteResolver P)),
      ((''POST'', ''hosts''), Post (createHosts P)), ((''PUT'', ''hosts''), Put (updateHosts P)),
      ((''DELETE'', ''hosts''), Delete (deleteHosts P)),
      ((''POST'', ''ingresses''), Post (createIngress P)), ((''PUT'', ''ingresses''), Put (updateIngress P)),
      ((''DELETE'', ''ingresses''), Delete (deleteIngress P)),
      ((''POST'', ''limiters''), Post (createLimiter P)), ((''PUT'', ''limiters''), Put (updateLimiter P)),
      ((''DELETE'', ''limiters''), Delete (deleteLimiter P)),
      ((''POST'', ''climiters''), Post (createConnLimiter P)), ((''PUT'', ''climiters''), Put (updateConnLimiter P)),
      ((''DELETE'', ''climiters''), Delete (deleteConnLimiter P)),
      ((''POST'', ''rlimiters''), Post (createRateLimiter P)), ((''PUT'', ''rlimiters''), Put (updateRateLimiter P)),
      ((''DELETE'', ''rlimiters''), Delete (deleteRateLimiter P))]"

text \<open>
  A request under \<open>/config\<close>: its credentials, method and list, the name in the path, the body, and
  the format of the query.
\<close>

record 'c api_request =
  ar_user :: string
  ar_pass :: string
  ar_method :: string
  ar_list :: string
  ar_name :: string
  ar_body :: "'c config_entry"

definition mwBasicAuth :: "(string \<Rightarrow> string \<Rightarrow> bool) option \<Rightarrow> 'c api_request \<Rightarrow> bool" where
  "mwBasicAuth auther r = (case auther of None \<Rightarrow> True | Some auth \<Rightarrow> auth (ar_user r) (ar_pass r))"

definition api_serve ::
    "'c api_parser \<Rightarrow> (string \<Rightarrow> string \<Rightarrow> bool) option \<Rightarrow> 'c api_request \<Rightarrow> 'c api_state \<Rightarrow> 'c api_response \<times> 'c api_state"
where
  "api_serve P auther r s =
     (case map_of (registerConfig P) (ar_method r, ar_list r) of
        None \<Rightarrow> (NoRoute, s)
      | Some h \<Rightarrow>
          if (case h of Post _ \<Rightarrow> ar_name r \<noteq> [] | _ \<Rightarrow> ar_name r = []) then (NoRoute, s)
          else if \<not> mwBasicAuth auther r then (Unauthorized, s)
          else case h of Post f \<Rightarrow> f (ar_body r) s | Put f \<Rightarrow> f (ar_name r) (ar_body r) s | Delete f \<Rightarrow> f (ar_name r) s)"

definition api_run ::
    "'c api_parser \<Rightarrow> (string \<Rightarrow> string \<Rightarrow> bool) option \<Rightarrow> 'c api_request list \<Rightarrow> 'c api_state \<Rightarrow> 'c api_state"
where
  "api_run P auther rs s = fold (\<lambda>r s. snd (api_serve P auther r s)) rs s"

lemmas api_kind_defs = createChain_def updateChain_def deleteChain_def createHop_def updateHop_def deleteHop_def
  createAuther_def updateAuther_def deleteAuther_def createAdmission_def updateAdmission_def deleteAdmission_def
  createBypass_def updateBypass_def deleteBypass_def createResolver_def updateResolver_def deleteResolver_def
  createHosts_def updateHosts_def deleteHosts_def createIngress_def updateIngress_def deleteIngress_def
  createLimiter_def updateLimiter_def deleteLimiter_def createConnLimiter_def updateConnLimiter_def deleteConnLimiter_def
  createRateLimiter_def updateRateLimiter_def deleteRateLimiter_def

text \<open>Every route is an operation on one kind.\<close>

inductive api_operation :: "'c api_parser \<Rightarrow> ('c api_state \<Rightarrow> 'c api_response \<times> 'c api_state) \<Rightarrow> bool" for P where
  create: "k \<noteq> Services \<Longrightarrow> api_operation P (api_create k P req)"
| update: "k \<noteq> Services \<Longrightarrow> api_operation P (api_update k P name req)"
| delete: "k \<noteq> Services \<Longrightarrow> api_operation P (api_delete k P name)"
| create_service: "api_operation P (createService P req)"
| update_service: "api_operation P (updateService P name req)"
| delete_service: "api_operation P (deleteService P name)"

lemma registerConfig_operation:
  "(key, h) \<in> set (registerConfig P) \<Longrightarrow>
   (case h of Post f \<Rightarrow> \<forall>b. api_operation P (f b) | Put f \<Rightarrow> \<forall>n b. api_operation P (f n b) | Delete f \<Rightarrow> \<forall>n. api_operation P (f n))"
  by (auto simp: registerConfig_def api_kind_defs intro: api_operation.intros)

text \<open>An invariant of the operations is one of the server.\<close>

lemma api_run_invariant:
  assumes "\<And>f s. api_operation P f \<Longrightarrow> I s \<Longrightarrow> I (snd (f s))" "I s"
  shows "I (api_run P auther rs s)"
  using assms(2)
proof (induction rs arbitrary: s)
  case (Cons r rs)
  have "I (snd (api_serve P auther r s))"
  proof (cases "map_of (registerConfig P) (ar_method r, ar_list r)")
    case (Some h)
    note op = registerConfig_operation [OF map_of_SomeD [OF Some]]
    show ?thesis
      using op assms(1) Cons.prems by (cases h) (auto simp: api_serve_def Some)
  qed (simp add: api_serve_def Cons.prems)
  then show ?case using Cons.IH by (simp add: api_run_def)
qed (simp add: api_run_def)

section \<open>The configuration and the registries agree\<close>

definition config_map :: "'c config_entry list \<Rightarrow> string \<rightharpoonup> 'c config_entry" where
  "config_map es = map_of (map (\<lambda>c. (ce_name c, c)) es)"

text \<open>
  \<open>agrees n es r\<close>: the names of the list are distinct and are those registered, the object of a
  name was made of the configuration listed for it, and its number is below \<open>n\<close>.
\<close>

definition agrees :: "nat \<Rightarrow> 'c config_entry list \<Rightarrow> 'c object registry \<Rightarrow> bool" where
  "agrees n es r \<longleftrightarrow> distinct (map ce_name es) \<and> (\<forall>name. r name \<noteq> Some None) \<and>
     (\<forall>name. config_map es name = Option.bind (r name) (map_option ob_config)) \<and>
     (\<forall>name v. r name = Some (Some v) \<longrightarrow> ob_id v < n)"

lemma config_map_None: "config_map es name = None \<longleftrightarrow> name \<notin> ce_name ` set es"
  by (simp add: config_map_def map_of_eq_None_iff image_image)

lemma config_map_append:
  assumes "ce_name c \<notin> ce_name ` set es"
  shows "config_map (es @ [c]) = (config_map es)(ce_name c \<mapsto> c)"
proof -
  have "config_map es (ce_name c) = None" using assms by (simp add: config_map_None)
  then show ?thesis by (intro ext) (auto simp: config_map_def map_add_def split: option.split)
qed

lemma config_map_replace:
  "ce_name c = name \<Longrightarrow> name \<in> ce_name ` set es \<Longrightarrow> config_map (replace_first name c es) = (config_map es)(name \<mapsto> c)"
  by (induction es) (auto simp: config_map_def)

lemma replace_first_names: "ce_name c = name \<Longrightarrow> map ce_name (replace_first name c es) = map ce_name es"
  by (induction es) auto

lemma config_map_remove: "config_map (filter (\<lambda>e. ce_name e \<noteq> name) es) = (config_map es)(name := None)"
  by (induction es) (auto simp: config_map_def)

lemma agrees_less: "agrees n es r \<Longrightarrow> n \<le> m \<Longrightarrow> agrees m es r"
  unfolding agrees_def by (meson order_less_le_trans)

lemma agrees_listed:
  assumes "agrees n es r"
  shows "name \<in> ce_name ` set es \<longleftrightarrow> r name \<noteq> None"
proof -
  have "config_map es name = Option.bind (r name) (map_option ob_config)" "r name \<noteq> Some None"
    using assms by (auto simp: agrees_def)
  moreover have "name \<in> ce_name ` set es \<longleftrightarrow> config_map es name \<noteq> None" by (simp add: config_map_None)
  ultimately show ?thesis by (cases "r name") auto
qed

lemma agrees_append:
  assumes "agrees n es r" "r (ce_name c) = None" "ob_config v = c" "ob_id v < n"
  shows "agrees n (es @ [c]) (r(ce_name c \<mapsto> Some v))"
proof -
  have "ce_name c \<notin> ce_name ` set es"
    using agrees_listed [OF assms(1)] assms(2) by blast
  with assms show ?thesis
    by (simp add: agrees_def config_map_append)
qed

lemma agrees_replace:
  assumes "agrees n es r" "r (ce_name c) \<noteq> None" "ob_config v = c" "ob_id v < n"
  shows "agrees n (replace_first (ce_name c) c es) (r(ce_name c \<mapsto> Some v))"
proof -
  have "ce_name c \<in> ce_name ` set es"
    using agrees_listed [OF assms(1)] assms(2) by blast
  with assms show ?thesis
    by (simp add: agrees_def config_map_replace replace_first_names)
qed

lemma agrees_remove:
  "agrees n es r \<Longrightarrow> agrees n (filter (\<lambda>e. ce_name e \<noteq> name) es) (r(name := None))"
  by (auto simp: agrees_def config_map_remove distinct_map inj_on_def)

definition api_consistent :: "'c api_state \<Rightarrow> bool" where
  "api_consistent s \<longleftrightarrow> (\<forall>k. agrees (as_next s) (as_config s k) (as_registry s k))"

text \<open>A parser makes one object, or nothing.\<close>

definition after_parse :: "api_kind \<Rightarrow> 'c api_state \<Rightarrow> 'c api_state" where
  "after_parse k s = s\<lparr>as_next := Suc (as_next s), as_effects := as_effects s @ [Parsed k (as_next s)]\<rparr>"

definition parsed_object :: "'c api_parser \<Rightarrow> api_kind \<Rightarrow> 'c config_entry \<Rightarrow> nat \<Rightarrow> 'c object" where
  "parsed_object P k c n = \<lparr>ob_id = n, ob_config = c\<lparr>ce_data := ap_data P k (ce_data c)\<rparr>\<rparr>"

lemma parsed_object_simps [simp]:
  "ob_id (parsed_object P k c n) = n" "ce_name (ob_config (parsed_object P k c n)) = ce_name c"
  by (simp_all add: parsed_object_def)

lemma api_try_parse_split:
  "api_try_parse P k c s = (if ap_fails P k c (as_effects s) then (None, s) else (Some (parsed_object P k c (as_next s)), after_parse k s))"
  by (simp add: api_try_parse_def api_parse_def parsed_object_def after_parse_def)

lemma api_make_split:
  "api_make P k c s = (if api_parser_fails k \<and> ap_fails P k c (as_effects s) then (None, s)
     else (Some (parsed_object P k c (as_next s)), after_parse k s))"
  by (simp add: api_make_def api_try_parse_split api_parse_def parsed_object_def after_parse_def)

lemma api_Register_split:
  "api_Register k name v s =
     (if name = [] then (True, s)
      else if as_registry s k name \<noteq> None then (False, s)
      else (True, s\<lparr>as_registry := (as_registry s)(k := (as_registry s k)(name \<mapsto> Some v))\<rparr>))"
  by (auto simp: api_Register_def registry_Register_def split: option.split)

text \<open>Of a consistent state: no object has the empty name, which is never registered.\<close>

definition api_named :: "'c api_state \<Rightarrow> bool" where
  "api_named s \<longleftrightarrow> (\<forall>k. as_registry s k [] = None)"

lemma api_Unregister_split:
  "api_Unregister P k name s =
     s\<lparr>as_registry := (as_registry s)(k := (as_registry s k)(name := None)),
       as_effects := as_effects s @ (case as_registry s k name of Some (Some v) \<Rightarrow> if ap_closer P k then [Closed k (ob_id v)] else [] | _ \<Rightarrow> [])\<rparr>"
  by (auto simp: api_Unregister_def registry_Unregister_def fun_upd_idem split: option.split)

lemma agrees_Suc: "agrees n es r \<Longrightarrow> agrees (Suc n) es r"
  using agrees_less [of n es r "Suc n"] by simp

lemma api_consistent_change:
  assumes "api_consistent s" "api_named s" "as_next s \<le> as_next s'" "as_config s' = (as_config s)(k := es)"
    "as_registry s' = (as_registry s)(k := r)" "agrees (as_next s') es r" "r [] = None"
  shows "api_consistent s' \<and> api_named s'"
  using assms agrees_less [OF _ assms(3)] by (auto simp: api_consistent_def api_named_def)

lemma api_consistent_same:
  assumes "api_consistent s" "api_named s" "as_next s \<le> as_next s'" "as_config s' = as_config s" "as_registry s' = as_registry s"
  shows "api_consistent s' \<and> api_named s'"
  using assms agrees_less [OF _ assms(3)] by (auto simp: api_consistent_def api_named_def)

text \<open>The three ways an operation ends that change more than the effects.\<close>

lemma api_consistent_append:
  assumes ok: "api_consistent s" "api_named s" "as_next s \<le> as_next s'"
    and more: "as_registry s k (ce_name (ob_config v)) = None" "ob_id v < as_next s'" "ce_name (ob_config v) \<noteq> []"
      "as_config s' = (as_config s)(k := as_config s k @ [ob_config v])"
      "as_registry s' = (as_registry s)(k := (as_registry s k)(ce_name (ob_config v) \<mapsto> Some v))"
  shows "api_consistent s' \<and> api_named s'"
proof -
  have "agrees (as_next s') (as_config s k) (as_registry s k)"
    using ok by (auto simp: api_consistent_def intro: agrees_less)
  from api_consistent_change [OF ok more(4,5) agrees_append [OF this more(1) refl more(2)]] show ?thesis
    using ok(2) more(3) by (simp add: api_named_def)
qed

lemma api_consistent_replace:
  assumes ok: "api_consistent s" "api_named s" "as_next s \<le> as_next s'"
    and more: "as_registry s k (ce_name (ob_config v)) \<noteq> None" "ob_id v < as_next s'"
      "as_config s' = (as_config s)(k := replace_first (ce_name (ob_config v)) (ob_config v) (as_config s k))"
      "as_registry s' = (as_registry s)(k := (as_registry s k)(ce_name (ob_config v) \<mapsto> Some v))"
  shows "api_consistent s' \<and> api_named s'"
proof -
  have "agrees (as_next s') (as_config s k) (as_registry s k)"
    using ok by (auto simp: api_consistent_def intro: agrees_less)
  moreover have "ce_name (ob_config v) \<noteq> []"
    using ok(2) more(1) by (auto simp: api_named_def)
  ultimately show ?thesis
    using api_consistent_change [OF ok more(3,4)] agrees_replace [where v = v] more(1,2) ok(2) by (simp add: api_named_def)
qed

lemma api_consistent_remove:
  assumes ok: "api_consistent s" "api_named s" "as_next s \<le> as_next s'"
    and more: "as_config s' = (as_config s)(k := filter (\<lambda>e. ce_name e \<noteq> name) (as_config s k))"
      "as_registry s' = (as_registry s)(k := (as_registry s k)(name := None))"
  shows "api_consistent s' \<and> api_named s'"
proof -
  have "agrees (as_next s') (as_config s k) (as_registry s k)"
    using ok by (auto simp: api_consistent_def intro: agrees_less)
  from api_consistent_change [OF ok more agrees_remove [OF this]] show ?thesis
    using ok(2) by (simp add: api_named_def)
qed

lemma api_operation_consistent:
  assumes "api_operation P f" "api_consistent s" "api_named s"
  shows "api_consistent (snd (f s)) \<and> api_named (snd (f s))"
proof -
  note ok = assms(2,3)
  note steps = api_Register_split api_Unregister_split after_parse_def config_append_def config_replace_def
    config_remove_def api_effect_def
  show ?thesis
    using assms(1)
  proof cases
    case (create k req)
    show ?thesis
      using ok api_consistent_append [OF ok, of "snd (f s)" k "parsed_object P k req (as_next s)"] api_consistent_same [OF ok, of "snd (f s)"]
      by (auto simp: create api_create_def api_make_split steps)
  next
    case (update k name req)
    show ?thesis
      using ok api_consistent_replace [OF ok, of "snd (f s)" k "parsed_object P k (req\<lparr>ce_name := name\<rparr>) (as_next s)"]
      by (auto simp: update api_update_def api_make_split registry_IsRegistered_def steps api_named_def)
  next
    case (delete k name)
    show ?thesis
      using ok api_consistent_remove [OF ok, of "snd (f s)" k name]
      by (auto simp: delete api_delete_def steps)
  next
    case (create_service req)
    show ?thesis
      using ok api_consistent_append [OF ok, of "snd (f s)" Services "parsed_object P Services req (as_next s)"]
        api_consistent_same [OF ok, of "snd (f s)"]
      by (auto simp: create_service createService_def api_try_parse_split registry_IsRegistered_def steps)
  next
    case (update_service name req)
    show ?thesis
      using ok api_consistent_replace [OF ok, of "snd (f s)" Services "parsed_object P Services (req\<lparr>ce_name := name\<rparr>) (as_next s)"]
        api_consistent_same [OF ok, of "snd (f s)"]
      by (auto simp: update_service updateService_def api_try_parse_split registry_Get_def steps split: option.split)
  next
    case (delete_service name)
    show ?thesis
      using ok api_consistent_remove [OF ok, of "snd (f s)" Services name]
      by (auto simp: delete_service deleteService_def registry_Get_def steps split: option.split)
  qed
qed

section \<open>The services that run\<close>

definition api_live :: "'c api_state \<Rightarrow> nat set" where
  "api_live s = {n. Serving n \<in> set (as_effects s) \<and> Closed Services n \<notin> set (as_effects s)}"

definition api_services :: "'c api_state \<Rightarrow> nat set" where
  "api_services s = {ob_id v | name v. as_registry s Services name = Some (Some v)}"

definition effect_id :: "effect \<Rightarrow> nat" where
  "effect_id e = (case e of Parsed k n \<Rightarrow> n | Closed k n \<Rightarrow> n | Serving n \<Rightarrow> n)"

text \<open>\<open>strict\<close> says whether every registered service runs.\<close>

definition api_running :: "bool \<Rightarrow> 'c api_state \<Rightarrow> bool" where
  "api_running strict s \<longleftrightarrow>
     (\<forall>e\<in>set (as_effects s). effect_id e < as_next s) \<and>
     (\<forall>a b v w. as_registry s Services a = Some (Some v) \<longrightarrow> as_registry s Services b = Some (Some w) \<longrightarrow> ob_id v = ob_id w \<longrightarrow> a = b) \<and>
     (if strict then api_live s = api_services s else api_live s \<subseteq> api_services s)"

text \<open>Effects and registries of the other kinds do not matter.\<close>

lemma api_running_other:
  assumes "api_running strict s" "as_registry s' Services = as_registry s Services" "as_next s \<le> as_next s'"
    "as_effects s' = as_effects s @ new"
    "\<And>e. e \<in> set new \<Longrightarrow> effect_id e < as_next s' \<and> (\<exists>k. k \<noteq> Services \<and> (e = Parsed k (effect_id e) \<or> e = Closed k (effect_id e)))"
  shows "api_running strict s'"
proof -
  have "api_live s' = api_live s"
    using assms(5) by (fastforce simp: api_live_def assms(4))
  moreover have "api_services s' = api_services s" by (simp add: api_services_def assms(2))
  moreover have "\<forall>e\<in>set (as_effects s'). effect_id e < as_next s'"
    using assms(1,3,5) by (fastforce simp: api_running_def assms(4))
  ultimately show ?thesis
    using assms(1) by (simp add: api_running_def assms(2))
qed

definition api_old :: "'c api_state \<Rightarrow> string \<Rightarrow> nat set" where
  "api_old s name = {ob_id v | v. as_registry s Services name = Some (Some v)}"

lemma api_running_service:
  assumes run: "api_running strict s" and consistent: "api_consistent s" and nxt: "as_next s \<le> as_next s'"
    and reg: "as_registry s' Services = (as_registry s Services)(name := v)"
    and eff: "as_effects s' = as_effects s @ new"
    and ids: "\<And>e. e \<in> set new \<Longrightarrow> effect_id e < as_next s'"
    and fresh: "\<And>w. v = Some (Some w) \<Longrightarrow> as_next s \<le> ob_id w"
    and start: "{m. Serving m \<in> set new} = {ob_id w | w. v = Some (Some w)}"
    and close: "{m. Closed Services m \<in> set new} = api_old s name"
  shows "api_running strict s'"
proof -
  have old: "m < as_next s" if "as_registry s Services a = Some (Some w)" "m = ob_id w" for a m w
    using consistent that by (auto simp: api_consistent_def agrees_def)
  have known: "effect_id e < as_next s" if "e \<in> set (as_effects s)" for e
    using run that by (simp add: api_running_def)
  have unique: "a = b" if "as_registry s Services a = Some (Some v)" "as_registry s Services b = Some (Some w)" "ob_id v = ob_id w" for a b v w
    using run that by (auto simp: api_running_def)
  let ?started = "{ob_id w | w. v = Some (Some w)}"
  have services: "api_services s' = (api_services s - api_old s name) \<union> ?started"
  proof (rule set_eqI)
    fix m
    have "m \<in> api_services s - api_old s name \<longleftrightarrow> (\<exists>a w. a \<noteq> name \<and> as_registry s Services a = Some (Some w) \<and> m = ob_id w)"
      (is "_ = ?R")
    proof
      assume "m \<in> api_services s - api_old s name"
      then show ?R by (auto simp: api_services_def api_old_def)
    next
      assume ?R
      then obtain a w where aw: "a \<noteq> name" "as_registry s Services a = Some (Some w)" "m = ob_id w" by blast
      then have "m \<notin> api_old s name" using unique [of a w name] by (auto simp: api_old_def)
      with aw show "m \<in> api_services s - api_old s name" by (auto simp: api_services_def)
    qed
    then show "m \<in> api_services s' \<longleftrightarrow> m \<in> (api_services s - api_old s name) \<union> ?started"
      by (auto simp: api_services_def reg split: if_splits)
  qed
  have started: "m \<in> ?started \<Longrightarrow> as_next s \<le> m" for m
    using fresh by auto
  have closed: "m \<in> api_old s name \<Longrightarrow> m < as_next s" for m
    using old by (auto simp: api_old_def)
  have "Closed Services m \<notin> set (as_effects s)" "Closed Services m \<notin> set new" if "m \<in> ?started" for m
    using started [OF that] known [of "Closed Services m"] closed [of m] close by (auto simp: effect_id_def)
  then have live: "api_live s' = (api_live s - api_old s name) \<union> ?started"
    using start close by (auto simp: api_live_def eff)
  have "a = b" if "as_registry s' Services a = Some (Some x)" "as_registry s' Services b = Some (Some y)" "ob_id x = ob_id y" for a b x y
    using that unique [of a x b y] old [of a x] old [of b y] fresh [of x] fresh [of y] by (fastforce simp: reg split: if_splits)
  moreover have "effect_id e < as_next s'" if "e \<in> set (as_effects s')" for e
    using that known [of e] ids [of e] nxt by (auto simp: eff)
  ultimately show ?thesis
    using run by (auto simp: api_running_def live services)
qed

lemma api_running_failed:
  assumes "api_running False s" "as_next s \<le> as_next s'" "as_registry s' Services = as_registry s Services"
    "as_effects s' = as_effects s @ new" "\<And>e. e \<in> set new \<Longrightarrow> effect_id e < as_next s' \<and> (\<exists>m. e = Closed Services m)"
  shows "api_running False s'"
proof -
  have "api_live s' \<subseteq> api_live s" using assms(5) by (fastforce simp: api_live_def assms(4))
  moreover have "effect_id e < as_next s'" if "e \<in> set (as_effects s')" for e
    using that assms(1,2,5) by (fastforce simp: api_running_def assms(4))
  ultimately show ?thesis using assms(1) by (auto simp: api_running_def api_services_def assms(3))
qed

lemma api_operation_running:
  assumes "api_operation P f" "api_running strict s" "api_consistent s" "api_named s"
    and sure: "strict \<longrightarrow> (\<forall>c es. \<not> ap_fails P Services c es)"
  shows "api_running strict (snd (f s))"
proof -
  note steps = api_Register_split api_Unregister_split after_parse_def config_append_def config_replace_def
    config_remove_def api_effect_def
  note service = api_running_service [OF assms(2,3), of "snd (f s)"]
  note other = api_running_other [OF assms(2), of "snd (f s)"]
  have old: "ob_id v < as_next s" if "as_registry s k name = Some (Some v)" for k name v
    using assms(3) that by (auto simp: api_consistent_def agrees_def)
  show ?thesis
    using assms(1)
  proof cases
    case (create k req)
    then have "Services \<noteq> k" by auto
    then show ?thesis
      using assms(2) other [of "[Parsed k (as_next s)]"]
      by (auto simp: create api_create_def api_make_split steps effect_id_def)
  next
    case (update k name req)
    then have k: "Services \<noteq> k" by auto
    show ?thesis
    proof (cases "as_registry s k name")
      case None
      then show ?thesis using assms(2) by (simp add: update api_update_def registry_IsRegistered_def)
    next
      case (Some v)
      with k show ?thesis
        using assms(2) old [of k name] other [of "Parsed k (as_next s) # (case v of Some v \<Rightarrow> if ap_closer P k then [Closed k (ob_id v)] else [] | _ \<Rightarrow> [])"]
        by (fastforce simp: update api_update_def api_make_split registry_IsRegistered_def steps effect_id_def split: option.splits if_splits)
    qed
  next
    case (delete k name)
    then have k: "Services \<noteq> k" by auto
    show ?thesis
    proof (cases "as_registry s k name")
      case None
      then show ?thesis using assms(2) by (simp add: delete api_delete_def registry_IsRegistered_def)
    next
      case (Some v)
      with k show ?thesis
        using assms(2) old [of k name] other [of "case v of Some v \<Rightarrow> if ap_closer P k then [Closed k (ob_id v)] else [] | _ \<Rightarrow> []"]
        by (fastforce simp: delete api_delete_def registry_IsRegistered_def steps effect_id_def split: option.splits if_splits)
    qed
  next
    case (create_service req)
    let ?v = "parsed_object P Services req (as_next s)"
    show ?thesis
    proof (cases "ce_name req = [] \<or> as_registry s Services (ce_name req) \<noteq> None \<or> ap_fails P Services req (as_effects s)")
      case True
      then show ?thesis
        using assms(2) by (auto simp: create_service createService_def registry_IsRegistered_def api_try_parse_split)
    next
      case False
      then show ?thesis
        by (intro service [where name = "ce_name req" and v = "Some (Some ?v)" and new = "[Parsed Services (as_next s), Serving (as_next s)]"])
          (auto simp: create_service createService_def registry_IsRegistered_def api_try_parse_split steps effect_id_def api_old_def)
    qed
  next
    case (update_service name req)
    show ?thesis
    proof (cases "registry_Get name (as_registry s Services)")
      case None
      then show ?thesis using assms(2) by (simp add: update_service updateService_def)
    next
      case (Some v)
      then have v: "as_registry s Services name = Some (Some v)" "name \<noteq> []" "ob_id v < as_next s"
        using old by (auto simp: registry_Get_def split: if_splits option.splits)
      let ?req = "req\<lparr>ce_name := name\<rparr>"
      show ?thesis
      proof (cases "ap_fails P Services ?req (as_effects s @ [Closed Services (ob_id v)])")
        case True
        then have "\<not> strict" using sure by auto
        with assms(2) have "api_running False s" by simp
        then have "api_running False (snd (f s))"
          by (rule api_running_failed [where new = "[Closed Services (ob_id v)]"])
            (use True v in \<open>auto simp: update_service updateService_def Some api_try_parse_split api_effect_def effect_id_def\<close>)
        with \<open>\<not> strict\<close> show ?thesis by simp
      next
        case False
        let ?new = "[Closed Services (ob_id v), Parsed Services (as_next s)] @
          (if ap_closer P Services then [Closed Services (ob_id v)] else []) @ [Serving (as_next s)]"
        from False v show ?thesis
          by (intro service [where name = name and v = "Some (Some (parsed_object P Services ?req (as_next s)))" and new = ?new])
            (auto simp: update_service updateService_def Some api_try_parse_split steps effect_id_def api_old_def split: if_splits)
      qed
    qed
  next
    case (delete_service name)
    show ?thesis
    proof (cases "registry_Get name (as_registry s Services)")
      case None
      then show ?thesis using assms(2) by (simp add: delete_service deleteService_def)
    next
      case (Some v)
      then have v: "as_registry s Services name = Some (Some v)" "ob_id v < as_next s"
        using old by (auto simp: registry_Get_def split: if_splits option.splits)
      let ?new = "(if ap_closer P Services then [Closed Services (ob_id v)] else []) @ [Closed Services (ob_id v)]"
      from v show ?thesis
        by (intro service [where name = name and v = None and new = ?new])
          (auto simp: delete_service deleteService_def Some steps effect_id_def api_old_def split: if_splits)
    qed
  qed
qed

text \<open>The process before any request.\<close>

definition api_empty :: "'c api_state" where
  "api_empty = \<lparr>as_config = (\<lambda>_. []), as_registry = (\<lambda>_. Map.empty), as_next = 0, as_effects = []\<rparr>"

lemma api_empty_ok: "api_consistent api_empty" "api_named api_empty" "api_running strict api_empty"
  by (simp_all add: api_empty_def api_consistent_def agrees_def config_map_def api_named_def api_running_def api_live_def api_services_def)

text \<open>
  C15.  After any requests to the API the configuration tells what is registered: in each list the
  names are distinct, and a name is listed exactly when it is registered, with the
  configuration its object was made of.
\<close>

theorem api_config_tells_registry:
  "distinct (map ce_name (as_config (api_run P auther rs api_empty) k)) \<and>
   config_map (as_config (api_run P auther rs api_empty) k) name =
     Option.bind (as_registry (api_run P auther rs api_empty) k name) (map_option ob_config)"
proof -
  have "api_consistent (api_run P auther rs api_empty) \<and> api_named (api_run P auther rs api_empty)"
    by (rule api_run_invariant) (auto simp: api_empty_ok api_operation_consistent)
  then show ?thesis by (auto simp: api_consistent_def agrees_def)
qed

text \<open>A parser for the examples, of services of which one has a port that is in use, and a request.\<close>

definition demo_api_parser :: "nat api_parser" where
  "demo_api_parser = \<lparr>ap_fails = (\<lambda>k c es. ce_data c = 9), ap_data = (\<lambda>k c. c), ap_closer = (\<lambda>_. True)\<rparr>"

definition demo_api_request :: "string \<Rightarrow> string \<Rightarrow> nat \<Rightarrow> nat api_request" where
  "demo_api_request method name c = \<lparr>ar_user = [], ar_pass = [], ar_method = method, ar_list = ''services'',
     ar_name = name, ar_body = \<lparr>ce_name = ''web'', ce_data = c\<rparr>\<rparr>"

text \<open>
  After any requests to the API every service that was started and not closed is registered,
  so that it can be found and stopped; and where no service fails to be made, every registered
  service runs.
\<close>

theorem api_services_run:
  "api_live (api_run P auther rs api_empty) \<subseteq> api_services (api_run P auther rs api_empty) \<and>
   ((\<forall>c es. \<not> ap_fails P Services c es) \<longrightarrow>
     api_live (api_run P auther rs api_empty) = api_services (api_run P auther rs api_empty))"
proof -
  have "api_running strict (api_run P auther rs api_empty) \<and> api_consistent (api_run P auther rs api_empty) \<and>
      api_named (api_run P auther rs api_empty)" if "strict \<longrightarrow> (\<forall>c es. \<not> ap_fails P Services c es)" for strict
    by (rule api_run_invariant) (use that in \<open>auto simp: api_empty_ok api_operation_consistent api_operation_running\<close>)
  from this [of False] this [of True] show ?thesis by (auto simp: api_running_def)
qed

theorem api_services_run_witness:
  "let P = demo_api_parser\<lparr>ap_fails := \<lambda>_ _ _. False\<rparr>;
       s = api_run P None [demo_api_request ''POST'' [] 1, demo_api_request ''PUT'' ''web'' 2] api_empty
   in api_live s = api_services s \<and> as_config s Services = [\<lparr>ce_name = ''web'', ce_data = 2\<rparr>]"
  using api_services_run [of "demo_api_parser\<lparr>ap_fails := \<lambda>_ _ _. False\<rparr>" None
      "[demo_api_request ''POST'' [] 1, demo_api_request ''PUT'' ''web'' 2]"]
  by (simp add: Let_def demo_api_parser_def api_run_def api_serve_def registerConfig_def demo_api_request_def mwBasicAuth_def
      createService_def updateService_def api_try_parse_split parsed_object_def after_parse_def api_Register_split api_Unregister_split
      registry_IsRegistered_def registry_Get_def api_empty_def config_append_def config_replace_def api_effect_def)

text \<open>
  A service is closed before its successor is made: when that fails, the answer is an error
  and neither the configuration nor the registry changes, but the service still listed is
  stopped.
\<close>

theorem api_failed_update_stops_service:
  assumes "as_registry s Services name = Some (Some v)" "name \<noteq> []" "api_live s = api_services s"
    and "\<And>es. ap_fails P Services (req\<lparr>ce_name := name\<rparr>) es"
  shows "fst (updateService P name req s) = writeError api_ErrCreate \<and>
    as_config (snd (updateService P name req s)) = as_config s \<and>
    as_registry (snd (updateService P name req s)) = as_registry s \<and>
    ob_id v \<in> api_services (snd (updateService P name req s)) - api_live (snd (updateService P name req s))"
  using assms
  by (auto simp: updateService_def registry_Get_def api_try_parse_split api_effect_def api_services_def api_live_def)

theorem api_failed_update_stops_service_witness:
  "let s = snd (createService demo_api_parser \<lparr>ce_name = ''web'', ce_data = 2\<rparr> api_empty);
       r = updateService demo_api_parser ''web'' \<lparr>ce_name = [], ce_data = 9\<rparr> s
   in fst r = writeError api_ErrCreate \<and> as_config (snd r) Services = [\<lparr>ce_name = ''web'', ce_data = 2\<rparr>] \<and>
      0 \<in> api_services (snd r) - api_live (snd r)"
proof -
  let ?s = "snd (createService demo_api_parser \<lparr>ce_name = ''web'', ce_data = 2\<rparr> api_empty)"
  let ?v = "\<lparr>ob_id = 0, ob_config = \<lparr>ce_name = ''web'', ce_data = 2\<rparr>\<rparr>"
  have s: "as_registry ?s Services = [''web'' \<mapsto> Some ?v]" "as_config ?s Services = [ob_config ?v]"
      "as_effects ?s = [Parsed Services 0, Serving 0]"
    by (simp_all add: createService_def api_empty_def registry_IsRegistered_def api_try_parse_split demo_api_parser_def
        api_Register_split after_parse_def parsed_object_def config_append_def api_effect_def)
  have "api_live ?s = api_services ?s"
    by (auto simp: api_live_def api_services_def s)
  moreover have "ap_fails demo_api_parser Services \<lparr>ce_name = ''web'', ce_data = 9\<rparr> es" for es
    by (simp add: demo_api_parser_def)
  ultimately show ?thesis
    using api_failed_update_stops_service [of ?s "''web''" ?v demo_api_parser "\<lparr>ce_name = [], ce_data = 9\<rparr>"]
    by (simp add: s Let_def)
qed

text \<open>A service is closed by the registry and by the handler: its commands for going down run twice.\<close>

lemma deleteService_closes_twice:
  assumes "as_registry s Services name = Some (Some v)" "name \<noteq> []" "ap_closer P Services"
  shows "as_effects (snd (deleteService P name s)) = as_effects s @ [Closed Services (ob_id v), Closed Services (ob_id v)]"
  using assms by (simp add: deleteService_def registry_Get_def api_Unregister_split config_remove_def api_effect_def)

text \<open>An object whose name is taken has been made, and stays as it is: nothing closes it.\<close>

lemma api_duplicate_not_closed:
  assumes "as_registry s k (ce_name req) \<noteq> None" "ce_name req \<noteq> []" "\<not> ap_fails P k req (as_effects s)"
  shows "fst (api_create k P req s) = writeError api_ErrDup \<and>
    as_effects (snd (api_create k P req s)) = as_effects s @ [Parsed k (as_next s)]"
  using assms by (simp add: api_create_def api_make_split api_Register_split after_parse_def)

end
