(* ===== verification/RateLimiter.thy ===== *)
theory RateLimiter
  imports ConnLimiter
begin

text \<open>
  The rate limiter of \<open>limiter/rate\<close>: token buckets for the whole service, for each address and for
  given addresses and networks, asked before a connection is served.  The buckets are those of
  \<open>golang.org/x/time/rate\<close>, in a store; they, the floating-point numbers of the rates and the
  network trie are third-party or built-in parameters.
\<close>

section \<open>Parameters\<close>

text \<open>
  \<open>tb_allow now n\<close> is \<open>AllowN\<close>; \<open>fl_parse\<close> is \<open>strconv.ParseFloat\<close>, which gives 0 for what is no
  number, and \<open>fl_int\<close> the conversion to an integer.
\<close>

record ('l, 'f) bucket_ops =
  tb_new :: "'f \<Rightarrow> int \<Rightarrow> 'l"
  tb_allow :: "int \<Rightarrow> int \<Rightarrow> 'l \<Rightarrow> bool \<times> 'l"
  tb_limit :: "'l \<Rightarrow> 'f"
  fl_parse :: "string \<Rightarrow> 'f"
  fl_positive :: "'f \<Rightarrow> bool"
  fl_int :: "'f \<Rightarrow> int"

section \<open>Limiters\<close>

definition rl_NewLimiter :: "('l, 'f) bucket_ops \<Rightarrow> 'f \<Rightarrow> int \<Rightarrow> 'l list \<Rightarrow> nat \<times> 'l list" where
  "rl_NewLimiter B r b h = (length h, h @ [tb_new B r b])"

definition rl_Allow :: "('l, 'f) bucket_ops \<Rightarrow> int \<Rightarrow> nat \<Rightarrow> int \<Rightarrow> 'l list \<Rightarrow> bool \<times> 'l list" where
  "rl_Allow B now a n h = (case tb_allow B now n (h ! a) of (b, l) \<Rightarrow> (b, h[a := l]))"

definition rl_Limit :: "('l, 'f) bucket_ops \<Rightarrow> nat \<Rightarrow> 'l list \<Rightarrow> 'f" where
  "rl_Limit B a h = tb_limit B (h ! a)"

definition rl_newLimiterGroup :: "('l, 'f :: linorder) bucket_ops \<Rightarrow> 'l list \<Rightarrow> nat list \<Rightarrow> nat list" where
  "rl_newLimiterGroup B h lims = sort_key (\<lambda>a. rl_Limit B a h) lims"

text \<open>The loop asks every limiter, at the times \<open>now\<close>, whatever the others said.\<close>

fun rl_group_loop :: "('l, 'f) bucket_ops \<Rightarrow> (nat \<Rightarrow> int) \<Rightarrow> nat \<Rightarrow> nat list \<Rightarrow> int \<Rightarrow> bool \<Rightarrow> 'l list \<Rightarrow> bool \<times> 'l list" where
  "rl_group_loop B now i [] n b h = (b, h)"
| "rl_group_loop B now i (a # as) n b h =
     (case rl_Allow B (now i) a n h of (v, h) \<Rightarrow> rl_group_loop B now (Suc i) as n (if \<not> v then False else b) h)"

definition rl_group_Allow :: "('l, 'f) bucket_ops \<Rightarrow> (nat \<Rightarrow> int) \<Rightarrow> nat list \<Rightarrow> int \<Rightarrow> 'l list \<Rightarrow> bool \<times> 'l list" where
  "rl_group_Allow B now lims n h = rl_group_loop B now 0 lims n True h"

text \<open>The limit of the first; \<open>zero\<close> is that of no limiter.\<close>

definition rl_group_Limit :: "('l, 'f) bucket_ops \<Rightarrow> 'f \<Rightarrow> nat list \<Rightarrow> 'l list \<Rightarrow> 'f" where
  "rl_group_Limit B zero lims h = (if length lims = 0 then zero else rl_Limit B (lims ! 0) h)"

section \<open>Generators\<close>

datatype 'f rl_generator = RateLimitGenerator 'f | RateLimitSingleGenerator "nat option"

definition NewRateLimitSingleGenerator :: "('l, 'f) bucket_ops \<Rightarrow> 'f \<Rightarrow> 'l list \<Rightarrow> 'f rl_generator \<times> 'l list" where
  "NewRateLimitSingleGenerator B r h =
     (if fl_positive B r then (case rl_NewLimiter B r (fl_int B r + 1) h of (a, h) \<Rightarrow> (RateLimitSingleGenerator (Some a), h))
      else (RateLimitSingleGenerator None, h))"

fun rl_generator_Limiter :: "('l, 'f) bucket_ops \<Rightarrow> 'f rl_generator \<Rightarrow> 'l list \<Rightarrow> nat option \<times> 'l list" where
  "rl_generator_Limiter B (RateLimitGenerator r) h =
     (if \<not> fl_positive B r then (None, h)
      else case rl_NewLimiter B r (fl_int B r + 1) h of (a, h) \<Rightarrow> (Some a, h))"
| "rl_generator_Limiter B (RateLimitSingleGenerator a) h = (a, h)"

section \<open>Options and loading\<close>

record rl_options =
  ro_limits :: "string list"
  ro_fileLoader :: "loader option"
  ro_redisLoader :: "loader option"
  ro_httpLoader :: "loader option"
  ro_period :: int

definition rl_no_options :: rl_options where
  "rl_no_options = \<lparr>ro_limits = [], ro_fileLoader = None, ro_redisLoader = None, ro_httpLoader = None, ro_period = 0\<rparr>"

definition rl_LimitsOption :: "string list \<Rightarrow> rl_options \<Rightarrow> rl_options" where
  "rl_LimitsOption ls opts = opts\<lparr>ro_limits := ls\<rparr>"

definition rl_ReloadPeriodOption :: "int \<Rightarrow> rl_options \<Rightarrow> rl_options" where
  "rl_ReloadPeriodOption p opts = opts\<lparr>ro_period := p\<rparr>"

definition rl_FileLoaderOption :: "loader option \<Rightarrow> rl_options \<Rightarrow> rl_options" where
  "rl_FileLoaderOption l opts = opts\<lparr>ro_fileLoader := l\<rparr>"

definition rl_RedisLoaderOption :: "loader option \<Rightarrow> rl_options \<Rightarrow> rl_options" where
  "rl_RedisLoaderOption l opts = opts\<lparr>ro_redisLoader := l\<rparr>"

definition rl_HTTPLoaderOption :: "loader option \<Rightarrow> rl_options \<Rightarrow> rl_options" where
  "rl_HTTPLoaderOption l opts = opts\<lparr>ro_httpLoader := l\<rparr>"

text \<open>\<open>rl_limits\<close> caches the limiter of a key, a group or nil.\<close>

record ('f, 'r) rateLimiter =
  rl_ipLimits :: "string \<rightharpoonup> 'f rl_generator"
  rl_cidrLimits :: 'r
  rl_limits :: "string \<rightharpoonup> nat list option"
  rl_opts :: rl_options

definition rl_parseLine :: "string \<Rightarrow> string" where
  "rl_parseLine s = trim_space (cut_comment s)"

definition rl_parsePatterns :: "string option \<Rightarrow> string list \<times> bool" where
  "rl_parsePatterns r = scan_patterns rl_parseLine r"

definition rl_load :: "nat \<Rightarrow> rl_options \<Rightarrow> string list" where
  "rl_load t opts =
     (case ro_fileLoader opts of
        None \<Rightarrow> []
      | Some l \<Rightarrow>
          (case as_Lister (l t) of
             Some (list, er) \<Rightarrow> parse_all rl_parseLine list
           | None \<Rightarrow> fst (rl_parsePatterns (loader_Load (l t))))) @
     (case ro_redisLoader opts of
        None \<Rightarrow> []
      | Some l \<Rightarrow>
          (case as_Lister (l t) of
             Some (list, er) \<Rightarrow> list
           | None \<Rightarrow> fst (rl_parsePatterns (loader_Load (l t))))) @
     (case ro_httpLoader opts of
        None \<Rightarrow> []
      | Some l \<Rightarrow> fst (rl_parsePatterns (loader_Load (l t))))"

text \<open>\<open>zero\<close> is the limit returned for a line of less than two words, which is skipped: its key is empty.\<close>

definition rl_parseLimit :: "('l, 'f) bucket_ops \<Rightarrow> string \<Rightarrow> (string \<times> 'f) option" where
  "rl_parseLimit B s =
     (let s = trim_space (tabs_to_blanks s);
          ss = filter (\<lambda>v. v \<noteq> []) (split_byte CHR '' '' s)
      in if length ss < 2 then None else Some (ss ! 0, fl_parse B (ss ! 1)))"

definition rl_reload_step ::
    "('l, 'f) bucket_ops \<Rightarrow> ('r, 'f rl_generator) ranger_ops \<Rightarrow> string \<Rightarrow>
     (string \<rightharpoonup> 'f rl_generator) \<times> 'r \<times> 'l list \<Rightarrow> (string \<rightharpoonup> 'f rl_generator) \<times> 'r \<times> 'l list"
where
  "rl_reload_step B R s acc =
     (case acc of (ipLimits, cidrLimits, h) \<Rightarrow>
       case rl_parseLimit B s of
         None \<Rightarrow> acc
       | Some (key, limit) \<Rightarrow>
         if key = [] \<or> \<not> fl_positive B limit then acc
         else if key = GlobalLimitKey then
           (case NewRateLimitSingleGenerator B limit h of (g, h) \<Rightarrow> (ipLimits(key \<mapsto> g), cidrLimits, h))
         else if key = IPLimitKey then (ipLimits(key \<mapsto> RateLimitGenerator limit), cidrLimits, h)
         else if parse_ip key \<noteq> None then
           (case NewRateLimitSingleGenerator B limit h of (g, h) \<Rightarrow> (ipLimits(key \<mapsto> g), cidrLimits, h))
         else (case parse_cidr key of
                 None \<Rightarrow> acc
               | Some ipNet \<Rightarrow> (ipLimits, rg_insert R ipNet (RateLimitGenerator limit) cidrLimits, h)))"

definition rl_reload ::
    "('l, 'f) bucket_ops \<Rightarrow> ('r, 'f rl_generator) ranger_ops \<Rightarrow> nat \<Rightarrow> ('f, 'r) rateLimiter \<times> 'l list \<Rightarrow> ('f, 'r) rateLimiter \<times> 'l list"
where
  "rl_reload B R t st =
     (case st of (l, h) \<Rightarrow>
       let v = rl_load t (rl_opts l);
           lines = ro_limits (rl_opts l) @ v
       in case fold (rl_reload_step B R) lines (Map.empty, rg_new R, h) of
            (ipLimits, cidrLimits, h) \<Rightarrow>
              (l\<lparr>rl_ipLimits := ipLimits, rl_cidrLimits := cidrLimits, rl_limits := Map.empty\<rparr>, h))"

definition rl_periodReload ::
    "('l, 'f) bucket_ops \<Rightarrow> ('r, 'f rl_generator) ranger_ops \<Rightarrow> nat \<Rightarrow> event list \<Rightarrow> ('f, 'r) rateLimiter \<times> 'l list \<Rightarrow>
     int \<times> (('f, 'r) rateLimiter \<times> 'l list) option"
where
  "rl_periodReload B R t es st =
     (ticker_period (ro_period (rl_opts (fst st))), period_loop (\<lambda>t st. Some (rl_reload B R t st)) t es st)"

definition rl_apply :: "(rl_options \<Rightarrow> rl_options) list \<Rightarrow> rl_options" where
  "rl_apply opts = foldl (\<lambda>acc opt. opt acc) rl_no_options opts"

definition NewRateLimiter ::
    "('l, 'f) bucket_ops \<Rightarrow> ('r, 'f rl_generator) ranger_ops \<Rightarrow> (rl_options \<Rightarrow> rl_options) list \<Rightarrow> 'l list \<Rightarrow>
     (('f, 'r) rateLimiter \<times> 'l list) \<times> bool"
where
  "NewRateLimiter B R opts h =
     (let options = rl_apply opts;
          lim = \<lparr>rl_ipLimits = Map.empty, rl_cidrLimits = rg_new R, rl_limits = Map.empty, rl_opts = options\<rparr>
      in (rl_reload B R 0 (lim, h), ro_period options > 0))"

section \<open>The limiter of a key\<close>

definition rl_add :: "('l, 'f) bucket_ops \<Rightarrow> 'f rl_generator option \<Rightarrow> nat list \<times> 'l list \<Rightarrow> nat list \<times> 'l list" where
  "rl_add B p acc =
     (case p of
        None \<Rightarrow> acc
      | Some g \<Rightarrow>
          (case rl_generator_Limiter B g (snd acc) of
             (Some a, h) \<Rightarrow> (fst acc @ [a], h)
           | (None, h) \<Rightarrow> (fst acc, h)))"

definition rl_own_lims ::
    "('l, 'f) bucket_ops \<Rightarrow> ('r, 'f rl_generator) ranger_ops \<Rightarrow> string \<Rightarrow> ('f, 'r) rateLimiter \<Rightarrow> 'l list \<Rightarrow> nat list \<times> 'l list"
where
  "rl_own_lims B R key l h =
     (let acc = (case parse_ip key of
                   None \<Rightarrow> ([], h)
                 | Some ip \<Rightarrow>
                     let acc = rl_add B (rl_ipLimits l key) ([], h)
                     in if fst acc \<noteq> [] then acc
                        else case rg_containing R (rl_cidrLimits l) ip of
                          [] \<Rightarrow> acc
                        | g # _ \<Rightarrow> rl_add B (Some g) acc)
      in if fst acc = [] then rl_add B (rl_ipLimits l IPLimitKey) acc else acc)"

definition rateLimiter_Limiter ::
    "('l, 'f :: linorder) bucket_ops \<Rightarrow> ('r, 'f rl_generator) ranger_ops \<Rightarrow> string \<Rightarrow> ('f, 'r) rateLimiter \<times> 'l list \<Rightarrow>
     nat list option \<times> (('f, 'r) rateLimiter \<times> 'l list)"
where
  "rateLimiter_Limiter B R key st =
     (case st of (l, h) \<Rightarrow>
       case rl_limits l key of
         Some lim \<Rightarrow> (lim, (l, h))
       | None \<Rightarrow>
           let (lims, h) = rl_add B (rl_ipLimits l GlobalLimitKey) (rl_own_lims B R key l h);
               lim = (if length lims > 0 then Some (rl_newLimiterGroup B h lims) else None)
           in (lim, (l\<lparr>rl_limits := (rl_limits l)(key \<mapsto> lim)\<rparr>, h)))"

section \<open>Every limiter of a group is asked\<close>

text \<open>
  What the program relies on of a bucket with \<open>tokens\<close>: a grant takes its tokens, a refusal none.
\<close>

locale spending_bucket =
  fixes B :: "('l, 'f) bucket_ops" and tokens :: "'l \<Rightarrow> int"
  assumes grant: "tb_allow B now n l = (True, l') \<Longrightarrow> tokens l' = tokens l - n"
    and refuse: "tb_allow B now n l = (False, l') \<Longrightarrow> tokens l' = tokens l"
begin

text \<open>The bucket \<open>a\<close> is asked once, whatever the others say.\<close>

lemma group_loop_asked:
  assumes "distinct as" "a \<in> set as" "\<forall>x\<in>set as. x < length h"
  shows "\<exists>now' l v. tb_allow B now' n (h ! a) = (v, l) \<and> snd (rl_group_loop B now i as n b h) ! a = l \<and>
    (fst (rl_group_loop B now i as n b h) \<longrightarrow> v)"
  using assms
proof (induction as arbitrary: i b h)
  case (Cons x as)
  obtain v l where vl: "tb_allow B (now i) n (h ! x) = (v, l)" by fastforce
  have kept: "snd (rl_group_loop B now j as' n c g) ! x = g ! x" if "x \<notin> set as'" for j as' c g
    using that by (induction as' arbitrary: j c g) (auto simp: rl_Allow_def split: prod.split)
  have false: "\<not> fst (rl_group_loop B now j as' n False g)" for j as' g
    by (induction as' arbitrary: j g) (auto simp: rl_Allow_def split: prod.split)
  show ?case
  proof (cases "a = x")
    case True
    then show ?thesis
      using Cons.prems vl kept [of as "Suc i" "if v then b else False" "h[x := l]"] false [of "Suc i" as "h[x := l]"]
      by (cases v) (auto simp: rl_Allow_def)
  next
    case False
    then show ?thesis
      using Cons.prems Cons.IH [of "h[x := l]" "Suc i" "if v then b else False"] vl by (cases v) (auto simp: rl_Allow_def)
  qed
qed simp

lemma group_spends:
  assumes "distinct lims" "a \<in> set lims" "\<forall>x\<in>set lims. x < length h"
    and "\<And>now'. fst (tb_allow B now' n (h ! a))"
  shows "tokens (snd (rl_group_Allow B now lims n h) ! a) = tokens (h ! a) - n"
proof -
  obtain now' l v where "tb_allow B now' n (h ! a) = (v, l)" "snd (rl_group_loop B now 0 lims n True h) ! a = l"
    using group_loop_asked [OF assms(1-3)] by blast
  moreover have v using assms(4) [of now'] calculation by simp
  ultimately show ?thesis
    by (simp add: rl_group_Allow_def grant)
qed

end

text \<open>A bucket without a clock: its limit and its tokens.\<close>

definition counting_bucket :: "(int \<times> int, int) bucket_ops" where
  "counting_bucket = \<lparr>tb_new = (\<lambda>r b. (r, b)), tb_allow = (\<lambda>now n l. if n \<le> snd l then (True, fst l, snd l - n) else (False, l)),
     tb_limit = fst, fl_parse = atoi, fl_positive = (\<lambda>r. 0 < r), fl_int = (\<lambda>r. r)\<rparr>"

interpretation counting: spending_bucket counting_bucket snd
  by unfold_locales (auto simp: counting_bucket_def split: if_splits)

text \<open>
  A request that one limiter of a group refuses still takes its tokens from the others: a
  client over its own limit spends the tokens of the whole service.
\<close>

theorem rate_refused_drains_others:
  assumes "spending_bucket B tokens" "distinct lims" "\<forall>x\<in>set lims. x < length h"
    and "own \<in> set lims" "\<And>now'. \<not> fst (tb_allow B now' n (h ! own))"
    and "global \<in> set lims" "\<And>now'. fst (tb_allow B now' n (h ! global))"
  shows "\<not> fst (rl_group_Allow B now lims n h) \<and>
    tokens (snd (rl_group_Allow B now lims n h) ! global) = tokens (h ! global) - n"
proof
  show "\<not> fst (rl_group_Allow B now lims n h)"
    using spending_bucket.group_loop_asked [OF assms(1,2,4,3), where now = now and n = n and i = 0 and b = True] assms(5)
    unfolding rl_group_Allow_def by (metis fst_conv)
  show "tokens (snd (rl_group_Allow B now lims n h) ! global) = tokens (h ! global) - n"
    by (rule spending_bucket.group_spends [OF assms(1,2,6,3,7)])
qed

text \<open>A client over its limit of 1, in a service with 10 tokens left.\<close>

theorem rate_refused_drains_others_witness:
  "\<not> fst (rl_group_Allow counting_bucket (\<lambda>_. 0) [0, 1] 1 [(1, 0), (10, 10)]) \<and>
   snd (snd (rl_group_Allow counting_bucket (\<lambda>_. 0) [0, 1] 1 [(1, 0), (10, 10)]) ! 1) = 9"
  using rate_refused_drains_others [OF counting.spending_bucket_axioms, of "[0, 1]" "[(1, 0), (10, 10)]" 0 1 1 "\<lambda>_. 0"]
  by (simp add: counting_bucket_def less_Suc_eq)

end
