(* ===== verification/Parsing.thy ===== *)
theory Parsing
  imports Auth Admission Bypass Hosts Ingress Traffic ConnLimiter RateLimiter Selector
begin

text \<open>
  From the configuration to the components (\<open>config/parsing/parse.go\<close>, with the structures of
  \<open>config/config.go\<close> and the constructors of \<open>internal/loader\<close>): each parser collects the options
  of a component and makes it.  A nil pointer is \<open>None\<close>; a panic, on a nil element of a list, is
  an outer \<open>None\<close>.
\<close>

section \<open>Sources\<close>

text \<open>
  What files, redis servers and web servers answer to the \<open>t\<close>-th question; a redis server is
  asked at an address, with the number of a database and a password, for a key.
\<close>

record data_sources =
  ds_file :: "string \<Rightarrow> nat \<Rightarrow> string option"
  ds_redisSet :: "string \<Rightarrow> int \<Rightarrow> string \<Rightarrow> string \<Rightarrow> nat \<Rightarrow> string list option"
  ds_redisList :: "string \<Rightarrow> int \<Rightarrow> string \<Rightarrow> string \<Rightarrow> nat \<Rightarrow> string list option"
  ds_redisHash :: "string \<Rightarrow> int \<Rightarrow> string \<Rightarrow> string \<Rightarrow> nat \<Rightarrow> (string \<times> string) list option"
  ds_http :: "string \<Rightarrow> int \<Rightarrow> nat \<Rightarrow> http_answer"

definition DefaultRedisKey :: string where "DefaultRedisKey = ''gost''"

definition FileLoader :: "data_sources \<Rightarrow> string \<Rightarrow> loader" where
  "FileLoader D filename = (\<lambda>t. FileSource (ds_file D filename t))"

definition RedisSetLoader :: "data_sources \<Rightarrow> string \<Rightarrow> int \<Rightarrow> string \<Rightarrow> string \<Rightarrow> loader" where
  "RedisSetLoader D addr db password key =
     (\<lambda>t. RedisSetSource (ds_redisSet D addr db password (if key = [] then DefaultRedisKey else key) t))"

definition RedisListLoader :: "data_sources \<Rightarrow> string \<Rightarrow> int \<Rightarrow> string \<Rightarrow> string \<Rightarrow> loader" where
  "RedisListLoader D addr db password key =
     (\<lambda>t. RedisListSource (ds_redisList D addr db password (if key = [] then DefaultRedisKey else key) t))"

definition RedisHashLoader :: "data_sources \<Rightarrow> string \<Rightarrow> int \<Rightarrow> string \<Rightarrow> string \<Rightarrow> loader" where
  "RedisHashLoader D addr db password key =
     (\<lambda>t. RedisHashSource (ds_redisHash D addr db password (if key = [] then DefaultRedisKey else key) t))"

definition HTTPLoader :: "data_sources \<Rightarrow> string \<Rightarrow> int \<Rightarrow> loader" where
  "HTTPLoader D url timeout = (\<lambda>t. HTTPSource (ds_http D url timeout t))"

record redis_config =
  rc_Addr :: string
  rc_DB :: int
  rc_Password :: string
  rc_Key :: string
  rc_Type :: string

text \<open>The loaders of a configuration: the path of a file, a redis server, a URL with its timeout.\<close>

record source_config =
  sc_File :: "string option"
  sc_Redis :: "redis_config option"
  sc_HTTP :: "(string \<times> int) option"

text \<open>The options for them, in the order the code appends them; \<open>kind\<close> makes the loader for redis.\<close>

definition source_options ::
    "data_sources \<Rightarrow> (redis_config \<Rightarrow> string \<Rightarrow> int \<Rightarrow> string \<Rightarrow> string \<Rightarrow> loader) \<Rightarrow>
     (loader option \<Rightarrow> 'o \<Rightarrow> 'o) \<Rightarrow> (loader option \<Rightarrow> 'o \<Rightarrow> 'o) \<Rightarrow> (loader option \<Rightarrow> 'o \<Rightarrow> 'o) \<Rightarrow> source_config \<Rightarrow> ('o \<Rightarrow> 'o) list"
where
  "source_options D kind file redis http cfg =
     (case sc_File cfg of Some path \<Rightarrow> if path \<noteq> [] then [file (Some (FileLoader D path))] else [] | None \<Rightarrow> []) @
     (case sc_Redis cfg of
        Some r \<Rightarrow> if rc_Addr r \<noteq> [] then [redis (Some (kind r (rc_Addr r) (rc_DB r) (rc_Password r) (rc_Key r)))] else []
      | None \<Rightarrow> []) @
     (case sc_HTTP cfg of Some (url, timeout) \<Rightarrow> if url \<noteq> [] then [http (Some (HTTPLoader D url timeout))] else [] | None \<Rightarrow> [])"

definition redis_list_or_set :: "data_sources \<Rightarrow> redis_config \<Rightarrow> string \<Rightarrow> int \<Rightarrow> string \<Rightarrow> string \<Rightarrow> loader" where
  "redis_list_or_set D r = (if rc_Type r = ''list'' then RedisListLoader D else RedisSetLoader D)"

definition redis_set_or_hash :: "data_sources \<Rightarrow> redis_config \<Rightarrow> string \<Rightarrow> int \<Rightarrow> string \<Rightarrow> string \<Rightarrow> loader" where
  "redis_set_or_hash D r = (if rc_Type r = ''set'' then RedisSetLoader D else RedisHashLoader D)"

section \<open>Authenticators\<close>

type_synonym auth_config = "string \<times> string"

record auther_config =
  auc_Auths :: "auth_config option list"
  auc_Reload :: int
  auc_source :: source_config

text \<open>A list whose elements are read: a nil one panics.\<close>

definition elements :: "'a option list \<Rightarrow> 'a list option" where
  "elements xs = (if None \<in> set xs then None else Some (map the xs))"

definition ParseAuther :: "data_sources \<Rightarrow> auther_config option \<Rightarrow> (authenticator \<times> bool) option option" where
  "ParseAuther D cfg =
     (case cfg of
        None \<Rightarrow> Some None
      | Some cfg \<Rightarrow>
          (case elements (auc_Auths cfg) of
             None \<Rightarrow> None
           | Some auths \<Rightarrow>
               let m = fold (\<lambda>(user, pass) m. if user = [] then m else AList.update user pass m) auths []
               in map_option Some (NewAuthenticator
                    ([auth_AuthsOption m, auth_ReloadPeriodOption (auc_Reload cfg)] @
                     source_options D (\<lambda>_. RedisHashLoader D) auth_FileLoaderOption auth_RedisLoaderOption auth_HTTPLoaderOption (auc_source cfg)))))"

definition ParseAutherFromAuth :: "auth_config option \<Rightarrow> (authenticator \<times> bool) option option" where
  "ParseAutherFromAuth au =
     (case au of
        None \<Rightarrow> Some None
      | Some (user, pass) \<Rightarrow>
          if user = [] then Some None else map_option Some (NewAuthenticator [auth_AuthsOption [(user, pass)]]))"

text \<open>The user of a URL, with a password where there is one.\<close>

definition parseAuth :: "auth_config option \<Rightarrow> (string \<times> string option) option" where
  "parseAuth cfg =
     (case cfg of
        None \<Rightarrow> None
      | Some (user, pass) \<Rightarrow> if user = [] then None else Some (user, if pass = [] then None else Some pass))"

section \<open>Selectors\<close>

record selector_config =
  slc_Strategy :: string
  slc_MaxFails :: int
  slc_FailTimeout :: int

datatype strategy = RoundRobinStrategy | RandomStrategy | FIFOStrategy | HashStrategy

text \<open>A selector: its strategy, and the parameters of its fail filter; a backup filter follows.\<close>

record selector_spec =
  ss_strategy :: strategy
  ss_maxFails :: int
  ss_failTimeout :: int

definition parse_strategy :: "string \<Rightarrow> strategy" where
  "parse_strategy s =
     (if s \<in> {''round'', ''rr''} then RoundRobinStrategy
      else if s \<in> {''random'', ''rand''} then RandomStrategy
      else if s \<in> {''fifo'', ''ha''} then FIFOStrategy
      else if s = ''hash'' then HashStrategy
      else RoundRobinStrategy)"

definition parseNodeSelector :: "selector_config option \<Rightarrow> selector_spec option" where
  "parseNodeSelector cfg =
     map_option (\<lambda>c. \<lparr>ss_strategy = parse_strategy (slc_Strategy c), ss_maxFails = slc_MaxFails c, ss_failTimeout = slc_FailTimeout c\<rparr>) cfg"

definition parseChainSelector :: "selector_config option \<Rightarrow> selector_spec option" where
  "parseChainSelector cfg =
     map_option (\<lambda>c. \<lparr>ss_strategy = parse_strategy (slc_Strategy c), ss_maxFails = slc_MaxFails c, ss_failTimeout = slc_FailTimeout c\<rparr>) cfg"

text \<open>\<open>DefaultMaxFails\<close> and \<open>DefaultFailTimeout\<close> of \<open>selector\<close>.\<close>

definition defaultNodeSelector :: selector_spec where
  "defaultNodeSelector = \<lparr>ss_strategy = RoundRobinStrategy, ss_maxFails = 1, ss_failTimeout = default_fail_timeout\<rparr>"

definition defaultChainSelector :: selector_spec where
  "defaultChainSelector = \<lparr>ss_strategy = RoundRobinStrategy, ss_maxFails = 1, ss_failTimeout = default_fail_timeout\<rparr>"

section \<open>Rules\<close>

record matcher_config =
  mc_Reverse :: bool
  mc_Whitelist :: bool
  mc_Matchers :: "string list"
  mc_Reload :: int
  mc_source :: source_config

definition ParseAdmission ::
    "('r, unit) ranger_ops \<Rightarrow> data_sources \<Rightarrow> matcher_config option \<Rightarrow> ('r admission \<times> bool) option"
where
  "ParseAdmission R D cfg =
     map_option (\<lambda>cfg. NewAdmission R
       ([admission_MatchersOption (mc_Matchers cfg), admission_WhitelistOption (mc_Reverse cfg \<or> mc_Whitelist cfg),
         admission_ReloadPeriodOption (mc_Reload cfg)] @
        source_options D (\<lambda>_. RedisSetLoader D) admission_FileLoaderOption admission_RedisLoaderOption admission_HTTPLoaderOption (mc_source cfg))) cfg"

definition ParseBypass ::
    "('r, unit) ranger_ops \<Rightarrow> (string \<Rightarrow> (string \<Rightarrow> bool) option) \<Rightarrow> data_sources \<Rightarrow> matcher_config option \<Rightarrow>
     ('r bypass \<times> bool) option option"
where
  "ParseBypass R compile D cfg =
     (case cfg of
        None \<Rightarrow> Some None
      | Some cfg \<Rightarrow> map_option Some (NewBypass R compile
          ([bypass_MatchersOption (mc_Matchers cfg), bypass_WhitelistOption (mc_Reverse cfg \<or> mc_Whitelist cfg),
            bypass_ReloadPeriodOption (mc_Reload cfg)] @
           source_options D (\<lambda>_. RedisSetLoader D) bypass_FileLoaderOption bypass_RedisLoaderOption bypass_HTTPLoaderOption (mc_source cfg))))"

record host_mapping_config =
  hmc_IP :: string
  hmc_Hostname :: string
  hmc_Aliases :: "string list"

record hosts_config =
  hc_Mappings :: "host_mapping_config option list"
  hc_Reload :: int
  hc_source :: source_config

definition parse_mapping :: "host_mapping_config \<Rightarrow> host_mapping list" where
  "parse_mapping m =
     (if hmc_IP m = [] \<or> hmc_Hostname m = [] then []
      else case parse_ip (hmc_IP m) of
        None \<Rightarrow> []
      | Some ip \<Rightarrow> [\<lparr>hm_Hostname = hmc_Hostname m, hm_IP = ip\<rparr>])"

definition ParseHosts :: "data_sources \<Rightarrow> hosts_config option \<Rightarrow> (hostMapper \<times> bool) option option" where
  "ParseHosts D cfg =
     (case cfg of
        None \<Rightarrow> Some None
      | Some cfg \<Rightarrow>
          map_option (\<lambda>ms. Some (NewHostMapper
            ([hosts_MappingsOption (concat (map parse_mapping ms)), hosts_ReloadPeriodOption (hc_Reload cfg)] @
             source_options D (redis_list_or_set D) hosts_FileLoaderOption hosts_RedisLoaderOption hosts_HTTPLoaderOption (hc_source cfg))))
            (elements (hc_Mappings cfg)))"

record ingress_config =
  igc_Rules :: "(string \<times> string) option list"
  igc_Reload :: int
  igc_source :: source_config

definition ParseIngress :: "data_sources \<Rightarrow> ingress_config option \<Rightarrow> (ingress \<times> bool) option option" where
  "ParseIngress D cfg =
     (case cfg of
        None \<Rightarrow> Some None
      | Some cfg \<Rightarrow>
          map_option (\<lambda>rs. Some (NewIngress
            ([ingress_RulesOption (concat (map (\<lambda>(h, e). if h = [] \<or> e = [] then [] else [\<lparr>ir_Hostname = h, ir_Endpoint = e\<rparr>]) rs)),
              ingress_ReloadPeriodOption (igc_Reload cfg)] @
             source_options D (redis_set_or_hash D) ingress_FileLoaderOption ingress_RedisLoaderOption ingress_HTTPLoaderOption (igc_source cfg))))
            (elements (igc_Rules cfg)))"

section \<open>Limiters and recorders\<close>

record limiter_config =
  lmc_Limits :: "string list"
  lmc_Reload :: int
  lmc_source :: source_config

definition ParseTrafficLimiter ::
    "('c, nat) cache_ops \<Rightarrow> 'l rate_ops \<Rightarrow> ('r, limitGenerator) ranger_ops \<Rightarrow> (string \<Rightarrow> int) \<Rightarrow> int \<Rightarrow> data_sources \<Rightarrow>
     limiter_config option \<Rightarrow> 'l list \<Rightarrow> ((('c, 'r) trafficLimiter \<times> 'l list) \<times> bool) option"
where
  "ParseTrafficLimiter C B R P now D cfg h =
     map_option (\<lambda>cfg. NewTrafficLimiter C B R P now
       (source_options D (redis_list_or_set D) traffic_FileLoaderOption traffic_RedisLoaderOption traffic_HTTPLoaderOption (lmc_source cfg) @
        [traffic_LimitsOption (lmc_Limits cfg), traffic_ReloadPeriodOption (lmc_Reload cfg)]) h) cfg"

definition ParseConnLimiter ::
    "('r, conn_generator) ranger_ops \<Rightarrow> data_sources \<Rightarrow> limiter_config option \<Rightarrow> ll_store \<Rightarrow>
     (('r connLimiter \<times> ll_store) \<times> bool) option"
where
  "ParseConnLimiter R D cfg h =
     map_option (\<lambda>cfg. NewConnLimiter R
       (source_options D (redis_list_or_set D) conn_FileLoaderOption conn_RedisLoaderOption conn_HTTPLoaderOption (lmc_source cfg) @
        [conn_LimitsOption (lmc_Limits cfg), conn_ReloadPeriodOption (lmc_Reload cfg)]) h) cfg"

definition ParseRateLimiter ::
    "('l, 'f) bucket_ops \<Rightarrow> ('r, 'f rl_generator) ranger_ops \<Rightarrow> data_sources \<Rightarrow> limiter_config option \<Rightarrow> 'l list \<Rightarrow>
     ((('f, 'r) rateLimiter \<times> 'l list) \<times> bool) option"
where
  "ParseRateLimiter B R D cfg h =
     map_option (\<lambda>cfg. NewRateLimiter B R
       (source_options D (redis_list_or_set D) rl_FileLoaderOption rl_RedisLoaderOption rl_HTTPLoaderOption (lmc_source cfg) @
        [rl_LimitsOption (lmc_Limits cfg), rl_ReloadPeriodOption (lmc_Reload cfg)]) h) cfg"

text \<open>A recorder by what it writes to: a file with a separator, or a key of a redis server.\<close>

datatype recorder =
    FileRecorder string string
  | RedisListRecorder string int string string
  | RedisSortedSetRecorder string int string string
  | RedisSetRecorder string int string string

record recorder_config =
  rcc_File :: "(string \<times> string) option"
  rcc_Redis :: "redis_config option"

definition ParseRecorder :: "recorder_config option \<Rightarrow> recorder option" where
  "ParseRecorder cfg =
     (case cfg of
        None \<Rightarrow> None
      | Some cfg \<Rightarrow>
          if (case rcc_File cfg of Some (path, sep) \<Rightarrow> path \<noteq> [] | None \<Rightarrow> False)
          then map_option (\<lambda>(path, sep). FileRecorder path sep) (rcc_File cfg)
          else (case rcc_Redis cfg of
             None \<Rightarrow> None
           | Some r \<Rightarrow>
               if rc_Addr r \<noteq> [] \<and> rc_Key r \<noteq> [] then
                 Some ((if rc_Type r = ''list'' then RedisListRecorder
                        else if rc_Type r = ''sset'' then RedisSortedSetRecorder else RedisSetRecorder)
                       (rc_Addr r) (rc_DB r) (rc_Password r) (rc_Key r))
               else None))"

section \<open>What a configured authenticator accepts\<close>

definition no_sources :: source_config where
  "no_sources = \<lparr>sc_File = None, sc_Redis = None, sc_HTTP = None\<rparr>"

lemma source_options_none [simp]: "source_options D kind file redis http no_sources = []"
  by (simp add: source_options_def no_sources_def)

lemma elements_map_Some [simp]: "elements (map Some xs) = Some xs"
  by (auto simp: elements_def comp_def)

text \<open>The users of a list that have a name, the later entries of a name first.\<close>

definition named_users :: "auth_config list \<Rightarrow> string \<rightharpoonup> string" where
  "named_users auths = map_of (rev (filter (\<lambda>(user, pass). user \<noteq> []) auths))"

lemma parse_users: "map_of (fold (\<lambda>(user, pass) m. if user = [] then m else AList.update user pass m) auths m) = map_of m ++ named_users auths"
  by (induction auths arbitrary: m) (auto simp: named_users_def update_conv' map_add_def fun_eq_iff split: option.split)

lemma parse_users_distinct:
  "distinct (map fst m) \<Longrightarrow> distinct (map fst (fold (\<lambda>(user, pass) m. if user = [] then m else AList.update user pass m) auths m))"
  by (induction auths arbitrary: m) (auto simp: distinct_update)

text \<open>
  An authenticator configured with a list of users and nothing else accepts a user exactly
  when the last entry of that name has no password or the one given; entries without a name
  are dropped, and without any named entry everyone is accepted.
\<close>

theorem parse_auther_accepts:
  assumes "auc_Auths cfg = map Some auths" "auc_source cfg = no_sources"
  shows "case ParseAuther D (Some cfg) of
      Some (Some (p, started)) \<Rightarrow> auth_Authenticate (Some p) user pass \<longleftrightarrow>
        named_users auths = Map.empty \<or> (\<exists>v. named_users auths user = Some v \<and> (v = [] \<or> pass = v))
    | _ \<Rightarrow> False"
proof -
  let ?m = "fold (\<lambda>(user, pass) m. if user = [] then m else AList.update user pass m) auths []"
  let ?opts = "[auth_AuthsOption ?m, auth_ReloadPeriodOption (auc_Reload cfg)]"
  have d: "distinct (map fst ?m)" by (rule parse_users_distinct) simp
  have applied: "auth_apply ?opts = auth_no_options\<lparr>uo_auths := ?m, uo_period := auc_Reload cfg\<rparr>"
    by (simp add: auth_apply_def auth_AuthsOption_def auth_ReloadPeriodOption_def)
  let ?p = "\<lparr>au_kvs = auth_copy ?m [], au_options = auth_apply ?opts\<rparr>"
  have new: "NewAuthenticator ?opts = Some (?p, auc_Reload cfg > 0)"
    by (simp add: NewAuthenticator_def Let_def auth_reload_def auth_load_def applied auth_no_options_def)
  have parse: "ParseAuther D (Some cfg) = Some (Some (?p, auc_Reload cfg > 0))"
    using assms new by (simp add: ParseAuther_def)
  have table: "map_of (auth_copy ?m []) = named_users auths"
    by (simp add: auth_copy_lookup map_of_rev_distinct [OF d] parse_users)
  moreover have "auth_copy ?m [] = [] \<longleftrightarrow> named_users auths = Map.empty"
    unfolding table [symmetric] by (rule map_of_eq_empty_iff [symmetric])
  ultimately show ?thesis
    by (auto simp: parse auth_Authenticate_def split: option.split)
qed

text \<open>Sources that do not answer.\<close>

definition silent_sources :: data_sources where
  "silent_sources = \<lparr>ds_file = \<lambda>_ _. None, ds_redisSet = \<lambda>_ _ _ _ _. None, ds_redisList = \<lambda>_ _ _ _ _. None,
     ds_redisHash = \<lambda>_ _ _ _ _. None, ds_http = \<lambda>_ _ _. HTTPError\<rparr>"

theorem parse_auther_accepts_witness:
  "case ParseAuther silent_sources (Some \<lparr>auc_Auths = [Some (''alice'', ''old''), Some ([], ''x''), Some (''alice'', ''new'')], auc_Reload = 0, auc_source = no_sources\<rparr>) of
     Some (Some (p, started)) \<Rightarrow> auth_Authenticate (Some p) ''alice'' ''new'' \<and> \<not> auth_Authenticate (Some p) [] ''x''
   | _ \<Rightarrow> False"
proof -
  let ?users = "[(''alice'', ''old''), ([], ''x''), (''alice'', ''new'')]"
  let ?cfg = "\<lparr>auc_Auths = map Some ?users, auc_Reload = 0, auc_source = no_sources\<rparr>"
  have users: "named_users ?users = [''alice'' \<mapsto> ''new'']"
    by (auto simp: named_users_def)
  show ?thesis
    using parse_auther_accepts [where cfg = ?cfg and auths = ?users and D = silent_sources and user = "''alice''" and pass = "''new''"]
      parse_auther_accepts [where cfg = ?cfg and auths = ?users and D = silent_sources and user = "[]" and pass = "''x''"]
    unfolding users by (auto simp: fun_eq_iff split: option.splits)
qed

end
