(* ===== verification/ParseService.thy ===== *)
theory ParseService
  imports Parsing Chain
begin

text \<open>
  Hops, chains and services from their configuration (\<open>config/parsing/chain.go\<close>,
  \<open>config/parsing/service.go\<close>): the nodes with what they inherit of their hop, and a service with
  its listener, handler and router.  Objects of the registries are wrappers, here their names.
  The connectors, dialers, listeners and handlers are plugins: what their types are, and whether
  one starts, are parameters.
\<close>

section \<open>Plugins\<close>

record tls_config =
  tc_CertFile :: string
  tc_KeyFile :: string
  tc_CAFile :: string
  tc_Secure :: bool
  tc_ServerName :: string

definition no_tls :: tls_config where
  "no_tls = \<lparr>tc_CertFile = [], tc_KeyFile = [], tc_CAFile = [], tc_Secure = False, tc_ServerName = []\<rparr>"

text \<open>The metadata \<open>'m\<close> of a plugin is nil or a map, of which the code reads a few keys.\<close>

record 'm plugin_config =
  pc_Type :: string
  pc_Auth :: "auth_config option"
  pc_TLS :: "tls_config option"
  pc_Metadata :: "'m option"

definition default_plugin :: "string \<Rightarrow> 'm plugin_config" where
  "default_plugin type = \<lparr>pc_Type = type, pc_Auth = None, pc_TLS = None, pc_Metadata = None\<rparr>"

text \<open>
  \<open>pe_tls\<close> is whether the files of a TLS configuration load; \<open>pe_connector\<close> and the like, which
  types are registered; \<open>pe_connector_init\<close> and the like, whether a plugin accepts its metadata
  (and, for a listener, can listen, where the address is free).  \<open>pe_multiplex\<close> are the types of dialers that multiplex,
  \<open>pe_forwarder\<close> the types of handlers that forward.  \<open>pe_bypass\<close> is a group of bypasses by name.
\<close>

record 'm parse_env =
  pe_tls :: "tls_config \<Rightarrow> bool"
  pe_connector :: "string \<Rightarrow> bool"
  pe_connector_init :: "'m plugin_config \<Rightarrow> bool"
  pe_dialer :: "string \<Rightarrow> bool"
  pe_dialer_init :: "'m plugin_config \<Rightarrow> bool"
  pe_multiplex :: "string \<Rightarrow> bool"
  pe_listener :: "string \<Rightarrow> bool"
  pe_listener_init :: "string \<Rightarrow> 'm option \<Rightarrow> bool"
  pe_handler :: "string \<Rightarrow> bool"
  pe_handler_init :: "string \<Rightarrow> 'm option \<Rightarrow> bool"
  pe_forwarder :: "string \<Rightarrow> bool"
  pe_empty :: 'm
  pe_int :: "'m \<Rightarrow> string \<Rightarrow> int"
  pe_string :: "'m \<Rightarrow> string \<Rightarrow> string"
  pe_strings :: "'m \<Rightarrow> string \<Rightarrow> string list"
  pe_bool :: "'m \<Rightarrow> string \<Rightarrow> bool"
  pe_bypass :: "string list \<Rightarrow> string \<Rightarrow> bool"

datatype parse_err = ErrTLS | ErrUnregistered string | ErrInit

text \<open>The wrappers of a registry for a name and a list of names: none for the empty name.\<close>

definition named :: "string \<Rightarrow> string option" where
  "named name = (if name \<noteq> [] then Some name else None)"

definition bypassList :: "string \<Rightarrow> string list \<Rightarrow> string list" where
  "bypassList name names = filter (\<lambda>n. n \<noteq> []) (name # names)"

definition autherList :: "string \<Rightarrow> string list \<Rightarrow> string list" where
  "autherList name names = filter (\<lambda>n. n \<noteq> []) (name # names)"

definition admissionList :: "string \<Rightarrow> string list \<Rightarrow> string list" where
  "admissionList name names = filter (\<lambda>n. n \<noteq> []) (name # names)"

section \<open>Hops\<close>

record 'm node_config =
  nc_Name :: string
  nc_Addr :: string
  nc_Host :: string
  nc_Protocol :: string
  nc_Interface :: string
  nc_SockOpts :: "int option"
  nc_Bypass :: string
  nc_Bypasses :: "string list"
  nc_Resolver :: string
  nc_Hosts :: string
  nc_Connector :: "'m plugin_config option"
  nc_Dialer :: "'m plugin_config option"
  nc_Metadata :: "'m option"
  nc_HTTP :: "(string \<times> (string \<times> string) list) option"
  nc_TLS :: "(string \<times> bool) option"
  nc_Auth :: "auth_config option"

record 'm hop_config =
  hpc_Name :: string
  hpc_Interface :: string
  hpc_SockOpts :: "int option"
  hpc_Selector :: "selector_config option"
  hpc_Bypass :: string
  hpc_Bypasses :: "string list"
  hpc_Resolver :: string
  hpc_Hosts :: string
  hpc_Nodes :: "'m node_config option list"

text \<open>What a node gets that its configuration leaves out; the code writes it into the configuration.\<close>

definition node_defaults :: "'m parse_env \<Rightarrow> 'm hop_config \<Rightarrow> 'm node_config \<Rightarrow> 'm node_config" where
  "node_defaults E cfg v =
     (let c = (case nc_Connector v of None \<Rightarrow> default_plugin ''http'' | Some c \<Rightarrow> c);
          d = (case nc_Dialer v of None \<Rightarrow> default_plugin ''tcp'' | Some d \<Rightarrow> d);
          made = (\<lambda>m. case m of None \<Rightarrow> Some (pe_empty E) | Some m \<Rightarrow> Some m)
      in v\<lparr>nc_Connector := Some (c\<lparr>pc_Metadata := made (pc_Metadata c)\<rparr>),
           nc_Dialer := Some (d\<lparr>pc_Metadata := made (pc_Metadata d)\<rparr>),
           nc_Resolver := (if nc_Resolver v = [] then hpc_Resolver cfg else nc_Resolver v),
           nc_Hosts := (if nc_Hosts v = [] then hpc_Hosts cfg else nc_Hosts v),
           nc_Interface := (if nc_Interface v = [] then hpc_Interface cfg else nc_Interface v),
           nc_SockOpts := (if nc_SockOpts v = None then hpc_SockOpts cfg else nc_SockOpts v)\<rparr>)"

definition node_host :: "string \<Rightarrow> string" where
  "node_host host =
     (if has_prefix host ''*''
      then (let host = drop 1 host in if \<not> has_prefix host ''.'' then ''.'' @ host else host)
      else host)"

text \<open>A node: what the chain knows of it, and what its transport and its options are.\<close>

record parsed_node =
  pn_info :: node_info
  pn_connector :: "string \<times> (string \<times> string option) option"
  pn_dialer :: "string \<times> (string \<times> string option) option"
  pn_ppv :: int
  pn_Interface :: string
  pn_Mark :: "int option"
  pn_Resolver :: "string option"
  pn_Hosts :: "string option"
  pn_HTTP :: "(string \<times> (string \<times> string) list) option"
  pn_TLS :: "(string \<times> bool) option"
  pn_Auther :: "auths option"

definition parse_node :: "'m parse_env \<Rightarrow> 'm hop_config \<Rightarrow> 'm node_config \<Rightarrow> parse_err + parsed_node" where
  "parse_node E cfg v =
     (let v = node_defaults E cfg v; c = the (nc_Connector v); d = the (nc_Dialer v);
          tls = (\<lambda>p. case pc_TLS p of None \<Rightarrow> no_tls | Some t \<Rightarrow> t)
      in if \<not> pe_tls E (tls c) then Inl ErrTLS
         else if \<not> pe_connector E (pc_Type c) then Inl (ErrUnregistered (pc_Type c))
         else if \<not> pe_connector_init E c then Inl ErrInit
         else if \<not> pe_tls E (tls d) then Inl ErrTLS
         else if \<not> pe_dialer E (pc_Type d) then Inl (ErrUnregistered (pc_Type d))
         else if \<not> pe_dialer_init E d then Inl ErrInit
         else Inr \<lparr>
           pn_info = \<lparr>ni_Name = nc_Name v, ni_Addr = nc_Addr v, ni_Host = node_host (nc_Host v), ni_Protocol = nc_Protocol v,
             ni_Bypass = Some (pe_bypass E (bypassList (nc_Bypass v) (nc_Bypasses v))),
             ni_Multiplex = pe_multiplex E (pc_Type d), ni_Marker = True\<rparr>,
           pn_connector = (pc_Type c, parseAuth (pc_Auth c)), pn_dialer = (pc_Type d, parseAuth (pc_Auth d)),
           pn_ppv = (case nc_Metadata v of None \<Rightarrow> 0 | Some m \<Rightarrow> pe_int E m ''proxyProtocol''),
           pn_Interface = nc_Interface v, pn_Mark = nc_SockOpts v,
           pn_Resolver = named (nc_Resolver v), pn_Hosts = named (nc_Hosts v),
           pn_HTTP = nc_HTTP v, pn_TLS = nc_TLS v, pn_Auther = map_option (\<lambda>a. [a]) (nc_Auth v)\<rparr>)"

record parsed_hop =
  ph_nodes :: "parsed_node list"
  ph_selector :: selector_spec
  ph_bypass :: "string \<Rightarrow> bool"

text \<open>The nodes in their order, up to the first that fails; nil nodes are skipped.\<close>

primrec parse_nodes :: "'m parse_env \<Rightarrow> 'm hop_config \<Rightarrow> 'm node_config option list \<Rightarrow> parse_err + parsed_node list" where
  "parse_nodes E cfg [] = Inr []"
| "parse_nodes E cfg (v # vs) =
     (case v of
        None \<Rightarrow> parse_nodes E cfg vs
      | Some v \<Rightarrow>
          (case parse_node E cfg v of
             Inl e \<Rightarrow> Inl e
           | Inr n \<Rightarrow> (case parse_nodes E cfg vs of Inl e \<Rightarrow> Inl e | Inr ns \<Rightarrow> Inr (n # ns))))"

definition ParseHop :: "'m parse_env \<Rightarrow> 'm hop_config option \<Rightarrow> parse_err + parsed_hop option" where
  "ParseHop E cfg =
     (case cfg of
        None \<Rightarrow> Inr None
      | Some cfg \<Rightarrow>
          (case parse_nodes E cfg (hpc_Nodes cfg) of
             Inl e \<Rightarrow> Inl e
           | Inr nodes \<Rightarrow>
               let sel = parseNodeSelector (hpc_Selector cfg)
               in Inr (Some \<lparr>ph_nodes = nodes,
                    ph_selector = (case sel of None \<Rightarrow> defaultNodeSelector | Some s \<Rightarrow> s),
                    ph_bypass = pe_bypass E (bypassList (hpc_Bypass cfg) (hpc_Bypasses cfg))\<rparr>)))"

section \<open>Chains\<close>

text \<open>A chain lists no nil hop, which would panic.\<close>

text \<open>A hop of a chain, or of a forwarder, is its own or one of the registry.\<close>

datatype hop_ref = OwnHop parsed_hop | NamedHop string

primrec parse_chain_hops :: "'m parse_env \<Rightarrow> 'm hop_config list \<Rightarrow> parse_err + hop_ref list" where
  "parse_chain_hops E [] = Inr []"
| "parse_chain_hops E (ch # chs) =
     (case (if length (hpc_Nodes ch) > 0 then map_sum id (map_option OwnHop) (ParseHop E (Some ch))
            else Inr (map_option NamedHop (named (hpc_Name ch)))) of
        Inl e \<Rightarrow> Inl e
      | Inr hop \<Rightarrow>
          (case parse_chain_hops E chs of
             Inl e \<Rightarrow> Inl e
           | Inr hops \<Rightarrow> Inr ((case hop of None \<Rightarrow> [] | Some h \<Rightarrow> [h]) @ hops)))"

record 'm chain_config =
  chc_Name :: string
  chc_Hops :: "'m hop_config list"

definition ParseChain :: "'m parse_env \<Rightarrow> 'm chain_config option \<Rightarrow> parse_err + (string \<times> hop_ref list) option" where
  "ParseChain E cfg =
     (case cfg of
        None \<Rightarrow> Inr None
      | Some cfg \<Rightarrow> map_sum id (\<lambda>hops. Some (chc_Name cfg, hops)) (parse_chain_hops E (chc_Hops cfg)))"

text \<open>A group of chains, by their names, with its selector.\<close>

record chain_group_config =
  cgc_Chains :: "string list"
  cgc_Selector :: "selector_config option"

definition parse_chainGroup :: "string \<Rightarrow> chain_group_config option \<Rightarrow> (string list \<times> selector_spec) option" where
  "parse_chainGroup name gc =
     (let chains = filter (\<lambda>n. n \<noteq> []) (name # (case gc of None \<Rightarrow> [] | Some g \<Rightarrow> cgc_Chains g));
          sel = (case gc of None \<Rightarrow> None | Some g \<Rightarrow> parseChainSelector (cgc_Selector g))
      in if length chains = 0 then None
         else Some (chains, case sel of None \<Rightarrow> defaultChainSelector | Some s \<Rightarrow> s))"

section \<open>Forwarders\<close>

record forward_node_config =
  fnc_Name :: string
  fnc_Addr :: string
  fnc_Host :: string
  fnc_Protocol :: string
  fnc_Bypass :: string
  fnc_Bypasses :: "string list"
  fnc_HTTP :: "(string \<times> (string \<times> string) list) option"
  fnc_TLS :: "(string \<times> bool) option"
  fnc_Auth :: "auth_config option"

record forwarder_config =
  fc_Name :: string
  fc_Selector :: "selector_config option"
  fc_Nodes :: "forward_node_config option list"
  fc_Targets :: "string list"

definition forward_node :: "forward_node_config \<Rightarrow> 'm node_config" where
  "forward_node n =
     \<lparr>nc_Name = fnc_Name n, nc_Addr = fnc_Addr n, nc_Host = fnc_Host n, nc_Protocol = fnc_Protocol n,
      nc_Interface = [], nc_SockOpts = None, nc_Bypass = fnc_Bypass n, nc_Bypasses = fnc_Bypasses n,
      nc_Resolver = [], nc_Hosts = [], nc_Connector = None, nc_Dialer = None, nc_Metadata = None,
      nc_HTTP = fnc_HTTP n, nc_TLS = fnc_TLS n, nc_Auth = fnc_Auth n\<rparr>"

text \<open>A target is taken as it is written, when there is more to it than blanks.\<close>

definition target_node :: "string \<Rightarrow> 'm node_config" where
  "target_node t = forward_node \<lparr>fnc_Name = t, fnc_Addr = t, fnc_Host = [], fnc_Protocol = [], fnc_Bypass = [],
     fnc_Bypasses = [], fnc_HTTP = None, fnc_TLS = None, fnc_Auth = None\<rparr>"

definition parseForwarder :: "'m parse_env \<Rightarrow> forwarder_config option \<Rightarrow> parse_err + hop_ref option" where
  "parseForwarder E cfg =
     (case cfg of
        None \<Rightarrow> Inr None
      | Some cfg \<Rightarrow>
          let nodes = (if length (fc_Nodes cfg) > 0
                then concat (map (\<lambda>n. case n of None \<Rightarrow> [] | Some n \<Rightarrow> [Some (forward_node n)]) (fc_Nodes cfg))
                else map (\<lambda>t. Some (target_node t)) (filter (\<lambda>t. trim_space t \<noteq> []) (fc_Targets cfg)));
              hc = \<lparr>hpc_Name = fc_Name cfg, hpc_Interface = [], hpc_SockOpts = None, hpc_Selector = fc_Selector cfg,
                hpc_Bypass = [], hpc_Bypasses = [], hpc_Resolver = [], hpc_Hosts = [], hpc_Nodes = nodes\<rparr>
          in if length nodes > 0 then map_sum id (map_option OwnHop) (ParseHop E (Some hc))
             else Inr (map_option NamedHop (named (fc_Name cfg))))"

section \<open>Services\<close>

record 'm endpoint_config =
  ec_Type :: string
  ec_Retries :: int
  ec_Chain :: string
  ec_ChainGroup :: "chain_group_config option"
  ec_Auther :: string
  ec_Authers :: "string list"
  ec_Auth :: "auth_config option"
  ec_TLS :: "tls_config option"
  ec_Metadata :: "'m option"

definition default_endpoint :: "string \<Rightarrow> 'm endpoint_config" where
  "default_endpoint type = \<lparr>ec_Type = type, ec_Retries = 0, ec_Chain = [], ec_ChainGroup = None, ec_Auther = [],
     ec_Authers = [], ec_Auth = None, ec_TLS = None, ec_Metadata = None\<rparr>"

record 'm service_config =
  svc_Name :: string
  svc_Addr :: string
  svc_Interface :: string
  svc_SockOpts :: "int option"
  svc_Admission :: string
  svc_Admissions :: "string list"
  svc_Bypass :: string
  svc_Bypasses :: "string list"
  svc_Resolver :: string
  svc_Hosts :: string
  svc_Limiter :: string
  svc_CLimiter :: string
  svc_RLimiter :: string
  svc_Recorders :: "(string \<times> string) list"
  svc_Handler :: "'m endpoint_config option"
  svc_Listener :: "'m endpoint_config option"
  svc_Forwarder :: "forwarder_config option"
  svc_Metadata :: "'m option"

text \<open>The authenticators of a listener or handler: those named, or the one of its own user.\<close>

datatype auther_ref = NamedAuther string | OwnAuther auth_config

definition endpoint_authers :: "'m endpoint_config \<Rightarrow> auther_ref list" where
  "endpoint_authers c =
     (let authers = autherList (ec_Auther c) (ec_Authers c)
      in if length authers = 0
         then (case ec_Auth c of None \<Rightarrow> [] | Some a \<Rightarrow> if fst a = [] then [] else [OwnAuther a])
         else map NamedAuther authers)"

record parsed_listener =
  pl_Type :: string
  pl_Addr :: string
  pl_Authers :: "auther_ref list"
  pl_Auth :: "(string \<times> string option) option"
  pl_Admissions :: "string list"
  pl_Limiter :: "string option"
  pl_CLimiter :: "string option"
  pl_Service :: string
  pl_ppv :: int
  pl_Chain :: "(string list \<times> selector_spec) option"

record parsed_router =
  pr_Retries :: int
  pr_Interface :: string
  pr_Mark :: "int option"
  pr_Resolver :: "string option"
  pr_Hosts :: "string option"
  pr_Recorders :: "(string option \<times> string) list"
  pr_Chain :: "(string list \<times> selector_spec) option"

record parsed_handler =
  phd_Type :: string
  phd_Router :: parsed_router
  phd_Authers :: "auther_ref list"
  phd_Auth :: "(string \<times> string option) option"
  phd_Bypasses :: "string list"
  phd_RLimiter :: "string option"
  phd_Service :: string
  phd_Hop :: "hop_ref option"

record parsed_service =
  ps_Name :: string
  ps_Listener :: parsed_listener
  ps_Handler :: parsed_handler
  ps_Admissions :: "string list"
  ps_hooks :: "string list \<times> string list \<times> string list \<times> string list"

text \<open>
  The parts that fail or not, in the order of the code.  The state is the set of addresses that
  are listened on: \<open>Init\<close> of a listener adds its own, when it is free.
\<close>

definition parse_listen :: "'m parse_env \<Rightarrow> string \<Rightarrow> 'm endpoint_config \<Rightarrow> string set \<Rightarrow> parse_err option \<times> string set" where
  "parse_listen E addr l bound =
     (if \<not> pe_tls E (case ec_TLS l of None \<Rightarrow> no_tls | Some t \<Rightarrow> t) then (Some ErrTLS, bound)
      else if \<not> pe_listener E (ec_Type l) then (Some (ErrUnregistered (ec_Type l)), bound)
      else if \<not> pe_listener_init E (ec_Type l) (ec_Metadata l) \<or> addr \<in> bound then (Some ErrInit, bound)
      else (None, insert addr bound))"

definition parse_handler :: "'m parse_env \<Rightarrow> forwarder_config option \<Rightarrow> 'm endpoint_config \<Rightarrow> parse_err + hop_ref option" where
  "parse_handler E fwd h =
     (if \<not> pe_tls E (case ec_TLS h of None \<Rightarrow> no_tls | Some t \<Rightarrow> t) then Inl ErrTLS
      else if \<not> pe_handler E (ec_Type h) then Inl (ErrUnregistered (ec_Type h))
      else case (if pe_forwarder E (ec_Type h) then parseForwarder E fwd else Inr None) of
        Inl e \<Rightarrow> Inl e
      | Inr hop \<Rightarrow> if \<not> pe_handler_init E (ec_Type h) (ec_Metadata h) then Inl ErrInit else Inr hop)"

text \<open>The metadata of the service, with what it overrides.\<close>

definition service_mark :: "'m parse_env \<Rightarrow> 'm service_config \<Rightarrow> int option" where
  "service_mark E cfg =
     (case svc_Metadata cfg of
        Some md \<Rightarrow> if pe_int E md ''so_mark'' > 0 then Some (pe_int E md ''so_mark'') else svc_SockOpts cfg
      | None \<Rightarrow> svc_SockOpts cfg)"

definition service_interface :: "'m parse_env \<Rightarrow> 'm service_config \<Rightarrow> string" where
  "service_interface E cfg =
     (case svc_Metadata cfg of
        Some md \<Rightarrow> if pe_string E md ''interface'' \<noteq> [] then pe_string E md ''interface'' else svc_Interface cfg
      | None \<Rightarrow> svc_Interface cfg)"

definition service_listener :: "'m service_config \<Rightarrow> 'm endpoint_config" where
  "service_listener cfg = (case svc_Listener cfg of None \<Rightarrow> default_endpoint ''tcp'' | Some l \<Rightarrow> l)"

definition service_handler :: "'m service_config \<Rightarrow> 'm endpoint_config" where
  "service_handler cfg = (case svc_Handler cfg of None \<Rightarrow> default_endpoint ''auto'' | Some h \<Rightarrow> h)"

text \<open>The service, with the options of its parts.\<close>

definition make_service :: "'m parse_env \<Rightarrow> 'm service_config \<Rightarrow> hop_ref option \<Rightarrow> parsed_service" where
  "make_service E cfg hop =
     (let l = service_listener cfg;
          h = service_handler cfg;
          admissions = admissionList (svc_Admission cfg) (svc_Admissions cfg);
          strings = (\<lambda>k. case svc_Metadata cfg of None \<Rightarrow> [] | Some md \<Rightarrow> pe_strings E md k);
          ignoreChain = (case svc_Metadata cfg of None \<Rightarrow> False | Some md \<Rightarrow> pe_bool E md ''ignoreChain'');
          group = (\<lambda>c. if ignoreChain then None else parse_chainGroup (ec_Chain c) (ec_ChainGroup c))
      in \<lparr>ps_Name = svc_Name cfg,
           ps_Listener = \<lparr>pl_Type = ec_Type l, pl_Addr = svc_Addr cfg, pl_Authers = endpoint_authers l,
             pl_Auth = parseAuth (ec_Auth l), pl_Admissions = admissions, pl_Limiter = named (svc_Limiter cfg),
             pl_CLimiter = named (svc_CLimiter cfg), pl_Service = svc_Name cfg,
             pl_ppv = (case svc_Metadata cfg of None \<Rightarrow> 0 | Some md \<Rightarrow> pe_int E md ''proxyProtocol''),
             pl_Chain = group l\<rparr>,
           ps_Handler = \<lparr>phd_Type = ec_Type h,
             phd_Router = \<lparr>pr_Retries = ec_Retries h, pr_Interface = service_interface E cfg, pr_Mark = service_mark E cfg,
               pr_Resolver = named (svc_Resolver cfg), pr_Hosts = named (svc_Hosts cfg),
               pr_Recorders = map (\<lambda>r. (named (fst r), snd r)) (svc_Recorders cfg), pr_Chain = group h\<rparr>,
             phd_Authers = endpoint_authers h, phd_Auth = parseAuth (ec_Auth h),
             phd_Bypasses = bypassList (svc_Bypass cfg) (svc_Bypasses cfg), phd_RLimiter = named (svc_RLimiter cfg),
             phd_Service = svc_Name cfg, phd_Hop = hop\<rparr>,
           ps_Admissions = admissions,
           ps_hooks = (strings ''preUp'', strings ''postUp'', strings ''preDown'', strings ''postDown'')\<rparr>)"

definition ParseService :: "'m parse_env \<Rightarrow> 'm service_config \<Rightarrow> string set \<Rightarrow> (parse_err + parsed_service) \<times> string set" where
  "ParseService E cfg bound =
     (case parse_listen E (svc_Addr cfg) (service_listener cfg) bound of
        (Some e, bound) \<Rightarrow> (Inl e, bound)
      | (None, bound) \<Rightarrow>
          (case parse_handler E (svc_Forwarder cfg) (service_handler cfg) of
             Inl e \<Rightarrow> (Inl e, bound)
           | Inr hop \<Rightarrow> (Inr (make_service E cfg hop), bound)))"

section \<open>Where the host of a node applies\<close>

text \<open>The hosts a configured host stands for: itself, or, after a star or a dot, any that ends so.\<close>

definition host_pattern :: "string \<Rightarrow> string \<Rightarrow> bool" where
  "host_pattern p x \<longleftrightarrow>
     (if has_prefix p ''*'' then has_suffix x (if has_prefix (drop 1 p) ''.'' then drop 2 p else drop 1 p)
      else if has_prefix p ''.'' then has_suffix x (drop 1 p)
      else x = p)"

lemma has_suffix_Cons: "has_suffix (c # s) s"
  by (simp add: has_suffix_def)

lemma vhost_node_host:
  assumes "p \<noteq> []"
  shows "vhost_matches (node_host p) x = host_pattern p x"
proof (cases p)
  case (Cons c p')
  show ?thesis
    by (cases p') (auto simp: Cons vhost_matches_def node_host_def host_pattern_def has_prefix_def Let_def has_suffix_Cons)
qed (use assms in simp)

lemma node_host_Nil [simp]: "node_host p = [] \<longleftrightarrow> p = []"
  by (auto simp: node_host_def Let_def has_prefix_def)

text \<open>The nodes of a parsed hop are those configured, with their names, addresses and hosts.\<close>

definition configured :: "'m hop_config \<Rightarrow> 'm node_config list" where
  "configured cfg = map the (filter (\<lambda>v. v \<noteq> None) (hpc_Nodes cfg))"

definition node_of :: "'m node_config \<Rightarrow> parsed_node \<Rightarrow> bool" where
  "node_of v n \<longleftrightarrow> ni_Name (pn_info n) = nc_Name v \<and> ni_Addr (pn_info n) = nc_Addr v \<and> ni_Host (pn_info n) = node_host (nc_Host v)"

lemma parse_node_of: "parse_node E cfg v = Inr n \<Longrightarrow> node_of v n"
  by (auto simp: parse_node_def Let_def node_defaults_def node_of_def split: if_splits)

lemma parse_nodes_of:
  "parse_nodes E cfg vs = Inr ns \<Longrightarrow> list_all2 node_of (map the (filter (\<lambda>v. v \<noteq> None) vs)) ns"
  by (induction vs arbitrary: ns) (auto split: option.splits sum.splits dest: parse_node_of)

text \<open>A parsed hop as the chain has it.\<close>

definition chain_nodes :: "parsed_hop \<Rightarrow> chain_node option list" where
  "chain_nodes hop = map (\<lambda>n. Some (ChainNode (pn_info n) None)) (ph_nodes hop)"

lemma list_all2_filter_map:
  assumes "list_all2 R vs ns" "\<And>v n. R v n \<Longrightarrow> P v = Q n \<and> f v = g n"
  shows "map f (filter P vs) = map g (filter Q ns)"
  using assms(1) by (induction rule: list_all2_induct) (use assms(2) in auto)

lemma choose_map:
  "map f a = map g b \<Longrightarrow> map f a' = map g b' \<Longrightarrow> map f (if a = [] then a' else a) = map g (if b = [] then b' else b)"
  by (cases a; cases b) auto

text \<open>
  A host is served by the nodes configured for it, those whose host is it or is a pattern
  that stands for it, in their order, and when there is none by the nodes without a host.
\<close>

theorem parsed_hop_serves_hosts:
  assumes "ParseHop E (Some cfg) = Inr (Some hop)" "so_Host opts \<noteq> []"
  shows "map (\<lambda>n. (ni_Name (nd_info (the n)), ni_Addr (nd_info (the n)))) (hop_filters opts (chain_nodes hop)) =
    map (\<lambda>v. (nc_Name v, nc_Addr v))
      (let fits = filter (\<lambda>v. nc_Host v \<noteq> [] \<and> host_pattern (nc_Host v) (strip_port (so_Host opts))) (configured cfg)
       in if fits = [] then filter (\<lambda>v. nc_Host v = []) (configured cfg) else fits)"
proof -
  let ?x = "strip_port (so_Host opts)"
  let ?fits = "filter (\<lambda>n. ni_Host (pn_info n) \<noteq> [] \<and> vhost_matches (ni_Host (pn_info n)) ?x) (ph_nodes hop)"
  let ?others = "filter (\<lambda>n. ni_Host (pn_info n) = []) (ph_nodes hop)"
  have nodes: "list_all2 node_of (configured cfg) (ph_nodes hop)"
    using assms(1) parse_nodes_of [of E cfg "hpc_Nodes cfg"]
    by (auto simp: ParseHop_def Let_def configured_def split: sum.splits)
  have fits: "map (\<lambda>v. (nc_Name v, nc_Addr v)) (filter (\<lambda>v. nc_Host v \<noteq> [] \<and> host_pattern (nc_Host v) ?x) (configured cfg)) =
      map (\<lambda>n. (ni_Name (pn_info n), ni_Addr (pn_info n))) ?fits"
    by (rule list_all2_filter_map [OF nodes]) (auto simp: node_of_def vhost_node_host)
  have others: "map (\<lambda>v. (nc_Name v, nc_Addr v)) (filter (\<lambda>v. nc_Host v = []) (configured cfg)) =
      map (\<lambda>n. (ni_Name (pn_info n), ni_Addr (pn_info n))) ?others"
    by (rule list_all2_filter_map [OF nodes]) (auto simp: node_of_def)
  have filters: "hop_filters opts (chain_nodes hop) =
      map (\<lambda>n. Some (ChainNode (pn_info n) None)) (if ?fits = [] then ?others else ?fits)"
    using assms(2) by (simp add: hop_filters_def chain_nodes_def Let_def filter_map comp_def)
  show ?thesis
    unfolding filters Let_def by (simp only: choose_map [OF fits others] map_map comp_def option.sel chain_node.sel)
qed

section \<open>A service that cannot be made\<close>

text \<open>
  When the handler of a service cannot be made, the service fails but its listener, made
  first, is not closed: its address stays taken, so that a service there fails from then on,
  whatever its handler.
\<close>

theorem failed_service_keeps_port:
  assumes "parse_listen E (svc_Addr cfg) (service_listener cfg) bound = (None, bound')"
    and "parse_handler E (svc_Forwarder cfg) (service_handler cfg) = Inl e"
    and "svc_Addr cfg' = svc_Addr cfg"
  shows "fst (ParseService E cfg bound) = Inl e \<and> svc_Addr cfg \<in> snd (ParseService E cfg bound) \<and>
    isl (fst (ParseService E cfg' (snd (ParseService E cfg bound))))"
proof -
  have failed: "ParseService E cfg bound = (Inl e, insert (svc_Addr cfg) bound)"
    using assms(1,2) by (auto simp: ParseService_def parse_listen_def split: if_splits)
  have "\<exists>e'. parse_listen E (svc_Addr cfg) (service_listener cfg') (insert (svc_Addr cfg) bound) =
      (Some e', insert (svc_Addr cfg) bound)"
    by (simp add: parse_listen_def)
  then obtain e' where "parse_listen E (svc_Addr cfg) (service_listener cfg') (insert (svc_Addr cfg) bound) =
      (Some e', insert (svc_Addr cfg) bound)" ..
  then show ?thesis
    by (simp add: failed ParseService_def [of E cfg'] assms(3))
qed

text \<open>An environment in which everything starts but handlers of one type, and its hops and services.\<close>

definition demo_parse_env :: "unit parse_env" where
  "demo_parse_env = \<lparr>pe_tls = (\<lambda>_. True), pe_connector = (\<lambda>_. True), pe_connector_init = (\<lambda>_. True), pe_dialer = (\<lambda>_. True),
     pe_dialer_init = (\<lambda>_. True), pe_multiplex = (\<lambda>_. False), pe_listener = (\<lambda>_. True), pe_listener_init = (\<lambda>_ _. True),
     pe_handler = (\<lambda>t. t \<noteq> ''htp''), pe_handler_init = (\<lambda>_ _. True), pe_forwarder = (\<lambda>_. False), pe_empty = (),
     pe_int = (\<lambda>_ _. 0), pe_string = (\<lambda>_ _. []), pe_strings = (\<lambda>_ _. []), pe_bool = (\<lambda>_ _. False), pe_bypass = (\<lambda>_ _. False)\<rparr>"

definition demo_node :: "string \<Rightarrow> string \<Rightarrow> unit node_config" where
  "demo_node addr host = (target_node addr)\<lparr>nc_Host := host\<rparr>"

definition demo_hop :: "unit hop_config" where
  "demo_hop = \<lparr>hpc_Name = ''hop'', hpc_Interface = [], hpc_SockOpts = None, hpc_Selector = None, hpc_Bypass = [], hpc_Bypasses = [],
     hpc_Resolver = [], hpc_Hosts = [], hpc_Nodes = [Some (demo_node ''10.0.0.1:80'' ''*.example.com''), Some (demo_node ''10.0.0.2:80'' [])]\<rparr>"

definition demo_service :: "string \<Rightarrow> unit service_config" where
  "demo_service type = \<lparr>svc_Name = ''web'', svc_Addr = '':80'', svc_Interface = [], svc_SockOpts = None, svc_Admission = [],
     svc_Admissions = [], svc_Bypass = [], svc_Bypasses = [], svc_Resolver = [], svc_Hosts = [], svc_Limiter = [], svc_CLimiter = [],
     svc_RLimiter = [], svc_Recorders = [], svc_Handler = Some (default_endpoint type), svc_Listener = None, svc_Forwarder = None,
     svc_Metadata = None\<rparr>"

text \<open>A host that only ends in the same letters is served too.\<close>

theorem parsed_hop_serves_hosts_witness:
  "\<exists>hop. ParseHop demo_parse_env (Some demo_hop) = Inr (Some hop) \<and>
     map (\<lambda>n. ni_Addr (nd_info (the n))) (hop_filters \<lparr>so_Addr = [], so_Host = ''notexample.com'', so_Protocol = []\<rparr> (chain_nodes hop)) =
       [''10.0.0.1:80'']"
proof -
  let ?opts = "\<lparr>so_Addr = [], so_Host = ''notexample.com'', so_Protocol = []\<rparr>"
  have "case ParseHop demo_parse_env (Some demo_hop) of Inr (Some hop) \<Rightarrow> True | _ \<Rightarrow> False" by code_simp
  then obtain hop where hop: "ParseHop demo_parse_env (Some demo_hop) = Inr (Some hop)" by (auto split: sum.splits option.splits)
  have host: "strip_port ''notexample.com'' = ''notexample.com''" "host_pattern ''*.example.com'' ''notexample.com''" by code_simp+
  from parsed_hop_serves_hosts [OF hop, of ?opts] have
    "map (\<lambda>n. (ni_Name (nd_info (the n)), ni_Addr (nd_info (the n)))) (hop_filters ?opts (chain_nodes hop)) = [(''10.0.0.1:80'', ''10.0.0.1:80'')]"
    by (simp add: host configured_def demo_hop_def demo_node_def target_node_def forward_node_def)
  from arg_cong [OF this, of "map snd"] hop show ?thesis by (auto simp: comp_def)
qed

theorem failed_service_keeps_port_witness:
  "fst (ParseService demo_parse_env (demo_service ''htp'') {}) = Inl (ErrUnregistered ''htp'') \<and>
   isl (fst (ParseService demo_parse_env (demo_service ''http'') (snd (ParseService demo_parse_env (demo_service ''htp'') {}))))"
  using failed_service_keeps_port [of demo_parse_env "demo_service ''htp''" "{}" "{'':80''}" "ErrUnregistered ''htp''" "demo_service ''http''"]
  by (simp add: parse_listen_def parse_handler_def demo_parse_env_def demo_service_def service_listener_def service_handler_def default_endpoint_def)

end
