(* ===== verification/Transparent.thy ===== *)
theory Transparent
  imports Handler Sniff HostCode
begin

text \<open>
  The handlers of connections that do not say where to: the SNI proxy (\<open>handler/sni\<close>), which finds
  the host in a TLS hello or an HTTP request, the handlers of redirected connections
  (\<open>handler/redirect/tcp\<close>, \<open>udp\<close>), and the one that guesses the protocol (\<open>handler/auto\<close>).  A stream
  is the list of the client's bytes.
\<close>

section \<open>Parameters, the handler and what it does\<close>

text \<open>An extension of a hello: a hidden name, in its code, a server name, or any other.\<close>

datatype client_ext = HiddenName string | ServerName string | OtherExt

text \<open>
  \<open>pa_exts\<close> are the extensions of the hello in a record, \<open>None\<close> when there is no hello.  \<open>pa_request\<close>
  is an HTTP request at the start of a stream: how many bytes the buffered reader has taken from
  the stream once the request is written, how many of them are the request, and its host.
\<close>

record stream_parsers =
  pa_sniff :: sniffers
  pa_exts :: "byte list \<Rightarrow> client_ext list option"
  pa_request :: "byte list \<Rightarrow> (nat \<times> nat \<times> string) option"

text \<open>
  The bytes of a request that is written, anew, to the target, and those that are relayed to it
  from then on.
\<close>

datatype tp_special = SendRequest "byte list" bool | RelayFrom "byte list"

type_synonym tp_event = "(unit, unit, tp_special) event"
type_synonym 'a tp_io = "(unit, tp_event, 'a) io"

datatype tp_err = TpRead | TpDial | TpWrite | TpNoAddr

record tp_handler =
  tp_limiter :: "(string \<Rightarrow> bool) option"
  tp_bypass :: "(string \<Rightarrow> bool) option"
  tp_hash :: string
  tp_tproxy :: bool
  tp_sniffing :: bool

record tp_world =
  tw_allow :: "(unit, tp_event) history \<Rightarrow> bool"
  tw_dial :: "(unit, tp_event) history \<Rightarrow> bool"
  tw_write :: "(unit, tp_event) history \<Rightarrow> bool"

definition tp_bypassed :: "tp_handler \<Rightarrow> string \<Rightarrow> bool" where
  "tp_bypassed H host = (case tp_bypass H of None \<Rightarrow> False | Some contains \<Rightarrow> contains host)"

text \<open>The host gets a port when it has none.\<close>

definition with_port :: "string \<Rightarrow> string \<Rightarrow> string" where
  "with_port host port = (if split_host_port host = None then join_host_port host port else host)"

text \<open>A target is dialled, and the stream relayed to it.\<close>

definition tp_relay :: "tp_world \<Rightarrow> string option \<Rightarrow> string \<Rightarrow> string \<Rightarrow> byte list \<Rightarrow> tp_err option tp_io" where
  "tp_relay E hash network host s = do {
     ok \<leftarrow> ask (tw_dial E) (Dial hash network host);
     if \<not> ok then return (Some TpDial)
     else deferring (emit CloseUp) (do { emit (Special (RelayFrom s)); return None })
   }"

text \<open>The same, after the request: what the reader took from the stream beyond it is gone.\<close>

definition tp_forward :: "tp_world \<Rightarrow> string option \<Rightarrow> string \<Rightarrow> nat \<Rightarrow> nat \<Rightarrow> byte list \<Rightarrow> tp_err option tp_io" where
  "tp_forward E hash host taken len s = do {
     ok \<leftarrow> ask (tw_dial E) (Dial hash ''tcp'' host);
     if \<not> ok then return (Some TpDial)
     else deferring (emit CloseUp) (do {
       ok \<leftarrow> ask (tw_write E) (\<lambda>ok. Special (SendRequest (take len s) ok));
       if \<not> ok then return (Some TpWrite)
       else do { emit (Special (RelayFrom (drop taken s))); return None }
     })
   }"

section \<open>The SNI proxy\<close>







section \<open>Redirected connections\<close>

definition redirect_handleHTTP :: "stream_parsers \<Rightarrow> tp_world \<Rightarrow> tp_handler \<Rightarrow> byte list \<Rightarrow> tp_err option tp_io" where
  "redirect_handleHTTP P E H s =
     (case pa_request P s of
        None \<Rightarrow> return (Some TpRead)
      | Some (taken, len, host) \<Rightarrow>
          let host = with_port host ''80''
          in if tp_bypassed H host then return None else tp_forward E None host taken len s)"

text \<open>The port of the name is that of the original target.\<close>

definition redirect_host :: "string \<Rightarrow> string \<Rightarrow> string" where
  "redirect_host host dst =
     (if host = [] then dst
      else with_port host (let port = (case split_host_port dst of None \<Rightarrow> [] | Some (h, p) \<Rightarrow> p)
                           in if port = [] then ''443'' else port))"

definition redirect_handleHTTPS :: "stream_parsers \<Rightarrow> tp_world \<Rightarrow> tp_handler \<Rightarrow> string \<Rightarrow> byte list \<Rightarrow> tp_err option tp_io" where
  "redirect_handleHTTPS P E H dst s =
     (case getServerName (pa_sniff P) s of
        (n, None) \<Rightarrow> return (Some TpRead)
      | (n, Some host) \<Rightarrow>
          let host = redirect_host host dst
          in if tp_bypassed H host then return None else tp_relay E None ''tcp'' host (put_back n s))"

text \<open>The header that is sniffed, and the stream with it put back.\<close>

definition redirect_hdr :: "stream_parsers \<Rightarrow> byte list \<Rightarrow> byte list" where
  "redirect_hdr P s = (let n = sn_RecordHeaderLen (pa_sniff P) in take n s @ replicate (n - length s) 0)"

definition redirect_rw :: "stream_parsers \<Rightarrow> tp_handler \<Rightarrow> byte list \<Rightarrow> byte list" where
  "redirect_rw P H s = (if tp_sniffing H then redirect_hdr P s @ drop (sn_RecordHeaderLen (pa_sniff P)) s else s)"

text \<open>\<open>local\<close> is the address of the connection, \<open>original\<close> what the system says it was for.\<close>

definition redirect_tcp_Handle ::
    "stream_parsers \<Rightarrow> tp_world \<Rightarrow> tp_handler \<Rightarrow> string \<Rightarrow> string \<times> string \<Rightarrow> (string \<times> string) option \<Rightarrow> byte list \<Rightarrow>
     tp_err option tp_io"
where
  "redirect_tcp_Handle P E H remote local original s = deferring (emit CloseClient) (do {
     ok \<leftarrow> checkRateLimit (tp_limiter H) (tw_allow E) remote;
     if \<not> ok then return None
     else case (if tp_tproxy H then Some local else original) of
       None \<Rightarrow> return (Some TpNoAddr)
     | Some (network, dst) \<Rightarrow>
         let hdr = redirect_hdr P s; rw = redirect_rw P H s
         in if tp_sniffing H \<and> sn_RecordHeaderLen (pa_sniff P) \<le> length s \<and> hdr ! 0 = sn_Handshake (pa_sniff P) \<and>
               get16 (drop 1 hdr) = 0x0301
            then redirect_handleHTTPS P E H dst rw
            else if tp_sniffing H \<and> isHTTP (bytes_string hdr) then redirect_handleHTTP P E H rw
            else if tp_bypassed H dst then return None
            else tp_relay E None network dst rw
   })"

definition redirect_udp_Handle ::
    "tp_world \<Rightarrow> tp_handler \<Rightarrow> string \<Rightarrow> string \<times> string \<Rightarrow> byte list \<Rightarrow> tp_err option tp_io"
where
  "redirect_udp_Handle E H remote local s = deferring (emit CloseClient) (do {
     ok \<leftarrow> checkRateLimit (tp_limiter H) (tw_allow E) remote;
     if \<not> ok then return None
     else if tp_bypassed H (snd local) then return None
     else tp_relay E None (fst local) (snd local) s
   })"

section \<open>Guessing the protocol\<close>

text \<open>
  The handlers of the registry, which may be missing.  A handler is handed the whole stream; the
  connection is closed only when there is nothing to read.
\<close>

record 'a auto_handlers =
  ah_http :: "(byte list \<Rightarrow> 'a tp_io) option"
  ah_socks4 :: "(byte list \<Rightarrow> 'a tp_io) option"
  ah_socks5 :: "(byte list \<Rightarrow> 'a tp_io) option"

definition auto_Handle :: "byte \<Rightarrow> byte \<Rightarrow> tp_err option auto_handlers \<Rightarrow> byte list \<Rightarrow> tp_err option tp_io" where
  "auto_Handle ver4 ver5 A s =
     (case s of
        [] \<Rightarrow> do { emit CloseClient; return (Some TpRead) }
      | b # _ \<Rightarrow>
          (case (if b = ver4 then ah_socks4 A else if b = ver5 then ah_socks5 A else ah_http A) of
             None \<Rightarrow> return None
           | Some f \<Rightarrow> f s))"

section \<open>What the target gets\<close>


text \<open>
  Of a stream: a TLS stream is relayed as it is; of another the request is written and what follows
  what the reader took.
\<close>

definition tp_may ::
    "tp_handler \<Rightarrow> string \<Rightarrow> (string \<Rightarrow> string \<Rightarrow> bool) \<Rightarrow> (byte list \<Rightarrow> tp_event list \<Rightarrow> bool) \<Rightarrow> tp_event list \<Rightarrow> tp_event \<Rightarrow> bool"
where
  "tp_may H remote target gets es e = (case e of
     Dial h n a ok \<Rightarrow> Allow (host_of remote) False \<notin> set es \<and> \<not> tp_bypassed H a \<and> target n a
   | Special (RelayFrom r) \<Rightarrow> gets r es
   | _ \<Rightarrow> True)"

lemma tp_may_simps [simp]:
  "tp_may H remote target gets es (Allow h ok)" "tp_may H remote target gets es CloseUp"
  "tp_may H remote target gets es CloseClient" "tp_may H remote target gets es (Special (SendRequest b ok))"
  "tp_may H remote target gets es (Special (RelayFrom r)) \<longleftrightarrow> gets r es"
  "tp_may H remote target gets es (Dial src n a ok) \<longleftrightarrow>
     Allow (host_of remote) False \<notin> set es \<and> \<not> tp_bypassed H a \<and> target n a"
  by (simp_all add: tp_may_def)

lemma tp_rate_allowed:
  "guarded (tp_may H remote target gets) [] (rate_allowed l a ok)"
  "Allow h False \<notin> set (rate_allowed l a True)"
  by (auto simp: rate_allowed_def split: option.split)




text \<open>A hello without a server name leads to the host of the proxy itself, at port 443.\<close>

lemma sni_nameless: "with_port [] ''443'' = '':443''"
  by code_simp

section \<open>Redirected connections\<close>

lemma redirect_rw_padded:
  "redirect_rw P H s = (if tp_sniffing H then s @ replicate (sn_RecordHeaderLen (pa_sniff P) - length s) 0 else s)"
  by (cases "length s \<le> sn_RecordHeaderLen (pa_sniff P)") (simp_all add: redirect_rw_def redirect_hdr_def Let_def)

definition redirect_target :: "stream_parsers \<Rightarrow> tp_handler \<Rightarrow> string \<Rightarrow> string \<Rightarrow> byte list \<Rightarrow> string \<Rightarrow> string \<Rightarrow> bool" where
  "redirect_target P H network dst s n a \<longleftrightarrow>
     n = network \<and> a = dst \<or>
     tp_sniffing H \<and> n = ''tcp'' \<and>
       ((\<exists>host. snd (getServerName (pa_sniff P) (redirect_rw P H s)) = Some host \<and> a = redirect_host host dst) \<or>
        (\<exists>taken len host. pa_request P (redirect_rw P H s) = Some (taken, len, host) \<and> a = with_port host ''80''))"

definition redirect_gets :: "stream_parsers \<Rightarrow> tp_handler \<Rightarrow> byte list \<Rightarrow> byte list \<Rightarrow> tp_event list \<Rightarrow> bool" where
  "redirect_gets P H s r es \<longleftrightarrow> r = redirect_rw P H s \<or>
     (\<exists>taken len host. pa_request P (redirect_rw P H s) = Some (taken, len, host) \<and>
        Special (SendRequest (take len (redirect_rw P H s)) True) \<in> set es \<and> r = drop taken (redirect_rw P H s))"

text \<open>
  A redirected connection is relayed only to where it was for, or to the host its first bytes
  name, never to a bypassed address, and not past the rate limiter; the target gets the stream as
  it was sniffed from its first byte, or a request of it and what follows what the reader took.
\<close>

theorem redirect_target_gets:
  assumes "(if tp_tproxy H then Some local else original) = Some (network, dst)"
  shows "guarded (tp_may H remote (redirect_target P H network dst s) (redirect_gets P H s)) []
    (io_trace (redirect_tcp_Handle P E H remote local original s) ())"
proof -
  let ?ok = "case tp_limiter H of None \<Rightarrow> True | Some has \<Rightarrow> has (host_of remote) \<longrightarrow> tw_allow E ((), [])"
  let ?P = "tp_may H remote (redirect_target P H network dst s) (redirect_gets P H s)" and ?rw = "redirect_rw P H s"
  have tls: "wp (redirect_handleHTTPS P E H dst ?rw) (\<lambda>r h. guarded ?P [] (snd h @ [CloseClient])) (w, es)"
    if "tp_sniffing H" "guarded ?P [] es" "Allow (host_of remote) False \<notin> set es" for w es
    using that
    by (auto simp: redirect_handleHTTPS_def tp_relay_def Let_def wp_simps redirect_target_def redirect_gets_def
        split: prod.split option.split)
  have http: "wp (redirect_handleHTTP P E H ?rw) (\<lambda>r h. guarded ?P [] (snd h @ [CloseClient])) (w, es)"
    if "tp_sniffing H" "guarded ?P [] es" "Allow (host_of remote) False \<notin> set es" for w es
    using that
    by (auto simp: redirect_handleHTTP_def tp_forward_def Let_def wp_simps redirect_target_def redirect_gets_def
        split: prod.split option.split)
  have other: "wp (tp_relay E None network dst ?rw) (\<lambda>r h. guarded ?P [] (snd h @ [CloseClient])) (w, es)"
    if "guarded ?P [] es" "Allow (host_of remote) False \<notin> set es" "\<not> tp_bypassed H dst" for w es
    using that by (auto simp: tp_relay_def wp_simps redirect_target_def redirect_gets_def)
  have close: "wp m (\<lambda>r. wp (emit CloseClient) (\<lambda>_ h. guarded ?P [] (snd h))) h"
    if "wp m (\<lambda>r h. guarded ?P [] (snd h @ [CloseClient])) h" for m :: "tp_err option tp_io" and h
    using that by (rule wp_mono) (auto simp: wp_simps)
  have "wp (redirect_tcp_Handle P E H remote local original s) (\<lambda>r h. guarded ?P [] (snd h)) ((), [])"
    by (cases ?ok)
      (auto simp: redirect_tcp_Handle_def wp_simps tp_rate_allowed assms Let_def
        intro!: close tls http other)
  then show ?thesis by (rule io_trace_wp)
qed

definition demo_parsers :: stream_parsers where
  "demo_parsers = \<lparr>pa_sniff = demo_sniffers, pa_exts = \<lambda>_. None, pa_request = \<lambda>_. None\<rparr>"

definition demo_tp_handler :: tp_handler where
  "demo_tp_handler = \<lparr>tp_limiter = None, tp_bypass = None, tp_hash = [], tp_tproxy = True, tp_sniffing = True\<rparr>"

definition demo_tp_world :: tp_world where
  "demo_tp_world = \<lparr>tw_allow = \<lambda>_. True, tw_dial = \<lambda>_. True, tw_write = \<lambda>_. True\<rparr>"

theorem redirect_target_gets_witness:
  "guarded (tp_may demo_tp_handler [] (redirect_target demo_parsers demo_tp_handler ''tcp'' ''10.0.0.1:25'' [1, 2])
     (redirect_gets demo_parsers demo_tp_handler [1, 2])) []
     [Dial None ''tcp'' ''10.0.0.1:25'' True, Special (RelayFrom [1, 2, 0, 0, 0]), CloseUp, CloseClient]"
proof -
  have trace: "io_trace (redirect_tcp_Handle demo_parsers demo_tp_world demo_tp_handler [] (''tcp'', ''10.0.0.1:25'') None [1, 2]) () =
    [Dial None ''tcp'' ''10.0.0.1:25'' True, Special (RelayFrom [1, 2, 0, 0, 0]), CloseUp, CloseClient]"
    by code_simp
  show ?thesis
    using redirect_target_gets [where H = demo_tp_handler and local = "(''tcp'', ''10.0.0.1:25'')" and original = None
        and network = "''tcp''" and dst = "''10.0.0.1:25''" and P = demo_parsers and E = demo_tp_world and remote = "[]" and s = "[1, 2]"]
    unfolding trace by (simp add: demo_tp_handler_def)
qed

section \<open>A missing handler\<close>

text \<open>Of a protocol that has no handler the connection is neither served nor closed.\<close>

lemma auto_missing_handler_keeps_client:
  assumes "(if b = ver4 then ah_socks4 A else if b = ver5 then ah_socks5 A else ah_http A) = None"
  shows "io_trace (auto_Handle ver4 ver5 A (b # s)) () = [] \<and> io_result (auto_Handle ver4 ver5 A (b # s)) () = None"
  using assms by (simp add: auto_Handle_def io_trace_def io_result_def)

end
