(* ===== verification/Spec2Isabelle.thy ===== *)
theory Spec2Isabelle
  imports Bypass Admission Hosts Ingress Auth ConnRace TrafficConn Chain Icmp ObfsTls
    Pht Http2Handler DnsHandler RelayConnector Tap SocksConnector HttpConnector ObfsHttp Dialers Listeners Chunks Sshd Shadowsocks
    Wrappers RequestListeners BindListeners RedirectUdp TlsConfig ClientDialers
    Service Registry EntryPoint ForwardHandler HttpHandler Api ParseService RateLimiter Socks NetRelay Transparent
begin

text \<open>
  A verification library for the proxy and tunnel server \<open>gost_x\<close>.

  \<^bold>\<open>The program.\<close>  A service (\<open>service/service.go\<close>) accepts connections from a listener and hands
  each, after the hooks and the admission control, to a handler.  The handler speaks a proxy
  protocol with the client, asks the authenticator, the rate limiter and the bypass, and dials the
  target through a router: a chain of hops whose nodes a selector picks, with the host table in front.
  Then it relays.  Listeners and routers wrap connections with traffic and connection limits.  Rules
  (bypass, admission, hosts, ingress, users, limits) come from the configuration and from files, redis or
  HTTP, which goroutines read again and again.  Objects are made from the configuration
  (\<open>config/parsing\<close>), kept by name in the registries (\<open>registry\<close>) and changed while the program
  runs through the web API (\<open>api\<close>).

  \<^bold>\<open>How it is modelled.\<close>  A struct is a record, an operation a function of the state to the result and
  the new state, with the names of the source.  Bytes and counters are words.  An error is a value of
  \<open>option\<close> or a sum; a panic is \<open>None\<close> where the text says so.  What the program only calls (files,
  redis, the network, clocks, random numbers, third-party packages) is a parameter: an argument of the
  definitions, with named hypotheses where the code relies on its behaviour, and these are stated as
  locales and interpreted on a concrete instance.  A handler is an operation of the monad of \<open>Handler\<close>:
  it is given oracles, functions of the history for what the outside answers, and leaves a trace of
  events; \<open>wp\<close> and \<open>guarded\<close> are its program logic, and a theorem about \<open>io_trace\<close> speaks of every
  behaviour of the outside.  Goroutines that share counters are a step relation (\<open>ConnRace\<close>), and the two
  directions of a relay one of interleaved rounds (\<open>NetRelay\<close>).

  \<^bold>\<open>Foundations.\<close>
  \<^item> \<open>Prelude\<close>: types of bytes and integers, rule collections, generic lemmas.
  \<^item> \<open>GoStrings\<close>, \<open>GoNet\<close>, \<open>Bytes\<close>: what the program uses of \<open>strings\<close>, \<open>strconv\<close>, \<open>bufio\<close>,
    \<open>net\<close> and \<open>encoding/binary\<close>.
  \<^item> \<open>Cidr\<close>, \<open>ThirdParty\<close>: the interfaces of the CIDR ranger, the expiring cache and the token bucket, as
    locales.
  \<^item> \<open>Loader\<close>, \<open>Reload\<close>: the loaders of \<open>internal/loader\<close>, and the goroutine \<open>periodReload\<close> with the
    contract \<open>reloadable\<close>: after any sequence of ticks, of which some fail, the installed rules are those of the
    last reload that succeeded.  Six components interpret it.
  \<^item> \<open>Handler\<close>: the monad of handlers, its rules, and the events all handlers share.

  \<^bold>\<open>Rules.\<close>
  \<^item> \<open>Matcher\<close> (\<open>internal/matcher\<close>), \<open>Bypass\<close>, \<open>Admission\<close>, \<open>Hosts\<close>, \<open>Ingress\<close>, \<open>Auth\<close>: options,
    loading, parsing of lines, and the question the component answers, related to the rules of the
    configuration and of the last good reload.
  \<^item> \<open>ConnLimiter\<close>, \<open>ConnRace\<close> (\<open>limiter/conn\<close>): counters, groups, rules, and that no limit is exceeded,
    by single operations and by interleaved ones.
  \<^item> \<open>Traffic\<close>, \<open>TrafficConn\<close> (\<open>limiter/traffic\<close>): the limiters and the wrapped connections, which lose
    no byte.
  \<^item> \<open>Wrappers\<close> (\<open>metrics/wrapper\<close>, \<open>admission/wrapper\<close>, \<open>limiter/traffic/wrapper\<close>): what is put around the socket of a listener.
  \<^item> \<open>RateLimiter\<close> (\<open>limiter/rate\<close>).

  \<^bold>\<open>Routing and serving.\<close>
  \<^item> \<open>Selector\<close> (\<open>selector\<close>), \<open>Chain\<close> (\<open>chain\<close>): filters, strategies, hops, routes, marks.
  \<^item> \<open>Service\<close> (\<open>service\<close>), \<open>Registry\<close> (\<open>registry\<close>).
  \<^item> \<open>Parsing\<close>, \<open>ParseService\<close> (\<open>config\<close>, \<open>config/parsing\<close>): from the configuration to the components.
  \<^item> \<open>Api\<close> (\<open>api\<close>): the requests that change objects, configuration and services, and that these stay
    in step.

  \<^bold>\<open>Protocols.\<close>
  \<^item> \<open>RelayConn\<close>, \<open>Tunnel\<close>, \<open>RelayHandler\<close>, \<open>EntryPoint\<close> (\<open>handler/relay\<close>, \<open>connector/relay/conn.go\<close>,
    \<open>internal/util/relay\<close>, \<open>internal/util/socks\<close>): datagrams in a stream, the pool of tunnels, the
    session, and the entry points of tunnels.
  \<^item> \<open>Sniff\<close>, \<open>ForwardHandler\<close> (\<open>internal/util/forward\<close>, \<open>handler/forward\<close>), \<open>HttpHandler\<close>
    (\<open>handler/http\<close>), \<open>Socks\<close> (\<open>handler/socks\<close>), \<open>Transparent\<close> (\<open>handler/sni\<close>, \<open>handler/redirect\<close>,
    \<open>handler/auto\<close>): the handlers.
  \<^item> \<open>HostCode\<close> (\<open>connector/sni\<close>, \<open>handler/sni\<close>, \<open>handler/http\<close>): hidden host names, with base 64 and
    CRC-32.
  \<^item> \<open>Http2Handler\<close> (\<open>handler/http2\<close>, \<open>handler/http3\<close>), \<open>Resolver\<close>, \<open>DnsHandler\<close> (\<open>resolver\<close>,
    \<open>internal/util/resolver\<close>, \<open>handler/dns\<close>): the proxies of HTTP/2 and HTTP/3, the exchanges of names with their cache, and
    the DNS proxy.
  \<^item> \<open>RelayConnector\<close> (\<open>connector/relay\<close>), \<open>SocksConnector\<close> (\<open>connector/socks\<close>, \<open>internal/util/socks\<close>),
    \<open>HttpConnector\<close> (\<open>connector/http\<close>, \<open>connector/http2\<close>): the client side of the proxies; each has a theorem that
    joins it to the handler of its protocol.
  \<^item> \<open>Shadowsocks\<close> (\<open>handler/ss\<close>, \<open>connector/ss\<close>, \<open>internal/util/ss\<close>): its streams and datagrams, around ciphers of other packages.
  \<^item> \<open>Sshd\<close> (\<open>handler/sshd\<close>, \<open>connector/sshd\<close>, \<open>direct\<close>, \<open>forward\<close>): forwarding by SSH.
  \<^item> \<open>Tun\<close>, \<open>Tap\<close> (\<open>handler/tun\<close>, \<open>handler/tap\<close>): devices, with routes learned from keep-alive messages and
    from frames.
  \<^item> \<open>ObfsTls\<close> (\<open>dialer/obfs/tls\<close>, \<open>listener/obfs/tls\<close>), \<open>ObfsHttp\<close> (\<open>dialer/obfs/http\<close>,
    \<open>listener/obfs/http\<close>), \<open>Icmp\<close> (\<open>internal/util/icmp\<close>), \<open>Pht\<close> (\<open>internal/util/pht\<close>), \<open>Chunks\<close>
    (\<open>dialer/grpc\<close>, \<open>listener/grpc\<close>, \<open>internal/util/ws\<close>, \<open>internal/util/dtls\<close>): transports.  \<open>Reader\<close> holds what those
    with a buffer share.
  \<^item> \<open>Dialers\<close> (\<open>dialer/mtls\<close>, \<open>mws\<close>, \<open>ssh\<close>, \<open>sshd\<close>, \<open>quic\<close>, \<open>icmp\<close>, \<open>kcp\<close>): sessions that carry many connections.
    \<open>Listeners\<close> (the same of \<open>listener\<close>, with \<open>ws\<close>, \<open>grpc\<close>, \<open>http2/h2\<close>): the queue between their goroutines and \<open>Accept\<close>.
    \<open>RequestListeners\<close> (\<open>listener/http2\<close>, \<open>http3\<close>, \<open>dns\<close>): those whose connections are requests.
    \<open>BindListeners\<close> (\<open>listener/rtcp\<close>, \<open>rudp\<close>): ports of remote hosts; \<open>RedirectUdp\<close> (\<open>listener/redirect/udp\<close>): redirected datagrams.
    \<open>ClientDialers\<close> (\<open>dialer/http2\<close>, \<open>http3\<close>, \<open>grpc\<close>, \<open>pht\<close>, \<open>ws\<close>): a client for each address.
  \<^item> \<open>TlsConfig\<close> (\<open>internal/util/tls\<close>, \<open>config/parsing/tls.go\<close>): whom clients and servers trust.
  \<^item> \<open>NetRelay\<close> (\<open>internal/net\<close>): the relays under the handlers.

  \<^bold>\<open>What the theorems show.\<close>  Rules: the answer is that of the rules of the configuration with those of the
  last good reload (refinement).  Limits: no interleaving exceeds a limit (invariants).  Handlers: what is
  dialled, bound and relayed is what the client asked for, is permitted, and comes after the client has been
  accepted, in the order of the trace (\<open>guarded\<close>).  Transports: what is written is read, in any fragmentation
  (round trips).  Loops: the accept loop backs off within its bounds and serves every connection until a
  permanent error; the relays end.  Some theorems state defects, with the behaviour of the code as it is: a
  connection closed twice by a failed relay session frees two places, an unauthorized request stops the local
  forwarder, a failed update of a service leaves it stopped, a service that cannot be made and a failed upgrade of
  a bound port keep the port, and a connector with a configured header asks for datagrams for ever after it has done so once,
  a dial forgets a session that is being set up, the listener of HTTP/2 does not tell its end and answers a request it discards
  with success, that of DNS over HTTP cannot be closed while requests are queued, a connection through Shadowsocks keeps the deadline
  of its request, a datagram from an address of IPv6 ends the service for redirected datagrams, and authorities for clients
  are ignored without a certificate.

  \<^bold>\<open>Bounds and fuel.\<close>  \<open>obfs_Parse\<close> has fuel, one unit for each byte, and the theorems give it at least the
  length of its input; all other loops are structural or terminate by a measure.  Lengths are below \<open>2 ^ 16\<close>
  where a field of the protocol holds them, and counters below \<open>2 ^ 61\<close> where additions must not wrap.

  \<^bold>\<open>Not modelled.\<close>  The options with which third-party transports are set up (the rest of \<open>dialer\<close>, \<open>listener\<close> and
  \<open>internal/util\<close>), the creation of devices, ciphers, the registration of metrics, logging, the reading of metadata and of the configuration
  file, and plugins of other processes: I/O, system calls and calls of packages that are not part of the repository.
\<close>

section \<open>Connection limits and failing relays\<close>

text \<open>What the closes of a handler's trace do to the counters of the client's connection.\<close>

definition close_counted :: "nat list \<Rightarrow> ('q, 'm, 'x) event list \<Rightarrow> ll_store \<Rightarrow> ll_store" where
  "close_counted g es h = fold (\<lambda>e h. if e = CloseClient then conn_serverConn_Close g h else h) es h"

lemma close_counted_filter: "close_counted g es h = close_counted g (filter (\<lambda>e. e = CloseClient) es) h"
  by (induction es arbitrary: h) (simp_all add: close_counted_def)

text \<open>
  C13. A client at its connection limit gets past it with requests that fail: a relay session whose
  dial fails closes the counted connection twice, so that two more connections are granted
  where one was closed.
\<close>

theorem relay_failed_dial_frees_two:
  assumes "Dial hash n a False \<in> set (io_trace (relay_Handle K T E H remote) p)"
    and "group_ok h g" "\<forall>a\<in>set g. ll_current (h ! a) = ll_limit (h ! a)"
    and "\<forall>a\<in>set g. 2 \<le> ll_limit (h ! a) \<and> ll_limit (h ! a) < 2 ^ 61"
  shows "let h2 = close_counted g (io_trace (relay_Handle K T E H remote) p) h;
             (b3, h3) = limiterGroup_Allow g 1 h2;
             (b4, h4) = limiterGroup_Allow g 1 h3
         in \<not> fst (limiterGroup_Allow g 1 h) \<and> b3 \<and> b4 \<and> h4 = h"
  using conn_double_close_frees_two [OF assms(2-4)] relay_failed_dial_closes_twice [OF assms(1)]
  by (subst close_counted_filter) (simp add: close_counted_def)

theorem relay_failed_dial_frees_two_witness:
  "fst (limiterGroup_Allow [0] 1 (close_counted [0]
     (io_trace (relay_Handle demo_relay demo_ids (demo_relay_world demo_relay_request False) demo_relay_handler ''10.0.0.2:9'') Map.empty)
     [\<lparr>ll_limit = 2, ll_current = 2\<rparr>]))"
  using relay_failed_dial_frees_two [of None "''tcp''" "''10.0.0.1:80''" demo_relay demo_ids
      "demo_relay_world demo_relay_request False" demo_relay_handler "''10.0.0.2:9''" Map.empty
      "[\<lparr>ll_limit = 2, ll_current = 2\<rparr>]" "[0]"]
  by (simp add: demo_relay_failed group_ok_def Let_def split: prod.splits)

end
